(* ===== verification/Prelude.thy ===== *)
theory Prelude
  imports Complex_Main
begin

text \<open>
  What the components share: the fact collections of the development, and generic lemmas
  on lists and options that no library theory has in the form needed here.
\<close>

named_theorems js_num \<open>evaluation rules for the ECMAScript Number operations\<close>
named_theorems js_val \<open>evaluation rules for property reads on JSON values\<close>
named_theorems hook_defs \<open>definitions of the steps of the React hooks\<close>

section \<open>JavaScript collections as lists\<close>

text \<open>
  \<open>Set.prototype.add\<close>: a JavaScript \<open>Set\<close> keeps insertion order, and adding a member
  again leaves it where it is.
\<close>

definition set_add :: "'a \<Rightarrow> 'a list \<Rightarrow> 'a list" where
  "set_add x xs = (if x \<in> set xs then xs else xs @ [x])"

lemma set_set_add [simp]: "set (set_add x xs) = insert x (set xs)"
  by (auto simp: set_add_def)

lemma distinct_set_add [simp]: "distinct (set_add x xs) = distinct xs"
  by (auto simp: set_add_def)

lemma distinct_fold_set_add [simp]: "distinct (fold set_add ys xs) = distinct xs"
  by (induction ys arbitrary: xs) auto

lemma set_fold_set_add [simp]: "set (fold set_add ys xs) = set ys \<union> set xs"
  by (induction ys arbitrary: xs) auto

section \<open>Options\<close>

text \<open>\<open>a ?? b\<close>, where \<open>None\<close> is null or undefined.\<close>

definition nullish :: "'a option \<Rightarrow> 'a \<Rightarrow> 'a" where
  "nullish x d = (case x of None \<Rightarrow> d | Some v \<Rightarrow> v)"

lemma nullish_simps [simp]: "nullish None d = d" "nullish (Some v) d = v"
  by (simp_all add: nullish_def)

section \<open>Lists\<close>

lemma last_filter_eq_Some:
  assumes "filter P xs \<noteq> []"
  shows "last (filter P xs) \<in> set xs \<and> P (last (filter P xs))"
proof -
  have "last (filter P xs) \<in> set (filter P xs)"
    using assms by (rule last_in_set)
  then show ?thesis by auto
qed

lemma filter_key_unique:
  assumes "distinct (map k xs)" and "x \<in> set xs" and "y \<in> set xs" and "k x = k y"
  shows "x = y"
  using assms by (meson distinct_map inj_onD)

end
