(* ===== verification/JsNumber.thy ===== *)
theory JsNumber
  imports Prelude
begin

text \<open>
  ECMAScript Numbers (IEEE 754 binary64). A finite Number is its exact rational value;
  every arithmetic operation computes the exact result and rounds it with \<open>fl\<close>, which
  rounds to the nearest binary64 value, ties to even, subnormals and overflow included.
  The two zeros are one value here: the program never divides by a zero, never prints one
  and never compares with \<open>Object.is\<close>, so it cannot tell them apart.
\<close>

datatype jsnum = NaN | PosInf | NegInf | Fin rat

section \<open>Rounding to binary64\<close>

fun ilog2 :: "int \<Rightarrow> nat" where
  "ilog2 n = (if n \<le> 1 then 0 else Suc (ilog2 (n div 2)))"

declare ilog2.simps [simp del]

text \<open>\<open>binade x\<close> is the exponent \<open>e\<close> with \<open>2\<^sup>e \<le> x < 2\<^sup>e\<^sup>+\<^sup>1\<close>, for positive \<open>x\<close>.\<close>

definition binade :: "rat \<Rightarrow> int" where
  "binade x =
     (let (p, q) = quotient_of x;
          k = int (ilog2 p) - int (ilog2 q)
      in if 2 powi k \<le> x then k else k - 1)"

definition round_half_even :: "rat \<Rightarrow> int" where
  "round_half_even x =
     (let f = \<lfloor>x\<rfloor>; d = x - of_int f
      in if d < 1 / 2 then f else if 1 / 2 < d then f + 1
         else if even f then f else f + 1)"

text \<open>The exponent of the unit in the last place at \<open>x\<close>; \<open>2\<^sup>-\<^sup>1\<^sup>0\<^sup>7\<^sup>4\<close> is the least subnormal.\<close>

definition quantum :: "rat \<Rightarrow> int" where
  "quantum x = (if x = 0 then 0 else max (- 1074) (binade \<bar>x\<bar> - 52))"

definition fl_val :: "rat \<Rightarrow> rat" where
  "fl_val x = of_int (round_half_even (x / 2 powi quantum x)) * 2 powi quantum x"

definition overflow_bound :: rat where
  "overflow_bound = 2 ^ 1024"

definition fl :: "rat \<Rightarrow> jsnum" where
  "fl x =
     (let r = fl_val x
      in if overflow_bound \<le> r then PosInf else if r \<le> - overflow_bound then NegInf
         else Fin r)"

section \<open>Arithmetic\<close>

fun js_neg :: "jsnum \<Rightarrow> jsnum" where
  "js_neg NaN = NaN"
| "js_neg PosInf = NegInf"
| "js_neg NegInf = PosInf"
| "js_neg (Fin x) = Fin (- x)"

fun js_add :: "jsnum \<Rightarrow> jsnum \<Rightarrow> jsnum" where
  "js_add (Fin x) (Fin y) = fl (x + y)"
| "js_add NaN _ = NaN"
| "js_add _ NaN = NaN"
| "js_add PosInf NegInf = NaN"
| "js_add NegInf PosInf = NaN"
| "js_add PosInf _ = PosInf"
| "js_add NegInf _ = NegInf"
| "js_add _ y = y"

definition js_sub :: "jsnum \<Rightarrow> jsnum \<Rightarrow> jsnum" where
  "js_sub x y = js_add x (js_neg y)"

fun js_sgn :: "jsnum \<Rightarrow> int" where
  "js_sgn NaN = 0"
| "js_sgn PosInf = 1"
| "js_sgn NegInf = - 1"
| "js_sgn (Fin x) = (if 0 < x then 1 else if x < 0 then - 1 else 0)"

text \<open>An infinity with the given sign, NaN for sign 0.\<close>

definition signed_inf :: "int \<Rightarrow> jsnum" where
  "signed_inf s = (if 0 < s then PosInf else if s < 0 then NegInf else NaN)"

fun js_mul :: "jsnum \<Rightarrow> jsnum \<Rightarrow> jsnum" where
  "js_mul (Fin x) (Fin y) = fl (x * y)"
| "js_mul NaN _ = NaN"
| "js_mul _ NaN = NaN"
| "js_mul x y = signed_inf (js_sgn x * js_sgn y)"

text \<open>
  Division; a zero divisor is read as \<open>+0\<close>, which no expression of the program reaches.
\<close>

fun js_div :: "jsnum \<Rightarrow> jsnum \<Rightarrow> jsnum" where
  "js_div (Fin x) (Fin y) = (if y = 0 then signed_inf (js_sgn (Fin x)) else fl (x / y))"
| "js_div NaN _ = NaN"
| "js_div _ NaN = NaN"
| "js_div (Fin _) _ = Fin 0"
| "js_div x (Fin y) = signed_inf (js_sgn x * (if y < 0 then - 1 else 1))"
| "js_div _ _ = NaN"

definition trunc_rat :: "rat \<Rightarrow> int" where
  "trunc_rat x = (if 0 \<le> x then \<lfloor>x\<rfloor> else \<lceil>x\<rceil>)"

text \<open>The remainder \<open>%\<close> is exact and takes the sign of the dividend.\<close>

fun js_mod :: "jsnum \<Rightarrow> jsnum \<Rightarrow> jsnum" where
  "js_mod (Fin x) (Fin y) =
     (if y = 0 then NaN else Fin (x - y * of_int (trunc_rat (x / y))))"
| "js_mod (Fin x) PosInf = Fin x"
| "js_mod (Fin x) NegInf = Fin x"
| "js_mod _ _ = NaN"

section \<open>Comparison\<close>

fun js_lt :: "jsnum \<Rightarrow> jsnum \<Rightarrow> bool" where
  "js_lt NaN _ = False"
| "js_lt _ NaN = False"
| "js_lt (Fin x) (Fin y) = (x < y)"
| "js_lt NegInf NegInf = False"
| "js_lt NegInf _ = True"
| "js_lt _ NegInf = False"
| "js_lt PosInf _ = False"
| "js_lt _ PosInf = True"

fun js_eq :: "jsnum \<Rightarrow> jsnum \<Rightarrow> bool" where
  "js_eq NaN _ = False"
| "js_eq _ NaN = False"
| "js_eq x y = (x = y)"

definition js_le :: "jsnum \<Rightarrow> jsnum \<Rightarrow> bool" where
  "js_le x y \<longleftrightarrow> js_lt x y \<or> js_eq x y"

section \<open>The Number and Math functions the program calls\<close>

fun is_finite :: "jsnum \<Rightarrow> bool" where
  "is_finite (Fin _) = True"
| "is_finite _ = False"

definition max_safe :: int where
  "max_safe = 9007199254740991"

fun is_safe_integer :: "jsnum \<Rightarrow> bool" where
  "is_safe_integer (Fin x) = (of_int \<lfloor>x\<rfloor> = x \<and> \<bar>\<lfloor>x\<rfloor>\<bar> \<le> max_safe)"
| "is_safe_integer _ = False"

fun math_round :: "jsnum \<Rightarrow> jsnum" where
  "math_round (Fin x) = Fin (of_int \<lfloor>x + 1 / 2\<rfloor>)"
| "math_round x = x"

fun math_floor :: "jsnum \<Rightarrow> jsnum" where
  "math_floor (Fin x) = Fin (of_int \<lfloor>x\<rfloor>)"
| "math_floor x = x"

fun math_ceil :: "jsnum \<Rightarrow> jsnum" where
  "math_ceil (Fin x) = Fin (of_int \<lceil>x\<rceil>)"
| "math_ceil x = x"

fun math_abs :: "jsnum \<Rightarrow> jsnum" where
  "math_abs (Fin x) = Fin \<bar>x\<bar>"
| "math_abs NegInf = PosInf"
| "math_abs x = x"

definition math_max :: "jsnum \<Rightarrow> jsnum \<Rightarrow> jsnum" where
  "math_max x y = (if x = NaN \<or> y = NaN then NaN else if js_lt x y then y else x)"

definition math_min :: "jsnum \<Rightarrow> jsnum \<Rightarrow> jsnum" where
  "math_min x y = (if x = NaN \<or> y = NaN then NaN else if js_lt y x then y else x)"

text \<open>The integer in an integral Number, as an array index or a length is read.\<close>

fun int_of_num :: "jsnum \<Rightarrow> int" where
  "int_of_num (Fin x) = \<lfloor>x\<rfloor>"
| "int_of_num _ = 0"

abbreviation num_of_int :: "int \<Rightarrow> jsnum" where
  "num_of_int n \<equiv> Fin (of_int n)"

lemma js_lt_Fin_simps [simp]:
  "js_lt (Fin x) PosInf" "\<not> js_lt PosInf (Fin x)" "js_lt NegInf (Fin x)"
  "\<not> js_lt (Fin x) NegInf"
  by simp_all

lemma js_le_Fin [simp]: "js_le (Fin x) (Fin y) \<longleftrightarrow> x \<le> y"
  by (auto simp: js_le_def)

lemma math_max_Fin [simp]: "math_max (Fin x) (Fin y) = Fin (max x y)"
  by (auto simp: math_max_def max_def)

lemma math_min_Fin [simp]: "math_min (Fin x) (Fin y) = Fin (min x y)"
  by (auto simp: math_min_def min_def)

end
