(* ===== verification/JsRounding.thy ===== *)
theory JsRounding
  imports JsNumber
begin

text \<open>
  What the rest of the development relies on about binary64 rounding, stated as the
  interface \<open>float_rounding\<close> and proved of \<open>fl_val\<close>: it is monotone and odd, exact on
  the integers of 53 bits, and off by at most half a unit in the last place.
\<close>

section \<open>The binade of a positive rational\<close>

lemma ilog2_bounds: "0 < n \<Longrightarrow> 2 ^ ilog2 n \<le> n \<and> n < 2 ^ Suc (ilog2 n)"
proof (induction n rule: ilog2.induct)
  case (1 n)
  show ?case
  proof (cases "n \<le> 1")
    case True
    with "1.prems" show ?thesis by (simp add: ilog2.simps [of n])
  next
    case False
    then have "0 < n div 2" by auto
    with False "1.IH" have "2 ^ ilog2 (n div 2) \<le> n div 2 \<and> n div 2 < 2 ^ Suc (ilog2 (n div 2))"
      by simp
    with False show ?thesis by (simp add: ilog2.simps [of n]) linarith
  qed
qed

lemma powi_of_nat: "(2::rat) powi int n = 2 ^ n"
  by (simp add: power_int_def)

lemma powi_pos [simp]: "0 < (2::rat) powi k"
  by (simp add: zero_less_power_int)

lemma powi_nonzero [simp]: "(2::rat) powi k \<noteq> 0"
  using powi_pos [of k] by linarith

lemma powi_mono: "a \<le> b \<Longrightarrow> (2::rat) powi a \<le> 2 powi b"
  by (rule power_int_increasing) auto

lemma powi_strict_mono: "a < b \<Longrightarrow> (2::rat) powi a < 2 powi b"
  by (rule power_int_strict_increasing) auto

lemma powi_less_cancel: "(2::rat) powi a < 2 powi b \<Longrightarrow> a < b"
  using powi_mono [of b a] by (meson leD leI)

lemma powi_diff: "(2::rat) powi (a - b) = 2 powi a / 2 powi b"
  by (simp add: power_int_diff)

lemma powi_Suc: "(2::rat) powi (a + 1) = 2 * 2 powi a"
  by (simp add: power_int_add)

lemma binade_bounds:
  assumes "0 < x"
  shows "2 powi binade x \<le> x" and "x < 2 powi (binade x + 1)"
proof -
  obtain p q where pq: "quotient_of x = (p, q)" by (cases "quotient_of x")
  have q0: "0 < q" using pq by (rule quotient_of_denom_pos)
  have x: "x = of_int p / of_int q" using pq by (rule quotient_of_div)
  with assms q0 have p0: "0 < p" by (simp add: zero_less_divide_iff)
  define a b where "a = ilog2 p" and "b = ilog2 q"
  have ints: "2 ^ a \<le> p" "p < 2 ^ Suc a" "2 ^ b \<le> q" "q < 2 ^ Suc b"
    unfolding a_def b_def using ilog2_bounds [OF p0] ilog2_bounds [OF q0] by simp_all
  have rats: "(2::rat) ^ a \<le> of_int p" "(of_int p :: rat) < 2 ^ Suc a"
      "(2::rat) ^ b \<le> of_int q" "(of_int q :: rat) < 2 ^ Suc b"
    using ints by (metis of_int_le_iff of_int_less_iff of_int_numeral of_int_power)+
  define k where "k = int a - int b"
  have k2: "(2::rat) powi k = 2 ^ a / 2 ^ b"
    by (simp add: k_def powi_diff powi_of_nat)
  have up: "x < 2 powi (k + 1)"
  proof -
    have "of_int p * 2 ^ b \<le> (of_int p * of_int q :: rat)"
      using rats(3) p0 by simp
    also have "\<dots> < 2 ^ Suc a * of_int q"
      using rats(2) q0 by simp
    finally have "x < 2 ^ Suc a / 2 ^ b"
      unfolding x using q0 by (simp add: field_simps)
    then show ?thesis by (simp add: powi_Suc k2)
  qed
  have low: "2 powi (k - 1) \<le> x"
  proof -
    have "2 ^ a * of_int q \<le> (of_int p * of_int q :: rat)"
      using rats(1) q0 by simp
    also have "\<dots> \<le> of_int p * 2 ^ Suc b"
      using rats(4) p0 by simp
    finally have "2 ^ a / 2 ^ Suc b \<le> x"
      unfolding x using q0 by (simp add: field_simps)
    moreover have "(2::rat) powi (k - 1) = 2 ^ a / 2 ^ Suc b"
      by (simp add: powi_diff k2)
    ultimately show ?thesis by simp
  qed
  have bin: "binade x = (if 2 powi k \<le> x then k else k - 1)"
    by (simp add: binade_def pq k_def a_def b_def)
  show "2 powi binade x \<le> x" using low by (simp add: bin)
  show "x < 2 powi (binade x + 1)" using up by (auto simp: bin)
qed

lemma binade_mono:
  assumes "0 < x" and "x \<le> y"
  shows "binade x \<le> binade y"
proof -
  have "2 powi binade x \<le> x" using assms(1) by (rule binade_bounds)
  also have "\<dots> < 2 powi (binade y + 1)"
    using assms binade_bounds(2) [of y] by simp
  finally show ?thesis using powi_less_cancel by fastforce
qed

lemma binade_less:
  assumes "0 < x" and "x < 2 powi k"
  shows "binade x < k"
proof -
  have "2 powi binade x < (2::rat) powi k"
    using binade_bounds(1) [OF assms(1)] assms(2) by (rule le_less_trans)
  then show ?thesis by (rule powi_less_cancel)
qed

section \<open>Rounding to the nearest integer, ties to even\<close>

lemma round_half_even_of_int [simp]: "round_half_even (of_int n) = n"
  by (simp add: round_half_even_def)

text \<open>Every rational is an integer plus a fraction in \<open>[0, 1)\<close>; rounding looks at the fraction.\<close>

lemma round_half_even_split:
  assumes "0 \<le> d" and "d < 1"
  shows "round_half_even (of_int f + d) =
    (if d < 1 / 2 then f else if 1 / 2 < d then f + 1 else if even f then f else f + 1)"
proof -
  have "\<lfloor>of_int f + d\<rfloor> = f"
    using assms by (simp add: floor_unique)
  then show ?thesis by (simp add: round_half_even_def Let_def)
qed

lemma rat_floor_cases:
  fixes x :: rat
  obtains f d where "x = of_int f + d" and "0 \<le> d" and "d < 1" and "f = \<lfloor>x\<rfloor>"
proof
  show "x = of_int \<lfloor>x\<rfloor> + frac x" by (simp add: frac_def)
  show "0 \<le> frac x" "frac x < 1" by (simp_all add: frac_lt_1)
qed simp

lemma round_half_even_error: "\<bar>of_int (round_half_even x) - x\<bar> \<le> 1 / 2"
proof -
  obtain f d where "x = of_int f + d" "0 \<le> d" "d < 1" by (rule rat_floor_cases)
  then show ?thesis by (auto simp: round_half_even_split)
qed

lemma round_half_even_floor_ceil:
  "\<lfloor>x\<rfloor> \<le> round_half_even x \<and> round_half_even x \<le> \<lfloor>x\<rfloor> + 1"
  by (simp add: round_half_even_def Let_def)

lemma round_half_even_mono:
  assumes "x \<le> y"
  shows "round_half_even x \<le> round_half_even y"
proof -
  obtain f d where x: "x = of_int f + d" "0 \<le> d" "d < 1" "f = \<lfloor>x\<rfloor>" by (rule rat_floor_cases)
  obtain g e where y: "y = of_int g + e" "0 \<le> e" "e < 1" "g = \<lfloor>y\<rfloor>" by (rule rat_floor_cases)
  have "f \<le> g" using assms x(4) y(4) by (simp add: floor_mono)
  then consider "f = g" | "f + 1 \<le> g" by linarith
  then show ?thesis
  proof cases
    case 1
    then have "d \<le> e" using assms x(1) y(1) by simp
    moreover have "round_half_even x = (if d < 1 / 2 then f else if 1 / 2 < d then f + 1
        else if even f then f else f + 1)"
      unfolding x(1) using x(2,3) by (rule round_half_even_split)
    moreover have "round_half_even y = (if e < 1 / 2 then f else if 1 / 2 < e then f + 1
        else if even f then f else f + 1)"
      unfolding y(1) 1 using y(2,3) by (rule round_half_even_split)
    ultimately show ?thesis by auto
  next
    case 2
    then show ?thesis
      using round_half_even_floor_ceil [of x] round_half_even_floor_ceil [of y] x(4) y(4)
      by linarith
  qed
qed

lemma round_half_even_uminus: "round_half_even (- x) = - round_half_even x"
proof -
  obtain f d where x: "x = of_int f + d" "0 \<le> d" "d < 1" by (rule rat_floor_cases)
  show ?thesis
  proof (cases "d = 0")
    case True
    then have "x = of_int f" "- x = of_int (- f)" using x by simp_all
    then show ?thesis by (metis round_half_even_of_int)
  next
    case False
    then have "- x = of_int (- f - 1) + (1 - d)" "0 \<le> 1 - d" "1 - d < 1"
      using x by simp_all
    then have "round_half_even (- x) =
        (if 1 - d < 1 / 2 then - f - 1 else if 1 / 2 < 1 - d then - f - 1 + 1
         else if even (- f - 1) then - f - 1 else - f - 1 + 1)"
      using round_half_even_split [of "1 - d" "- f - 1"] by simp
    moreover have "round_half_even x = (if d < 1 / 2 then f else if 1 / 2 < d then f + 1
        else if even f then f else f + 1)"
      unfolding x(1) using x(2,3) by (rule round_half_even_split)
    ultimately show ?thesis by auto
  qed
qed

section \<open>Rounding to binary64\<close>

lemma quantum_uminus [simp]: "quantum (- x) = quantum x"
  by (simp add: quantum_def)

lemma fl_val_zero [simp]: "fl_val 0 = 0"
proof -
  have "round_half_even 0 = 0"
    using round_half_even_of_int [of 0] by simp
  then show ?thesis by (simp add: fl_val_def)
qed

lemma fl_val_uminus: "fl_val (- x) = - fl_val x"
  by (simp add: fl_val_def round_half_even_uminus)

lemma fl_val_nonneg: "0 \<le> x \<Longrightarrow> 0 \<le> fl_val x"
proof -
  assume "0 \<le> x"
  then have "round_half_even 0 \<le> round_half_even (x / 2 powi quantum x)"
    by (intro round_half_even_mono) (simp add: less_imp_le)
  then have "0 \<le> round_half_even (x / 2 powi quantum x)"
    using round_half_even_of_int [of 0] by simp
  then show ?thesis by (simp add: fl_val_def less_imp_le)
qed

lemma fl_val_error: "\<bar>fl_val x - x\<bar> \<le> 2 powi quantum x / 2"
proof -
  let ?u = "2 powi quantum x :: rat"
  have "fl_val x - x = (of_int (round_half_even (x / ?u)) - x / ?u) * ?u"
    by (simp add: fl_val_def left_diff_distrib)
  then have "\<bar>fl_val x - x\<bar> = \<bar>of_int (round_half_even (x / ?u)) - x / ?u\<bar> * ?u"
    by (simp add: abs_mult)
  also have "\<dots> \<le> 1 / 2 * ?u"
    by (rule mult_right_mono [OF round_half_even_error]) (simp add: less_imp_le)
  finally show ?thesis by simp
qed

lemma fl_val_multiple:
  assumes "x = of_int m * 2 powi e" and "quantum x \<le> e"
  shows "fl_val x = x"
proof -
  define n where "n = nat (e - quantum x)"
  have "x / 2 powi quantum x = of_int m * 2 powi (e - quantum x)"
    by (simp add: assms(1) powi_diff)
  also have "\<dots> = of_int (m * 2 ^ n)"
    using assms(2) by (simp add: power_int_def n_def)
  finally have "x / 2 powi quantum x = of_int (m * 2 ^ n)" .
  then have "round_half_even (x / 2 powi quantum x) = m * 2 ^ n"
    by (simp only: round_half_even_of_int)
  then show ?thesis
    using \<open>x / 2 powi quantum x = of_int (m * 2 ^ n)\<close>
    by (simp add: fl_val_def) (metis nonzero_divide_eq_eq powi_nonzero)
qed

lemma quantum_le:
  assumes "0 < x" and "x < 2 powi (k + 53)" and "- 1074 \<le> k"
  shows "quantum x \<le> k"
  using binade_less [OF assms(1,2)] assms by (simp add: quantum_def)

lemma fl_val_of_int:
  assumes "\<bar>n\<bar> \<le> 2 ^ 53"
  shows "fl_val (of_int n) = of_int n"
proof -
  have pos: "fl_val (of_int m) = of_int m" if m: "0 < m" "m \<le> 2 ^ 53" for m :: int
  proof (cases "m = 2 ^ 53")
    case True
    then have "(of_int m :: rat) = of_int 1 * 2 powi 53" by simp
    moreover have "quantum (of_int m) \<le> 53"
      by (rule quantum_le) (use m True in \<open>simp_all add: power_int_def\<close>)
    ultimately show ?thesis by (rule fl_val_multiple)
  next
    case False
    with m have "m < 2 ^ 53" by simp
    then have "(of_int m :: rat) < of_int (2 ^ 53)" by (subst of_int_less_iff)
    then have "quantum (of_int m) \<le> 0"
      by (intro quantum_le) (use m in \<open>simp_all add: power_int_def\<close>)
    then show ?thesis by (intro fl_val_multiple [of _ m 0]) simp_all
  qed
  consider "n = 0" | "0 < n" | "0 < - n" by linarith
  then show ?thesis
  proof cases
    case 3
    then have "fl_val (of_int (- n)) = of_int (- n)" using assms by (intro pos) simp_all
    then show ?thesis using fl_val_uminus [of "of_int n"] by simp
  qed (use assms pos in simp_all)
qed

text \<open>Rounding stays inside the binade's closed interval, which gives monotonicity.\<close>

lemma fl_val_le_powi:
  assumes "0 < x" and "x \<le> 2 powi k" and "quantum x \<le> k"
  shows "fl_val x \<le> 2 powi k"
proof -
  define n where "n = nat (k - quantum x)"
  have k: "(2::rat) powi (k - quantum x) = of_int (2 ^ n)"
    using assms(3) by (simp add: power_int_def n_def)
  have "x / 2 powi quantum x \<le> of_int (2 ^ n)"
    unfolding k [symmetric] powi_diff
    by (rule divide_right_mono [OF assms(2)]) (simp add: less_imp_le)
  then have "round_half_even (x / 2 powi quantum x) \<le> 2 ^ n"
    using round_half_even_mono round_half_even_of_int by metis
  then have "(of_int (round_half_even (x / 2 powi quantum x)) :: rat) \<le> of_int (2 ^ n)"
    by (subst of_int_le_iff)
  then have "fl_val x \<le> 2 powi (k - quantum x) * 2 powi quantum x"
    unfolding fl_val_def k by (rule mult_right_mono) (simp add: less_imp_le)
  then show ?thesis by (simp add: powi_diff)
qed

lemma fl_val_ge_powi:
  assumes "2 powi k \<le> x" and "quantum x \<le> k"
  shows "2 powi k \<le> fl_val x"
proof -
  define n where "n = nat (k - quantum x)"
  have k: "(2::rat) powi (k - quantum x) = of_int (2 ^ n)"
    using assms(2) by (simp add: power_int_def n_def)
  have "of_int (2 ^ n) \<le> x / 2 powi quantum x"
    unfolding k [symmetric] powi_diff
    by (rule divide_right_mono [OF assms(1)]) (simp add: less_imp_le)
  then have "2 ^ n \<le> round_half_even (x / 2 powi quantum x)"
    using round_half_even_mono round_half_even_of_int by metis
  then have "of_int (2 ^ n) \<le> (of_int (round_half_even (x / 2 powi quantum x)) :: rat)"
    by (subst of_int_le_iff)
  then have "2 powi (k - quantum x) * 2 powi quantum x \<le> fl_val x"
    unfolding fl_val_def k by (rule mult_right_mono) (simp add: less_imp_le)
  then show ?thesis by (simp add: powi_diff)
qed

lemma fl_val_mono_pos:
  assumes "0 < x" and "x \<le> y"
  shows "fl_val x \<le> fl_val y"
proof (cases "quantum x = quantum y")
  case True
  have "x / 2 powi quantum y \<le> y / 2 powi quantum y"
    using assms(2) by (intro divide_right_mono) (simp_all add: less_imp_le)
  then have "round_half_even (x / 2 powi quantum y) \<le> round_half_even (y / 2 powi quantum y)"
    by (rule round_half_even_mono)
  then show ?thesis
    unfolding fl_val_def True by (intro mult_right_mono) (simp_all add: less_imp_le)
next
  case False
  have "binade x \<le> binade y" using assms by (rule binade_mono)
  with False have q: "quantum x < quantum y" "quantum y = binade y - 52" "binade x < binade y"
    using assms by (auto simp: quantum_def)
  have "x \<le> 2 powi (binade x + 1)"
    using binade_bounds(2) [OF assms(1)] by simp
  also have "\<dots> \<le> 2 powi binade y" using q(3) by (intro powi_mono) simp
  finally have "fl_val x \<le> 2 powi binade y"
    using q by (intro fl_val_le_powi [OF assms(1)]) simp_all
  also have "\<dots> \<le> fl_val y"
    using q assms by (intro fl_val_ge_powi binade_bounds) simp_all
  finally show ?thesis .
qed

lemma fl_val_mono:
  assumes "x \<le> y"
  shows "fl_val x \<le> fl_val y"
proof -
  consider "0 < x" | "x \<le> 0" "0 \<le> y" | "y < 0" by linarith
  then show ?thesis
  proof cases
    case 1
    then show ?thesis using assms by (rule fl_val_mono_pos)
  next
    case 2
    have "0 \<le> fl_val (- x)" by (rule fl_val_nonneg) (use 2 in simp)
    then have "fl_val x \<le> 0" by (simp add: fl_val_uminus)
    also have "0 \<le> fl_val y" using 2(2) by (rule fl_val_nonneg)
    finally show ?thesis .
  next
    case 3
    have "fl_val (- y) \<le> fl_val (- x)"
      by (rule fl_val_mono_pos) (use 3 assms in simp_all)
    then show ?thesis unfolding fl_val_uminus by (simp only: neg_le_iff_le)
  qed
qed

lemma fl_val_rel_error:
  assumes "2 powi (- 1021) \<le> x"
  shows "\<bar>fl_val x - x\<bar> \<le> x / 2 ^ 53"
proof -
  have x0: "0 < x" using assms powi_pos [of "- 1021"] by linarith
  have "2 powi (- 1021) < (2::rat) powi (binade x + 1)"
    using assms binade_bounds(2) [OF x0] by (rule le_less_trans)
  then have "- 1021 \<le> binade x" using powi_less_cancel by fastforce
  then have q: "quantum x = binade x - 52" using x0 by (simp add: quantum_def)
  have "\<bar>fl_val x - x\<bar> \<le> 2 powi (binade x - 52) / 2"
    using fl_val_error [of x] by (simp only: q)
  also have "\<dots> = 2 powi binade x / 2 ^ 53" by (simp add: powi_diff)
  also have "\<dots> \<le> x / 2 ^ 53"
    using binade_bounds(1) [OF x0] by (intro divide_right_mono) simp_all
  finally show ?thesis .
qed

section \<open>The interface of a rounding function\<close>

text \<open>
  The laws of binary64 rounding that the program's arithmetic rests on. What is proved from
  them holds of every rounding function with these laws.
\<close>

locale float_rounding =
  fixes r :: "rat \<Rightarrow> rat"
  assumes mono: "x \<le> y \<Longrightarrow> r x \<le> r y"
    and odd: "r (- x) = - r x"
    and exact: "\<bar>n\<bar> \<le> 2 ^ 53 \<Longrightarrow> r (of_int n) = of_int n"
    and rel_error: "2 powi (- 1021) \<le> x \<Longrightarrow> \<bar>r x - x\<bar> \<le> x / 2 ^ 53"
begin

lemma zero: "r 0 = 0"
  using exact [of 0] by simp

lemma in_int_range:
  assumes "of_int a \<le> x" and "x \<le> of_int b" and "\<bar>a\<bar> \<le> 2 ^ 53" and "\<bar>b\<bar> \<le> 2 ^ 53"
  shows "of_int a \<le> r x \<and> r x \<le> of_int b"
  using mono [OF assms(1)] mono [OF assms(2)] exact assms(3,4) by simp

lemma quotient_error:
  assumes "0 < s" and "s < 2 ^ 53" and "0 < k" and "k \<le> 2 ^ 53"
  shows "\<bar>r (of_int s / of_int k) - of_int s / of_int k\<bar> < 1 / of_int k"
proof -
  let ?x = "of_int s / of_int k :: rat"
  have k0: "(0::rat) < of_int k" using assms(3) by simp
  have "(of_int k :: rat) \<le> of_int (2 ^ 53)" using assms(4) by (subst of_int_le_iff)
  then have "(of_int k :: rat) \<le> 2 ^ 53" by simp
  then have "1 / (2 ^ 53) \<le> 1 / (of_int k :: rat)" using k0 by (intro divide_left_mono) simp_all
  also have "\<dots> \<le> ?x" using assms(1) k0 by (intro divide_right_mono) simp_all
  finally have "1 / 2 ^ 53 \<le> ?x" .
  moreover have "2 powi (- 1021) \<le> (1 / 2 ^ 53 :: rat)"
  proof -
    have "(2::rat) powi (- 53) = 1 / 2 ^ 53" by (simp add: power_int_def power_divide)
    with powi_mono [of "- 1021" "- 53"] show ?thesis by (simp only: refl)
  qed
  ultimately have "\<bar>r ?x - ?x\<bar> \<le> ?x / 2 ^ 53" using rel_error order_trans by blast
  also have "?x / 2 ^ 53 = (of_int s / 2 ^ 53) / of_int k" by simp
  also have "\<dots> < 1 / of_int k"
  proof (rule divide_strict_right_mono [OF _ k0])
    have "(of_int s :: rat) < of_int (2 ^ 53)" using assms(2) by (subst of_int_less_iff)
    then show "(of_int s / 2 ^ 53 :: rat) < 1" by simp
  qed
  finally show ?thesis .
qed

text \<open>
  The floor and the ceiling of a rounded quotient of two integers are those of the exact
  quotient: rounding never carries a quotient across an integer.
\<close>

lemma floor_quotient:
  assumes "0 \<le> s" and "s < 2 ^ 53" and "0 < k" and "k \<le> 2 ^ 53"
  shows "\<lfloor>r (of_int s / of_int k)\<rfloor> = s div k"
proof (cases "s = 0")
  case True
  then show ?thesis by (simp add: zero)
next
  case False
  let ?x = "of_int s / of_int k :: rat" and ?q = "s div k"
  have k0: "(0::rat) < of_int k" using assms(3) by simp
  have mod: "?q * k + s mod k = s" "0 \<le> s mod k" "s mod k < k" using assms(3) by simp_all
  then have "?q * k \<le> s" by linarith
  then have "(of_int (?q * k) :: rat) \<le> of_int s" by (subst of_int_le_iff)
  then have low: "of_int ?q \<le> ?x" using k0 by (simp add: pos_le_divide_eq)
  have "(?q + 1) * k = ?q * k + k" by (simp add: distrib_right)
  with mod have "s + 1 \<le> (?q + 1) * k" by linarith
  then have "(of_int (s + 1) :: rat) \<le> of_int ((?q + 1) * k)" by (subst of_int_le_iff)
  then have up: "?x + 1 / of_int k \<le> of_int ?q + 1" using k0 by (simp add: field_simps)
  have "0 \<le> ?q" using assms(1,3) by (simp add: pos_imp_zdiv_nonneg_iff)
  moreover have "?q \<le> s"
    using zdiv_mono2 [of s 1 k] assms(1,3) by simp
  ultimately have "r (of_int ?q) = of_int ?q" using assms(2) by (intro exact) simp
  then have "of_int ?q \<le> r ?x" using mono [OF low] by simp
  moreover have "r ?x < of_int ?q + 1"
    using quotient_error [of s k] False assms up by simp
  ultimately show ?thesis by (simp add: floor_unique)
qed

lemma ceiling_quotient:
  assumes "0 \<le> s" and "s < 2 ^ 53" and "0 < k" and "k \<le> 2 ^ 53"
  shows "\<lceil>r (of_int s / of_int k)\<rceil> = - ((- s) div k)"
proof (cases "s = 0")
  case True
  then show ?thesis by (simp add: zero)
next
  case False
  define c where "c = - ((- s) div k)"
  let ?x = "of_int s / of_int k :: rat"
  have k0: "(0::rat) < of_int k" using assms(3) by simp
  have "(- s) div k = - c" by (simp add: c_def)
  then have mod: "- c * k + (- s) mod k = - s" "0 \<le> (- s) mod k" "(- s) mod k < k"
    using assms(3) div_mult_mod_eq [of "- s" k] by simp_all
  then have "s \<le> c * k" by simp
  then have "(of_int s :: rat) \<le> of_int (c * k)" by (subst of_int_le_iff)
  then have up: "?x \<le> of_int c" using k0 by (simp add: pos_divide_le_eq)
  have "(c - 1) * k = c * k - k" by (simp add: left_diff_distrib)
  with mod have "(c - 1) * k + 1 \<le> s" by simp
  then have "(of_int ((c - 1) * k + 1) :: rat) \<le> of_int s" by (subst of_int_le_iff)
  then have "of_int ((c - 1) * k + 1) / of_int k \<le> ?x"
    using k0 by (intro divide_right_mono) simp_all
  moreover have "(of_int c - 1 + 1 / of_int k :: rat) = of_int ((c - 1) * k + 1) / of_int k"
    using k0 by (simp add: field_simps)
  ultimately have low: "of_int c - 1 + 1 / of_int k \<le> ?x" by simp
  have "c \<le> s"
    using zdiv_mono2_neg [of "- s" 1 k] assms(1,3) False by (simp add: c_def)
  moreover have "0 \<le> c" using assms(1,3) by (simp add: c_def div_nonpos_pos_le0)
  ultimately have "r (of_int c) = of_int c" using assms(2) by (intro exact) simp
  then have "r ?x \<le> of_int c" using mono [OF up] by simp
  moreover have "of_int c - 1 < r ?x"
    using quotient_error [of s k] False assms low by simp
  ultimately have "\<lceil>r ?x\<rceil> = c" by (simp add: ceiling_unique)
  then show ?thesis by (simp add: c_def)
qed

end

interpretation binary64: float_rounding fl_val
  by unfold_locales (fact fl_val_mono fl_val_uminus fl_val_of_int fl_val_rel_error)+

section \<open>Number arithmetic on exact integers\<close>

lemma fl_Fin:
  assumes "\<bar>fl_val x\<bar> < overflow_bound"
  shows "fl x = Fin (fl_val x)"
proof -
  have "fl_val x < overflow_bound" "- overflow_bound < fl_val x"
    using assms by (simp_all only: abs_less_iff) linarith
  then show ?thesis by (simp add: fl_def Let_def)
qed

lemma fl_Fin_range:
  assumes "of_int a \<le> x" and "x \<le> of_int b" and "\<bar>a\<bar> \<le> 2 ^ 53" and "\<bar>b\<bar> \<le> 2 ^ 53"
  shows "fl x = Fin (fl_val x)"
proof (rule fl_Fin)
  have r: "of_int a \<le> fl_val x" "fl_val x \<le> of_int b"
    using binary64.in_int_range [OF assms] by simp_all
  have "of_int (- (2 ^ 53)) \<le> (of_int a :: rat)" "of_int b \<le> (of_int (2 ^ 53) :: rat)"
    using assms(3,4) by (simp_all only: of_int_le_iff)
  with r have "\<bar>fl_val x\<bar> \<le> 2 ^ 53" by simp
  also have "\<dots> < overflow_bound"
    unfolding overflow_bound_def by (rule power_strict_increasing) simp_all
  finally show "\<bar>fl_val x\<bar> < overflow_bound" .
qed

lemma fl_of_int [js_num]: "\<bar>n\<bar> \<le> 2 ^ 53 \<Longrightarrow> fl (of_int n) = num_of_int n"
  using fl_Fin_range [of n "of_int n" n] by (simp add: fl_val_of_int)

lemma js_add_int [js_num]:
  "\<bar>a + b\<bar> \<le> 2 ^ 53 \<Longrightarrow> js_add (num_of_int a) (num_of_int b) = num_of_int (a + b)"
  using fl_of_int [of "a + b"] by simp

lemma js_sub_int [js_num]:
  "\<bar>a - b\<bar> \<le> 2 ^ 53 \<Longrightarrow> js_sub (num_of_int a) (num_of_int b) = num_of_int (a - b)"
  using fl_of_int [of "a - b"] by (simp add: js_sub_def)

lemma js_mul_int [js_num]:
  "\<bar>a * b\<bar> \<le> 2 ^ 53 \<Longrightarrow> js_mul (num_of_int a) (num_of_int b) = num_of_int (a * b)"
  using fl_of_int [of "a * b"] by simp

section \<open>Safe integers\<close>

lemma is_safe_integer_iff: "is_safe_integer x \<longleftrightarrow> (\<exists>n. x = num_of_int n \<and> \<bar>n\<bar> \<le> max_safe)"
proof (cases x)
  case (Fin r)
  then show ?thesis by (auto intro: exI [of _ "\<lfloor>r\<rfloor>"])
qed simp_all

end
