(* ===== verification/JsValue.thy ===== *)
theory JsValue
  imports JsRounding "HOL-Library.Sublist"
begin

text \<open>
  ECMAScript strings and JSON values, and the operations on them that the program uses.
  A string is the list of bytes of its UTF-8 form, so that literals of the code are
  literals here; the program compares, concatenates, trims and searches strings and never
  indexes them, which the encoding preserves.
\<close>

section \<open>Strings\<close>

text \<open>The characters \<open>String.prototype.trim\<close> removes, each as its UTF-8 bytes.\<close>

definition js_whitespace :: "string list" where
  "js_whitespace =
     [[CHR 0x09], [CHR 0x0A], [CHR 0x0B], [CHR 0x0C], [CHR 0x0D], [CHR 0x20],
      [CHR 0xC2, CHR 0xA0], [CHR 0xE1, CHR 0x9A, CHR 0x80],
      [CHR 0xE2, CHR 0x80, CHR 0x80], [CHR 0xE2, CHR 0x80, CHR 0x81],
      [CHR 0xE2, CHR 0x80, CHR 0x82], [CHR 0xE2, CHR 0x80, CHR 0x83],
      [CHR 0xE2, CHR 0x80, CHR 0x84], [CHR 0xE2, CHR 0x80, CHR 0x85],
      [CHR 0xE2, CHR 0x80, CHR 0x86], [CHR 0xE2, CHR 0x80, CHR 0x87],
      [CHR 0xE2, CHR 0x80, CHR 0x88], [CHR 0xE2, CHR 0x80, CHR 0x89],
      [CHR 0xE2, CHR 0x80, CHR 0x8A], [CHR 0xE2, CHR 0x80, CHR 0xA8],
      [CHR 0xE2, CHR 0x80, CHR 0xA9], [CHR 0xE2, CHR 0x80, CHR 0xAF],
      [CHR 0xE2, CHR 0x81, CHR 0x9F], [CHR 0xE3, CHR 0x80, CHR 0x80],
      [CHR 0xEF, CHR 0xBB, CHR 0xBF]]"

text \<open>Remove members of \<open>ws\<close> from the front as long as there is one.\<close>

function strip :: "string list \<Rightarrow> string \<Rightarrow> string" where
  "strip ws s =
     (case find (\<lambda>w. w \<noteq> [] \<and> prefix w s) ws of
        None \<Rightarrow> s
      | Some w \<Rightarrow> strip ws (drop (length w) s))"
  by pat_completeness auto
termination
proof (relation "measure (\<lambda>(ws, s). length s)")
  fix ws :: "string list" and s w :: string
  assume "find (\<lambda>w. w \<noteq> [] \<and> prefix w s) ws = Some w"
  then have "w \<noteq> []" "prefix w s" by (auto simp: find_Some_iff)
  then have "0 < length w" "length w \<le> length s" by (auto dest: prefix_length_le)
  then have "length s - length w < length s" by linarith
  then show "((ws, drop (length w) s), ws, s) \<in> measure (\<lambda>(ws, s). length s)"
    by simp
qed simp

declare strip.simps [simp del]

definition trim :: "string \<Rightarrow> string" where
  "trim s = rev (strip (map rev js_whitespace) (rev (strip js_whitespace s)))"

definition starts_with :: "string \<Rightarrow> string \<Rightarrow> bool" where
  "starts_with p s = prefix p s"

text \<open>\<open>xs.join(sep)\<close>\<close>

fun join :: "string \<Rightarrow> string list \<Rightarrow> string" where
  "join sep [] = []"
| "join sep [x] = x"
| "join sep (x # y # ys) = x @ sep @ join sep (y # ys)"

lemma strip_no_prefix:
  "w \<in> set ws \<Longrightarrow> w \<noteq> [] \<Longrightarrow> \<not> prefix w (strip ws s)"
proof (induction ws s rule: strip.induct)
  case (1 ws s)
  show ?case
  proof (cases "find (\<lambda>w. w \<noteq> [] \<and> prefix w s) ws")
    case None
    then have "strip ws s = s" by (simp add: strip.simps [of ws s])
    with None show ?thesis using "1.prems" by (auto simp: find_None_iff)
  next
    case (Some v)
    then show ?thesis using "1.IH" "1.prems" by (simp add: strip.simps [of ws s])
  qed
qed

lemma strip_id: "(\<And>w. w \<in> set ws \<Longrightarrow> w \<noteq> [] \<Longrightarrow> \<not> prefix w s) \<Longrightarrow> strip ws s = s"
proof -
  assume "\<And>w. w \<in> set ws \<Longrightarrow> w \<noteq> [] \<Longrightarrow> \<not> prefix w s"
  then have "find (\<lambda>w. w \<noteq> [] \<and> prefix w s) ws = None" by (auto simp: find_None_iff)
  then show ?thesis by (simp add: strip.simps [of ws s])
qed

lemma strip_suffix: "suffix (strip ws s) s"
proof (induction ws s rule: strip.induct)
  case (1 ws s)
  then show ?case
    by (cases "find (\<lambda>w. w \<noteq> [] \<and> prefix w s) ws")
      (auto simp: strip.simps [of ws s] intro: suffix_order.trans suffix_drop)
qed

section \<open>Decimal notation of Numbers\<close>

definition digit_char :: "int \<Rightarrow> char" where
  "digit_char d = char_of (48 + nat d)"

fun dec_digits :: "int \<Rightarrow> string" where
  "dec_digits n =
     (if n < 10 then [digit_char n] else dec_digits (n div 10) @ [digit_char (n mod 10)])"

declare dec_digits.simps [simp del]

definition dec_int :: "int \<Rightarrow> string" where
  "dec_int n = (if n < 0 then ''-'' @ dec_digits (- n) else dec_digits n)"

text \<open>How many times a number below 1 has to be multiplied by ten to reach 1 (at most 330).\<close>

fun leading_zeros :: "nat \<Rightarrow> rat \<Rightarrow> nat" where
  "leading_zeros 0 x = 0"
| "leading_zeros (Suc n) x = (if 1 \<le> x then 0 else Suc (leading_zeros n (10 * x)))"

text \<open>The decimal exponent: \<open>10\<^sup>n\<^sup>-\<^sup>1 \<le> x < 10\<^sup>n\<close> for positive finite \<open>x\<close>.\<close>

definition dec_exponent :: "rat \<Rightarrow> int" where
  "dec_exponent x =
     (if 1 \<le> x then int (length (dec_digits \<lfloor>x\<rfloor>))
      else 1 - int (leading_zeros 330 x))"

text \<open>
  The shortest digits that read back as \<open>x\<close>: the least \<open>k\<close> for which the \<open>k\<close>-digit decimal
  nearest to \<open>x\<close> rounds to \<open>x\<close>; 17 digits always do.
\<close>

fun shortest :: "nat \<Rightarrow> nat \<Rightarrow> rat \<Rightarrow> int \<Rightarrow> nat \<times> int \<times> int" where
  "shortest fuel k x n =
     (let s = \<lfloor>x / 10 powi (n - int k) + 1 / 2\<rfloor>;
          (s', n') = (if s = 10 ^ k then (10 ^ (k - 1), n + 1) else (s, n))
      in case fuel of
           0 \<Rightarrow> (k, s', n')
         | Suc f \<Rightarrow>
             if fl (of_int s' * 10 powi (n' - int k)) = Fin x then (k, s', n')
             else shortest f (Suc k) x n)"

definition notation_of :: "nat \<Rightarrow> int \<Rightarrow> int \<Rightarrow> string" where
  "notation_of k s n =
     (let ds = dec_digits s;
          e = dec_int (n - 1);
          ex = (if 0 \<le> n - 1 then ''e+'' @ e else ''e'' @ e)
      in if int k \<le> n \<and> n \<le> 21 then ds @ replicate (nat (n - int k)) CHR ''0''
         else if 0 < n \<and> n \<le> 21 then take (nat n) ds @ ''.'' @ drop (nat n) ds
         else if - 6 < n \<and> n \<le> 0 then ''0.'' @ replicate (nat (- n)) CHR ''0'' @ ds
         else if k = 1 then ds @ ex
         else take 1 ds @ ''.'' @ drop 1 ds @ ex)"

text \<open>
  \<open>Number::toString\<close>. A safe integer is written out in decimal, which is what the general
  rule gives for it.
\<close>

fun number_to_string :: "jsnum \<Rightarrow> string" where
  "number_to_string NaN = ''NaN''"
| "number_to_string PosInf = ''Infinity''"
| "number_to_string NegInf = ''-Infinity''"
| "number_to_string (Fin x) =
     (if is_safe_integer (Fin x) then dec_int \<lfloor>x\<rfloor>
      else let (k, s, n) = shortest 16 1 \<bar>x\<bar> (dec_exponent \<bar>x\<bar>)
           in (if x < 0 then ''-'' else '''') @ notation_of k s n)"

text \<open>\<open>toFixed(f)\<close>: ties between two decimals go to the larger one.\<close>

fun to_fixed :: "nat \<Rightarrow> jsnum \<Rightarrow> string" where
  "to_fixed f (Fin x) =
     (if 10 ^ 21 \<le> \<bar>x\<bar> then number_to_string (Fin x)
      else let n = \<lfloor>\<bar>x\<bar> * 10 ^ f + 1 / 2\<rfloor>;
               ds = dec_digits n;
               m = replicate (Suc f - length ds) CHR ''0'' @ ds;
               k = length m - f
           in (if x < 0 then ''-'' else '''') @
              (if f = 0 then ds else take k m @ ''.'' @ drop k m))"
| "to_fixed f x = number_to_string x"

section \<open>JSON values\<close>

datatype jv =
    JUndef | JNull | JBool bool | JNum jsnum | JStr string | JArr "jv list"
  | JObj "(string \<times> jv) list"

text \<open>The outcome of evaluating an expression: a value, or an exception.\<close>

datatype 'a completion = Throws | Returns 'a

fun bind_completion :: "'a completion \<Rightarrow> ('a \<Rightarrow> 'b completion) \<Rightarrow> 'b completion" where
  "bind_completion Throws f = Throws"
| "bind_completion (Returns v) f = f v"

text \<open>
  Reading a property: a TypeError on undefined and null, undefined where there is no such
  property. None of the names the program reads is inherited from a prototype.
\<close>

fun get_prop :: "string \<Rightarrow> jv \<Rightarrow> jv completion" where
  "get_prop k JUndef = Throws"
| "get_prop k JNull = Throws"
| "get_prop k (JObj fs) = Returns (nullish (map_of fs k) JUndef)"
| "get_prop k _ = Returns JUndef"

text \<open>\<open>v?.k\<close>\<close>

fun get_opt :: "string \<Rightarrow> jv \<Rightarrow> jv" where
  "get_opt k (JObj fs) = nullish (map_of fs k) JUndef"
| "get_opt k _ = JUndef"

fun get_path :: "string list \<Rightarrow> jv \<Rightarrow> jv completion" where
  "get_path [] v = Returns v"
| "get_path (k # ks) v = bind_completion (get_prop k v) (get_path ks)"

text \<open>\<open>v !== null \<and> !Array.isArray(v) \<and> typeof v === "object"\<close>\<close>

fun is_plain_object :: "jv \<Rightarrow> bool" where
  "is_plain_object (JObj _) = True"
| "is_plain_object _ = False"

fun is_array :: "jv \<Rightarrow> bool" where
  "is_array (JArr _) = True"
| "is_array _ = False"

fun elements :: "jv \<Rightarrow> jv list" where
  "elements (JArr vs) = vs"
| "elements _ = []"

lemma get_prop_obj [js_val]: "get_prop k (JObj fs) = Returns (nullish (map_of fs k) JUndef)"
  by simp

text \<open>The truth of a value in a condition.\<close>

fun truthy :: "jv \<Rightarrow> bool" where
  "truthy JUndef = False"
| "truthy JNull = False"
| "truthy (JBool b) = b"
| "truthy (JNum x) = (x \<noteq> NaN \<and> \<not> js_eq x (Fin 0))"
| "truthy (JStr s) = (s \<noteq> '''')"
| "truthy _ = True"

end
