(* ===== verification/HistoryData.thy ===== *)
theory HistoryData
  imports JsValue
begin

text \<open>
  History responses: \<^verbatim>\<open>web/src/history/types.ts\<close>, the range check, the response check and
  \<open>buildMinuteSeries\<close> of \<^verbatim>\<open>web/src/history/useHistory.ts\<close>, and the aligned index of
  \<^verbatim>\<open>web/src/history/chartSeries.ts\<close>. The records of a response come from JSON and are not
  checked one by one, so they stay JSON values here, read with the property rules of the
  language; the type declarations of \<^verbatim>\<open>types.ts\<close> describe the ones the server sends.
\<close>

datatype history_range = Range_1d | Range_7d | Range_30d

record pair =
  average :: jsnum
  maximum :: jsnum

record disk_minute =
  dm_mountpoint :: string
  dm_usage :: pair
  dm_totalBytes :: jsnum
  dm_usedBytes :: jsnum

record minute_payload =
  cpuUsage :: pair
  load1 :: pair
  load5 :: pair
  load15 :: pair
  memoryUsage :: pair
  swapUsage :: pair
  pl_disks :: "disk_minute list"
  diskReadBps :: pair
  diskWriteBps :: pair
  uploadBps :: pair
  downloadBps :: pair
  totalUpload :: jsnum
  totalDownload :: jsnum

record minute_record =
  mr_serverId :: jsnum
  minuteUnix :: jsnum
  payload :: minute_payload

text \<open>The JSON form of a declared record, as the server sends it.\<close>

definition json_of_pair :: "pair \<Rightarrow> jv" where
  "json_of_pair p = JObj [(''average'', JNum (average p)), (''maximum'', JNum (maximum p))]"

definition json_of_disk :: "disk_minute \<Rightarrow> jv" where
  "json_of_disk d =
     JObj [(''mountpoint'', JStr (dm_mountpoint d)), (''usage'', json_of_pair (dm_usage d)),
           (''totalBytes'', JNum (dm_totalBytes d)), (''usedBytes'', JNum (dm_usedBytes d))]"

definition json_of_payload :: "minute_payload \<Rightarrow> jv" where
  "json_of_payload p =
     JObj [(''cpuUsage'', json_of_pair (cpuUsage p)), (''load1'', json_of_pair (load1 p)),
           (''load5'', json_of_pair (load5 p)), (''load15'', json_of_pair (load15 p)),
           (''memoryUsage'', json_of_pair (memoryUsage p)),
           (''swapUsage'', json_of_pair (swapUsage p)),
           (''disks'', JArr (map json_of_disk (pl_disks p))),
           (''diskReadBps'', json_of_pair (diskReadBps p)),
           (''diskWriteBps'', json_of_pair (diskWriteBps p)),
           (''uploadBps'', json_of_pair (uploadBps p)),
           (''downloadBps'', json_of_pair (downloadBps p)),
           (''totalUpload'', JNum (totalUpload p)),
           (''totalDownload'', JNum (totalDownload p))]"

definition json_of_record :: "minute_record \<Rightarrow> jv" where
  "json_of_record r =
     JObj [(''serverId'', JNum (mr_serverId r)), (''minuteUnix'', JNum (minuteUnix r)),
           (''payload'', json_of_payload (payload r))]"

text \<open>\<open>points\<close> is whatever the response holds under that name.\<close>

record history_response =
  fromUnix :: jsnum
  toUnix :: jsnum
  points :: jv

definition MAX_HISTORY_SPAN_SECONDS :: jsnum where
  "MAX_HISTORY_SPAN_SECONDS = num_of_int (30 * 24 * 60 * 60)"

definition isValidHistoryRange :: "jsnum \<Rightarrow> jsnum \<Rightarrow> bool" where
  "isValidHistoryRange fromU toU \<longleftrightarrow>
     is_safe_integer fromU \<and>
     is_safe_integer toU \<and>
     is_safe_integer (js_mul fromU (Fin 1000)) \<and>
     is_safe_integer (js_mul toU (Fin 1000)) \<and>
     js_eq (js_mod fromU (Fin 60)) (Fin 0) \<and>
     js_eq (js_mod toU (Fin 60)) (Fin 0) \<and>
     js_le fromU toU \<and>
     js_le (js_sub toU fromU) MAX_HISTORY_SPAN_SECONDS"

text \<open>
  \<open>isHistoryResponse\<close>, with the response it recognises: the check and the cast of the code
  in one function, \<open>None\<close> where the check fails.
\<close>

definition isHistoryResponse :: "jv \<Rightarrow> history_response option" where
  "isHistoryResponse v =
     (if \<not> is_plain_object v then None
      else case (get_opt ''fromUnix'' v, get_opt ''toUnix'' v) of
             (JNum f, JNum t) \<Rightarrow>
               if isValidHistoryRange f t \<and> is_array (get_opt ''points'' v)
               then Some \<lparr>fromUnix = f, toUnix = t, points = get_opt ''points'' v\<rparr>
               else None
           | _ \<Rightarrow> None)"

text \<open>The minute of a point, when it is one that both series builders accept.\<close>

definition point_minute :: "jsnum \<Rightarrow> jsnum \<Rightarrow> jv \<Rightarrow> jsnum option" where
  "point_minute fromU toU m =
     (case m of
        JNum x \<Rightarrow>
          if \<not> is_safe_integer x \<or> \<not> js_eq (js_mod x (Fin 60)) (Fin 0) \<or>
             js_lt x fromU \<or> js_lt toU x
          then None else Some x
      | _ \<Rightarrow> None)"

text \<open>A selector may read through a missing field, which throws.\<close>

type_synonym selector = "jv \<Rightarrow> jv completion"

fun finite_number :: "jv completion \<Rightarrow> jsnum option" where
  "finite_number (Returns (JNum x)) = (if is_finite x then Some x else None)"
| "finite_number _ = None"

section \<open>\<open>buildMinuteSeries\<close>\<close>

text \<open>
  The loop over the points fills a map from minutes to points, later points replacing
  earlier ones. A null or undefined element makes the read of its \<open>minuteUnix\<close> throw.
\<close>

fun by_minute :: "jsnum \<Rightarrow> jsnum \<Rightarrow> (jsnum \<rightharpoonup> jv) \<Rightarrow> jv list \<Rightarrow> (jsnum \<rightharpoonup> jv) completion" where
  "by_minute fromU toU m [] = Returns m"
| "by_minute fromU toU m (point # ps) =
     bind_completion (get_prop ''minuteUnix'' point)
       (\<lambda>v. case point_minute fromU toU v of
              None \<Rightarrow> by_minute fromU toU m ps
            | Some x \<Rightarrow> by_minute fromU toU (m(x \<mapsto> point)) ps)"

text \<open>
  \<open>if (point)\<close>: of the values a map can hold here only objects and arrays are records; a
  primitive has no \<open>minuteUnix\<close> and never gets in.
\<close>

definition minute_value :: "selector \<Rightarrow> (jsnum \<rightharpoonup> jv) \<Rightarrow> int \<Rightarrow> jsnum \<times> jsnum option" where
  "minute_value sel m minute =
     (js_mul (num_of_int minute) (Fin 1000),
      case m (num_of_int minute) of
        None \<Rightarrow> None
      | Some point \<Rightarrow> finite_number (sel point))"

function minutes_from :: "int \<Rightarrow> int \<Rightarrow> int list" where
  "minutes_from minute last_minute =
     (if minute \<le> last_minute then minute # minutes_from (minute + 60) last_minute else [])"
  by pat_completeness auto
termination
  by (relation "measure (\<lambda>(m, l). nat (l + 1 - m))") auto

declare minutes_from.simps [simp del]

definition buildMinuteSeries ::
  "jv list \<Rightarrow> jsnum \<Rightarrow> jsnum \<Rightarrow> selector \<Rightarrow> (jsnum \<times> jsnum option) list completion" where
  "buildMinuteSeries ps fromU toU sel =
     (if \<not> isValidHistoryRange fromU toU then Returns []
      else bind_completion (by_minute fromU toU Map.empty ps)
        (\<lambda>m. Returns (map (minute_value sel m)
                (minutes_from (int_of_num fromU) (int_of_num toU)))))"

section \<open>The aligned index\<close>

text \<open>The range bounds are safe integers once the range check has passed, and stored as such.\<close>

record aligned_index =
  ai_fromUnix :: int
  ai_toUnix :: int
  minuteCount :: nat
  records :: "jv option list"

definition record_slot :: "history_response \<Rightarrow> jsnum \<Rightarrow> nat" where
  "record_slot h minute =
     nat (int_of_num (js_div (js_sub minute (fromUnix h)) (Fin 60)))"

fun place_point :: "history_response \<Rightarrow> jv option list \<Rightarrow> jv \<Rightarrow> jv option list" where
  "place_point h recs v =
     (if \<not> is_plain_object v then recs
      else case point_minute (fromUnix h) (toUnix h) (get_opt ''minuteUnix'' v) of
             None \<Rightarrow> recs
           | Some minute \<Rightarrow> recs[record_slot h minute := Some v])"

definition minute_count :: "history_response \<Rightarrow> nat" where
  "minute_count h =
     nat (int_of_num
       (js_add (js_div (js_sub (toUnix h) (fromUnix h)) (Fin 60)) (Fin 1)))"

definition aligned_index_of :: "history_response \<Rightarrow> aligned_index option" where
  "aligned_index_of h =
     (if \<not> isValidHistoryRange (fromUnix h) (toUnix h) \<or> \<not> is_array (points h) then None
      else Some
        \<lparr>ai_fromUnix = int_of_num (fromUnix h), ai_toUnix = int_of_num (toUnix h),
         minuteCount = minute_count h,
         records =
           foldl (place_point h) (replicate (minute_count h) None) (elements (points h))\<rparr>)"

text \<open>
  The module's \<open>WeakMap\<close> from response objects to their index; a response object is its
  identity, and its content is the response it refers to.
\<close>

type_synonym index_cache = "nat \<rightharpoonup> aligned_index option"

definition getAlignedHistoryIndex ::
  "index_cache \<Rightarrow> nat \<Rightarrow> history_response \<Rightarrow> aligned_index option \<times> index_cache" where
  "getAlignedHistoryIndex cache ref history =
     (case cache ref of
        Some found \<Rightarrow> (found, cache)
      | None \<Rightarrow> let aligned = aligned_index_of history in (aligned, cache(ref \<mapsto> aligned)))"

section \<open>What the range check establishes\<close>

lemma js_mod_zero_iff:
  "0 < k \<Longrightarrow> js_eq (js_mod (num_of_int a) (num_of_int k)) (Fin 0) \<longleftrightarrow> k dvd a"
proof
  assume k: "0 < k" and "js_eq (js_mod (num_of_int a) (num_of_int k)) (Fin 0)"
  then have "(of_int a :: rat) = of_int (k * trunc_rat (of_int a / of_int k))" by simp
  then have "a = k * trunc_rat (of_int a / of_int k)" by (simp only: of_int_eq_iff)
  then show "k dvd a" by (rule dvdI)
next
  assume k: "0 < k" and "k dvd a"
  then obtain c where "a = k * c" by (elim dvdE)
  moreover have "trunc_rat (of_int (k * c) / of_int k) = c" using k by (simp add: trunc_rat_def)
  ultimately show "js_eq (js_mod (num_of_int a) (num_of_int k)) (Fin 0)" using k by simp
qed

text \<open>Multiplying a safe integer by 1000 stays safe exactly when the product does not round.\<close>

lemma safe_milliseconds_iff:
  "is_safe_integer (js_mul (num_of_int a) (Fin 1000)) \<longleftrightarrow> \<bar>a * 1000\<bar> \<le> max_safe"
proof
  assume "\<bar>a * 1000\<bar> \<le> max_safe"
  then have "js_mul (num_of_int a) (num_of_int 1000) = num_of_int (a * 1000)"
    by (intro js_mul_int) (simp add: max_safe_def)
  then have "js_mul (num_of_int a) (Fin 1000) = num_of_int (a * 1000)"
    by (simp only: of_int_numeral)
  then show "is_safe_integer (js_mul (num_of_int a) (Fin 1000))"
    unfolding is_safe_integer_iff using \<open>\<bar>a * 1000\<bar> \<le> max_safe\<close> by blast
next
  assume "is_safe_integer (js_mul (num_of_int a) (Fin 1000))"
  then obtain n where n: "fl (of_int (a * 1000)) = num_of_int n" "\<bar>n\<bar> \<le> max_safe"
    by (auto simp: is_safe_integer_iff)
  then have v: "fl_val (of_int (a * 1000)) = of_int n"
    by (simp add: fl_def Let_def split: if_splits)
  have b: "fl_val (of_int (2 ^ 53)) = of_int (2 ^ 53)" "fl_val (of_int (- (2 ^ 53))) = of_int (- (2 ^ 53))"
    by (rule fl_val_of_int, simp)+
  have up: "a * 1000 < 2 ^ 53"
  proof (rule ccontr)
    assume "\<not> a * 1000 < 2 ^ 53"
    then have "(of_int (2 ^ 53) :: rat) \<le> of_int (a * 1000)" by (subst of_int_le_iff) simp
    then have "(of_int (2 ^ 53) :: rat) \<le> of_int n" using fl_val_mono b(1) v by metis
    then have "2 ^ 53 \<le> n" by (simp only: of_int_le_iff)
    with n(2) show False by (simp add: max_safe_def)
  qed
  have low: "- (2 ^ 53) < a * 1000"
  proof (rule ccontr)
    assume "\<not> - (2 ^ 53) < a * 1000"
    then have "of_int (a * 1000) \<le> (of_int (- (2 ^ 53)) :: rat)" by (subst of_int_le_iff) simp
    then have "of_int n \<le> (of_int (- (2 ^ 53)) :: rat)" using fl_val_mono b(2) v by metis
    then have "n \<le> - (2 ^ 53)" by (simp only: of_int_le_iff)
    with n(2) show False by (simp add: max_safe_def)
  qed
  show "\<bar>a * 1000\<bar> \<le> max_safe" using up low by (simp add: max_safe_def)
qed

definition valid_bounds :: "int \<Rightarrow> int \<Rightarrow> bool" where
  "valid_bounds a b \<longleftrightarrow>
     \<bar>a * 1000\<bar> \<le> max_safe \<and> \<bar>b * 1000\<bar> \<le> max_safe \<and> 60 dvd a \<and> 60 dvd b \<and>
     a \<le> b \<and> b - a \<le> 2592000"

lemma isValidHistoryRange_int:
  "isValidHistoryRange (num_of_int a) (num_of_int b) \<longleftrightarrow> valid_bounds a b"
proof (cases "\<bar>a * 1000\<bar> \<le> max_safe \<and> \<bar>b * 1000\<bar> \<le> max_safe")
  case True
  then have "\<bar>b - a\<bar> \<le> 2 ^ 53" unfolding max_safe_def abs_le_iff by auto
  then have "js_sub (num_of_int b) (num_of_int a) = num_of_int (b - a)" by (rule js_sub_int)
  moreover have "js_le (num_of_int (b - a)) (num_of_int 2592000) \<longleftrightarrow> b - a \<le> 2592000"
    unfolding js_le_Fin by (rule of_int_le_iff)
  moreover have "is_safe_integer (num_of_int a)" "is_safe_integer (num_of_int b)"
    using True by (auto simp: is_safe_integer_iff max_safe_def)
  ultimately show ?thesis
    using js_mod_zero_iff [of 60 a] js_mod_zero_iff [of 60 b] True
    by (auto simp: isValidHistoryRange_def valid_bounds_def safe_milliseconds_iff
        MAX_HISTORY_SPAN_SECONDS_def simp del: js_mod.simps js_mul.simps)
next
  case False
  then show ?thesis
    by (auto simp: isValidHistoryRange_def valid_bounds_def safe_milliseconds_iff
        simp del: js_mod.simps js_mul.simps)
qed

lemma isValidHistoryRangeE:
  assumes "isValidHistoryRange f t"
  obtains a b where "f = num_of_int a" and "t = num_of_int b" and "valid_bounds a b"
proof -
  have "is_safe_integer f" "is_safe_integer t"
    using assms by (simp_all add: isValidHistoryRange_def)
  then obtain a b where ab: "f = num_of_int a" "t = num_of_int b"
    by (auto simp: is_safe_integer_iff)
  then have "valid_bounds a b" using assms isValidHistoryRange_int by simp
  with ab show thesis by (rule that)
qed

lemma valid_bounds_range:
  assumes "valid_bounds a b"
  shows "\<bar>a\<bar> \<le> 2 ^ 52" and "\<bar>b\<bar> \<le> 2 ^ 52" and "0 \<le> b - a" and "b - a \<le> 2592000" and "60 dvd b - a"
  using assms by (auto simp: valid_bounds_def max_safe_def)

section \<open>The aligned index holds the last point of every minute\<close>

lemma js_div_exact:
  assumes "k dvd n" and "0 < k" and "\<bar>n\<bar> \<le> 2 ^ 53"
  shows "js_div (num_of_int n) (num_of_int k) = num_of_int (n div k)"
proof -
  obtain c where c: "n = k * c" using assms(1) by (elim dvdE)
  have "1 * \<bar>c\<bar> \<le> \<bar>k\<bar> * \<bar>c\<bar>" using assms(2) by (intro mult_right_mono) simp_all
  then have "\<bar>c\<bar> \<le> 2 ^ 53" using assms(3) by (simp add: c abs_mult)
  then have "fl (of_int c) = num_of_int c" by (rule fl_of_int)
  then show ?thesis using assms(2) by (simp add: c)
qed

text \<open>The records of a valid response, and the slot each of its points goes to.\<close>

definition valid_history :: "history_response \<Rightarrow> int \<Rightarrow> int \<Rightarrow> bool" where
  "valid_history h a b \<longleftrightarrow> fromUnix h = num_of_int a \<and> toUnix h = num_of_int b \<and> valid_bounds a b"

definition point_slot :: "history_response \<Rightarrow> jv \<Rightarrow> nat option" where
  "point_slot h v =
     (if is_plain_object v
      then map_option (record_slot h)
             (point_minute (fromUnix h) (toUnix h) (get_opt ''minuteUnix'' v))
      else None)"

lemma place_point_slot:
  "place_point h recs v = (case point_slot h v of None \<Rightarrow> recs | Some i \<Rightarrow> recs[i := Some v])"
  by (simp add: point_slot_def split: option.splits)

declare place_point.simps [simp del]

lemma aligned_index_of_cases:
  obtains "aligned_index_of h = None" and "\<not> (\<exists>a b. valid_history h a b \<and> is_array (points h))"
  | a b where "valid_history h a b" and "is_array (points h)"
      and "aligned_index_of h = Some
        \<lparr>ai_fromUnix = a, ai_toUnix = b, minuteCount = minute_count h,
         records = foldl (place_point h) (replicate (minute_count h) None) (elements (points h))\<rparr>"
proof (cases "isValidHistoryRange (fromUnix h) (toUnix h) \<and> is_array (points h)")
  case True
  then obtain a b where "valid_history h a b"
    by (auto simp: valid_history_def elim: isValidHistoryRangeE)
  with True show ?thesis
    by (intro that(2) [of a b]) (simp_all add: aligned_index_of_def valid_history_def)
next
  case False
  then show ?thesis
    by (intro that(1)) (auto simp: aligned_index_of_def valid_history_def isValidHistoryRange_int)
qed

lemma minute_count_eq:
  assumes "valid_history h a b"
  shows "minute_count h = nat ((b - a) div 60 + 1)"
proof -
  have h: "fromUnix h = num_of_int a" "toUnix h = num_of_int b" "valid_bounds a b"
    using assms by (simp_all add: valid_history_def)
  note r = valid_bounds_range [OF h(3)]
  have "\<bar>b - a\<bar> \<le> 2 ^ 53" using r by simp
  then have "js_sub (num_of_int b) (num_of_int a) = num_of_int (b - a)" by (rule js_sub_int)
  moreover have "js_div (num_of_int (b - a)) (num_of_int 60) = num_of_int ((b - a) div 60)"
    using r by (intro js_div_exact) simp_all
  moreover have "js_add (num_of_int ((b - a) div 60)) (num_of_int 1) = num_of_int ((b - a) div 60 + 1)"
  proof (rule js_add_int)
    have "0 \<le> (b - a) div 60" "(b - a) div 60 \<le> 2592000 div 60"
      using r(3,4) by (simp_all add: pos_imp_zdiv_nonneg_iff zdiv_mono1)
    then show "\<bar>(b - a) div 60 + 1\<bar> \<le> 2 ^ 53" by simp
  qed
  ultimately show ?thesis
    unfolding minute_count_def h(1,2) by (metis floor_of_int int_of_num.simps(1) of_int_1 of_int_numeral)
qed

lemma minute_count_range:
  assumes "valid_history h a b"
  shows "1 \<le> minute_count h" and "minute_count h \<le> 43201" and "a + 60 * (int (minute_count h) - 1) = b"
proof -
  have v: "valid_bounds a b" using assms by (simp add: valid_history_def)
  note r = valid_bounds_range(3-5) [OF v]
  from r(3) obtain c where c: "b - a = 60 * c" by (elim dvdE)
  then have "minute_count h = nat (c + 1)" by (simp add: minute_count_eq [OF assms])
  then show "1 \<le> minute_count h" "minute_count h \<le> 43201" "a + 60 * (int (minute_count h) - 1) = b"
    using r(1,2) c by simp_all
qed

lemma point_minute_iff:
  assumes "valid_history h a b"
  shows "point_minute (fromUnix h) (toUnix h) v = Some x \<longleftrightarrow>
    (\<exists>i < minute_count h. v = JNum x \<and> x = num_of_int (a + 60 * int i))"
proof -
  have h: "fromUnix h = num_of_int a" "toUnix h = num_of_int b" "valid_bounds a b"
    using assms by (simp_all add: valid_history_def)
  note r = valid_bounds_range [OF h(3)] and c = minute_count_range [OF assms]
  have iff: "point_minute (fromUnix h) (toUnix h) (JNum (num_of_int m)) = Some (num_of_int m) \<longleftrightarrow>
      60 dvd m \<and> a \<le> m \<and> m \<le> b" for m
  proof -
    have "is_safe_integer (num_of_int m)" if "a \<le> m" "m \<le> b"
      using that r by (auto simp: is_safe_integer_iff max_safe_def)
    then show ?thesis
      using js_mod_zero_iff [of 60 m] by (auto simp: point_minute_def h simp del: js_mod.simps)
  qed
  have dvd_a: "60 dvd a" using h(3) by (simp add: valid_bounds_def)
  show ?thesis
  proof
    assume l: "point_minute (fromUnix h) (toUnix h) v = Some x"
    then obtain m where m: "v = JNum (num_of_int m)" "x = num_of_int m"
      by (auto simp: point_minute_def is_safe_integer_iff split: jv.splits if_splits)
    with l iff have "60 dvd m" "a \<le> m" "m \<le> b" by simp_all
    then obtain k where k: "m - a = 60 * k" using dvd_a by (meson dvdE dvd_diff)
    then have "nat k < minute_count h" "m = a + 60 * int (nat k)"
      using \<open>a \<le> m\<close> \<open>m \<le> b\<close> c by simp_all
    with m show "\<exists>i < minute_count h. v = JNum x \<and> x = num_of_int (a + 60 * int i)" by blast
  next
    assume "\<exists>i < minute_count h. v = JNum x \<and> x = num_of_int (a + 60 * int i)"
    then obtain i where i: "i < minute_count h" "v = JNum x" "x = num_of_int (a + 60 * int i)" by blast
    have "60 dvd a + 60 * int i" "a \<le> a + 60 * int i" "a + 60 * int i \<le> b"
      using i(1) c dvd_a by simp_all
    with iff [of "a + 60 * int i"] show "point_minute (fromUnix h) (toUnix h) v = Some x"
      unfolding i(2,3) by blast
  qed
qed

lemma point_slot_iff:
  assumes "valid_history h a b"
  shows "point_slot h v = Some i \<longleftrightarrow>
    i < minute_count h \<and> is_plain_object v \<and>
    get_opt ''minuteUnix'' v = JNum (num_of_int (a + 60 * int i))"
proof -
  have h: "fromUnix h = num_of_int a" "valid_bounds a b"
    using assms by (simp_all add: valid_history_def)
  have slot: "record_slot h (num_of_int (a + 60 * int j)) = j" if "j < minute_count h" for j
  proof -
    have "60 * int j \<le> 2592000" using that minute_count_range [OF assms] by simp
    then have "js_sub (num_of_int (a + 60 * int j)) (num_of_int a) = num_of_int (60 * int j)"
      using js_sub_int [of "a + 60 * int j" a] by simp
    moreover have "js_div (num_of_int (60 * int j)) (num_of_int 60) = num_of_int (60 * int j div 60)"
      by (rule js_div_exact) (use \<open>60 * int j \<le> 2592000\<close> in simp_all)
    moreover have "60 * int j div 60 = int j" by simp
    ultimately show ?thesis
      unfolding record_slot_def h(1)
      by (metis floor_of_int int_of_num.simps(1) nat_int of_int_numeral)
  qed
  show ?thesis
    using point_minute_iff [OF assms, of "get_opt ''minuteUnix'' v"] slot
    by (auto simp: point_slot_def)
qed

lemma foldl_place_point_length: "length (foldl (place_point h) recs vs) = length recs"
  by (induction vs arbitrary: recs) (simp_all add: place_point_slot split: option.splits)

lemma foldl_place_point_nth:
  assumes "i < length recs"
  shows "foldl (place_point h) recs vs ! i =
    (let ws = filter (\<lambda>v. point_slot h v = Some i) vs
     in if ws = [] then recs ! i else Some (last ws))"
proof (induction vs rule: rev_induct)
  case Nil
  then show ?case by simp
next
  case (snoc v vs)
  define rs where "rs = foldl (place_point h) recs vs"
  have "length rs = length recs" by (simp add: rs_def foldl_place_point_length)
  then have "place_point h rs v ! i = (if point_slot h v = Some i then Some v else rs ! i)"
    using assms by (auto simp: place_point_slot nth_list_update split: option.splits)
  with snoc show ?case by (simp add: rs_def Let_def)
qed

text \<open>The record of minute \<open>i\<close>: the last point of the response for it, if there is one.\<close>

definition last_point_at :: "history_response \<Rightarrow> nat \<Rightarrow> jv option" where
  "last_point_at h i =
     (let ws = filter (\<lambda>v. point_slot h v = Some i) (elements (points h))
      in if ws = [] then None else Some (last ws))"

lemma aligned_fields:
  assumes "aligned_index_of h = Some ai"
  shows "minuteCount ai = minute_count h"
    and "records ai = foldl (place_point h) (replicate (minute_count h) None) (elements (points h))"
  using assms by (auto simp: aligned_index_of_def split: if_splits)

lemma aligned_records:
  assumes "aligned_index_of h = Some ai"
  shows "length (records ai) = minuteCount ai" and "minuteCount ai = minute_count h"
    and "i < minuteCount ai \<Longrightarrow> records ai ! i = last_point_at h i"
  by (simp_all add: aligned_fields [OF assms] foldl_place_point_length foldl_place_point_nth
      last_point_at_def Let_def)

definition points_of_minute :: "history_response \<Rightarrow> int \<Rightarrow> jv list" where
  "points_of_minute h minute =
     filter (\<lambda>v. is_plain_object v \<and> get_opt ''minuteUnix'' v = JNum (num_of_int minute))
            (elements (points h))"

lemma last_point_at_minute:
  assumes "valid_history h a b" and "i < minute_count h"
  shows "last_point_at h i =
    (case points_of_minute h (a + 60 * int i) of [] \<Rightarrow> None | vs \<Rightarrow> Some (last vs))"
proof -
  have "filter (\<lambda>v. point_slot h v = Some i) (elements (points h)) = points_of_minute h (a + 60 * int i)"
    unfolding points_of_minute_def using assms by (intro filter_cong) (simp_all add: point_slot_iff)
  then show ?thesis by (simp add: last_point_at_def Let_def split: list.splits)
qed

text \<open>
  C13: the aligned index of a response exists exactly when the range is valid and the points
  are an array. It has one slot per minute of the range, at most 43201, and the slot of a
  minute holds the last point of the response with that minute, or null where there is none:
  misaligned, out-of-range and malformed points are dropped, never moved to another minute.
\<close>

theorem aligned_index_correct:
  "case aligned_index_of h of
     None \<Rightarrow> \<not> (isValidHistoryRange (fromUnix h) (toUnix h) \<and> is_array (points h))
   | Some ai \<Rightarrow>
       fromUnix h = num_of_int (ai_fromUnix ai) \<and> toUnix h = num_of_int (ai_toUnix ai) \<and>
       ai_fromUnix ai + 60 * (int (minuteCount ai) - 1) = ai_toUnix ai \<and>
       1 \<le> minuteCount ai \<and> minuteCount ai \<le> 43201 \<and>
       records ai =
         map (\<lambda>i. case points_of_minute h (ai_fromUnix ai + 60 * int i) of
                    [] \<Rightarrow> None | vs \<Rightarrow> Some (last vs)) [0..<minuteCount ai]"
proof (cases rule: aligned_index_of_cases [of h])
  case 1
  then show ?thesis by (auto simp: valid_history_def elim!: isValidHistoryRangeE)
next
  case (2 a b)
  define ai where "ai = \<lparr>ai_fromUnix = a, ai_toUnix = b, minuteCount = minute_count h,
     records = foldl (place_point h) (replicate (minute_count h) None) (elements (points h))\<rparr>"
  have some: "aligned_index_of h = Some ai" using 2(3) by (simp add: ai_def)
  have "records ai = map (\<lambda>i. case points_of_minute h (a + 60 * int i) of
      [] \<Rightarrow> None | vs \<Rightarrow> Some (last vs)) [0..<minuteCount ai]"
    using aligned_records [OF some] last_point_at_minute [OF 2(1)]
    by (intro nth_equalityI) simp_all
  then show ?thesis
    unfolding some option.case
    using minute_count_range [OF 2(1)] 2(1) by (simp add: ai_def valid_history_def)
qed

text \<open>A cache is coherent when every entry is what the computation gives.\<close>

definition cache_coherent :: "(nat \<Rightarrow> history_response) \<Rightarrow> index_cache \<Rightarrow> bool" where
  "cache_coherent heap cache \<longleftrightarrow>
     (\<forall>ref aligned. cache ref = Some aligned \<longrightarrow> aligned = aligned_index_of (heap ref))"

text \<open>
  The module's cache of aligned indices is invisible: as long as response objects are not
  modified, a call returns what a computation from scratch returns, whatever calls came
  before, and it leaves an entry that the next call for the same response reads.
\<close>

lemma getAlignedHistoryIndex_transparent:
  assumes "cache_coherent heap cache"
  shows "fst (getAlignedHistoryIndex cache ref (heap ref)) = aligned_index_of (heap ref) \<and>
         cache_coherent heap (snd (getAlignedHistoryIndex cache ref (heap ref))) \<and>
         snd (getAlignedHistoryIndex cache ref (heap ref)) ref = Some (aligned_index_of (heap ref))"
  using assms
  by (auto simp: getAlignedHistoryIndex_def cache_coherent_def Let_def split: option.splits)

section \<open>The two series builders agree\<close>

lemma minutes_from_eq:
  "minutes_from a (a + 60 * int n) = map (\<lambda>i. a + 60 * int i) [0..<Suc n]"
proof (induction n arbitrary: a)
  case 0
  then show ?case by (simp add: minutes_from.simps)
next
  case (Suc n)
  have last: "a + 60 * int (Suc n) = (a + 60) + 60 * int n" by simp
  have "minutes_from a (a + 60 * int (Suc n)) = a # minutes_from (a + 60) (a + 60 * int (Suc n))"
    by (simp add: minutes_from.simps)
  also have "\<dots> = a # map (\<lambda>i. (a + 60) + 60 * int i) [0..<Suc n]"
    unfolding last Suc.IH ..
  also have "\<dots> = map (\<lambda>i. a + 60 * int i) [0..<Suc (Suc n)]"
    by (simp add: map_upt_Suc algebra_simps del: upt_Suc)
  finally show ?case .
qed

lemma by_minute_last:
  assumes "\<forall>v \<in> set vs. is_plain_object v"
  shows "by_minute f t m vs = Returns
    (\<lambda>x. let ws = filter (\<lambda>v. point_minute f t (get_opt ''minuteUnix'' v) = Some x) vs
         in if ws = [] then m x else Some (last ws))"
  using assms
proof (induction vs arbitrary: m)
  case Nil
  then show ?case by simp
next
  case (Cons v vs)
  then obtain fs where v: "v = JObj fs" by (cases v) simp_all
  show ?case
  proof (cases "point_minute f t (get_opt ''minuteUnix'' v)")
    case None
    with Cons v show ?thesis by simp
  next
    case (Some x)
    with Cons v show ?thesis by (auto simp: Let_def fun_eq_iff)
  qed
qed

text \<open>\<open>selectedValue\<close> of \<^verbatim>\<open>chartSeries.ts\<close>: a record that is null or throws has no value.\<close>

definition selectedValue :: "selector \<Rightarrow> jv option \<Rightarrow> jsnum option" where
  "selectedValue sel point =
     (case point of None \<Rightarrow> None | Some p \<Rightarrow> finite_number (sel p))"

text \<open>
  Over a response whose points are objects, \<open>buildMinuteSeries\<close> (a map filled point by
  point, then read minute by minute) and the aligned index (an array filled by slot) give the
  same series: for every minute of the range its timestamp in milliseconds and the value that
  the selector finds in the record of the index, and no other entry.
\<close>

lemma buildMinuteSeries_aligned:
  assumes "aligned_index_of h = Some ai"
    and "\<forall>v \<in> set (elements (points h)). is_plain_object v"
  shows "buildMinuteSeries (elements (points h)) (fromUnix h) (toUnix h) sel =
    Returns (map (\<lambda>i. (num_of_int ((ai_fromUnix ai + 60 * int i) * 1000),
                       selectedValue sel (records ai ! i)))
                 [0..<minuteCount ai])"
proof (cases rule: aligned_index_of_cases [of h])
  case 1
  with assms(1) show ?thesis by simp
next
  case (2 a b)
  have ai: "ai_fromUnix ai = a" "minuteCount ai = minute_count h"
    using 2(3) assms(1) by auto
  have h: "fromUnix h = num_of_int a" "toUnix h = num_of_int b" "valid_bounds a b"
    using 2(1) by (simp_all add: valid_history_def)
  have n: "minute_count h = Suc (minute_count h - 1)" "b = a + 60 * int (minute_count h - 1)"
    using minute_count_range [OF 2(1)] by simp_all
  define m where "m = (\<lambda>x. let ws = filter (\<lambda>v. point_minute (fromUnix h) (toUnix h)
       (get_opt ''minuteUnix'' v) = Some x) (elements (points h))
       in if ws = [] then None else Some (last ws))"
  have m_rec: "m (num_of_int (a + 60 * int i)) = records ai ! i" if i: "i < minute_count h" for i
  proof -
    have "filter (\<lambda>v. point_minute (fromUnix h) (toUnix h) (get_opt ''minuteUnix'' v) =
        Some (num_of_int (a + 60 * int i))) (elements (points h)) =
      filter (\<lambda>v. point_slot h v = Some i) (elements (points h))"
      using assms(2) i
      by (intro filter_cong) (auto simp: point_minute_iff [OF 2(1)] point_slot_iff [OF 2(1)])
    then show ?thesis
      using aligned_records(3) [OF assms(1)] i by (simp add: m_def ai last_point_at_def)
  qed
  have ms: "js_mul (num_of_int (a + 60 * int i)) (Fin 1000) = num_of_int ((a + 60 * int i) * 1000)"
    if "i < minute_count h" for i
  proof -
    have "a \<le> a + 60 * int i" "a + 60 * int i \<le> b" using that n by simp_all
    moreover have "\<bar>a * 1000\<bar> \<le> 2 ^ 53" "\<bar>b * 1000\<bar> \<le> 2 ^ 53"
      using h(3) by (simp_all add: valid_bounds_def max_safe_def)
    ultimately have "\<bar>(a + 60 * int i) * 1000\<bar> \<le> 2 ^ 53" by (auto simp: abs_le_iff)
    then show ?thesis using js_mul_int [of "a + 60 * int i" 1000] by simp
  qed
  have "buildMinuteSeries (elements (points h)) (fromUnix h) (toUnix h) sel =
      Returns (map (minute_value sel m) (minutes_from a b))"
    using 2(1) assms(2)
    by (simp add: buildMinuteSeries_def by_minute_last m_def valid_history_def isValidHistoryRange_int)
  also have "minutes_from a b = map (\<lambda>i. a + 60 * int i) [0..<minute_count h]"
    using n minutes_from_eq by metis
  also have "map (minute_value sel m) \<dots> =
      map (\<lambda>i. (num_of_int ((a + 60 * int i) * 1000), selectedValue sel (records ai ! i)))
          [0..<minute_count h]"
    using m_rec ms by (simp add: minute_value_def selectedValue_def del: js_mul.simps of_int_add of_int_mult)
  finally show ?thesis by (simp add: ai)
qed

text \<open>A response to evaluate the model on: four minutes, one of them reported twice.\<close>

definition sample_point :: "int \<Rightarrow> rat \<Rightarrow> jv" where
  "sample_point minute v =
     JObj [(''serverId'', JNum (Fin 1)), (''minuteUnix'', JNum (num_of_int minute)),
           (''payload'', JObj [(''totalUpload'', JNum (Fin v))])]"

definition sample_history :: history_response where
  "sample_history =
     \<lparr>fromUnix = Fin 120, toUnix = Fin 300,
      points = JArr [sample_point 120 5, sample_point 240 7, sample_point 120 6]\<rparr>"

definition sample_selector :: selector where
  "sample_selector = get_path [''payload'', ''totalUpload'']"

lemma sample_valid: "valid_history sample_history 120 300"
  by (simp add: valid_history_def sample_history_def valid_bounds_def max_safe_def)

lemma sample_count: "minute_count sample_history = 4"
  by (simp add: minute_count_eq [OF sample_valid])

lemma sample_slots:
  "point_slot sample_history (sample_point 120 v) = Some 0"
  "point_slot sample_history (sample_point 240 v) = Some 2"
  by (simp_all add: point_slot_iff [OF sample_valid] sample_count sample_point_def)

lemma sample_aligned:
  "aligned_index_of sample_history = Some
     \<lparr>ai_fromUnix = 120, ai_toUnix = 300, minuteCount = 4,
      records = [Some (sample_point 120 6), None, Some (sample_point 240 7), None]\<rparr>"
proof -
  have "isValidHistoryRange (Fin 120) (Fin 300)"
    using isValidHistoryRange_int [of 120 300] by (simp add: valid_bounds_def max_safe_def)
  moreover have "elements (points sample_history) =
      [sample_point 120 5, sample_point 240 7, sample_point 120 6]" "is_array (points sample_history)"
      "fromUnix sample_history = Fin 120" "toUnix sample_history = Fin 300"
    by (simp_all add: sample_history_def)
  ultimately show ?thesis
    by (simp add: aligned_index_of_def sample_count place_point_slot sample_slots
        numeral_eq_Suc)
qed

end
