(* ===== verification/JsArray.thy ===== *)
theory JsArray
  imports Prelude "HOL-Library.Multiset"
begin

text \<open>
  \<open>Array.prototype.sort\<close> with a comparison function. The language asks that the sort be stable
  and, for a consistent comparison function, that it order the elements by it; the two
  conditions determine the result, which insertion computes.
\<close>

type_synonym 'a compare_fun = "'a \<Rightarrow> 'a \<Rightarrow> int"

fun sort_insert :: "'a compare_fun \<Rightarrow> 'a \<Rightarrow> 'a list \<Rightarrow> 'a list" where
  "sort_insert cmp x [] = [x]"
| "sort_insert cmp x (y # ys) = (if cmp x y \<le> 0 then x # y # ys else y # sort_insert cmp x ys)"

definition js_sort :: "'a compare_fun \<Rightarrow> 'a list \<Rightarrow> 'a list" where
  "js_sort cmp xs = foldr (sort_insert cmp) xs []"

lemma js_sort_simps [simp]:
  "js_sort cmp [] = []" "js_sort cmp (x # xs) = sort_insert cmp x (js_sort cmp xs)"
  by (simp_all add: js_sort_def)

lemma mset_sort_insert [simp]: "mset (sort_insert cmp x ys) = add_mset x (mset ys)"
  by (induction ys) simp_all

lemma mset_js_sort [simp]: "mset (js_sort cmp xs) = mset xs"
  by (induction xs) simp_all

lemma set_js_sort [simp]: "set (js_sort cmp xs) = set xs"
  using mset_js_sort by (metis set_mset_mset)

lemma length_js_sort [simp]: "length (js_sort cmp xs) = length xs"
  using mset_js_sort by (metis size_mset)

lemma distinct_map_js_sort [simp]: "distinct (map f (js_sort cmp xs)) = distinct (map f xs)"
proof -
  have "mset (map f (js_sort cmp xs)) = mset (map f xs)" by simp
  then show ?thesis by (metis distinct_count_atmost_1 set_mset_mset)
qed

text \<open>What \<open>sort\<close> asks of a comparison function: a total preorder.\<close>

locale js_order =
  fixes cmp :: "'a compare_fun"
  assumes total: "cmp x y \<le> 0 \<or> cmp y x \<le> 0"
    and trans: "cmp x y \<le> 0 \<Longrightarrow> cmp y z \<le> 0 \<Longrightarrow> cmp x z \<le> 0"
begin

definition ordered :: "'a list \<Rightarrow> bool" where
  "ordered xs = sorted_wrt (\<lambda>x y. cmp x y \<le> 0) xs"

definition tied :: "'a \<Rightarrow> 'a \<Rightarrow> bool" where
  "tied x y \<longleftrightarrow> cmp x y \<le> 0 \<and> cmp y x \<le> 0"

lemma refl: "cmp x x \<le> 0"
  using total [of x x] by blast

lemma set_sort_insert: "set (sort_insert cmp x ys) = insert x (set ys)"
  by (induction ys) auto

lemma ordered_insert: "ordered ys \<Longrightarrow> ordered (sort_insert cmp x ys)"
proof (induction ys)
  case Nil
  then show ?case by (simp add: ordered_def)
next
  case (Cons y ys)
  show ?case
  proof (cases "cmp x y \<le> 0")
    case True
    with Cons.prems show ?thesis by (auto simp: ordered_def intro: trans)
  next
    case False
    then have "cmp y x \<le> 0" using total by blast
    with False Cons show ?thesis by (simp add: ordered_def set_sort_insert)
  qed
qed

lemma ordered_js_sort: "ordered (js_sort cmp xs)"
  by (induction xs) (simp_all add: ordered_insert, simp add: ordered_def)

text \<open>Stability: elements that compare as equal keep their order.\<close>

lemma filter_insert_tied:
  assumes "ordered ys"
  shows "filter (tied z) (sort_insert cmp x ys) = (if tied z x then x # filter (tied z) ys else filter (tied z) ys)"
  using assms
proof (induction ys)
  case Nil
  then show ?case by simp
next
  case (Cons y ys)
  show ?case
  proof (cases "cmp x y \<le> 0")
    case True
    then show ?thesis by simp
  next
    case False
    then have "\<not> tied z y" if "tied z x" using that trans by (auto simp: tied_def)
    with False Cons show ?thesis by (auto simp: ordered_def)
  qed
qed

lemma stable: "filter (tied z) (js_sort cmp xs) = filter (tied z) xs"
  by (induction xs) (simp_all add: filter_insert_tied ordered_js_sort)

text \<open>An ordered list is left as it is.\<close>

lemma sort_ordered: "ordered xs \<Longrightarrow> js_sort cmp xs = xs"
proof (induction xs)
  case Nil
  then show ?case by simp
next
  case (Cons x xs)
  then have "js_sort cmp xs = xs" by (simp add: ordered_def)
  then show ?case using Cons.prems by (cases xs) (simp_all add: ordered_def)
qed

lemma sort_idem: "js_sort cmp (js_sort cmp xs) = js_sort cmp xs"
  by (rule sort_ordered [OF ordered_js_sort])

end

text \<open>The comparison \<open>(left, right) => left - right\<close> of numbers.\<close>

definition ascending :: "nat compare_fun" where
  "ascending l r = int l - int r"

interpretation ascending: js_order ascending
  by unfold_locales (auto simp: ascending_def)

lemma js_sort_ascending: "js_sort ascending xs = sort xs"
proof -
  have "sorted (js_sort ascending xs)"
    using ascending.ordered_js_sort [of xs] unfolding ascending.ordered_def
    by (rule sorted_wrt_mono_rel [rotated]) (simp add: ascending_def)
  then show ?thesis by (intro properties_for_sort [symmetric]) simp_all
qed

section \<open>\<open>Array.prototype.findIndex\<close>\<close>

fun find_index :: "('a \<Rightarrow> bool) \<Rightarrow> 'a list \<Rightarrow> nat option" where
  "find_index p [] = None"
| "find_index p (x # xs) = (if p x then Some 0 else map_option Suc (find_index p xs))"

section \<open>A collation for the examples\<close>

definition by_length :: "string compare_fun" where
  "by_length a b = int (length a) - int (length b)"

interpretation by_length: js_order by_length
  by unfold_locales (auto simp: by_length_def)

end
