(* ===== verification/ChartSeries.thy ===== *)
theory ChartSeries
  imports HistoryData JsArray
begin

text \<open>
  \<^verbatim>\<open>web/src/history/chartSeries.ts\<close>: the preparation of the chart series of a history
  response, with the width-dependent point budget, the downsampling into buckets and the
  statistics of each series.
\<close>

section \<open>Types and constants\<close>

datatype series_role = Primary | Maximum | Context | ContextMaximum

record series_definition =
  sd_name :: string
  role :: series_role
  pairOrdinal :: jsnum
  series_selector :: selector

type_synonym chart_point = "jsnum \<times> jsnum option"

record prepared_series =
  ps_definition :: series_definition
  data :: "chart_point list"
  stat_current :: "jsnum option"
  stat_average :: "jsnum option"
  stat_maximum :: "jsnum option"

record prepared_chart =
  valid :: bool
  pc_minuteCount :: nat
  pointBudget :: jsnum
  series :: "prepared_series list"

definition MIN_POINT_BUDGET :: jsnum where "MIN_POINT_BUDGET = Fin 160"
definition MAX_POINT_BUDGET :: jsnum where "MAX_POINT_BUDGET = Fin 1600"
definition DEFAULT_CHART_WIDTH :: jsnum where "DEFAULT_CHART_WIDTH = Fin 640"
definition POINTS_PER_PIXEL :: jsnum where "POINTS_PER_PIXEL = Fin 2"
definition FINITE_CANDIDATES_PER_BUCKET :: jsnum where "FINITE_CANDIDATES_PER_BUCKET = Fin 4"

definition chartPointBudget :: "jsnum \<Rightarrow> jsnum" where
  "chartPointBudget width =
     (let safeWidth =
            (if is_finite width \<and> js_lt (Fin 0) width then width else DEFAULT_CHART_WIDTH)
      in math_min MAX_POINT_BUDGET
           (math_max MIN_POINT_BUDGET (math_round (js_mul safeWidth POINTS_PER_PIXEL))))"

section \<open>Accumulators\<close>

record stats_accumulator =
  acc_sum :: jsnum
  acc_count :: nat
  acc_maximum :: "jsnum option"
  acc_current :: "jsnum option"

record bucket_accumulator =
  bk_first :: "nat option"
  bk_last :: "nat option"
  minimumIndex :: "nat option"
  minimumValue :: jsnum
  maximumIndex :: "nat option"
  maximumValue :: jsnum

definition newBucketAccumulator :: bucket_accumulator where
  "newBucketAccumulator =
     \<lparr>bk_first = None, bk_last = None, minimumIndex = None, minimumValue = PosInf,
      maximumIndex = None, maximumValue = NegInf\<rparr>"

fun add_candidate :: "nat list \<Rightarrow> nat option \<Rightarrow> nat list" where
  "add_candidate cs None = cs"
| "add_candidate cs (Some i) = set_add i cs"

definition addBucketCandidates :: "nat list \<Rightarrow> bucket_accumulator \<Rightarrow> nat list" where
  "addBucketCandidates cs bucket =
     foldl add_candidate cs
       [bk_first bucket, bk_last bucket, minimumIndex bucket, maximumIndex bucket]"

text \<open>
  What the code keeps in parallel arrays indexed by series is one record per series here:
  its candidate set, its statistics, whether its last value was a gap, its last finite index.
\<close>

record series_state =
  candidates :: "nat list"
  stats :: stats_accumulator
  gapOpen :: bool
  lastFiniteIndex :: "nat option"

section \<open>One value of one series\<close>

definition add_to_stats :: "jsnum \<Rightarrow> stats_accumulator \<Rightarrow> stats_accumulator" where
  "add_to_stats v aggregate =
     aggregate\<lparr>acc_current := Some v,
       acc_sum := js_add (acc_sum aggregate) v,
       acc_count := acc_count aggregate + 1,
       acc_maximum := (case acc_maximum aggregate of
                         None \<Rightarrow> Some v | Some m \<Rightarrow> Some (math_max m v))\<rparr>"

definition add_to_bucket :: "nat \<Rightarrow> jsnum \<Rightarrow> bucket_accumulator \<Rightarrow> bucket_accumulator" where
  "add_to_bucket index v bucket =
     (let b1 = bucket\<lparr>bk_first := Some (nullish (bk_first bucket) index), bk_last := Some index\<rparr>;
          b2 = (if js_lt v (minimumValue b1)
                then b1\<lparr>minimumValue := v, minimumIndex := Some index\<rparr> else b1)
      in if js_lt (maximumValue b2) v
         then b2\<lparr>maximumValue := v, maximumIndex := Some index\<rparr> else b2)"

fun series_step ::
  "nat \<Rightarrow> jsnum option \<Rightarrow> series_state \<times> bucket_accumulator \<Rightarrow> series_state \<times> bucket_accumulator"
where
  "series_step index None (st, bucket) =
     (if gapOpen st then (st, bucket)
      else (st\<lparr>candidates := set_add index (add_candidate (candidates st) (lastFiniteIndex st)),
               gapOpen := True\<rparr>, bucket))"
| "series_step index (Some v) (st, bucket) =
     (st\<lparr>candidates := (if gapOpen st then set_add index (candidates st) else candidates st),
         gapOpen := False,
         lastFiniteIndex := Some index,
         stats := add_to_stats v (stats st)\<rparr>,
      add_to_bucket index v bucket)"

section \<open>The loops\<close>

definition bucket_count :: "nat \<Rightarrow> jsnum \<Rightarrow> jsnum" where
  "bucket_count n budget =
     (if js_le (num_of_int (int n)) budget then Fin 1
      else math_max (Fin 1)
        (math_floor (js_div (js_sub budget (Fin 2)) FINITE_CANDIDATES_PER_BUCKET)))"

definition bucket_size :: "nat \<Rightarrow> jsnum \<Rightarrow> nat" where
  "bucket_size n buckets = nat (int_of_num (math_ceil (js_div (num_of_int (int n)) buckets)))"

definition index_step ::
  "series_definition list \<Rightarrow> jv option list \<Rightarrow> (series_state \<times> bucket_accumulator) list \<Rightarrow> nat \<Rightarrow>
   (series_state \<times> bucket_accumulator) list" where
  "index_step definitions recs sts index =
     map2 (\<lambda>d. series_step index (selectedValue (series_selector d) (recs ! index)))
          definitions sts"

definition bucket_step ::
  "series_definition list \<Rightarrow> aligned_index \<Rightarrow> jsnum \<Rightarrow> nat \<Rightarrow> series_state list \<Rightarrow> nat \<Rightarrow>
   series_state list" where
  "bucket_step definitions aligned budget bucketSize sts bucketIndex =
     (let start = bucketIndex * bucketSize;
          stop = min (minuteCount aligned) (start + bucketSize);
          after = foldl (index_step definitions (records aligned))
                    (map (\<lambda>st. (st, newBucketAccumulator)) sts) [start..<stop]
      in map (\<lambda>(st, bucket).
                if js_lt budget (num_of_int (int (minuteCount aligned)))
                then st\<lparr>candidates := addBucketCandidates (candidates st) bucket\<rparr> else st)
             after)"

definition initial_state :: "nat \<Rightarrow> jsnum \<Rightarrow> series_state" where
  "initial_state n budget =
     \<lparr>candidates =
        (if js_le (num_of_int (int n)) budget
         then fold set_add [0..<n] (fold set_add [0, n - 1] [])
         else fold set_add [0, n - 1] []),
      stats = \<lparr>acc_sum = Fin 0, acc_count = 0, acc_maximum = None, acc_current = None\<rparr>,
      gapOpen = False, lastFiniteIndex = None\<rparr>"

definition chart_time :: "int \<Rightarrow> nat \<Rightarrow> jsnum" where
  "chart_time fromU index =
     js_mul (js_add (num_of_int fromU) (js_mul (num_of_int (int index)) (Fin 60))) (Fin 1000)"

definition prepared_of ::
  "aligned_index \<Rightarrow> series_definition \<Rightarrow> series_state \<Rightarrow> prepared_series" where
  "prepared_of aligned d st =
     \<lparr>ps_definition = d,
      data = map (\<lambda>i. (chart_time (ai_fromUnix aligned) i,
                       selectedValue (series_selector d) (records aligned ! i)))
                 (js_sort ascending (candidates st)),
      stat_current = acc_current (stats st),
      stat_average =
        (if acc_count (stats st) = 0 then None
         else Some (js_div (acc_sum (stats st)) (num_of_int (int (acc_count (stats st)))))),
      stat_maximum = acc_maximum (stats st)\<rparr>"

definition prepare_aligned ::
  "aligned_index \<Rightarrow> series_definition list \<Rightarrow> jsnum \<Rightarrow> prepared_series list" where
  "prepare_aligned aligned definitions budget =
     (let n = minuteCount aligned;
          buckets = bucket_count n budget;
          bucketSize = bucket_size n buckets;
          final = foldl (bucket_step definitions aligned budget bucketSize)
                    (map (\<lambda>_. initial_state n budget) definitions)
                    [0..<nat (int_of_num buckets)]
      in map2 (prepared_of aligned) definitions final)"

definition prepareChartSeries ::
  "index_cache \<Rightarrow> nat \<Rightarrow> history_response \<Rightarrow> series_definition list \<Rightarrow> jsnum \<Rightarrow>
   prepared_chart \<times> index_cache" where
  "prepareChartSeries cache ref history definitions width =
     (let budget = chartPointBudget width;
          (found, cache') = getAlignedHistoryIndex cache ref history
      in case found of
           None \<Rightarrow> (\<lparr>valid = False, pc_minuteCount = 0, pointBudget = budget, series = []\<rparr>, cache')
         | Some aligned \<Rightarrow>
             (\<lparr>valid = True, pc_minuteCount = minuteCount aligned, pointBudget = budget,
               series = prepare_aligned aligned definitions budget\<rparr>, cache'))"

end
