(* ===== verification/ChartCorrect.thy ===== *)
theory ChartCorrect
  imports ChartSeries
begin

text \<open>
  Correctness of the chart preparation. The loops over buckets, minutes and series are first
  separated into one pass per series over its value function \<open>f\<close> (minute index to value);
  the pass is then characterised by an invariant over the minutes already visited.
\<close>

section \<open>The budget and the buckets in integers\<close>

lemma chartPointBudget_range:
  "\<exists>p. chartPointBudget width = num_of_int p \<and> 160 \<le> p \<and> p \<le> 1600"
proof -
  define w where "w = (if is_finite width \<and> js_lt (Fin 0) width then width else DEFAULT_CHART_WIDTH)"
  define r where "r = math_round (js_mul w POINTS_PER_PIXEL)"
  have w: "\<exists>x. w = Fin x \<and> 0 < x"
    by (cases width) (simp_all add: w_def DEFAULT_CHART_WIDTH_def)
  have "r = PosInf \<or> (\<exists>n. r = num_of_int n)"
  proof -
    obtain x where x: "w = Fin x" "0 < x" using w by blast
    have "fl (x * 2) \<noteq> NaN" by (simp add: fl_def Let_def)
    moreover have "fl (x * 2) \<noteq> NegInf"
      using fl_val_nonneg [of "x * 2"] x by (simp add: fl_def Let_def overflow_bound_def)
    ultimately show ?thesis
      using x by (cases "fl (x * 2)") (auto simp: r_def POINTS_PER_PIXEL_def)
  qed
  then have "\<exists>m. math_max (Fin 160) r = PosInf \<or> math_max (Fin 160) r = num_of_int m \<and> 160 \<le> m"
    by (auto simp: math_max_def)
  then obtain m where "math_max (Fin 160) r = PosInf \<or> math_max (Fin 160) r = num_of_int m \<and> 160 \<le> m"
    by blast
  then have "\<exists>p. math_min (Fin 1600) (math_max (Fin 160) r) = num_of_int p \<and> 160 \<le> p \<and> p \<le> 1600"
  proof
    assume "math_max (Fin 160) r = PosInf"
    then show ?thesis by (intro exI [of _ 1600]) (simp add: math_min_def)
  next
    assume "math_max (Fin 160) r = num_of_int m \<and> 160 \<le> m"
    then show ?thesis by (intro exI [of _ "min 1600 m"]) (simp add: min_def)
  qed
  then show ?thesis
    by (simp add: chartPointBudget_def w_def r_def MIN_POINT_BUDGET_def MAX_POINT_BUDGET_def)
qed

definition budget_nat :: "jsnum \<Rightarrow> nat" where
  "budget_nat width = nat (int_of_num (chartPointBudget width))"

lemma chartPointBudget_nat:
  "chartPointBudget width = num_of_int (int (budget_nat width))"
  "160 \<le> budget_nat width" "budget_nat width \<le> 1600"
proof -
  obtain p where "chartPointBudget width = num_of_int p" "160 \<le> p" "p \<le> 1600"
    using chartPointBudget_range [of width] by blast
  then show "chartPointBudget width = num_of_int (int (budget_nat width))"
    "160 \<le> budget_nat width" "budget_nat width \<le> 1600"
    by (simp_all add: budget_nat_def)
qed

definition buckets_nat :: "nat \<Rightarrow> nat \<Rightarrow> nat" where
  "buckets_nat n p = (if n \<le> p then 1 else (p - 2) div 4)"

lemma bucket_count_nat:
  assumes "160 \<le> p" and "p \<le> 1600"
  shows "bucket_count n (num_of_int (int p)) = num_of_int (int (buckets_nat n p))"
proof (cases "n \<le> p")
  case True
  then show ?thesis by (simp add: bucket_count_def buckets_nat_def)
next
  case False
  have "js_sub (num_of_int (int p)) (num_of_int 2) = num_of_int (int p - 2)"
    using assms by (intro js_sub_int) simp
  then have sub: "js_sub (num_of_int (int p)) (Fin 2) = num_of_int (int (p - 2))"
    using assms by (simp add: of_nat_diff)
  have "math_floor (js_div (num_of_int (int (p - 2))) (num_of_int 4)) = num_of_int (int (p - 2) div 4)"
  proof -
    have "(of_int (int (p - 2)) / of_int 4 :: rat) \<le> of_int (int (p - 2))"
      by (simp add: divide_le_eq)
    then have "fl (of_int (int (p - 2)) / of_int 4) = Fin (fl_val (of_int (int (p - 2)) / of_int 4))"
      using assms by (intro fl_Fin_range [of 0 _ "int (p - 2)"]) simp_all
    then show ?thesis using binary64.floor_quotient [of "int (p - 2)" 4] assms by simp
  qed
  moreover have "int (p - 2) div 4 = int ((p - 2) div 4)" by (simp add: zdiv_int)
  ultimately have "math_floor (js_div (num_of_int (int (p - 2))) (Fin 4)) = num_of_int (int ((p - 2) div 4))"
    by (metis of_int_numeral)
  moreover have "1 \<le> (p - 2) div 4" using assms by linarith
  ultimately show ?thesis
    using False sub
    by (simp add: bucket_count_def buckets_nat_def FINITE_CANDIDATES_PER_BUCKET_def max_def
        del: js_div.simps)
qed

text \<open>Rounding the bsz up makes the buckets cover every minute.\<close>

lemma bucket_size_covers:
  assumes "0 < b" and "b \<le> 1600" and "n \<le> 43201"
  shows "n \<le> b * bucket_size n (num_of_int (int b))"
proof -
  have "(of_int (int n) / of_int (int b) :: rat) \<le> of_int (int n)"
    using assms by (simp add: divide_le_eq mult_le_cancel_left1)
  then have "fl (of_int (int n) / of_int (int b)) = Fin (fl_val (of_int (int n) / of_int (int b)))"
    using assms by (intro fl_Fin_range [of 0 _ "int n"]) simp_all
  then have bsz: "bucket_size n (num_of_int (int b)) = nat (- ((- int n) div int b))"
    using binary64.ceiling_quotient [of "int n" "int b"] assms by (simp add: bucket_size_def)
  have "- int n = int b * ((- int n) div int b) + (- int n) mod int b"
    by (simp only: mult_div_mod_eq)
  moreover have "0 \<le> (- int n) mod int b" using assms by simp
  ultimately have "int n \<le> int b * (- ((- int n) div int b))" by (simp only: mult_minus_right)
  also have "\<dots> \<le> int b * int (nat (- ((- int n) div int b)))"
    by (intro mult_left_mono) simp_all
  finally show ?thesis unfolding bsz by (simp only: of_nat_mult [symmetric] of_nat_le_iff)
qed

section \<open>One pass per series\<close>

lemma map2_map_self: "map2 g ds (map k ds) = map (\<lambda>d. g d (k d)) ds"
  by (induction ds) simp_all

text \<open>The two components of a step do not look at each other.\<close>

fun state_step :: "nat \<Rightarrow> jsnum option \<Rightarrow> series_state \<Rightarrow> series_state" where
  "state_step index None st =
     (if gapOpen st then st
      else st\<lparr>candidates := set_add index (add_candidate (candidates st) (lastFiniteIndex st)),
              gapOpen := True\<rparr>)"
| "state_step index (Some v) st =
     st\<lparr>candidates := (if gapOpen st then set_add index (candidates st) else candidates st),
        gapOpen := False, lastFiniteIndex := Some index, stats := add_to_stats v (stats st)\<rparr>"

fun bucket_value :: "nat \<Rightarrow> jsnum option \<Rightarrow> bucket_accumulator \<Rightarrow> bucket_accumulator" where
  "bucket_value index None bk = bk"
| "bucket_value index (Some v) bk = add_to_bucket index v bk"

lemma series_step_split: "series_step i v (st, bk) = (state_step i v st, bucket_value i v bk)"
  by (cases v) simp_all

type_synonym value_fun = "nat \<Rightarrow> jsnum option"

definition scan :: "value_fun \<Rightarrow> series_state \<Rightarrow> nat list \<Rightarrow> series_state" where
  "scan f st idxs = foldl (\<lambda>st i. state_step i (f i) st) st idxs"

definition bucket_scan :: "value_fun \<Rightarrow> nat list \<Rightarrow> bucket_accumulator" where
  "bucket_scan f idxs = foldl (\<lambda>bk i. bucket_value i (f i) bk) newBucketAccumulator idxs"

lemma foldl_series_step:
  "foldl (\<lambda>x i. series_step i (f i) x) (st, bk) idxs =
     (scan f st idxs, foldl (\<lambda>bk i. bucket_value i (f i) bk) bk idxs)"
  by (induction idxs arbitrary: st bk) (simp_all add: scan_def series_step_split)

lemma foldl_index_step:
  "foldl (index_step ds recs) (map h ds) idxs =
     map (\<lambda>d. foldl (\<lambda>x i. series_step i (selectedValue (series_selector d) (recs ! i)) x) (h d) idxs) ds"
proof (induction idxs arbitrary: h)
  case Nil
  then show ?case by simp
next
  case (Cons i idxs)
  have "index_step ds recs (map h ds) i =
      map (\<lambda>d. series_step i (selectedValue (series_selector d) (recs ! i)) (h d)) ds"
    by (simp only: index_step_def map2_map_self)
  then show ?case by (simp add: Cons.IH)
qed

definition value_at :: "aligned_index \<Rightarrow> series_definition \<Rightarrow> value_fun" where
  "value_at al d i = selectedValue (series_selector d) (records al ! i)"

definition bucket_indices :: "nat \<Rightarrow> nat \<Rightarrow> nat \<Rightarrow> nat list" where
  "bucket_indices n bsz b = [b * bsz..<min n (b * bsz + bsz)]"

definition run_bucket :: "value_fun \<Rightarrow> nat \<Rightarrow> nat \<Rightarrow> nat \<Rightarrow> series_state \<Rightarrow> nat \<Rightarrow> series_state" where
  "run_bucket f n p bsz st b =
     (let st' = scan f st (bucket_indices n bsz b)
      in if p < n
         then st'\<lparr>candidates := addBucketCandidates (candidates st')
                                (bucket_scan f (bucket_indices n bsz b))\<rparr>
         else st')"

lemma js_lt_nat [simp]: "js_lt (num_of_int (int a)) (num_of_int (int b)) \<longleftrightarrow> a < b"
  by simp

lemma js_le_nat [simp]: "js_le (num_of_int (int a)) (num_of_int (int b)) \<longleftrightarrow> a \<le> b"
  by simp

lemma bucket_step_separate:
  "bucket_step ds al (num_of_int (int p)) bsz (map h ds) b =
     map (\<lambda>d. run_bucket (value_at al d) (minuteCount al) p bsz (h d) b) ds"
proof -
  have m: "map (\<lambda>st. (st, newBucketAccumulator)) (map h ds) = map (\<lambda>d. (h d, newBucketAccumulator)) ds"
    by simp
  show ?thesis
    unfolding bucket_step_def Let_def m foldl_index_step foldl_series_step
    by (simp add: run_bucket_def bucket_indices_def bucket_scan_def Let_def value_at_def [abs_def])
qed

definition series_run :: "value_fun \<Rightarrow> nat \<Rightarrow> nat \<Rightarrow> series_state" where
  "series_run f n p =
     (let b = buckets_nat n p; bsz = bucket_size n (num_of_int (int b))
      in foldl (run_bucket f n p bsz) (initial_state n (num_of_int (int p))) [0..<b])"

lemma foldl_bucket_step:
  "foldl (bucket_step ds al (num_of_int (int p)) bsz) (map h ds) bs =
     map (\<lambda>d. foldl (run_bucket (value_at al d) (minuteCount al) p bsz) (h d) bs) ds"
proof (induction bs arbitrary: h)
  case Nil
  show ?case by (simp only: foldl_Nil)
next
  case (Cons b bs)
  show ?case by (simp only: foldl_Cons bucket_step_separate Cons.IH)
qed

text \<open>The series of the result, one by one.\<close>

lemma prepare_aligned_separate:
  assumes "160 \<le> p" and "p \<le> 1600"
  shows "prepare_aligned al ds (num_of_int (int p)) =
    map (\<lambda>d. prepared_of al d (series_run (value_at al d) (minuteCount al) p)) ds"
proof -
  have "int_of_num (num_of_int (int b)) = int b" for b by simp
  then show ?thesis
    unfolding prepare_aligned_def Let_def bucket_count_nat [OF assms] foldl_bucket_step
    by (simp add: map2_map_self series_run_def Let_def del: int_of_num.simps)
qed

section \<open>The invariant of a pass\<close>

text \<open>
  Among the first \<open>j\<close> minutes: the first of every null run, the first finite one after a
  null run, the last finite one before a null run.
\<close>

definition gap_starts :: "value_fun \<Rightarrow> nat \<Rightarrow> nat set" where
  "gap_starts f j = {i. i < j \<and> f i = None \<and> (i = 0 \<or> f (i - 1) \<noteq> None)}"

definition resumes :: "value_fun \<Rightarrow> nat \<Rightarrow> nat set" where
  "resumes f j = {i. i < j \<and> f i \<noteq> None \<and> 0 < i \<and> f (i - 1) = None}"

definition stops :: "value_fun \<Rightarrow> nat \<Rightarrow> nat set" where
  "stops f j = {i. Suc i < j \<and> f i \<noteq> None \<and> f (Suc i) = None}"

definition gap_marks :: "value_fun \<Rightarrow> nat \<Rightarrow> nat set" where
  "gap_marks f j = gap_starts f j \<union> resumes f j \<union> stops f j"

text \<open>The finite values of the first \<open>j\<close> minutes, in order, and the statistics of a list of them.\<close>

definition finite_values :: "value_fun \<Rightarrow> nat list \<Rightarrow> jsnum list" where
  "finite_values f idxs = List.map_filter f idxs"

definition empty_stats :: stats_accumulator where
  "empty_stats = \<lparr>acc_sum = Fin 0, acc_count = 0, acc_maximum = None, acc_current = None\<rparr>"

definition scan_inv :: "value_fun \<Rightarrow> nat set \<Rightarrow> nat \<Rightarrow> series_state \<Rightarrow> bool" where
  "scan_inv f c0 j st \<longleftrightarrow>
     distinct (candidates st) \<and> set (candidates st) = c0 \<union> gap_marks f j \<and>
     (gapOpen st \<longleftrightarrow> 0 < j \<and> f (j - 1) = None) \<and>
     (j = 0 \<longrightarrow> lastFiniteIndex st = None) \<and>
     (0 < j \<and> f (j - 1) \<noteq> None \<longrightarrow> lastFiniteIndex st = Some (j - 1)) \<and>
     stats st = fold add_to_stats (finite_values f [0..<j]) empty_stats"

lemma marks_0: "gap_marks f 0 = {}"
  by (simp add: gap_marks_def gap_starts_def resumes_def stops_def)

lemma marks_Suc:
  "gap_marks f (Suc j) = gap_marks f j \<union>
     (case f j of
        None \<Rightarrow> if j = 0 then {0} else if f (j - 1) = None then {} else {j, j - 1}
      | Some v \<Rightarrow> if 0 < j \<and> f (j - 1) = None then {j} else {})"
proof -
  have "gap_starts f (Suc j) = gap_starts f j \<union> (if f j = None \<and> (j = 0 \<or> f (j - 1) \<noteq> None) then {j} else {})"
    "resumes f (Suc j) = resumes f j \<union> (if f j \<noteq> None \<and> 0 < j \<and> f (j - 1) = None then {j} else {})"
    by (auto simp: gap_starts_def resumes_def less_Suc_eq)
  moreover have "stops f (Suc j) =
      stops f j \<union> (if 0 < j \<and> f (j - 1) \<noteq> None \<and> f j = None then {j - 1} else {})"
    by (cases j) (auto simp: stops_def less_Suc_eq)
  ultimately show ?thesis
    by (cases "f j") (auto simp: gap_marks_def)
qed

lemma finite_values_snoc:
  "finite_values f (xs @ [j]) = finite_values f xs @ (case f j of None \<Rightarrow> [] | Some v \<Rightarrow> [v])"
  by (simp add: finite_values_def map_filter_def split: option.splits)

lemma finite_values_Nil [simp]: "finite_values f [] = []"
  by (simp add: finite_values_def map_filter_def)

lemma finite_values_Cons:
  "finite_values f (j # xs) = (case f j of None \<Rightarrow> [] | Some v \<Rightarrow> [v]) @ finite_values f xs"
  by (simp add: finite_values_def map_filter_def split: option.splits)

lemma set_add_candidate: "set (add_candidate cs x) = set cs \<union> set_option x"
  by (cases x) auto

lemma distinct_add_candidate: "distinct (add_candidate cs x) = distinct cs"
  by (cases x) auto

lemma state_step_inv:
  assumes "scan_inv f c0 j st"
  shows "scan_inv f c0 (Suc j) (state_step j (f j) st)"
proof (cases "f j")
  case None
  show ?thesis
  proof (cases "gapOpen st")
    case True
    with assms None show ?thesis
      by (auto simp: scan_inv_def marks_Suc finite_values_snoc)
  next
    case False
    have inv: "distinct (candidates st)" "set (candidates st) = c0 \<union> gap_marks f j"
      "\<not> (0 < j \<and> f (j - 1) = None)" "j = 0 \<longrightarrow> lastFiniteIndex st = None"
      "0 < j \<and> f (j - 1) \<noteq> None \<longrightarrow> lastFiniteIndex st = Some (j - 1)"
      "stats st = fold add_to_stats (finite_values f [0..<j]) empty_stats"
      using assms False unfolding scan_inv_def by blast+
    have marks: "gap_marks f (Suc j) = gap_marks f j \<union> insert j (set_option (lastFiniteIndex st))"
    proof (cases "j = 0")
      case True
      then show ?thesis using inv(4) None by (simp add: marks_Suc)
    next
      case False
      then show ?thesis using inv(3,5) None by (auto simp: marks_Suc)
    qed
    have "set (candidates (state_step j (f j) st)) = c0 \<union> gap_marks f (Suc j)"
      using False None unfolding marks by (simp add: set_add_candidate inv(2) Un_commute Un_left_commute)
    with inv False None show ?thesis
      by (simp add: scan_inv_def finite_values_snoc distinct_add_candidate)
  qed
next
  case (Some v)
  with assms show ?thesis
    by (auto simp: scan_inv_def marks_Suc finite_values_snoc)
qed

lemma scan_inv_upt:
  assumes "scan_inv f c0 s st" and "s \<le> e"
  shows "scan_inv f c0 e (scan f st [s..<e])"
  using assms(2)
proof (induction e rule: dec_induct)
  case base
  then show ?case using assms(1) by (simp add: scan_def)
next
  case (step e)
  then have "scan f st [s..<Suc e] = state_step e (f e) (scan f st [s..<e])"
    by (simp add: scan_def)
  with step state_step_inv show ?case by simp
qed

section \<open>One bucket\<close>

text \<open>The values a series can have are finite Numbers.\<close>

definition finite_fun :: "value_fun \<Rightarrow> bool" where
  "finite_fun f \<longleftrightarrow> (\<forall>i v. f i = Some v \<longrightarrow> is_finite v)"

lemma finite_fun_Fin:
  assumes "finite_fun f" and "f i = Some v"
  shows "\<exists>r. v = Fin r"
proof -
  have "is_finite v" using assms by (simp add: finite_fun_def)
  then show ?thesis by (cases v) simp_all
qed

lemma finite_number_finite: "finite_number c = Some v \<Longrightarrow> is_finite v"
  by (cases c rule: finite_number.cases) (auto split: if_splits)

lemma value_at_finite: "finite_fun (value_at al d)"
  by (auto simp: finite_fun_def value_at_def selectedValue_def
      dest: finite_number_finite split: option.splits)

definition finite_indices :: "value_fun \<Rightarrow> nat \<Rightarrow> nat \<Rightarrow> nat set" where
  "finite_indices f s e = {i. s \<le> i \<and> i < e \<and> f i \<noteq> None}"

text \<open>What a bucket accumulator knows after the minutes from \<open>s\<close> to below \<open>e\<close>.\<close>

definition bucket_inv :: "value_fun \<Rightarrow> nat \<Rightarrow> nat \<Rightarrow> bucket_accumulator \<Rightarrow> bool" where
  "bucket_inv f s e bk \<longleftrightarrow>
     (if finite_indices f s e = {} then bk = newBucketAccumulator
      else \<exists>i j k l.
        bk_first bk = Some i \<and> bk_last bk = Some j \<and>
        minimumIndex bk = Some k \<and> maximumIndex bk = Some l \<and>
        {i, j, k, l} \<subseteq> finite_indices f s e \<and>
        (\<forall>x \<in> finite_indices f s e. i \<le> x \<and> x \<le> j) \<and>
        f k = Some (minimumValue bk) \<and> f l = Some (maximumValue bk) \<and>
        (\<forall>x \<in> finite_indices f s e. \<exists>v. f x = Some v \<and>
           js_le (minimumValue bk) v \<and> js_le v (maximumValue bk)))"

lemma finite_indices_Suc:
  "s \<le> e \<Longrightarrow> finite_indices f s (Suc e) =
     (if f e = None then finite_indices f s e else insert e (finite_indices f s e))"
  by (auto simp: finite_indices_def less_Suc_eq)

lemma js_order_Fin:
  "is_finite u \<Longrightarrow> is_finite v \<Longrightarrow> js_lt u v \<or> js_le v u"
  "is_finite u \<Longrightarrow> js_le u u"
  by (cases u; cases v; auto)+

lemma js_lt_imp_le_trans:
  "is_finite u \<Longrightarrow> is_finite v \<Longrightarrow> is_finite w \<Longrightarrow> js_lt u v \<Longrightarrow> js_le v w \<Longrightarrow> js_le u w"
  "is_finite u \<Longrightarrow> is_finite v \<Longrightarrow> is_finite w \<Longrightarrow> js_le u v \<Longrightarrow> js_lt v w \<Longrightarrow> js_le u w"
  by (cases u; cases v; cases w; simp)+

lemma add_first_to_bucket:
  assumes "is_finite v"
  shows "add_to_bucket e v newBucketAccumulator =
    \<lparr>bk_first = Some e, bk_last = Some e, minimumIndex = Some e, minimumValue = v,
     maximumIndex = Some e, maximumValue = v\<rparr>"
  using assms by (cases v) (simp_all add: add_to_bucket_def newBucketAccumulator_def)

lemma bucket_value_inv:
  assumes "bucket_inv f s e bk" and "s \<le> e" and "finite_fun f"
  shows "bucket_inv f s (Suc e) (bucket_value e (f e) bk)"
proof (cases "f e")
  case None
  have same: "finite_indices f s (Suc e) = finite_indices f s e"
    using None assms(2) by (simp add: finite_indices_Suc)
  show ?thesis
    using assms(1) unfolding bucket_inv_def same None bucket_value.simps .
next
  case (Some v)
  have v: "is_finite v" using Some assms(3) by (simp add: finite_fun_def)
  have new: "finite_indices f s (Suc e) = insert e (finite_indices f s e)"
    using Some assms(2) by (simp add: finite_indices_Suc)
  show ?thesis
  proof (cases "finite_indices f s e = {}")
    case True
    then have "bk = newBucketAccumulator" using assms(1) by (simp add: bucket_inv_def)
    with True Some v show ?thesis
      by (simp add: bucket_inv_def new add_first_to_bucket js_order_Fin)
  next
    case False
    then obtain i j k l where b: "bk_first bk = Some i" "bk_last bk = Some j"
        "minimumIndex bk = Some k" "maximumIndex bk = Some l"
        "{i, j, k, l} \<subseteq> finite_indices f s e"
        "\<forall>x \<in> finite_indices f s e. i \<le> x \<and> x \<le> j"
        "f k = Some (minimumValue bk)" "f l = Some (maximumValue bk)"
        "\<forall>x \<in> finite_indices f s e. \<exists>v. f x = Some v \<and>
           js_le (minimumValue bk) v \<and> js_le v (maximumValue bk)"
      using assms(1) by (auto simp: bucket_inv_def)
    obtain r where r: "v = Fin r" using v by (cases v) simp_all
    obtain mn where mn: "minimumValue bk = Fin mn"
      using finite_fun_Fin [OF assms(3) b(7)] by blast
    obtain mx where mx: "maximumValue bk = Fin mx"
      using finite_fun_Fin [OF assms(3) b(8)] by blast
    have vals: "\<exists>q. f x = Some (Fin q) \<and> mn \<le> q \<and> q \<le> mx" if "x \<in> finite_indices f s e" for x
    proof -
      obtain w where w: "f x = Some w" "js_le (Fin mn) w" "js_le w (Fin mx)"
        using bspec [OF b(9) \<open>x \<in> finite_indices f s e\<close>] unfolding mn mx by blast
      then show ?thesis using finite_fun_Fin [OF assms(3) w(1)] by auto
    qed
    have kl: "f k = Some (Fin mn)" "f l = Some (Fin mx)" using b(7,8) mn mx by simp_all
    have "mn \<le> mx" using vals [of k] b(5) kl by auto
    have added: "add_to_bucket e v bk = bk\<lparr>bk_first := Some i, bk_last := Some e,
        minimumIndex := Some (if r < mn then e else k), minimumValue := Fin (min r mn),
        maximumIndex := Some (if mx < r then e else l), maximumValue := Fin (max r mx)\<rparr>"
      using b(1-4) mn mx by (simp add: add_to_bucket_def r min_def max_def)
    have old: "x < e" if "x \<in> finite_indices f s e" for x
      using that by (simp add: finite_indices_def)
    have bounds: "\<exists>w. f x = Some w \<and> js_le (Fin (min r mn)) w \<and> js_le w (Fin (max r mx))"
      if "x \<in> insert e (finite_indices f s e)" for x
      using that vals [of x] Some r by (auto simp: min_def max_def)
    show ?thesis
      unfolding bucket_inv_def new Some bucket_value.simps added
      using b(5,6) old kl Some r bounds
      by (auto simp: min_def max_def less_imp_le)
  qed
qed

lemma bucket_scan_inv:
  assumes "s \<le> e" and "finite_fun f"
  shows "bucket_inv f s e (bucket_scan f [s..<e])"
  using assms(1)
proof (induction e rule: dec_induct)
  case base
  then show ?case by (simp add: bucket_inv_def bucket_scan_def finite_indices_def)
next
  case (step e)
  then have "bucket_scan f [s..<Suc e] = bucket_value e (f e) (bucket_scan f [s..<e])"
    by (simp add: bucket_scan_def)
  with step bucket_value_inv assms(2) show ?case by simp
qed

text \<open>The candidates of a bucket.\<close>

definition bucket_marks :: "bucket_accumulator \<Rightarrow> nat set" where
  "bucket_marks bk =
     set_option (bk_first bk) \<union> set_option (bk_last bk) \<union>
     set_option (minimumIndex bk) \<union> set_option (maximumIndex bk)"

lemma addBucketCandidates_set:
  "set (addBucketCandidates cs bk) = set cs \<union> bucket_marks bk"
  "distinct (addBucketCandidates cs bk) = distinct cs"
  by (auto simp: addBucketCandidates_def bucket_marks_def set_add_candidate distinct_add_candidate)

lemma card_bucket_marks: "card (bucket_marks bk) \<le> 4"
proof -
  have one: "card (set_option x) \<le> 1" for x :: "nat option" by (cases x) simp_all
  have "card (bucket_marks bk) \<le> card (set_option (bk_first bk)) + card (set_option (bk_last bk)) +
      card (set_option (minimumIndex bk)) + card (set_option (maximumIndex bk))"
    unfolding bucket_marks_def
    by (intro order_trans [OF card_Un_le] add_mono order_refl)
  then show ?thesis
    using one [of "bk_first bk"] one [of "bk_last bk"] one [of "minimumIndex bk"]
      one [of "maximumIndex bk"] by linarith
qed

lemma bucket_marks_finite_indices:
  assumes "bucket_inv f s e bk"
  shows "bucket_marks bk \<subseteq> finite_indices f s e"
  using assms by (auto simp: bucket_inv_def bucket_marks_def newBucketAccumulator_def split: if_splits)

section \<open>All buckets\<close>

definition marks_of :: "value_fun \<Rightarrow> nat \<Rightarrow> nat \<Rightarrow> nat \<Rightarrow> nat set" where
  "marks_of f n bsz b = bucket_marks (bucket_scan f (bucket_indices n bsz b))"

lemma scan_inv_add_bucket:
  assumes "scan_inv f c j st"
  shows "scan_inv f (c \<union> bucket_marks bk) j
           (st\<lparr>candidates := addBucketCandidates (candidates st) bk\<rparr>)"
  using assms by (auto simp: scan_inv_def addBucketCandidates_set)

lemma run_bucket_inv:
  assumes "scan_inv f c (min n (b * bsz)) st"
  shows "scan_inv f (c \<union> (if p < n then marks_of f n bsz b else {})) (min n (Suc b * bsz))
           (run_bucket f n p bsz st b)"
proof -
  have "scan_inv f c (min n (Suc b * bsz)) (scan f st (bucket_indices n bsz b))"
  proof (cases "b * bsz \<le> n")
    case True
    then have "scan_inv f c (b * bsz) st" using assms by (simp only: min.absorb2)
    then have "scan_inv f c (min n (b * bsz + bsz)) (scan f st [b * bsz..<min n (b * bsz + bsz)])"
      by (rule scan_inv_upt) (simp add: True)
    then show ?thesis by (simp add: bucket_indices_def add.commute)
  next
    case False
    then have "min n (Suc b * bsz) = min n (b * bsz)" "bucket_indices n bsz b = []"
      by (simp_all add: bucket_indices_def min_def)
    then show ?thesis using assms by (simp add: scan_def)
  qed
  from scan_inv_add_bucket [OF this] this show ?thesis
    by (simp add: run_bucket_def Let_def marks_of_def)
qed

lemma run_buckets_inv:
  assumes "scan_inv f c 0 st"
  shows "scan_inv f (c \<union> (if p < n then \<Union> (marks_of f n bsz ` {..<b}) else {})) (min n (b * bsz))
           (foldl (run_bucket f n p bsz) st [0..<b])"
proof (induction b)
  case 0
  then show ?case using assms by simp
next
  case (Suc b)
  have un: "\<Union> (marks_of f n bsz ` {..<Suc b}) =
      \<Union> (marks_of f n bsz ` {..<b}) \<union> marks_of f n bsz b"
    by (simp add: lessThan_Suc Un_commute)
  from run_bucket_inv [OF Suc, of p] un show ?case
    by (cases "p < n") (simp_all add: Un_assoc)
qed

definition start_marks :: "nat \<Rightarrow> nat \<Rightarrow> nat set" where
  "start_marks n p = (if n \<le> p then {..<n} else {0, n - 1})"

lemma initial_state_inv:
  assumes "0 < n"
  shows "scan_inv f (start_marks n p) 0 (initial_state n (num_of_int (int p)))"
  using assms
  by (auto simp: scan_inv_def initial_state_def start_marks_def marks_0 empty_stats_def)

text \<open>The candidates of a whole pass.\<close>

definition pass_marks :: "value_fun \<Rightarrow> nat \<Rightarrow> nat \<Rightarrow> nat set" where
  "pass_marks f n p =
     (if p < n
      then \<Union> (marks_of f n (bucket_size n (num_of_int (int (buckets_nat n p)))) ` {..<buckets_nat n p})
      else {})"

lemma series_run_inv:
  assumes "1 \<le> n" and "n \<le> 43201" and "160 \<le> p" and "p \<le> 1600"
  shows "scan_inv f (start_marks n p \<union> pass_marks f n p) n (series_run f n p)"
proof -
  define b where "b = buckets_nat n p"
  have b: "0 < b" "b \<le> 1600"
  proof -
    have "1 \<le> (p - 2) div 4" using assms(3) by linarith
    moreover have "(p - 2) div 4 \<le> 1600" using assms(4) by linarith
    ultimately show "0 < b" "b \<le> 1600" by (simp_all add: b_def buckets_nat_def)
  qed
  have "min n (b * bucket_size n (num_of_int (int b))) = n"
    using bucket_size_covers [OF b assms(2)] by simp
  moreover have "scan_inv f (start_marks n p) 0 (initial_state n (num_of_int (int p)))"
    using assms(1) by (intro initial_state_inv) simp
  ultimately show ?thesis
    using run_buckets_inv [of f "start_marks n p" "initial_state n (num_of_int (int p))" p n
        "bucket_size n (num_of_int (int b))" b]
    unfolding series_run_def Let_def pass_marks_def b_def [symmetric]
    by (simp only:)
qed

section \<open>How many minutes are kept\<close>

lemma finite_mark_sets [simp]:
  "finite (gap_starts f j)" "finite (resumes f j)" "finite (stops f j)" "finite (gap_marks f j)"
  by (rule finite_subset [of _ "{..<j}"]; auto simp: gap_marks_def gap_starts_def resumes_def stops_def)+

lemma card_stops: "card (stops f j) \<le> card (gap_starts f j)"
proof -
  have "Suc ` stops f j \<subseteq> gap_starts f j"
    by (auto simp: stops_def gap_starts_def)
  then have "card (Suc ` stops f j) \<le> card (gap_starts f j)"
    by (rule card_mono [OF finite_mark_sets(1)])
  then show ?thesis by (simp add: card_image)
qed

lemma card_resumes:
  "card (resumes f j) + (if 0 < j \<and> f (j - 1) = None then 1 else 0) \<le> card (gap_starts f j)"
proof (induction j)
  case 0
  then show ?case by (simp add: resumes_def)
next
  case (Suc j)
  have "gap_starts f (Suc j) =
      (if f j = None \<and> (j = 0 \<or> f (j - 1) \<noteq> None) then insert j (gap_starts f j) else gap_starts f j)"
    "resumes f (Suc j) =
      (if f j \<noteq> None \<and> 0 < j \<and> f (j - 1) = None then insert j (resumes f j) else resumes f j)"
    by (auto simp: gap_starts_def resumes_def less_Suc_eq)
  moreover have "j \<notin> gap_starts f j" "j \<notin> resumes f j"
    by (simp_all add: gap_starts_def resumes_def)
  ultimately show ?case using Suc by (cases "j = 0") (auto split: if_splits)
qed

lemma card_gap_marks: "card (gap_marks f n) \<le> 3 * card (gap_starts f n)"
proof -
  have "card (gap_marks f n) \<le> card (gap_starts f n) + card (resumes f n) + card (stops f n)"
    unfolding gap_marks_def by (intro order_trans [OF card_Un_le] add_mono order_refl)
  then show ?thesis using card_stops [of f n] card_resumes [of f n] by (simp split: if_splits)
qed

lemma card_UN_bounded:
  assumes "\<And>b. card (A b) \<le> (k :: nat)"
  shows "card (\<Union> (A ` {..<m})) \<le> m * k"
proof (induction m)
  case 0
  then show ?case by simp
next
  case (Suc m)
  have "card (\<Union> (A ` {..<Suc m})) \<le> card (A m) + card (\<Union> (A ` {..<m}))"
    unfolding lessThan_Suc image_insert Union_insert by (rule card_Un_le)
  also have "\<dots> \<le> k + m * k" using Suc assms [of m] by (rule add_mono [rotated])
  finally show ?case by simp
qed

lemma card_candidates:
  assumes "1 \<le> n" and "n \<le> 43201" and "160 \<le> p" and "p \<le> 1600"
  shows "length (candidates (series_run f n p)) \<le> p + 3 * card (gap_starts f n)"
proof -
  note inv = series_run_inv [OF assms, of f]
  define cs where "cs = start_marks n p \<union> pass_marks f n p"
  have "length (candidates (series_run f n p)) = card (set (candidates (series_run f n p)))"
    using inv unfolding scan_inv_def by (metis distinct_card)
  also have "\<dots> = card (cs \<union> gap_marks f n)"
    using inv by (simp add: scan_inv_def cs_def)
  also have "\<dots> \<le> card cs + card (gap_marks f n)" by (rule card_Un_le)
  also have "card cs \<le> p"
  proof (cases "n \<le> p")
    case True
    then show ?thesis by (simp add: cs_def start_marks_def pass_marks_def)
  next
    case False
    have "card cs \<le> card {0, n - 1} + card (pass_marks f n p)"
      using False by (simp only: cs_def start_marks_def if_False card_Un_le)
    also have "card (pass_marks f n p) \<le> buckets_nat n p * 4"
      using False unfolding pass_marks_def marks_of_def
      by (simp add: card_UN_bounded card_bucket_marks)
    also have "card {0, n - 1} \<le> 2" by (simp add: card_insert_if)
    finally have "card cs \<le> 2 + (p - 2) div 4 * 4" using False by (simp add: buckets_nat_def)
    also have "\<dots> \<le> p" using assms(3) by (simp add: div_times_less_eq_dividend [of "p - 2" 4, THEN add_left_mono, THEN order_trans])
    finally show ?thesis .
  qed
  finally show ?thesis using card_gap_marks [of f n] by linarith
qed

section \<open>The extrema are kept\<close>

lemma bucket_of_minute:
  fixes bsz :: nat
  assumes "i < n" and "n \<le> b * bsz"
  obtains k where "k < b" and "k * bsz \<le> i" and "i < min n (k * bsz + bsz)"
proof
  have "0 < bsz" using assms by (cases bsz) simp_all
  show "i div bsz < b" using assms \<open>0 < bsz\<close> by (simp add: less_mult_imp_div_less)
  show "i div bsz * bsz \<le> i" by simp
  have "i < i div bsz * bsz + bsz" using \<open>0 < bsz\<close>
    by (metis div_mult_mod_eq mod_less_divisor nat_add_left_cancel_less)
  then show "i < min n (i div bsz * bsz + bsz)" using assms(1) by simp
qed

lemma bucket_invE:
  assumes "bucket_inv f s e bk" and "i \<in> finite_indices f s e" and "f i = Some v"
  shows "\<exists>k l. minimumIndex bk = Some k \<and> maximumIndex bk = Some l \<and>
    {k, l} \<subseteq> finite_indices f s e \<and> f k = Some (minimumValue bk) \<and> f l = Some (maximumValue bk) \<and>
    js_le (minimumValue bk) v \<and> js_le v (maximumValue bk)"
proof -
  have ne: "finite_indices f s e \<noteq> {}" using assms(2) by blast
  obtain a j k l where b: "minimumIndex bk = Some k" "maximumIndex bk = Some l"
      "{a, j, k, l} \<subseteq> finite_indices f s e"
      "f k = Some (minimumValue bk)" "f l = Some (maximumValue bk)"
      "\<forall>x \<in> finite_indices f s e. \<exists>v. f x = Some v \<and>
         js_le (minimumValue bk) v \<and> js_le v (maximumValue bk)"
    using assms(1) ne unfolding bucket_inv_def if_not_P [OF ne] by blast
  obtain w where "f i = Some w" "js_le (minimumValue bk) w" "js_le w (maximumValue bk)"
    using bspec [OF b(6) assms(2)] by blast
  then have "js_le (minimumValue bk) v" "js_le v (maximumValue bk)" using assms(3) by simp_all
  with b show ?thesis by (intro exI [of _ k] exI [of _ l]) simp
qed

text \<open>Every finite value lies between two kept values.\<close>

lemma series_run_extrema:
  assumes "1 \<le> n" and "n \<le> 43201" and "160 \<le> p" and "p \<le> 1600" and "finite_fun f"
    and "i < n" and "f i = Some v"
  shows "\<exists>k l lo hi. k < n \<and> l < n \<and> {k, l} \<subseteq> start_marks n p \<union> pass_marks f n p \<and>
     f k = Some lo \<and> f l = Some hi \<and> js_le lo v \<and> js_le v hi"
proof (cases "n \<le> p")
  case True
  have "js_le v v" using finite_fun_Fin [OF assms(5,7)] by auto
  with True assms(6,7) show ?thesis
    by (intro exI [of _ i] exI [of _ v]) (simp add: start_marks_def)
next
  case False
  define b where "b = buckets_nat n p"
  define bsz where "bsz = bucket_size n (num_of_int (int b))"
  have "0 < b" "b \<le> 1600"
    using assms(3,4) False by (simp_all add: b_def buckets_nat_def div_greater_zero_iff)
  then have cover: "n \<le> b * bsz" using assms(2) unfolding bsz_def by (rule bucket_size_covers)
  obtain m where m: "m < b" "m * bsz \<le> i" "i < min n (m * bsz + bsz)"
    by (rule bucket_of_minute [OF assms(6) cover])
  define bk where "bk = bucket_scan f (bucket_indices n bsz m)"
  have inv: "bucket_inv f (m * bsz) (min n (m * bsz + bsz)) bk"
    unfolding bk_def bucket_indices_def using m assms(5) by (intro bucket_scan_inv) simp_all
  have i: "i \<in> finite_indices f (m * bsz) (min n (m * bsz + bsz))"
    using m assms(7) by (simp add: finite_indices_def)
  then obtain k l where kl: "minimumIndex bk = Some k" "maximumIndex bk = Some l"
      "{k, l} \<subseteq> finite_indices f (m * bsz) (min n (m * bsz + bsz))"
      "f k = Some (minimumValue bk)" "f l = Some (maximumValue bk)"
      "js_le (minimumValue bk) v" "js_le v (maximumValue bk)"
    using bucket_invE [OF inv i assms(7)] by metis
  have "bucket_marks bk \<subseteq> pass_marks f n p"
    using False m(1) unfolding pass_marks_def b_def [symmetric] bsz_def [symmetric] marks_of_def bk_def
    by auto
  moreover have "k \<in> bucket_marks bk" "l \<in> bucket_marks bk"
    using kl(1,2) by (simp_all add: bucket_marks_def)
  moreover have "k < n" "l < n" using kl(3) by (simp_all add: finite_indices_def)
  ultimately show ?thesis using kl(4-7) by blast
qed

lemma pass_marks_subset:
  assumes "finite_fun f"
  shows "pass_marks f n p \<subseteq> {..<n}"
proof -
  have "marks_of f n bsz b \<subseteq> {..<n}" for bsz b
  proof (cases "b * bsz \<le> n")
    case True
    then have "bucket_inv f (b * bsz) (min n (b * bsz + bsz)) (bucket_scan f (bucket_indices n bsz b))"
      unfolding bucket_indices_def using assms by (intro bucket_scan_inv) simp_all
    then show ?thesis
      unfolding marks_of_def using bucket_marks_finite_indices by (fastforce simp: finite_indices_def)
  next
    case False
    then show ?thesis
      by (simp add: marks_of_def bucket_indices_def bucket_scan_def bucket_marks_def newBucketAccumulator_def)
  qed
  then show ?thesis by (auto simp: pass_marks_def)
qed

end
