(* ===== verification/ChartProps.thy ===== *)
theory ChartProps
  imports ChartCorrect
begin

text \<open>
  What \<^verbatim>\<open>prepareChartSeries\<close> promises, over the facts of \<^verbatim>\<open>ChartCorrect\<close>: which minutes a
  downsampled series keeps, how many, what its statistics are, and when there is no chart.
\<close>

section \<open>The result, series by series\<close>

lemma getAlignedHistoryIndex_coherent:
  "cache_coherent heap cache \<Longrightarrow>
     fst (getAlignedHistoryIndex cache ref (heap ref)) = aligned_index_of (heap ref)"
  by (auto simp: getAlignedHistoryIndex_def cache_coherent_def Let_def split: option.splits)

definition run_of :: "aligned_index \<Rightarrow> jsnum \<Rightarrow> series_definition \<Rightarrow> series_state" where
  "run_of al width d = series_run (value_at al d) (minuteCount al) (budget_nat width)"

lemma prepareChartSeries_cases:
  assumes "cache_coherent heap cache"
  shows "fst (prepareChartSeries cache ref (heap ref) ds width) =
    (case aligned_index_of (heap ref) of
       None \<Rightarrow> \<lparr>valid = False, pc_minuteCount = 0, pointBudget = chartPointBudget width, series = []\<rparr>
     | Some al \<Rightarrow>
         \<lparr>valid = True, pc_minuteCount = minuteCount al, pointBudget = chartPointBudget width,
          series = map (\<lambda>d. prepared_of al d (run_of al width d)) ds\<rparr>)"
proof -
  obtain found cache' where get: "getAlignedHistoryIndex cache ref (heap ref) = (found, cache')"
    by fastforce
  then have found: "found = aligned_index_of (heap ref)"
    using getAlignedHistoryIndex_coherent [OF assms, of ref] by simp
  have "prepare_aligned al ds (chartPointBudget width) =
      map (\<lambda>d. prepared_of al d (run_of al width d)) ds" for al
    unfolding run_of_def chartPointBudget_nat(1)
    by (rule prepare_aligned_separate [OF chartPointBudget_nat(2,3)])
  then show ?thesis
    by (simp add: prepareChartSeries_def Let_def get found split: option.splits)
qed

lemma aligned_valid:
  assumes "aligned_index_of h = Some al"
  obtains a b where "valid_history h a b" and "ai_fromUnix al = a" and "ai_toUnix al = b"
    and "minuteCount al = minute_count h" and "1 \<le> minuteCount al" and "minuteCount al \<le> 43201"
proof (cases rule: aligned_index_of_cases [of h])
  case 1
  with assms show ?thesis by simp
next
  case (2 a b)
  with assms minute_count_range [OF 2(1)] show ?thesis by (intro that [of a b]) auto
qed

lemma chart_time_exact:
  assumes "aligned_index_of h = Some al" and "i < minuteCount al"
  shows "chart_time (ai_fromUnix al) i = num_of_int ((ai_fromUnix al + 60 * int i) * 1000)"
proof -
  obtain a b where al: "valid_history h a b" "ai_fromUnix al = a" "minuteCount al = minute_count h"
    by (rule aligned_valid [OF assms(1)])
  have v: "valid_bounds a b" using al(1) by (simp add: valid_history_def)
  note c = minute_count_range [OF al(1)] and r = valid_bounds_range [OF v]
  have i: "int i \<le> 43200" "a \<le> a + 60 * int i" "a + 60 * int i \<le> b" using assms(2) al(3) c by simp_all
  have m: "\<bar>a * 1000\<bar> \<le> 2 ^ 53" "\<bar>b * 1000\<bar> \<le> 2 ^ 53"
    using v by (simp_all add: valid_bounds_def max_safe_def)
  have "js_mul (num_of_int (int i)) (num_of_int 60) = num_of_int (int i * 60)"
    by (rule js_mul_int) (use i(1) in simp)
  moreover have "js_add (num_of_int a) (num_of_int (int i * 60)) = num_of_int (a + int i * 60)"
    by (rule js_add_int) (use i r in \<open>simp add: abs_le_iff\<close>)
  moreover have "js_mul (num_of_int (a + int i * 60)) (num_of_int 1000) = num_of_int ((a + int i * 60) * 1000)"
    by (rule js_mul_int) (use i m in \<open>simp add: abs_le_iff\<close>)
  ultimately show ?thesis
    unfolding chart_time_def al(2) by (metis mult.commute of_int_numeral)
qed

definition kept_minutes :: "aligned_index \<Rightarrow> jsnum \<Rightarrow> series_definition \<Rightarrow> nat set" where
  "kept_minutes al width d =
     start_marks (minuteCount al) (budget_nat width) \<union>
     pass_marks (value_at al d) (minuteCount al) (budget_nat width) \<union>
     gap_marks (value_at al d) (minuteCount al)"

lemma run_of_inv:
  assumes "aligned_index_of h = Some al"
  shows "scan_inv (value_at al d)
    (start_marks (minuteCount al) (budget_nat width) \<union>
     pass_marks (value_at al d) (minuteCount al) (budget_nat width))
    (minuteCount al) (run_of al width d)"
proof -
  have "1 \<le> minuteCount al" "minuteCount al \<le> 43201"
    by (rule aligned_valid [OF assms], assumption)+
  then show ?thesis
    unfolding run_of_def using chartPointBudget_nat(2,3) by (rule series_run_inv)
qed

lemma sort_distinct: "distinct xs \<Longrightarrow> sort xs = sorted_list_of_set (set xs)"
  by (simp add: sorted_list_of_set_sort_remdups distinct_remdups_id)

lemma kept_minutes_subset:
  assumes "aligned_index_of h = Some al"
  shows "kept_minutes al width d \<subseteq> {..<minuteCount al}"
proof -
  have "1 \<le> minuteCount al" by (rule aligned_valid [OF assms])
  then show ?thesis
    using pass_marks_subset [OF value_at_finite]
    by (auto simp: kept_minutes_def start_marks_def gap_marks_def gap_starts_def resumes_def
        stops_def split: if_splits)
qed

lemma data_of_run:
  assumes "aligned_index_of h = Some al"
  shows "data (prepared_of al d (run_of al width d)) =
    map (\<lambda>i. (num_of_int ((ai_fromUnix al + 60 * int i) * 1000), value_at al d i))
        (sorted_list_of_set (kept_minutes al width d))"
proof -
  note inv = run_of_inv [OF assms, of d width, unfolded scan_inv_def]
  have s: "js_sort ascending (candidates (run_of al width d)) = sorted_list_of_set (kept_minutes al width d)"
    using inv by (simp add: js_sort_ascending sort_distinct kept_minutes_def)
  have "finite (kept_minutes al width d)"
    using kept_minutes_subset [OF assms] by (rule finite_subset) simp
  then have "set (sorted_list_of_set (kept_minutes al width d)) \<subseteq> {..<minuteCount al}"
    using kept_minutes_subset [OF assms] by simp
  then show ?thesis
    unfolding prepared_of_def prepared_series.simps s value_at_def [symmetric]
    using chart_time_exact [OF assms] by (intro map_cong) auto
qed

section \<open>Statistics\<close>

lemma fold_stats:
  "acc_count (fold add_to_stats vs empty_stats) = length vs"
  "acc_sum (fold add_to_stats vs empty_stats) = foldl js_add (Fin 0) vs"
  "acc_current (fold add_to_stats vs empty_stats) = (if vs = [] then None else Some (last vs))"
  by (induction vs rule: rev_induct) (simp_all add: empty_stats_def add_to_stats_def)

lemma fold_stats_maximum:
  assumes "\<forall>v \<in> set vs. is_finite v" and "vs \<noteq> []"
  shows "\<exists>m. acc_maximum (fold add_to_stats vs empty_stats) = Some m \<and> m \<in> set vs \<and>
             (\<forall>v \<in> set vs. js_le v m)"
  using assms
proof (induction vs rule: rev_induct)
  case Nil
  then show ?case by simp
next
  case (snoc v vs)
  obtain q where q: "v = Fin q" using snoc.prems by (cases v) simp_all
  show ?case
  proof (cases "vs = []")
    case True
    then show ?thesis by (simp add: add_to_stats_def empty_stats_def q)
  next
    case False
    then obtain m where m: "acc_maximum (fold add_to_stats vs empty_stats) = Some m" "m \<in> set vs"
        "\<forall>v \<in> set vs. js_le v m"
      using snoc by auto
    have "is_finite m" using m(2) snoc.prems by simp
    then obtain r where r: "m = Fin r" by (cases m) simp_all
    have step: "acc_maximum (add_to_stats (Fin q) st) = Some (Fin (max r q))"
      if "acc_maximum st = Some (Fin r)" for st
      using that by (simp add: add_to_stats_def math_max_def max_def)
    have "\<forall>w \<in> set vs. js_le w (Fin (max r q))"
    proof
      fix w assume "w \<in> set vs"
      then have "js_le w (Fin r)" "is_finite w" using m(3) r snoc.prems by simp_all
      then show "js_le w (Fin (max r q))" by (cases w) (simp_all add: max_def)
    qed
    then show ?thesis
      using m(1,2) by (auto simp: step r q max_def split: if_splits)
  qed
qed

definition finite_series :: "aligned_index \<Rightarrow> series_definition \<Rightarrow> jsnum list" where
  "finite_series al d = finite_values (value_at al d) [0..<minuteCount al]"

lemma finite_series_finite: "\<forall>v \<in> set (finite_series al d). is_finite v"
  using value_at_finite [of al d]
  by (auto simp: finite_series_def finite_values_def map_filter_def finite_fun_def)

section \<open>Properties\<close>

text \<open>
  There is a chart exactly when the range of the response is valid and its points are an
  array; then there is one prepared series per definition, in the same order, and the number
  of minutes is that of the range. Otherwise the chart is empty. The point budget is a whole
  number from 160 to 1600 for every width, also NaN, infinite, zero and negative ones.
\<close>

lemma prepareChartSeries_valid:
  assumes "cache_coherent heap cache"
    and "chart = fst (prepareChartSeries cache ref (heap ref) ds width)"
  shows "valid chart = (isValidHistoryRange (fromUnix (heap ref)) (toUnix (heap ref)) \<and>
                        is_array (points (heap ref))) \<and>
    map ps_definition (series chart) = (if valid chart then ds else []) \<and>
    pc_minuteCount chart = (if valid chart then minute_count (heap ref) else 0) \<and>
    (\<exists>p. pointBudget chart = num_of_int p \<and> 160 \<le> p \<and> p \<le> 1600)"
proof (cases "aligned_index_of (heap ref)")
  case None
  then show ?thesis
    using chartPointBudget_range [of width] prepareChartSeries_cases [OF assms(1), of ref ds width]
    unfolding assms(2) by (auto simp: aligned_index_of_def split: if_splits)
next
  case (Some al)
  have "ps_definition (prepared_of al d st) = d" for d st by (simp add: prepared_of_def)
  then show ?thesis
    using Some chartPointBudget_range [of width] aligned_fields(1) [OF Some]
      prepareChartSeries_cases [OF assms(1), of ref ds width]
    unfolding assms(2) by (auto simp: aligned_index_of_def o_def split: if_splits)
qed

definition sample_definition :: series_definition where
  "sample_definition =
     \<lparr>sd_name = ''upload'', role = Primary, pairOrdinal = Fin 0, series_selector = sample_selector\<rparr>"

definition sample_index :: aligned_index where
  "sample_index =
     \<lparr>ai_fromUnix = 120, ai_toUnix = 300, minuteCount = 4,
      records = [Some (sample_point 120 6), None, Some (sample_point 240 7), None]\<rparr>"

lemma sample_index_of: "aligned_index_of sample_history = Some sample_index"
  by (simp add: sample_aligned sample_index_def)

lemma sample_coherent: "cache_coherent (\<lambda>_. sample_history) Map.empty"
  by (simp add: cache_coherent_def)

lemma sample_values:
  "value_at sample_index sample_definition 0 = Some (Fin 6)"
  "value_at sample_index sample_definition 1 = None"
  "value_at sample_index sample_definition 2 = Some (Fin 7)"
  "value_at sample_index sample_definition 3 = None"
  by (simp_all add: value_at_def sample_index_def sample_definition_def sample_selector_def
      sample_point_def selectedValue_def numeral_eq_Suc)

text \<open>
  C2: the entries of a prepared series are minutes of the range in increasing order, each with
  its exact timestamp in milliseconds and the value the selector finds in the record of that
  minute: downsampling drops minutes, it never alters or moves a value. The first and the last
  minute of the range are kept, and so are the first minute of every gap and the finite minutes
  on both sides of it, so that no gap closes and none moves. A range that fits the point budget
  keeps all its minutes.
\<close>

theorem chart_series_faithful:
  assumes "cache_coherent heap cache" and "aligned_index_of (heap ref) = Some al"
  shows "list_all2 (\<lambda>d ps.
    \<exists>S \<subseteq> {..<minuteCount al}.
      data ps = map (\<lambda>i. (num_of_int ((ai_fromUnix al + 60 * int i) * 1000),
                          selectedValue (series_selector d) (records al ! i)))
                    (sorted_list_of_set S) \<and>
      {0, minuteCount al - 1} \<union> gap_marks (value_at al d) (minuteCount al) \<subseteq> S \<and>
      (minuteCount al \<le> budget_nat width \<longrightarrow> S = {..<minuteCount al}))
    ds (series (fst (prepareChartSeries cache ref (heap ref) ds width)))"
proof -
  have "1 \<le> minuteCount al" by (rule aligned_valid [OF assms(2)])
  then have kept: "{0, minuteCount al - 1} \<union> gap_marks (value_at al d) (minuteCount al) \<subseteq> kept_minutes al width d"
    "minuteCount al \<le> budget_nat width \<Longrightarrow> {..<minuteCount al} \<subseteq> kept_minutes al width d" for d
    by (auto simp: kept_minutes_def start_marks_def)
  have "\<exists>S \<subseteq> {..<minuteCount al}.
      data (prepared_of al d (run_of al width d)) =
        map (\<lambda>i. (num_of_int ((ai_fromUnix al + 60 * int i) * 1000),
                  selectedValue (series_selector d) (records al ! i))) (sorted_list_of_set S) \<and>
      {0, minuteCount al - 1} \<union> gap_marks (value_at al d) (minuteCount al) \<subseteq> S \<and>
      (minuteCount al \<le> budget_nat width \<longrightarrow> S = {..<minuteCount al})" for d
    unfolding data_of_run [OF assms(2)] value_at_def [symmetric]
    using kept [of d] kept_minutes_subset [OF assms(2), of width d]
    by (intro exI [of _ "kept_minutes al width d"] conjI impI equalityI) simp_all
  then show ?thesis
    unfolding prepareChartSeries_cases [OF assms(1)] assms(2)
    by (simp add: list_all2_map2 list_all2_same)
qed

theorem chart_series_faithful_witness:
  "\<exists>S. data (hd (series (fst (prepareChartSeries Map.empty 7 sample_history [sample_definition] (Fin 640))))) =
    map (\<lambda>i. (num_of_int ((120 + 60 * int i) * 1000),
              selectedValue sample_selector (records sample_index ! i))) (sorted_list_of_set S) \<and>
    S = {..<4}"
proof -
  have fit: "4 \<le> budget_nat (Fin 640)" using chartPointBudget_nat(2) [of "Fin 640"] by simp
  obtain ps where ps: "series (fst (prepareChartSeries Map.empty 7 sample_history [sample_definition] (Fin 640))) = [ps]"
    "\<exists>S \<subseteq> {..<minuteCount sample_index}.
      data ps = map (\<lambda>i. (num_of_int ((ai_fromUnix sample_index + 60 * int i) * 1000),
          selectedValue (series_selector sample_definition) (records sample_index ! i))) (sorted_list_of_set S) \<and>
      {0, minuteCount sample_index - 1} \<union> gap_marks (value_at sample_index sample_definition) (minuteCount sample_index) \<subseteq> S \<and>
      (minuteCount sample_index \<le> budget_nat (Fin 640) \<longrightarrow> S = {..<minuteCount sample_index})"
    using chart_series_faithful [OF sample_coherent sample_index_of, where ref = 7 and ds = "[sample_definition]"
        and width = "Fin 640"]
    unfolding list_all2_Cons1 list_all2_Nil by blast
  have fields: "minuteCount sample_index = 4" "ai_fromUnix sample_index = 120"
    "series_selector sample_definition = sample_selector"
    by (simp_all add: sample_index_def sample_definition_def)
  show ?thesis unfolding ps(1) list.sel using ps(2) fit unfolding fields by blast
qed

text \<open>
  C11: however long the range, a prepared series has at most as many points as the budget of the
  width allows, plus three for each of its gaps.
\<close>

theorem chart_points_bounded:
  assumes "cache_coherent heap cache" and "aligned_index_of (heap ref) = Some al"
    and "ps \<in> set (series (fst (prepareChartSeries cache ref (heap ref) ds width)))"
  shows "length (data ps) \<le>
    budget_nat width + 3 * card (gap_starts (value_at al (ps_definition ps)) (minuteCount al))"
proof -
  obtain d where d: "ps = prepared_of al d (run_of al width d)"
    using assms(3) unfolding prepareChartSeries_cases [OF assms(1)] assms(2) by auto
  have "1 \<le> minuteCount al" "minuteCount al \<le> 43201"
    by (rule aligned_valid [OF assms(2)], assumption)+
  then have "length (candidates (run_of al width d)) \<le>
      budget_nat width + 3 * card (gap_starts (value_at al d) (minuteCount al))"
    unfolding run_of_def by (intro card_candidates) (simp_all add: chartPointBudget_nat)
  then show ?thesis by (simp add: d prepared_of_def)
qed

lemma sample_series:
  "series (fst (prepareChartSeries Map.empty 7 sample_history [sample_definition] width)) =
     [prepared_of sample_index sample_definition (run_of sample_index width sample_definition)]"
  using prepareChartSeries_cases [OF sample_coherent] by (simp add: sample_index_of)

theorem chart_points_bounded_witness:
  "length (data (hd (series (fst (prepareChartSeries Map.empty 7 sample_history [sample_definition] (Fin 640)))))) \<le>
     budget_nat (Fin 640) + 3 * card (gap_starts (value_at sample_index sample_definition) 4)"
proof -
  have "minuteCount sample_index = 4"
    "ps_definition (prepared_of sample_index sample_definition st) = sample_definition" for st
    by (simp_all add: sample_index_def prepared_of_def)
  then show ?thesis
    using chart_points_bounded [OF sample_coherent sample_index_of, of _ 7 "[sample_definition]" "Fin 640"]
    by (simp add: sample_series)
qed

text \<open>
  The statistics shown with a series do not depend on the width nor on the downsampling:
  they are those of all finite values of the range, the last one, the greatest one and the sum
  divided by the count, or none at all when there is no value.
\<close>

lemma chart_statistics_of_full_series:
  assumes "cache_coherent heap cache" and "aligned_index_of (heap ref) = Some al"
    and "ps \<in> set (series (fst (prepareChartSeries cache ref (heap ref) ds width)))"
    and "vs = finite_series al (ps_definition ps)"
  shows "if vs = [] then stat_current ps = None \<and> stat_average ps = None \<and> stat_maximum ps = None
    else stat_current ps = Some (last vs) \<and>
         stat_average ps = Some (js_div (foldl js_add (Fin 0) vs) (num_of_int (int (length vs)))) \<and>
         (\<exists>m. stat_maximum ps = Some m \<and> m \<in> set vs \<and> (\<forall>v \<in> set vs. js_le v m))"
proof -
  obtain d where d: "ps = prepared_of al d (run_of al width d)"
    using assms(3) unfolding prepareChartSeries_cases [OF assms(1)] assms(2) by auto
  then have vs: "vs = finite_series al d" using assms(4) by (simp add: prepared_of_def)
  then have st: "stats (run_of al width d) = fold add_to_stats vs empty_stats"
    using run_of_inv [OF assms(2), of d width] by (simp add: scan_inv_def finite_series_def)
  show ?thesis
  proof (cases "vs = []")
    case True
    then show ?thesis by (simp add: d prepared_of_def st empty_stats_def)
  next
    case False
    then show ?thesis
      using fold_stats_maximum [of vs] finite_series_finite [of al d]
      by (auto simp: d prepared_of_def st fold_stats vs)
  qed
qed

text \<open>
  C10: no extreme value is lost: every finite value of the range lies between two values that the
  prepared series shows, so the chart reaches the minimum and the maximum of all data at every
  width.
\<close>

theorem chart_keeps_extrema:
  assumes "cache_coherent heap cache" and "aligned_index_of (heap ref) = Some al"
    and "ps \<in> set (series (fst (prepareChartSeries cache ref (heap ref) ds width)))"
    and "v \<in> set (finite_series al (ps_definition ps))"
  shows "\<exists>lo hi. Some lo \<in> snd ` set (data ps) \<and> Some hi \<in> snd ` set (data ps) \<and>
    js_le lo v \<and> js_le v hi"
proof -
  obtain d where d: "ps = prepared_of al d (run_of al width d)"
    using assms(3) unfolding prepareChartSeries_cases [OF assms(1)] assms(2) by auto
  then obtain i where i: "i < minuteCount al" "value_at al d i = Some v"
    using assms(4) by (auto simp: finite_series_def finite_values_def map_filter_def prepared_of_def)
  have "1 \<le> minuteCount al" "minuteCount al \<le> 43201"
    by (rule aligned_valid [OF assms(2)], assumption)+
  from series_run_extrema [OF this chartPointBudget_nat(2,3) [of width] value_at_finite i]
  obtain k l lo hi where sub: "{k, l} \<subseteq> start_marks (minuteCount al) (budget_nat width) \<union>
        pass_marks (value_at al d) (minuteCount al) (budget_nat width)"
      and kl: "value_at al d k = Some lo" "value_at al d l = Some hi" "js_le lo v" "js_le v hi"
    by blast
  have kept: "k \<in> kept_minutes al width d" "l \<in> kept_minutes al width d"
    using sub unfolding kept_minutes_def by simp_all
  have "finite (kept_minutes al width d)"
    using kept_minutes_subset [OF assms(2)] by (rule finite_subset) simp
  then have "snd ` set (data ps) = value_at al d ` kept_minutes al width d"
    unfolding d data_of_run [OF assms(2)] by (simp add: image_image)
  then have "Some lo \<in> snd ` set (data ps)" "Some hi \<in> snd ` set (data ps)"
    using kept unfolding kl(1,2) [symmetric] by simp_all
  with kl(3,4) show ?thesis by blast
qed

theorem chart_keeps_extrema_witness:
  "\<exists>hi. Some hi \<in> snd ` set (data (hd (series (fst (prepareChartSeries Map.empty 7 sample_history
           [sample_definition] (Fin 640)))))) \<and> js_le (Fin 7) hi"
proof -
  have "Fin 7 \<in> set (finite_series sample_index sample_definition)"
    unfolding finite_series_def finite_values_def map_filter_def
    using sample_values(3) by (force simp: sample_index_def [THEN arg_cong [where f = minuteCount]])
  moreover have "ps_definition (prepared_of sample_index sample_definition st) = sample_definition" for st
    by (simp add: prepared_of_def)
  ultimately show ?thesis
    using chart_keeps_extrema [OF sample_coherent sample_index_of, of _ 7 "[sample_definition]" "Fin 640" "Fin 7"]
    by (simp add: sample_series) blast
qed

end
