(* ===== verification/Messages.thy ===== *)
theory Messages
  imports JsValue
begin

text \<open>
  The texts of the user interface that the modelled code compares, stores or composes, as
  UTF-8 bytes. Each is the literal at the place named beside it.
\<close>

text \<open>the dash shown for a missing value\<close>

definition em_dash :: string where
  "em_dash =
     [CHR 0xE2, CHR 0x80, CHR 0x94]"

text \<open>days\<close>

definition t_days :: string where
  "t_days =
     [CHR 0xE5, CHR 0xA4, CHR 0xA9]"

text \<open>hours\<close>

definition t_hours :: string where
  "t_hours =
     [CHR 0xE5, CHR 0xB0, CHR 0x8F, CHR 0xE6, CHR 0x97, CHR 0xB6]"

text \<open>minutes\<close>

definition t_minutes :: string where
  "t_minutes =
     [CHR 0xE5, CHR 0x88, CHR 0x86, CHR 0xE9, CHR 0x92, CHR 0x9F]"

text \<open>time unknown\<close>

definition t_unknown_time :: string where
  "t_unknown_time =
     [CHR 0xE6, CHR 0x97, CHR 0xB6, CHR 0xE9, CHR 0x97, CHR 0xB4, CHR 0xE6, CHR 0x9C, CHR 0xAA,
      CHR 0xE7, CHR 0x9F, CHR 0xA5]"

text \<open>not reported yet\<close>

definition t_not_reported :: string where
  "t_not_reported =
     [CHR 0xE5, CHR 0xB0, CHR 0x9A, CHR 0xE6, CHR 0x9C, CHR 0xAA, CHR 0xE4, CHR 0xB8, CHR 0x8A,
      CHR 0xE6, CHR 0x8A, CHR 0xA5]"

text \<open>no data yet\<close>

definition t_no_data_yet :: string where
  "t_no_data_yet =
     [CHR 0xE5, CHR 0xB0, CHR 0x9A, CHR 0xE6, CHR 0x97, CHR 0xA0, CHR 0xE6, CHR 0x95, CHR 0xB0,
      CHR 0xE6, CHR 0x8D, CHR 0xAE]"

text \<open>MetricBar: no data\<close>

definition t_no_data :: string where
  "t_no_data =
     [CHR 0xE6, CHR 0x9A, CHR 0x82, CHR 0xE6, CHR 0x97, CHR 0xA0, CHR 0xE6, CHR 0x95, CHR 0xB0,
      CHR 0xE6, CHR 0x8D, CHR 0xAE]"

text \<open>the default message of an ApiError\<close>

definition t_request_failed :: string where
  "t_request_failed =
     [CHR 0xE8, CHR 0xAF, CHR 0xB7, CHR 0xE6, CHR 0xB1, CHR 0x82, CHR 0xE5, CHR 0xA4, CHR 0xB1,
      CHR 0xE8, CHR 0xB4, CHR 0xA5, CHR 0xEF, CHR 0xBC, CHR 0x8C, CHR 0xE8, CHR 0xAF, CHR 0xB7,
      CHR 0xE7, CHR 0xA8, CHR 0x8D, CHR 0xE5, CHR 0x90, CHR 0x8E, CHR 0xE9, CHR 0x87, CHR 0x8D,
      CHR 0xE8, CHR 0xAF, CHR 0x95, CHR 0xE3, CHR 0x80, CHR 0x82]"

text \<open>history/useHistory.ts\<close>

definition HISTORY_ERROR :: string where
  "HISTORY_ERROR =
     [CHR 0xE6, CHR 0x9A, CHR 0x82, CHR 0xE6, CHR 0x97, CHR 0xB6, CHR 0xE6, CHR 0x97, CHR 0xA0,
      CHR 0xE6, CHR 0xB3, CHR 0x95, CHR 0xE8, CHR 0x8E, CHR 0xB7, CHR 0xE5, CHR 0x8F, CHR 0x96,
      CHR 0xE5, CHR 0x8E, CHR 0x86, CHR 0xE5, CHR 0x8F, CHR 0xB2, CHR 0xE6, CHR 0x8C, CHR 0x87,
      CHR 0xE6, CHR 0xA0, CHR 0x87, CHR 0xEF, CHR 0xBC, CHR 0x8C, CHR 0xE8, CHR 0xAF, CHR 0xB7,
      CHR 0xE7, CHR 0xA8, CHR 0x8D, CHR 0xE5, CHR 0x90, CHR 0x8E, CHR 0xE9, CHR 0x87, CHR 0x8D,
      CHR 0xE8, CHR 0xAF, CHR 0x95, CHR 0xE3, CHR 0x80, CHR 0x82]"

text \<open>live/useServerSnapshots.ts\<close>

definition LOAD_ERROR :: string where
  "LOAD_ERROR =
     [CHR 0xE6, CHR 0x9A, CHR 0x82, CHR 0xE6, CHR 0x97, CHR 0xB6, CHR 0xE6, CHR 0x97, CHR 0xA0,
      CHR 0xE6, CHR 0xB3, CHR 0x95, CHR 0xE8, CHR 0x8E, CHR 0xB7, CHR 0xE5, CHR 0x8F, CHR 0x96,
      CHR 0xE6, CHR 0x9C, CHR 0x8D, CHR 0xE5, CHR 0x8A, CHR 0xA1, CHR 0xE5, CHR 0x99, CHR 0xA8,
      CHR 0xE7, CHR 0x8A, CHR 0xB6, CHR 0xE6, CHR 0x80, CHR 0x81, CHR 0xEF, CHR 0xBC, CHR 0x8C,
      CHR 0xE8, CHR 0xAF, CHR 0xB7, CHR 0xE7, CHR 0xA8, CHR 0x8D, CHR 0xE5, CHR 0x90, CHR 0x8E,
      CHR 0xE9, CHR 0x87, CHR 0x8D, CHR 0xE8, CHR 0xAF, CHR 0x95, CHR 0xE3, CHR 0x80, CHR 0x82]"

text \<open>live/useServerSnapshots.ts\<close>

definition CONNECTION_ERROR :: string where
  "CONNECTION_ERROR =
     [CHR 0xE5, CHR 0xAE, CHR 0x9E, CHR 0xE6, CHR 0x97, CHR 0xB6, CHR 0xE8, CHR 0xBF, CHR 0x9E,
      CHR 0xE6, CHR 0x8E, CHR 0xA5, CHR 0xE5, CHR 0xB7, CHR 0xB2, CHR 0xE6, CHR 0x96, CHR 0xAD,
      CHR 0xE5, CHR 0xBC, CHR 0x80, CHR 0xEF, CHR 0xBC, CHR 0x8C, CHR 0xE6, CHR 0xAD, CHR 0xA3,
      CHR 0xE5, CHR 0x9C, CHR 0xA8, CHR 0xE8, CHR 0x87, CHR 0xAA, CHR 0xE5, CHR 0x8A, CHR 0xA8,
      CHR 0xE9, CHR 0x87, CHR 0x8D, CHR 0xE8, CHR 0xBF, CHR 0x9E, CHR 0xEF, CHR 0xBC, CHR 0x9B,
      CHR 0xE5, CHR 0xBD, CHR 0x93, CHR 0xE5, CHR 0x89, CHR 0x8D, CHR 0xE6, CHR 0x95, CHR 0xB0,
      CHR 0xE6, CHR 0x8D, CHR 0xAE, CHR 0xE5, CHR 0x8F, CHR 0xAF, CHR 0xE8, CHR 0x83, CHR 0xBD,
      CHR 0xE4, CHR 0xB8, CHR 0x8D, CHR 0xE6, CHR 0x98, CHR 0xAF, CHR 0xE6, CHR 0x9C, CHR 0x80,
      CHR 0xE6, CHR 0x96, CHR 0xB0, CHR 0xE3, CHR 0x80, CHR 0x82]"

text \<open>ServersPage: a rotation was superseded by a later operation\<close>

definition t_superseded :: string where
  "t_superseded =
     ''Token '' @
     [CHR 0xE8, CHR 0xAF, CHR 0xB7, CHR 0xE6, CHR 0xB1, CHR 0x82, CHR 0xE5, CHR 0xB7, CHR 0xB2,
      CHR 0xE8, CHR 0xA2, CHR 0xAB, CHR 0xE6, CHR 0x9B, CHR 0xB4, CHR 0xE6, CHR 0x96, CHR 0xB0,
      CHR 0xE7, CHR 0x9A, CHR 0x84, CHR 0xE6, CHR 0x93, CHR 0x8D, CHR 0xE4, CHR 0xBD, CHR 0x9C,
      CHR 0xE6, CHR 0x9B, CHR 0xBF, CHR 0xE4, CHR 0xBB, CHR 0xA3, CHR 0xEF, CHR 0xBC, CHR 0x8C,
      CHR 0xE8, CHR 0xAF, CHR 0xB7, CHR 0xE9, CHR 0x87, CHR 0x8D, CHR 0xE8, CHR 0xAF, CHR 0x95,
      CHR 0xE3, CHR 0x80, CHR 0x82]"

text \<open>ServersPage: creating failed\<close>

definition t_create_failed :: string where
  "t_create_failed =
     [CHR 0xE6, CHR 0x9A, CHR 0x82, CHR 0xE6, CHR 0x97, CHR 0xB6, CHR 0xE6, CHR 0x97, CHR 0xA0,
      CHR 0xE6, CHR 0xB3, CHR 0x95, CHR 0xE5, CHR 0x88, CHR 0x9B, CHR 0xE5, CHR 0xBB, CHR 0xBA,
      CHR 0xE6, CHR 0x9C, CHR 0x8D, CHR 0xE5, CHR 0x8A, CHR 0xA1, CHR 0xE5, CHR 0x99, CHR 0xA8,
      CHR 0xEF, CHR 0xBC, CHR 0x8C, CHR 0xE8, CHR 0xAF, CHR 0xB7, CHR 0xE7, CHR 0xA8, CHR 0x8D,
      CHR 0xE5, CHR 0x90, CHR 0x8E, CHR 0xE9, CHR 0x87, CHR 0x8D, CHR 0xE8, CHR 0xAF, CHR 0x95,
      CHR 0xE3, CHR 0x80, CHR 0x82]"

text \<open>ServersPage: renaming failed\<close>

definition t_rename_failed :: string where
  "t_rename_failed =
     [CHR 0xE6, CHR 0x9A, CHR 0x82, CHR 0xE6, CHR 0x97, CHR 0xB6, CHR 0xE6, CHR 0x97, CHR 0xA0,
      CHR 0xE6, CHR 0xB3, CHR 0x95, CHR 0xE9, CHR 0x87, CHR 0x8D, CHR 0xE5, CHR 0x91, CHR 0xBD,
      CHR 0xE5, CHR 0x90, CHR 0x8D, CHR 0xE6, CHR 0x9C, CHR 0x8D, CHR 0xE5, CHR 0x8A, CHR 0xA1,
      CHR 0xE5, CHR 0x99, CHR 0xA8, CHR 0xEF, CHR 0xBC, CHR 0x8C, CHR 0xE8, CHR 0xAF, CHR 0xB7,
      CHR 0xE7, CHR 0xA8, CHR 0x8D, CHR 0xE5, CHR 0x90, CHR 0x8E, CHR 0xE9, CHR 0x87, CHR 0x8D,
      CHR 0xE8, CHR 0xAF, CHR 0x95, CHR 0xE3, CHR 0x80, CHR 0x82]"

text \<open>ServersPage: enabling failed\<close>

definition t_enable_failed :: string where
  "t_enable_failed =
     [CHR 0xE6, CHR 0x9A, CHR 0x82, CHR 0xE6, CHR 0x97, CHR 0xB6, CHR 0xE6, CHR 0x97, CHR 0xA0,
      CHR 0xE6, CHR 0xB3, CHR 0x95, CHR 0xE5, CHR 0x90, CHR 0xAF, CHR 0xE7, CHR 0x94, CHR 0xA8,
      CHR 0xE6, CHR 0x9C, CHR 0x8D, CHR 0xE5, CHR 0x8A, CHR 0xA1, CHR 0xE5, CHR 0x99, CHR 0xA8,
      CHR 0xEF, CHR 0xBC, CHR 0x8C, CHR 0xE8, CHR 0xAF, CHR 0xB7, CHR 0xE7, CHR 0xA8, CHR 0x8D,
      CHR 0xE5, CHR 0x90, CHR 0x8E, CHR 0xE9, CHR 0x87, CHR 0x8D, CHR 0xE8, CHR 0xAF, CHR 0x95,
      CHR 0xE3, CHR 0x80, CHR 0x82]"

text \<open>ServersPage: disabling failed\<close>

definition t_disable_failed :: string where
  "t_disable_failed =
     [CHR 0xE6, CHR 0x9A, CHR 0x82, CHR 0xE6, CHR 0x97, CHR 0xB6, CHR 0xE6, CHR 0x97, CHR 0xA0,
      CHR 0xE6, CHR 0xB3, CHR 0x95, CHR 0xE5, CHR 0x81, CHR 0x9C, CHR 0xE7, CHR 0x94, CHR 0xA8,
      CHR 0xE6, CHR 0x9C, CHR 0x8D, CHR 0xE5, CHR 0x8A, CHR 0xA1, CHR 0xE5, CHR 0x99, CHR 0xA8,
      CHR 0xEF, CHR 0xBC, CHR 0x8C, CHR 0xE8, CHR 0xAF, CHR 0xB7, CHR 0xE7, CHR 0xA8, CHR 0x8D,
      CHR 0xE5, CHR 0x90, CHR 0x8E, CHR 0xE9, CHR 0x87, CHR 0x8D, CHR 0xE8, CHR 0xAF, CHR 0x95,
      CHR 0xE3, CHR 0x80, CHR 0x82]"

text \<open>ServersPage: deleting failed\<close>

definition t_delete_failed :: string where
  "t_delete_failed =
     [CHR 0xE6, CHR 0x9A, CHR 0x82, CHR 0xE6, CHR 0x97, CHR 0xB6, CHR 0xE6, CHR 0x97, CHR 0xA0,
      CHR 0xE6, CHR 0xB3, CHR 0x95, CHR 0xE5, CHR 0x88, CHR 0xA0, CHR 0xE9, CHR 0x99, CHR 0xA4,
      CHR 0xE6, CHR 0x9C, CHR 0x8D, CHR 0xE5, CHR 0x8A, CHR 0xA1, CHR 0xE5, CHR 0x99, CHR 0xA8,
      CHR 0xEF, CHR 0xBC, CHR 0x8C, CHR 0xE8, CHR 0xAF, CHR 0xB7, CHR 0xE7, CHR 0xA8, CHR 0x8D,
      CHR 0xE5, CHR 0x90, CHR 0x8E, CHR 0xE9, CHR 0x87, CHR 0x8D, CHR 0xE8, CHR 0xAF, CHR 0x95,
      CHR 0xE3, CHR 0x80, CHR 0x82]"

text \<open>ServersPage: rotating a token failed\<close>

definition t_rotate_failed :: string where
  "t_rotate_failed =
     [CHR 0xE6, CHR 0x9A, CHR 0x82, CHR 0xE6, CHR 0x97, CHR 0xB6, CHR 0xE6, CHR 0x97, CHR 0xA0,
      CHR 0xE6, CHR 0xB3, CHR 0x95, CHR 0xE9, CHR 0x87, CHR 0x8D, CHR 0xE6, CHR 0x96, CHR 0xB0,
      CHR 0xE7, CHR 0x94, CHR 0x9F, CHR 0xE6, CHR 0x88, CHR 0x90] @
     '' Token'' @
     [CHR 0xEF, CHR 0xBC, CHR 0x8C, CHR 0xE8, CHR 0xAF, CHR 0xB7, CHR 0xE7, CHR 0xA8, CHR 0x8D,
      CHR 0xE5, CHR 0x90, CHR 0x8E, CHR 0xE9, CHR 0x87, CHR 0x8D, CHR 0xE8, CHR 0xAF, CHR 0x95,
      CHR 0xE3, CHR 0x80, CHR 0x82]"

text \<open>AuthGate: the login state could not be checked\<close>

definition t_auth_unknown :: string where
  "t_auth_unknown =
     [CHR 0xE6, CHR 0x9A, CHR 0x82, CHR 0xE6, CHR 0x97, CHR 0xB6, CHR 0xE6, CHR 0x97, CHR 0xA0,
      CHR 0xE6, CHR 0xB3, CHR 0x95, CHR 0xE7, CHR 0xA1, CHR 0xAE, CHR 0xE8, CHR 0xAE, CHR 0xA4,
      CHR 0xE7, CHR 0x99, CHR 0xBB, CHR 0xE5, CHR 0xBD, CHR 0x95, CHR 0xE7, CHR 0x8A, CHR 0xB6,
      CHR 0xE6, CHR 0x80, CHR 0x81, CHR 0xEF, CHR 0xBC, CHR 0x8C, CHR 0xE8, CHR 0xAF, CHR 0xB7,
      CHR 0xE7, CHR 0xA8, CHR 0x8D, CHR 0xE5, CHR 0x90, CHR 0x8E, CHR 0xE9, CHR 0x87, CHR 0x8D,
      CHR 0xE8, CHR 0xAF, CHR 0x95, CHR 0xE3, CHR 0x80, CHR 0x82]"

text \<open>LoginPage\<close>

definition t_login_failed :: string where
  "t_login_failed =
     [CHR 0xE6, CHR 0x9A, CHR 0x82, CHR 0xE6, CHR 0x97, CHR 0xB6, CHR 0xE6, CHR 0x97, CHR 0xA0,
      CHR 0xE6, CHR 0xB3, CHR 0x95, CHR 0xE7, CHR 0x99, CHR 0xBB, CHR 0xE5, CHR 0xBD, CHR 0x95,
      CHR 0xEF, CHR 0xBC, CHR 0x8C, CHR 0xE8, CHR 0xAF, CHR 0xB7, CHR 0xE7, CHR 0xA8, CHR 0x8D,
      CHR 0xE5, CHR 0x90, CHR 0x8E, CHR 0xE9, CHR 0x87, CHR 0x8D, CHR 0xE8, CHR 0xAF, CHR 0x95,
      CHR 0xE3, CHR 0x80, CHR 0x82]"

text \<open>SetupPage\<close>

definition t_setup_failed :: string where
  "t_setup_failed =
     [CHR 0xE6, CHR 0x9A, CHR 0x82, CHR 0xE6, CHR 0x97, CHR 0xB6, CHR 0xE6, CHR 0x97, CHR 0xA0,
      CHR 0xE6, CHR 0xB3, CHR 0x95, CHR 0xE5, CHR 0x88, CHR 0x9B, CHR 0xE5, CHR 0xBB, CHR 0xBA,
      CHR 0xE7, CHR 0xAE, CHR 0xA1, CHR 0xE7, CHR 0x90, CHR 0x86, CHR 0xE5, CHR 0x91, CHR 0x98,
      CHR 0xEF, CHR 0xBC, CHR 0x8C, CHR 0xE8, CHR 0xAF, CHR 0xB7, CHR 0xE7, CHR 0xA8, CHR 0x8D,
      CHR 0xE5, CHR 0x90, CHR 0x8E, CHR 0xE9, CHR 0x87, CHR 0x8D, CHR 0xE8, CHR 0xAF, CHR 0x95,
      CHR 0xE3, CHR 0x80, CHR 0x82]"

text \<open>chart: the average series\<close>

definition t_average :: string where
  "t_average =
     [CHR 0xE5, CHR 0xB9, CHR 0xB3, CHR 0xE5, CHR 0x9D, CHR 0x87]"

text \<open>chart: the maximum series\<close>

definition t_peak :: string where
  "t_peak =
     [CHR 0xE5, CHR 0xB3, CHR 0xB0, CHR 0xE5, CHR 0x80, CHR 0xBC]"

text \<open>chart: disk reads\<close>

definition t_read :: string where
  "t_read =
     [CHR 0xE8, CHR 0xAF, CHR 0xBB, CHR 0xE5, CHR 0x8F, CHR 0x96]"

text \<open>chart: disk writes\<close>

definition t_write :: string where
  "t_write =
     [CHR 0xE5, CHR 0x86, CHR 0x99, CHR 0xE5, CHR 0x85, CHR 0xA5]"

text \<open>chart: upload\<close>

definition t_upload :: string where
  "t_upload =
     [CHR 0xE4, CHR 0xB8, CHR 0x8A, CHR 0xE4, CHR 0xBC, CHR 0xA0]"

text \<open>chart: download\<close>

definition t_download :: string where
  "t_download =
     [CHR 0xE4, CHR 0xB8, CHR 0x8B, CHR 0xE8, CHR 0xBD, CHR 0xBD]"

text \<open>chart: cumulative upload\<close>

definition t_total_upload :: string where
  "t_total_upload =
     [CHR 0xE7, CHR 0xB4, CHR 0xAF, CHR 0xE8, CHR 0xAE, CHR 0xA1, CHR 0xE4, CHR 0xB8, CHR 0x8A,
      CHR 0xE4, CHR 0xBC, CHR 0xA0]"

text \<open>chart: cumulative download\<close>

definition t_total_download :: string where
  "t_total_download =
     [CHR 0xE7, CHR 0xB4, CHR 0xAF, CHR 0xE8, CHR 0xAE, CHR 0xA1, CHR 0xE4, CHR 0xB8, CHR 0x8B,
      CHR 0xE8, CHR 0xBD, CHR 0xBD]"

text \<open>chart title: CPU usage\<close>

definition t_cpu_usage :: string where
  "t_cpu_usage =
     ''CPU '' @
     [CHR 0xE4, CHR 0xBD, CHR 0xBF, CHR 0xE7, CHR 0x94, CHR 0xA8, CHR 0xE7, CHR 0x8E, CHR 0x87]"

text \<open>chart title: load\<close>

definition t_system_load :: string where
  "t_system_load =
     [CHR 0xE7, CHR 0xB3, CHR 0xBB, CHR 0xE7, CHR 0xBB, CHR 0x9F, CHR 0xE8, CHR 0xB4, CHR 0x9F,
      CHR 0xE8, CHR 0xBD, CHR 0xBD]"

text \<open>chart title: memory usage\<close>

definition t_memory_usage :: string where
  "t_memory_usage =
     [CHR 0xE5, CHR 0x86, CHR 0x85, CHR 0xE5, CHR 0xAD, CHR 0x98, CHR 0xE4, CHR 0xBD, CHR 0xBF,
      CHR 0xE7, CHR 0x94, CHR 0xA8, CHR 0xE7, CHR 0x8E, CHR 0x87]"

text \<open>chart title: swap usage\<close>

definition t_swap_usage :: string where
  "t_swap_usage =
     ''Swap '' @
     [CHR 0xE4, CHR 0xBD, CHR 0xBF, CHR 0xE7, CHR 0x94, CHR 0xA8, CHR 0xE7, CHR 0x8E, CHR 0x87]"

text \<open>chart title: usage of a mount point\<close>

definition t_usage_suffix :: string where
  "t_usage_suffix =
     [CHR 0xE4, CHR 0xBD, CHR 0xBF, CHR 0xE7, CHR 0x94, CHR 0xA8, CHR 0xE7, CHR 0x8E, CHR 0x87]"

text \<open>chart title: disk I/O\<close>

definition t_disk_io :: string where
  "t_disk_io =
     [CHR 0xE7, CHR 0xA3, CHR 0x81, CHR 0xE7, CHR 0x9B, CHR 0x98] @
     '' I/O''"

text \<open>chart title: network rate\<close>

definition t_network_rate :: string where
  "t_network_rate =
     [CHR 0xE7, CHR 0xBD, CHR 0x91, CHR 0xE7, CHR 0xBB, CHR 0x9C, CHR 0xE9, CHR 0x80, CHR 0x9F,
      CHR 0xE7, CHR 0x8E, CHR 0x87]"

text \<open>chart title: cumulative traffic\<close>

definition t_network_total :: string where
  "t_network_total =
     [CHR 0xE7, CHR 0xB4, CHR 0xAF, CHR 0xE8, CHR 0xAE, CHR 0xA1, CHR 0xE7, CHR 0xBD, CHR 0x91,
      CHR 0xE7, CHR 0xBB, CHR 0x9C, CHR 0xE6, CHR 0xB5, CHR 0x81, CHR 0xE9, CHR 0x87, CHR 0x8F]"

text \<open>ServerInstallPanel: the label of the command\<close>

definition t_install_command :: string where
  "t_install_command =
     [CHR 0xE5, CHR 0xAE, CHR 0x89, CHR 0xE8, CHR 0xA3, CHR 0x85, CHR 0xE5, CHR 0x91, CHR 0xBD,
      CHR 0xE4, CHR 0xBB, CHR 0xA4]"

text \<open>copy feedback: copied\<close>

definition t_copied :: string where
  "t_copied =
     [CHR 0xE5, CHR 0xB7, CHR 0xB2, CHR 0xE5, CHR 0xA4, CHR 0x8D, CHR 0xE5, CHR 0x88, CHR 0xB6]"

text \<open>copy feedback: failed\<close>

definition t_copy_failed :: string where
  "t_copy_failed =
     [CHR 0xE5, CHR 0xA4, CHR 0x8D, CHR 0xE5, CHR 0x88, CHR 0xB6, CHR 0xE5, CHR 0xA4, CHR 0xB1,
      CHR 0xE8, CHR 0xB4, CHR 0xA5, CHR 0xEF, CHR 0xBC, CHR 0x8C, CHR 0xE8, CHR 0xAF, CHR 0xB7,
      CHR 0xE6, CHR 0x89, CHR 0x8B, CHR 0xE5, CHR 0x8A, CHR 0xA8, CHR 0xE9, CHR 0x80, CHR 0x89,
      CHR 0xE6, CHR 0x8B, CHR 0xA9, CHR 0xE5, CHR 0x86, CHR 0x85, CHR 0xE5, CHR 0xAE, CHR 0xB9,
      CHR 0xE3, CHR 0x80, CHR 0x82]"

text \<open>ServerInstallPanel: the announcement\<close>

definition t_token_ready :: string where
  "t_token_ready =
     [CHR 0xE4, CHR 0xB8, CHR 0x80, CHR 0xE6, CHR 0xAC, CHR 0xA1, CHR 0xE6, CHR 0x80, CHR 0xA7] @
     '' Agent Token '' @
     [CHR 0xE5, CHR 0xB7, CHR 0xB2, CHR 0xE5, CHR 0x87, CHR 0x86, CHR 0xE5, CHR 0xA4, CHR 0x87,
      CHR 0xE5, CHR 0xA5, CHR 0xBD, CHR 0xEF, CHR 0xBC, CHR 0x8C, CHR 0xE8, CHR 0xAF, CHR 0xB7,
      CHR 0xE7, CHR 0xAB, CHR 0x8B, CHR 0xE5, CHR 0x8D, CHR 0xB3, CHR 0xE4, CHR 0xBF, CHR 0x9D,
      CHR 0xE5, CHR 0xAD, CHR 0x98, CHR 0xE3, CHR 0x80, CHR 0x82]"

text \<open>ServerInstallPanel: title, before the name\<close>

definition t_install :: string where
  "t_install =
     [CHR 0xE5, CHR 0xAE, CHR 0x89, CHR 0xE8, CHR 0xA3, CHR 0x85] @
     '' ''"

text \<open>after a server's name: its agent\<close>

definition t_its_agent :: string where
  "t_its_agent =
     '' '' @
     [CHR 0xE7, CHR 0x9A, CHR 0x84] @
     '' Agent''"

text \<open>ServerForm: creating\<close>

definition t_creating :: string where
  "t_creating =
     [CHR 0xE6, CHR 0xAD, CHR 0xA3, CHR 0xE5, CHR 0x9C, CHR 0xA8, CHR 0xE5, CHR 0x88, CHR 0x9B,
      CHR 0xE5, CHR 0xBB, CHR 0xBA, CHR 0xE2, CHR 0x80, CHR 0xA6]"

text \<open>ServerForm: create\<close>

definition t_create :: string where
  "t_create =
     [CHR 0xE5, CHR 0x88, CHR 0x9B, CHR 0xE5, CHR 0xBB, CHR 0xBA]"

text \<open>ServersPage: the uninstall command is copied\<close>

definition t_uninstall_copied :: string where
  "t_uninstall_copied =
     [CHR 0xE5, CHR 0x8D, CHR 0xB8, CHR 0xE8, CHR 0xBD, CHR 0xBD, CHR 0xE5, CHR 0x91, CHR 0xBD,
      CHR 0xE4, CHR 0xBB, CHR 0xA4, CHR 0xE5, CHR 0xB7, CHR 0xB2, CHR 0xE5, CHR 0xA4, CHR 0x8D,
      CHR 0xE5, CHR 0x88, CHR 0xB6]"

text \<open>ServersPage: close the form\<close>

definition t_collapse_add :: string where
  "t_collapse_add =
     [CHR 0xE6, CHR 0x94, CHR 0xB6, CHR 0xE8, CHR 0xB5, CHR 0xB7, CHR 0xE6, CHR 0xB7, CHR 0xBB,
      CHR 0xE5, CHR 0x8A, CHR 0xA0]"

text \<open>ServersPage: add a server\<close>

definition t_add_server :: string where
  "t_add_server =
     [CHR 0xE6, CHR 0xB7, CHR 0xBB, CHR 0xE5, CHR 0x8A, CHR 0xA0, CHR 0xE6, CHR 0x9C, CHR 0x8D,
      CHR 0xE5, CHR 0x8A, CHR 0xA1, CHR 0xE5, CHR 0x99, CHR 0xA8]"

text \<open>ServersPage: the list could not be read\<close>

definition t_list_failed :: string where
  "t_list_failed =
     [CHR 0xE6, CHR 0x9A, CHR 0x82, CHR 0xE6, CHR 0x97, CHR 0xB6, CHR 0xE6, CHR 0x97, CHR 0xA0,
      CHR 0xE6, CHR 0xB3, CHR 0x95, CHR 0xE8, CHR 0xAF, CHR 0xBB, CHR 0xE5, CHR 0x8F, CHR 0x96,
      CHR 0xE6, CHR 0x9C, CHR 0x8D, CHR 0xE5, CHR 0x8A, CHR 0xA1, CHR 0xE5, CHR 0x99, CHR 0xA8,
      CHR 0xE5, CHR 0x88, CHR 0x97, CHR 0xE8, CHR 0xA1, CHR 0xA8, CHR 0xEF, CHR 0xBC, CHR 0x8C,
      CHR 0xE8, CHR 0xAF, CHR 0xB7, CHR 0xE7, CHR 0xA8, CHR 0x8D, CHR 0xE5, CHR 0x90, CHR 0x8E,
      CHR 0xE9, CHR 0x87, CHR 0x8D, CHR 0xE8, CHR 0xAF, CHR 0x95, CHR 0xE3, CHR 0x80, CHR 0x82]"

text \<open>ServersPage: after the number of servers\<close>

definition t_servers_count :: string where
  "t_servers_count =
     '' '' @
     [CHR 0xE5, CHR 0x8F, CHR 0xB0, CHR 0xE6, CHR 0x9C, CHR 0x8D, CHR 0xE5, CHR 0x8A, CHR 0xA1,
      CHR 0xE5, CHR 0x99, CHR 0xA8, CHR 0xEF, CHR 0xBC, CHR 0x9B, CHR 0xE5, CHR 0x81, CHR 0x9C,
      CHR 0xE7, CHR 0x94, CHR 0xA8, CHR 0xE5, CHR 0x90, CHR 0x8E] @
     '' Agent '' @
     [CHR 0xE5, CHR 0xB0, CHR 0x86, CHR 0xE4, CHR 0xB8, CHR 0x8D, CHR 0xE8, CHR 0x83, CHR 0xBD,
      CHR 0xE7, CHR 0xBB, CHR 0xA7, CHR 0xE7, CHR 0xBB, CHR 0xAD, CHR 0xE4, CHR 0xB8, CHR 0x8A,
      CHR 0xE6, CHR 0x8A, CHR 0xA5, CHR 0xE3, CHR 0x80, CHR 0x82]"

text \<open>ServersPage: enabled\<close>

definition t_is_enabled :: string where
  "t_is_enabled =
     [CHR 0xE5, CHR 0xB7, CHR 0xB2, CHR 0xE5, CHR 0x90, CHR 0xAF, CHR 0xE7, CHR 0x94, CHR 0xA8]"

text \<open>ServersPage: disabled\<close>

definition t_is_disabled :: string where
  "t_is_disabled =
     [CHR 0xE5, CHR 0xB7, CHR 0xB2, CHR 0xE5, CHR 0x81, CHR 0x9C, CHR 0xE7, CHR 0x94, CHR 0xA8]"

text \<open>ServersPage: the agent has not reported\<close>

definition t_agent_silent :: string where
  "t_agent_silent =
     ''Agent '' @
     [CHR 0xE5, CHR 0xB0, CHR 0x9A, CHR 0xE6, CHR 0x9C, CHR 0xAA, CHR 0xE4, CHR 0xB8, CHR 0x8A,
      CHR 0xE6, CHR 0x8A, CHR 0xA5]"

text \<open>ServersPage: enable\<close>

definition t_enable :: string where
  "t_enable =
     [CHR 0xE5, CHR 0x90, CHR 0xAF, CHR 0xE7, CHR 0x94, CHR 0xA8]"

text \<open>ServersPage: disable\<close>

definition t_disable :: string where
  "t_disable =
     [CHR 0xE5, CHR 0x81, CHR 0x9C, CHR 0xE7, CHR 0x94, CHR 0xA8]"

text \<open>ServersPage: under way\<close>

definition t_processing :: string where
  "t_processing =
     [CHR 0xE5, CHR 0xA4, CHR 0x84, CHR 0xE7, CHR 0x90, CHR 0x86, CHR 0xE4, CHR 0xB8, CHR 0xAD,
      CHR 0xE2, CHR 0x80, CHR 0xA6]"

text \<open>ServersPage: confirm\<close>

definition t_confirm :: string where
  "t_confirm =
     [CHR 0xE7, CHR 0xA1, CHR 0xAE, CHR 0xE8, CHR 0xAE, CHR 0xA4]"

text \<open>ServersPage: rename\<close>

definition t_rename :: string where
  "t_rename =
     [CHR 0xE9, CHR 0x87, CHR 0x8D, CHR 0xE5, CHR 0x91, CHR 0xBD, CHR 0xE5, CHR 0x90, CHR 0x8D]"

text \<open>ServersPage: save\<close>

definition t_save :: string where
  "t_save =
     [CHR 0xE4, CHR 0xBF, CHR 0x9D, CHR 0xE5, CHR 0xAD, CHR 0x98]"

text \<open>ServersPage: after a server's name: its new name\<close>

definition t_its_new_name :: string where
  "t_its_new_name =
     '' '' @
     [CHR 0xE7, CHR 0x9A, CHR 0x84, CHR 0xE6, CHR 0x96, CHR 0xB0, CHR 0xE5, CHR 0x90, CHR 0x8D,
      CHR 0xE7, CHR 0xA7, CHR 0xB0]"

text \<open>ServersPage: regenerate\<close>

definition t_regenerate :: string where
  "t_regenerate =
     [CHR 0xE9, CHR 0x87, CHR 0x8D, CHR 0xE6, CHR 0x96, CHR 0xB0, CHR 0xE7, CHR 0x94, CHR 0x9F,
      CHR 0xE6, CHR 0x88, CHR 0x90]"

text \<open>after a server's name: its token\<close>

definition t_its_token :: string where
  "t_its_token =
     '' '' @
     [CHR 0xE7, CHR 0x9A, CHR 0x84] @
     '' Token''"

text \<open>ServersPage: uninstall\<close>

definition t_uninstall :: string where
  "t_uninstall =
     [CHR 0xE5, CHR 0x8D, CHR 0xB8, CHR 0xE8, CHR 0xBD, CHR 0xBD]"

text \<open>ServersPage: delete\<close>

definition t_delete :: string where
  "t_delete =
     [CHR 0xE5, CHR 0x88, CHR 0xA0, CHR 0xE9, CHR 0x99, CHR 0xA4]"

text \<open>ServersPage: deleting ends the token\<close>

definition t_delete_warning :: string where
  "t_delete_warning =
     [CHR 0xE5, CHR 0x88, CHR 0xA0, CHR 0xE9, CHR 0x99, CHR 0xA4, CHR 0xE5, CHR 0x90, CHR 0x8E,
      CHR 0xE8, CHR 0xAF, CHR 0xA5] @
     '' Agent Token '' @
     [CHR 0xE5, CHR 0xB0, CHR 0x86, CHR 0xE7, CHR 0xAB, CHR 0x8B, CHR 0xE5, CHR 0x8D, CHR 0xB3,
      CHR 0xE5, CHR 0xA4, CHR 0xB1, CHR 0xE6, CHR 0x95, CHR 0x88, CHR 0xE3, CHR 0x80, CHR 0x82]"

text \<open>ServersPage: regenerating ends the token\<close>

definition t_rotate_warning :: string where
  "t_rotate_warning =
     [CHR 0xE9, CHR 0x87, CHR 0x8D, CHR 0xE6, CHR 0x96, CHR 0xB0, CHR 0xE7, CHR 0x94, CHR 0x9F,
      CHR 0xE6, CHR 0x88, CHR 0x90, CHR 0xE5, CHR 0x90, CHR 0x8E, CHR 0xEF, CHR 0xBC, CHR 0x8C,
      CHR 0xE5, CHR 0xBD, CHR 0x93, CHR 0xE5, CHR 0x89, CHR 0x8D] @
     '' Agent Token '' @
     [CHR 0xE5, CHR 0xB0, CHR 0x86, CHR 0xE7, CHR 0xAB, CHR 0x8B, CHR 0xE5, CHR 0x8D, CHR 0xB3,
      CHR 0xE5, CHR 0xA4, CHR 0xB1, CHR 0xE6, CHR 0x95, CHR 0x88, CHR 0xE3, CHR 0x80, CHR 0x82]"

text \<open>ServersPage: what deleting removes\<close>

definition t_delete_detail :: string where
  "t_delete_detail =
     [CHR 0xE8, CHR 0xAF, CHR 0xA5, CHR 0xE6, CHR 0x9C, CHR 0x8D, CHR 0xE5, CHR 0x8A, CHR 0xA1,
      CHR 0xE5, CHR 0x99, CHR 0xA8, CHR 0xE7, CHR 0x9A, CHR 0x84, CHR 0xE5, CHR 0xAE, CHR 0x9E,
      CHR 0xE6, CHR 0x97, CHR 0xB6, CHR 0xE6, CHR 0x95, CHR 0xB0, CHR 0xE6, CHR 0x8D, CHR 0xAE,
      CHR 0xE5, CHR 0x92, CHR 0x8C, CHR 0xE5, CHR 0x8E, CHR 0x86, CHR 0xE5, CHR 0x8F, CHR 0xB2,
      CHR 0xE6, CHR 0x95, CHR 0xB0, CHR 0xE6, CHR 0x8D, CHR 0xAE, CHR 0xE4, CHR 0xBC, CHR 0x9A,
      CHR 0xE7, CHR 0x94, CHR 0xB1, CHR 0xE6, CHR 0x95, CHR 0xB0, CHR 0xE6, CHR 0x8D, CHR 0xAE,
      CHR 0xE5, CHR 0xBA, CHR 0x93, CHR 0xE7, CHR 0xBA, CHR 0xA7, CHR 0xE8, CHR 0x81, CHR 0x94,
      CHR 0xE4, CHR 0xB8, CHR 0x80, CHR 0xE5, CHR 0xB9, CHR 0xB6, CHR 0xE5, CHR 0x88, CHR 0xA0,
      CHR 0xE9, CHR 0x99, CHR 0xA4, CHR 0xEF, CHR 0xBC, CHR 0x8C, CHR 0xE6, CHR 0x97, CHR 0xA0,
      CHR 0xE6, CHR 0xB3, CHR 0x95, CHR 0xE6, CHR 0x81, CHR 0xA2, CHR 0xE5, CHR 0xA4, CHR 0x8D,
      CHR 0xE3, CHR 0x80, CHR 0x82]"

text \<open>ServersPage: what to do with the new token\<close>

definition t_rotate_detail :: string where
  "t_rotate_detail =
     [CHR 0xE8, CHR 0xAF, CHR 0xB7, CHR 0xE5, CHR 0x9C, CHR 0xA8, CHR 0xE6, CHR 0x96, CHR 0xB0] @
     '' Token '' @
     [CHR 0xE6, CHR 0x98, CHR 0xBE, CHR 0xE7, CHR 0xA4, CHR 0xBA, CHR 0xE5, CHR 0x90, CHR 0x8E,
      CHR 0xE7, CHR 0xAB, CHR 0x8B, CHR 0xE5, CHR 0x8D, CHR 0xB3, CHR 0xE4, CHR 0xBF, CHR 0x9D,
      CHR 0xE5, CHR 0xAD, CHR 0x98, CHR 0xEF, CHR 0xBC, CHR 0x8C, CHR 0xE5, CHR 0xB9, CHR 0xB6,
      CHR 0xE6, CHR 0x9B, CHR 0xB4, CHR 0xE6, CHR 0x96, CHR 0xB0, CHR 0xE8, CHR 0xBF, CHR 0x99,
      CHR 0xE5, CHR 0x8F, CHR 0xB0, CHR 0xE6, CHR 0x9C, CHR 0x8D, CHR 0xE5, CHR 0x8A, CHR 0xA1,
      CHR 0xE5, CHR 0x99, CHR 0xA8, CHR 0xE7, CHR 0x9A, CHR 0x84] @
     '' Agent '' @
     [CHR 0xE9, CHR 0x85, CHR 0x8D, CHR 0xE7, CHR 0xBD, CHR 0xAE, CHR 0xE3, CHR 0x80, CHR 0x82]"

text \<open>LoginPage: heading\<close>

definition t_welcome_back :: string where
  "t_welcome_back =
     [CHR 0xE6, CHR 0xAC, CHR 0xA2, CHR 0xE8, CHR 0xBF, CHR 0x8E, CHR 0xE5, CHR 0x9B, CHR 0x9E,
      CHR 0xE6, CHR 0x9D, CHR 0xA5]"

text \<open>LoginPage: description\<close>

definition t_login_description :: string where
  "t_login_description =
     [CHR 0xE7, CHR 0x99, CHR 0xBB, CHR 0xE5, CHR 0xBD, CHR 0x95, CHR 0xE5, CHR 0x90, CHR 0x8E,
      CHR 0xE6, CHR 0x9F, CHR 0xA5, CHR 0xE7, CHR 0x9C, CHR 0x8B, CHR 0xE4, CHR 0xBD, CHR 0xA0,
      CHR 0xE7, CHR 0x9A, CHR 0x84, CHR 0xE6, CHR 0x9C, CHR 0x8D, CHR 0xE5, CHR 0x8A, CHR 0xA1,
      CHR 0xE5, CHR 0x99, CHR 0xA8, CHR 0xE7, CHR 0x8A, CHR 0xB6, CHR 0xE6, CHR 0x80, CHR 0x81,
      CHR 0xE3, CHR 0x80, CHR 0x82]"

text \<open>LoginPage: the administrator was created\<close>

definition t_setup_complete :: string where
  "t_setup_complete =
     [CHR 0xE7, CHR 0xAE, CHR 0xA1, CHR 0xE7, CHR 0x90, CHR 0x86, CHR 0xE5, CHR 0x91, CHR 0x98,
      CHR 0xE5, CHR 0xB7, CHR 0xB2, CHR 0xE5, CHR 0x88, CHR 0x9B, CHR 0xE5, CHR 0xBB, CHR 0xBA,
      CHR 0xEF, CHR 0xBC, CHR 0x8C, CHR 0xE7, CHR 0x8E, CHR 0xB0, CHR 0xE5, CHR 0x9C, CHR 0xA8,
      CHR 0xE5, CHR 0x8F, CHR 0xAF, CHR 0xE4, CHR 0xBB, CHR 0xA5, CHR 0xE7, CHR 0x99, CHR 0xBB,
      CHR 0xE5, CHR 0xBD, CHR 0x95, CHR 0xE4, CHR 0xBA, CHR 0x86, CHR 0xE3, CHR 0x80, CHR 0x82]"

text \<open>LoginPage: under way\<close>

definition t_logging_in :: string where
  "t_logging_in =
     [CHR 0xE6, CHR 0xAD, CHR 0xA3, CHR 0xE5, CHR 0x9C, CHR 0xA8, CHR 0xE7, CHR 0x99, CHR 0xBB,
      CHR 0xE5, CHR 0xBD, CHR 0x95, CHR 0xE2, CHR 0x80, CHR 0xA6]"

text \<open>LoginPage: log in\<close>

definition t_login :: string where
  "t_login =
     [CHR 0xE7, CHR 0x99, CHR 0xBB, CHR 0xE5, CHR 0xBD, CHR 0x95]"

text \<open>SetupPage: create the administrator\<close>

definition t_create_admin :: string where
  "t_create_admin =
     [CHR 0xE5, CHR 0x88, CHR 0x9B, CHR 0xE5, CHR 0xBB, CHR 0xBA, CHR 0xE7, CHR 0xAE, CHR 0xA1,
      CHR 0xE7, CHR 0x90, CHR 0x86, CHR 0xE5, CHR 0x91, CHR 0x98]"

text \<open>SetupPage: description\<close>

definition t_setup_description :: string where
  "t_setup_description =
     [CHR 0xE5, CHR 0x85, CHR 0x88, CHR 0xE8, CHR 0xAE, CHR 0xBE, CHR 0xE7, CHR 0xBD, CHR 0xAE,
      CHR 0xE5, CHR 0x94, CHR 0xAF, CHR 0xE4, CHR 0xB8, CHR 0x80, CHR 0xE7, CHR 0x9A, CHR 0x84,
      CHR 0xE7, CHR 0xAE, CHR 0xA1, CHR 0xE7, CHR 0x90, CHR 0x86, CHR 0xE5, CHR 0x91, CHR 0x98,
      CHR 0xE8, CHR 0xB4, CHR 0xA6, CHR 0xE6, CHR 0x88, CHR 0xB7, CHR 0xEF, CHR 0xBC, CHR 0x8C,
      CHR 0xE4, CHR 0xBB, CHR 0xA5, CHR 0xE5, CHR 0x90, CHR 0x8E, CHR 0xE5, CHR 0xB0, CHR 0xB1,
      CHR 0xE7, CHR 0x94, CHR 0xA8, CHR 0xE5, CHR 0xAE, CHR 0x83, CHR 0xE8, CHR 0xBF, CHR 0x9B,
      CHR 0xE5, CHR 0x85, CHR 0xA5, CHR 0xE4, CHR 0xBD, CHR 0xA0, CHR 0xE7, CHR 0x9A, CHR 0x84,
      CHR 0xE7, CHR 0x9B, CHR 0x91, CHR 0xE6, CHR 0x8E, CHR 0xA7, CHR 0xE7, CHR 0xAB, CHR 0x99,
      CHR 0xE3, CHR 0x80, CHR 0x82]"

text \<open>AuthGate: no connection\<close>

definition t_not_connected :: string where
  "t_not_connected =
     [CHR 0xE6, CHR 0x9A, CHR 0x82, CHR 0xE6, CHR 0x97, CHR 0xB6, CHR 0xE8, CHR 0xBF, CHR 0x9E,
      CHR 0xE6, CHR 0x8E, CHR 0xA5, CHR 0xE4, CHR 0xB8, CHR 0x8D, CHR 0xE4, CHR 0xB8, CHR 0x8A]"

text \<open>AuthGate: description\<close>

definition t_not_connected_description :: string where
  "t_not_connected_description =
     ''TinyProbe '' @
     [CHR 0xE6, CHR 0xB2, CHR 0xA1, CHR 0xE8, CHR 0x83, CHR 0xBD, CHR 0xE7, CHR 0xA1, CHR 0xAE,
      CHR 0xE8, CHR 0xAE, CHR 0xA4, CHR 0xE5, CHR 0xBD, CHR 0x93, CHR 0xE5, CHR 0x89, CHR 0x8D,
      CHR 0xE7, CHR 0x99, CHR 0xBB, CHR 0xE5, CHR 0xBD, CHR 0x95, CHR 0xE7, CHR 0x8A, CHR 0xB6,
      CHR 0xE6, CHR 0x80, CHR 0x81, CHR 0xE3, CHR 0x80, CHR 0x82]"

text \<open>AlertsPage\<close>

definition t_alerts_load_failed :: string where
  "t_alerts_load_failed =
     [CHR 0xE6, CHR 0x9A, CHR 0x82, CHR 0xE6, CHR 0x97, CHR 0xB6, CHR 0xE6, CHR 0x97, CHR 0xA0,
      CHR 0xE6, CHR 0xB3, CHR 0x95, CHR 0xE5, CHR 0x8A, CHR 0xA0, CHR 0xE8, CHR 0xBD, CHR 0xBD,
      CHR 0xE5, CHR 0x91, CHR 0x8A, CHR 0xE8, CHR 0xAD, CHR 0xA6, CHR 0xE9, CHR 0x85, CHR 0x8D,
      CHR 0xE7, CHR 0xBD, CHR 0xAE, CHR 0xEF, CHR 0xBC, CHR 0x8C, CHR 0xE8, CHR 0xAF, CHR 0xB7,
      CHR 0xE7, CHR 0xA8, CHR 0x8D, CHR 0xE5, CHR 0x90, CHR 0x8E, CHR 0xE9, CHR 0x87, CHR 0x8D,
      CHR 0xE8, CHR 0xAF, CHR 0x95, CHR 0xE3, CHR 0x80, CHR 0x82]"

text \<open>AlertsPage\<close>

definition t_rule_update_failed :: string where
  "t_rule_update_failed =
     [CHR 0xE6, CHR 0x9A, CHR 0x82, CHR 0xE6, CHR 0x97, CHR 0xB6, CHR 0xE6, CHR 0x97, CHR 0xA0,
      CHR 0xE6, CHR 0xB3, CHR 0x95, CHR 0xE6, CHR 0x9B, CHR 0xB4, CHR 0xE6, CHR 0x96, CHR 0xB0,
      CHR 0xE5, CHR 0x91, CHR 0x8A, CHR 0xE8, CHR 0xAD, CHR 0xA6, CHR 0xE8, CHR 0xA7, CHR 0x84,
      CHR 0xE5, CHR 0x88, CHR 0x99, CHR 0xEF, CHR 0xBC, CHR 0x8C, CHR 0xE8, CHR 0xAF, CHR 0xB7,
      CHR 0xE7, CHR 0xA8, CHR 0x8D, CHR 0xE5, CHR 0x90, CHR 0x8E, CHR 0xE9, CHR 0x87, CHR 0x8D,
      CHR 0xE8, CHR 0xAF, CHR 0x95, CHR 0xE3, CHR 0x80, CHR 0x82]"

text \<open>AlertsPage\<close>

definition t_rule_delete_failed :: string where
  "t_rule_delete_failed =
     [CHR 0xE6, CHR 0x9A, CHR 0x82, CHR 0xE6, CHR 0x97, CHR 0xB6, CHR 0xE6, CHR 0x97, CHR 0xA0,
      CHR 0xE6, CHR 0xB3, CHR 0x95, CHR 0xE5, CHR 0x88, CHR 0xA0, CHR 0xE9, CHR 0x99, CHR 0xA4,
      CHR 0xE5, CHR 0x91, CHR 0x8A, CHR 0xE8, CHR 0xAD, CHR 0xA6, CHR 0xE8, CHR 0xA7, CHR 0x84,
      CHR 0xE5, CHR 0x88, CHR 0x99, CHR 0xEF, CHR 0xBC, CHR 0x8C, CHR 0xE8, CHR 0xAF, CHR 0xB7,
      CHR 0xE7, CHR 0xA8, CHR 0x8D, CHR 0xE5, CHR 0x90, CHR 0x8E, CHR 0xE9, CHR 0x87, CHR 0x8D,
      CHR 0xE8, CHR 0xAF, CHR 0x95, CHR 0xE3, CHR 0x80, CHR 0x82]"

text \<open>AlertsPage: a server without a name, before its id\<close>

definition t_server_number :: string where
  "t_server_number =
     [CHR 0xE6, CHR 0x9C, CHR 0x8D, CHR 0xE5, CHR 0x8A, CHR 0xA1, CHR 0xE5, CHR 0x99, CHR 0xA8] @
     '' #''"

text \<open>AlertsPage: before the duration\<close>

definition t_lasting :: string where
  "t_lasting =
     [CHR 0xEF, CHR 0xBC, CHR 0x8C, CHR 0xE6, CHR 0x8C, CHR 0x81, CHR 0xE7, CHR 0xBB, CHR 0xAD] @
     '' ''"

text \<open>AlertsPage: after the duration\<close>

definition t_seconds :: string where
  "t_seconds =
     '' '' @
     [CHR 0xE7, CHR 0xA7, CHR 0x92]"

text \<open>alert state: firing\<close>

definition t_firing :: string where
  "t_firing =
     [CHR 0xE8, CHR 0xA7, CHR 0xA6, CHR 0xE5, CHR 0x8F, CHR 0x91]"

text \<open>alert state: pending\<close>

definition t_waiting :: string where
  "t_waiting =
     [CHR 0xE7, CHR 0xAD, CHR 0x89, CHR 0xE5, CHR 0xBE, CHR 0x85, CHR 0xE4, CHR 0xB8, CHR 0xAD]"

text \<open>alert state: recovered\<close>

definition t_recovered :: string where
  "t_recovered =
     [CHR 0xE5, CHR 0xB7, CHR 0xB2, CHR 0xE6, CHR 0x81, CHR 0xA2, CHR 0xE5, CHR 0xA4, CHR 0x8D]"

text \<open>alert state: normal\<close>

definition t_normal :: string where
  "t_normal =
     [CHR 0xE6, CHR 0xAD, CHR 0xA3, CHR 0xE5, CHR 0xB8, CHR 0xB8]"

text \<open>AlertsPage: after a server's name: its alert rule\<close>

definition t_alert_rule_suffix :: string where
  "t_alert_rule_suffix =
     '' '' @
     [CHR 0xE5, CHR 0x91, CHR 0x8A, CHR 0xE8, CHR 0xAD, CHR 0xA6, CHR 0xE8, CHR 0xA7, CHR 0x84,
      CHR 0xE5, CHR 0x88, CHR 0x99]"

text \<open>alert metric: offline\<close>

definition t_server_offline :: string where
  "t_server_offline =
     [CHR 0xE6, CHR 0x9C, CHR 0x8D, CHR 0xE5, CHR 0x8A, CHR 0xA1, CHR 0xE5, CHR 0x99, CHR 0xA8,
      CHR 0xE7, CHR 0xA6, CHR 0xBB, CHR 0xE7, CHR 0xBA, CHR 0xBF]"

text \<open>alert metric: disk usage\<close>

definition t_disk_usage :: string where
  "t_disk_usage =
     [CHR 0xE7, CHR 0xA3, CHR 0x81, CHR 0xE7, CHR 0x9B, CHR 0x98, CHR 0xE4, CHR 0xBD, CHR 0xBF,
      CHR 0xE7, CHR 0x94, CHR 0xA8, CHR 0xE7, CHR 0x8E, CHR 0x87]"

text \<open>alert metric: free disk space\<close>

definition t_disk_free :: string where
  "t_disk_free =
     [CHR 0xE7, CHR 0xA3, CHR 0x81, CHR 0xE7, CHR 0x9B, CHR 0x98, CHR 0xE5, CHR 0x8F, CHR 0xAF,
      CHR 0xE7, CHR 0x94, CHR 0xA8, CHR 0xE7, CHR 0xA9, CHR 0xBA, CHR 0xE9, CHR 0x97, CHR 0xB4]"

text \<open>AlertRuleForm: above\<close>

definition t_above :: string where
  "t_above =
     [CHR 0xE5, CHR 0xA4, CHR 0xA7, CHR 0xE4, CHR 0xBA, CHR 0x8E] @
     '' ''"

text \<open>AlertRuleForm: below\<close>

definition t_below :: string where
  "t_below =
     [CHR 0xE5, CHR 0xB0, CHR 0x8F, CHR 0xE4, CHR 0xBA, CHR 0x8E] @
     '' ''"

text \<open>AlertRuleForm: bytes\<close>

definition t_bytes :: string where
  "t_bytes =
     '' '' @
     [CHR 0xE5, CHR 0xAD, CHR 0x97, CHR 0xE8, CHR 0x8A, CHR 0x82]"

text \<open>AlertRuleForm: no server\<close>

definition t_choose_server :: string where
  "t_choose_server =
     [CHR 0xE8, CHR 0xAF, CHR 0xB7, CHR 0xE9, CHR 0x80, CHR 0x89, CHR 0xE6, CHR 0x8B, CHR 0xA9,
      CHR 0xE6, CHR 0x9C, CHR 0x8D, CHR 0xE5, CHR 0x8A, CHR 0xA1, CHR 0xE5, CHR 0x99, CHR 0xA8,
      CHR 0xE3, CHR 0x80, CHR 0x82]"

text \<open>AlertRuleForm: invalid threshold\<close>

definition t_bad_threshold :: string where
  "t_bad_threshold =
     [CHR 0xE8, CHR 0xAF, CHR 0xB7, CHR 0xE8, CHR 0xBE, CHR 0x93, CHR 0xE5, CHR 0x85, CHR 0xA5,
      CHR 0xE6, CHR 0x9C, CHR 0x89, CHR 0xE6, CHR 0x95, CHR 0x88, CHR 0xE9, CHR 0x98, CHR 0x88,
      CHR 0xE5, CHR 0x80, CHR 0xBC, CHR 0xE3, CHR 0x80, CHR 0x82]"

text \<open>AlertRuleForm\<close>

definition t_rule_save_failed :: string where
  "t_rule_save_failed =
     [CHR 0xE6, CHR 0x9A, CHR 0x82, CHR 0xE6, CHR 0x97, CHR 0xB6, CHR 0xE6, CHR 0x97, CHR 0xA0,
      CHR 0xE6, CHR 0xB3, CHR 0x95, CHR 0xE4, CHR 0xBF, CHR 0x9D, CHR 0xE5, CHR 0xAD, CHR 0x98,
      CHR 0xE5, CHR 0x91, CHR 0x8A, CHR 0xE8, CHR 0xAD, CHR 0xA6, CHR 0xE8, CHR 0xA7, CHR 0x84,
      CHR 0xE5, CHR 0x88, CHR 0x99, CHR 0xEF, CHR 0xBC, CHR 0x8C, CHR 0xE8, CHR 0xAF, CHR 0xB7,
      CHR 0xE7, CHR 0xA8, CHR 0x8D, CHR 0xE5, CHR 0x90, CHR 0x8E, CHR 0xE9, CHR 0x87, CHR 0x8D,
      CHR 0xE8, CHR 0xAF, CHR 0x95, CHR 0xE3, CHR 0x80, CHR 0x82]"

text \<open>AlertRuleForm: under way\<close>

definition t_saving :: string where
  "t_saving =
     [CHR 0xE4, CHR 0xBF, CHR 0x9D, CHR 0xE5, CHR 0xAD, CHR 0x98, CHR 0xE4, CHR 0xB8, CHR 0xAD,
      CHR 0xE2, CHR 0x80, CHR 0xA6]"

text \<open>AlertRuleForm: save\<close>

definition t_save_rule :: string where
  "t_save_rule =
     [CHR 0xE4, CHR 0xBF, CHR 0x9D, CHR 0xE5, CHR 0xAD, CHR 0x98, CHR 0xE8, CHR 0xA7, CHR 0x84,
      CHR 0xE5, CHR 0x88, CHR 0x99]"

text \<open>AlertRuleForm: add\<close>

definition t_add_rule :: string where
  "t_add_rule =
     [CHR 0xE6, CHR 0xB7, CHR 0xBB, CHR 0xE5, CHR 0x8A, CHR 0xA0, CHR 0xE8, CHR 0xA7, CHR 0x84,
      CHR 0xE5, CHR 0x88, CHR 0x99]"

text \<open>AlertRuleForm: threshold\<close>

definition t_threshold :: string where
  "t_threshold =
     [CHR 0xE9, CHR 0x98, CHR 0x88, CHR 0xE5, CHR 0x80, CHR 0xBC]"

text \<open>AlertRuleForm: per cent\<close>

definition t_in_percent :: string where
  "t_in_percent =
     [CHR 0xEF, CHR 0xBC, CHR 0x88] @
     ''%'' @
     [CHR 0xEF, CHR 0xBC, CHR 0x89]"

text \<open>AlertRuleForm: bytes\<close>

definition t_in_bytes :: string where
  "t_in_bytes =
     [CHR 0xEF, CHR 0xBC, CHR 0x88, CHR 0xE5, CHR 0xAD, CHR 0x97, CHR 0xE8, CHR 0x8A, CHR 0x82,
      CHR 0xEF, CHR 0xBC, CHR 0x89]"

text \<open>WebhookForm\<close>

definition t_webhook_save_failed :: string where
  "t_webhook_save_failed =
     [CHR 0xE6, CHR 0x9A, CHR 0x82, CHR 0xE6, CHR 0x97, CHR 0xB6, CHR 0xE6, CHR 0x97, CHR 0xA0,
      CHR 0xE6, CHR 0xB3, CHR 0x95, CHR 0xE4, CHR 0xBF, CHR 0x9D, CHR 0xE5, CHR 0xAD, CHR 0x98] @
     '' Webhook'' @
     [CHR 0xEF, CHR 0xBC, CHR 0x8C, CHR 0xE8, CHR 0xAF, CHR 0xB7, CHR 0xE7, CHR 0xA8, CHR 0x8D,
      CHR 0xE5, CHR 0x90, CHR 0x8E, CHR 0xE9, CHR 0x87, CHR 0x8D, CHR 0xE8, CHR 0xAF, CHR 0x95,
      CHR 0xE3, CHR 0x80, CHR 0x82]"

text \<open>WebhookForm\<close>

definition t_test_failed :: string where
  "t_test_failed =
     [CHR 0xE6, CHR 0x9A, CHR 0x82, CHR 0xE6, CHR 0x97, CHR 0xB6, CHR 0xE6, CHR 0x97, CHR 0xA0,
      CHR 0xE6, CHR 0xB3, CHR 0x95, CHR 0xE5, CHR 0x8F, CHR 0x91, CHR 0xE9, CHR 0x80, CHR 0x81,
      CHR 0xE6, CHR 0xB5, CHR 0x8B, CHR 0xE8, CHR 0xAF, CHR 0x95, CHR 0xE3, CHR 0x80, CHR 0x82]"

text \<open>WebhookForm: the test was delivered\<close>

definition t_test_ok :: string where
  "t_test_ok =
     [CHR 0xE6, CHR 0xB5, CHR 0x8B, CHR 0xE8, CHR 0xAF, CHR 0x95, CHR 0xE5, CHR 0x8F, CHR 0x91,
      CHR 0xE9, CHR 0x80, CHR 0x81, CHR 0xE6, CHR 0x88, CHR 0x90, CHR 0xE5, CHR 0x8A, CHR 0x9F,
      CHR 0xEF, CHR 0xBC, CHR 0x88]"

text \<open>WebhookForm: the test was not delivered\<close>

definition t_test_not_ok :: string where
  "t_test_not_ok =
     [CHR 0xE6, CHR 0xB5, CHR 0x8B, CHR 0xE8, CHR 0xAF, CHR 0x95, CHR 0xE5, CHR 0x8F, CHR 0x91,
      CHR 0xE9, CHR 0x80, CHR 0x81, CHR 0xE5, CHR 0xA4, CHR 0xB1, CHR 0xE8, CHR 0xB4, CHR 0xA5,
      CHR 0xEF, CHR 0xBC, CHR 0x88]"

text \<open>WebhookForm: attempts\<close>

definition t_attempts :: string where
  "t_attempts =
     '' '' @
     [CHR 0xE6, CHR 0xAC, CHR 0xA1, CHR 0xE5, CHR 0xB0, CHR 0x9D, CHR 0xE8, CHR 0xAF, CHR 0x95,
      CHR 0xEF, CHR 0xBC, CHR 0x89, CHR 0xE3, CHR 0x80, CHR 0x82]"

text \<open>WebhookForm: the value of a header\<close>

definition t_header_value :: string where
  "t_header_value =
     [CHR 0xE8, CHR 0xAF, CHR 0xB7, CHR 0xE6, CHR 0xB1, CHR 0x82, CHR 0xE5, CHR 0xA4, CHR 0xB4,
      CHR 0xE5, CHR 0x80, CHR 0xBC] @
     '' ''"

text \<open>WebhookForm: the name of a header\<close>

definition t_header_name :: string where
  "t_header_name =
     [CHR 0xE8, CHR 0xAF, CHR 0xB7, CHR 0xE6, CHR 0xB1, CHR 0x82, CHR 0xE5, CHR 0xA4, CHR 0xB4,
      CHR 0xE5, CHR 0x90, CHR 0x8D, CHR 0xE7, CHR 0xA7, CHR 0xB0] @
     '' ''"

text \<open>WebhookForm: save\<close>

definition t_save_webhook :: string where
  "t_save_webhook =
     [CHR 0xE4, CHR 0xBF, CHR 0x9D, CHR 0xE5, CHR 0xAD, CHR 0x98] @
     '' Webhook''"

text \<open>WebhookForm: under way\<close>

definition t_sending :: string where
  "t_sending =
     [CHR 0xE5, CHR 0x8F, CHR 0x91, CHR 0xE9, CHR 0x80, CHR 0x81, CHR 0xE4, CHR 0xB8, CHR 0xAD,
      CHR 0xE2, CHR 0x80, CHR 0xA6]"

text \<open>WebhookForm: send a test\<close>

definition t_send_test :: string where
  "t_send_test =
     [CHR 0xE5, CHR 0x8F, CHR 0x91, CHR 0xE9, CHR 0x80, CHR 0x81, CHR 0xE6, CHR 0xB5, CHR 0x8B,
      CHR 0xE8, CHR 0xAF, CHR 0x95]"

text \<open>AlertEventList: hide the attempts\<close>

definition t_collapse_attempts :: string where
  "t_collapse_attempts =
     [CHR 0xE6, CHR 0x94, CHR 0xB6, CHR 0xE8, CHR 0xB5, CHR 0xB7, CHR 0xE6, CHR 0x8A, CHR 0x95,
      CHR 0xE9, CHR 0x80, CHR 0x92, CHR 0xE8, CHR 0xAE, CHR 0xB0, CHR 0xE5, CHR 0xBD, CHR 0x95]"

text \<open>AlertEventList: show the attempts\<close>

definition t_attempt_log :: string where
  "t_attempt_log =
     [CHR 0xE6, CHR 0x8A, CHR 0x95, CHR 0xE9, CHR 0x80, CHR 0x92, CHR 0xE8, CHR 0xAE, CHR 0xB0,
      CHR 0xE5, CHR 0xBD, CHR 0x95, CHR 0xEF, CHR 0xBC, CHR 0x88]"

text \<open>a closing bracket\<close>

definition t_close_paren :: string where
  "t_close_paren =
     [CHR 0xEF, CHR 0xBC, CHR 0x89]"

text \<open>AlertEventList: before the number of an attempt\<close>

definition t_ordinal :: string where
  "t_ordinal =
     [CHR 0xE7, CHR 0xAC, CHR 0xAC] @
     '' ''"

text \<open>AlertEventList: after it\<close>

definition t_times :: string where
  "t_times =
     '' '' @
     [CHR 0xE6, CHR 0xAC, CHR 0xA1, CHR 0xEF, CHR 0xBC, CHR 0x9A]"

text \<open>AlertEventList: no response\<close>

definition t_no_response :: string where
  "t_no_response =
     [CHR 0xE6, CHR 0x9C, CHR 0xAA, CHR 0xE6, CHR 0x94, CHR 0xB6, CHR 0xE5, CHR 0x88, CHR 0xB0,
      CHR 0xE5, CHR 0x93, CHR 0x8D, CHR 0xE5, CHR 0xBA, CHR 0x94]"

text \<open>a separator\<close>

definition t_dot :: string where
  "t_dot =
     '' '' @
     [CHR 0xC2, CHR 0xB7] @
     '' ''"

text \<open>ServerRow: for screen readers\<close>

definition t_see_details :: string where
  "t_see_details =
     [CHR 0xEF, CHR 0xBC, CHR 0x8C, CHR 0xE6, CHR 0x9F, CHR 0xA5, CHR 0xE7, CHR 0x9C, CHR 0x8B,
      CHR 0xE8, CHR 0xAF, CHR 0xA6, CHR 0xE6, CHR 0x83, CHR 0x85]"

text \<open>ServerRow: online\<close>

definition t_online :: string where
  "t_online =
     [CHR 0xE5, CHR 0x9C, CHR 0xA8, CHR 0xE7, CHR 0xBA, CHR 0xBF]"

text \<open>ServerRow: offline\<close>

definition t_offline :: string where
  "t_offline =
     [CHR 0xE7, CHR 0xA6, CHR 0xBB, CHR 0xE7, CHR 0xBA, CHR 0xBF]"

text \<open>ServerRow: memory\<close>

definition t_memory_label :: string where
  "t_memory_label =
     '' '' @
     [CHR 0xE5, CHR 0x86, CHR 0x85, CHR 0xE5, CHR 0xAD, CHR 0x98]"

text \<open>ServerRow: highest disk usage\<close>

definition t_highest_disk :: string where
  "t_highest_disk =
     '' '' @
     [CHR 0xE6, CHR 0x9C, CHR 0x80, CHR 0xE9, CHR 0xAB, CHR 0x98, CHR 0xE7, CHR 0xA3, CHR 0x81,
      CHR 0xE7, CHR 0x9B, CHR 0x98]"

text \<open>OverviewPage: reconnecting and refreshing failed\<close>

definition t_retry_failed_prefix :: string where
  "t_retry_failed_prefix =
     [CHR 0xE9, CHR 0xA1, CHR 0xB5, CHR 0xE9, CHR 0x9D, CHR 0xA2, CHR 0xE4, CHR 0xBB, CHR 0x8D,
      CHR 0xE5, CHR 0x9C, CHR 0xA8, CHR 0xE8, CHR 0x87, CHR 0xAA, CHR 0xE5, CHR 0x8A, CHR 0xA8,
      CHR 0xE9, CHR 0x87, CHR 0x8D, CHR 0xE8, CHR 0xBF, CHR 0x9E, CHR 0xEF, CHR 0xBC, CHR 0x9B,
      CHR 0xE5, CHR 0x88, CHR 0xB7, CHR 0xE6, CHR 0x96, CHR 0xB0, CHR 0xE4, CHR 0xB9, CHR 0x9F,
      CHR 0xE6, CHR 0xB2, CHR 0xA1, CHR 0xE6, CHR 0x9C, CHR 0x89, CHR 0xE6, CHR 0x88, CHR 0x90,
      CHR 0xE5, CHR 0x8A, CHR 0x9F, CHR 0xEF, CHR 0xBC, CHR 0x9A]"

text \<open>OverviewPage: the data can be used\<close>

definition t_still_usable :: string where
  "t_still_usable =
     '' '' @
     [CHR 0xE5, CHR 0xBD, CHR 0x93, CHR 0xE5, CHR 0x89, CHR 0x8D, CHR 0xE7, CHR 0xBB, CHR 0x93,
      CHR 0xE6, CHR 0x9E, CHR 0x9C, CHR 0xE4, CHR 0xBB, CHR 0x8D, CHR 0xE5, CHR 0x8F, CHR 0xAF,
      CHR 0xE7, CHR 0xBB, CHR 0xA7, CHR 0xE7, CHR 0xBB, CHR 0xAD, CHR 0xE6, CHR 0x9F, CHR 0xA5,
      CHR 0xE7, CHR 0x9C, CHR 0x8B, CHR 0xE3, CHR 0x80, CHR 0x82]"

text \<open>OverviewPage: reconnecting\<close>

definition t_reconnecting :: string where
  "t_reconnecting =
     [CHR 0xE9, CHR 0xA1, CHR 0xB5, CHR 0xE9, CHR 0x9D, CHR 0xA2, CHR 0xE4, CHR 0xBC, CHR 0x9A,
      CHR 0xE8, CHR 0x87, CHR 0xAA, CHR 0xE5, CHR 0x8A, CHR 0xA8, CHR 0xE9, CHR 0x87, CHR 0x8D,
      CHR 0xE8, CHR 0xBF, CHR 0x9E, CHR 0xEF, CHR 0xBC, CHR 0x9B, CHR 0xE5, CHR 0xBD, CHR 0x93,
      CHR 0xE5, CHR 0x89, CHR 0x8D, CHR 0xE7, CHR 0xBB, CHR 0x93, CHR 0xE6, CHR 0x9E, CHR 0x9C,
      CHR 0xE4, CHR 0xBB, CHR 0x8D, CHR 0xE5, CHR 0x8F, CHR 0xAF, CHR 0xE7, CHR 0xBB, CHR 0xA7,
      CHR 0xE7, CHR 0xBB, CHR 0xAD, CHR 0xE6, CHR 0x9F, CHR 0xA5, CHR 0xE7, CHR 0x9C, CHR 0x8B,
      CHR 0xE3, CHR 0x80, CHR 0x82]"

text \<open>OverviewPage: connection lost\<close>

definition t_connection_lost :: string where
  "t_connection_lost =
     [CHR 0xE5, CHR 0xAE, CHR 0x9E, CHR 0xE6, CHR 0x97, CHR 0xB6, CHR 0xE8, CHR 0xBF, CHR 0x9E,
      CHR 0xE6, CHR 0x8E, CHR 0xA5, CHR 0xE5, CHR 0xB7, CHR 0xB2, CHR 0xE6, CHR 0x96, CHR 0xAD,
      CHR 0xE5, CHR 0xBC, CHR 0x80]"

text \<open>OverviewPage: refreshing failed\<close>

definition t_refresh_failed :: string where
  "t_refresh_failed =
     [CHR 0xE5, CHR 0x88, CHR 0xB7, CHR 0xE6, CHR 0x96, CHR 0xB0, CHR 0xE6, CHR 0xB2, CHR 0xA1,
      CHR 0xE6, CHR 0x9C, CHR 0x89, CHR 0xE6, CHR 0x88, CHR 0x90, CHR 0xE5, CHR 0x8A, CHR 0x9F]"

text \<open>OverviewPage: no server yet\<close>

definition t_status_empty :: string where
  "t_status_empty =
     [CHR 0xE8, CHR 0xBF, CHR 0x99, CHR 0xE9, CHR 0x87, CHR 0x8C, CHR 0xE5, CHR 0xB7, CHR 0xB2,
      CHR 0xE7, CHR 0xBB, CHR 0x8F, CHR 0xE5, CHR 0x87, CHR 0x86, CHR 0xE5, CHR 0xA4, CHR 0x87,
      CHR 0xE5, CHR 0xA5, CHR 0xBD, CHR 0xEF, CHR 0xBC, CHR 0x8C, CHR 0xE7, CHR 0xAD, CHR 0x89,
      CHR 0xE7, CHR 0xAC, CHR 0xAC, CHR 0xE4, CHR 0xB8, CHR 0x80, CHR 0xE5, CHR 0x8F, CHR 0xB0,
      CHR 0xE6, CHR 0x9C, CHR 0x8D, CHR 0xE5, CHR 0x8A, CHR 0xA1, CHR 0xE5, CHR 0x99, CHR 0xA8,
      CHR 0xE6, CHR 0x9D, CHR 0xA5, CHR 0xE6, CHR 0x8A, CHR 0xA5, CHR 0xE5, CHR 0x88, CHR 0xB0,
      CHR 0xE3, CHR 0x80, CHR 0x82]"

text \<open>OverviewPage: all quiet, before the number\<close>

definition t_just_looked :: string where
  "t_just_looked =
     [CHR 0xE5, CHR 0x88, CHR 0x9A, CHR 0xE5, CHR 0x88, CHR 0x9A, CHR 0xE7, CHR 0x9C, CHR 0x8B,
      CHR 0xE8, CHR 0xBF, CHR 0x87, CHR 0xEF, CHR 0xBC, CHR 0x8C]"

text \<open>OverviewPage: all quiet, after it\<close>

definition t_all_quiet :: string where
  "t_all_quiet =
     '' '' @
     [CHR 0xE5, CHR 0x8F, CHR 0xB0, CHR 0xE6, CHR 0x9C, CHR 0x8D, CHR 0xE5, CHR 0x8A, CHR 0xA1,
      CHR 0xE5, CHR 0x99, CHR 0xA8, CHR 0xE9, CHR 0x83, CHR 0xBD, CHR 0xE5, CHR 0xBE, CHR 0x88,
      CHR 0xE5, CHR 0xAE, CHR 0x89, CHR 0xE7, CHR 0xA8, CHR 0xB3, CHR 0xE3, CHR 0x80, CHR 0x82]"

text \<open>OverviewPage: some online\<close>

definition t_some_online :: string where
  "t_some_online =
     '' '' @
     [CHR 0xE5, CHR 0x8F, CHR 0xB0, CHR 0xE5, CHR 0x9C, CHR 0xA8, CHR 0xE7, CHR 0xBA, CHR 0xBF,
      CHR 0xEF, CHR 0xBC, CHR 0x8C]"

text \<open>OverviewPage: some offline\<close>

definition t_some_silent :: string where
  "t_some_silent =
     '' '' @
     [CHR 0xE5, CHR 0x8F, CHR 0xB0, CHR 0xE6, CHR 0x9A, CHR 0x82, CHR 0xE6, CHR 0x97, CHR 0xB6,
      CHR 0xE6, CHR 0xB2, CHR 0xA1, CHR 0xE5, CHR 0x9B, CHR 0x9E, CHR 0xE5, CHR 0xBA, CHR 0x94,
      CHR 0xEF, CHR 0xBC, CHR 0x8C, CHR 0xE5, CHR 0x80, CHR 0xBC, CHR 0xE5, CHR 0xBE, CHR 0x97,
      CHR 0xE7, CHR 0x9C, CHR 0x8B, CHR 0xE4, CHR 0xB8, CHR 0x80, CHR 0xE7, CHR 0x9C, CHR 0xBC,
      CHR 0xE3, CHR 0x80, CHR 0x82]"

text \<open>OverviewPage: heading\<close>

definition t_heading_loading :: string where
  "t_heading_loading =
     [CHR 0xE6, CHR 0xAD, CHR 0xA3, CHR 0xE5, CHR 0x9C, CHR 0xA8, CHR 0xE7, CHR 0xA1, CHR 0xAE,
      CHR 0xE8, CHR 0xAE, CHR 0xA4, CHR 0xE6, CHR 0x9C, CHR 0x8D, CHR 0xE5, CHR 0x8A, CHR 0xA1,
      CHR 0xE5, CHR 0x99, CHR 0xA8, CHR 0xE7, CHR 0x8A, CHR 0xB6, CHR 0xE6, CHR 0x80, CHR 0x81]"

text \<open>OverviewPage: heading\<close>

definition t_heading_error :: string where
  "t_heading_error =
     [CHR 0xE6, CHR 0x9A, CHR 0x82, CHR 0xE6, CHR 0x97, CHR 0xB6, CHR 0xE6, CHR 0x97, CHR 0xA0,
      CHR 0xE6, CHR 0xB3, CHR 0x95, CHR 0xE7, CHR 0xA1, CHR 0xAE, CHR 0xE8, CHR 0xAE, CHR 0xA4,
      CHR 0xE6, CHR 0x9C, CHR 0x8D, CHR 0xE5, CHR 0x8A, CHR 0xA1, CHR 0xE5, CHR 0x99, CHR 0xA8,
      CHR 0xE7, CHR 0x8A, CHR 0xB6, CHR 0xE6, CHR 0x80, CHR 0x81]"

text \<open>OverviewPage: heading\<close>

definition t_heading_attention :: string where
  "t_heading_attention =
     [CHR 0xE6, CHR 0x9C, CHR 0x89, CHR 0xE6, CHR 0x9C, CHR 0x8D, CHR 0xE5, CHR 0x8A, CHR 0xA1,
      CHR 0xE5, CHR 0x99, CHR 0xA8, CHR 0xE9, CHR 0x9C, CHR 0x80, CHR 0xE8, CHR 0xA6, CHR 0x81,
      CHR 0xE7, CHR 0x9C, CHR 0x8B, CHR 0xE4, CHR 0xB8, CHR 0x80, CHR 0xE7, CHR 0x9C, CHR 0xBC]"

text \<open>OverviewPage: heading\<close>

definition t_heading_quiet :: string where
  "t_heading_quiet =
     [CHR 0xE6, CHR 0x9C, CHR 0x8D, CHR 0xE5, CHR 0x8A, CHR 0xA1, CHR 0xE5, CHR 0x99, CHR 0xA8,
      CHR 0xE4, CHR 0xBB, CHR 0xAC, CHR 0xE9, CHR 0x83, CHR 0xBD, CHR 0xE5, CHR 0xBE, CHR 0x88,
      CHR 0xE5, CHR 0xAE, CHR 0x89, CHR 0xE7, CHR 0xA8, CHR 0xB3]"

text \<open>OverviewPage: introduction\<close>

definition t_intro_loading :: string where
  "t_intro_loading =
     [CHR 0xE6, CHR 0xAD, CHR 0xA3, CHR 0xE5, CHR 0x9C, CHR 0xA8, CHR 0xE7, CHR 0x9C, CHR 0x8B,
      CHR 0xE7, CHR 0x9C, CHR 0x8B, CHR 0xE6, CHR 0xAF, CHR 0x8F, CHR 0xE5, CHR 0x8F, CHR 0xB0,
      CHR 0xE6, CHR 0x9C, CHR 0x8D, CHR 0xE5, CHR 0x8A, CHR 0xA1, CHR 0xE5, CHR 0x99, CHR 0xA8,
      CHR 0xE7, CHR 0x9A, CHR 0x84, CHR 0xE8, CHR 0xBF, CHR 0x91, CHR 0xE5, CHR 0x86, CHR 0xB5,
      CHR 0xE3, CHR 0x80, CHR 0x82]"

text \<open>OverviewPage: introduction\<close>

definition t_intro_error :: string where
  "t_intro_error =
     [CHR 0xE8, CHR 0xBF, CHR 0x99, CHR 0xE4, CHR 0xBC, CHR 0x9A, CHR 0xE5, CHR 0x84, CHR 0xBF,
      CHR 0xE8, CHR 0xBF, CHR 0x98, CHR 0xE4, CHR 0xB8, CHR 0x8D, CHR 0xE8, CHR 0x83, CHR 0xBD,
      CHR 0xE7, CHR 0xA1, CHR 0xAE, CHR 0xE8, CHR 0xAE, CHR 0xA4, CHR 0xE6, CHR 0x9C, CHR 0x8D,
      CHR 0xE5, CHR 0x8A, CHR 0xA1, CHR 0xE5, CHR 0x99, CHR 0xA8, CHR 0xE6, CHR 0x98, CHR 0xAF,
      CHR 0xE5, CHR 0x90, CHR 0xA6, CHR 0xE5, CHR 0xAE, CHR 0x89, CHR 0xE7, CHR 0xA8, CHR 0xB3,
      CHR 0xE3, CHR 0x80, CHR 0x82]"

text \<open>OverviewPage: connected\<close>

definition t_live_ok :: string where
  "t_live_ok =
     [CHR 0xE5, CHR 0xAE, CHR 0x9E, CHR 0xE6, CHR 0x97, CHR 0xB6, CHR 0xE8, CHR 0xBF, CHR 0x9E,
      CHR 0xE6, CHR 0x8E, CHR 0xA5, CHR 0xE6, CHR 0xAD, CHR 0xA3, CHR 0xE5, CHR 0xB8, CHR 0xB8]"

text \<open>OverviewPage: connecting\<close>

definition t_live_waiting :: string where
  "t_live_waiting =
     [CHR 0xE6, CHR 0xAD, CHR 0xA3, CHR 0xE5, CHR 0x9C, CHR 0xA8, CHR 0xE5, CHR 0xBB, CHR 0xBA,
      CHR 0xE7, CHR 0xAB, CHR 0x8B, CHR 0xE5, CHR 0xAE, CHR 0x9E, CHR 0xE6, CHR 0x97, CHR 0xB6,
      CHR 0xE8, CHR 0xBF, CHR 0x9E, CHR 0xE6, CHR 0x8E, CHR 0xA5]"

text \<open>ServerDetailPage\<close>

definition t_status_failed :: string where
  "t_status_failed =
     [CHR 0xE6, CHR 0x9A, CHR 0x82, CHR 0xE6, CHR 0x97, CHR 0xB6, CHR 0xE6, CHR 0x97, CHR 0xA0,
      CHR 0xE6, CHR 0xB3, CHR 0x95, CHR 0xE8, CHR 0x8E, CHR 0xB7, CHR 0xE5, CHR 0x8F, CHR 0x96,
      CHR 0xE8, CHR 0xBF, CHR 0x99, CHR 0xE5, CHR 0x8F, CHR 0xB0, CHR 0xE6, CHR 0x9C, CHR 0x8D,
      CHR 0xE5, CHR 0x8A, CHR 0xA1, CHR 0xE5, CHR 0x99, CHR 0xA8, CHR 0xE7, CHR 0x9A, CHR 0x84,
      CHR 0xE7, CHR 0x8A, CHR 0xB6, CHR 0xE6, CHR 0x80, CHR 0x81, CHR 0xE3, CHR 0x80, CHR 0x82]"

text \<open>ServerDetailPage: one day\<close>

definition t_last_1d :: string where
  "t_last_1d =
     [CHR 0xE6, CHR 0x9C, CHR 0x80, CHR 0xE8, CHR 0xBF, CHR 0x91] @
     '' 1 '' @
     [CHR 0xE5, CHR 0xA4, CHR 0xA9]"

text \<open>ServerDetailPage: seven days\<close>

definition t_last_7d :: string where
  "t_last_7d =
     [CHR 0xE6, CHR 0x9C, CHR 0x80, CHR 0xE8, CHR 0xBF, CHR 0x91] @
     '' 7 '' @
     [CHR 0xE5, CHR 0xA4, CHR 0xA9]"

text \<open>ServerDetailPage: thirty days\<close>

definition t_last_30d :: string where
  "t_last_30d =
     [CHR 0xE6, CHR 0x9C, CHR 0x80, CHR 0xE8, CHR 0xBF, CHR 0x91] @
     '' 30 '' @
     [CHR 0xE5, CHR 0xA4, CHR 0xA9]"

text \<open>ServerDetailPage: after the range\<close>

definition t_range_hint :: string where
  "t_range_hint =
     [CHR 0xE7, CHR 0x9A, CHR 0x84, CHR 0xE5, CHR 0x88, CHR 0x86, CHR 0xE9, CHR 0x92, CHR 0x9F,
      CHR 0xE8, CHR 0x81, CHR 0x9A, CHR 0xE5, CHR 0x90, CHR 0x88, CHR 0xEF, CHR 0xBC, CHR 0x9B,
      CHR 0xE7, CHR 0xA9, CHR 0xBA, CHR 0xE7, CHR 0x99, CHR 0xBD, CHR 0xE5, CHR 0x8C, CHR 0xBA,
      CHR 0xE9, CHR 0x97, CHR 0xB4, CHR 0xE8, CHR 0xA1, CHR 0xA8, CHR 0xE7, CHR 0xA4, CHR 0xBA,
      CHR 0xE6, CHR 0xB2, CHR 0xA1, CHR 0xE6, CHR 0x9C, CHR 0x89, CHR 0xE6, CHR 0x95, CHR 0xB0,
      CHR 0xE6, CHR 0x8D, CHR 0xAE]"

text \<open>ServerDetailPage: live\<close>

definition t_live_hint :: string where
  "t_live_hint =
     [CHR 0xE5, CHR 0xAE, CHR 0x9E, CHR 0xE6, CHR 0x97, CHR 0xB6, CHR 0xE5, CHR 0xB1, CHR 0x95,
      CHR 0xE7, CHR 0xA4, CHR 0xBA, CHR 0xE6, CHR 0x9C, CHR 0x80, CHR 0xE8, CHR 0xBF, CHR 0x91,
      CHR 0xE4, CHR 0xB8, CHR 0x80, CHR 0xE6, CHR 0xAC, CHR 0xA1, CHR 0xE4, CHR 0xB8, CHR 0x8A,
      CHR 0xE6, CHR 0x8A, CHR 0xA5]"

text \<open>ServerDetailPage: live\<close>

definition t_current_metrics :: string where
  "t_current_metrics =
     [CHR 0xE5, CHR 0xBD, CHR 0x93, CHR 0xE5, CHR 0x89, CHR 0x8D, CHR 0xE6, CHR 0x8C, CHR 0x87,
      CHR 0xE6, CHR 0xA0, CHR 0x87]"

text \<open>ServerDetailPage: history\<close>

definition t_history_metrics :: string where
  "t_history_metrics =
     [CHR 0xE5, CHR 0x8E, CHR 0x86, CHR 0xE5, CHR 0x8F, CHR 0xB2, CHR 0xE6, CHR 0x8C, CHR 0x87,
      CHR 0xE6, CHR 0xA0, CHR 0x87]"

text \<open>ServerDetailPage: online\<close>

definition t_is_online :: string where
  "t_is_online =
     [CHR 0xE5, CHR 0x9C, CHR 0xA8, CHR 0xE7, CHR 0xBA, CHR 0xBF, CHR 0xEF, CHR 0xBC, CHR 0x8C,
      CHR 0xE6, CHR 0x9C, CHR 0x80, CHR 0xE8, CHR 0xBF, CHR 0x91, CHR 0xE4, CHR 0xB8, CHR 0x80,
      CHR 0xE6, CHR 0xAC, CHR 0xA1, CHR 0xE7, CHR 0x8A, CHR 0xB6, CHR 0xE6, CHR 0x80, CHR 0x81,
      CHR 0xE6, CHR 0xAD, CHR 0xA3, CHR 0xE5, CHR 0xB8, CHR 0xB8, CHR 0xE9, CHR 0x80, CHR 0x81,
      CHR 0xE8, CHR 0xBE, CHR 0xBE]"

text \<open>ServerDetailPage: offline\<close>

definition t_is_offline :: string where
  "t_is_offline =
     [CHR 0xE7, CHR 0xA6, CHR 0xBB, CHR 0xE7, CHR 0xBA, CHR 0xBF, CHR 0xEF, CHR 0xBC, CHR 0x8C,
      CHR 0xE5, CHR 0xB1, CHR 0x95, CHR 0xE7, CHR 0xA4, CHR 0xBA, CHR 0xE6, CHR 0x9C, CHR 0x80,
      CHR 0xE8, CHR 0xBF, CHR 0x91, CHR 0xE4, CHR 0xB8, CHR 0x80, CHR 0xE6, CHR 0xAC, CHR 0xA1,
      CHR 0xE7, CHR 0x8A, CHR 0xB6, CHR 0xE6, CHR 0x80, CHR 0x81]"

text \<open>ServerDetailPage: no swap\<close>

definition t_no_swap :: string where
  "t_no_swap =
     [CHR 0xE6, CHR 0x9C, CHR 0xAA, CHR 0xE9, CHR 0x85, CHR 0x8D, CHR 0xE7, CHR 0xBD, CHR 0xAE] @
     '' Swap''"

text \<open>RangeTabs: live\<close>

definition t_live :: string where
  "t_live =
     [CHR 0xE5, CHR 0xAE, CHR 0x9E, CHR 0xE6, CHR 0x97, CHR 0xB6]"

text \<open>RangeTabs: one day\<close>

definition t_1d :: string where
  "t_1d =
     ''1'' @
     [CHR 0xE5, CHR 0xA4, CHR 0xA9]"

text \<open>RangeTabs: seven days\<close>

definition t_7d :: string where
  "t_7d =
     ''7'' @
     [CHR 0xE5, CHR 0xA4, CHR 0xA9]"

text \<open>RangeTabs: thirty days\<close>

definition t_30d :: string where
  "t_30d =
     ''30'' @
     [CHR 0xE5, CHR 0xA4, CHR 0xA9]"

text \<open>chart: the peak of a series\<close>

definition t_peak_suffix :: string where
  "t_peak_suffix =
     [CHR 0xE5, CHR 0xB3, CHR 0xB0, CHR 0xE5, CHR 0x80, CHR 0xBC]"

text \<open>AuthGate: retry\<close>

definition t_retry :: string where
  "t_retry =
     [CHR 0xE9, CHR 0x87, CHR 0x8D, CHR 0xE8, CHR 0xAF, CHR 0x95]"

end
