(* ===== verification/ApiTypes.thy ===== *)
theory ApiTypes
  imports Messages
begin

text \<open>
  The data types of \<^verbatim>\<open>web/src/api/types.ts\<close>: one record per interface, its fields in
  the source's order. A field name that two interfaces share carries a prefix.
\<close>

record host_info =
  hostname :: string
  os :: string
  platform :: string
  platformVersion :: string
  kernelVersion :: string
  architecture :: string
  cpuModel :: string
  cpuCores :: jsnum
  primaryIp :: string
  bootTimeUnix :: jsnum
  uptimeSeconds :: jsnum

record cpu_stats =
  usagePercent :: jsnum
  cpu_load1 :: jsnum
  cpu_load5 :: jsnum
  cpu_load15 :: jsnum

record memory_stats =
  mem_totalBytes :: jsnum
  mem_usedBytes :: jsnum
  swapTotalBytes :: jsnum
  swapUsedBytes :: jsnum

record disk_stats =
  mountpoint :: string
  disk_totalBytes :: jsnum
  disk_usedBytes :: jsnum

record disk_io_stats =
  readBytesPerSecond :: jsnum
  writeBytesPerSecond :: jsnum

record network_stats =
  net_interface :: string
  uploadBytesPerSecond :: jsnum
  downloadBytesPerSecond :: jsnum
  totalUploadBytes :: jsnum
  totalDownloadBytes :: jsnum

record agent_report =
  collectedAtUnix :: jsnum
  report_agentVersion :: string
  host :: host_info
  cpu :: cpu_stats
  memory :: memory_stats
  disks :: "disk_stats list option"
  diskIo :: disk_io_stats
  network :: network_stats

record server_snapshot =
  serverId :: jsnum
  serverName :: string
  online :: bool
  lastReceivedAt :: string
  sourceIp :: string
  report :: agent_report

text \<open>A snapshot to evaluate the model on.\<close>

definition sample_report :: agent_report where
  "sample_report =
     \<lparr>collectedAtUnix = Fin 1753588800, report_agentVersion = ''0.1.0'',
      host = \<lparr>hostname = ''home-lab'', os = ''linux'', platform = ''ubuntu'',
              platformVersion = ''24.04'', kernelVersion = ''6.8.0'', architecture = ''amd64'',
              cpuModel = ''Tiny CPU'', cpuCores = Fin 4, primaryIp = ''192.0.2.10'',
              bootTimeUnix = Fin 1752724800, uptimeSeconds = Fin 864000\<rparr>,
      cpu = \<lparr>usagePercent = Fin 12, cpu_load1 = Fin 0, cpu_load5 = Fin 0, cpu_load15 = Fin 0\<rparr>,
      memory = \<lparr>mem_totalBytes = Fin 8589934592, mem_usedBytes = Fin 4294967296,
                swapTotalBytes = Fin 2147483648, swapUsedBytes = Fin 536870912\<rparr>,
      disks = Some [\<lparr>mountpoint = ''/'', disk_totalBytes = Fin 400, disk_usedBytes = Fin 200\<rparr>],
      diskIo = \<lparr>readBytesPerSecond = Fin 1024, writeBytesPerSecond = Fin 2048\<rparr>,
      network = \<lparr>net_interface = ''eth0'', uploadBytesPerSecond = Fin 4096,
                 downloadBytesPerSecond = Fin 8192, totalUploadBytes = Fin 10737418240,
                 totalDownloadBytes = Fin 21474836480\<rparr>\<rparr>"

definition sample_snapshot :: "int \<Rightarrow> string \<Rightarrow> bool \<Rightarrow> server_snapshot" where
  "sample_snapshot i n up =
     \<lparr>serverId = num_of_int i, serverName = n, online = up,
      lastReceivedAt = ''2026-07-26T04:00:00Z'', sourceIp = ''192.0.2.10'',
      report = sample_report\<rparr>"

lemma sample_snapshot_simps [simp]:
  "serverId (sample_snapshot i n up) = num_of_int i"
  "serverName (sample_snapshot i n up) = n"
  "online (sample_snapshot i n up) = up"
  by (simp_all add: sample_snapshot_def)

end
