(* ===== verification/Format.thy ===== *)
theory Format
  imports ApiTypes "HOL-Library.While_Combinator"
begin

text \<open>
  \<^verbatim>\<open>web/src/utils/format.ts\<close> and the level and clamp of
  \<^verbatim>\<open>web/src/components/MetricBar.tsx\<close>. \<open>Date\<close> parsing and \<open>Intl.DateTimeFormat\<close> depend on the
  browser's locale data and time zone and are parameters.
\<close>

definition hasReport :: "server_snapshot \<Rightarrow> bool" where
  "hasReport snapshot \<longleftrightarrow>
     js_lt (Fin 0) (collectedAtUnix (report snapshot)) \<and>
     \<not> starts_with ''0001-'' (lastReceivedAt snapshot)"

definition percentage :: "jsnum \<Rightarrow> jsnum \<Rightarrow> jsnum option" where
  "percentage used tot =
     (if js_le tot (Fin 0) \<or> js_lt used (Fin 0) then None
      else Some (js_mul (js_div used tot) (Fin 100)))"

fun higher_usage :: "jsnum option \<Rightarrow> disk_stats \<Rightarrow> jsnum option" where
  "higher_usage highest disk =
     (case percentage (disk_usedBytes disk) (disk_totalBytes disk) of
        None \<Rightarrow> highest
      | Some usage \<Rightarrow>
          (case highest of
             None \<Rightarrow> Some usage
           | Some h \<Rightarrow> if js_lt h usage then Some usage else highest))"

definition highestDiskUsage :: "disk_stats list option \<Rightarrow> jsnum option" where
  "highestDiskUsage ds = foldl higher_usage None (nullish ds [])"

definition byte_units :: "string list" where
  "byte_units = [''B'', ''KiB'', ''MiB'', ''GiB'', ''TiB'', ''PiB'']"

function scale_bytes :: "jsnum \<Rightarrow> nat \<Rightarrow> jsnum \<times> nat" where
  "scale_bytes v unit =
     (if js_le (Fin 1024) v \<and> unit < length byte_units - 1
      then scale_bytes (js_div v (Fin 1024)) (unit + 1) else (v, unit))"
  by pat_completeness auto
termination
  by (relation "measure (\<lambda>(v, unit). length byte_units - unit)") auto

declare scale_bytes.simps [simp del]

definition formatBytes :: "jsnum \<Rightarrow> string" where
  "formatBytes bytes =
     (if \<not> is_finite bytes \<or> js_lt bytes (Fin 0) then em_dash
      else let (v, unit) = scale_bytes bytes 0;
               digits = (if unit = 0 \<or> js_le (Fin 100) v then 0
                         else if js_le (Fin 10) v then 1 else 2)
           in to_fixed digits v @ '' '' @ byte_units ! unit)"

definition formatRate :: "jsnum \<Rightarrow> string" where
  "formatRate bytesPerSecond =
     (let formatted = formatBytes bytesPerSecond
      in if formatted = em_dash then formatted else formatted @ ''/s'')"

definition duration_parts :: "jsnum \<Rightarrow> jsnum \<times> jsnum \<times> jsnum" where
  "duration_parts seconds =
     (math_floor (js_div seconds (Fin 86400)),
      math_floor (js_div (js_mod seconds (Fin 86400)) (Fin 3600)),
      math_floor (js_div (js_mod seconds (Fin 3600)) (Fin 60)))"

definition formatDuration :: "jsnum \<Rightarrow> string" where
  "formatDuration seconds =
     (if \<not> is_finite seconds \<or> js_le seconds (Fin 0) then em_dash
      else let (days, hours, minutes) = duration_parts seconds
           in if js_lt (Fin 0) days
              then number_to_string days @ t_days @ '' '' @ number_to_string hours @ t_hours
              else if js_lt (Fin 0) hours
              then number_to_string hours @ t_hours @ '' '' @ number_to_string minutes @ t_minutes
              else number_to_string (math_max (Fin 1) minutes) @ t_minutes)"

text \<open>A \<open>Date\<close> is its time value in milliseconds; NaN is the invalid date.\<close>

definition formatDate :: "(jsnum \<Rightarrow> string) \<Rightarrow> jsnum \<Rightarrow> string" where
  "formatDate intl date = (if date = NaN then t_unknown_time else intl date)"

definition formatTimestamp :: "(string \<Rightarrow> jsnum) \<Rightarrow> (jsnum \<Rightarrow> string) \<Rightarrow> string \<Rightarrow> string" where
  "formatTimestamp parse_date intl v =
     (if v = [] \<or> starts_with ''0001-'' v then t_not_reported
      else formatDate intl (parse_date v))"

text \<open>The \<open>Date\<close> constructor takes a time value of at most \<open>8.64 * 10\<^sup>1\<^sup>5\<close> and drops its fraction.\<close>

fun time_clip :: "jsnum \<Rightarrow> jsnum" where
  "time_clip (Fin x) = (if \<bar>x\<bar> \<le> 8640000000000000 then num_of_int (trunc_rat x) else NaN)"
| "time_clip _ = NaN"

definition formatUnixTimestamp :: "(jsnum \<Rightarrow> string) \<Rightarrow> jsnum \<Rightarrow> string" where
  "formatUnixTimestamp intl seconds =
     (if \<not> is_finite seconds \<or> js_le seconds (Fin 0) then t_no_data_yet
      else formatDate intl (time_clip (js_mul seconds (Fin 1000))))"

datatype metric_level = Healthy | Watch | High

definition metricLevel :: "jsnum \<Rightarrow> metric_level" where
  "metricLevel v =
     (if js_le (Fin 85) v then High else if js_le (Fin 60) v then Watch else Healthy)"

text \<open>
  What the bar shows: the label for assistive technology, its text, and the level and the
  width in percent of the fill when there is one.
\<close>

datatype metric_bar = NoValue string string | Bar string string metric_level jsnum

definition metricBar :: "string \<Rightarrow> jsnum option \<Rightarrow> metric_bar" where
  "metricBar label v =
     (case v of
        None \<Rightarrow> NoValue (label @ t_no_data) em_dash
      | Some x \<Rightarrow>
          if \<not> is_finite x then NoValue (label @ t_no_data) em_dash
          else let safeValue = math_min (Fin 100) (math_max (Fin 0) x);
                   shown = to_fixed 1 safeValue @ ''%''
               in Bar (label @ shown) shown (metricLevel safeValue) safeValue)"

section \<open>Percentages\<close>

text \<open>The percentage of a part of a total, both roundings written out.\<close>

definition percent_val :: "rat \<Rightarrow> rat \<Rightarrow> rat" where
  "percent_val u t = fl_val (fl_val (u / t) * 100)"

lemma ratio_bounds:
  assumes "0 \<le> u" and "u \<le> t" and "0 < (t::rat)"
  shows "0 \<le> fl_val (u / t) \<and> fl_val (u / t) \<le> 1"
proof -
  have "of_int 0 \<le> u / t" "u / t \<le> of_int 1" using assms by simp_all
  then show ?thesis using binary64.in_int_range [of 0 "u / t" 1] by simp
qed

lemma percent_val_bounds:
  assumes "0 \<le> u" and "u \<le> t" and "0 < t"
  shows "0 \<le> percent_val u t \<and> percent_val u t \<le> 100"
  using ratio_bounds [OF assms] binary64.in_int_range [of 0 "fl_val (u / t) * 100" 100]
  by (simp add: percent_val_def)

lemma percentage_Fin:
  assumes "0 \<le> u" and "u \<le> t" and "0 < t"
  shows "percentage (Fin u) (Fin t) = Some (Fin (percent_val u t))"
proof -
  have "fl (u / t) = Fin (fl_val (u / t))"
    using fl_Fin_range [of 0 "u / t" 1] assms by simp
  moreover have "fl (fl_val (u / t) * 100) = Fin (percent_val u t)"
    using fl_Fin_range [of 0 "fl_val (u / t) * 100" 100] ratio_bounds [OF assms]
    by (simp add: percent_val_def)
  ultimately show ?thesis using assms by (simp add: percentage_def)
qed

lemma percentage_zero_total: "t \<le> 0 \<Longrightarrow> percentage (Fin u) (Fin t) = None"
  by (simp add: percentage_def)

text \<open>
  The percentage of a used amount within a total is a finite number from 0 to 100, 0 for
  none and 100 for all of it, and it never falls when the used amount grows, in spite of the
  two roundings of the division and the multiplication.
\<close>

lemma percentage_in_range:
  assumes "0 \<le> u" and "u \<le> v" and "v \<le> t" and "0 < t"
  shows "\<exists>p q. percentage (Fin u) (Fin t) = Some (Fin p) \<and>
               percentage (Fin v) (Fin t) = Some (Fin q) \<and>
               0 \<le> p \<and> p \<le> q \<and> q \<le> 100 \<and> (u = 0 \<longrightarrow> p = 0) \<and> (v = t \<longrightarrow> q = 100)"
proof -
  have "u / t \<le> v / t" using assms by (simp add: divide_right_mono)
  then have "percent_val u t \<le> percent_val v t"
    unfolding percent_val_def by (intro binary64.mono mult_right_mono) simp_all
  moreover have "percent_val 0 t = 0" by (simp add: percent_val_def)
  moreover have "percent_val t t = 100"
    using assms binary64.exact [of 1] binary64.exact [of 100] by (simp add: percent_val_def)
  ultimately show ?thesis
    using percentage_Fin [of u t] percentage_Fin [of v t] percent_val_bounds [of u t]
      percent_val_bounds [of v t] assms
    by auto
qed

text \<open>
  The bar of such a percentage is drawn as wide as the percentage itself: the clamp to
  0 to 100 never changes it, and its level is the one of the unclamped value.
\<close>

lemma metricBar_shows_percentage:
  assumes "0 \<le> u" and "u \<le> t" and "0 < t"
  shows "\<exists>p. percentage (Fin u) (Fin t) = Some p \<and>
             metricBar label (percentage (Fin u) (Fin t)) =
               Bar (label @ to_fixed 1 p @ ''%'') (to_fixed 1 p @ ''%'') (metricLevel p) p"
proof -
  have "math_min (Fin 100) (math_max (Fin 0) (Fin (percent_val u t))) = Fin (percent_val u t)"
    using percent_val_bounds [OF assms] by (simp add: max_def min_def)
  then show ?thesis
    by (simp add: percentage_Fin [OF assms] metricBar_def Let_def)
qed

section \<open>The fullest disk\<close>

definition well_formed_disk :: "disk_stats \<Rightarrow> bool" where
  "well_formed_disk d \<longleftrightarrow>
     (\<exists>u t. disk_usedBytes d = Fin u \<and> disk_totalBytes d = Fin t \<and> 0 \<le> u \<and> u \<le> t)"

text \<open>The usage percentages of the disks that have one.\<close>

definition disk_usages :: "disk_stats list \<Rightarrow> jsnum list" where
  "disk_usages ds = List.map_filter (\<lambda>d. percentage (disk_usedBytes d) (disk_totalBytes d)) ds"

definition higher :: "jsnum option \<Rightarrow> jsnum \<Rightarrow> jsnum option" where
  "higher h x = (case h of None \<Rightarrow> Some x | Some m \<Rightarrow> if js_lt m x then Some x else h)"

lemma higher_usage_foldl: "foldl higher_usage h ds = foldl higher h (disk_usages ds)"
proof (induction ds arbitrary: h)
  case Nil
  then show ?case by (simp add: disk_usages_def)
next
  case (Cons d ds)
  then show ?case
    by (cases "percentage (disk_usedBytes d) (disk_totalBytes d)")
      (simp_all add: disk_usages_def higher_def split: option.splits)
qed

lemma disk_usages_Fin:
  assumes "\<forall>d \<in> set ds. well_formed_disk d"
  shows "\<exists>ps. disk_usages ds = map Fin ps"
  using assms
proof (induction ds)
  case Nil
  then show ?case by (simp add: disk_usages_def)
next
  case (Cons d ds)
  then obtain ps where ps: "disk_usages ds = map Fin ps" by auto
  from Cons.prems obtain u t where d: "disk_usedBytes d = Fin u" "disk_totalBytes d = Fin t"
      "0 \<le> u" "u \<le> t" by (auto simp: well_formed_disk_def)
  show ?case
  proof (cases "0 < t")
    case True
    then have "disk_usages (d # ds) = map Fin (percent_val u t # ps)"
      using d ps percentage_Fin [of u t] by (simp add: disk_usages_def)
    then show ?thesis by blast
  next
    case False
    then have "disk_usages (d # ds) = map Fin ps"
      using d ps percentage_zero_total [of t u] by (simp add: disk_usages_def)
    then show ?thesis by blast
  qed
qed

lemma higher_foldl: "foldl higher (Some (Fin m)) (map Fin ps) = Some (Fin (fold max ps m))"
  by (induction ps arbitrary: m) (auto simp: higher_def max_def)

text \<open>
  Over disks whose used bytes lie within their total bytes, the highest disk usage is the
  greatest of the disks' percentages: it is one of them and none is above it, and there is
  none exactly when no disk has a positive size. A null disk list has no highest usage.
\<close>

lemma highestDiskUsage_is_greatest:
  assumes "\<forall>d \<in> set (nullish ds []). well_formed_disk d"
  shows "case highestDiskUsage ds of
           None \<Rightarrow> disk_usages (nullish ds []) = []
         | Some m \<Rightarrow> m \<in> set (disk_usages (nullish ds [])) \<and>
                     (\<forall>x \<in> set (disk_usages (nullish ds [])). js_le x m)"
proof -
  obtain ps where ps: "disk_usages (nullish ds []) = map Fin ps"
    using disk_usages_Fin [OF assms] by blast
  show ?thesis
  proof (cases ps)
    case Nil
    then show ?thesis by (simp add: highestDiskUsage_def higher_usage_foldl ps)
  next
    case (Cons x xs)
    have "fold max xs x = Max (set (x # xs))" by (rule Max.set_eq_fold [symmetric])
    then have "fold max xs x \<in> set (x # xs)" "\<forall>y \<in> set (x # xs). y \<le> fold max xs x"
      by (metis List.finite_set Max_in list.distinct(1) set_empty, simp)
    with Cons show ?thesis
      by (auto simp: highestDiskUsage_def higher_usage_foldl ps higher_foldl higher_def)
  qed
qed

section \<open>Byte counts\<close>

lemma fl_scaled_int:
  assumes "0 \<le> n" and "n < 2 ^ 53" and "e \<le> 1074"
  shows "fl (of_int n / 2 ^ e) = Fin (of_int n / 2 ^ e)"
proof (cases "n = 0")
  case True
  then show ?thesis using fl_of_int [of 0] by simp
next
  case False
  let ?x = "of_int n / 2 ^ e :: rat"
  have n1: "(1::rat) \<le> 2 ^ e" by simp
  have x: "?x = of_int n * 2 powi (- int e)"
    by (simp add: power_int_minus power_int_def field_simps)
  have "(of_int n :: rat) < of_int (2 ^ 53)" using assms(2) by (subst of_int_less_iff)
  then have lt: "?x < 2 powi (- int e + 53)"
    unfolding x power_int_add [OF disjI1, OF zero_neq_numeral [symmetric]]
    by (simp add: power_int_def [of 2 53] mult.commute)
  have "quantum ?x \<le> - int e"
    using assms False lt by (intro quantum_le) simp_all
  then have v: "fl_val ?x = ?x" using x by (rule fl_val_multiple [rotated])
  have "0 \<le> ?x" using assms by simp
  moreover have "?x \<le> of_int n"
    using mult_left_mono [OF n1, of "of_int n"] assms(1) by (simp add: divide_le_eq)
  ultimately have "fl ?x = Fin (fl_val ?x)"
    using assms by (intro fl_Fin_range [of 0 _ n]) simp_all
  with v show ?thesis by simp
qed

lemma scale_bytes_last: "scale_bytes v 5 = (v, 5)"
  by (subst scale_bytes.simps) (simp add: byte_units_def)

lemma scale_bytes_exact:
  assumes "0 \<le> n" and "n < 2 ^ 53" and "j \<le> 5"
  shows "\<exists>u. scale_bytes (Fin (of_int n / 1024 ^ j)) j = (Fin (of_int n / 1024 ^ u), u) \<and>
             j \<le> u \<and> u \<le> 5 \<and> (u < 5 \<longrightarrow> of_int n / 1024 ^ u < (1024::rat)) \<and>
             (j < u \<longrightarrow> (1::rat) \<le> of_int n / 1024 ^ u)"
  using assms(3)
proof (induction "5 - j" arbitrary: j)
  case 0
  then have "j = 5" by simp
  then show ?case
    by (intro exI [of _ 5]) (simp only: scale_bytes_last, simp)
next
  case (Suc k)
  let ?v = "of_int n / 1024 ^ j :: rat"
  have j: "j < 5" using Suc.hyps by simp
  show ?case
  proof (cases "1024 \<le> ?v")
    case False
    then have "scale_bytes (Fin ?v) j = (Fin ?v, j)"
      by (simp add: scale_bytes.simps [of "Fin ?v"])
    with False j show ?thesis by (intro exI [of _ j]) simp
  next
    case True
    have e: "(1024::rat) ^ i = 2 ^ (10 * i)" for i
      by (simp add: power_mult)
    have "js_div (Fin ?v) (Fin 1024) = fl (of_int n / 1024 ^ Suc j)"
      by (simp add: mult.commute)
    also have "\<dots> = Fin (of_int n / 1024 ^ Suc j)"
      unfolding e using assms j by (intro fl_scaled_int) simp_all
    finally have step: "scale_bytes (Fin ?v) j = scale_bytes (Fin (of_int n / 1024 ^ Suc j)) (Suc j)"
      using True j by (simp add: scale_bytes.simps [of "Fin ?v"] byte_units_def)
    have "k = 5 - Suc j" "Suc j \<le> 5" using Suc.hyps by simp_all
    from Suc.hyps(1) [OF this] obtain u where
      u: "scale_bytes (Fin (of_int n / 1024 ^ Suc j)) (Suc j) = (Fin (of_int n / 1024 ^ u), u)"
        "Suc j \<le> u" "u \<le> 5" "u < 5 \<longrightarrow> of_int n / 1024 ^ u < (1024::rat)"
        "Suc j < u \<longrightarrow> (1::rat) \<le> of_int n / 1024 ^ u"
      by blast
    have "(1::rat) \<le> of_int n / 1024 ^ Suc j" using True by (simp add: field_simps)
    then have "(1::rat) \<le> of_int n / 1024 ^ u"
      using u(2,5) by (cases "Suc j = u") simp_all
    moreover have "scale_bytes (Fin ?v) j = (Fin (of_int n / 1024 ^ u), u)"
      using step u(1) by (rule trans)
    ultimately show ?thesis using Suc_leD [OF u(2)] u(3,4) by blast
  qed
qed

text \<open>The loop as the code writes it: its condition and its body on the two variables.\<close>

definition scale_condition :: "jsnum \<times> nat \<Rightarrow> bool" where
  "scale_condition s \<longleftrightarrow> js_le (Fin 1024) (fst s) \<and> snd s < length byte_units - 1"

definition scale_body :: "jsnum \<times> nat \<Rightarrow> jsnum \<times> nat" where
  "scale_body s = (js_div (fst s) (Fin 1024), snd s + 1)"

lemma scale_loop: "while_option scale_condition scale_body (v, unit) = Some (scale_bytes v unit)"
proof (induction v unit rule: scale_bytes.induct)
  case (1 v unit)
  have c: "scale_condition (v, unit) \<longleftrightarrow> js_le (Fin 1024) v \<and> unit < length byte_units - 1"
    by (simp add: scale_condition_def)
  show ?case
  proof (cases "scale_condition (v, unit)")
    case True
    then have "while_option scale_condition scale_body (v, unit) =
        while_option scale_condition scale_body (js_div v (Fin 1024), unit + 1)"
      by (subst while_option_unfold) (simp add: scale_body_def)
    with True 1 show ?thesis unfolding c by (subst scale_bytes.simps) simp
  next
    case False
    then have "while_option scale_condition scale_body (v, unit) = Some (v, unit)"
      by (subst while_option_unfold) simp
    moreover have "scale_bytes v unit = (v, unit)"
      using False unfolding c by (subst scale_bytes.simps) (simp only: if_False)
    ultimately show ?thesis by simp
  qed
qed

lemma scale_bytes_exit:
  "unit \<le> 5 \<Longrightarrow> snd (scale_bytes v unit) \<le> 5 \<and> \<not> scale_condition (scale_bytes v unit)"
proof (induction v unit rule: scale_bytes.induct)
  case (1 v unit)
  then show ?case
    by (subst (1 2) scale_bytes.simps) (auto simp: scale_condition_def byte_units_def)
qed

text \<open>
  C40: the loop that scales a byte count ends for every Number, the infinities and \<open>NaN\<close>
  included: started at the first unit it returns, after at most five passes, the value and the
  unit of the recursive definition, its condition is false there, and the unit is in the table.
\<close>

theorem scale_loop_terminates:
  "\<exists>w u. while_option scale_condition scale_body (v, 0) = Some (w, u) \<and> (w, u) = scale_bytes v 0 \<and>
         u \<le> 5 \<and> u < length byte_units \<and> \<not> scale_condition (w, u) \<and>
         (w, u) = (scale_body ^^ u) (v, 0)"
proof -
  obtain w u where r: "scale_bytes v 0 = (w, u)" by fastforce
  from while_option_stop2 [OF scale_loop [of v 0]] obtain k where
    k: "(w, u) = (scale_body ^^ k) (v, 0)" unfolding r by blast
  have "snd ((scale_body ^^ k) (v, 0)) = k" by (induction k) (simp_all add: scale_body_def)
  with k have "u = k" by (metis snd_conv)
  then show ?thesis
    using scale_loop [of v 0] scale_bytes_exit [of 0 v] k unfolding r
    by (intro exI [of _ w] exI [of _ u]) (simp add: byte_units_def)
qed

text \<open>
  Scaling a byte count loses nothing: for every count below \<open>2\<^sup>5\<^sup>3\<close> the scaled value times
  1024 to the chosen unit is the count itself, the unit is one of the table, the value is
  below 1024 unless the unit is the last one, and at least 1 unless the unit is bytes.
\<close>

lemma scale_bytes_lossless:
  assumes "0 \<le> n" and "n < 2 ^ 53"
  shows "\<exists>v u. scale_bytes (num_of_int n) 0 = (Fin v, u) \<and> v * 1024 ^ u = of_int n \<and>
               u < length byte_units \<and> (u < length byte_units - 1 \<longrightarrow> v < 1024) \<and>
               (0 < u \<longrightarrow> 1 \<le> v)"
proof -
  obtain u where u: "scale_bytes (Fin (of_int n / 1024 ^ 0)) 0 = (Fin (of_int n / 1024 ^ u), u)"
      "u \<le> 5" "u < 5 \<longrightarrow> of_int n / 1024 ^ u < (1024::rat)"
      "0 < u \<longrightarrow> (1::rat) \<le> of_int n / 1024 ^ u"
    using scale_bytes_exact [OF assms le0] by (elim exE conjE)
  define v where "v = (of_int n / 1024 ^ u :: rat)"
  have "v * 1024 ^ u = of_int n" by (simp add: v_def)
  moreover have "scale_bytes (num_of_int n) 0 = (Fin v, u)" using u(1) by (simp add: v_def)
  moreover have "u < length byte_units" using u(2) by (simp add: byte_units_def)
  moreover have "u < length byte_units - 1 \<longrightarrow> v < 1024"
    using u(3) unfolding v_def [symmetric] by (simp add: byte_units_def)
  moreover have "0 < u \<longrightarrow> 1 \<le> v" using u(4) unfolding v_def [symmetric] .
  ultimately show ?thesis by (intro exI [of _ v] exI [of _ u] conjI)
qed

section \<open>Durations\<close>

lemma js_mod_int:
  assumes "0 \<le> s" and "0 < k"
  shows "js_mod (num_of_int s) (num_of_int k) = num_of_int (s mod k)"
proof -
  have "trunc_rat (of_int s / of_int k) = s div k"
    using assms by (simp add: trunc_rat_def floor_divide_of_int_eq)
  then have "js_mod (num_of_int s) (num_of_int k) = Fin (of_int (s - k * (s div k)))"
    using assms by simp
  then show ?thesis by (simp add: minus_mult_div_eq_mod)
qed

lemma floor_div_int:
  assumes "0 \<le> s" and "s < 2 ^ 53" and "0 < k" and "k \<le> 2 ^ 53"
  shows "math_floor (js_div (num_of_int s) (num_of_int k)) = num_of_int (s div k)"
proof -
  have "(of_int s / of_int k :: rat) \<le> of_int s"
    using assms by (simp add: divide_le_eq mult_le_cancel_left1)
  then have "fl (of_int s / of_int k) = Fin (fl_val (of_int s / of_int k))"
    using assms by (intro fl_Fin_range [of 0 _ s]) simp_all
  then show ?thesis using assms binary64.floor_quotient [of s k] by simp
qed

lemma minutes_split:
  fixes s :: int
  assumes "s = d * 86400 + a" and "a = h * 3600 + b" and "b = m * 60 + t" and "0 \<le> t" and "t < 60"
  shows "(d * 24 + h) * 60 + m = s div 60"
proof -
  have "s = 60 * ((d * 24 + h) * 60 + m) + t" using assms(1-3) by simp
  then show ?thesis using int_div_pos_eq assms(4,5) by metis
qed

lemma div_mod_range:
  assumes "0 \<le> x" and "x < c * k" and "0 < (k::int)"
  shows "0 \<le> x div k \<and> x div k < c"
proof -
  have "x div k < c"
  proof (rule ccontr)
    assume "\<not> x div k < c"
    then have "c * k \<le> x div k * k" using assms(3) by (intro mult_right_mono) simp_all
    also have "\<dots> \<le> x" using assms(3) pos_mod_sign [of k x] div_mult_mod_eq [of x k] by linarith
    finally show False using assms(2) by simp
  qed
  then show ?thesis using assms by (simp add: pos_imp_zdiv_nonneg_iff)
qed

text \<open>
  The days, hours and minutes of a duration of a whole number of seconds below \<open>2\<^sup>5\<^sup>3\<close> are
  exact: together they are the duration's whole minutes, with fewer than 24 hours and fewer
  than 60 minutes. The rounded division never reaches the next day or hour.
\<close>

lemma duration_parts_exact:
  assumes "0 \<le> s" and "s < 2 ^ 53"
  shows "\<exists>d h m. duration_parts (num_of_int s) = (num_of_int d, num_of_int h, num_of_int m) \<and>
                 (d * 24 + h) * 60 + m = s div 60 \<and> 0 \<le> d \<and>
                 0 \<le> h \<and> h < 24 \<and> 0 \<le> m \<and> m < 60"
proof -
  have k: "Fin 86400 = num_of_int 86400" "Fin 3600 = num_of_int 3600" "Fin 60 = num_of_int 60"
    by simp_all
  have small: "s mod 86400 < 2 ^ 53" "s mod 3600 < 2 ^ 53"
    using pos_mod_bound [of 86400 s] pos_mod_bound [of 3600 s] by simp_all
  define d h m where "d = s div 86400" and "h = s mod 86400 div 3600" and "m = s mod 3600 div 60"
  have "duration_parts (num_of_int s) = (num_of_int d, num_of_int h, num_of_int m)"
    unfolding duration_parts_def k d_def h_def m_def using assms small
    by (simp add: js_mod_int floor_div_int del: js_div.simps js_mod.simps of_int_numeral)
  moreover have "(d * 24 + h) * 60 + m = s div 60"
  proof (rule minutes_split)
    show "s = d * 86400 + s mod 86400" by (simp add: d_def)
    show "s mod 86400 = h * 3600 + s mod 3600"
      using div_mult_mod_eq [of "s mod 86400" 3600] mod_mod_cancel [of 3600 86400 s]
      by (simp add: h_def)
    show "s mod 3600 = m * 60 + s mod 3600 mod 60" by (simp add: m_def)
  qed simp_all
  moreover have "0 \<le> d" using assms(1) by (simp add: d_def pos_imp_zdiv_nonneg_iff)
  moreover have "0 \<le> h \<and> h < 24"
    unfolding h_def using pos_mod_bound [of 86400 s] pos_mod_sign [of 86400 s]
    by (intro div_mod_range) simp_all
  moreover have "0 \<le> m \<and> m < 60"
    unfolding m_def using pos_mod_bound [of 3600 s] pos_mod_sign [of 3600 s]
    by (intro div_mod_range) simp_all
  ultimately show ?thesis by blast
qed

end
