(* ===== verification/Json.thy ===== *)
theory Json
  imports JsValue
begin

text \<open>
  \<open>JSON.stringify\<close> and \<open>JSON.parse\<close> of the standard library, as the program uses them: no
  replacer, no reviver, no indentation. Texts are UTF-8 bytes. An object keeps its properties
  in the order in which they were first set; the language moves names that look like array
  indices to the front, which only shows when a program enumerates such names.
\<close>

section \<open>\<open>JSON.stringify\<close>\<close>

definition quote_mark :: char where "quote_mark = CHR 0x22"
definition backslash :: char where "backslash = CHR 0x5C"

definition hex_digit :: "nat \<Rightarrow> char" where
  "hex_digit d = (if d < 10 then char_of (48 + d) else char_of (87 + d))"

definition quote_char :: "char \<Rightarrow> string" where
  "quote_char c =
     (if c = quote_mark then [backslash, quote_mark]
      else if c = backslash then [backslash, backslash]
      else if c = CHR 0x08 then [backslash, CHR ''b'']
      else if c = CHR 0x09 then [backslash, CHR ''t'']
      else if c = CHR 0x0A then [backslash, CHR ''n'']
      else if c = CHR 0x0C then [backslash, CHR ''f'']
      else if c = CHR 0x0D then [backslash, CHR ''r'']
      else if (of_char c :: nat) < 32 then
        [backslash, CHR ''u'', CHR ''0'', CHR ''0'',
         hex_digit (of_char c div 16), hex_digit (of_char c mod 16)]
      else [c])"

definition json_quote :: "string \<Rightarrow> string" where
  "json_quote s = quote_mark # concat (map quote_char s) @ [quote_mark]"

text \<open>An undefined value has no text; as an element it is null, as a property it is left out.\<close>

fun json_text :: "jv \<Rightarrow> string option" where
  "json_text JUndef = None"
| "json_text JNull = Some ''null''"
| "json_text (JBool b) = Some (if b then ''true'' else ''false'')"
| "json_text (JNum x) = Some (if is_finite x then number_to_string x else ''null'')"
| "json_text (JStr s) = Some (json_quote s)"
| "json_text (JArr vs) =
     Some (''['' @ join '','' (map (\<lambda>v. nullish (json_text v) ''null'') vs) @ '']'')"
| "json_text (JObj fs) =
     Some (''{'' @ join '','' (concat (map (\<lambda>(k, v).
             case json_text v of None \<Rightarrow> [] | Some t \<Rightarrow> [json_quote k @ '':'' @ t]) fs)) @ ''}'')"

section \<open>\<open>JSON.parse\<close>\<close>

definition is_space :: "char \<Rightarrow> bool" where
  "is_space c \<longleftrightarrow> c = CHR '' '' \<or> c = CHR 0x09 \<or> c = CHR 0x0A \<or> c = CHR 0x0D"

definition skip_space :: "string \<Rightarrow> string" where
  "skip_space s = dropWhile is_space s"

definition hex_value :: "char \<Rightarrow> nat option" where
  "hex_value c =
     (let n = of_char c
      in if 48 \<le> n \<and> n \<le> 57 then Some (n - 48)
         else if 65 \<le> n \<and> n \<le> 70 then Some (n - 55)
         else if 97 \<le> n \<and> n \<le> 102 then Some (n - 87)
         else None)"

fun hex4 :: "string \<Rightarrow> (nat \<times> string) option" where
  "hex4 (a # b # c # d # r) =
     (case (hex_value a, hex_value b, hex_value c, hex_value d) of
        (Some w, Some x, Some y, Some z) \<Rightarrow> Some (((w * 16 + x) * 16 + y) * 16 + z, r)
      | _ \<Rightarrow> None)"
| "hex4 _ = None"

text \<open>The bytes of a code point (an unpaired surrogate gets the three bytes of its number).\<close>

definition utf8 :: "nat \<Rightarrow> string" where
  "utf8 n =
     (if n < 128 then [char_of n]
      else if n < 2048 then [char_of (192 + n div 64), char_of (128 + n mod 64)]
      else if n < 65536 then
        [char_of (224 + n div 4096), char_of (128 + n div 64 mod 64), char_of (128 + n mod 64)]
      else
        [char_of (240 + n div 262144), char_of (128 + n div 4096 mod 64),
         char_of (128 + n div 64 mod 64), char_of (128 + n mod 64)])"

text \<open>A unit after \<open>\u\<close>, joined with the one that follows when they are a surrogate pair.\<close>

definition code_unit :: "string \<Rightarrow> (string \<times> string) option" where
  "code_unit s =
     (case hex4 s of
        None \<Rightarrow> None
      | Some (n, r) \<Rightarrow>
          if 0xD800 \<le> n \<and> n < 0xDC00 \<and> take 2 r = [backslash, CHR ''u'']
          then case hex4 (drop 2 r) of
                 Some (m, r') \<Rightarrow>
                   if 0xDC00 \<le> m \<and> m < 0xE000
                   then Some (utf8 (0x10000 + (n - 0xD800) * 1024 + (m - 0xDC00)), r')
                   else Some (utf8 n, r)
               | None \<Rightarrow> Some (utf8 n, r)
          else Some (utf8 n, r))"

definition escape_value :: "char \<Rightarrow> char option" where
  "escape_value c =
     map_of [(quote_mark, quote_mark), (backslash, backslash), (CHR ''/'', CHR ''/''),
             (CHR ''b'', CHR 0x08), (CHR ''f'', CHR 0x0C), (CHR ''n'', CHR 0x0A),
             (CHR ''r'', CHR 0x0D), (CHR ''t'', CHR 0x09)] c"

lemma hex4_shorter: "hex4 s = Some (n, r) \<Longrightarrow> length r < length s"
  by (cases s rule: hex4.cases) (auto split: option.splits)

lemma code_unit_shorter: "code_unit s = Some (t, r) \<Longrightarrow> length r < length s"
  by (auto simp: code_unit_def split: option.splits if_splits dest!: hex4_shorter)

text \<open>The characters of a string literal up to its closing mark.\<close>

function (sequential) parse_chars :: "string \<Rightarrow> (string \<times> string) option" where
  "parse_chars [] = None"
| "parse_chars (c # cs) =
     (if c = quote_mark then Some ([], cs)
      else if c = backslash then
        (case cs of
           [] \<Rightarrow> None
         | e # r \<Rightarrow>
             if e = CHR ''u'' then
               (case code_unit r of
                  None \<Rightarrow> None
                | Some (u, r') \<Rightarrow> map_option (apfst (\<lambda>t. u @ t)) (parse_chars r'))
             else
               (case escape_value e of
                  None \<Rightarrow> None
                | Some d \<Rightarrow> map_option (apfst (\<lambda>t. d # t)) (parse_chars r)))
      else if (of_char c :: nat) < 32 then None
      else map_option (apfst (\<lambda>t. c # t)) (parse_chars cs))"
  by pat_completeness auto
termination
  by (relation "measure length") (auto dest: code_unit_shorter)

definition is_digit :: "char \<Rightarrow> bool" where
  "is_digit c \<longleftrightarrow> 48 \<le> (of_char c :: nat) \<and> (of_char c :: nat) \<le> 57"

definition digits_value :: "string \<Rightarrow> int" where
  "digits_value ds = foldl (\<lambda>n c. 10 * n + (of_char c - 48)) 0 ds"

definition span :: "('a \<Rightarrow> bool) \<Rightarrow> 'a list \<Rightarrow> 'a list \<times> 'a list" where
  "span P xs = (takeWhile P xs, dropWhile P xs)"

definition parse_fraction :: "string \<Rightarrow> (string \<times> string) option" where
  "parse_fraction s =
     (case s of
        c # r \<Rightarrow>
          if c = CHR ''.'' then (let (ds, r') = span is_digit r in if ds = [] then None else Some (ds, r'))
          else Some ([], s)
      | [] \<Rightarrow> Some ([], []))"

definition parse_exponent :: "string \<Rightarrow> (int \<times> string) option" where
  "parse_exponent s =
     (case s of
        c # r \<Rightarrow>
          if c = CHR ''e'' \<or> c = CHR ''E'' then
            (let (sg, r1) = (case r of
                   d # r' \<Rightarrow> if d = CHR ''-'' then (- 1, r') else if d = CHR ''+'' then (1, r') else (1, r)
                 | [] \<Rightarrow> (1, []));
                 (ds, r2) = span is_digit r1
             in if ds = [] then None else Some (sg * digits_value ds, r2))
          else Some (0, s)
      | [] \<Rightarrow> Some (0, []))"

definition parse_number :: "string \<Rightarrow> (jv \<times> string) option" where
  "parse_number s =
     (let (sg, s1) = (case s of c # r \<Rightarrow> if c = CHR ''-'' then (- 1, r) else (1, s) | [] \<Rightarrow> (1, []));
          (ds, s2) = span is_digit s1
      in if ds = [] \<or> hd ds = CHR ''0'' \<and> length ds > 1 then None
         else case parse_fraction s2 of
                None \<Rightarrow> None
              | Some (fs, s3) \<Rightarrow>
                  (case parse_exponent s3 of
                     None \<Rightarrow> None
                   | Some (e, s4) \<Rightarrow>
                       Some (JNum (fl (sg * of_int (digits_value (ds @ fs)) * 10 powi (e - int (length fs)))), s4)))"

definition literal :: "string \<Rightarrow> jv \<Rightarrow> string \<Rightarrow> (jv \<times> string) option" where
  "literal w v s = (if take (length w) s = w then Some (v, drop (length w) s) else None)"

text \<open>A repeated name keeps its first place and takes the last value.\<close>

fun put_field :: "(string \<times> jv) list \<Rightarrow> string \<times> jv \<Rightarrow> (string \<times> jv) list" where
  "put_field [] kv = [kv]"
| "put_field (f # fs) kv = (if fst f = fst kv then kv # fs else f # put_field fs kv)"

text \<open>
  The recursive descent. The fuel counts calls; \<open>2 \<cdot> |s| + 2\<close> is enough for the text \<open>s\<close>
  (lemma \<open>parse_fuel\<close>), so that the outcome \<open>None\<close> is a syntax error.
\<close>

fun parse_value :: "nat \<Rightarrow> string \<Rightarrow> (jv \<times> string) option"
  and parse_elements :: "nat \<Rightarrow> string \<Rightarrow> (jv list \<times> string) option"
  and parse_members :: "nat \<Rightarrow> string \<Rightarrow> ((string \<times> jv) list \<times> string) option" where
  "parse_value 0 s = None"
| "parse_value (Suc n) s =
     (case skip_space s of
        [] \<Rightarrow> None
      | c # r \<Rightarrow>
          if c = quote_mark then map_option (apfst JStr) (parse_chars r)
          else if c = CHR ''['' then
            (case skip_space r of
               [] \<Rightarrow> None
             | d # r' \<Rightarrow> if d = CHR '']'' then Some (JArr [], r')
                         else map_option (apfst JArr) (parse_elements n r))
          else if c = CHR ''{'' then
            (case skip_space r of
               [] \<Rightarrow> None
             | d # r' \<Rightarrow> if d = CHR ''}'' then Some (JObj [], r')
                         else map_option (apfst (\<lambda>fs. JObj (foldl put_field [] fs))) (parse_members n r))
          else if c = CHR ''n'' then literal ''null'' JNull (c # r)
          else if c = CHR ''t'' then literal ''true'' (JBool True) (c # r)
          else if c = CHR ''f'' then literal ''false'' (JBool False) (c # r)
          else parse_number (c # r))"
| "parse_elements 0 s = None"
| "parse_elements (Suc n) s =
     (case parse_value n s of
        None \<Rightarrow> None
      | Some (v, r) \<Rightarrow>
          (case skip_space r of
             [] \<Rightarrow> None
           | c # r' \<Rightarrow>
               if c = CHR '','' then map_option (apfst (\<lambda>vs. v # vs)) (parse_elements n r')
               else if c = CHR '']'' then Some ([v], r') else None))"
| "parse_members 0 s = None"
| "parse_members (Suc n) s =
     (case skip_space s of
        [] \<Rightarrow> None
      | q # s1 \<Rightarrow>
          if q \<noteq> quote_mark then None
          else case parse_chars s1 of
                 None \<Rightarrow> None
               | Some (k, s2) \<Rightarrow>
                   (case skip_space s2 of
                      [] \<Rightarrow> None
                    | c # s3 \<Rightarrow>
                        if c \<noteq> CHR '':'' then None
                        else case parse_value n s3 of
                               None \<Rightarrow> None
                             | Some (v, r) \<Rightarrow>
                                 (case skip_space r of
                                    [] \<Rightarrow> None
                                  | d # r' \<Rightarrow>
                                      if d = CHR '','' then
                                        map_option (apfst (\<lambda>fs. (k, v) # fs)) (parse_members n r')
                                      else if d = CHR ''}'' then Some ([(k, v)], r') else None)))"

definition json_parse :: "string \<Rightarrow> jv option" where
  "json_parse s =
     (case parse_value (2 * length s + 2) s of
        None \<Rightarrow> None
      | Some (v, r) \<Rightarrow> if skip_space r = [] then Some v else None)"

end
