(* ===== verification/JsonProps.thy ===== *)
theory JsonProps
  imports Json
begin

text \<open>
  The parser always has enough fuel, and it reads back what \<open>JSON.stringify\<close> writes.
\<close>

section \<open>Every parser consumes its input\<close>

lemma skip_space_le: "length (skip_space s) \<le> length s"
  by (simp add: skip_space_def length_dropWhile_le)

lemma skip_space_Cons: "skip_space s = c # r \<Longrightarrow> length r < length s"
  using skip_space_le [of s] by simp

lemma parse_chars_shorter: "parse_chars s = Some (t, r) \<Longrightarrow> length r < length s"
proof (induction s arbitrary: t r rule: parse_chars.induct)
  case 1
  then show ?case by simp
next
  case (2 c cs)
  then show ?case
    by (fastforce split: if_splits list.splits option.splits dest: code_unit_shorter)
qed

lemma span_le: "span P xs = (ys, zs) \<Longrightarrow> length xs = length ys + length zs"
  by (auto simp: span_def) (metis length_append takeWhile_dropWhile_id)

lemma parse_fraction_le: "parse_fraction s = Some (t, r) \<Longrightarrow> length r \<le> length s"
  by (cases s) (auto simp: parse_fraction_def Let_def span_def split: if_splits
      intro: le_SucI length_dropWhile_le)

lemma parse_exponent_le: "parse_exponent s = Some (e, r) \<Longrightarrow> length r \<le> length s"
  by (cases s) (auto simp: parse_exponent_def Let_def span_def split: if_splits list.splits
      intro: le_SucI length_dropWhile_le)

lemma parse_number_shorter:
  assumes "parse_number s = Some (v, r)"
  shows "length r < length s"
proof -
  define s1 where "s1 = snd (case s of c # r \<Rightarrow> if c = CHR ''-'' then (- 1 :: rat, r) else (1, s) | [] \<Rightarrow> (1, []))"
  have s1: "length s1 \<le> length s" by (simp add: s1_def split: list.splits)
  obtain ds s2 where ds: "span is_digit s1 = (ds, s2)" by fastforce
  obtain fs s3 e where p: "ds \<noteq> []" "parse_fraction s2 = Some (fs, s3)" "parse_exponent s3 = Some (e, r)"
    using assms ds unfolding parse_number_def s1_def
    by (auto simp: Let_def split: if_splits option.splits list.splits)
  have "length s1 = length ds + length s2" by (rule span_le [OF ds])
  moreover have "length s3 \<le> length s2" "length r \<le> length s3"
    by (rule parse_fraction_le [OF p(2)], rule parse_exponent_le [OF p(3)])
  moreover have "0 < length ds" using p(1) by simp
  ultimately show ?thesis using s1 by linarith
qed

lemma literal_shorter: "literal w v (c # s) = Some (u, r) \<Longrightarrow> w \<noteq> [] \<Longrightarrow> length r < length (c # s)"
  by (cases w) (auto simp: literal_def split: if_splits)

lemma parse_shorter:
  "parse_value n s = Some (v, r) \<Longrightarrow> length r < length s"
  "parse_elements n s = Some (vs, r) \<Longrightarrow> length r < length s"
  "parse_members n s = Some (fs, r) \<Longrightarrow> length r < length s"
proof (induction n s and n s and n s arbitrary: v r and vs r and fs r
    rule: parse_value_parse_elements_parse_members.induct)
  case (2 n s)
  then obtain c q where c: "skip_space s = c # q" by (auto split: list.splits)
  have q: "length q < length s" by (rule skip_space_Cons [OF c])
  have cq: "length (c # q) \<le> length s" using q by simp
  show ?case
  proof (cases "c = quote_mark \<or> c = CHR ''['' \<or> c = CHR ''{''")
    case True
    with 2 c q show ?thesis
      by (fastforce simp: quote_mark_def split: if_splits list.splits
          dest: parse_chars_shorter skip_space_Cons)
  next
    case False
    then have "literal ''null'' JNull (c # q) = Some (v, r) \<or> literal ''true'' (JBool True) (c # q) = Some (v, r) \<or>
        literal ''false'' (JBool False) (c # q) = Some (v, r) \<or> parse_number (c # q) = Some (v, r)"
      using "2.prems" c by (auto split: if_splits)
    then have "length r < length (c # q)"
      using literal_shorter [of "''null''"] literal_shorter [of "''true''"] literal_shorter [of "''false''"]
        parse_number_shorter by blast
    with cq show ?thesis by linarith
  qed
next
  case (4 n s)
  from "4.prems" obtain w q where w: "parse_value n s = Some (w, q)" by (auto split: option.splits)
  from "4.IH"(1) [OF w] have q: "length q < length s" .
  from "4.prems" w obtain c q' where c: "skip_space q = c # q'" by (auto split: list.splits)
  have q': "length q' < length q" by (rule skip_space_Cons [OF c])
  show ?case
  proof (cases "c = CHR '',''")
    case True
    with "4.prems" w c obtain us where "parse_elements n q' = Some (us, r)" by auto
    from "4.IH"(2) [OF w refl c True this] q q' show ?thesis by linarith
  next
    case False
    with "4.prems" w c q q' show ?thesis by (auto split: if_splits)
  qed
next
  case (6 n s)
  from "6.prems" obtain s1 where s1: "skip_space s = quote_mark # s1" by (auto split: list.splits if_splits)
  from "6.prems" s1 obtain k s2 where k: "parse_chars s1 = Some (k, s2)" by (auto split: option.splits)
  from "6.prems" s1 k obtain s3 where s3: "skip_space s2 = CHR '':'' # s3" by (auto split: list.splits if_splits)
  from "6.prems" s1 k s3 obtain w q where w: "parse_value n s3 = Some (w, q)" by (auto split: option.splits)
  from "6.prems" s1 k s3 w obtain d q' where d: "skip_space q = d # q'" by (auto split: list.splits)
  have l: "length s1 < length s" "length s2 < length s1" "length s3 < length s2" "length q' < length q"
    by (rule skip_space_Cons [OF s1], rule parse_chars_shorter [OF k], rule skip_space_Cons [OF s3],
        rule skip_space_Cons [OF d])
  have q: "length q < length s3" using "6.IH"(1) [OF s1 _ k _ s3 _ w] by simp
  show ?case
  proof (cases "d = CHR '',''")
    case True
    with "6.prems" s1 k s3 w d obtain us where "parse_members n q' = Some (us, r)" by auto
    then have "length r < length q'" using "6.IH"(2) [OF s1 _ k _ s3 _ w _ d True] by simp
    with l q show ?thesis by simp
  next
    case False
    with "6.prems" s1 k s3 w d l q show ?thesis by (auto split: if_splits)
  qed
qed simp_all

section \<open>Enough fuel\<close>

lemma parse_fuel_Suc:
  "(\<forall>s. 2 * length s + 1 \<le> n \<longrightarrow> parse_value (Suc n) s = parse_value n s) \<and>
   (\<forall>s. 2 * length s + 2 \<le> n \<longrightarrow> parse_elements (Suc n) s = parse_elements n s) \<and>
   (\<forall>s. 2 * length s + 2 \<le> n \<longrightarrow> parse_members (Suc n) s = parse_members n s)"
proof (induction n)
  case 0
  then show ?case by simp
next
  case (Suc n)
  have v: "parse_value (Suc n) s = parse_value n s" if "2 * length s + 1 \<le> n" for s
    using Suc.IH that by blast
  have e: "parse_elements (Suc n) s = parse_elements n s" if "2 * length s + 2 \<le> n" for s
    using Suc.IH that by blast
  have m: "parse_members (Suc n) s = parse_members n s" if "2 * length s + 2 \<le> n" for s
    using Suc.IH that by blast
  have "parse_value (Suc (Suc n)) s = parse_value (Suc n) s" if s: "2 * length s + 1 \<le> Suc n" for s
  proof (cases "skip_space s")
    case Nil
    then show ?thesis by (simp only: parse_value.simps list.case)
  next
    case (Cons c r)
    have "length r < length s" by (rule skip_space_Cons [OF Cons])
    then have "2 * length r + 2 \<le> n" using s by linarith
    from e [OF this] m [OF this] show ?thesis
      unfolding parse_value.simps(2) [of "Suc n" s] parse_value.simps(2) [of n s] Cons by (simp only: list.case)
  qed
  moreover have "parse_elements (Suc (Suc n)) s = parse_elements (Suc n) s"
    if s: "2 * length s + 2 \<le> Suc n" for s
  proof (cases "parse_value n s")
    case None
    moreover have "parse_value (Suc n) s = parse_value n s" using s by (intro v) simp
    ultimately show ?thesis by (simp only: parse_elements.simps option.case)
  next
    case (Some p)
    obtain w r where p: "p = (w, r)" by fastforce
    have vs: "parse_value (Suc n) s = Some (w, r)" using v [of s] s Some p by simp
    have r: "length r < length s" using Some p parse_shorter(1) by blast
    show ?thesis
    proof (cases "skip_space r")
      case Nil
      then show ?thesis using vs Some p
        unfolding parse_elements.simps(2) [of "Suc n" s] parse_elements.simps(2) [of n s] by simp
    next
      case (Cons c r')
      have "length r' < length r" by (rule skip_space_Cons [OF Cons])
      then have "2 * length r' + 2 \<le> n" using s r by linarith
      from e [OF this] show ?thesis
        unfolding parse_elements.simps(2) [of "Suc n" s] parse_elements.simps(2) [of n s] vs Some p
        by (simp only: Cons option.case prod.case list.case)
    qed
  qed
  moreover have "parse_members (Suc (Suc n)) s = parse_members (Suc n) s"
    if s: "2 * length s + 2 \<le> Suc n" for s
  proof -
    have "parse_value (Suc n) s3 = parse_value n s3 \<and>
        (\<forall>w r d r'. parse_value n s3 = Some (w, r) \<longrightarrow> skip_space r = d # r' \<longrightarrow>
           parse_members (Suc n) r' = parse_members n r')"
      if h: "skip_space s = q # s1" "parse_chars s1 = Some (k, s2)" "skip_space s2 = c # s3" for q s1 k s2 c s3
    proof -
      have "length s1 < length s" "length s2 < length s1" "length s3 < length s2"
        by (rule skip_space_Cons [OF h(1)], rule parse_chars_shorter [OF h(2)], rule skip_space_Cons [OF h(3)])
      then have s3: "2 * length s3 + 2 \<le> n" using s by linarith
      have "parse_members (Suc n) r' = parse_members n r'"
        if w: "parse_value n s3 = Some (w, r)" "skip_space r = d # r'" for w r d r'
      proof -
        have "length r < length s3" "length r' < length r"
          by (rule parse_shorter(1) [OF w(1)], rule skip_space_Cons [OF w(2)])
        then show ?thesis using s3 by (intro m) linarith
      qed
      then show ?thesis using v [of s3] s3 by simp
    qed
    note h = this
    show ?thesis
      unfolding parse_members.simps(2) [of "Suc n" s] parse_members.simps(2) [of n s]
      using h by (auto simp del: parse_value.simps parse_members.simps split: list.split option.split)
  qed
  ultimately show ?case by blast
qed

lemma parse_fuel:
  assumes "2 * length s + 1 \<le> n" and "n \<le> m"
  shows "parse_value m s = parse_value n s"
  using assms(2)
proof (induction m rule: dec_induct)
  case base
  show ?case ..
next
  case (step m)
  then have "parse_value (Suc m) s = parse_value m s"
    using parse_fuel_Suc [of m] assms(1) by (meson le_trans)
  with step show ?case by simp
qed

section \<open>Reading back what was written\<close>

text \<open>Values whose text determines them: safe integers as numbers, no undefined, no repeated name.\<close>

fun json_ok :: "jv \<Rightarrow> bool" where
  "json_ok JUndef = False"
| "json_ok (JNum x) = is_safe_integer x"
| "json_ok (JArr vs) = list_all json_ok vs"
| "json_ok (JObj fs) = (distinct (map fst fs) \<and> list_all (\<lambda>(k, v). json_ok v) fs)"
| "json_ok _ = True"

definition text_of :: "jv \<Rightarrow> string" where "text_of v = nullish (json_text v) ''null''"

lemma json_ok_text: "json_ok v \<Longrightarrow> json_text v \<noteq> None"
  by (cases v) simp_all

text \<open>Each quoted character reads back.\<close>

lemma hex_value_digit: "d < 16 \<Longrightarrow> hex_value (hex_digit d) = Some d"
  by (auto simp: hex_value_def hex_digit_def Let_def)

lemma quote_char_control:
  assumes "(of_char c :: nat) < 32" and "c \<notin> {CHR 0x08, CHR 0x09, CHR 0x0A, CHR 0x0C, CHR 0x0D}"
  shows "quote_char c = [backslash, CHR ''u'', CHR ''0'', CHR ''0'',
    hex_digit (of_char c div 16), hex_digit (of_char c mod 16)]"
proof -
  have "c \<noteq> quote_mark" "c \<noteq> backslash"
    using assms(1) by (auto simp: quote_mark_def backslash_def)
  then show ?thesis using assms by (simp add: quote_char_def)
qed

lemma code_unit_control:
  assumes "n < 32"
  shows "code_unit (CHR ''0'' # CHR ''0'' # hex_digit (n div 16) # hex_digit (n mod 16) # r) =
    Some ([char_of n], r)"
proof -
  have "hex_value CHR ''0'' = Some 0" by (simp add: hex_value_def)
  moreover have "hex_value (hex_digit (n div 16)) = Some (n div 16)"
    "hex_value (hex_digit (n mod 16)) = Some (n mod 16)"
    using assms by (simp_all add: hex_value_digit)
  ultimately show ?thesis using assms by (simp add: code_unit_def utf8_def)
qed

lemma parse_quote_char:
  "parse_chars (quote_char c @ r) = map_option (apfst (\<lambda>t. c # t)) (parse_chars r)"
proof (cases "(of_char c :: nat) < 32 \<and> c \<notin> {CHR 0x08, CHR 0x09, CHR 0x0A, CHR 0x0C, CHR 0x0D}")
  case True
  then have q: "quote_char c = [backslash, CHR ''u'', CHR ''0'', CHR ''0'',
      hex_digit (of_char c div 16), hex_digit (of_char c mod 16)]"
    by (intro quote_char_control) simp_all
  have "backslash \<noteq> quote_mark" by (simp add: backslash_def quote_mark_def)
  moreover have "(@) [c] = (#) c" by (simp add: fun_eq_iff)
  ultimately show ?thesis
    using True by (simp add: q code_unit_control)
next
  case False
  then have "quote_char c \<in> {[backslash, quote_mark], [backslash, backslash],
      [backslash, CHR ''b''], [backslash, CHR ''t''], [backslash, CHR ''n''],
      [backslash, CHR ''f''], [backslash, CHR ''r''], [c]}"
    by (auto simp: quote_char_def)
  show ?thesis
  proof (cases "c = quote_mark \<or> c = backslash \<or> c \<in> {CHR 0x08, CHR 0x09, CHR 0x0A, CHR 0x0C, CHR 0x0D}")
    case True
    then show ?thesis
      by (elim disjE insertE) (simp_all add: quote_char_def quote_mark_def backslash_def escape_value_def)
  next
    case no: False
    with False have "quote_char c = [c]" "\<not> (of_char c :: nat) < 32"
      by (auto simp: quote_char_def)
    then show ?thesis using no by simp
  qed
qed

lemma parse_quoted: "parse_chars (concat (map quote_char s) @ quote_mark # r) = Some (s, r)"
proof (induction s)
  case Nil
  then show ?case by simp
next
  case (Cons c s)
  then show ?case by (simp add: parse_quote_char del: parse_chars.simps)
qed

text \<open>Integers.\<close>

lemma digit_char_facts:
  assumes "0 \<le> d" and "d < 10"
  shows "is_digit (digit_char d)" "of_char (digit_char d) - (48 :: int) = d"
    "digit_char d = CHR ''0'' \<longleftrightarrow> d = 0"
proof -
  have "d = 0 \<or> d = 1 \<or> d = 2 \<or> d = 3 \<or> d = 4 \<or> d = 5 \<or> d = 6 \<or> d = 7 \<or> d = 8 \<or> d = 9"
    using assms by presburger
  then show dig: "is_digit (digit_char d)" and val: "of_char (digit_char d) - (48 :: int) = d"
    by (auto simp: is_digit_def digit_char_def of_nat_of_char [symmetric, where 'a = int]
        simp del: of_nat_of_char)
  have zero: "char_of (of_char (CHR ''0'') :: nat) = CHR ''0''" by (rule char_of_char)
  have "of_char (CHR ''0'') = (48 :: nat)" by simp
  with zero have "digit_char 0 = CHR ''0''" by (simp add: digit_char_def del: char_of_char)
  moreover have "d = 0" if "digit_char d = CHR ''0''" using val that by simp
  ultimately show "digit_char d = CHR ''0'' \<longleftrightarrow> d = 0" by blast
qed

lemma dec_digits_facts:
  assumes "0 \<le> n"
  shows "list_all is_digit (dec_digits n) \<and> dec_digits n \<noteq> [] \<and> digits_value (dec_digits n) = n \<and>
    (hd (dec_digits n) = CHR ''0'' \<longrightarrow> length (dec_digits n) = 1)  \<and> (hd (dec_digits n) = CHR ''0'' \<longleftrightarrow> n = 0)"
  using assms
proof (induction n rule: dec_digits.induct)
  case (1 n)
  show ?case
  proof (cases "n < 10")
    case True
    with 1 digit_char_facts [of n] show ?thesis
      by (simp add: dec_digits.simps [of n] dec_digits.simps [of 0] digits_value_def)
  next
    case False
    have "0 \<le> n mod 10" "n mod 10 < 10" by simp_all
    note d = digit_char_facts [OF this]
    have ih: "list_all is_digit (dec_digits (n div 10)) \<and> dec_digits (n div 10) \<noteq> [] \<and>
        digits_value (dec_digits (n div 10)) = n div 10 \<and>
        (hd (dec_digits (n div 10)) = CHR ''0'' \<longleftrightarrow> n div 10 = 0)"
      using "1.IH" False by simp
    have nz: "n div 10 \<noteq> 0" "n \<noteq> 0" using False by simp_all
    have "digits_value (dec_digits n) = 10 * (n div 10) + n mod 10"
      using False ih d(2) by (simp add: dec_digits.simps [of n] digits_value_def)
    then show ?thesis
      using False ih d(1) nz by (simp add: dec_digits.simps [of n])
  qed
qed

text \<open>What may follow a value in a text: nothing, or a separator.\<close>

definition delimited :: "string \<Rightarrow> bool" where
  "delimited r \<longleftrightarrow> r = [] \<or> hd r \<in> {CHR '','', CHR '']'', CHR ''}''}"

lemma delimited_not_digit: "delimited r \<Longrightarrow> takeWhile is_digit r = []" "delimited r \<Longrightarrow> dropWhile is_digit r = r"
  by (cases r; auto simp: delimited_def is_digit_def)+

lemma delimited_rest:
  assumes "delimited r"
  shows "parse_fraction r = Some ([], r)" "parse_exponent r = Some (0, r)"
  using assms by (cases r; auto simp: delimited_def parse_fraction_def parse_exponent_def)+

lemma parse_number_digits:
  assumes "0 \<le> n" and "delimited r"
  shows "parse_number (dec_digits n @ r) = Some (JNum (fl (of_int n)), r)"
    and "parse_number (CHR ''-'' # dec_digits n @ r) = Some (JNum (fl (of_int (- n))), r)"
proof -
  note f = dec_digits_facts [OF assms(1)]
  obtain c cs where c: "dec_digits n = c # cs" using f by (cases "dec_digits n") simp_all
  have sp: "span is_digit (dec_digits n @ r) = (dec_digits n, r)"
    using f delimited_not_digit [OF assms(2)]
    by (simp add: span_def list_all_iff takeWhile_append2 dropWhile_append2)
  have nm: "c \<noteq> CHR ''-''" using f by (auto simp: c is_digit_def)
  have lz: "\<not> (hd (dec_digits n) = CHR ''0'' \<and> length (dec_digits n) > 1)" using f by auto
  show "parse_number (dec_digits n @ r) = Some (JNum (fl (of_int n)), r)"
    using sp nm lz f delimited_rest [OF assms(2)] unfolding parse_number_def c by simp
  show "parse_number (CHR ''-'' # dec_digits n @ r) = Some (JNum (fl (of_int (- n))), r)"
    using sp lz f delimited_rest [OF assms(2)] unfolding parse_number_def by simp
qed

lemma parse_dec_int:
  assumes "\<bar>n\<bar> \<le> max_safe" and "delimited r"
  shows "parse_number (dec_int n @ r) = Some (JNum (num_of_int n), r)"
proof -
  have "fl (of_int n) = num_of_int n"
    using assms(1) by (intro fl_of_int) (simp add: max_safe_def)
  then show ?thesis
    using parse_number_digits [OF _ assms(2), of n] parse_number_digits [OF _ assms(2), of "- n"]
    by (simp add: dec_int_def)
qed

lemma dec_int_head:
  obtains c cs where "dec_int n = c # cs" and "c = CHR ''-'' \<or> is_digit c"
proof (cases "n < 0")
  case True
  then show ?thesis by (intro that [of "CHR ''-''" "dec_digits (- n)"]) (simp_all add: dec_int_def)
next
  case False
  then have "list_all is_digit (dec_digits n)" "dec_digits n \<noteq> []" using dec_digits_facts [of n] by simp_all
  then show ?thesis
    using False by (intro that [of "hd (dec_digits n)" "tl (dec_digits n)"])
      (simp_all add: dec_int_def list_all_iff)
qed

text \<open>No text of a value starts with a space or a separator.\<close>

lemma text_head:
  assumes "json_ok v"
  obtains c r where "text_of v = c # r" and "\<not> is_space c" and "c \<notin> {CHR '','', CHR '']'', CHR ''}''}"
    and "\<exists>n. v = JNum (num_of_int n) \<Longrightarrow>
      c \<notin> {quote_mark, CHR ''['', CHR ''{'', CHR ''n'', CHR ''t'', CHR ''f''}"
proof (cases "\<exists>n. v = JNum (num_of_int n)")
  case True
  then obtain n where n: "v = JNum (num_of_int n)" by blast
  obtain c cs where c: "dec_int n = c # cs" "c = CHR ''-'' \<or> is_digit c" by (rule dec_int_head)
  moreover have "text_of v = dec_int n" using assms n by (simp add: text_of_def)
  ultimately show ?thesis
    by (intro that [of c cs]) (auto simp: is_space_def is_digit_def quote_mark_def)
next
  case False
  then show ?thesis
  proof (cases v)
    case (JNum x)
    then have "\<exists>n. x = num_of_int n" using assms by (simp add: is_safe_integer_iff) blast
    then show ?thesis using False JNum by simp
  next
    case (JStr s)
    then show ?thesis
      using False by (intro that [of quote_mark]) (simp_all add: text_of_def json_quote_def quote_mark_def is_space_def)
  next
    case (JBool b)
    then show ?thesis
      using False by (cases b; intro that [of "hd (text_of v)" "tl (text_of v)"]) (simp_all add: text_of_def is_space_def)
  next
    case JUndef
    then show ?thesis using assms by simp
  next
    case JNull
    then show ?thesis
      using False by (intro that [of "CHR ''n''" "''ull''"]) (simp_all add: text_of_def is_space_def)
  next
    case (JArr vs)
    then show ?thesis
      using False by (intro that [of "CHR ''[''" "tl (text_of v)"]) (simp_all add: text_of_def is_space_def)
  next
    case (JObj fs)
    then show ?thesis
      using False by (intro that [of "CHR ''{''" "tl (text_of v)"]) (simp_all add: text_of_def is_space_def)
  qed
qed

lemma skip_space_id: "\<not> is_space c \<Longrightarrow> skip_space (c # r) = c # r"
  by (simp add: skip_space_def)

lemma skip_delimiter [simp]:
  "skip_space (CHR '','' # r) = CHR '','' # r" "skip_space (CHR '']'' # r) = CHR '']'' # r"
  "skip_space (CHR ''}'' # r) = CHR ''}'' # r" "skip_space (CHR '':'' # r) = CHR '':'' # r"
  "skip_space (quote_mark # r) = quote_mark # r"
  by (simp_all add: skip_space_def is_space_def quote_mark_def)

lemma delimited_Cons [simp]:
  "delimited (CHR '','' # r)" "delimited (CHR '']'' # r)" "delimited (CHR ''}'' # r)" "delimited []"
  by (simp_all add: delimited_def)

definition reads_back :: "jv \<Rightarrow> bool" where
  "reads_back v \<longleftrightarrow> (\<exists>N. \<forall>n \<ge> N. \<forall>r. delimited r \<longrightarrow> parse_value n (text_of v @ r) = Some (v, r))"

lemma parse_elements_text:
  assumes "vs \<noteq> []" and "\<forall>v \<in> set vs. reads_back v"
  shows "\<exists>N. \<forall>n \<ge> N. \<forall>r. parse_elements n (join '','' (map text_of vs) @ CHR '']'' # r) = Some (vs, r)"
  using assms
proof (induction vs rule: induct_list012)
  case 1
  then show ?case by simp
next
  case (2 v)
  then obtain N where N: "\<forall>n \<ge> N. \<forall>r. delimited r \<longrightarrow> parse_value n (text_of v @ r) = Some (v, r)"
    by (auto simp: reads_back_def)
  have "parse_elements n (join '','' (map text_of [v]) @ CHR '']'' # r) = Some ([v], r)"
    if n: "Suc N \<le> n" for n r
  proof -
    obtain m where m: "n = Suc m" "N \<le> m" using n by (cases n) simp_all
    then have "parse_value m (text_of v @ CHR '']'' # r) = Some (v, CHR '']'' # r)" using N by simp
    then show ?thesis by (simp add: m(1))
  qed
  then show ?case by blast
next
  case (3 v w vs)
  then obtain N where N: "\<forall>n \<ge> N. \<forall>r. delimited r \<longrightarrow> parse_value n (text_of v @ r) = Some (v, r)"
    by (auto simp: reads_back_def)
  obtain M where M: "\<forall>n \<ge> M. \<forall>r. parse_elements n (join '','' (map text_of (w # vs)) @ CHR '']'' # r) = Some (w # vs, r)"
    using 3 by auto
  have "parse_elements n (join '','' (map text_of (v # w # vs)) @ CHR '']'' # r) = Some (v # w # vs, r)"
    if n: "Suc (max N M) \<le> n" for n r
  proof -
    obtain m where m: "n = Suc m" "N \<le> m" "M \<le> m" using n by (cases n) simp_all
    define rest where "rest = join '','' (map text_of (w # vs)) @ CHR '']'' # r"
    have "parse_value m (text_of v @ CHR '','' # rest) = Some (v, CHR '','' # rest)" using N m by simp
    moreover have "parse_elements m rest = Some (w # vs, r)" using M m by (simp only: rest_def)
    moreover have "join '','' (map text_of (v # w # vs)) @ CHR '']'' # r = text_of v @ CHR '','' # rest"
      by (simp add: rest_def)
    ultimately show ?thesis by (simp add: m(1))
  qed
  then show ?case by blast
qed

fun field_text :: "string \<times> jv \<Rightarrow> string" where
  "field_text (k, v) = json_quote k @ '':'' @ text_of v"

lemma parse_member_text:
  assumes "parse_value m (text_of v @ d # r) = Some (v, d # r)" and "d = CHR '','' \<or> d = CHR ''}''"
  shows "parse_members (Suc m) (field_text (k, v) @ d # r) =
    (if d = CHR '','' then map_option (apfst (\<lambda>fs. (k, v) # fs)) (parse_members m r)
     else Some ([(k, v)], r))"
  using assms by (auto simp: json_quote_def parse_quoted simp del: parse_chars.simps)

lemma parse_members_text:
  assumes "fs \<noteq> []" and "\<forall>(k, v) \<in> set fs. reads_back v"
  shows "\<exists>N. \<forall>n \<ge> N. \<forall>r. parse_members n (join '','' (map field_text fs) @ CHR ''}'' # r) = Some (fs, r)"
  using assms
proof (induction fs rule: induct_list012)
  case 1
  then show ?case by simp
next
  case (2 f)
  obtain k v where f: "f = (k, v)" by fastforce
  obtain N where N: "\<forall>n \<ge> N. \<forall>r. delimited r \<longrightarrow> parse_value n (text_of v @ r) = Some (v, r)"
    using 2 f by (auto simp: reads_back_def)
  have "parse_members n (join '','' (map field_text [f]) @ CHR ''}'' # r) = Some ([f], r)"
    if n: "Suc N \<le> n" for n r
  proof -
    obtain m where m: "n = Suc m" "N \<le> m" using n by (cases n) simp_all
    show ?thesis
      using parse_member_text [of m v "CHR ''}''" r k] N m by (simp add: f del: parse_members.simps field_text.simps)
  qed
  then show ?case by blast
next
  case (3 f g fs)
  obtain k v where f: "f = (k, v)" by fastforce
  obtain N where N: "\<forall>n \<ge> N. \<forall>r. delimited r \<longrightarrow> parse_value n (text_of v @ r) = Some (v, r)"
    using 3 f by (auto simp: reads_back_def)
  obtain M where M: "\<forall>n \<ge> M. \<forall>r. parse_members n (join '','' (map field_text (g # fs)) @ CHR ''}'' # r) = Some (g # fs, r)"
    using 3 by auto
  have "parse_members n (join '','' (map field_text (f # g # fs)) @ CHR ''}'' # r) = Some (f # g # fs, r)"
    if n: "Suc (max N M) \<le> n" for n r
  proof -
    obtain m where m: "n = Suc m" "N \<le> m" "M \<le> m" using n by (cases n) simp_all
    define rest where "rest = join '','' (map field_text (g # fs)) @ CHR ''}'' # r"
    have "parse_members m rest = Some (g # fs, r)" using M m by (simp only: rest_def)
    moreover have "join '','' (map field_text (f # g # fs)) @ CHR ''}'' # r = field_text (k, v) @ CHR '','' # rest"
      by (simp add: rest_def f del: field_text.simps)
    ultimately show ?thesis
      using parse_member_text [of m v "CHR '',''" rest k] N m by (simp add: f del: parse_members.simps field_text.simps)
  qed
  then show ?case by blast
qed

lemma foldl_put_field:
  "distinct (map fst (gs @ fs)) \<Longrightarrow> foldl put_field gs fs = gs @ fs"
proof (induction fs arbitrary: gs)
  case Nil
  then show ?case by simp
next
  case (Cons f fs)
  have "put_field gs f = gs @ [f]" if "fst f \<notin> fst ` set gs" for gs
    using that by (induction gs) auto
  with Cons show ?case by simp
qed

section \<open>The round trip\<close>

lemma text_of_simps:
  "text_of JNull = ''null''" "text_of (JBool b) = (if b then ''true'' else ''false'')"
  "text_of (JStr s) = json_quote s"
  "text_of (JArr vs) = ''['' @ join '','' (map text_of vs) @ '']''"
  by (simp_all add: text_of_def [abs_def])

lemma text_of_JNum: "\<bar>n\<bar> \<le> max_safe \<Longrightarrow> text_of (JNum (num_of_int n)) = dec_int n"
  by (simp add: text_of_def)

lemma text_of_JObj:
  assumes "list_all (\<lambda>(k, v). json_ok v) fs"
  shows "text_of (JObj fs) = ''{'' @ join '','' (map field_text fs) @ ''}''"
proof -
  have "concat (map (\<lambda>(k, v). case json_text v of None \<Rightarrow> [] | Some t \<Rightarrow> [json_quote k @ '':'' @ t]) fs) =
      map field_text fs"
    using assms
  proof (induction fs)
    case Nil
    then show ?case by simp
  next
    case (Cons f fs)
    obtain k v where f: "f = (k, v)" by fastforce
    then have "json_text v \<noteq> None" using Cons.prems by (intro json_ok_text) simp
    then show ?case using Cons f by (auto simp: text_of_def)
  qed
  then show ?thesis by (simp add: text_of_def)
qed

lemma json_reads_back: "json_ok v \<Longrightarrow> reads_back v"
proof (induction v)
  case (JNum x)
  then obtain n where n: "x = num_of_int n" "\<bar>n\<bar> \<le> max_safe" by (auto simp: is_safe_integer_iff)
  obtain c cs where c: "text_of (JNum x) = c # cs" "\<not> is_space c"
      "c \<notin> {quote_mark, CHR ''['', CHR ''{'', CHR ''n'', CHR ''t'', CHR ''f''}"
    using text_head [OF JNum.prems] n(1) by (metis jv.inject(2))
  have "parse_value m (text_of (JNum x) @ r) = Some (JNum x, r)" if m: "1 \<le> m" and r: "delimited r" for m r
  proof -
    obtain k where k: "m = Suc k" using m by (cases m) simp_all
    have "parse_number (text_of (JNum x) @ r) = Some (JNum x, r)"
      using parse_dec_int [OF n(2) r] n text_of_JNum by simp
    then show ?thesis using c by (simp add: k skip_space_id)
  qed
  then show ?case unfolding reads_back_def by blast
next
  case (JStr s)
  have "parse_value m (text_of (JStr s) @ r) = Some (JStr s, r)" if m: "1 \<le> m" for m r
  proof -
    obtain k where k: "m = Suc k" using m by (cases m) simp_all
    show ?thesis by (simp add: k text_of_simps json_quote_def parse_quoted del: parse_chars.simps)
  qed
  then show ?case unfolding reads_back_def by blast
next
  case (JArr vs)
  have ok: "\<forall>v \<in> set vs. reads_back v" using JArr by (auto simp: list_all_iff)
  show ?case
  proof (cases vs)
    case Nil
    have "parse_value m (text_of (JArr []) @ r) = Some (JArr [], r)" if m: "1 \<le> m" for m r
    proof -
      obtain k where k: "m = Suc k" using m by (cases m) simp_all
      show ?thesis by (simp add: k text_of_simps skip_space_id is_space_def quote_mark_def)
    qed
    then show ?thesis unfolding reads_back_def Nil by blast
  next
    case (Cons w ws)
    obtain N where N: "\<forall>n \<ge> N. \<forall>r. parse_elements n (join '','' (map text_of vs) @ CHR '']'' # r) = Some (vs, r)"
      using parse_elements_text [OF _ ok] Cons by auto
    have "json_ok w" using JArr.prems Cons by simp
    then obtain c q where c: "text_of w = c # q" "\<not> is_space c" "c \<noteq> CHR '']''"
      using text_head by (metis insertCI)
    have hd: "\<exists>q'. join '','' (map text_of vs) = c # q'"
      by (cases ws) (simp_all add: Cons c)
    have "parse_value m (text_of (JArr vs) @ r) = Some (JArr vs, r)" if m: "Suc N \<le> m" for m r
    proof -
      obtain k where k: "m = Suc k" "N \<le> k" using m by (cases m) simp_all
      obtain q' where q': "join '','' (map text_of vs) = c # q'" using hd by blast
      have "parse_elements k (c # q' @ CHR '']'' # r) = Some (vs, r)"
        using N k(2) unfolding q' by simp
      then show ?thesis
        using c by (simp add: k(1) text_of_simps q' skip_space_id is_space_def quote_mark_def)
    qed
    then show ?thesis unfolding reads_back_def by blast
  qed
next
  case (JObj fs)
  have l: "list_all (\<lambda>(k, v). json_ok v) fs" and d: "distinct (map fst fs)" using JObj.prems by simp_all
  have ok: "\<forall>(k, v) \<in> set fs. reads_back v"
    using JObj l by (fastforce simp: list_all_iff)
  have put: "foldl put_field [] fs = fs" using foldl_put_field [of "[]" fs] d by simp
  show ?case
  proof (cases fs)
    case Nil
    have "parse_value m (text_of (JObj []) @ r) = Some (JObj [], r)" if m: "1 \<le> m" for m r
    proof -
      obtain k where k: "m = Suc k" using m by (cases m) simp_all
      show ?thesis by (simp add: k text_of_JObj skip_space_id is_space_def quote_mark_def)
    qed
    then show ?thesis unfolding reads_back_def Nil by blast
  next
    case (Cons f gs)
    obtain N where N: "\<forall>n \<ge> N. \<forall>r. parse_members n (join '','' (map field_text fs) @ CHR ''}'' # r) = Some (fs, r)"
      using parse_members_text [OF _ ok] Cons by auto
    have hd: "\<exists>q'. join '','' (map field_text fs) = quote_mark # q'"
      by (cases gs; cases f) (simp_all add: Cons json_quote_def)
    have "parse_value m (text_of (JObj fs) @ r) = Some (JObj fs, r)" if m: "Suc N \<le> m" for m r
    proof -
      obtain k where k: "m = Suc k" "N \<le> k" using m by (cases m) simp_all
      obtain q' where q': "join '','' (map field_text fs) = quote_mark # q'" using hd by blast
      have "parse_members k (quote_mark # q' @ CHR ''}'' # r) = Some (fs, r)"
        using N k(2) unfolding q' by simp
      then show ?thesis
        by (simp add: k(1) text_of_JObj [OF l] q' skip_space_id is_space_def put quote_mark_def)
    qed
    then show ?thesis unfolding reads_back_def by blast
  qed
next
  case (JBool b)
  have "parse_value m (text_of (JBool b) @ r) = Some (JBool b, r)" if m: "1 \<le> m" for m r
  proof -
    obtain k where k: "m = Suc k" using m by (cases m) simp_all
    show ?thesis by (simp add: k text_of_simps skip_space_id is_space_def quote_mark_def literal_def)
  qed
  then show ?case unfolding reads_back_def by blast
next
  case JNull
  have "parse_value m (text_of JNull @ r) = Some (JNull, r)" if m: "1 \<le> m" for m r
  proof -
    obtain k where k: "m = Suc k" using m by (cases m) simp_all
    show ?thesis by (simp add: k text_of_simps skip_space_id is_space_def quote_mark_def literal_def)
  qed
  then show ?case unfolding reads_back_def by blast
qed simp

lemma json_round_trip:
  assumes "json_ok v" and "json_text v = Some t"
  shows "json_parse t = Some v"
proof -
  have t: "text_of v = t" using assms(2) by (simp add: text_of_def)
  obtain N where N: "\<forall>n \<ge> N. \<forall>r. delimited r \<longrightarrow> parse_value n (t @ r) = Some (v, r)"
    using json_reads_back [OF assms(1)] unfolding reads_back_def t by blast
  have "parse_value (max N (2 * length t + 2)) (t @ []) = Some (v, [])"
    by (rule N [rule_format]) simp_all
  moreover have "parse_value (max N (2 * length t + 2)) t = parse_value (2 * length t + 2) t"
    by (rule parse_fuel) simp_all
  ultimately have "parse_value (2 * length t + 2) t = Some (v, [])" by (simp only: append_Nil2)
  then show ?thesis by (simp only: json_parse_def option.case prod.case) (simp add: skip_space_def)
qed

end
