(* ===== verification/Client.thy ===== *)
theory Client
  imports JsonProps Messages ApiTypes
begin

text \<open>
  \<^verbatim>\<open>web/src/api/client.ts\<close>: the request every API call goes through, the errors it raises
  and the calls of the \<open>api\<close> object. The browser's \<open>fetch\<close> is a parameter: a function from
  the request to the response, \<open>None\<close> where its promise rejects. A promise that has settled
  is a value of \<open>promise\<close>.
\<close>

section \<open>Types\<close>

record admin =
  admin_id :: jsnum
  admin_username :: string

record credentials =
  cr_username :: string
  cr_password :: string

record setup_status =
  setupRequired :: bool

record login_result =
  lr_ok :: bool

record api_error =
  ae_status :: jsnum
  serverMessage :: "string option"
  ae_message :: string
  ae_name :: string

text \<open>What a promise can be rejected with: an \<open>ApiError\<close>, or any other thrown value.\<close>

datatype js_error = ApiErr api_error | OtherErr

datatype 'a promise = Fulfilled 'a | Rejected js_error

record response =
  resp_ok :: bool
  resp_status :: jsnum
  resp_text :: "string option"

record request_init =
  in_method :: "string option"
  in_headers :: "(string \<times> string) list"
  in_body :: "string option"
  in_signal :: "nat option"

record fetch_call =
  fc_path :: string
  fc_method :: "string option"
  fc_headers :: "(string \<times> string) list"
  fc_body :: "string option"
  fc_signal :: "nat option"
  fc_credentials :: string

type_synonym fetch_fun = "fetch_call \<Rightarrow> response option"

section \<open>Errors\<close>

definition newApiError :: "jsnum \<Rightarrow> string option \<Rightarrow> api_error" where
  "newApiError st msg =
     \<lparr>ae_status = st, serverMessage = msg, ae_message = nullish msg t_request_failed,
      ae_name = ''ApiError''\<rparr>"

definition validatedErrorMessage :: "response \<Rightarrow> string option" where
  "validatedErrorMessage r =
     (case Option.bind (resp_text r) json_parse of
        None \<Rightarrow> None
      | Some v \<Rightarrow>
          if \<not> is_plain_object v then None
          else case get_opt ''error'' v of
                 JStr m \<Rightarrow> if trim m = '''' then None else Some (trim m)
               | _ \<Rightarrow> None)"

fun apiErrorMessage :: "js_error \<Rightarrow> string \<Rightarrow> string" where
  "apiErrorMessage (ApiErr e) fallback = nullish (serverMessage e) fallback"
| "apiErrorMessage OtherErr fallback = fallback"

section \<open>The request\<close>

text \<open>Object spread: a property that is there already keeps its place and changes its value.\<close>

fun put_header :: "(string \<times> string) list \<Rightarrow> string \<times> string \<Rightarrow> (string \<times> string) list" where
  "put_header [] kv = [kv]"
| "put_header (h # hs) kv = (if fst h = fst kv then kv # hs else h # put_header hs kv)"

definition no_init :: request_init where
  "no_init = \<lparr>in_method = None, in_headers = [], in_body = None, in_signal = None\<rparr>"

definition fetch_arguments :: "string \<Rightarrow> request_init \<Rightarrow> fetch_call" where
  "fetch_arguments path init =
     \<lparr>fc_path = path, fc_method = in_method init,
      fc_headers = foldl put_header [(''Content-Type'', ''application/json'')] (in_headers init),
      fc_body = in_body init, fc_signal = in_signal init, fc_credentials = ''same-origin''\<rparr>"

definition settle_response :: "response \<Rightarrow> jv promise" where
  "settle_response r =
     (if \<not> resp_ok r then Rejected (ApiErr (newApiError (resp_status r) (validatedErrorMessage r)))
      else if js_eq (resp_status r) (Fin 204) then Fulfilled JUndef
      else case Option.bind (resp_text r) json_parse of
             None \<Rightarrow> Rejected OtherErr
           | Some v \<Rightarrow> Fulfilled v)"

definition request :: "fetch_fun \<Rightarrow> string \<Rightarrow> request_init \<Rightarrow> jv promise" where
  "request fetch path init =
     (case fetch (fetch_arguments path init) of
        None \<Rightarrow> Rejected OtherErr
      | Some r \<Rightarrow> settle_response r)"

section \<open>The calls of the \<open>api\<close> object\<close>

text \<open>\<open>JSON.stringify\<close> of a value that is not undefined.\<close>

definition stringify :: "jv \<Rightarrow> string" where
  "stringify v = nullish (json_text v) ''undefined''"

definition with_method :: "string \<Rightarrow> request_init" where
  "with_method m = no_init\<lparr>in_method := Some m\<rparr>"

definition with_json :: "string \<Rightarrow> jv \<Rightarrow> request_init" where
  "with_json m v = no_init\<lparr>in_method := Some m, in_body := Some (stringify v)\<rparr>"

definition with_signal :: "nat option \<Rightarrow> request_init" where
  "with_signal sig = no_init\<lparr>in_signal := sig\<rparr>"

definition credentials_json :: "credentials \<Rightarrow> jv" where
  "credentials_json c =
     JObj [(''username'', JStr (cr_username c)), (''password'', JStr (cr_password c))]"

definition postJSON :: "fetch_fun \<Rightarrow> string \<Rightarrow> credentials \<Rightarrow> jv promise" where
  "postJSON fetch path c = request fetch path (with_json ''POST'' (credentials_json c))"

definition api_getSetupStatus :: "fetch_fun \<Rightarrow> jv promise" where
  "api_getSetupStatus fetch = request fetch ''/api/setup/status'' no_init"

definition api_setupAdmin :: "fetch_fun \<Rightarrow> credentials \<Rightarrow> jv promise" where
  "api_setupAdmin fetch c = postJSON fetch ''/api/setup'' c"

definition api_login :: "fetch_fun \<Rightarrow> credentials \<Rightarrow> jv promise" where
  "api_login fetch c = postJSON fetch ''/api/login'' c"

definition api_logout :: "fetch_fun \<Rightarrow> jv promise" where
  "api_logout fetch = request fetch ''/api/logout'' (with_method ''POST'')"

definition api_getMe :: "fetch_fun \<Rightarrow> jv promise" where
  "api_getMe fetch = request fetch ''/api/me'' no_init"

definition api_getServerStatuses :: "fetch_fun \<Rightarrow> nat option \<Rightarrow> jv promise" where
  "api_getServerStatuses fetch sig = request fetch ''/api/servers/status'' (with_signal sig)"

definition api_getServerStatus :: "fetch_fun \<Rightarrow> jsnum \<Rightarrow> nat option \<Rightarrow> jv promise" where
  "api_getServerStatus fetch serverID sig =
     request fetch (''/api/servers/'' @ number_to_string serverID @ ''/status'') (with_signal sig)"

section \<open>What a request can end with\<close>

lemma trim_nonblank: "validatedErrorMessage r = Some m \<Longrightarrow> m \<noteq> '''' \<and> (\<exists>s. m = trim s)"
  by (auto simp: validatedErrorMessage_def split: option.splits jv.splits if_splits)

text \<open>
  A request never yields a value from a response that is not ok: it is rejected with an
  \<open>ApiError\<close> of the response's status, whose server message is absent or a trimmed text that
  is not blank, so that the message shown to the user is the server's or the given fallback and
  never blank. A 204 yields undefined without reading the body, and any other ok response
  yields the value of its body or fails.
\<close>

lemma request_outcome:
  assumes "fetch (fetch_arguments path init) = Some r"
    and "fallback \<noteq> ''''"
  shows "case request fetch path init of
      Fulfilled v \<Rightarrow> resp_ok r \<and>
        (if js_eq (resp_status r) (Fin 204) then v = JUndef
         else \<exists>t. resp_text r = Some t \<and> json_parse t = Some v)
    | Rejected (ApiErr e) \<Rightarrow> \<not> resp_ok r \<and> ae_status e = resp_status r \<and>
        ae_message e \<noteq> '''' \<and>
        (apiErrorMessage (ApiErr e) fallback = fallback \<or>
         (\<exists>s. serverMessage e = Some (trim s) \<and> apiErrorMessage (ApiErr e) fallback = trim s)) \<and>
        apiErrorMessage (ApiErr e) fallback \<noteq> ''''
    | Rejected OtherErr \<Rightarrow> resp_ok r \<and> \<not> js_eq (resp_status r) (Fin 204) \<and>
        (resp_text r = None \<or> (\<exists>t. resp_text r = Some t \<and> json_parse t = None))"
proof (cases "resp_ok r")
  case True
  then show ?thesis
    using assms(1) by (auto simp: request_def settle_response_def split: option.splits bind_splits)
next
  case False
  have "t_request_failed \<noteq> ''''" by (simp add: t_request_failed_def)
  then show ?thesis
    using False assms trim_nonblank [of r]
    by (cases "validatedErrorMessage r") (auto simp: request_def settle_response_def newApiError_def)
qed

text \<open>Every text that a string-and-boolean body is sent as reads back as that body.\<close>

lemma stringify_round_trip:
  assumes "json_ok v"
  shows "json_parse (stringify v) = Some v"
proof -
  obtain t where t: "json_text v = Some t" using json_ok_text [OF assms] by blast
  then show ?thesis using json_round_trip [OF assms t] by (simp add: stringify_def)
qed

text \<open>
  Whatever user name and password are typed, quotes, backslashes, control characters and
  bytes of other scripts included, the body of the login and of the set-up request is JSON that
  reads back as exactly these two strings.
\<close>

lemma credentials_round_trip:
  "json_parse (stringify (credentials_json c)) =
     Some (JObj [(''username'', JStr (cr_username c)), (''password'', JStr (cr_password c))])"
  unfolding credentials_json_def by (rule stringify_round_trip) simp

end
