(* ===== verification/Endpoints.thy ===== *)
theory Endpoints
  imports Client
begin

text \<open>
  The typed endpoints: \<^verbatim>\<open>web/src/servers/api.ts\<close>, \<^verbatim>\<open>web/src/alerts/types.ts\<close> and
  \<^verbatim>\<open>web/src/alerts/api.ts\<close>. An optional property that is absent is \<open>None\<close>; it is undefined
  in the object that is serialised, and left out of its text.
\<close>

section \<open>Servers\<close>

record server_record =
  sr_id :: jsnum
  sr_name :: string
  sr_enabled :: bool
  sr_agentVersion :: string
  sr_createdAt :: string
  sr_updatedAt :: string

record server_token_result =
  tr_server :: server_record
  tr_token :: string

record server_update_input =
  up_name :: "string option"
  up_enabled :: "bool option"

definition optional_field :: "string \<Rightarrow> jv option \<Rightarrow> (string \<times> jv) list" where
  "optional_field k v = (case v of None \<Rightarrow> [] | Some x \<Rightarrow> [(k, x)])"

definition update_json :: "server_update_input \<Rightarrow> jv" where
  "update_json u =
     JObj (optional_field ''name'' (map_option JStr (up_name u)) @
           optional_field ''enabled'' (map_option JBool (up_enabled u)))"

definition server_path :: "jsnum \<Rightarrow> string" where
  "server_path i = ''/api/servers/'' @ number_to_string i"

definition serverApi_list :: "fetch_fun \<Rightarrow> jv promise" where
  "serverApi_list fetch = request fetch ''/api/servers'' no_init"

definition serverApi_create :: "fetch_fun \<Rightarrow> string \<Rightarrow> jv promise" where
  "serverApi_create fetch nm =
     request fetch ''/api/servers'' (with_json ''POST'' (JObj [(''name'', JStr nm)]))"

definition serverApi_update :: "fetch_fun \<Rightarrow> jsnum \<Rightarrow> server_update_input \<Rightarrow> jv promise" where
  "serverApi_update fetch i input =
     request fetch (server_path i) (with_json ''PATCH'' (update_json input))"

definition serverApi_remove :: "fetch_fun \<Rightarrow> jsnum \<Rightarrow> jv promise" where
  "serverApi_remove fetch i = request fetch (server_path i) (with_method ''DELETE'')"

definition serverApi_rotateToken :: "fetch_fun \<Rightarrow> jsnum \<Rightarrow> jv promise" where
  "serverApi_rotateToken fetch i =
     request fetch (server_path i @ ''/token'') (with_method ''POST'')"

section \<open>Alerts\<close>

datatype alert_metric = Offline | CpuUsage | MemoryUsage | DiskUsage | DiskFreeBytes

datatype alert_operator = Gt | Lt

datatype alert_status = Normal | Pending | Firing | Recovered

text \<open>The metrics are finitely many, in the order of the code.\<close>

instantiation alert_metric :: enum
begin

definition enum_alert_metric :: "alert_metric list" where
  "enum_alert_metric = [Offline, CpuUsage, MemoryUsage, DiskUsage, DiskFreeBytes]"

definition enum_all_alert_metric :: "(alert_metric \<Rightarrow> bool) \<Rightarrow> bool" where
  "enum_all_alert_metric P \<longleftrightarrow> list_all P [Offline, CpuUsage, MemoryUsage, DiskUsage, DiskFreeBytes]"

definition enum_ex_alert_metric :: "(alert_metric \<Rightarrow> bool) \<Rightarrow> bool" where
  "enum_ex_alert_metric P \<longleftrightarrow> list_ex P [Offline, CpuUsage, MemoryUsage, DiskUsage, DiskFreeBytes]"

instance
proof
  have univ: "(UNIV :: alert_metric set) = {Offline, CpuUsage, MemoryUsage, DiskUsage, DiskFreeBytes}"
    using alert_metric.exhaust by blast
  show "(UNIV :: alert_metric set) = set enum_class.enum" by (simp add: univ enum_alert_metric_def)
  show "distinct (enum_class.enum :: alert_metric list)" by (simp add: enum_alert_metric_def)
  fix P :: "alert_metric \<Rightarrow> bool"
  show "enum_class.enum_all P \<longleftrightarrow> Ball UNIV P" "enum_class.enum_ex P \<longleftrightarrow> Bex UNIV P"
    by (simp_all add: univ enum_all_alert_metric_def enum_ex_alert_metric_def)
qed

end

fun metric_name :: "alert_metric \<Rightarrow> string" where
  "metric_name Offline = ''offline''"
| "metric_name CpuUsage = ''cpu_usage''"
| "metric_name MemoryUsage = ''memory_usage''"
| "metric_name DiskUsage = ''disk_usage''"
| "metric_name DiskFreeBytes = ''disk_free_bytes''"

fun operator_name :: "alert_operator \<Rightarrow> string" where
  "operator_name Gt = ''gt''"
| "operator_name Lt = ''lt''"

fun status_name :: "alert_status \<Rightarrow> string" where
  "status_name Normal = ''normal''"
| "status_name Pending = ''pending''"
| "status_name Firing = ''firing''"
| "status_name Recovered = ''recovered''"

record alert_rule =
  ru_id :: jsnum
  ru_serverId :: jsnum
  ru_metric :: alert_metric
  ru_operator :: alert_operator
  ru_threshold :: jsnum
  ru_durationSeconds :: jsnum
  ru_repeatSeconds :: jsnum
  ru_enabled :: bool
  ru_createdAt :: string
  ru_updatedAt :: string
  ru_state :: alert_status

record alert_rule_input =
  ri_serverId :: jsnum
  ri_metric :: alert_metric
  ri_operator :: alert_operator
  ri_threshold :: jsnum
  ri_durationSeconds :: "jsnum option"
  ri_repeatSeconds :: jsnum
  ri_enabled :: bool

record webhook_attempt =
  wa_id :: jsnum
  wa_eventId :: "jsnum option"
  wa_isTest :: bool
  wa_attempt :: jsnum
  wa_responseStatus :: "jsnum option"
  wa_errorText :: string
  wa_sentAt :: string

record alert_event =
  ev_id :: jsnum
  ev_ruleId :: jsnum
  ev_serverId :: jsnum
  ev_serverName :: string
  ev_metric :: alert_metric
  ev_status :: alert_status
  ev_currentValue :: "jsnum option"
  ev_threshold :: "jsnum option"
  ev_startedAt :: string
  ev_endedAt :: "string option"
  ev_createdAt :: string
  ev_attempts :: "webhook_attempt list"

record webhook_config =
  wc_url :: string
  wc_headers :: "(string \<times> string) list"
  wc_bodyTemplate :: string
  wc_enabled :: bool
  wc_createdAt :: "string option"
  wc_updatedAt :: "string option"

record delivery_outcome =
  do_success :: bool
  do_attempts :: "webhook_attempt list"

definition rule_input_json :: "alert_rule_input \<Rightarrow> jv" where
  "rule_input_json r =
     JObj ([(''serverId'', JNum (ri_serverId r)), (''metric'', JStr (metric_name (ri_metric r))),
            (''operator'', JStr (operator_name (ri_operator r))),
            (''threshold'', JNum (ri_threshold r))] @
           optional_field ''durationSeconds'' (map_option JNum (ri_durationSeconds r)) @
           [(''repeatSeconds'', JNum (ri_repeatSeconds r)), (''enabled'', JBool (ri_enabled r))])"

definition webhook_json :: "webhook_config \<Rightarrow> jv" where
  "webhook_json w =
     JObj ([(''url'', JStr (wc_url w)),
            (''headers'', JObj (map (\<lambda>(k, v). (k, JStr v)) (wc_headers w))),
            (''bodyTemplate'', JStr (wc_bodyTemplate w)), (''enabled'', JBool (wc_enabled w))] @
           optional_field ''createdAt'' (map_option JStr (wc_createdAt w)) @
           optional_field ''updatedAt'' (map_option JStr (wc_updatedAt w)))"

definition rule_path :: "jsnum \<Rightarrow> string" where
  "rule_path i = ''/api/alert-rules/'' @ number_to_string i"

definition alertsApi_listRules :: "fetch_fun \<Rightarrow> jv promise" where
  "alertsApi_listRules fetch = request fetch ''/api/alert-rules'' no_init"

definition alertsApi_createRule :: "fetch_fun \<Rightarrow> alert_rule_input \<Rightarrow> jv promise" where
  "alertsApi_createRule fetch input =
     request fetch ''/api/alert-rules'' (with_json ''POST'' (rule_input_json input))"

text \<open>A partial input is any list of properties.\<close>

definition alertsApi_updateRule :: "fetch_fun \<Rightarrow> jsnum \<Rightarrow> (string \<times> jv) list \<Rightarrow> jv promise" where
  "alertsApi_updateRule fetch i input =
     request fetch (rule_path i) (with_json ''PATCH'' (JObj input))"

definition alertsApi_deleteRule :: "fetch_fun \<Rightarrow> jsnum \<Rightarrow> jv promise" where
  "alertsApi_deleteRule fetch i = request fetch (rule_path i) (with_method ''DELETE'')"

definition alertsApi_listEvents :: "fetch_fun \<Rightarrow> jv promise" where
  "alertsApi_listEvents fetch = request fetch ''/api/alert-events'' no_init"

definition alertsApi_getWebhook :: "fetch_fun \<Rightarrow> jv promise" where
  "alertsApi_getWebhook fetch = request fetch ''/api/webhook'' no_init"

definition alertsApi_updateWebhook :: "fetch_fun \<Rightarrow> webhook_config \<Rightarrow> jv promise" where
  "alertsApi_updateWebhook fetch w =
     request fetch ''/api/webhook'' (with_json ''PUT'' (webhook_json w))"

definition alertsApi_testWebhook :: "fetch_fun \<Rightarrow> jv promise" where
  "alertsApi_testWebhook fetch = request fetch ''/api/webhook/test'' (with_method ''POST'')"

section \<open>What the server receives\<close>

lemma json_ok_fields [simp]:
  "json_ok (JObj (map (\<lambda>(k, v). (k, JStr v)) hs)) \<longleftrightarrow> distinct (map fst hs)"
proof -
  have "map fst (map (\<lambda>(k, v). (k, JStr v)) hs) = map fst hs" by (induction hs) auto
  moreover have "list_all (\<lambda>(k, v). json_ok v) (map (\<lambda>(k, v). (k, JStr v)) hs)"
    by (induction hs) auto
  ultimately show ?thesis by (simp only: json_ok.simps simp_thms)
qed

lemma json_ok_rule_input:
  assumes "list_all is_safe_integer [ri_serverId r, ri_threshold r, ri_repeatSeconds r]"
    and "case ri_durationSeconds r of None \<Rightarrow> True | Some d \<Rightarrow> is_safe_integer d"
  shows "json_ok (rule_input_json r)"
  using assms
  by (cases "ri_durationSeconds r") (simp_all add: rule_input_json_def optional_field_def del: is_safe_integer.simps)

lemma json_ok_webhook: "distinct (map fst (wc_headers w)) \<Longrightarrow> json_ok (webhook_json w)"
  using json_ok_fields [of "wc_headers w"]
  by (cases "wc_createdAt w"; cases "wc_updatedAt w") (simp_all add: webhook_json_def optional_field_def del: json_ok_fields)

text \<open>
  The body of every request that creates or changes something reads back as exactly the
  input: the name or flag of a server update (and only the one that is given), an alert rule
  whose numbers are safe integers, with the duration left out when there is none, and a webhook
  configuration with its headers.
\<close>

lemma bodies_round_trip:
  assumes "list_all is_safe_integer [ri_serverId r, ri_threshold r, ri_repeatSeconds r]"
    and "case ri_durationSeconds r of None \<Rightarrow> True | Some d \<Rightarrow> is_safe_integer d"
    and "distinct (map fst (wc_headers w))"
  shows "json_parse (stringify (update_json u)) = Some (update_json u) \<and>
    json_parse (stringify (rule_input_json r)) = Some (rule_input_json r) \<and>
    get_opt ''durationSeconds'' (rule_input_json r) =
      (case ri_durationSeconds r of None \<Rightarrow> JUndef | Some d \<Rightarrow> JNum d) \<and>
    json_parse (stringify (webhook_json w)) = Some (webhook_json w)"
proof -
  have "json_ok (update_json u)"
    by (cases "up_name u"; cases "up_enabled u") (simp_all add: update_json_def optional_field_def)
  moreover have "json_ok (rule_input_json r)" by (rule json_ok_rule_input [OF assms(1,2)])
  moreover have "json_ok (webhook_json w)" by (rule json_ok_webhook [OF assms(3)])
  moreover have "get_opt ''durationSeconds'' (rule_input_json r) =
      (case ri_durationSeconds r of None \<Rightarrow> JUndef | Some d \<Rightarrow> JNum d)"
    by (cases "ri_durationSeconds r") (simp_all add: rule_input_json_def optional_field_def)
  ultimately show ?thesis by (simp add: stringify_round_trip del: is_safe_integer.simps)
qed

definition sample_rule_input :: alert_rule_input where
  "sample_rule_input =
     \<lparr>ri_serverId = Fin 7, ri_metric = CpuUsage, ri_operator = Gt, ri_threshold = Fin 90,
      ri_durationSeconds = None, ri_repeatSeconds = Fin 3600, ri_enabled = True\<rparr>"

definition sample_webhook :: webhook_config where
  "sample_webhook =
     \<lparr>wc_url = ''https://example.test/hook'', wc_headers = [(''X-Token'', ''secret'')],
      wc_bodyTemplate = '''', wc_enabled = True, wc_createdAt = None, wc_updatedAt = None\<rparr>"

end
