(* ===== verification/Requests.thy ===== *)
theory Requests
  imports Client
begin

text \<open>
  The contract that the asynchronous hooks of the user interface share. Every hook numbers its
  requests with a counter that it keeps in a ref, and a continuation compares the number it was
  started with to the counter before it touches the state, so that the answer of a request
  that was superseded does not show, in whatever order the answers arrive.
\<close>

locale latest_wins =
  fixes inv :: "'s \<Rightarrow> bool"
    and current :: "'s \<Rightarrow> nat"
    and step :: "'e \<Rightarrow> 's \<Rightarrow> 's"
    and begins :: "'e \<Rightarrow> 's \<Rightarrow> bool"
    and settles :: "'e \<Rightarrow> nat option"
    and visible :: "'s \<Rightarrow> 'v"
  assumes inv_step: "inv s \<Longrightarrow> inv (step e s)"
    and current_mono: "inv s \<Longrightarrow> current s \<le> current (step e s)"
    and begins_fresh: "inv s \<Longrightarrow> begins e s \<Longrightarrow> current s < current (step e s)"
    and stale: "inv s \<Longrightarrow> settles e = Some g \<Longrightarrow> g \<noteq> current s \<Longrightarrow> visible (step e s) = visible s"
begin

lemma inv_run: "inv s \<Longrightarrow> inv (fold step es s)"
  by (induction es arbitrary: s) (simp_all add: inv_step)

lemma current_run: "inv s \<Longrightarrow> current s \<le> current (fold step es s)"
proof (induction es arbitrary: s)
  case Nil
  show ?case by simp
next
  case (Cons e es)
  have "current s \<le> current (step e s)" by (rule current_mono [OF Cons.prems])
  also have "\<dots> \<le> current (fold step es (step e s))"
    by (rule Cons.IH [OF inv_step [OF Cons.prems]])
  finally show ?case by simp
qed

lemma stale_run:
  assumes "inv s" and "g < current s" and "settles e = Some g"
  shows "visible (fold step (es @ [e]) s) = visible (fold step es s)"
proof -
  have "g \<noteq> current (fold step es s)"
    using current_run [OF assms(1), of es] assms(2) by simp
  then show ?thesis
    using stale [OF inv_run [OF assms(1)] assms(3)] by simp
qed

text \<open>Once a later request has begun, the answer of an earlier one is never shown.\<close>

lemma superseded:
  assumes "inv s" and "g \<le> current s" and "begins b s" and "settles e = Some g"
  shows "visible (fold step (b # es @ [e]) s) = visible (fold step (b # es) s)"
proof -
  have "g < current (step b s)" using begins_fresh [OF assms(1,3)] assms(2) by simp
  from stale_run [OF inv_step [OF assms(1)] this assms(4), of es] show ?thesis by simp
qed

end

end
