(* ===== verification/HistoryHook.thy ===== *)
theory HistoryHook
  imports HistoryData Requests
begin

text \<open>
  The hook \<open>useHistory\<close> of \<^verbatim>\<open>web/src/history/useHistory.ts\<close>: the module's cache with its
  time to live, and one mounted instance of the hook as a machine that reacts to new
  properties, to React running its effect, to answers of the server and to \<open>retry\<close>.
\<close>

section \<open>The cache\<close>

definition CACHE_TTL_MS :: int where "CACHE_TTL_MS = 60000"

record cache_entry =
  cachedAt :: int
  entry_data :: history_response

type_synonym history_cache = "string \<rightharpoonup> cache_entry"

fun range_name :: "history_range \<Rightarrow> string" where
  "range_name Range_1d = ''1d''"
| "range_name Range_7d = ''7d''"
| "range_name Range_30d = ''30d''"

definition cacheKey :: "jsnum \<Rightarrow> history_range \<Rightarrow> string" where
  "cacheKey serverID rng = number_to_string serverID @ '':'' @ range_name rng"

text \<open>\<open>Date.now()\<close> is the argument \<open>now\<close>: a whole number of milliseconds.\<close>

definition cachedHistory ::
  "int \<Rightarrow> string \<Rightarrow> history_cache \<Rightarrow> history_response option \<times> history_cache" where
  "cachedHistory now key cache =
     (case cache key of
        None \<Rightarrow> (None, cache)
      | Some entry \<Rightarrow>
          let age = now - cachedAt entry
          in if age < 0 \<or> age \<ge> CACHE_TTL_MS then (None, cache(key := None))
             else (Some (entry_data entry), cache))"

section \<open>The state of the hook\<close>

record history_state =
  hs_key :: "string option"
  hs_loading :: bool
  hs_error :: "string option"
  hs_data :: "history_response option"

text \<open>
  \<open>props\<close> are the arguments of the last render, \<open>issued\<close> the key of every request that was
  started, by generation, \<open>cleanup\<close> the request that the clean-up of the last effect aborts.
\<close>

record history_hook =
  historyCache :: history_cache
  hstate :: history_state
  attempt :: nat
  generationRef :: nat
  props :: "jsnum \<times> history_range option"
  issued :: "nat \<rightharpoonup> string"
  cleanup :: "nat option"
  aborted :: "nat set"

definition hook_key :: "jsnum \<times> history_range option \<Rightarrow> string option" where
  "hook_key p = map_option (cacheKey (fst p)) (snd p)"

text \<open>The initialiser of \<open>useState\<close>, which reads the cache up to twice.\<close>

definition mount_history :: "int \<Rightarrow> int \<Rightarrow> jsnum \<times> history_range option \<Rightarrow> history_cache \<Rightarrow> history_hook" where
  "mount_history now1 now2 p cache =
     (case hook_key p of
        None \<Rightarrow>
          \<lparr>historyCache = cache,
           hstate = \<lparr>hs_key = None, hs_loading = False, hs_error = None, hs_data = None\<rparr>,
           attempt = 0, generationRef = 0, props = p, issued = Map.empty, cleanup = None, aborted = {}\<rparr>
      | Some key \<Rightarrow>
          let (first, c1) = cachedHistory now1 key cache;
              (second, c2) = cachedHistory now2 key c1
          in \<lparr>historyCache = c2,
              hstate = \<lparr>hs_key = Some key, hs_loading = (first = None), hs_error = None, hs_data = second\<rparr>,
              attempt = 0, generationRef = 0, props = p, issued = Map.empty, cleanup = None, aborted = {}\<rparr>)"

section \<open>Its reactions\<close>

datatype history_event =
    Props "jsnum \<times> history_range option"
  | Effect int
  | Resolved nat jv int
  | Caught nat js_error
  | Retry
  | Unmount

definition run_cleanup :: "history_hook \<Rightarrow> history_hook" where
  "run_cleanup h =
     h\<lparr>aborted := aborted h \<union> set_option (cleanup h), cleanup := None\<rparr>"

definition run_effect :: "int \<Rightarrow> history_hook \<Rightarrow> history_hook" where
  "run_effect now h =
     (let generation = generationRef h + 1;
          h1 = h\<lparr>generationRef := generation\<rparr>
      in case hook_key (props h) of
           None \<Rightarrow>
             h1\<lparr>hstate := \<lparr>hs_key = None, hs_loading = False, hs_error = None, hs_data = None\<rparr>\<rparr>
         | Some key \<Rightarrow>
             (case cachedHistory now key (historyCache h) of
                (Some cached, cache') \<Rightarrow>
                  h1\<lparr>historyCache := cache',
                     hstate := \<lparr>hs_key = Some key, hs_loading = False, hs_error = None,
                                hs_data = Some cached\<rparr>\<rparr>
              | (None, cache') \<Rightarrow>
                  h1\<lparr>historyCache := cache',
                     hstate := \<lparr>hs_key = Some key, hs_loading = True, hs_error = None, hs_data = None\<rparr>,
                     issued := (issued h)(generation \<mapsto> key),
                     cleanup := Some generation\<rparr>))"

text \<open>
  The continuation of a request, which is known by its generation and was sent for the server and the
  range of the key recorded with it, to \<open>history_path\<close> of them. \<open>Resolved\<close> is its \<open>then\<close>, \<open>Caught\<close> its \<open>catch\<close>. A response
  that fails the check throws, so that the \<open>catch\<close> follows with an error that is no \<open>ApiError\<close>.
\<close>

definition ignored :: "nat \<Rightarrow> history_hook \<Rightarrow> bool" where
  "ignored generation h \<longleftrightarrow> generation \<in> aborted h \<or> generation \<noteq> generationRef h"

fun history_step :: "history_event \<Rightarrow> history_hook \<Rightarrow> history_hook" where
  "history_step (Props p) h = h\<lparr>props := p\<rparr>"
| "history_step (Effect now) h = run_effect now (run_cleanup h)"
| "history_step (Resolved generation v now) h =
     (case issued h generation of
        None \<Rightarrow> h
      | Some key \<Rightarrow>
          if ignored generation h then h
          else case isHistoryResponse v of
                 None \<Rightarrow> h
               | Some d \<Rightarrow>
                   h\<lparr>historyCache := (historyCache h)(key \<mapsto> \<lparr>cachedAt = now, entry_data = d\<rparr>),
                     hstate := \<lparr>hs_key = Some key, hs_loading = False, hs_error = None,
                                hs_data = Some d\<rparr>\<rparr>)"
| "history_step (Caught generation e) h =
     (case issued h generation of
        None \<Rightarrow> h
      | Some key \<Rightarrow>
          if ignored generation h then h
          else h\<lparr>hstate := \<lparr>hs_key = Some key, hs_loading = False,
                            hs_error = Some (apiErrorMessage e HISTORY_ERROR), hs_data = None\<rparr>\<rparr>)"
| "history_step Retry h =
     (case hook_key (props h) of
        None \<Rightarrow> h
      | Some key \<Rightarrow>
          h\<lparr>historyCache := (historyCache h)(key := None), attempt := attempt h + 1\<rparr>)"
| "history_step Unmount h = run_cleanup h"

text \<open>The path of the request that an effect starts.\<close>

definition history_path :: "jsnum \<Rightarrow> history_range \<Rightarrow> string" where
  "history_path serverID rng =
     ''/api/servers/'' @ number_to_string serverID @ ''/history?range='' @ range_name rng"

section \<open>What a render returns\<close>

record history_view =
  v_loading :: bool
  v_error :: "string option"
  v_data :: "history_response option"

definition history_view_of :: "int \<Rightarrow> history_hook \<Rightarrow> history_view \<times> history_hook" where
  "history_view_of now h =
     (case hook_key (props h) of
        None \<Rightarrow> (\<lparr>v_loading = False, v_error = None, v_data = None\<rparr>, h)
      | Some key \<Rightarrow>
          if hs_key (hstate h) \<noteq> Some key
          then let (cached, cache') = cachedHistory now key (historyCache h)
               in (\<lparr>v_loading = (cached = None), v_error = None, v_data = cached\<rparr>,
                   h\<lparr>historyCache := cache'\<rparr>)
          else (\<lparr>v_loading = hs_loading (hstate h), v_error = hs_error (hstate h),
                 v_data = hs_data (hstate h)\<rparr>, h))"

end
