(* ===== verification/HistoryHookProps.thy ===== *)
theory HistoryHookProps
  imports HistoryHook
begin

text \<open>
  The promises of \<open>useHistory\<close>: what it shows belongs to the key it was asked for, abandoned
  requests never show, exactly one of loading, error and data shows, and \<open>retry\<close> fetches.
\<close>

section \<open>The cache keys\<close>

lemma dec_int_no_colon: "CHR '':'' \<notin> set (dec_int n)"
proof -
  have "CHR '':'' \<notin> set (dec_digits m)" if "0 \<le> m" for m
  proof -
    have "list_all is_digit (dec_digits m)" using dec_digits_facts [OF that] by blast
    then show ?thesis by (auto simp: list_all_iff is_digit_def)
  qed
  then show ?thesis by (simp add: dec_int_def)
qed

lemma dec_int_inj: "dec_int m = dec_int n \<Longrightarrow> m = n"
proof -
  have v: "digits_value (dec_digits k) = k" "hd (dec_digits k) \<noteq> CHR ''-''" if "0 \<le> k" for k
  proof -
    note f = dec_digits_facts [OF that]
    show "digits_value (dec_digits k) = k" using f by blast
    have "is_digit (hd (dec_digits k))" using f by (simp add: list_all_iff)
    then show "hd (dec_digits k) \<noteq> CHR ''-''" by (auto simp: is_digit_def)
  qed
  assume eq: "dec_int m = dec_int n"
  show ?thesis
  proof (cases "m < 0")
    case True
    then have "n < 0" using eq v(2) [of n] by (cases "n < 0") (auto simp: dec_int_def dest: sym)
    then have "dec_digits (- m) = dec_digits (- n)" using eq True by (simp add: dec_int_def)
    moreover have "digits_value (dec_digits (- m)) = - m" "digits_value (dec_digits (- n)) = - n"
      by (rule v(1), use True \<open>n < 0\<close> in linarith)+
    ultimately have "- m = - n" by metis
    then show ?thesis by (simp only: neg_equal_iff_equal)
  next
    case False
    then have "\<not> n < 0" using eq v(2) [of m] by (cases "n < 0") (auto simp: dec_int_def)
    then have "dec_digits m = dec_digits n" using eq False by (simp add: dec_int_def)
    moreover have "digits_value (dec_digits m) = m" "digits_value (dec_digits n) = n"
      by (rule v(1), use False \<open>\<not> n < 0\<close> in linarith)+
    ultimately show ?thesis by metis
  qed
qed

lemma number_to_string_int:
  "\<bar>n\<bar> \<le> max_safe \<Longrightarrow> number_to_string (num_of_int n) = dec_int n"
  by simp

text \<open>
  Two servers, or two ranges of one server, never share an entry of the cache: the keys of
  safe integer ids are equal only for equal ids and equal ranges.
\<close>

lemma cacheKey_injective:
  assumes "is_safe_integer a" and "is_safe_integer b" and "cacheKey a r = cacheKey b r'"
  shows "a = b \<and> r = r'"
proof -
  obtain m n where mn: "a = num_of_int m" "\<bar>m\<bar> \<le> max_safe" "b = num_of_int n" "\<bar>n\<bar> \<le> max_safe"
    using assms(1,2) by (auto simp: is_safe_integer_iff)
  then have eq: "dec_int m @ CHR '':'' # range_name r = dec_int n @ CHR '':'' # range_name r'"
    using assms(3) by (simp add: cacheKey_def)
  have "takeWhile (\<lambda>c. c \<noteq> CHR '':'') (dec_int k @ CHR '':'' # rest) = dec_int k" for k rest
    using dec_int_no_colon [of k] by (subst takeWhile_append2) auto
  then have "dec_int m = dec_int n" using eq by metis
  moreover from this have "range_name r = range_name r'" using eq by simp
  then have "r = r'" by (cases r; cases r') simp_all
  ultimately show ?thesis using dec_int_inj mn by blast
qed

section \<open>Provenance of what is shown\<close>

lemma cachedHistory_hit:
  assumes "cachedHistory now key cache = (Some d, cache')"
  shows "cache' = cache" and "\<exists>e. cache key = Some e \<and> entry_data e = d \<and>
    0 \<le> now - cachedAt e \<and> now - cachedAt e < 60000"
  using assms by (auto simp: cachedHistory_def CACHE_TTL_MS_def Let_def split: option.splits if_splits)

lemma cachedHistory_subset:
  assumes "cachedHistory now key cache = (r, cache')" and "cache' k = Some e"
  shows "cache k = Some e"
  using assms by (auto simp: cachedHistory_def Let_def split: option.splits if_splits)

lemma cachedHistory_miss:
  assumes "cachedHistory now key cache = (None, cache')"
  shows "cache' key = None"
  using assms by (auto simp: cachedHistory_def Let_def split: option.splits if_splits)

text \<open>
  \<open>origin k d t\<close> stands for: the server sent \<open>d\<close> for the key \<open>k\<close>, and it arrived at time \<open>t\<close>.
  A run is any sequence of reactions and renders in which every answer satisfies it.
\<close>

definition answers_from ::
  "(string \<Rightarrow> history_response \<Rightarrow> int \<Rightarrow> bool) \<Rightarrow> history_event \<Rightarrow> history_hook \<Rightarrow> bool" where
  "answers_from origin e h =
     (case e of
        Resolved g v now \<Rightarrow>
          (case (issued h g, isHistoryResponse v) of
             (Some k, Some d) \<Rightarrow> origin k d now
           | _ \<Rightarrow> True)
      | _ \<Rightarrow> True)"

inductive history_run :: "(string \<Rightarrow> history_response \<Rightarrow> int \<Rightarrow> bool) \<Rightarrow> history_hook \<Rightarrow> bool"
  for origin where
  mounted: "\<forall>k e. cache k = Some e \<longrightarrow> origin k (entry_data e) (cachedAt e) \<Longrightarrow>
    history_run origin (mount_history now1 now2 p cache)"
| reacted: "history_run origin h \<Longrightarrow> answers_from origin e h \<Longrightarrow> history_run origin (history_step e h)"
| rendered: "history_run origin h \<Longrightarrow> history_run origin (snd (history_view_of now h))"

definition sourced :: "(string \<Rightarrow> history_response \<Rightarrow> int \<Rightarrow> bool) \<Rightarrow> history_hook \<Rightarrow> bool" where
  "sourced origin h \<longleftrightarrow>
     (\<forall>k e. historyCache h k = Some e \<longrightarrow> origin k (entry_data e) (cachedAt e)) \<and>
     (\<forall>k d. hs_key (hstate h) = Some k \<longrightarrow> hs_data (hstate h) = Some d \<longrightarrow> (\<exists>t. origin k d t)) \<and>
     (hs_key (hstate h) = None \<longrightarrow> hs_data (hstate h) = None)"

text \<open>A state shows at most one of loading, an error and data.\<close>

definition exclusive :: "history_state \<Rightarrow> bool" where
  "exclusive s \<longleftrightarrow>
     (hs_loading s \<longrightarrow> hs_error s = None \<and> hs_data s = None) \<and>
     (hs_error s \<noteq> None \<longrightarrow> hs_data s = None)"

text \<open>The counters: only numbers that were given out are issued, aborted or to be aborted.\<close>

definition numbered :: "history_hook \<Rightarrow> bool" where
  "numbered h \<longleftrightarrow>
     (\<forall>g \<in> aborted h. g \<le> generationRef h) \<and>
     (\<forall>g \<in> set_option (cleanup h). g \<le> generationRef h) \<and>
     (\<forall>g \<in> dom (issued h). g \<le> generationRef h)"

lemma mount_inv:
  assumes "\<forall>k e. cache k = Some e \<longrightarrow> origin k (entry_data e) (cachedAt e)"
    and "h = mount_history now1 now2 p cache"
  shows "sourced origin h" "exclusive (hstate h)" "numbered h"
proof -
  have "sourced origin h \<and> exclusive (hstate h) \<and> numbered h"
  proof (cases "hook_key p")
    case None
    then show ?thesis
      using assms by (simp add: mount_history_def sourced_def exclusive_def numbered_def)
  next
    case (Some key)
    obtain r1 c1 where c1: "cachedHistory now1 key cache = (r1, c1)" by fastforce
    obtain r2 c2 where c2: "cachedHistory now2 key c1 = (r2, c2)" by fastforce
    have sub: "cache k = Some e" if "c2 k = Some e" for k e
      using that c1 c2 cachedHistory_subset by metis
    have r2: "\<exists>t. origin key d t" if "r2 = Some d" for d
      using that c1 c2 cachedHistory_hit(2) cachedHistory_subset assms(1) by metis
    have r12: "r2 = None" if "r1 = None"
      using that c1 c2 cachedHistory_miss by (fastforce simp: cachedHistory_def)
    have h: "h = \<lparr>historyCache = c2,
        hstate = \<lparr>hs_key = Some key, hs_loading = (r1 = None), hs_error = None, hs_data = r2\<rparr>,
        attempt = 0, generationRef = 0, props = p, issued = Map.empty, cleanup = None, aborted = {}\<rparr>"
      using assms(2) Some c1 c2 by (simp add: mount_history_def)
    show ?thesis
      unfolding h sourced_def exclusive_def numbered_def using assms(1) sub r2 r12 by simp
  qed
  then show "sourced origin h" "exclusive (hstate h)" "numbered h" by blast+
qed

lemma run_effect_inv:
  assumes "sourced origin h" and "numbered h"
  shows "sourced origin (run_effect now h)" "exclusive (hstate (run_effect now h))"
    "numbered (run_effect now h)"
proof -
  have num: "\<forall>g \<in> aborted h. g \<le> Suc (generationRef h)"
    "\<forall>g \<in> set_option (cleanup h). g \<le> Suc (generationRef h)"
    "\<forall>g \<in> dom (issued h). g \<le> Suc (generationRef h)"
    using assms(2) unfolding numbered_def by (blast intro: le_SucI)+
  have cache: "\<forall>k e. historyCache h k = Some e \<longrightarrow> origin k (entry_data e) (cachedAt e)"
    using assms(1) unfolding sourced_def by blast
  have "sourced origin (run_effect now h) \<and> exclusive (hstate (run_effect now h)) \<and>
      numbered (run_effect now h)"
  proof (cases "hook_key (props h)")
    case None
    then show ?thesis
      using num cache by (simp add: run_effect_def sourced_def exclusive_def numbered_def Let_def)
  next
    case key: (Some key)
    obtain r c where c: "cachedHistory now key (historyCache h) = (r, c)" by fastforce
    have sub: "\<forall>k e. c k = Some e \<longrightarrow> origin k (entry_data e) (cachedAt e)"
      using c cachedHistory_subset cache by metis
    show ?thesis
    proof (cases r)
      case None
      have "numbered (run_effect now h)"
        using num by (simp add: run_effect_def numbered_def key c None Let_def)
      then show ?thesis
        using sub by (simp add: run_effect_def sourced_def exclusive_def key c None Let_def)
    next
      case (Some d)
      then have "\<exists>t. origin key d t" using c cachedHistory_hit(2) cache by metis
      then show ?thesis
        using num sub by (simp add: run_effect_def sourced_def exclusive_def numbered_def key c Some Let_def)
    qed
  qed
  then show "sourced origin (run_effect now h)" "exclusive (hstate (run_effect now h))"
    "numbered (run_effect now h)" by blast+
qed

lemma run_cleanup_inv:
  "sourced origin h \<Longrightarrow> sourced origin (run_cleanup h)"
  "numbered h \<Longrightarrow> numbered (run_cleanup h)"
  "hstate (run_cleanup h) = hstate h" "props (run_cleanup h) = props h"
  "generationRef (run_cleanup h) = generationRef h"
  by (auto simp: run_cleanup_def sourced_def numbered_def)

lemma history_step_inv:
  assumes "sourced origin h" and "exclusive (hstate h)" and "numbered h" and "answers_from origin e h"
  shows "sourced origin (history_step e h) \<and> exclusive (hstate (history_step e h)) \<and>
    numbered (history_step e h)"
proof (cases e)
  case (Effect now)
  have "sourced origin (run_cleanup h)" "numbered (run_cleanup h)"
    using run_cleanup_inv(1,2) assms(1,3) by blast+
  from run_effect_inv [OF this, of now] Effect show ?thesis by simp
next
  case (Resolved g v now)
  with assms show ?thesis
    by (auto simp: sourced_def exclusive_def numbered_def answers_from_def split: option.splits)
next
  case (Caught g err)
  with assms show ?thesis
    by (auto simp: sourced_def exclusive_def numbered_def split: option.splits)
next
  case Retry
  with assms show ?thesis
    by (auto simp: sourced_def exclusive_def numbered_def split: option.splits)
next
  case Unmount
  with assms show ?thesis by (simp add: run_cleanup_inv)
next
  case (Props p)
  with assms show ?thesis by (simp add: sourced_def numbered_def)
qed

lemma rendered_inv:
  assumes "sourced origin h"
  shows "sourced origin (snd (history_view_of now h))"
    and "hstate (snd (history_view_of now h)) = hstate h"
    and "numbered (snd (history_view_of now h)) = numbered h"
proof -
  have "sourced origin (h\<lparr>historyCache := c\<rparr>)"
    if "cachedHistory now k (historyCache h) = (r, c)" for k r c
    using assms cachedHistory_subset [OF that] by (auto simp: sourced_def)
  then show "sourced origin (snd (history_view_of now h))"
    using assms by (auto simp: history_view_of_def split: option.splits prod.splits)
  show "hstate (snd (history_view_of now h)) = hstate h"
    "numbered (snd (history_view_of now h)) = numbered h"
    by (simp_all add: history_view_of_def numbered_def split: option.split prod.split)
qed

lemma history_run_inv:
  "history_run origin h \<Longrightarrow> sourced origin h \<and> exclusive (hstate h) \<and> numbered h"
proof (induction rule: history_run.induct)
  case (mounted cache now1 now2 p)
  then show ?case using mount_inv [OF mounted refl, of now1 now2 p] by blast
next
  case (reacted h e)
  then show ?case using history_step_inv by blast
next
  case (rendered h now)
  then show ?case using rendered_inv by metis
qed

text \<open>
  C33: the data that a render shows was sent by the server for the server id and the range of
  that render, whatever requests for other servers or ranges are under way and in whatever
  order they are answered; data taken from the cache while the hook has not caught up with new
  properties arrived less than a minute ago, and not in the future.
\<close>

theorem history_shows_current_key:
  assumes "history_run origin h"
    and "v_data (fst (history_view_of now h)) = Some d"
  shows "\<exists>rng t. snd (props h) = Some rng \<and>
    origin (cacheKey (fst (props h)) rng) d t \<and>
    (hs_key (hstate h) \<noteq> Some (cacheKey (fst (props h)) rng) \<longrightarrow> 0 \<le> now - t \<and> now - t < 60000)"
proof -
  have inv: "sourced origin h" using history_run_inv [OF assms(1)] by blast
  obtain rng where rng: "snd (props h) = Some rng" "hook_key (props h) = Some (cacheKey (fst (props h)) rng)"
    using assms(2) by (cases "snd (props h)") (auto simp: history_view_of_def hook_key_def)
  define key where "key = cacheKey (fst (props h)) rng"
  show ?thesis
  proof (cases "hs_key (hstate h) = Some key")
    case True
    then have "hs_data (hstate h) = Some d"
      using assms(2) rng(2) by (simp add: history_view_of_def key_def)
    then show ?thesis using inv True rng(1) by (auto simp: sourced_def key_def)
  next
    case False
    obtain r c where c: "cachedHistory now key (historyCache h) = (r, c)" by fastforce
    then have "r = Some d" using assms(2) rng(2) False by (simp add: history_view_of_def key_def)
    then obtain e where e: "historyCache h key = Some e" "entry_data e = d"
        "0 \<le> now - cachedAt e" "now - cachedAt e < 60000"
      using c cachedHistory_hit(2) by blast
    then have "origin key d (cachedAt e)" using inv by (auto simp: sourced_def)
    with e rng(1) show ?thesis unfolding key_def by blast
  qed
qed

text \<open>A run to evaluate the properties on: a mount, its effect and the answer.\<close>

definition sample_json :: jv where
  "sample_json = JObj [(''fromUnix'', JNum (Fin 0)), (''toUnix'', JNum (Fin 60)), (''points'', JArr [])]"

definition sample_response :: history_response where
  "sample_response = \<lparr>fromUnix = Fin 0, toUnix = Fin 60, points = JArr []\<rparr>"

lemma sample_json_response: "isHistoryResponse sample_json = Some sample_response"
proof -
  have "isValidHistoryRange (num_of_int 0) (num_of_int 60)"
    unfolding isValidHistoryRange_int by (simp add: valid_bounds_def max_safe_def)
  then show ?thesis by (simp add: isHistoryResponse_def sample_json_def sample_response_def)
qed

definition sample_mounted :: history_hook where
  "sample_mounted = mount_history 0 0 (Fin 1, Some Range_7d) Map.empty"

definition sample_loading :: history_hook where
  "sample_loading = history_step (Effect 1) sample_mounted"

definition sample_shown :: history_hook where
  "sample_shown = history_step (Resolved 1 sample_json 9) sample_loading"

lemma sample_key: "hook_key (Fin 1, Some Range_7d) = Some (cacheKey (Fin 1) Range_7d)"
  by (simp add: hook_key_def)

lemma sample_states:
  "hook_key (props sample_loading) = Some (cacheKey (Fin 1) Range_7d)" "generationRef sample_loading = 1"
  "aborted sample_loading = {}" "cleanup sample_loading = Some 1"
  "issued sample_loading = [1 \<mapsto> (cacheKey (Fin 1) Range_7d)]" "historyCache sample_loading = Map.empty"
  "props sample_loading = (Fin 1, Some Range_7d)"
  by (simp_all add: sample_loading_def sample_mounted_def mount_history_def sample_key
      run_effect_def run_cleanup_def cachedHistory_def)

lemma sample_run: "history_run (\<lambda>k d t. k = (cacheKey (Fin 1) Range_7d) \<and> d = sample_response \<and> t = 9) sample_shown"
proof -
  define origin where "origin = (\<lambda>k d t. k = (cacheKey (Fin 1) Range_7d) \<and> d = sample_response \<and> t = (9 :: int))"
  have "history_run origin sample_mounted"
    unfolding sample_mounted_def by (rule history_run.mounted) simp
  then have "history_run origin sample_loading"
    unfolding sample_loading_def by (rule history_run.reacted) (simp add: answers_from_def)
  then have "history_run origin sample_shown"
    unfolding sample_shown_def
    by (rule history_run.reacted)
      (simp add: answers_from_def sample_states sample_json_response origin_def)
  then show ?thesis by (simp only: origin_def)
qed

lemma sample_view:
  "fst (history_view_of now sample_shown) =
     \<lparr>v_loading = False, v_error = None, v_data = Some sample_response\<rparr>"
  by (simp add: history_view_of_def sample_shown_def sample_key sample_states sample_json_response ignored_def)

theorem history_shows_current_key_witness:
  "\<exists>rng t. snd (props sample_shown) = Some rng \<and>
     cacheKey (fst (props sample_shown)) rng = (cacheKey (Fin 1) Range_7d) \<and> t = (9 :: int)"
  using history_shows_current_key [OF sample_run, of 10 sample_response] sample_view by auto

section \<open>One thing at a time\<close>

text \<open>
  A render shows at most one of the loading state, an error and data; without a range it
  shows none of them.
\<close>

lemma history_view_exclusive:
  assumes "history_run origin h" and "view = fst (history_view_of now h)"
  shows "(v_loading view \<longrightarrow> v_error view = None \<and> v_data view = None) \<and>
    (v_error view \<noteq> None \<longrightarrow> \<not> v_loading view \<and> v_data view = None) \<and>
    (v_data view \<noteq> None \<longrightarrow> \<not> v_loading view \<and> v_error view = None) \<and>
    (snd (props h) = None \<longrightarrow> \<not> v_loading view \<and> v_error view = None \<and> v_data view = None)"
  using history_run_inv [OF assms(1)] unfolding assms(2)
  by (auto simp: history_view_of_def exclusive_def hook_key_def split: option.splits prod.splits)

section \<open>Abandoned requests\<close>

fun settles_history :: "history_event \<Rightarrow> nat option" where
  "settles_history (Resolved g v now) = Some g"
| "settles_history (Caught g e) = Some g"
| "settles_history _ = None"

fun begins_history :: "history_event \<Rightarrow> history_hook \<Rightarrow> bool" where
  "begins_history (Effect now) h = True"
| "begins_history _ h = False"

lemma run_effect_generation: "generationRef (run_effect now h) = generationRef h + 1"
  by (simp add: run_effect_def Let_def split: option.split prod.split)

lemma history_step_generation: "generationRef h \<le> generationRef (history_step e h)"
  by (cases e) (simp_all add: run_effect_generation run_cleanup_inv split: option.split)

lemma history_step_stale:
  "settles_history e = Some g \<Longrightarrow> ignored g h \<Longrightarrow> history_step e h = h"
  by (cases e) (simp_all split: option.split)

interpretation history_requests: latest_wins
  "\<lambda>_. True" generationRef history_step begins_history settles_history "\<lambda>h. h"
proof unfold_locales
  fix e h
  show "generationRef h \<le> generationRef (history_step e h)" by (rule history_step_generation)
  show "begins_history e h \<Longrightarrow> generationRef h < generationRef (history_step e h)"
    by (cases e) (simp_all add: run_effect_generation run_cleanup_inv)
  fix g
  assume "settles_history e = Some g" and "g \<noteq> generationRef h"
  then show "history_step e h = h"
    using history_step_stale [of e g h] by (simp add: ignored_def)
qed simp

lemma aborted_mono: "aborted h \<subseteq> aborted (history_step e h)"
proof -
  have "aborted (run_effect now h) = aborted h" for now h
    by (simp add: run_effect_def Let_def split: option.split prod.split)
  then show ?thesis by (cases e) (auto simp: run_cleanup_def split: option.split)
qed

lemma aborted_run: "aborted h \<subseteq> aborted (fold history_step es h)"
proof (induction es arbitrary: h)
  case Nil
  show ?case by simp
next
  case (Cons e es)
  have "aborted h \<subseteq> aborted (history_step e h)" by (rule aborted_mono)
  also have "\<dots> \<subseteq> aborted (fold history_step es (history_step e h))" by (rule Cons.IH)
  finally show ?case by simp
qed

text \<open>
  The answer of a request changes nothing once its effect has been cleaned up or a later
  effect has run, whatever happens in between: neither an old response nor an old error
  reaches the state or the cache, and not even after the component is gone.
\<close>

lemma abandoned_history_request_ignored:
  assumes "settles_history answer = Some g" and "g \<le> generationRef h"
    and "begins_history b h \<or> (b = Unmount \<and> cleanup h = Some g)"
  shows "fold history_step (b # es @ [answer]) h = fold history_step (b # es) h"
  using assms(3)
proof
  assume "begins_history b h"
  then show ?thesis
    using history_requests.superseded [OF TrueI assms(2) _ assms(1), of b es] by simp
next
  assume b: "b = Unmount \<and> cleanup h = Some g"
  then have "g \<in> aborted (history_step b h)" by (simp add: run_cleanup_def)
  then have "g \<in> aborted (fold history_step (b # es) h)" using aborted_run by fastforce
  then have "ignored g (fold history_step (b # es) h)" by (simp add: ignored_def)
  from history_step_stale [OF assms(1) this] show ?thesis by simp
qed

section \<open>Retry\<close>

text \<open>
  \<open>retry\<close> leads to a new request whatever the cache holds: once the effect has run, the
  render shows loading and a request for the current key is under way, and its answer ends the
  loading: a valid response shows and is cached, and an error shows its message.
\<close>

lemma history_retry_refetches:
  assumes "history_run origin h" and "hook_key (props h) = Some key"
    and "h' = history_step (Effect now) (history_step Retry h)"
  shows "fst (history_view_of t h') = \<lparr>v_loading = True, v_error = None, v_data = None\<rparr> \<and>
    issued h' (generationRef h') = Some key \<and>
    (\<forall>v d. isHistoryResponse v = Some d \<longrightarrow>
       fst (history_view_of t (history_step (Resolved (generationRef h') v now') h')) =
         \<lparr>v_loading = False, v_error = None, v_data = Some d\<rparr> \<and>
       historyCache (history_step (Resolved (generationRef h') v now') h') key =
         Some \<lparr>cachedAt = now', entry_data = d\<rparr>) \<and>
    (\<forall>e. fst (history_view_of t (history_step (Caught (generationRef h') e) h')) =
         \<lparr>v_loading = False, v_error = Some (apiErrorMessage e HISTORY_ERROR), v_data = None\<rparr>)"
proof -
  define g where "g = generationRef h + 1"
  define h1 where "h1 = run_cleanup (history_step Retry h)"
  have h1: "generationRef h1 = generationRef h" "props h1 = props h" "historyCache h1 key = None"
    "\<forall>x \<in> aborted h1. x \<le> generationRef h"
    using history_run_inv [OF assms(1)] assms(2)
    by (auto simp: h1_def run_cleanup_def numbered_def)
  have "cachedHistory now key (historyCache h1) = (None, historyCache h1)"
    using h1(3) by (simp add: cachedHistory_def)
  moreover have "h' = run_effect now h1" by (simp only: assms(3) h1_def history_step.simps(2))
  ultimately have h': "h' = h1\<lparr>generationRef := g,
      hstate := \<lparr>hs_key = Some key, hs_loading = True, hs_error = None, hs_data = None\<rparr>,
      issued := (issued h1)(g \<mapsto> key), cleanup := Some g\<rparr>"
    using assms(2) h1(1,2) by (simp add: run_effect_def g_def Let_def)
  have "g \<notin> aborted h1" using h1(4) by (force simp: g_def)
  then show ?thesis
    using assms(2) h1(2) by (simp add: h' history_view_of_def ignored_def)
qed

end
