(* ===== verification/LiveSnapshots.thy ===== *)
theory LiveSnapshots
  imports Requests JsArray
begin

text \<open>
  \<^verbatim>\<open>web/src/live/useServerSnapshots.ts\<close>: the list of server snapshots that is loaded once,
  kept up to date by server-sent events, and reconciled when a later load comes back.
  \<open>String.prototype.localeCompare\<close> for the Chinese locale is the parameter \<open>lc\<close>.
\<close>

section \<open>Sorting and merging\<close>

definition compare_snapshots :: "string compare_fun \<Rightarrow> server_snapshot compare_fun" where
  "compare_snapshots lc l r =
     (if online l \<noteq> online r then (if online l then 1 else - 1)
      else lc (serverName l) (serverName r))"

definition sortSnapshots :: "string compare_fun \<Rightarrow> server_snapshot list \<Rightarrow> server_snapshot list" where
  "sortSnapshots lc snaps = js_sort (compare_snapshots lc) snaps"

definition mergeSnapshot ::
  "string compare_fun \<Rightarrow> server_snapshot list \<Rightarrow> server_snapshot \<Rightarrow> server_snapshot list" where
  "mergeSnapshot lc snaps incoming =
     (case find_index (\<lambda>s. js_eq (serverId s) (serverId incoming)) snaps of
        None \<Rightarrow> sortSnapshots lc (snaps @ [incoming])
      | Some i \<Rightarrow> sortSnapshots lc (snaps[i := incoming]))"

text \<open>\<open>new Map(xs.map((x) => [x.serverId, x]))\<close>: a later pair replaces an earlier one.\<close>

definition by_id :: "server_snapshot list \<Rightarrow> jsnum \<rightharpoonup> server_snapshot" where
  "by_id snaps = foldl (\<lambda>m s. m(serverId s \<mapsto> s)) Map.empty snaps"

type_synonym revisions = "jsnum \<rightharpoonup> nat"

definition newer_event :: "revisions \<Rightarrow> nat \<Rightarrow> jsnum \<Rightarrow> bool" where
  "newer_event revs requestRevision i \<longleftrightarrow> nullish (revs i) 0 > requestRevision"

definition reconcileFetch ::
  "string compare_fun \<Rightarrow> server_snapshot list \<Rightarrow> server_snapshot list \<Rightarrow> revisions \<Rightarrow> nat \<Rightarrow>
   server_snapshot list" where
  "reconcileFetch lc current fetched revs requestRevision =
     (let currentById = by_id current;
          fetchedIds = serverId ` set fetched;
          reconciled = map (\<lambda>incoming.
              case currentById (serverId incoming) of
                None \<Rightarrow> incoming
              | Some existing \<Rightarrow>
                  if newer_event revs requestRevision (serverId incoming) then existing else incoming)
            fetched;
          kept = filter (\<lambda>existing. serverId existing \<notin> fetchedIds \<and>
                   newer_event revs requestRevision (serverId existing)) current
      in sortSnapshots lc (reconciled @ kept))"

section \<open>Events\<close>

text \<open>
  The code casts the \<open>snapshot\<close> property to the type of a snapshot. Here its fields are read
  at their declared types; one that has another type reads as the empty text, \<open>NaN\<close>, false or
  no disks.
\<close>

fun as_string :: "jv \<Rightarrow> string" where
  "as_string (JStr s) = s"
| "as_string _ = ''''"

fun as_number :: "jv \<Rightarrow> jsnum" where
  "as_number (JNum x) = x"
| "as_number _ = NaN"

fun as_bool :: "jv \<Rightarrow> bool" where
  "as_bool (JBool b) = b"
| "as_bool _ = False"

definition host_of_json :: "jv \<Rightarrow> host_info" where
  "host_of_json v =
     \<lparr>hostname = as_string (get_opt ''hostname'' v), os = as_string (get_opt ''os'' v),
      platform = as_string (get_opt ''platform'' v),
      platformVersion = as_string (get_opt ''platformVersion'' v),
      kernelVersion = as_string (get_opt ''kernelVersion'' v),
      architecture = as_string (get_opt ''architecture'' v),
      cpuModel = as_string (get_opt ''cpuModel'' v), cpuCores = as_number (get_opt ''cpuCores'' v),
      primaryIp = as_string (get_opt ''primaryIp'' v),
      bootTimeUnix = as_number (get_opt ''bootTimeUnix'' v),
      uptimeSeconds = as_number (get_opt ''uptimeSeconds'' v)\<rparr>"

definition disk_of_json :: "jv \<Rightarrow> disk_stats" where
  "disk_of_json v =
     \<lparr>mountpoint = as_string (get_opt ''mountpoint'' v),
      disk_totalBytes = as_number (get_opt ''totalBytes'' v),
      disk_usedBytes = as_number (get_opt ''usedBytes'' v)\<rparr>"

definition report_of_json :: "jv \<Rightarrow> agent_report" where
  "report_of_json v =
     (let c = get_opt ''cpu'' v; m = get_opt ''memory'' v; d = get_opt ''diskIo'' v;
          n = get_opt ''network'' v
      in \<lparr>collectedAtUnix = as_number (get_opt ''collectedAtUnix'' v),
          report_agentVersion = as_string (get_opt ''agentVersion'' v),
          host = host_of_json (get_opt ''host'' v),
          cpu = \<lparr>usagePercent = as_number (get_opt ''usagePercent'' c),
                 cpu_load1 = as_number (get_opt ''load1'' c),
                 cpu_load5 = as_number (get_opt ''load5'' c),
                 cpu_load15 = as_number (get_opt ''load15'' c)\<rparr>,
          memory = \<lparr>mem_totalBytes = as_number (get_opt ''totalBytes'' m),
                    mem_usedBytes = as_number (get_opt ''usedBytes'' m),
                    swapTotalBytes = as_number (get_opt ''swapTotalBytes'' m),
                    swapUsedBytes = as_number (get_opt ''swapUsedBytes'' m)\<rparr>,
          disks = (if is_array (get_opt ''disks'' v)
                   then Some (map disk_of_json (elements (get_opt ''disks'' v))) else None),
          diskIo = \<lparr>readBytesPerSecond = as_number (get_opt ''readBytesPerSecond'' d),
                    writeBytesPerSecond = as_number (get_opt ''writeBytesPerSecond'' d)\<rparr>,
          network = \<lparr>net_interface = as_string (get_opt ''interface'' n),
                     uploadBytesPerSecond = as_number (get_opt ''uploadBytesPerSecond'' n),
                     downloadBytesPerSecond = as_number (get_opt ''downloadBytesPerSecond'' n),
                     totalUploadBytes = as_number (get_opt ''totalUploadBytes'' n),
                     totalDownloadBytes = as_number (get_opt ''totalDownloadBytes'' n)\<rparr>\<rparr>)"

definition snapshot_of_json :: "jv \<Rightarrow> server_snapshot" where
  "snapshot_of_json v =
     \<lparr>serverId = as_number (get_opt ''serverId'' v), serverName = as_string (get_opt ''serverName'' v),
      online = as_bool (get_opt ''online'' v),
      lastReceivedAt = as_string (get_opt ''lastReceivedAt'' v),
      sourceIp = as_string (get_opt ''sourceIp'' v),
      report = report_of_json (get_opt ''report'' v)\<rparr>"

definition parseSnapshotEvent :: "string \<Rightarrow> server_snapshot option" where
  "parseSnapshotEvent event_data =
     (case json_parse event_data of
        None \<Rightarrow> None
      | Some v \<Rightarrow>
          (case get_prop ''type'' v of
             Throws \<Rightarrow> None
           | Returns t \<Rightarrow>
               if t \<noteq> JStr ''snapshot.updated'' \<and> t \<noteq> JStr ''snapshot.offline'' then None
               else if \<not> truthy (get_opt ''snapshot'' v) then None
               else case get_prop ''serverId'' (get_opt ''snapshot'' v) of
                      Returns (JNum _) \<Rightarrow> Some (snapshot_of_json (get_opt ''snapshot'' v))
                    | _ \<Rightarrow> None))"

section \<open>The hook\<close>

datatype load_status = LoadPending | LoadSuccess | LoadError

text \<open>
  \<open>setSnapshots\<close> is always called with a function, which React keeps in a queue and applies
  when it renders. The function of a load reads the map of revisions only then.
\<close>

datatype snapshot_update = Reconcile "server_snapshot list" nat | Merge server_snapshot

record live_state =
  snapshots :: "server_snapshot list"
  updates :: "snapshot_update list"
  liveConnected :: bool
  connectionFailed :: bool
  initialLoadStatus :: load_status
  live_error :: "string option"
  requestError :: "string option"
  mountedRef :: bool
  openedRef :: bool
  connectionFailedRef :: bool
  controllers :: "nat set"
  live_aborted :: "nat set"
  eventRevision :: nat
  serverEventRevisions :: revisions
  requestGeneration :: nat
  requests :: "nat \<rightharpoonup> nat"

definition initial_live :: live_state where
  "initial_live =
     \<lparr>snapshots = [], updates = [], liveConnected = False, connectionFailed = False,
      initialLoadStatus = LoadPending, live_error = None, requestError = None, mountedRef = True,
      openedRef = False, connectionFailedRef = False, controllers = {}, live_aborted = {},
      eventRevision = 0, serverEventRevisions = Map.empty, requestGeneration = 0,
      requests = Map.empty\<rparr>"

text \<open>
  \<open>Loaded\<close> and \<open>LoadFailed\<close> continue the \<open>refresh\<close> with the given generation, which also
  names its abort controller.
\<close>

datatype live_event =
    Mounted
  | Refresh
  | Loaded nat "server_snapshot list"
  | LoadFailed nat js_error
  | Message string
  | Opened
  | ConnectionLost
  | Unmounted
  | Rendered

definition refresh :: "live_state \<Rightarrow> live_state" where
  "refresh s =
     (let g = requestGeneration s + 1
      in s\<lparr>requestGeneration := g, controllers := insert g (controllers s),
           requests := (requests s)(g \<mapsto> eventRevision s)\<rparr>)"

definition end_request :: "nat \<Rightarrow> live_state \<Rightarrow> live_state" where
  "end_request g s = s\<lparr>controllers := controllers s - {g}\<rparr>"

definition unless_connection_error :: "string option \<Rightarrow> string option" where
  "unless_connection_error e = (if e = Some CONNECTION_ERROR then e else None)"

definition clear_connection_error :: "string option \<Rightarrow> string option" where
  "clear_connection_error e = (if e = Some CONNECTION_ERROR then None else e)"

definition loaded :: "nat \<Rightarrow> server_snapshot list \<Rightarrow> live_state \<Rightarrow> live_state" where
  "loaded g next_list s =
     (case requests s g of
        None \<Rightarrow> s
      | Some requestRevision \<Rightarrow>
          end_request g
            (if \<not> mountedRef s \<or> g \<noteq> requestGeneration s then s
             else s\<lparr>initialLoadStatus := LoadSuccess,
                    updates := updates s @ [Reconcile next_list requestRevision],
                    requestError := None,
                    live_error := unless_connection_error (live_error s)\<rparr>))"

definition load_failed :: "nat \<Rightarrow> js_error \<Rightarrow> live_state \<Rightarrow> live_state" where
  "load_failed g e s =
     (case requests s g of
        None \<Rightarrow> s
      | Some requestRevision \<Rightarrow>
          end_request g
            (if \<not> mountedRef s \<or> g \<in> live_aborted s \<or> g \<noteq> requestGeneration s then s
             else let message = apiErrorMessage e LOAD_ERROR
                  in s\<lparr>initialLoadStatus :=
                         (if initialLoadStatus s = LoadSuccess then LoadSuccess else LoadError),
                       requestError := Some message, live_error := Some message\<rparr>))"

definition handleSnapshot :: "string \<Rightarrow> live_state \<Rightarrow> live_state" where
  "handleSnapshot event_data s =
     (case parseSnapshotEvent event_data of
        None \<Rightarrow> s
      | Some snap \<Rightarrow>
          if \<not> mountedRef s then s
          else let r = eventRevision s + 1
               in s\<lparr>eventRevision := r,
                    serverEventRevisions := (serverEventRevisions s)(serverId snap \<mapsto> r),
                    updates := updates s @ [Merge snap]\<rparr>)"

definition on_open :: "live_state \<Rightarrow> live_state" where
  "on_open s =
     (if \<not> mountedRef s then s
      else let s1 = s\<lparr>liveConnected := True, connectionFailed := False,
                      live_error := clear_connection_error (live_error s)\<rparr>;
               s2 = (if openedRef s \<or> connectionFailedRef s then refresh s1 else s1)
           in s2\<lparr>openedRef := True, connectionFailedRef := False\<rparr>)"

definition on_error :: "live_state \<Rightarrow> live_state" where
  "on_error s =
     (if \<not> mountedRef s then s
      else s\<lparr>liveConnected := False, connectionFailed := True, connectionFailedRef := True,
             live_error := Some CONNECTION_ERROR\<rparr>)"

definition unmount :: "live_state \<Rightarrow> live_state" where
  "unmount s =
     s\<lparr>mountedRef := False, live_aborted := live_aborted s \<union> controllers s, controllers := {}\<rparr>"

fun apply_update ::
  "string compare_fun \<Rightarrow> revisions \<Rightarrow> snapshot_update \<Rightarrow> server_snapshot list \<Rightarrow> server_snapshot list"
where
  "apply_update lc revs (Reconcile next_list r) current = reconcileFetch lc current next_list revs r"
| "apply_update lc revs (Merge snap) current = mergeSnapshot lc current snap"

definition render :: "string compare_fun \<Rightarrow> live_state \<Rightarrow> live_state" where
  "render lc s =
     s\<lparr>snapshots := fold (apply_update lc (serverEventRevisions s)) (updates s) (snapshots s),
       updates := []\<rparr>"

fun live_step :: "string compare_fun \<Rightarrow> live_event \<Rightarrow> live_state \<Rightarrow> live_state" where
  "live_step lc Mounted s = refresh (s\<lparr>mountedRef := True\<rparr>)"
| "live_step lc Refresh s = refresh s"
| "live_step lc (Loaded g next_list) s = loaded g next_list s"
| "live_step lc (LoadFailed g e) s = load_failed g e s"
| "live_step lc (Message event_data) s = handleSnapshot event_data s"
| "live_step lc Opened s = on_open s"
| "live_step lc ConnectionLost s = on_error s"
| "live_step lc Unmounted s = unmount s"
| "live_step lc Rendered s = render lc s"

text \<open>
  What the two hooks return: the state of the last render, of which \<open>useServerSnapshots\<close> leaves out
  the last three fields. The function \<open>refresh\<close> is the event \<open>Refresh\<close>.
\<close>

record server_snapshots_state =
  hs_snapshots :: "server_snapshot list"
  hs_connected :: bool
  hs_error :: "string option"

record overview_snapshots_state = server_snapshots_state +
  hs_initialLoadStatus :: load_status
  hs_connectionFailed :: bool
  hs_requestError :: "string option"

definition useServerSnapshotsState :: "live_state \<Rightarrow> overview_snapshots_state" where
  "useServerSnapshotsState s =
     \<lparr>hs_snapshots = snapshots s, hs_connected = liveConnected s, hs_error = live_error s,
      hs_initialLoadStatus = initialLoadStatus s, hs_connectionFailed = connectionFailed s,
      hs_requestError = requestError s\<rparr>"

definition useServerSnapshots :: "live_state \<Rightarrow> server_snapshots_state" where
  "useServerSnapshots s =
     (let st = useServerSnapshotsState s
      in \<lparr>hs_snapshots = hs_snapshots st, hs_connected = hs_connected st, hs_error = hs_error st\<rparr>)"

definition useOverviewServerSnapshots :: "live_state \<Rightarrow> overview_snapshots_state" where
  "useOverviewServerSnapshots s = useServerSnapshotsState s"

end
