(* ===== verification/LiveProps.thy ===== *)
theory LiveProps
  imports LiveSnapshots
begin

text \<open>
  Correctness of the live snapshots: sorting, reconciliation, the refinement of an abstract map
  from server ids to snapshots by the queue of list updates, and the request discipline.
\<close>

section \<open>The comparison function\<close>

lemma compare_snapshots_order:
  assumes "js_order lc"
  shows "js_order (compare_snapshots lc)"
proof
  fix x y z :: server_snapshot
  show "compare_snapshots lc x y \<le> 0 \<or> compare_snapshots lc y x \<le> 0"
    using js_order.total [OF assms, of "serverName x" "serverName y"]
    by (simp add: compare_snapshots_def)
  assume "compare_snapshots lc x y \<le> 0" and "compare_snapshots lc y z \<le> 0"
  then show "compare_snapshots lc x z \<le> 0"
    using js_order.trans [OF assms, of "serverName x" "serverName y" "serverName z"]
    by (auto simp: compare_snapshots_def split: if_splits)
qed

text \<open>The order of the list as the reader sees it.\<close>

definition listed_before :: "string compare_fun \<Rightarrow> server_snapshot \<Rightarrow> server_snapshot \<Rightarrow> bool" where
  "listed_before lc l r \<longleftrightarrow>
     (online l \<longrightarrow> online r) \<and> (online l = online r \<longrightarrow> lc (serverName l) (serverName r) \<le> 0)"

lemma compare_snapshots_listed: "compare_snapshots lc l r \<le> 0 \<longleftrightarrow> listed_before lc l r"
  by (auto simp: compare_snapshots_def listed_before_def)

lemma sortSnapshots_sorted:
  assumes "js_order lc"
  shows "sorted_wrt (listed_before lc) (sortSnapshots lc snaps)"
proof -
  have "sorted_wrt (\<lambda>x y. compare_snapshots lc x y \<le> 0) (sortSnapshots lc snaps)"
    using js_order.ordered_js_sort [OF compare_snapshots_order [OF assms], of snaps]
    by (simp add: js_order.ordered_def [OF compare_snapshots_order [OF assms]] sortSnapshots_def)
  then show ?thesis by (simp add: compare_snapshots_listed)
qed

lemma sortSnapshots_simps [simp]:
  "set (sortSnapshots lc snaps) = set snaps" "mset (sortSnapshots lc snaps) = mset snaps"
  "distinct (map f (sortSnapshots lc snaps)) = distinct (map f snaps)"
  by (simp_all add: sortSnapshots_def)

section \<open>Lists with distinct ids as maps\<close>

abbreviation distinct_ids :: "server_snapshot list \<Rightarrow> bool" where
  "distinct_ids snaps \<equiv> distinct (map serverId snaps)"

definition snap_of :: "server_snapshot list \<Rightarrow> jsnum \<rightharpoonup> server_snapshot" where
  "snap_of snaps i = find (\<lambda>s. serverId s = i) snaps"

lemma snap_of_iff:
  assumes "distinct_ids snaps"
  shows "snap_of snaps i = Some s \<longleftrightarrow> s \<in> set snaps \<and> serverId s = i"
  using assms by (induction snaps) (auto simp: snap_of_def)

lemma snap_of_None: "snap_of snaps i = None \<longleftrightarrow> i \<notin> serverId ` set snaps"
  by (induction snaps) (auto simp: snap_of_def)

lemma snap_of_eqI:
  assumes "distinct_ids xs" and "\<And>s. s \<in> set xs \<and> serverId s = i \<longleftrightarrow> m = Some s"
  shows "snap_of xs i = m"
proof (cases m)
  case None
  then have "i \<notin> serverId ` set xs" using assms(2) by auto
  then show ?thesis using None snap_of_None by simp
next
  case (Some s)
  then show ?thesis using assms by (simp add: snap_of_iff)
qed

lemma snap_of_sort:
  assumes "distinct_ids snaps"
  shows "snap_of (sortSnapshots lc snaps) i = snap_of snaps i"
  using assms by (intro snap_of_eqI) (auto simp: snap_of_iff)

lemma snap_of_append_new:
  assumes "serverId s \<notin> serverId ` set snaps"
  shows "snap_of (snaps @ [s]) = (snap_of snaps)(serverId s \<mapsto> s)"
proof
  fix i
  show "snap_of (snaps @ [s]) i = ((snap_of snaps)(serverId s \<mapsto> s)) i"
    using assms by (induction snaps) (auto simp: snap_of_def)
qed

lemma by_id_distinct: "distinct_ids snaps \<Longrightarrow> by_id snaps = snap_of snaps"
proof (induction snaps rule: rev_induct)
  case Nil
  then show ?case by (simp add: by_id_def snap_of_def fun_eq_iff)
next
  case (snoc s snaps)
  have "by_id (snaps @ [s]) = (by_id snaps)(serverId s \<mapsto> s)" by (simp add: by_id_def)
  also have "\<dots> = (snap_of snaps)(serverId s \<mapsto> s)" using snoc by simp
  also have "\<dots> = snap_of (snaps @ [s])"
    using snoc.prems by (intro snap_of_append_new [symmetric]) simp
  finally show ?case .
qed

section \<open>Merging and reconciling\<close>

lemma js_eq_iff: "b \<noteq> NaN \<Longrightarrow> js_eq a b \<longleftrightarrow> a = b"
  by (cases a; cases b) simp_all

lemma find_index_None: "find_index p xs = None \<longleftrightarrow> (\<forall>x \<in> set xs. \<not> p x)"
  by (induction xs) auto

lemma find_index_Some: "find_index p xs = Some i \<Longrightarrow> i < length xs \<and> p (xs ! i)"
  by (induction xs arbitrary: i) (auto split: if_splits)

lemma mergeSnapshot_facts:
  assumes "distinct_ids snaps" and "serverId s \<noteq> NaN"
  shows "distinct_ids (mergeSnapshot lc snaps s) \<and>
    snap_of (mergeSnapshot lc snaps s) = (snap_of snaps)(serverId s \<mapsto> s)"
proof (cases "find_index (\<lambda>x. js_eq (serverId x) (serverId s)) snaps")
  case None
  then have new: "serverId s \<notin> serverId ` set snaps"
    using assms(2) by (auto simp: find_index_None js_eq_iff)
  then have d: "distinct_ids (snaps @ [s])" using assms(1) by simp
  show ?thesis
    using None d snap_of_sort [OF d] snap_of_append_new [OF new]
    by (simp add: mergeSnapshot_def fun_eq_iff)
next
  case (Some i)
  then have i: "i < length snaps" "serverId (snaps ! i) = serverId s"
    using find_index_Some assms(2) by (auto simp: js_eq_iff dest!: find_index_Some)
  have same: "map serverId (snaps[i := s]) = map serverId snaps"
    using i by (simp add: map_update list_update_same_conv)
  then have d: "distinct_ids (snaps[i := s])" using assms(1) by simp
  have other: "x \<in> set (snaps[i := s]) \<longleftrightarrow> x = s \<or> (x \<in> set snaps \<and> serverId x \<noteq> serverId s)" for x
  proof -
    have uniq: "serverId (snaps ! j) = serverId s \<longleftrightarrow> j = i" if "j < length snaps" for j
      using assms(1) i that nth_eq_iff_index_eq [of "map serverId snaps" j i] by simp
    show ?thesis
    proof
      assume "x \<in> set (snaps[i := s])"
      then obtain j where j: "j < length snaps" "x = snaps[i := s] ! j" by (auto simp: in_set_conv_nth)
      show "x = s \<or> (x \<in> set snaps \<and> serverId x \<noteq> serverId s)"
        using j i(1) uniq [OF j(1)] by (cases "j = i") simp_all
    next
      assume "x = s \<or> (x \<in> set snaps \<and> serverId x \<noteq> serverId s)"
      then show "x \<in> set (snaps[i := s])"
      proof
        assume "x = s"
        then show ?thesis using i(1) by (simp add: set_update_memI)
      next
        assume x: "x \<in> set snaps \<and> serverId x \<noteq> serverId s"
        then obtain j where j: "j < length snaps" "x = snaps ! j" by (auto simp: in_set_conv_nth)
        then have "snaps[i := s] ! j = x" using x uniq by simp
        then show ?thesis using j(1) by (metis length_list_update nth_mem)
      qed
    qed
  qed
  have "snap_of (snaps[i := s]) k = ((snap_of snaps)(serverId s \<mapsto> s)) k" for k
    using d assms(1) by (intro snap_of_eqI) (auto simp: snap_of_iff other)
  then show ?thesis
    using Some d snap_of_sort [OF d] by (simp add: mergeSnapshot_def fun_eq_iff)
qed

text \<open>The map a reconciliation computes.\<close>

definition reconciled_map ::
  "(jsnum \<rightharpoonup> server_snapshot) \<Rightarrow> server_snapshot list \<Rightarrow> revisions \<Rightarrow> nat \<Rightarrow> jsnum \<rightharpoonup> server_snapshot" where
  "reconciled_map m fetched revs r i =
     (if newer_event revs r i \<and> m i \<noteq> None then m i else snap_of fetched i)"

lemma reconcileFetch_facts:
  assumes "distinct_ids current" and "distinct_ids fetched"
  shows "distinct_ids (reconcileFetch lc current fetched revs r) \<and>
    snap_of (reconcileFetch lc current fetched revs r) = reconciled_map (snap_of current) fetched revs r"
proof -
  define pick where "pick = (\<lambda>incoming. case snap_of current (serverId incoming) of
      None \<Rightarrow> incoming
    | Some existing \<Rightarrow> if newer_event revs r (serverId incoming) then existing else incoming)"
  define kept where "kept = filter (\<lambda>e. serverId e \<notin> serverId ` set fetched \<and>
      newer_event revs r (serverId e)) current"
  have pick_id: "serverId (pick x) = serverId x" for x
    using assms(1) by (auto simp: pick_def snap_of_iff split: option.splits)
  have result: "reconcileFetch lc current fetched revs r = sortSnapshots lc (map pick fetched @ kept)"
    unfolding reconcileFetch_def by_id_distinct [OF assms(1)] Let_def pick_def kept_def ..
  have ids: "map serverId (map pick fetched) = map serverId fetched"
    by (simp add: pick_id)
  have "distinct_ids kept" using assms(1) by (simp add: kept_def distinct_map_filter)
  moreover have "serverId ` set kept \<inter> serverId ` set fetched = {}" by (auto simp: kept_def)
  ultimately have d: "distinct_ids (map pick fetched @ kept)"
    using assms(2) ids by (simp only: map_append distinct_append) (auto simp: pick_id)
  have "snap_of (map pick fetched @ kept) i = reconciled_map (snap_of current) fetched revs r i" for i
  proof (rule snap_of_eqI [OF d])
    fix s
    show "s \<in> set (map pick fetched @ kept) \<and> serverId s = i \<longleftrightarrow>
        reconciled_map (snap_of current) fetched revs r i = Some s"
    proof (cases "snap_of fetched i")
      case None
      then have "i \<notin> serverId ` set fetched" by (simp add: snap_of_None)
      then have "s \<in> set (map pick fetched @ kept) \<and> serverId s = i \<longleftrightarrow> s \<in> set kept \<and> serverId s = i"
        using pick_id by force
      also have "\<dots> \<longleftrightarrow> newer_event revs r i \<and> snap_of current i = Some s"
        using \<open>i \<notin> serverId ` set fetched\<close> by (auto simp: kept_def snap_of_iff [OF assms(1)])
      finally show ?thesis using None by (auto simp: reconciled_map_def)
    next
      case (Some f)
      then have f: "f \<in> set fetched" "serverId f = i" using assms(2) by (simp_all add: snap_of_iff)
      have "s \<in> set (map pick fetched @ kept) \<and> serverId s = i \<longleftrightarrow> s = pick f"
      proof
        assume s: "s \<in> set (map pick fetched @ kept) \<and> serverId s = i"
        have "s \<notin> set kept" using s f by (auto simp: kept_def)
        then obtain g where g: "g \<in> set fetched" "s = pick g" using s by auto
        then have "serverId g = i" using s pick_id by simp
        then have "snap_of fetched i = Some g" using g(1) assms(2) by (simp add: snap_of_iff)
        with Some g show "s = pick f" by simp
      next
        assume "s = pick f"
        with f pick_id show "s \<in> set (map pick fetched @ kept) \<and> serverId s = i" by auto
      qed
      then show ?thesis
        using Some f by (auto simp: reconciled_map_def pick_def split: option.splits)
    qed
  qed
  then show ?thesis
    using d snap_of_sort [OF d] by (simp add: result fun_eq_iff)
qed

section \<open>Runs of the hook\<close>

text \<open>Ids of parsed events are numbers that JSON can write.\<close>

lemma fl_not_NaN: "fl x \<noteq> NaN"
  by (simp add: fl_def Let_def)

fun no_nan :: "jv \<Rightarrow> bool" where
  "no_nan (JNum x) = (x \<noteq> NaN)"
| "no_nan (JArr vs) = list_all no_nan vs"
| "no_nan (JObj fs) = list_all (\<lambda>(k, v). no_nan v) fs"
| "no_nan _ = True"

lemma parse_number_no_nan: "parse_number s = Some (v, r) \<Longrightarrow> no_nan v"
  by (auto simp: parse_number_def Let_def fl_not_NaN split: if_splits option.splits prod.splits list.splits)

lemma literal_no_nan: "literal w v s = Some (u, r) \<Longrightarrow> no_nan v \<Longrightarrow> no_nan u"
  by (simp add: literal_def split: if_splits)

lemma put_field_no_nan:
  "list_all (\<lambda>(k, v). no_nan v) fs \<Longrightarrow> no_nan (snd f) \<Longrightarrow> list_all (\<lambda>(k, v). no_nan v) (put_field fs f)"
  by (induction fs) (auto simp: case_prod_beta)

lemma put_fields_no_nan:
  "list_all (\<lambda>(k, v). no_nan v) gs \<Longrightarrow> list_all (\<lambda>(k, v). no_nan v) fs \<Longrightarrow>
     list_all (\<lambda>(k, v). no_nan v) (foldl put_field fs gs)"
  by (induction gs arbitrary: fs) (auto simp: put_field_no_nan case_prod_beta)

lemma parse_no_nan:
  "parse_value n s = Some (v, r) \<Longrightarrow> no_nan v"
  "parse_elements n s = Some (vs, r) \<Longrightarrow> list_all no_nan vs"
  "parse_members n s = Some (fs, r) \<Longrightarrow> list_all (\<lambda>(k, v). no_nan v) fs"
proof (induction n s and n s and n s arbitrary: v r and vs r and fs r
    rule: parse_value_parse_elements_parse_members.induct)
  case (2 n s)
  from "2.prems" obtain c q where c: "skip_space s = c # q" by (auto split: list.splits)
  show ?case
  proof (cases "c = quote_mark \<or> c = CHR ''['' \<or> c = CHR ''{''")
    case True
    with 2 c show ?thesis
      by (auto simp: quote_mark_def put_fields_no_nan split: if_splits list.splits)
  next
    case False
    then have "literal ''null'' JNull (c # q) = Some (v, r) \<or> literal ''true'' (JBool True) (c # q) = Some (v, r) \<or>
        literal ''false'' (JBool False) (c # q) = Some (v, r) \<or> parse_number (c # q) = Some (v, r)"
      using "2.prems" c by (auto split: if_splits)
    then show ?thesis
      using literal_no_nan [of _ JNull] literal_no_nan [of _ "JBool True"] literal_no_nan [of _ "JBool False"]
        parse_number_no_nan by auto
  qed
next
  case (4 n s)
  then show ?case by (auto split: option.splits list.splits if_splits)
next
  case (6 n s)
  then show ?case by (fastforce split: option.splits list.splits if_splits)
qed simp_all

lemma get_opt_no_nan: "no_nan v \<Longrightarrow> no_nan (get_opt k v)"
proof (cases v)
  case (JObj fs)
  assume "no_nan v"
  then show ?thesis
    using JObj by (cases "map_of fs k") (auto simp: list_all_iff dest!: map_of_SomeD)
qed simp_all

lemma parseSnapshotEvent_id: "parseSnapshotEvent d = Some s \<Longrightarrow> serverId s \<noteq> NaN"
proof -
  assume p: "parseSnapshotEvent d = Some s"
  then obtain v x where v: "json_parse d = Some v" and s: "s = snapshot_of_json (get_opt ''snapshot'' v)"
      and x: "get_prop ''serverId'' (get_opt ''snapshot'' v) = Returns (JNum x)"
    by (auto simp: parseSnapshotEvent_def split: option.splits completion.splits if_splits jv.splits)
  have "no_nan v" using v parse_no_nan(1) by (auto simp: json_parse_def simp del: parse_value.simps split: option.splits if_splits)
  then have "no_nan (get_opt ''serverId'' (get_opt ''snapshot'' v))" by (intro get_opt_no_nan)
  moreover have "get_opt ''serverId'' (get_opt ''snapshot'' v) = JNum x"
    using x by (cases "get_opt ''snapshot'' v") simp_all
  ultimately show ?thesis using s by (simp add: snapshot_of_json_def)
qed

text \<open>The server never lists a server twice.\<close>

fun event_ok :: "live_event \<Rightarrow> bool" where
  "event_ok (Loaded g next_list) = distinct_ids next_list"
| "event_ok _ = True"

inductive live_run :: "string compare_fun \<Rightarrow> live_state \<Rightarrow> bool" for lc where
  started: "live_run lc initial_live"
| stepped: "live_run lc s \<Longrightarrow> event_ok e \<Longrightarrow> live_run lc (live_step lc e s)"

fun update_ok :: "snapshot_update \<Rightarrow> bool" where
  "update_ok (Reconcile next_list r) = distinct_ids next_list"
| "update_ok (Merge s) = (serverId s \<noteq> NaN)"

definition list_ok :: "live_state \<Rightarrow> bool" where
  "list_ok s \<longleftrightarrow> distinct_ids (snapshots s) \<and> list_all update_ok (updates s)"

lemma apply_update_facts:
  assumes "distinct_ids cur" and "update_ok u"
  shows "distinct_ids (apply_update lc revs u cur)"
    and "snap_of (apply_update lc revs u cur) =
      (case u of Reconcile next_list r \<Rightarrow> reconciled_map (snap_of cur) next_list revs r
       | Merge s \<Rightarrow> (snap_of cur)(serverId s \<mapsto> s))"
  using assms mergeSnapshot_facts reconcileFetch_facts by (cases u; simp)+

lemma fold_updates_distinct:
  "distinct_ids cur \<Longrightarrow> list_all update_ok us \<Longrightarrow> distinct_ids (fold (apply_update lc revs) us cur)"
  by (induction us arbitrary: cur) (simp_all add: apply_update_facts)

lemma list_ok_refresh: "list_ok (refresh s) = list_ok s"
  by (simp add: refresh_def list_ok_def Let_def)

lemma list_ok_step:
  assumes "list_ok s" and "event_ok e"
  shows "list_ok (live_step lc e s)"
proof (cases e)
  case (Loaded g next_list)
  with assms show ?thesis
    by (auto simp: list_ok_def loaded_def end_request_def split: option.splits)
next
  case (LoadFailed g err)
  with assms show ?thesis
    by (auto simp: list_ok_def load_failed_def end_request_def Let_def split: option.splits)
next
  case (Message d)
  with assms show ?thesis
    by (auto simp: list_ok_def handleSnapshot_def Let_def parseSnapshotEvent_id split: option.splits)
next
  case Opened
  have "list_ok (s\<lparr>liveConnected := a, connectionFailed := b, live_error := c\<rparr>)" for a b c
    using assms(1) by (simp add: list_ok_def)
  moreover have "list_ok (x\<lparr>openedRef := a, connectionFailedRef := b\<rparr>) = list_ok x" for x a b
    by (simp add: list_ok_def)
  ultimately show ?thesis using Opened assms by (simp add: on_open_def Let_def list_ok_refresh)
next
  case Rendered
  with assms show ?thesis by (simp add: list_ok_def render_def fold_updates_distinct)
next
  case Mounted
  have "list_ok (s\<lparr>mountedRef := True\<rparr>)" using assms(1) by (simp add: list_ok_def)
  with Mounted show ?thesis by (simp add: list_ok_refresh)
qed (use assms in \<open>simp_all add: list_ok_def on_error_def unmount_def list_ok_refresh [unfolded list_ok_def]\<close>)

lemma live_run_list_ok: "live_run lc s \<Longrightarrow> list_ok s"
  by (induction rule: live_run.induct) (simp_all add: list_ok_step, simp add: list_ok_def initial_live_def)

end
