(* ===== verification/LiveTheorems.thy ===== *)
theory LiveTheorems
  imports LiveProps
begin

text \<open>The properties of the live snapshots, over the facts of \<^verbatim>\<open>LiveProps\<close>.\<close>

section \<open>A run for the examples\<close>

definition server_a :: server_snapshot where "server_a = sample_snapshot 1 ''a'' True"
definition server_b :: server_snapshot where "server_b = sample_snapshot 2 ''bb'' False"

definition sample_loaded :: live_state where
  "sample_loaded =
     fold (live_step by_length) [Mounted, Opened, Loaded 1 [server_a, server_b], Rendered] initial_live"

lemma server_ids [simp]:
  "serverId server_a = Fin 1" "serverId server_b = Fin 2" "online server_a" "\<not> online server_b"
  by (simp_all add: server_a_def server_b_def)

lemma live_run_fold: "live_run lc s \<Longrightarrow> list_all event_ok es \<Longrightarrow> live_run lc (fold (live_step lc) es s)"
  by (induction es arbitrary: s) (simp_all add: live_run.stepped)

lemma sample_loaded_run: "live_run by_length sample_loaded"
  unfolding sample_loaded_def by (rule live_run_fold [OF live_run.started]) simp

section \<open>Order of the list\<close>

definition sorted_ok :: "string compare_fun \<Rightarrow> live_state \<Rightarrow> bool" where
  "sorted_ok lc s \<longleftrightarrow> sorted_wrt (listed_before lc) (snapshots s)"

lemma apply_update_sorted:
  assumes "js_order lc"
  shows "sorted_wrt (listed_before lc) (apply_update lc revs u cur)"
  by (cases u)
    (simp_all add: reconcileFetch_def Let_def mergeSnapshot_def sortSnapshots_sorted [OF assms]
      split: option.split)

lemma fold_updates_sorted:
  assumes "js_order lc" and "sorted_wrt (listed_before lc) cur"
  shows "sorted_wrt (listed_before lc) (fold (apply_update lc revs) us cur)"
  using assms(2) by (induction us arbitrary: cur) (simp_all add: apply_update_sorted [OF assms(1)])

lemma snapshots_step:
  "snapshots (live_step lc e s) =
     (if e = Rendered then fold (apply_update lc (serverEventRevisions s)) (updates s) (snapshots s)
      else snapshots s)"
  by (cases e)
    (simp_all add: refresh_def loaded_def load_failed_def end_request_def handleSnapshot_def
      on_open_def on_error_def unmount_def render_def Let_def split: option.split)

lemma live_run_sorted:
  assumes "js_order lc" and "live_run lc s"
  shows "sorted_ok lc s"
  using assms(2)
proof (induction rule: live_run.induct)
  case started
  show ?case by (simp add: sorted_ok_def initial_live_def)
next
  case (stepped s e)
  then show ?case
    using fold_updates_sorted [OF assms(1)] by (simp add: sorted_ok_def snapshots_step)
qed

text \<open>
  In every reachable state the list of servers has no server twice, the servers that are
  offline come first, and within each group the names are in the order of the collation. This
  holds after any interleaving of loads, events, reconnections and renders.
\<close>

lemma live_list_sorted_and_distinct:
  assumes "js_order lc" and "live_run lc s"
  shows "distinct (map serverId (snapshots s)) \<and>
    sorted_wrt (\<lambda>l r. (online l \<longrightarrow> online r) \<and>
      (online l = online r \<longrightarrow> lc (serverName l) (serverName r) \<le> 0)) (snapshots s)"
  using live_run_list_ok [OF assms(2)] live_run_sorted [OF assms]
  by (simp add: list_ok_def sorted_ok_def listed_before_def [abs_def])

section \<open>The list as a map from servers to their snapshots\<close>

text \<open>
  What the list will show once React has applied the queue, as a map; and the specification:
  an accepted load replaces the map except for servers with an event newer than the load, and
  an event sets its server's snapshot.
\<close>

definition shown_map :: "string compare_fun \<Rightarrow> live_state \<Rightarrow> jsnum \<rightharpoonup> server_snapshot" where
  "shown_map lc s = snap_of (fold (apply_update lc (serverEventRevisions s)) (updates s) (snapshots s))"

fun map_step :: "live_event \<Rightarrow> live_state \<Rightarrow> (jsnum \<rightharpoonup> server_snapshot) \<Rightarrow> jsnum \<rightharpoonup> server_snapshot" where
  "map_step (Loaded g next_list) s m =
     (case requests s g of
        Some r \<Rightarrow>
          if mountedRef s \<and> g = requestGeneration s
          then (\<lambda>i. if newer_event (serverEventRevisions s) r i \<and> m i \<noteq> None then m i
                    else snap_of next_list i)
          else m
      | None \<Rightarrow> m)"
| "map_step (Message d) s m =
     (case parseSnapshotEvent d of
        Some snap \<Rightarrow> if mountedRef s then m(serverId snap \<mapsto> snap) else m
      | None \<Rightarrow> m)"
| "map_step _ s m = m"

lemma apply_update_local:
  assumes "distinct_ids cur" and "distinct_ids cur'" and "update_ok u"
    and "snap_of cur i = snap_of cur' i" and "revs i = revs' i"
  shows "snap_of (apply_update lc revs u cur) i = snap_of (apply_update lc revs' u cur') i"
  using assms by (cases u) (auto simp: apply_update_facts reconciled_map_def newer_event_def simp del: apply_update.simps)

lemma fold_updates_local:
  assumes "distinct_ids cur" and "distinct_ids cur'" and "list_all update_ok us"
    and "snap_of cur i = snap_of cur' i" and "revs i = revs' i"
  shows "snap_of (fold (apply_update lc revs) us cur) i = snap_of (fold (apply_update lc revs') us cur') i"
  using assms
proof (induction us arbitrary: cur cur')
  case Nil
  then show ?case by simp
next
  case (Cons u us)
  have "update_ok u" "list_all update_ok us" using Cons.prems(3) by simp_all
  then have "snap_of (fold (apply_update lc revs) us (apply_update lc revs u cur)) i =
      snap_of (fold (apply_update lc revs') us (apply_update lc revs' u cur')) i"
    by (intro Cons.IH apply_update_facts(1) apply_update_local Cons.prems)
  then show ?case by simp
qed

lemma shown_map_cong:
  "snapshots s' = snapshots s \<Longrightarrow> updates s' = updates s \<Longrightarrow>
   serverEventRevisions s' = serverEventRevisions s \<Longrightarrow> shown_map lc s' = shown_map lc s"
  by (simp add: shown_map_def)

lemma refresh_simps [simp]:
  "snapshots (refresh s) = snapshots s" "updates (refresh s) = updates s"
  "serverEventRevisions (refresh s) = serverEventRevisions s"
  "mountedRef (refresh s) = mountedRef s" "eventRevision (refresh s) = eventRevision s"
  "requestGeneration (refresh s) = requestGeneration s + 1"
  "liveConnected (refresh s) = liveConnected s" "connectionFailed (refresh s) = connectionFailed s"
  "connectionFailedRef (refresh s) = connectionFailedRef s" "openedRef (refresh s) = openedRef s"
  "initialLoadStatus (refresh s) = initialLoadStatus s" "live_error (refresh s) = live_error s"
  "requests (refresh s) = (requests s)(requestGeneration s + 1 \<mapsto> eventRevision s)"
  by (simp_all add: refresh_def Let_def)

lemma live_step_frame:
  assumes "case e of Loaded _ _ \<Rightarrow> False | Message _ \<Rightarrow> False | Rendered \<Rightarrow> False | _ \<Rightarrow> True"
  shows "snapshots (live_step lc e s) = snapshots s" "updates (live_step lc e s) = updates s"
    "serverEventRevisions (live_step lc e s) = serverEventRevisions s"
  using assms
  by (cases e; simp add: load_failed_def end_request_def on_open_def on_error_def unmount_def Let_def
      split: option.split)+

text \<open>Each reaction, on what will be shown.\<close>

lemma shown_map_step:
  assumes "live_run lc s" and "event_ok e"
  shows "shown_map lc (live_step lc e s) = map_step e s (shown_map lc s) \<and>
    snap_of (snapshots (live_step lc Rendered s)) = shown_map lc s"
proof
  show "snap_of (snapshots (live_step lc Rendered s)) = shown_map lc s"
    by (simp add: shown_map_def render_def)
  have ok: "distinct_ids (snapshots s)" "list_all update_ok (updates s)"
    using live_run_list_ok [OF assms(1)] by (simp_all add: list_ok_def)
  define cur where "cur = fold (apply_update lc (serverEventRevisions s)) (updates s) (snapshots s)"
  have cur: "distinct_ids cur" "shown_map lc s = snap_of cur"
    using ok by (simp_all add: cur_def fold_updates_distinct shown_map_def)
  show "shown_map lc (live_step lc e s) = map_step e s (shown_map lc s)"
  proof (cases e)
    case (Loaded g next_list)
    have "snap_of (apply_update lc (serverEventRevisions s) (Reconcile next_list r) cur) =
        reconciled_map (snap_of cur) next_list (serverEventRevisions s) r" for r
      using apply_update_facts(2) [OF cur(1), of "Reconcile next_list r"] assms(2) Loaded by simp
    then show ?thesis
      using Loaded
      by (simp add: shown_map_def loaded_def end_request_def cur_def reconciled_map_def [abs_def]
          split: option.split)
  next
    case (Message d)
    show ?thesis
    proof (cases "parseSnapshotEvent d")
      case None
      then show ?thesis using Message by (simp add: handleSnapshot_def)
    next
      case (Some snap)
      show ?thesis
      proof (cases "mountedRef s")
        case False
        then show ?thesis using Message Some by (simp add: handleSnapshot_def)
      next
        case True
        define revs where "revs = (serverEventRevisions s)(serverId snap \<mapsto> eventRevision s + 1)"
        define cur' where "cur' = fold (apply_update lc revs) (updates s) (snapshots s)"
        have d': "distinct_ids cur'" using ok by (simp add: cur'_def fold_updates_distinct)
        have id: "serverId snap \<noteq> NaN" by (rule parseSnapshotEvent_id [OF Some])
        have "shown_map lc (live_step lc e s) = snap_of (apply_update lc revs (Merge snap) cur')"
          using Message Some True by (simp add: shown_map_def handleSnapshot_def Let_def revs_def cur'_def)
        also have "\<dots> = (snap_of cur')(serverId snap \<mapsto> snap)"
          using apply_update_facts(2) [OF d', of "Merge snap"] id by simp
        also have "\<dots> = (snap_of cur)(serverId snap \<mapsto> snap)"
        proof
          fix i
          have "snap_of cur' i = snap_of cur i" if "i \<noteq> serverId snap"
            unfolding cur'_def cur_def using ok that by (intro fold_updates_local) (simp_all add: revs_def)
          then show "((snap_of cur')(serverId snap \<mapsto> snap)) i = ((snap_of cur)(serverId snap \<mapsto> snap)) i"
            by simp
        qed
        finally show ?thesis using Message Some True cur(2) by simp
      qed
    qed
  next
    case Rendered
    then show ?thesis by (simp add: shown_map_def render_def)
  qed (use live_step_frame [of e lc s] in \<open>simp_all add: shown_map_def\<close>)
qed

text \<open>
  C17: the list refines the map. Each reaction of the hook acts on what will be shown exactly
  as the specification acts on the map, although React applies the queued updates later, and
  the update of a load reads the revisions only then; a render shows that map.
\<close>

theorem live_list_refines_map:
  assumes "live_run lc s" and "event_ok e"
  shows "shown_map lc (live_step lc e s) = map_step e s (shown_map lc s) \<and>
    snap_of (snapshots (live_step lc Rendered s)) = shown_map lc s"
  using shown_map_step [OF assms] .

definition sample_message :: string where
  "sample_message =
     stringify (JObj [(''type'', JStr ''snapshot.updated''),
       (''snapshot'', JObj [(''serverId'', JNum (Fin 2)), (''serverName'', JStr ''bb''),
                            (''online'', JBool True)])])"

lemma sample_message_snapshot:
  obtains snap where "parseSnapshotEvent sample_message = Some snap" and "serverId snap = Fin 2"
    and "online snap"
proof
  define v where "v = JObj [(''type'', JStr ''snapshot.updated''),
       (''snapshot'', JObj [(''serverId'', JNum (Fin 2)), (''serverName'', JStr ''bb''),
                            (''online'', JBool True)])]"
  have "json_parse sample_message = Some v"
    unfolding sample_message_def v_def [symmetric]
    by (rule stringify_round_trip) (simp add: v_def max_safe_def)
  then show "parseSnapshotEvent sample_message = Some (snapshot_of_json (get_opt ''snapshot'' v))"
    by (simp add: parseSnapshotEvent_def v_def)
  show "serverId (snapshot_of_json (get_opt ''snapshot'' v)) = Fin 2"
    "online (snapshot_of_json (get_opt ''snapshot'' v))"
    by (simp_all add: v_def snapshot_of_json_def)
qed

lemma sample_loaded_mounted: "mountedRef sample_loaded"
  by (simp add: sample_loaded_def initial_live_def loaded_def end_request_def on_open_def render_def Let_def)

theorem live_list_refines_map_witness:
  "\<exists>snap. shown_map by_length (live_step by_length (Message sample_message) sample_loaded) (Fin 2) = Some snap \<and>
     online snap"
proof -
  obtain snap where snap: "parseSnapshotEvent sample_message = Some snap" "serverId snap = Fin 2" "online snap"
    by (rule sample_message_snapshot)
  have "event_ok (Message sample_message)" by simp
  from live_list_refines_map [OF sample_loaded_run this] show ?thesis
    using snap sample_loaded_mounted by simp
qed

section \<open>A load with nothing newer\<close>

definition revisions_ok :: "live_state \<Rightarrow> bool" where
  "revisions_ok s \<longleftrightarrow>
     (\<forall>i r. serverEventRevisions s i = Some r \<longrightarrow> r \<le> eventRevision s) \<and>
     (\<forall>g r. requests s g = Some r \<longrightarrow> g \<le> requestGeneration s \<and> r \<le> eventRevision s)"

lemma revisions_ok_refresh: "revisions_ok s \<Longrightarrow> revisions_ok (refresh s)"
  by (auto simp: revisions_ok_def le_SucI)

lemma revisions_ok_cong:
  "revisions_ok s \<Longrightarrow> serverEventRevisions s' = serverEventRevisions s \<Longrightarrow>
   eventRevision s' = eventRevision s \<Longrightarrow> requests s' = requests s \<Longrightarrow>
   requestGeneration s' = requestGeneration s \<Longrightarrow> revisions_ok s'"
  by (simp add: revisions_ok_def)

lemma revisions_ok_step:
  assumes "revisions_ok s"
  shows "revisions_ok (live_step lc e s)"
proof (cases e)
  case Mounted
  have "revisions_ok (s\<lparr>mountedRef := True\<rparr>)" by (rule revisions_ok_cong [OF assms]) simp_all
  with Mounted show ?thesis by (simp add: revisions_ok_refresh)
next
  case (Message d)
  show ?thesis
  proof (cases "parseSnapshotEvent d")
    case None
    then show ?thesis using Message assms by (simp add: handleSnapshot_def)
  next
    case (Some snap)
    then show ?thesis
      using Message assms by (auto simp: handleSnapshot_def revisions_ok_def Let_def le_SucI)
  qed
next
  case Opened
  show ?thesis
  proof (cases "mountedRef s")
    case True
    define s1 where "s1 = s\<lparr>liveConnected := True, connectionFailed := False,
        live_error := clear_connection_error (live_error s)\<rparr>"
    have "revisions_ok s1" by (rule revisions_ok_cong [OF assms]) (simp_all add: s1_def)
    then have "revisions_ok (if openedRef s \<or> connectionFailedRef s then refresh s1 else s1)"
      by (simp add: revisions_ok_refresh)
    then show ?thesis
      using True Opened by (auto simp: on_open_def s1_def [symmetric] Let_def intro: revisions_ok_cong)
  qed (use Opened assms in \<open>simp add: on_open_def\<close>)
next
  case Refresh
  with assms show ?thesis by (simp add: revisions_ok_refresh)
qed (rule revisions_ok_cong [OF assms];
     simp add: loaded_def load_failed_def end_request_def on_error_def unmount_def render_def Let_def
       split: option.split)+

lemma live_run_revisions: "live_run lc s \<Longrightarrow> revisions_ok s"
  by (induction rule: live_run.induct)
    (simp_all add: revisions_ok_step, simp add: revisions_ok_def initial_live_def)

text \<open>
  When the latest load comes back and no event has arrived since it was sent, the next
  render shows exactly the loaded list in its order: servers that the server no longer lists
  are gone, whatever was shown or queued before.
\<close>

lemma quiet_load_shows_fetched_list:
  assumes "live_run lc s" and "mountedRef s"
    and "requests s (requestGeneration s) = Some (eventRevision s)"
  shows "snapshots (live_step lc Rendered (live_step lc (Loaded (requestGeneration s) fetched) s)) =
    sortSnapshots lc fetched"
proof -
  define cur where "cur = fold (apply_update lc (serverEventRevisions s)) (updates s) (snapshots s)"
  have old: "\<not> newer_event (serverEventRevisions s) (eventRevision s) i" for i
    using live_run_revisions [OF assms(1)]
    by (cases "serverEventRevisions s i") (auto simp: newer_event_def revisions_ok_def not_less)
  have "map (\<lambda>incoming. case by_id cur (serverId incoming) of None \<Rightarrow> incoming
      | Some existing \<Rightarrow>
          if newer_event (serverEventRevisions s) (eventRevision s) (serverId incoming)
          then existing else incoming) fetched = fetched"
    by (rule map_idI) (simp add: old split: option.split)
  then have "reconcileFetch lc cur fetched (serverEventRevisions s) (eventRevision s) = sortSnapshots lc fetched"
    by (simp add: reconcileFetch_def Let_def old)
  then show ?thesis
    using assms(2,3) by (simp add: loaded_def end_request_def render_def cur_def)
qed

section \<open>Superseded and abandoned requests\<close>

fun settles_live :: "live_event \<Rightarrow> nat option" where
  "settles_live (Loaded g next_list) = Some g"
| "settles_live (LoadFailed g e) = Some g"
| "settles_live _ = None"

fun begins_live :: "live_event \<Rightarrow> live_state \<Rightarrow> bool" where
  "begins_live Mounted s = True"
| "begins_live Refresh s = True"
| "begins_live Opened s = (mountedRef s \<and> (openedRef s \<or> connectionFailedRef s))"
| "begins_live _ s = False"

text \<open>Everything but the set of controllers, which the \<open>finally\<close> block tidies up.\<close>

definition visible_live :: "live_state \<Rightarrow> live_state" where
  "visible_live s = s\<lparr>controllers := {}\<rparr>"

interpretation live_requests: latest_wins
  "\<lambda>_. True" requestGeneration "live_step lc" begins_live settles_live visible_live
proof unfold_locales
  fix e s
  show "requestGeneration s \<le> requestGeneration (live_step lc e s)"
    by (cases e) (simp_all add: loaded_def load_failed_def end_request_def handleSnapshot_def
        on_open_def on_error_def unmount_def render_def Let_def split: option.split)
  show "begins_live e s \<Longrightarrow> requestGeneration s < requestGeneration (live_step lc e s)"
    by (cases e) (simp_all add: on_open_def Let_def)
  fix g
  assume "settles_live e = Some g" and "g \<noteq> requestGeneration s"
  then show "visible_live (live_step lc e s) = visible_live s"
    by (cases e) (simp_all add: loaded_def load_failed_def end_request_def visible_live_def split: option.split)
qed simp

text \<open>
  Once a later refresh has begun, by hand or because the connection came back, the answer
  or the failure of an earlier one changes nothing but the set of open controllers, in whatever
  order they arrive; and while the component is unmounted no answer, event or change of the
  connection changes anything either.
\<close>

lemma superseded_load_ignored:
  assumes "settles_live answer = Some g"
  shows "(g \<le> requestGeneration s \<and> begins_live b s \<longrightarrow>
      visible_live (fold (live_step lc) (b # es @ [answer]) s) =
      visible_live (fold (live_step lc) (b # es) s)) \<and>
    (\<not> mountedRef s \<longrightarrow>
      (\<forall>e \<in> {answer, Message d, Opened, ConnectionLost}. visible_live (live_step lc e s) = visible_live s))"
proof (intro conjI impI ballI)
  assume "g \<le> requestGeneration s \<and> begins_live b s"
  then show "visible_live (fold (live_step lc) (b # es @ [answer]) s) =
      visible_live (fold (live_step lc) (b # es) s)"
    using live_requests.superseded [OF TrueI _ _ assms] by blast
next
  fix e
  assume "\<not> mountedRef s" and "e \<in> {answer, Message d, Opened, ConnectionLost}"
  then show "visible_live (live_step lc e s) = visible_live s"
    using assms
    by (cases e) (auto simp: loaded_def load_failed_def end_request_def handleSnapshot_def
        on_open_def on_error_def visible_live_def split: option.split)
qed

section \<open>What the status says\<close>

definition status_ok :: "live_state \<Rightarrow> bool" where
  "status_ok s \<longleftrightarrow>
     connectionFailed s = connectionFailedRef s \<and> \<not> (liveConnected s \<and> connectionFailed s) \<and>
     (liveConnected s \<longrightarrow> openedRef s) \<and>
     (initialLoadStatus s = LoadPending \<longrightarrow> requestError s = None) \<and>
     (initialLoadStatus s = LoadError \<longrightarrow> requestError s \<noteq> None)"

lemma status_ok_step: "status_ok s \<Longrightarrow> status_ok (live_step lc e s)"
  by (cases e)
    (auto simp: status_ok_def refresh_def loaded_def load_failed_def end_request_def handleSnapshot_def
      on_open_def on_error_def unmount_def render_def Let_def split: option.splits)

lemma live_run_status: "live_run lc s \<Longrightarrow> status_ok s"
  by (induction rule: live_run.induct)
    (simp_all add: status_ok_step, simp add: status_ok_def initial_live_def)

text \<open>
  The page is never told that the live connection is up and lost at once; a first load that
  failed always has a message of the request, one that is pending has none, and a first load
  that succeeded stays so for ever.
\<close>

lemma live_status_consistent:
  assumes "live_run lc s"
  shows "\<not> (liveConnected s \<and> connectionFailed s) \<and>
    (liveConnected s \<longrightarrow> openedRef s) \<and> connectionFailedRef s = connectionFailed s \<and>
    (initialLoadStatus s = LoadPending \<longrightarrow> requestError s = None) \<and>
    (initialLoadStatus s = LoadError \<longrightarrow> requestError s \<noteq> None) \<and>
    (initialLoadStatus s = LoadSuccess \<longrightarrow> initialLoadStatus (live_step lc e s) = LoadSuccess)"
proof -
  have "initialLoadStatus s = LoadSuccess \<Longrightarrow> initialLoadStatus (live_step lc e s) = LoadSuccess"
    by (cases e)
      (auto simp: refresh_def loaded_def load_failed_def end_request_def handleSnapshot_def
        on_open_def on_error_def unmount_def render_def Let_def split: option.splits)
  then show ?thesis using live_run_status [OF assms] by (auto simp: status_ok_def)
qed

text \<open>
  The text for a failed first load can be missing: a first load fails, the connection is lost
  and comes back before the next load settles. The page then is in its error state with no
  error text, although the message of the request is still there.
\<close>

lemma initial_error_without_text:
  "let s = fold (live_step by_length)
       [Mounted, Opened, LoadFailed 1 OtherErr, ConnectionLost, Opened, Rendered] initial_live
   in snapshots s = [] \<and> initialLoadStatus s = LoadError \<and> live_error s = None \<and>
      requestError s = Some LOAD_ERROR"
  by (simp add: initial_live_def load_failed_def end_request_def on_open_def on_error_def render_def
      refresh_def clear_connection_error_def Let_def)

end
