(* ===== verification/StringNumber.thy ===== *)
theory StringNumber
  imports JsonProps
begin

text \<open>
  \<open>Number(s)\<close> for a string: white space is trimmed, the empty text is zero, and hexadecimal,
  octal and binary integers, decimals with a fraction and an exponent, and \<open>Infinity\<close> are read.
\<close>

definition parse_decimal :: "string \<Rightarrow> rat option" where
  "parse_decimal s =
     (let (ds, r) = span is_digit s;
          (fs, r2) = (case r of c # r' \<Rightarrow> if c = CHR ''.'' then span is_digit r' else ([], r) | [] \<Rightarrow> ([], []))
      in if ds = [] \<and> fs = [] then None
         else case parse_exponent r2 of
                Some (e, []) \<Rightarrow> Some (of_int (digits_value (ds @ fs)) * 10 powi (e - int (length fs)))
              | _ \<Rightarrow> None)"

definition digit_value_in :: "nat \<Rightarrow> char \<Rightarrow> nat option" where
  "digit_value_in base c =
     (case hex_value c of None \<Rightarrow> None | Some d \<Rightarrow> if d < base then Some d else None)"

fun parse_radix :: "nat \<Rightarrow> int \<Rightarrow> string \<Rightarrow> int option" where
  "parse_radix base n [] = Some n"
| "parse_radix base n (c # cs) =
     (case digit_value_in base c of
        None \<Rightarrow> None
      | Some d \<Rightarrow> parse_radix base (int base * n + int d) cs)"

definition radix_of :: "char \<Rightarrow> nat option" where
  "radix_of c =
     (if c = CHR ''x'' \<or> c = CHR ''X'' then Some 16
      else if c = CHR ''o'' \<or> c = CHR ''O'' then Some 8
      else if c = CHR ''b'' \<or> c = CHR ''B'' then Some 2
      else None)"

definition parse_prefixed :: "string \<Rightarrow> jsnum option" where
  "parse_prefixed s =
     (case s of
        z # c # d # r \<Rightarrow>
          (if z = CHR ''0'' then
             (case radix_of c of
                None \<Rightarrow> None
              | Some base \<Rightarrow> map_option (\<lambda>n. fl (of_int n)) (parse_radix base 0 (d # r)))
           else None)
      | _ \<Rightarrow> None)"

definition to_number :: "string \<Rightarrow> jsnum" where
  "to_number text =
     (let s = trim text;
          (sg, u) = (case s of
             c # r \<Rightarrow> if c = CHR ''-'' then (- 1, r) else if c = CHR ''+'' then (1, r) else (1, s)
           | [] \<Rightarrow> (1, []))
      in if s = '''' then Fin 0
         else case parse_prefixed s of
                Some x \<Rightarrow> x
              | None \<Rightarrow>
                  if u = ''Infinity'' then (if sg = - 1 then NegInf else PosInf)
                  else case parse_decimal u of
                         Some q \<Rightarrow> fl (sg * q)
                       | None \<Rightarrow> NaN)"

section \<open>Decimal integers\<close>

lemma parse_decimal_digits:
  assumes "0 \<le> n"
  shows "parse_decimal (dec_digits n) = Some (of_int n)"
proof -
  note f = dec_digits_facts [OF assms]
  have sp: "span is_digit (dec_digits n) = (dec_digits n, [])"
    using f by (simp add: span_def list_all_iff)
  show ?thesis
    using f unfolding parse_decimal_def sp by (simp add: parse_exponent_def)
qed

text \<open>No white space starts or ends with a digit or a minus sign.\<close>

lemma trim_id:
  assumes "s \<noteq> []" and "\<forall>c \<in> set s. 45 \<le> (of_char c :: nat) \<and> (of_char c :: nat) \<le> 57"
  shows "trim s = s"
proof -
  define good where "good = (\<lambda>c :: char. 45 \<le> (of_char c :: nat) \<and> (of_char c :: nat) \<le> 57)"
  have s: "good c" if "c \<in> set s" for c using assms(2) that by (simp add: good_def)
  have "list_all (list_all (\<lambda>c. \<not> good c)) js_whitespace"
    by (simp add: js_whitespace_def good_def)
  then have ws: "\<not> good c" if "w \<in> set js_whitespace" "c \<in> set w" for w c
    using that by (simp add: list_all_iff)
  have head: "\<not> prefix w t" if "w \<in> set js_whitespace" "w \<noteq> []" "set t \<subseteq> set s" for w t
  proof
    assume "prefix w t"
    then have "hd w \<in> set t" using that(2) by (auto simp: prefix_def)
    then have "good (hd w)" using s that(3) by blast
    moreover have "hd w \<in> set w" using that(2) by simp
    ultimately show False using ws that(1) by blast
  qed
  have rev_head: "\<not> prefix w (rev s)" if "w \<in> set (map rev js_whitespace)" "w \<noteq> []" for w
  proof
    obtain v where v: "v \<in> set js_whitespace" "w = rev v"
      using \<open>w \<in> set (map rev js_whitespace)\<close> by auto
    assume "prefix w (rev s)"
    then have "set w \<subseteq> set (rev s)" by (rule set_mono_prefix)
    moreover have w: "hd w \<in> set w" using that(2) by simp
    ultimately have "hd w \<in> set s" by auto
    then have "good (hd w)" using s by simp
    moreover from w have "hd w \<in> set v" using v(2) by simp
    ultimately show False using ws v(1) by blast
  qed
  have "strip js_whitespace s = s" using head by (intro strip_id) auto
  moreover have "strip (map rev js_whitespace) (rev s) = rev s" using rev_head by (intro strip_id) auto
  ultimately show ?thesis by (simp add: trim_def)
qed

lemma dec_int_chars: "\<forall>c \<in> set (dec_int n). 45 \<le> (of_char c :: nat) \<and> (of_char c :: nat) \<le> 57"
proof -
  have "\<forall>c \<in> set (dec_digits m). 45 \<le> (of_char c :: nat) \<and> (of_char c :: nat) \<le> 57" if "0 \<le> m" for m
    using dec_digits_facts [OF that] by (fastforce simp: list_all_iff is_digit_def)
  from this [of n] this [of "- n"] show ?thesis by (cases "n < 0") (simp_all add: dec_int_def)
qed

lemma to_number_dec_int:
  assumes "0 \<le> n" and "n \<le> max_safe"
  shows "to_number (dec_int n) = num_of_int n"
proof -
  note f = dec_digits_facts [OF assms(1)]
  have d: "dec_int n = dec_digits n" using assms(1) by (simp add: dec_int_def)
  obtain c cs where c: "dec_digits n = c # cs" using f by (cases "dec_digits n") simp_all
  have dig: "is_digit c" "\<forall>x \<in> set cs. is_digit x" using f by (simp_all add: c list_all_iff)
  have "trim (dec_digits n) = dec_digits n"
    using trim_id dec_int_chars [of n] f unfolding d by blast
  moreover have "parse_prefixed (dec_digits n) = None"
  proof (cases cs)
    case Nil
    then show ?thesis by (simp add: c parse_prefixed_def)
  next
    case (Cons d ds)
    then have "is_digit d" using dig by simp
    then have "radix_of d = None" by (auto simp: radix_of_def is_digit_def)
    then show ?thesis by (simp add: c Cons parse_prefixed_def split: list.split)
  qed
  moreover have "c \<noteq> CHR ''-''" "c \<noteq> CHR ''+''" "c \<noteq> CHR ''I''" using dig(1) by (auto simp: is_digit_def)
  moreover have "fl (of_int n) = num_of_int n"
    using assms by (intro fl_of_int) (simp add: max_safe_def)
  ultimately show ?thesis
    using parse_decimal_digits [OF assms(1)] unfolding d c to_number_def by simp
qed

end
