(* ===== verification/TokenRouter.thy ===== *)
theory TokenRouter
  imports StringNumber
begin

text \<open>
  \<^verbatim>\<open>web/src/app/App.tsx\<close> and \<^verbatim>\<open>web/src/components/AppNav.tsx\<close>: the router of the signed-in
  part, and the one-time token that it keeps across pages. The paths it navigates to have
  neither a query nor a fragment, so that \<open>pushState\<close> makes them the location's path.
  The functions given to \<open>setOneTimeToken\<close> are run when they are given, which is what React
  does for a component without waiting updates.
\<close>

section \<open>Routes\<close>

definition is_slash :: "char \<Rightarrow> bool" where
  "is_slash c \<longleftrightarrow> c = CHR ''/''"

text \<open>The group of the regular expression \<open>detailPath\<close>, when it matches.\<close>

definition detail_segment :: "string \<Rightarrow> string option" where
  "detail_segment path =
     (if take 9 path = ''/servers/'' then
        let rest = drop 9 path;
            seg = takeWhile (\<lambda>c. \<not> is_slash c) rest;
            after = dropWhile (\<lambda>c. \<not> is_slash c) rest
        in if seg \<noteq> [] \<and> (after = [] \<or> after = ''/'') then Some seg else None
      else None)"

definition management_path :: "string \<Rightarrow> bool" where
  "management_path path \<longleftrightarrow> path = ''/servers'' \<or> path = ''/servers/''"

definition alerts_path :: "string \<Rightarrow> bool" where
  "alerts_path path \<longleftrightarrow> path = ''/alerts'' \<or> path = ''/alerts/''"

definition valid_server_id :: "jsnum \<Rightarrow> bool" where
  "valid_server_id i \<longleftrightarrow> is_safe_integer i \<and> js_lt (Fin 0) i"

datatype route = AlertsRoute | DetailRoute jsnum | InvalidServer | ManagementRoute | OverviewRoute

definition route_of :: "string \<Rightarrow> route" where
  "route_of path =
     (if alerts_path path then AlertsRoute
      else case detail_segment path of
             Some seg \<Rightarrow>
               if valid_server_id (to_number seg) then DetailRoute (to_number seg) else InvalidServer
           | None \<Rightarrow> if management_path path then ManagementRoute else OverviewRoute)"

text \<open>\<open>AppNav\<close>: its links in order, with whether each is marked as the current page.\<close>

definition nav_links :: "string \<Rightarrow> (string \<times> bool) list" where
  "nav_links path =
     [(''/'', path = ''/''),
      (''/servers'', path = ''/servers'' \<or> path = ''/servers/''),
      (''/alerts'', path = ''/alerts'' \<or> path = ''/alerts/'')]"

section \<open>The state of the router\<close>

datatype return_focus = FocusCreate | FocusRotate jsnum

record one_time_token =
  ot_serverId :: jsnum
  ot_serverName :: string
  ot_token :: string
  ot_returnFocus :: return_focus

record router =
  pathname :: string
  location :: string
  oneTimeToken :: "one_time_token option"
  tokenRequestPending :: bool
  tokenRequestServerId :: "jsnum option"
  tokenRequestError :: string
  managementGeneration :: nat
  tokenRef :: "one_time_token option"
  tokenLockRef :: bool

definition initial_router :: "string \<Rightarrow> router" where
  "initial_router path =
     \<lparr>pathname = path, location = path, oneTimeToken = None, tokenRequestPending = False,
      tokenRequestServerId = None, tokenRequestError = '''', managementGeneration = 0,
      tokenRef = None, tokenLockRef = False\<rparr>"

text \<open>The browser moves in its history to an entry with the given path.\<close>

definition handlePopState :: "string \<Rightarrow> router \<Rightarrow> router" where
  "handlePopState path r = r\<lparr>location := path, pathname := path\<rparr>"

definition navigate :: "string \<Rightarrow> router \<Rightarrow> router" where
  "navigate path r =
     (if path \<noteq> location r then r\<lparr>location := path\<rparr> else r)\<lparr>pathname := path\<rparr>"

definition startTokenRequest :: "jsnum option \<Rightarrow> router \<Rightarrow> bool \<times> router" where
  "startTokenRequest i r =
     (if tokenLockRef r then (False, r)
      else (True, r\<lparr>tokenLockRef := True, tokenRequestError := '''', tokenRequestPending := True,
                    tokenRequestServerId := i\<rparr>))"

definition failTokenRequest :: "string \<Rightarrow> router \<Rightarrow> router" where
  "failTokenRequest message r =
     r\<lparr>tokenRequestPending := False, tokenRequestServerId := None, tokenRequestError := message,
       tokenLockRef := (tokenRef r \<noteq> None)\<rparr>"

definition publishToken :: "one_time_token \<Rightarrow> router \<Rightarrow> router" where
  "publishToken t r =
     navigate ''/servers''
       (r\<lparr>tokenRef := Some t, tokenLockRef := True, oneTimeToken := Some t,
          tokenRequestPending := False, tokenRequestServerId := None, tokenRequestError := '''',
          managementGeneration := managementGeneration r + 1\<rparr>)"

definition clearToken :: "router \<Rightarrow> router" where
  "clearToken r = r\<lparr>tokenRef := None, tokenLockRef := False, oneTimeToken := None\<rparr>"

definition clearTokenForDeletedServer :: "jsnum \<Rightarrow> router \<Rightarrow> router" where
  "clearTokenForDeletedServer i r =
     (case oneTimeToken r of
        None \<Rightarrow> r
      | Some t \<Rightarrow>
          if \<not> js_eq (ot_serverId t) i then r
          else r\<lparr>tokenRef := None, tokenLockRef := False, oneTimeToken := None\<rparr>)"

definition renameTokenServer :: "jsnum \<Rightarrow> string \<Rightarrow> router \<Rightarrow> router" where
  "renameTokenServer i nm r =
     (case oneTimeToken r of
        None \<Rightarrow> r
      | Some t \<Rightarrow>
          if \<not> js_eq (ot_serverId t) i then r
          else let t' = t\<lparr>ot_serverName := nm\<rparr>
               in r\<lparr>tokenRef := Some t', oneTimeToken := Some t'\<rparr>)"

text \<open>The button of the error reminder.\<close>

definition dismissTokenError :: "router \<Rightarrow> router" where
  "dismissTokenError r = navigate ''/servers'' (r\<lparr>tokenRequestError := ''''\<rparr>)"

section \<open>What it renders\<close>

record dashboard_view =
  dv_nav :: "(string \<times> bool) list"
  dv_pending_reminder :: bool
  dv_token_reminder :: bool
  dv_error_reminder :: "string option"
  dv_route :: route
  dv_page_key :: nat

definition dashboard_view_of :: "router \<Rightarrow> dashboard_view" where
  "dashboard_view_of r =
     (let away = \<not> management_path (pathname r)
      in \<lparr>dv_nav = nav_links (pathname r),
          dv_pending_reminder = (away \<and> tokenRequestPending r),
          dv_token_reminder = (away \<and> oneTimeToken r \<noteq> None),
          dv_error_reminder =
            (if away \<and> tokenRequestError r \<noteq> '''' then Some (tokenRequestError r) else None),
          dv_route = route_of (pathname r),
          dv_page_key = managementGeneration r\<rparr>)"

text \<open>Whether leaving the page asks for confirmation.\<close>

definition unload_protected :: "router \<Rightarrow> bool" where
  "unload_protected r \<longleftrightarrow> tokenRequestPending r \<or> oneTimeToken r \<noteq> None"

lemmas router_ops =
  handlePopState_def navigate_def startTokenRequest_def failTokenRequest_def publishToken_def
  clearToken_def clearTokenForDeletedServer_def renameTokenServer_def dismissTokenError_def

section \<open>Facts on routes\<close>

text \<open>The path that links to the page of a server.\<close>

definition server_link :: "jsnum \<Rightarrow> string" where
  "server_link i = ''/servers/'' @ number_to_string i"

lemma dec_digits_no_slash: "0 \<le> n \<Longrightarrow> c \<in> set (dec_digits n) \<Longrightarrow> \<not> is_slash c"
  using dec_digits_facts [of n] by (auto simp: list_all_iff is_digit_def is_slash_def)

lemma detail_segment_link:
  assumes "seg \<noteq> []" and "\<And>c. c \<in> set seg \<Longrightarrow> \<not> is_slash c"
  shows "detail_segment (''/servers/'' @ seg) = Some seg"
    and "detail_segment (''/servers/'' @ seg @ ''/'') = Some seg"
proof -
  have all: "takeWhile (\<lambda>c. \<not> is_slash c) seg = seg" "dropWhile (\<lambda>c. \<not> is_slash c) seg = []"
    using assms(2) by (simp_all add: takeWhile_eq_all_conv dropWhile_eq_Nil_conv)
  then show "detail_segment (''/servers/'' @ seg) = Some seg"
    using assms(1) by (simp add: detail_segment_def Let_def del: takeWhile_eq_all_conv dropWhile_eq_Nil_conv)
  have "takeWhile (\<lambda>c. \<not> is_slash c) (seg @ ''/'') = seg" "dropWhile (\<lambda>c. \<not> is_slash c) (seg @ ''/'') = ''/''"
    using assms(2) by (simp_all add: takeWhile_append2 dropWhile_append2 is_slash_def)
  then show "detail_segment (''/servers/'' @ seg @ ''/'') = Some seg"
    using assms(1) by (simp add: detail_segment_def Let_def del: takeWhile_eq_all_conv dropWhile_eq_Nil_conv)
qed

lemma detail_segment_shape:
  assumes "detail_segment path = Some seg"
  shows "(path = ''/servers/'' @ seg \<or> path = ''/servers/'' @ seg @ ''/'') \<and> seg \<noteq> []"
proof -
  have d: "take 9 path = ''/servers/''" "seg = takeWhile (\<lambda>c. \<not> is_slash c) (drop 9 path)" "seg \<noteq> []"
    "dropWhile (\<lambda>c. \<not> is_slash c) (drop 9 path) = [] \<or> dropWhile (\<lambda>c. \<not> is_slash c) (drop 9 path) = ''/''"
    using assms by (auto simp: detail_segment_def Let_def split: if_splits)
  have "path = ''/servers/'' @ drop 9 path" using d(1) append_take_drop_id [of 9 path] by simp
  moreover have "drop 9 path = seg @ dropWhile (\<lambda>c. \<not> is_slash c) (drop 9 path)"
    using d(2) takeWhile_dropWhile_id [of "\<lambda>c. \<not> is_slash c" "drop 9 path"] by simp
  ultimately show ?thesis using d(3,4) by (metis append_Nil2)
qed

lemma valid_server_id_iff: "valid_server_id i \<longleftrightarrow> (\<exists>n. i = num_of_int n \<and> 0 < n \<and> n \<le> max_safe)"
  by (auto simp: valid_server_id_def is_safe_integer_iff simp del: is_safe_integer.simps)

text \<open>Detail paths are no other page's paths.\<close>

lemma detail_not_other:
  "detail_segment path = Some seg \<Longrightarrow> \<not> management_path path \<and> \<not> alerts_path path"
  using detail_segment_shape [of path seg] by (auto simp: management_path_def alerts_path_def)

lemma route_of_server_link:
  assumes "valid_server_id i"
  shows "route_of (server_link i) = DetailRoute i" "route_of (server_link i @ ''/'') = DetailRoute i"
proof -
  obtain n where n: "i = num_of_int n" "0 < n" "n \<le> max_safe"
    using assms by (auto simp: valid_server_id_iff)
  have link: "server_link i = ''/servers/'' @ dec_digits n"
    using n by (simp add: server_link_def dec_int_def)
  have num: "to_number (dec_digits n) = i"
    using to_number_dec_int [of n] n by (simp add: dec_int_def)
  have seg: "dec_digits n \<noteq> []" "\<And>c. c \<in> set (dec_digits n) \<Longrightarrow> \<not> is_slash c"
    using n dec_digits_facts [of n] dec_digits_no_slash [of n] by simp_all
  note found = detail_segment_link [OF seg]
  show "route_of (server_link i) = DetailRoute i"
    using found(1) detail_not_other [OF found(1)] num assms by (simp add: link route_of_def)
  show "route_of (server_link i @ ''/'') = DetailRoute i"
    using found(2) detail_not_other [OF found(2)] num assms by (simp add: link route_of_def)
qed

text \<open>
  The link to a server's page, with or without a trailing slash, leads to the page of
  exactly that server; a detail page is only ever shown for a positive safe integer that the
  path names; and the navigation marks the page that is shown: the management and the alerts
  link are current exactly on their pages, the overview link only on the overview.
\<close>

lemma routes_round_trip:
  assumes "valid_server_id i"
  shows "route_of (server_link i) = DetailRoute i \<and>
    route_of (server_link i @ ''/'') = DetailRoute i \<and>
    (route_of path = DetailRoute j \<longrightarrow> valid_server_id j \<and>
      (\<exists>seg. (path = ''/servers/'' @ seg \<or> path = ''/servers/'' @ seg @ ''/'') \<and> to_number seg = j)) \<and>
    (map_of (nav_links path) ''/servers'' = Some True \<longleftrightarrow> route_of path = ManagementRoute) \<and>
    (map_of (nav_links path) ''/alerts'' = Some True \<longleftrightarrow> route_of path = AlertsRoute) \<and>
    (map_of (nav_links path) ''/'' = Some True \<longrightarrow> route_of path = OverviewRoute)"
proof (intro conjI)
  show "route_of (server_link i) = DetailRoute i" "route_of (server_link i @ ''/'') = DetailRoute i"
    by (rule route_of_server_link [OF assms])+
  show "route_of path = DetailRoute j \<longrightarrow> valid_server_id j \<and>
      (\<exists>seg. (path = ''/servers/'' @ seg \<or> path = ''/servers/'' @ seg @ ''/'') \<and> to_number seg = j)"
    using detail_segment_shape [of path]
    by (auto simp: route_of_def split: if_splits option.splits)
  show "map_of (nav_links path) ''/servers'' = Some True \<longleftrightarrow> route_of path = ManagementRoute"
    using detail_not_other [of path]
    by (auto simp: nav_links_def route_of_def management_path_def alerts_path_def
        split: option.split)
  show "map_of (nav_links path) ''/alerts'' = Some True \<longleftrightarrow> route_of path = AlertsRoute"
    by (auto simp: nav_links_def route_of_def alerts_path_def split: option.split)
  show "map_of (nav_links path) ''/'' = Some True \<longrightarrow> route_of path = OverviewRoute"
    by (auto simp: nav_links_def route_of_def alerts_path_def management_path_def detail_segment_def)
qed

section \<open>The token\<close>

text \<open>
  The lock is held exactly while a request is under way or a token is shown, never both, and the
  ref and the state agree.
\<close>

definition router_ok :: "router \<Rightarrow> bool" where
  "router_ok r \<longleftrightarrow>
     tokenLockRef r = (tokenRequestPending r \<or> oneTimeToken r \<noteq> None) \<and>
     tokenRef r = oneTimeToken r \<and>
     \<not> (tokenRequestPending r \<and> oneTimeToken r \<noteq> None) \<and>
     (\<not> tokenRequestPending r \<longrightarrow> tokenRequestServerId r = None) \<and>
     (unload_protected r \<longrightarrow> tokenRequestError r = '''') \<and>
     location r = pathname r"

lemma router_ok_initial: "router_ok (initial_router path)"
  by (simp add: router_ok_def initial_router_def unload_protected_def)

lemma router_ok_ops:
  assumes "router_ok r"
  shows "router_ok (handlePopState path r)" "router_ok (navigate path r)"
    "router_ok (snd (startTokenRequest i r))"
    "tokenRequestPending r \<Longrightarrow> router_ok (failTokenRequest message r)"
    "tokenRequestPending r \<Longrightarrow> router_ok (publishToken t r)"
    "oneTimeToken r \<noteq> None \<Longrightarrow> router_ok (clearToken r)"
    "router_ok (clearTokenForDeletedServer j r)" "router_ok (renameTokenServer j nm r)"
    "router_ok (dismissTokenError r)"
  using assms
  by (auto simp: router_ok_def router_ops unload_protected_def Let_def split: option.split)

end
