(* ===== verification/ServerCollection.thy ===== *)
theory ServerCollection
  imports Endpoints Requests
begin

text \<open>
  \<^verbatim>\<open>web/src/servers/useServerCollection.ts\<close>: the list of managed servers, its loads, and the
  mutations of single servers. Every request takes its number from one counter; the list
  remembers the number of its latest load, and each server that of its latest mutation. The
  continuation of a request reads the promise's outcome and these refs.
\<close>

datatype server_pending_action = ActRename | ActToggle | ActDelete | ActRotate

record pending_request =
  pr_action :: server_pending_action
  pr_generation :: nat

text \<open>\<open>MutationResult\<close>, or the exception the mutation ends with.\<close>

datatype mutation_outcome = Applied | NotApplied | Threw js_error

datatype load_state = Loading | LoadSucceeded | LoadErrored

record collection =
  servers :: "server_record list"
  loadState :: load_state
  loadError :: "js_error option"
  pendingByServer :: "jsnum \<rightharpoonup> pending_request"
  nextGeneration :: nat
  latestListGeneration :: nat
  latestServerGeneration :: "jsnum \<rightharpoonup> nat"
  mutationRevision :: nat
  revisionAtStart :: "nat \<rightharpoonup> nat"

definition initial_collection :: collection where
  "initial_collection =
     \<lparr>servers = [], loadState = Loading, loadError = None, pendingByServer = Map.empty,
      nextGeneration = 0, latestListGeneration = 0, latestServerGeneration = Map.empty,
      mutationRevision = 0, revisionAtStart = Map.empty\<rparr>"

definition replaceServer :: "server_record list \<Rightarrow> server_record \<Rightarrow> server_record list" where
  "replaceServer srvs next_server =
     map (\<lambda>server. if js_eq (sr_id server) (sr_id next_server) then next_server else server) srvs"

section \<open>Loading the list\<close>

text \<open>\<open>loadServers\<close> up to its \<open>await\<close>; \<open>revisionAtStart\<close> is the local constant of that name.\<close>

definition loadServers :: "collection \<Rightarrow> collection" where
  "loadServers s =
     (let generation = nextGeneration s + 1
      in s\<lparr>nextGeneration := generation,
           revisionAtStart := (revisionAtStart s)(generation \<mapsto> mutationRevision s),
           latestListGeneration := generation, loadState := Loading, loadError := None\<rparr>)"

definition list_loaded :: "nat \<Rightarrow> server_record list \<Rightarrow> collection \<Rightarrow> collection" where
  "list_loaded generation result s =
     (case revisionAtStart s generation of
        None \<Rightarrow> s
      | Some revision \<Rightarrow>
          if latestListGeneration s \<noteq> generation then s
          else let s1 = (if mutationRevision s = revision then s\<lparr>servers := result\<rparr> else s)
               in s1\<lparr>loadState := LoadSucceeded\<rparr>)"

definition list_failed :: "nat \<Rightarrow> js_error \<Rightarrow> collection \<Rightarrow> collection" where
  "list_failed generation e s =
     (case revisionAtStart s generation of
        None \<Rightarrow> s
      | Some revision \<Rightarrow>
          if latestListGeneration s \<noteq> generation then s
          else s\<lparr>loadError := Some e, loadState := LoadErrored\<rparr>)"

section \<open>Mutations\<close>

definition beginServerRequest :: "jsnum \<Rightarrow> server_pending_action \<Rightarrow> collection \<Rightarrow> nat \<times> collection" where
  "beginServerRequest serverID action s =
     (let generation = nextGeneration s + 1
      in (generation,
          s\<lparr>nextGeneration := generation, mutationRevision := mutationRevision s + 1,
            latestServerGeneration := (latestServerGeneration s)(serverID \<mapsto> generation),
            pendingByServer := (pendingByServer s)(serverID \<mapsto>
              \<lparr>pr_action = action, pr_generation = generation\<rparr>)\<rparr>))"

definition isLatestServerRequest :: "jsnum \<Rightarrow> nat \<Rightarrow> collection \<Rightarrow> bool" where
  "isLatestServerRequest serverID generation s \<longleftrightarrow> latestServerGeneration s serverID = Some generation"

definition finishServerRequest :: "jsnum \<Rightarrow> nat \<Rightarrow> collection \<Rightarrow> collection" where
  "finishServerRequest serverID generation s =
     (if map_option pr_generation (pendingByServer s serverID) \<noteq> Some generation then s
      else s\<lparr>pendingByServer := (pendingByServer s)(serverID := None)\<rparr>)"

text \<open>\<open>updateServer\<close> after its request has settled, with the \<open>finally\<close> block.\<close>

definition update_settled ::
  "jsnum \<Rightarrow> nat \<Rightarrow> server_record promise \<Rightarrow> collection \<Rightarrow> mutation_outcome \<times> collection" where
  "update_settled serverID generation outcome s =
     (let (result, s1) =
        (case outcome of
           Fulfilled updated \<Rightarrow>
             if \<not> isLatestServerRequest serverID generation s then (NotApplied, s)
             else (Applied, s\<lparr>mutationRevision := mutationRevision s + 1,
                              servers := replaceServer (servers s) updated\<rparr>)
         | Rejected e \<Rightarrow>
             if isLatestServerRequest serverID generation s then (Threw e, s) else (NotApplied, s))
      in (result, finishServerRequest serverID generation s1))"

definition remove_settled ::
  "jsnum \<Rightarrow> nat \<Rightarrow> unit promise \<Rightarrow> collection \<Rightarrow> mutation_outcome \<times> collection" where
  "remove_settled serverID generation outcome s =
     (let (result, s1) =
        (case outcome of
           Fulfilled u \<Rightarrow>
             if \<not> isLatestServerRequest serverID generation s then (NotApplied, s)
             else (Applied, s\<lparr>mutationRevision := mutationRevision s + 1,
                              servers := filter (\<lambda>server. \<not> js_eq (sr_id server) serverID) (servers s)\<rparr>)
         | Rejected e \<Rightarrow>
             if isLatestServerRequest serverID generation s then (Threw e, s) else (NotApplied, s))
      in (result, finishServerRequest serverID generation s1))"

definition addServer :: "server_record \<Rightarrow> collection \<Rightarrow> collection" where
  "addServer server s =
     s\<lparr>mutationRevision := mutationRevision s + 1,
       servers := filter (\<lambda>item. \<not> js_eq (sr_id item) (sr_id server)) (servers s) @ [server]\<rparr>"

section \<open>The hook as a machine\<close>

datatype collection_event =
    StartLoad
  | ListLoaded nat "server_record list"
  | ListFailed nat js_error
  | StartMutation jsnum server_pending_action
  | UpdateSettled jsnum nat "server_record promise"
  | RemoveSettled jsnum nat "unit promise"
  | Add server_record

fun collection_step :: "collection_event \<Rightarrow> collection \<Rightarrow> collection" where
  "collection_step StartLoad s = loadServers s"
| "collection_step (ListLoaded g result) s = list_loaded g result s"
| "collection_step (ListFailed g e) s = list_failed g e s"
| "collection_step (StartMutation i a) s = snd (beginServerRequest i a s)"
| "collection_step (UpdateSettled i g p) s = snd (update_settled i g p s)"
| "collection_step (RemoveSettled i g p) s = snd (remove_settled i g p s)"
| "collection_step (Add server) s = addServer server s"

lemmas collection_defs =
  loadServers_def list_loaded_def list_failed_def beginServerRequest_def isLatestServerRequest_def
  finishServerRequest_def update_settled_def remove_settled_def addServer_def

section \<open>Invariants\<close>

text \<open>
  Numbers are given out once: every recorded number is at most the counter, the revision at the
  start of a load is at most the current one, and the pending action of a server carries the
  number of its latest request.
\<close>

definition collection_ok :: "collection \<Rightarrow> bool" where
  "collection_ok s \<longleftrightarrow>
     latestListGeneration s \<le> nextGeneration s \<and>
     (\<forall>i g. latestServerGeneration s i = Some g \<longrightarrow> g \<le> nextGeneration s) \<and>
     (\<forall>g r. revisionAtStart s g = Some r \<longrightarrow> g \<le> nextGeneration s \<and> r \<le> mutationRevision s) \<and>
     (\<forall>i p. pendingByServer s i = Some p \<longrightarrow> latestServerGeneration s i = Some (pr_generation p))"

lemma finishServerRequest_ok: "collection_ok s \<Longrightarrow> collection_ok (finishServerRequest i g s)"
  by (auto simp: finishServerRequest_def collection_ok_def)

lemma finishServerRequest_frame [simp]:
  "servers (finishServerRequest i g s) = servers s"
  "mutationRevision (finishServerRequest i g s) = mutationRevision s"
  "loadState (finishServerRequest i g s) = loadState s"
  "nextGeneration (finishServerRequest i g s) = nextGeneration s"
  "latestListGeneration (finishServerRequest i g s) = latestListGeneration s"
  "latestServerGeneration (finishServerRequest i g s) = latestServerGeneration s"
  "revisionAtStart (finishServerRequest i g s) = revisionAtStart s"
  by (simp_all add: finishServerRequest_def)

lemma mutated_ok:
  "collection_ok s \<Longrightarrow> collection_ok (s\<lparr>mutationRevision := Suc (mutationRevision s), servers := xs\<rparr>)"
  by (auto simp: collection_ok_def le_SucI)

lemma collection_ok_step:
  assumes "collection_ok s"
  shows "collection_ok (collection_step e s)"
proof (cases e)
  case (UpdateSettled i g p)
  then show ?thesis
    using assms
    by (auto simp: update_settled_def Let_def finishServerRequest_ok mutated_ok split: promise.split)
next
  case (RemoveSettled i g p)
  then show ?thesis
    using assms
    by (auto simp: remove_settled_def Let_def finishServerRequest_ok mutated_ok split: promise.split)
next
  case (Add server)
  then show ?thesis using assms by (simp add: addServer_def mutated_ok)
next
  case StartLoad
  then show ?thesis using assms by (auto simp: loadServers_def collection_ok_def Let_def le_SucI)
next
  case (StartMutation i a)
  then show ?thesis using assms by (auto simp: beginServerRequest_def collection_ok_def Let_def le_SucI)
next
  case (ListLoaded g result)
  then show ?thesis using assms
    by (auto simp: list_loaded_def collection_ok_def Let_def split: option.splits)
next
  case (ListFailed g e)
  then show ?thesis using assms
    by (auto simp: list_failed_def collection_ok_def split: option.splits)
qed

lemma initial_collection_ok: "collection_ok initial_collection"
  by (simp add: collection_ok_def initial_collection_def)

lemma collection_ok_fold: "collection_ok s \<Longrightarrow> collection_ok (fold collection_step es s)"
  by (induction es arbitrary: s) (simp_all add: collection_ok_step)

lemma mutationRevision_mono: "mutationRevision s \<le> mutationRevision (collection_step e s)"
  by (cases e) (auto simp: collection_defs Let_def split: option.split promise.split)

lemma mutationRevision_fold: "mutationRevision s \<le> mutationRevision (fold collection_step es s)"
proof (induction es arbitrary: s)
  case (Cons e es)
  from mutationRevision_mono [of s e] Cons [of "collection_step e s"] show ?case by simp
qed simp

section \<open>Loads against mutations\<close>

fun mutating :: "collection_event \<Rightarrow> bool" where
  "mutating (StartMutation i a) = True"
| "mutating (Add server) = True"
| "mutating _ = False"

lemma mutating_increases: "mutating e \<Longrightarrow> mutationRevision s < mutationRevision (collection_step e s)"
  by (cases e) (simp_all add: beginServerRequest_def addServer_def Let_def)

lemma mutating_fold:
  "list_ex mutating es \<Longrightarrow> mutationRevision s < mutationRevision (fold collection_step es s)"
proof (induction es arbitrary: s)
  case (Cons e es)
  show ?case
  proof (cases "mutating e")
    case True
    have "mutationRevision s < mutationRevision (collection_step e s)" by (rule mutating_increases [OF True])
    also have "\<dots> \<le> mutationRevision (fold collection_step es (collection_step e s))"
      by (rule mutationRevision_fold)
    finally show ?thesis by simp
  next
    case False
    have "mutationRevision s \<le> mutationRevision (collection_step e s)" by (rule mutationRevision_mono)
    also have "\<dots> < mutationRevision (fold collection_step es (collection_step e s))"
      using Cons False by simp
    finally show ?thesis by simp
  qed
qed simp

lemma revisionAtStart_step:
  assumes "collection_ok s" and "revisionAtStart s g = Some r"
  shows "revisionAtStart (collection_step e s) g = Some r"
proof -
  have "g \<le> nextGeneration s" using assms by (auto simp: collection_ok_def)
  then show ?thesis
    using assms(2) by (cases e) (auto simp: collection_defs Let_def split: option.split promise.split)
qed

lemma revisionAtStart_fold:
  "collection_ok s \<Longrightarrow> revisionAtStart s g = Some r \<Longrightarrow>
     revisionAtStart (fold collection_step es s) g = Some r"
  by (induction es arbitrary: s) (simp_all add: revisionAtStart_step collection_ok_step)

text \<open>
  C28: a list that was requested before a mutation began or a server was added never replaces
  the servers when it arrives after it: whatever else happens in between, the load only reports
  success, so the effect of the mutation is not undone by an older list.
\<close>

theorem stale_list_never_overwrites:
  assumes "collection_ok s" and "list_ex mutating es"
    and "s' = fold collection_step (StartLoad # es) s"
    and "g = nextGeneration s + 1"
  shows "servers (collection_step (ListLoaded g result) s') = servers s' \<and>
    mutationRevision (collection_step (ListLoaded g result) s') = mutationRevision s'"
proof -
  define s1 where "s1 = loadServers s"
  have s1: "collection_ok s1" "revisionAtStart s1 g = Some (mutationRevision s)"
      "mutationRevision s1 = mutationRevision s"
    using collection_ok_step [OF assms(1), of StartLoad] assms(4)
    by (simp_all add: s1_def loadServers_def Let_def)
  have s': "s' = fold collection_step es s1" by (simp add: assms(3) s1_def)
  have "revisionAtStart s' g = Some (mutationRevision s)"
    unfolding s' by (rule revisionAtStart_fold [OF s1(1,2)])
  moreover have "mutationRevision s' \<noteq> mutationRevision s"
    using mutating_fold [OF assms(2), of s1] s1(3) unfolding s' by simp
  ultimately show ?thesis by (simp add: list_loaded_def Let_def)
qed

definition server_one :: server_record where
  "server_one =
     \<lparr>sr_id = Fin 1, sr_name = ''home-lab'', sr_enabled = True, sr_agentVersion = '''',
      sr_createdAt = ''2026-07-26T04:00:00Z'', sr_updatedAt = ''2026-07-26T04:00:00Z''\<rparr>"

theorem stale_list_never_overwrites_witness:
  "servers (fold collection_step [StartLoad, Add server_one, ListLoaded 1 []] initial_collection) = [server_one]"
proof -
  have "list_ex mutating [Add server_one]" by simp
  from stale_list_never_overwrites [OF initial_collection_ok this refl refl, of "[]"]
  have "servers (fold collection_step [StartLoad, Add server_one, ListLoaded 1 []] initial_collection) =
      servers (fold collection_step [StartLoad, Add server_one] initial_collection)"
    by (simp add: initial_collection_def)
  then show ?thesis by (simp add: initial_collection_def loadServers_def addServer_def Let_def)
qed

section \<open>Superseded requests\<close>

fun settles_list :: "collection_event \<Rightarrow> nat option" where
  "settles_list (ListLoaded g result) = Some g"
| "settles_list (ListFailed g e) = Some g"
| "settles_list _ = None"

interpretation list_requests: latest_wins
  collection_ok latestListGeneration collection_step "\<lambda>e s. e = StartLoad" settles_list "\<lambda>s. s"
proof unfold_locales
  fix s e
  assume ok: "collection_ok s"
  show "collection_ok (collection_step e s)" by (rule collection_ok_step [OF ok])
  show "latestListGeneration s \<le> latestListGeneration (collection_step e s)"
    using ok by (cases e)
      (auto simp: collection_defs collection_ok_def Let_def split: option.split promise.split)
  show "e = StartLoad \<Longrightarrow> latestListGeneration s < latestListGeneration (collection_step e s)"
    using ok by (simp add: loadServers_def collection_ok_def Let_def)
  fix g
  assume "settles_list e = Some g" and "g \<noteq> latestListGeneration s"
  then show "collection_step e s = s"
    by (cases e) (auto simp: list_loaded_def list_failed_def split: option.split)
qed

definition latest_of :: "jsnum \<Rightarrow> collection \<Rightarrow> nat" where
  "latest_of i s = nullish (latestServerGeneration s i) 0"

fun settles_mutation :: "jsnum \<Rightarrow> collection_event \<Rightarrow> nat option" where
  "settles_mutation i (UpdateSettled j g p) = (if i = j \<and> 0 < g then Some g else None)"
| "settles_mutation i (RemoveSettled j g p) = (if i = j \<and> 0 < g then Some g else None)"
| "settles_mutation i _ = None"

lemma stale_mutation:
  assumes "collection_ok s" and "latestServerGeneration s i \<noteq> Some g"
  shows "update_settled i g p s = (NotApplied, s)" "remove_settled i g q s = (NotApplied, s)"
proof -
  have "finishServerRequest i g s = s"
    using assms by (cases "pendingByServer s i") (auto simp: finishServerRequest_def collection_ok_def)
  then show "update_settled i g p s = (NotApplied, s)" "remove_settled i g q s = (NotApplied, s)"
    using assms(2)
    by (simp_all add: update_settled_def remove_settled_def isLatestServerRequest_def split: promise.split)
qed

lemma latestServerGeneration_step:
  "latestServerGeneration (collection_step e s) i =
     (case e of StartMutation j a \<Rightarrow> if i = j then Some (nextGeneration s + 1) else latestServerGeneration s i
      | _ \<Rightarrow> latestServerGeneration s i)"
  by (cases e) (auto simp: collection_defs Let_def split: option.split promise.split)

interpretation server_requests: latest_wins
  collection_ok "latest_of i" collection_step "\<lambda>e s. \<exists>a. e = StartMutation i a" "settles_mutation i" "\<lambda>s. s"
proof unfold_locales
  fix s e
  assume ok: "collection_ok s"
  then have le: "latest_of i s \<le> nextGeneration s"
    by (cases "latestServerGeneration s i") (auto simp: latest_of_def collection_ok_def)
  show "collection_ok (collection_step e s)" by (rule collection_ok_step [OF ok])
  show "latest_of i s \<le> latest_of i (collection_step e s)"
    using le by (auto simp: latest_of_def latestServerGeneration_step split: collection_event.split)
  show "\<exists>a. e = StartMutation i a \<Longrightarrow> latest_of i s < latest_of i (collection_step e s)"
    using le by (auto simp: latest_of_def latestServerGeneration_step)
  fix g
  assume g: "settles_mutation i e = Some g" and "g \<noteq> latest_of i s"
  then have "latestServerGeneration s i \<noteq> Some g" by (auto simp: latest_of_def)
  with g show "collection_step e s = s"
    using stale_mutation [OF ok] by (cases e) (auto split: if_splits)
qed

text \<open>
  Once a later mutation of the same server has begun, the outcome of an earlier one, good
  or bad, changes nothing at all: not the list, not the pending marks, not the revision, and
  the caller is told that it was not applied.
\<close>

lemma superseded_mutation_ignored:
  assumes "collection_ok s" and "0 < g" and "g \<le> latest_of i s"
    and "s' = fold collection_step (StartMutation i a # es) s"
  shows "update_settled i g p s' = (NotApplied, s') \<and> remove_settled i g q s' = (NotApplied, s')"
proof -
  define s1 where "s1 = collection_step (StartMutation i a) s"
  have ok: "collection_ok s1" "collection_ok s'"
    using assms(1,4) by (simp_all add: s1_def collection_ok_step collection_ok_fold del: collection_step.simps)
  have "latest_of i s < latest_of i s1"
    using server_requests.begins_fresh [OF assms(1)] s1_def by blast
  also have "\<dots> \<le> latest_of i s'"
    using server_requests.current_run [OF ok(1), of i es] by (simp add: assms(4) s1_def)
  finally have "latestServerGeneration s' i \<noteq> Some g" using assms(3) by (auto simp: latest_of_def)
  then show ?thesis using stale_mutation [OF ok(2)] by blast
qed

section \<open>The list as a map\<close>

definition server_of :: "server_record list \<Rightarrow> jsnum \<rightharpoonup> server_record" where
  "server_of srvs i = find (\<lambda>x. sr_id x = i) srvs"

definition servers_ok :: "collection \<Rightarrow> bool" where
  "servers_ok s \<longleftrightarrow> distinct (map sr_id (servers s)) \<and> NaN \<notin> sr_id ` set (servers s)"

lemma js_eq_id: "b \<noteq> NaN \<Longrightarrow> js_eq a b \<longleftrightarrow> a = b"
  by (cases a; cases b) simp_all

lemma js_eq_left: "a \<noteq> NaN \<Longrightarrow> js_eq a b \<longleftrightarrow> a = b"
  by (cases a; cases b) simp_all

lemma replaceServer_ids:
  assumes "NaN \<notin> sr_id ` set srvs"
  shows "map sr_id (replaceServer srvs u) = map sr_id srvs"
  using assms by (induction srvs) (auto simp: replaceServer_def js_eq_left)

lemma replaceServer_map:
  assumes "NaN \<notin> sr_id ` set srvs"
  shows "server_of (replaceServer srvs u) i =
    (if i = sr_id u \<and> server_of srvs i \<noteq> None then Some u else server_of srvs i)"
  using assms by (induction srvs) (auto simp: replaceServer_def server_of_def js_eq_left)

lemma filter_map_of:
  assumes "j \<noteq> NaN"
  shows "server_of (filter (\<lambda>x. \<not> js_eq (sr_id x) j) srvs) i = (if i = j then None else server_of srvs i)"
  using assms by (induction srvs) (auto simp: server_of_def js_eq_id)

lemma append_map_of:
  "server_of srvs (sr_id u) = None \<Longrightarrow> server_of (srvs @ [u]) i = ((server_of srvs)(sr_id u \<mapsto> u)) i"
  by (induction srvs) (auto simp: server_of_def split: if_splits)

text \<open>The lists that the server sends have no server twice, and its ids are numbers.\<close>

fun collection_event_ok :: "collection_event \<Rightarrow> bool" where
  "collection_event_ok (ListLoaded g result) = (distinct (map sr_id result) \<and> NaN \<notin> sr_id ` set result)"
| "collection_event_ok (RemoveSettled i g p) = (i \<noteq> NaN)"
| "collection_event_ok (Add server) = (sr_id server \<noteq> NaN)"
| "collection_event_ok _ = True"

fun servers_step :: "collection_event \<Rightarrow> collection \<Rightarrow> (jsnum \<rightharpoonup> server_record) \<Rightarrow> jsnum \<rightharpoonup> server_record" where
  "servers_step (ListLoaded g result) s m =
     (if latestListGeneration s = g \<and> revisionAtStart s g = Some (mutationRevision s)
      then server_of result else m)"
| "servers_step (UpdateSettled i g (Fulfilled u)) s m =
     (if latestServerGeneration s i = Some g \<and> m (sr_id u) \<noteq> None then m(sr_id u \<mapsto> u) else m)"
| "servers_step (RemoveSettled i g (Fulfilled u)) s m =
     (if latestServerGeneration s i = Some g then m(i := None) else m)"
| "servers_step (Add server) s m = m(sr_id server \<mapsto> server)"
| "servers_step _ s m = m"

text \<open>
  C27: the collection never shows a server twice, and each of its reactions does to the list what
  it should do to the map from ids to servers: a current list replaces it, an applied update
  replaces one existing server and never brings a deleted one back, an applied deletion removes
  one, and a created server is added or replaced.
\<close>

theorem collection_refines_map:
  assumes "servers_ok s" and "collection_event_ok e"
  shows "servers_ok (collection_step e s) \<and>
    server_of (servers (collection_step e s)) = servers_step e s (server_of (servers s))"
proof (cases e)
  case (ListLoaded g result)
  then show ?thesis
    using assms by (auto simp: list_loaded_def servers_ok_def Let_def split: option.split)
next
  case (UpdateSettled i g p)
  then show ?thesis
    using assms replaceServer_ids [of "servers s"] replaceServer_map [of "servers s"]
    by (cases p) (auto simp: update_settled_def isLatestServerRequest_def servers_ok_def fun_eq_iff
        simp flip: set_map)
next
  case (RemoveSettled i g p)
  then show ?thesis
    using assms filter_map_of [of i "servers s"]
    by (cases p) (auto simp: remove_settled_def isLatestServerRequest_def servers_ok_def fun_eq_iff
        distinct_map_filter)
next
  case (Add server)
  have id: "sr_id server \<noteq> NaN" using Add assms(2) by simp
  define kept where "kept = filter (\<lambda>x. \<not> js_eq (sr_id x) (sr_id server)) (servers s)"
  have "server_of kept (sr_id server) = None" by (simp add: kept_def filter_map_of [OF id])
  from append_map_of [OF this] have "server_of (kept @ [server]) i = ((server_of (servers s))(sr_id server \<mapsto> server)) i" for i
    by (simp add: kept_def filter_map_of [OF id])
  moreover have "distinct (map sr_id (kept @ [server]))" "NaN \<notin> sr_id ` set (kept @ [server])"
    using assms(1) id by (auto simp: kept_def servers_ok_def distinct_map_filter js_eq_id)
  ultimately show ?thesis using Add by (simp add: addServer_def servers_ok_def kept_def fun_eq_iff)
qed (use assms in \<open>auto simp: servers_ok_def loadServers_def list_failed_def beginServerRequest_def Let_def
      split: option.split\<close>)

theorem collection_refines_map_witness:
  "server_of (servers (collection_step (Add server_one) initial_collection)) (Fin 1) = Some server_one"
proof -
  have "servers_ok initial_collection" "collection_event_ok (Add server_one)"
    by (simp_all add: servers_ok_def initial_collection_def server_one_def)
  from collection_refines_map [OF this] show ?thesis by (simp add: server_one_def)
qed

section \<open>The mark of a pending server\<close>

text \<open>
  The mark that a server is busy is gone as soon as its latest mutation settles, however it
  settles; the marks of the other servers do not move.
\<close>

lemma pending_mark_cleared:
  assumes "latestServerGeneration s i = Some g" and "collection_ok s"
  shows "pendingByServer (snd (update_settled i g p s)) = (pendingByServer s)(i := None) \<and>
    pendingByServer (snd (remove_settled i g q s)) = (pendingByServer s)(i := None)"
proof -
  have "pendingByServer s i = None \<or> map_option pr_generation (pendingByServer s i) = Some g"
    using assms by (cases "pendingByServer s i") (auto simp: collection_ok_def)
  then have "pendingByServer (finishServerRequest i g t) = (pendingByServer s)(i := None)"
    if "pendingByServer t = pendingByServer s" for t
    using that by (auto simp: finishServerRequest_def)
  then show ?thesis
    using assms(1)
    by (auto simp: update_settled_def remove_settled_def isLatestServerRequest_def split: promise.split)
qed

end
