(* ===== verification/ServerForms.thy ===== *)
theory ServerForms
  imports Messages
begin

text \<open>
  \<^verbatim>\<open>web/src/components/ServerForm.tsx\<close> and \<^verbatim>\<open>web/src/components/ServerInstallPanel.tsx\<close>: the
  form that creates a server, and the panel that shows a one-time token with the command that
  installs the agent. Static texts without data are left out of the views.
\<close>

section \<open>The form\<close>

definition trimmed_name :: "string \<Rightarrow> string" where
  "trimmed_name nm = trim nm"

text \<open>\<open>submit\<close>: the name that \<open>onSubmit\<close> is called with, if it is.\<close>

definition submit_server_form :: "bool \<Rightarrow> string \<Rightarrow> string option" where
  "submit_server_form disabled nm =
     (if trimmed_name nm = '''' \<or> disabled then None else Some (trimmed_name nm))"

record server_form_view =
  sf_value :: string
  sf_input_disabled :: bool
  sf_submit_disabled :: bool
  sf_submit_label :: string
  sf_cancel_disabled :: bool

definition server_form_view_of :: "bool \<Rightarrow> bool \<Rightarrow> string \<Rightarrow> server_form_view" where
  "server_form_view_of disabled submitting nm =
     \<lparr>sf_value = nm, sf_input_disabled = disabled,
      sf_submit_disabled = (disabled \<or> trimmed_name nm = ''''),
      sf_submit_label = (if submitting then t_creating else t_create),
      sf_cancel_disabled = disabled\<rparr>"

section \<open>Commands\<close>

text \<open>A template literal as its lines.\<close>

fun lines_text :: "string list \<Rightarrow> string" where
  "lines_text [] = ''''"
| "lines_text [l] = l"
| "lines_text (l # ls) = l @ [CHR 0x0A] @ lines_text ls"

definition sq :: "string \<Rightarrow> string" where
  "sq s = CHR 0x27 # s @ [CHR 0x27]"

definition dq :: "string \<Rightarrow> string" where
  "dq s = CHR 0x22 # s @ [CHR 0x22]"

definition backslash :: string where
  "backslash = [CHR 0x5C]"

datatype architecture = Amd64 | Arm64

fun architecture_name :: "architecture \<Rightarrow> string" where
  "architecture_name Amd64 = ''amd64''"
| "architecture_name Arm64 = ''arm64''"

definition agent_filename :: "architecture \<Rightarrow> string" where
  "agent_filename a = ''tinyprobe-agent-linux-'' @ architecture_name a"

definition installCommand :: "string \<Rightarrow> architecture \<Rightarrow> string" where
  "installCommand origin a = lines_text
     [''set -eu'',
      ''TMP_BIN='' @ dq ''$(mktemp)'',
      ''trap '' @ sq (''rm -f '' @ dq ''$TMP_BIN'') @ '' EXIT'',
      ''curl --fail --location --silent --show-error --output '' @ dq ''$TMP_BIN'' @ '' '' @ origin @
        ''/downloads/'' @ agent_filename a,
      ''read -rsp '' @ sq ''Agent Token: '' @ '' TINYPROBE_AGENT_TOKEN'',
      ''printf '' @ sq (backslash @ ''n''),
      ''sudo install -m 0755 '' @ dq ''$TMP_BIN'' @ '' /usr/local/bin/tinyprobe-agent'',
      ''sudo install -m 0600 /dev/null /etc/tinyprobe-agent.env'',
      ''printf '' @ sq (''%s'' @ backslash @ ''n'') @ '' '' @ backslash,
      ''  '' @ sq (''TINYPROBE_SERVER_URL='' @ origin @ ''/api/agent/v1/report'') @ '' '' @ backslash,
      ''  '' @ dq ''TINYPROBE_AGENT_TOKEN=$TINYPROBE_AGENT_TOKEN'' @ '' |'',
      ''  sudo tee /etc/tinyprobe-agent.env >/dev/null'',
      ''unset TINYPROBE_AGENT_TOKEN'',
      ''sudo tee /etc/systemd/system/tinyprobe-agent.service > /dev/null <<'' @ sq ''EOF'',
      ''[Unit]'',
      ''Description=TinyProbe Agent'',
      ''After=network-online.target'',
      ''Wants=network-online.target'',
      '''',
      ''[Service]'',
      ''DynamicUser=true'',
      ''EnvironmentFile=/etc/tinyprobe-agent.env'',
      ''ExecStart=/usr/local/bin/tinyprobe-agent'',
      ''Restart=always'',
      ''RestartSec=5'',
      ''NoNewPrivileges=true'',
      ''ProtectSystem=strict'',
      ''ReadOnlyPaths=/proc /sys'',
      '''',
      ''[Install]'',
      ''WantedBy=multi-user.target'',
      ''EOF'',
      ''sudo systemctl daemon-reload'',
      ''sudo systemctl enable --now tinyprobe-agent'']"

definition uninstallCommand :: string where
  "uninstallCommand = lines_text
     [''sudo systemctl disable --now tinyprobe-agent.service 2>/dev/null || true'',
      ''sudo rm -f /etc/systemd/system/tinyprobe-agent.service'',
      ''sudo rm -f /etc/tinyprobe-agent.env'',
      ''sudo rm -f /usr/local/bin/tinyprobe-agent'',
      ''sudo systemctl daemon-reload'',
      ''sudo systemctl reset-failed tinyprobe-agent.service 2>/dev/null || true'']"

section \<open>The panel\<close>

record copy_feedback =
  cf_message :: string
  cf_failed :: bool

record install_panel =
  ip_architecture :: architecture
  ip_copyFeedback :: "copy_feedback option"
  ip_announcement :: string
  ip_clipboard :: "string option"

definition initial_panel :: install_panel where
  "initial_panel =
     \<lparr>ip_architecture = Amd64, ip_copyFeedback = None, ip_announcement = '''', ip_clipboard = None\<rparr>"

text \<open>
  The effect of the token: it empties the announcement and, after a timeout of zero, fills it,
  so that a screen reader announces every new token.
\<close>

definition announce_reset :: "install_panel \<Rightarrow> install_panel" where
  "announce_reset p = p\<lparr>ip_announcement := ''''\<rparr>"

definition announce_timeout :: "install_panel \<Rightarrow> install_panel" where
  "announce_timeout p = p\<lparr>ip_announcement := t_token_ready\<rparr>"

text \<open>
  \<open>copy\<close>, with the outcome of the clipboard: \<open>writes\<close> is false when there is no clipboard or it
  refuses. \<open>ip_clipboard\<close> is the text that was written last.
\<close>

definition copy_text :: "bool \<Rightarrow> string \<Rightarrow> string \<Rightarrow> install_panel \<Rightarrow> install_panel" where
  "copy_text writes label v p =
     (if writes then p\<lparr>ip_clipboard := Some v,
                       ip_copyFeedback := Some \<lparr>cf_message = label @ t_copied, cf_failed = False\<rparr>\<rparr>
      else p\<lparr>ip_copyFeedback := Some \<lparr>cf_message = t_copy_failed, cf_failed = True\<rparr>\<rparr>)"

fun other_architecture :: "architecture \<Rightarrow> architecture" where
  "other_architecture Amd64 = Arm64"
| "other_architecture Arm64 = Amd64"

definition next_architecture :: "string \<Rightarrow> architecture \<Rightarrow> architecture option" where
  "next_architecture key a =
     (if key = ''ArrowRight'' then Some (other_architecture a)
      else if key = ''ArrowLeft'' then Some (other_architecture a)
      else if key = ''End'' then Some Arm64
      else if key = ''Home'' then Some Amd64
      else None)"

text \<open>The new panel, and the tab that gets the focus; without one the key keeps its default action.\<close>

definition moveArchitectureFocus :: "string \<Rightarrow> install_panel \<Rightarrow> architecture option \<times> install_panel" where
  "moveArchitectureFocus key p =
     (case next_architecture key (ip_architecture p) of
        None \<Rightarrow> (None, p)
      | Some a \<Rightarrow> (Some a, p\<lparr>ip_architecture := a\<rparr>))"

record architecture_tab =
  tab_value :: architecture
  tab_selected :: bool
  tab_index :: int

record install_view =
  iv_title :: string
  iv_announcement :: string
  iv_token :: string
  iv_tabs :: "architecture_tab list"
  iv_command :: string
  iv_feedback :: "copy_feedback option"

definition install_view_of :: "string \<Rightarrow> string \<Rightarrow> string \<Rightarrow> install_panel \<Rightarrow> install_view" where
  "install_view_of origin nm tok p =
     \<lparr>iv_title = t_install @ nm @ t_its_agent, iv_announcement = ip_announcement p, iv_token = tok,
      iv_tabs = map (\<lambda>v. \<lparr>tab_value = v, tab_selected = (ip_architecture p = v),
                         tab_index = (if ip_architecture p = v then 0 else - 1)\<rparr>) [Amd64, Arm64],
      iv_command = installCommand origin (ip_architecture p), iv_feedback = ip_copyFeedback p\<rparr>"

end
