(* ===== verification/ServersPage.thy ===== *)
theory ServersPage
  imports TokenRouter ServerCollection ServerForms JsArray
begin

text \<open>
  \<^verbatim>\<open>web/src/pages/ServersPage.tsx\<close>: the state of one mounted management page, its handlers
  cut at their \<open>await\<close>, and what it renders. A handler that awaits is a pair of operations:
  \<open>*_begin\<close> up to the request and \<open>*_done\<close> from its outcome, the continuation in the handler
  included. The callbacks of the router are its operations of theory TokenRouter.
\<close>

datatype confirmation_kind = ConfirmDelete | ConfirmRotate

text \<open>\<open>FocusTarget\<close>; it also names the button that gets the focus.\<close>

datatype focus_target = FocusAdd | FocusRotateButton jsnum | FocusServer jsnum

record page =
  coll :: collection
  showCreate :: bool
  creating :: bool
  editingId :: "jsnum option"
  editName :: string
  confirmation :: "(jsnum \<times> confirmation_kind) option"
  uninstallServerID :: "jsnum option"
  copyFeedback :: "copy_feedback option"
  operationError :: string
  focusAfterUpdate :: "focus_target option"

text \<open>Mounting runs the effect that loads the list.\<close>

definition mount_page :: page where
  "mount_page =
     \<lparr>coll = loadServers initial_collection, showCreate = False, creating = False, editingId = None,
      editName = '''', confirmation = None, uninstallServerID = None, copyFeedback = None,
      operationError = '''', focusAfterUpdate = None\<rparr>"

definition id_is :: "jsnum option \<Rightarrow> jsnum \<Rightarrow> bool" where
  "id_is x i = (case x of None \<Rightarrow> False | Some j \<Rightarrow> js_eq j i)"

definition tokenLocked :: "router \<Rightarrow> bool" where
  "tokenLocked r \<longleftrightarrow> tokenRequestPending r \<or> oneTimeToken r \<noteq> None"

definition rowBusy :: "router \<Rightarrow> page \<Rightarrow> jsnum \<Rightarrow> bool" where
  "rowBusy r p i \<longleftrightarrow>
     pendingByServer (coll p) i \<noteq> None \<or> (tokenRequestPending r \<and> id_is (tokenRequestServerId r) i)"

definition add_disabled :: "router \<Rightarrow> page \<Rightarrow> bool" where
  "add_disabled r p \<longleftrightarrow> creating p \<or> loadState (coll p) = Loading \<or> tokenLocked r"

section \<open>Handlers\<close>

definition toggle_create :: "page \<Rightarrow> page" where
  "toggle_create p = p\<lparr>showCreate := \<not> showCreate p, operationError := ''''\<rparr>"

definition create_begin :: "router \<Rightarrow> page \<Rightarrow> bool \<times> router \<times> page" where
  "create_begin r p =
     (case startTokenRequest None r of
        (granted, r') \<Rightarrow>
          if \<not> granted then (False, r', p)
          else (True, r', p\<lparr>creating := True, operationError := ''''\<rparr>))"

definition create_done :: "server_token_result promise \<Rightarrow> router \<Rightarrow> page \<Rightarrow> router \<times> page" where
  "create_done outcome r p =
     (let (r', p') =
        (case outcome of
           Fulfilled result \<Rightarrow>
             (publishToken
                \<lparr>ot_serverId = sr_id (tr_server result), ot_serverName = sr_name (tr_server result),
                 ot_token = tr_token result, ot_returnFocus = FocusCreate\<rparr> r,
              p\<lparr>coll := addServer (tr_server result) (coll p), showCreate := False\<rparr>)
         | Rejected e \<Rightarrow>
             let message = apiErrorMessage e t_create_failed
             in (failTokenRequest message r, p\<lparr>operationError := message\<rparr>))
      in (r', p'\<lparr>creating := False\<rparr>))"

definition beginRename :: "server_record \<Rightarrow> page \<Rightarrow> page" where
  "beginRename server p =
     p\<lparr>editingId := Some (sr_id server), editName := sr_name server, confirmation := None,
       operationError := ''''\<rparr>"

text \<open>The generation and the name of the request, if one is sent.\<close>

definition rename_begin :: "server_record \<Rightarrow> page \<Rightarrow> (nat \<times> string) option \<times> page" where
  "rename_begin server p =
     (let nm = trim (editName p)
      in if nm = '''' \<or> nm = sr_name server then (None, p)
         else case beginServerRequest (sr_id server) ActRename (coll p) of
                (g, c) \<Rightarrow> (Some (g, nm), p\<lparr>operationError := '''', coll := c\<rparr>))"

definition rename_done ::
  "server_record \<Rightarrow> nat \<Rightarrow> string \<Rightarrow> server_record promise \<Rightarrow> router \<Rightarrow> page \<Rightarrow> router \<times> page" where
  "rename_done server g nm outcome r p =
     (case update_settled (sr_id server) g outcome (coll p) of
        (Applied, c) \<Rightarrow> (renameTokenServer (sr_id server) nm r, p\<lparr>coll := c, editingId := None\<rparr>)
      | (NotApplied, c) \<Rightarrow> (r, p\<lparr>coll := c\<rparr>)
      | (Threw e, c) \<Rightarrow> (r, p\<lparr>coll := c, operationError := apiErrorMessage e t_rename_failed\<rparr>))"

definition toggle_begin :: "server_record \<Rightarrow> page \<Rightarrow> nat \<times> page" where
  "toggle_begin server p =
     (case beginServerRequest (sr_id server) ActToggle (coll p) of
        (g, c) \<Rightarrow> (g, p\<lparr>operationError := '''', coll := c\<rparr>))"

definition toggle_done :: "server_record \<Rightarrow> nat \<Rightarrow> server_record promise \<Rightarrow> page \<Rightarrow> page" where
  "toggle_done server g outcome p =
     (let enabled = (\<not> sr_enabled server)
      in case update_settled (sr_id server) g outcome (coll p) of
           (Applied, c) \<Rightarrow> p\<lparr>coll := c\<rparr>
         | (NotApplied, c) \<Rightarrow> p\<lparr>coll := c\<rparr>
         | (Threw e, c) \<Rightarrow>
             p\<lparr>coll := c, operationError :=
                 apiErrorMessage e (if enabled then t_enable_failed else t_disable_failed)\<rparr>)"

text \<open>\<open>servers[index + 1] ?? servers[index - 1]\<close>, where the index is minus one for no server.\<close>

definition survivor_of :: "jsnum \<Rightarrow> server_record list \<Rightarrow> server_record option" where
  "survivor_of i srvs =
     (let slot = (\<lambda>k. if 0 \<le> k \<and> k < int (length srvs) then Some (srvs ! nat k) else None);
          index = (case find_index (\<lambda>s. js_eq (sr_id s) i) srvs of None \<Rightarrow> - 1 | Some k \<Rightarrow> int k)
      in case slot (index + 1) of Some s \<Rightarrow> Some s | None \<Rightarrow> slot (index - 1))"

definition remove_begin :: "server_record \<Rightarrow> page \<Rightarrow> nat \<times> page" where
  "remove_begin server p =
     (let target = (case survivor_of (sr_id server) (servers (coll p)) of
                      Some s \<Rightarrow> FocusServer (sr_id s)
                    | None \<Rightarrow> FocusAdd)
      in case beginServerRequest (sr_id server) ActDelete (coll p) of
           (g, c) \<Rightarrow> (g, p\<lparr>focusAfterUpdate := Some target, operationError := '''', coll := c\<rparr>))"

definition remove_done ::
  "server_record \<Rightarrow> nat \<Rightarrow> unit promise \<Rightarrow> router \<Rightarrow> page \<Rightarrow> router \<times> page" where
  "remove_done server g outcome r p =
     (case remove_settled (sr_id server) g outcome (coll p) of
        (Applied, c) \<Rightarrow>
          (clearTokenForDeletedServer (sr_id server) r, p\<lparr>coll := c, confirmation := None\<rparr>)
      | (NotApplied, c) \<Rightarrow> (r, p\<lparr>coll := c\<rparr>)
      | (Threw e, c) \<Rightarrow>
          (r, p\<lparr>coll := c, focusAfterUpdate := None,
                operationError := apiErrorMessage e t_delete_failed\<rparr>))"

definition rotate_begin :: "server_record \<Rightarrow> router \<Rightarrow> page \<Rightarrow> nat option \<times> router \<times> page" where
  "rotate_begin server r p =
     (case startTokenRequest (Some (sr_id server)) r of
        (granted, r') \<Rightarrow>
          if \<not> granted then (None, r', p)
          else case beginServerRequest (sr_id server) ActRotate (coll p) of
                 (g, c) \<Rightarrow> (Some g, r', p\<lparr>operationError := '''', coll := c\<rparr>))"

text \<open>The request that \<open>rotate\<close> gives to \<open>updateServer\<close>, and the token it leaves behind.\<close>

fun rotated_server :: "server_token_result promise \<Rightarrow> server_record promise" where
  "rotated_server (Fulfilled result) = Fulfilled (tr_server result)"
| "rotated_server (Rejected e) = Rejected e"

fun rotated_token :: "server_token_result promise \<Rightarrow> string" where
  "rotated_token (Fulfilled result) = tr_token result"
| "rotated_token (Rejected e) = ''''"

definition rotate_done ::
  "server_record \<Rightarrow> nat \<Rightarrow> server_token_result promise \<Rightarrow> router \<Rightarrow> page \<Rightarrow> router \<times> page" where
  "rotate_done server g outcome r p =
     (case update_settled (sr_id server) g (rotated_server outcome) (coll p) of
        (Applied, c) \<Rightarrow>
          (publishToken
             \<lparr>ot_serverId = sr_id server, ot_serverName = sr_name server,
              ot_token = rotated_token outcome, ot_returnFocus = FocusRotate (sr_id server)\<rparr> r,
           p\<lparr>coll := c, confirmation := None\<rparr>)
      | (NotApplied, c) \<Rightarrow> (failTokenRequest t_superseded r, p\<lparr>coll := c\<rparr>)
      | (Threw e, c) \<Rightarrow>
          let message = apiErrorMessage e t_rotate_failed
          in (failTokenRequest message r, p\<lparr>coll := c, operationError := message\<rparr>))"

definition clear_token :: "router \<Rightarrow> page \<Rightarrow> router \<times> page" where
  "clear_token r p =
     (clearToken r,
      p\<lparr>focusAfterUpdate :=
          (case map_option ot_returnFocus (oneTimeToken r) of
             Some (FocusRotate i) \<Rightarrow> Some (FocusRotateButton i)
           | _ \<Rightarrow> Some FocusAdd)\<rparr>)"

definition copyUninstallCommand :: "bool \<Rightarrow> page \<Rightarrow> page" where
  "copyUninstallCommand writes p =
     p\<lparr>copyFeedback :=
         Some (if writes then \<lparr>cf_message = t_uninstall_copied, cf_failed = False\<rparr>
               else \<lparr>cf_message = t_copy_failed, cf_failed = True\<rparr>)\<rparr>"

definition ask_confirmation :: "server_record \<Rightarrow> confirmation_kind \<Rightarrow> page \<Rightarrow> page" where
  "ask_confirmation server k p = p\<lparr>confirmation := Some (sr_id server, k), operationError := ''''\<rparr>"

definition toggle_uninstall :: "server_record \<Rightarrow> page \<Rightarrow> page" where
  "toggle_uninstall server p =
     p\<lparr>uninstallServerID :=
         (if id_is (uninstallServerID p) (sr_id server) then None else Some (sr_id server)),
       copyFeedback := None\<rparr>"

section \<open>Focus\<close>

text \<open>Whether the button that a target names is on the page and enabled.\<close>

fun target_enabled :: "router \<Rightarrow> page \<Rightarrow> focus_target \<Rightarrow> bool" where
  "target_enabled r p FocusAdd = (\<not> add_disabled r p)"
| "target_enabled r p (FocusRotateButton i) =
     (loadState (coll p) = LoadSucceeded \<and> list_ex (\<lambda>s. sr_id s = i) (servers (coll p)) \<and>
      \<not> id_is (editingId p) i \<and> \<not> rowBusy r p i \<and> \<not> tokenLocked r)"
| "target_enabled r p (FocusServer i) =
     (loadState (coll p) = LoadSucceeded \<and> list_ex (\<lambda>s. sr_id s = i) (servers (coll p)) \<and>
      \<not> id_is (editingId p) i \<and> \<not> rowBusy r p i)"

text \<open>The effect that moves the focus: the button that gets it, and the page after it.\<close>

definition focus_effect :: "router \<Rightarrow> page \<Rightarrow> focus_target option \<times> page" where
  "focus_effect r p =
     (case focusAfterUpdate p of
        None \<Rightarrow> (None, p)
      | Some requested \<Rightarrow>
          let target = (if target_enabled r p requested then requested else FocusAdd)
          in if target_enabled r p target then (Some target, p\<lparr>focusAfterUpdate := None\<rparr>)
             else (None, p))"

section \<open>What the page renders\<close>

record button_view =
  bt_text :: string
  bt_label :: string
  bt_disabled :: bool

record rename_view =
  rn_value :: string
  rn_input_disabled :: bool
  rn_save :: button_view
  rn_cancel_disabled :: bool

record confirm_view =
  cv_warning :: string
  cv_detail :: string
  cv_confirm :: button_view
  cv_cancel_disabled :: bool

record uninstall_view =
  un_label :: string
  un_command :: string
  un_feedback :: "copy_feedback option"

record row_view =
  row_id :: jsnum
  row_enabled :: bool
  row_rename :: "rename_view option"
  row_heading :: "(string \<times> string \<times> string) option"
  row_actions :: "button_view list"
  row_uninstall :: "uninstall_view option"
  row_confirm :: "confirm_view option"

definition save_disabled :: "router \<Rightarrow> page \<Rightarrow> server_record \<Rightarrow> bool" where
  "save_disabled r p server \<longleftrightarrow>
     rowBusy r p (sr_id server) \<or> trim (editName p) = '''' \<or> trim (editName p) = sr_name server"

definition rename_view_of :: "router \<Rightarrow> page \<Rightarrow> server_record \<Rightarrow> rename_view" where
  "rename_view_of r p server =
     \<lparr>rn_value = editName p, rn_input_disabled = rowBusy r p (sr_id server),
      rn_save = \<lparr>bt_text = t_save, bt_label = t_save @ '' '' @ sr_name server @ t_its_new_name,
                 bt_disabled = save_disabled r p server\<rparr>,
      rn_cancel_disabled = rowBusy r p (sr_id server)\<rparr>"

definition heading_of :: "server_record \<Rightarrow> string \<times> string \<times> string" where
  "heading_of server =
     (sr_name server, if sr_enabled server then t_is_enabled else t_is_disabled,
      if sr_agentVersion server \<noteq> '''' then ''Agent '' @ sr_agentVersion server else t_agent_silent)"

definition pending_action :: "page \<Rightarrow> jsnum \<Rightarrow> server_pending_action option" where
  "pending_action p i = map_option pr_action (pendingByServer (coll p) i)"

definition actions_of :: "router \<Rightarrow> page \<Rightarrow> server_record \<Rightarrow> button_view list" where
  "actions_of r p server =
     (let busy = rowBusy r p (sr_id server); nm = sr_name server
      in [\<lparr>bt_text = t_rename, bt_label = t_rename @ '' '' @ nm, bt_disabled = busy\<rparr>,
          \<lparr>bt_text = (if pending_action p (sr_id server) = Some ActToggle then t_processing
                      else if sr_enabled server then t_disable else t_enable),
           bt_label = (if sr_enabled server then t_disable else t_enable) @ '' '' @ nm,
           bt_disabled = busy\<rparr>,
          \<lparr>bt_text = t_regenerate @ '' Token'', bt_label = t_regenerate @ '' '' @ nm @ t_its_token,
           bt_disabled = (busy \<or> tokenLocked r)\<rparr>,
          \<lparr>bt_text = t_uninstall @ '' Agent'', bt_label = t_uninstall @ '' '' @ nm @ t_its_agent,
           bt_disabled = busy\<rparr>,
          \<lparr>bt_text = t_delete, bt_label = t_delete @ '' '' @ nm, bt_disabled = busy\<rparr>])"

fun action_of :: "confirmation_kind \<Rightarrow> server_pending_action" where
  "action_of ConfirmDelete = ActDelete"
| "action_of ConfirmRotate = ActRotate"

definition confirm_disabled :: "router \<Rightarrow> page \<Rightarrow> jsnum \<Rightarrow> confirmation_kind \<Rightarrow> bool" where
  "confirm_disabled r p i k \<longleftrightarrow> rowBusy r p i \<or> (k = ConfirmRotate \<and> tokenLocked r)"

definition confirm_view_of :: "router \<Rightarrow> page \<Rightarrow> server_record \<Rightarrow> confirmation_kind \<Rightarrow> confirm_view" where
  "confirm_view_of r p server k =
     \<lparr>cv_warning = (if k = ConfirmDelete then t_delete_warning else t_rotate_warning),
      cv_detail = (if k = ConfirmDelete then t_delete_detail else t_rotate_detail),
      cv_confirm =
        \<lparr>bt_text = (if pending_action p (sr_id server) = Some (action_of k) then t_processing
                    else t_confirm),
         bt_label = t_confirm @ (if k = ConfirmDelete then t_delete else t_regenerate) @ '' '' @
           sr_name server @ (if k = ConfirmRotate then t_its_token else ''''),
         bt_disabled = confirm_disabled r p (sr_id server) k\<rparr>,
      cv_cancel_disabled = rowBusy r p (sr_id server)\<rparr>"

definition uninstall_view_of :: "page \<Rightarrow> server_record \<Rightarrow> uninstall_view option" where
  "uninstall_view_of p server =
     (if id_is (uninstallServerID p) (sr_id server) then
        Some \<lparr>un_label = t_uninstall @ '' '' @ sr_name server @ t_its_agent,
              un_command = uninstallCommand, un_feedback = copyFeedback p\<rparr>
      else None)"

definition row_view_of :: "router \<Rightarrow> page \<Rightarrow> server_record \<Rightarrow> row_view" where
  "row_view_of r p server =
     (let i = sr_id server; renaming = id_is (editingId p) i
      in \<lparr>row_id = i, row_enabled = sr_enabled server,
          row_rename = (if renaming then Some (rename_view_of r p server) else None),
          row_heading = (if renaming then None else Some (heading_of server)),
          row_actions = (if renaming then [] else actions_of r p server),
          row_uninstall = uninstall_view_of p server,
          row_confirm =
            (case confirmation p of
               None \<Rightarrow> None
             | Some (j, k) \<Rightarrow> if js_eq j i then Some (confirm_view_of r p server k) else None)\<rparr>)"

record servers_view =
  sv_add :: button_view
  sv_add_expanded :: bool
  sv_form :: "(bool \<times> bool) option"
  sv_error :: "string option"
  sv_install :: "(string \<times> string) option"
  sv_loading :: bool
  sv_load_error :: "string option"
  sv_empty :: bool
  sv_list :: "(string \<times> row_view list) option"

definition list_error :: "collection \<Rightarrow> string" where
  "list_error c =
     (case loadError c of Some e \<Rightarrow> apiErrorMessage e t_list_failed | None \<Rightarrow> t_list_failed)"

definition servers_view_of :: "router \<Rightarrow> page \<Rightarrow> servers_view" where
  "servers_view_of r p =
     (let c = coll p; srvs = servers c;
          add_text = (if showCreate p then t_collapse_add else t_add_server)
      in \<lparr>sv_add = \<lparr>bt_text = add_text, bt_label = add_text, bt_disabled = add_disabled r p\<rparr>,
          sv_add_expanded = showCreate p,
          sv_form = (if showCreate p then Some (add_disabled r p, creating p) else None),
          sv_error = (if operationError p \<noteq> '''' then Some (operationError p) else None),
          sv_install = map_option (\<lambda>t. (ot_serverName t, ot_token t)) (oneTimeToken r),
          sv_loading = (loadState c = Loading),
          sv_load_error = (if loadState c = LoadErrored then Some (list_error c) else None),
          sv_empty = (loadState c = LoadSucceeded \<and> srvs = []),
          sv_list =
            (if loadState c = LoadSucceeded \<and> srvs \<noteq> [] then
               Some (number_to_string (num_of_int (int (length srvs))) @ t_servers_count,
                     map (row_view_of r p) srvs)
             else None)\<rparr>)"

lemmas page_ops [hook_defs] =
  toggle_create_def create_begin_def create_done_def beginRename_def rename_begin_def rename_done_def
  toggle_begin_def toggle_done_def remove_begin_def remove_done_def rotate_begin_def rotate_done_def
  clear_token_def copyUninstallCommand_def ask_confirmation_def toggle_uninstall_def

end
