(* ===== verification/Dashboard.thy ===== *)
theory Dashboard
  imports ServersPage
begin

text \<open>
  The router and the management page together: \<^verbatim>\<open>App.tsx\<close> mounts a new \<open>ServersPage\<close> whenever
  the management path is entered or \<open>managementGeneration\<close> changes, requests outlive the page
  that sent them, and a one-time token is handed from the page to the router. The user acts on
  the page that is shown, and only through controls that it renders enabled; a request settles
  at any time, once.
\<close>

section \<open>Requests under way\<close>

text \<open>The page that sent the request, the server it is about, its generation, the new name.\<close>

datatype page_op =
    OpCreate nat
  | OpRename nat server_record nat string
  | OpToggle nat server_record nat
  | OpRemove nat server_record nat
  | OpRotate nat server_record nat

fun op_page :: "page_op \<Rightarrow> nat" where
  "op_page (OpCreate i) = i"
| "op_page (OpRename i s g nm) = i"
| "op_page (OpToggle i s g) = i"
| "op_page (OpRemove i s g) = i"
| "op_page (OpRotate i s g) = i"

text \<open>The server and the mark that \<open>beginServerRequest\<close> has left for the request.\<close>

fun op_mark :: "page_op \<Rightarrow> (jsnum \<times> pending_request) option" where
  "op_mark (OpCreate i) = None"
| "op_mark (OpRename i s g nm) = Some (sr_id s, \<lparr>pr_action = ActRename, pr_generation = g\<rparr>)"
| "op_mark (OpToggle i s g) = Some (sr_id s, \<lparr>pr_action = ActToggle, pr_generation = g\<rparr>)"
| "op_mark (OpRemove i s g) = Some (sr_id s, \<lparr>pr_action = ActDelete, pr_generation = g\<rparr>)"
| "op_mark (OpRotate i s g) = Some (sr_id s, \<lparr>pr_action = ActRotate, pr_generation = g\<rparr>)"

fun token_op :: "page_op \<Rightarrow> bool" where
  "token_op (OpCreate i) = True"
| "token_op (OpRotate i s g) = True"
| "token_op _ = False"

fun token_op_server :: "page_op \<Rightarrow> jsnum option" where
  "token_op_server (OpRotate i s g) = Some (sr_id s)"
| "token_op_server _ = None"

section \<open>The state\<close>

record dashboard =
  rt :: router
  pages :: "nat \<rightharpoonup> page"
  shown :: "(nat \<times> nat) option"
  next_page :: nat
  in_flight :: "page_op list"

text \<open>
  What React does after a change: the page with key \<open>managementGeneration\<close> is kept, another one
  is unmounted, and a new one is mounted where the route asks for one.
\<close>

definition remount :: "dashboard \<Rightarrow> dashboard" where
  "remount d =
     (if route_of (pathname (rt d)) \<noteq> ManagementRoute then d\<lparr>shown := None\<rparr>
      else if map_option snd (shown d) = Some (managementGeneration (rt d)) then d
      else d\<lparr>pages := (pages d)(next_page d \<mapsto> mount_page),
             shown := Some (next_page d, managementGeneration (rt d)), next_page := next_page d + 1\<rparr>)"

definition initial_dashboard :: "string \<Rightarrow> dashboard" where
  "initial_dashboard path =
     remount \<lparr>rt = initial_router path, pages = Map.empty, shown = None, next_page = 0, in_flight = []\<rparr>"

section \<open>What the user does\<close>

datatype user_action =
    ClickAdd
  | SubmitCreate string
  | CancelCreate
  | ClickRename server_record
  | EditText string
  | SubmitRename server_record
  | CancelRename server_record
  | ClickToggle server_record
  | ClickRotate server_record
  | ClickDelete server_record
  | ClickConfirm server_record
  | ClickCancel server_record
  | ClickUninstall server_record
  | CopyUninstall bool
  | ClickSaved
  | ClickReload
  | FocusEffect

definition row_shown :: "page \<Rightarrow> server_record \<Rightarrow> bool" where
  "row_shown p server \<longleftrightarrow> loadState (coll p) = LoadSucceeded \<and> server \<in> set (servers (coll p))"

definition row_renaming :: "page \<Rightarrow> server_record \<Rightarrow> bool" where
  "row_renaming p server \<longleftrightarrow> id_is (editingId p) (sr_id server)"

definition row_confirming :: "page \<Rightarrow> server_record \<Rightarrow> confirmation_kind option" where
  "row_confirming p server =
     (case confirmation p of
        Some (j, k) \<Rightarrow> if js_eq j (sr_id server) then Some k else None
      | None \<Rightarrow> None)"

text \<open>Whether the control exists on the rendered page and is enabled.\<close>

fun enabled :: "router \<Rightarrow> page \<Rightarrow> user_action \<Rightarrow> bool" where
  "enabled r p ClickAdd = (\<not> add_disabled r p)"
| "enabled r p (SubmitCreate nm) = (showCreate p \<and> submit_server_form (add_disabled r p) nm \<noteq> None)"
| "enabled r p CancelCreate = (showCreate p \<and> \<not> add_disabled r p)"
| "enabled r p (ClickRename s) = (row_shown p s \<and> \<not> row_renaming p s \<and> \<not> rowBusy r p (sr_id s))"
| "enabled r p (EditText t) = (\<exists>s \<in> set (servers (coll p)). row_renaming p s \<and> \<not> rowBusy r p (sr_id s))"
| "enabled r p (SubmitRename s) = (row_shown p s \<and> row_renaming p s \<and> \<not> save_disabled r p s)"
| "enabled r p (CancelRename s) = (row_shown p s \<and> row_renaming p s \<and> \<not> rowBusy r p (sr_id s))"
| "enabled r p (ClickToggle s) = (row_shown p s \<and> \<not> row_renaming p s \<and> \<not> rowBusy r p (sr_id s))"
| "enabled r p (ClickRotate s) =
     (row_shown p s \<and> \<not> row_renaming p s \<and> \<not> rowBusy r p (sr_id s) \<and> \<not> tokenLocked r)"
| "enabled r p (ClickDelete s) = (row_shown p s \<and> \<not> row_renaming p s \<and> \<not> rowBusy r p (sr_id s))"
| "enabled r p (ClickConfirm s) =
     (row_shown p s \<and> (case row_confirming p s of
        Some k \<Rightarrow> \<not> confirm_disabled r p (sr_id s) k | None \<Rightarrow> False))"
| "enabled r p (ClickCancel s) =
     (row_shown p s \<and> row_confirming p s \<noteq> None \<and> \<not> rowBusy r p (sr_id s))"
| "enabled r p (ClickUninstall s) = (row_shown p s \<and> \<not> row_renaming p s \<and> \<not> rowBusy r p (sr_id s))"
| "enabled r p (CopyUninstall w) = (uninstallServerID p \<noteq> None)"
| "enabled r p ClickSaved = (oneTimeToken r \<noteq> None)"
| "enabled r p ClickReload = (loadState (coll p) = LoadErrored)"
| "enabled r p FocusEffect = True"

text \<open>The confirmed action: \<open>remove\<close> or \<open>rotate\<close>.\<close>

definition confirmed ::
  "nat \<Rightarrow> confirmation_kind \<Rightarrow> server_record \<Rightarrow> router \<Rightarrow> page \<Rightarrow> router \<times> page \<times> page_op option" where
  "confirmed i k s r p =
     (if k = ConfirmDelete then
        (case remove_begin s p of (g, p') \<Rightarrow> (r, p', Some (OpRemove i s g)))
      else case rotate_begin s r p of
             (None, r', p') \<Rightarrow> (r', p', None)
           | (Some g, r', p') \<Rightarrow> (r', p', Some (OpRotate i s g)))"

fun act :: "nat \<Rightarrow> user_action \<Rightarrow> router \<Rightarrow> page \<Rightarrow> router \<times> page \<times> page_op option" where
  "act i ClickAdd r p = (r, toggle_create p, None)"
| "act i (SubmitCreate nm) r p =
     (case create_begin r p of
        (granted, r', p') \<Rightarrow> (r', p', if granted then Some (OpCreate i) else None))"
| "act i CancelCreate r p = (r, p\<lparr>showCreate := False\<rparr>, None)"
| "act i (ClickRename s) r p = (r, beginRename s p, None)"
| "act i (EditText t) r p = (r, p\<lparr>editName := t\<rparr>, None)"
| "act i (SubmitRename s) r p =
     (case rename_begin s p of
        (None, p') \<Rightarrow> (r, p', None)
      | (Some (g, nm), p') \<Rightarrow> (r, p', Some (OpRename i s g nm)))"
| "act i (CancelRename s) r p = (r, p\<lparr>editingId := None\<rparr>, None)"
| "act i (ClickToggle s) r p = (case toggle_begin s p of (g, p') \<Rightarrow> (r, p', Some (OpToggle i s g)))"
| "act i (ClickRotate s) r p = (r, ask_confirmation s ConfirmRotate p, None)"
| "act i (ClickDelete s) r p = (r, ask_confirmation s ConfirmDelete p, None)"
| "act i (ClickConfirm s) r p =
     (case row_confirming p s of None \<Rightarrow> (r, p, None) | Some k \<Rightarrow> confirmed i k s r p)"
| "act i (ClickCancel s) r p = (r, p\<lparr>confirmation := None\<rparr>, None)"
| "act i (ClickUninstall s) r p = (r, toggle_uninstall s p, None)"
| "act i (CopyUninstall w) r p = (r, copyUninstallCommand w p, None)"
| "act i ClickSaved r p = (case clear_token r p of (r', p') \<Rightarrow> (r', p', None))"
| "act i ClickReload r p = (r, p\<lparr>coll := loadServers (coll p)\<rparr>, None)"
| "act i FocusEffect r p = (r, snd (focus_effect r p), None)"

section \<open>How requests end\<close>

datatype settlement =
    TokenOutcome "server_token_result promise"
  | ServerOutcome "server_record promise"
  | UnitOutcome "unit promise"

text \<open>The page and the router after a request; \<open>None\<close> for an outcome of another request's type.\<close>

fun finish :: "page_op \<Rightarrow> settlement \<Rightarrow> router \<Rightarrow> page \<Rightarrow> (router \<times> page) option" where
  "finish (OpCreate i) (TokenOutcome out) r p = Some (create_done out r p)"
| "finish (OpRename i s g nm) (ServerOutcome out) r p = Some (rename_done s g nm out r p)"
| "finish (OpToggle i s g) (ServerOutcome out) r p = Some (r, toggle_done s g out p)"
| "finish (OpRemove i s g) (UnitOutcome out) r p = Some (remove_done s g out r p)"
| "finish (OpRotate i s g) (TokenOutcome out) r p = Some (rotate_done s g out r p)"
| "finish _ _ r p = None"

datatype dashboard_event =
    GoTo string
  | PopTo string
  | DismissError
  | User user_action
  | Settled page_op settlement
  | ListSettled nat nat "server_record list promise"

fun dashboard_step :: "dashboard_event \<Rightarrow> dashboard \<Rightarrow> dashboard" where
  "dashboard_step (GoTo path) d = remount (d\<lparr>rt := navigate path (rt d)\<rparr>)"
| "dashboard_step (PopTo path) d = remount (d\<lparr>rt := handlePopState path (rt d)\<rparr>)"
| "dashboard_step DismissError d =
     (if dv_error_reminder (dashboard_view_of (rt d)) = None then d
      else remount (d\<lparr>rt := dismissTokenError (rt d)\<rparr>))"
| "dashboard_step (User a) d =
     (case shown d of
        None \<Rightarrow> d
      | Some (i, k) \<Rightarrow>
          (case pages d i of
             None \<Rightarrow> d
           | Some p \<Rightarrow>
               if \<not> enabled (rt d) p a then d
               else case act i a (rt d) p of
                      (r', p', started) \<Rightarrow>
                        remount (d\<lparr>rt := r', pages := (pages d)(i \<mapsto> p'),
                                   in_flight := in_flight d @ (case started of None \<Rightarrow> [] | Some x \<Rightarrow> [x])\<rparr>)))"
| "dashboard_step (Settled x out) d =
     (case pages d (op_page x) of
        None \<Rightarrow> d
      | Some p \<Rightarrow>
          if x \<notin> set (in_flight d) then d
          else case finish x out (rt d) p of
                 None \<Rightarrow> d
               | Some (r', p') \<Rightarrow>
                   remount (d\<lparr>rt := r', pages := (pages d)(op_page x \<mapsto> p'),
                              in_flight := remove1 x (in_flight d)\<rparr>))"
| "dashboard_step (ListSettled i g out) d =
     (case pages d i of
        None \<Rightarrow> d
      | Some p \<Rightarrow>
          let c = (case out of Fulfilled l \<Rightarrow> list_loaded g l (coll p) | Rejected e \<Rightarrow> list_failed g e (coll p))
          in d\<lparr>pages := (pages d)(i \<mapsto> p\<lparr>coll := c\<rparr>)\<rparr>)"

inductive dashboard_run :: "dashboard \<Rightarrow> bool" where
  start: "dashboard_run (initial_dashboard path)"
| step: "dashboard_run d \<Longrightarrow> dashboard_run (dashboard_step e d)"

inductive_cases dashboard_runE: "dashboard_run d"

end
