(* ===== verification/DashboardProps.thy ===== *)
theory DashboardProps
  imports Dashboard
begin

text \<open>
  The one-time token across the router and the management page: it is requested once at a time,
  every granted request ends with a token or a message, and no token is lost but by the user or
  with its server. Within a page no operation of a server is ever superseded.
\<close>

section \<open>The contract of the router\<close>

text \<open>
  What the pages rely on: \<open>start\<close> grants a request only when there is neither another one nor a
  token, and \<open>publish\<close> and \<open>fail\<close> end it.
\<close>

locale token_keeper =
  fixes ok :: "'s \<Rightarrow> bool"
    and busy :: "'s \<Rightarrow> bool"
    and held :: "'s \<Rightarrow> 't option"
    and start :: "'i \<Rightarrow> 's \<Rightarrow> bool \<times> 's"
    and publish :: "'t \<Rightarrow> 's \<Rightarrow> 's"
    and fail :: "string \<Rightarrow> 's \<Rightarrow> 's"
  assumes granted_iff: "ok s \<Longrightarrow> fst (start i s) \<longleftrightarrow> \<not> busy s \<and> held s = None"
    and refused: "ok s \<Longrightarrow> \<not> fst (start i s) \<Longrightarrow> snd (start i s) = s"
    and granted: "ok s \<Longrightarrow> fst (start i s) \<Longrightarrow>
      ok (snd (start i s)) \<and> busy (snd (start i s)) \<and> held (snd (start i s)) = None"
    and published: "ok s \<Longrightarrow> busy s \<Longrightarrow>
      ok (publish t s) \<and> \<not> busy (publish t s) \<and> held (publish t s) = Some t"
    and failed: "ok s \<Longrightarrow> busy s \<Longrightarrow>
      ok (fail m s) \<and> \<not> busy (fail m s) \<and> held (fail m s) = None"
begin

lemma start_ok: "ok s \<Longrightarrow> ok (snd (start i s))"
  using refused granted by metis

lemma start_busy: "ok s \<Longrightarrow> busy (snd (start i s)) \<longleftrightarrow> busy s \<or> fst (start i s)"
  using refused granted by metis

lemma second_refused: "ok s \<Longrightarrow> fst (start i s) \<Longrightarrow> snd (start j (snd (start i s))) = snd (start i s)"
  using granted granted_iff refused by metis

lemma free_after_failure: "ok s \<Longrightarrow> busy s \<Longrightarrow> fst (start i (fail m s))"
  using failed granted_iff by metis

lemma blocked_by_token: "ok s \<Longrightarrow> busy s \<Longrightarrow> \<not> fst (start i (publish t s))"
  using published granted_iff by (metis option.distinct(1))

end

interpretation keeper: token_keeper router_ok tokenRequestPending oneTimeToken startTokenRequest
  publishToken failTokenRequest
proof unfold_locales
  fix s :: router and i t m
  assume ok: "router_ok s"
  then show "fst (startTokenRequest i s) \<longleftrightarrow> \<not> tokenRequestPending s \<and> oneTimeToken s = None"
    by (auto simp: startTokenRequest_def router_ok_def)
  show "\<not> fst (startTokenRequest i s) \<Longrightarrow> snd (startTokenRequest i s) = s"
    by (auto simp: startTokenRequest_def split: if_splits)
  show "fst (startTokenRequest i s) \<Longrightarrow> router_ok (snd (startTokenRequest i s)) \<and>
      tokenRequestPending (snd (startTokenRequest i s)) \<and> oneTimeToken (snd (startTokenRequest i s)) = None"
    using ok router_ok_ops(3) [OF ok, of i] by (auto simp: startTokenRequest_def router_ok_def split: if_splits)
  assume b: "tokenRequestPending s"
  show "router_ok (publishToken t s) \<and> \<not> tokenRequestPending (publishToken t s) \<and>
      oneTimeToken (publishToken t s) = Some t"
    using router_ok_ops(5) [OF ok b, of t] by (simp add: publishToken_def navigate_def)
  show "router_ok (failTokenRequest m s) \<and> \<not> tokenRequestPending (failTokenRequest m s) \<and>
      oneTimeToken (failTokenRequest m s) = None"
    using router_ok_ops(4) [OF ok b, of m] ok b by (auto simp: failTokenRequest_def router_ok_def)
qed

lemma keeper_frame [simp]:
  "tokenRequestPending (navigate path r) = tokenRequestPending r"
  "tokenRequestServerId (navigate path r) = tokenRequestServerId r"
  "oneTimeToken (navigate path r) = oneTimeToken r"
  "tokenRequestPending (handlePopState path r) = tokenRequestPending r"
  "tokenRequestServerId (handlePopState path r) = tokenRequestServerId r"
  "oneTimeToken (handlePopState path r) = oneTimeToken r"
  "tokenRequestPending (dismissTokenError r) = tokenRequestPending r"
  "tokenRequestServerId (dismissTokenError r) = tokenRequestServerId r"
  "oneTimeToken (dismissTokenError r) = oneTimeToken r"
  "tokenRequestPending (clearToken r) = tokenRequestPending r"
  "tokenRequestServerId (clearToken r) = tokenRequestServerId r"
  "tokenRequestPending (clearTokenForDeletedServer i r) = tokenRequestPending r"
  "tokenRequestServerId (clearTokenForDeletedServer i r) = tokenRequestServerId r"
  "tokenRequestPending (renameTokenServer i nm r) = tokenRequestPending r"
  "tokenRequestServerId (renameTokenServer i nm r) = tokenRequestServerId r"
  by (auto simp: router_ops Let_def split: option.split)

section \<open>The invariant\<close>

text \<open>
  Every request under way belongs to a page and has left its mark there, no page has two for one
  server, and there is a token request exactly while the router says so.
\<close>

definition op_consistent :: "router \<Rightarrow> (nat \<rightharpoonup> page) \<Rightarrow> page_op \<Rightarrow> bool" where
  "op_consistent r ps x \<longleftrightarrow>
     (\<exists>p. ps (op_page x) = Some p \<and>
       (\<forall>j m. op_mark x = Some (j, m) \<longrightarrow> pendingByServer (coll p) j = Some m)) \<and>
     (token_op x \<longrightarrow> tokenRequestServerId r = token_op_server x)"

definition op_key :: "page_op \<Rightarrow> (nat \<times> jsnum) option" where
  "op_key x = map_option (\<lambda>(j, m). (op_page x, j)) (op_mark x)"

definition dashboard_ok :: "dashboard \<Rightarrow> bool" where
  "dashboard_ok d \<longleftrightarrow>
     router_ok (rt d) \<and>
     (\<forall>i p. pages d i = Some p \<longrightarrow> collection_ok (coll p) \<and> i < next_page d) \<and>
     (\<forall>x \<in> set (in_flight d). op_consistent (rt d) (pages d) x) \<and>
     distinct (List.map_filter op_key (in_flight d)) \<and>
     length (filter token_op (in_flight d)) = (if tokenRequestPending (rt d) then 1 else 0)"

lemma dashboard_okD:
  assumes "dashboard_ok d"
  shows "router_ok (rt d)" "pages d i = Some p \<Longrightarrow> collection_ok (coll p) \<and> i < next_page d"
    "x \<in> set (in_flight d) \<Longrightarrow> op_consistent (rt d) (pages d) x"
    "distinct (List.map_filter op_key (in_flight d))"
    "length (filter token_op (in_flight d)) = (if tokenRequestPending (rt d) then 1 else 0)"
  using assms by (auto simp: dashboard_ok_def)

lemma remount_frame [simp]:
  "rt (remount d) = rt d" "in_flight (remount d) = in_flight d"
  by (auto simp: remount_def)

lemma collection_ok_mount [simp]: "collection_ok (coll mount_page)"
  using collection_ok_step [OF initial_collection_ok, of StartLoad] by (simp add: mount_page_def)

lemma remount_ok:
  assumes "dashboard_ok d"
  shows "dashboard_ok (remount d)"
proof -
  have "op_consistent (rt d) ((pages d)(next_page d \<mapsto> mount_page)) x" if "x \<in> set (in_flight d)" for x
  proof -
    have c: "op_consistent (rt d) (pages d) x" by (rule dashboard_okD(3) [OF assms that])
    then obtain p where "pages d (op_page x) = Some p" by (auto simp: op_consistent_def)
    then have "op_page x \<noteq> next_page d" using dashboard_okD(2) [OF assms] by fastforce
    then show ?thesis using c by (simp add: op_consistent_def)
  qed
  then show ?thesis using assms
    by (auto simp: dashboard_ok_def remount_def less_Suc_eq)
qed

section \<open>What the operations of a page change\<close>

definition started_ok ::
  "nat \<Rightarrow> router \<Rightarrow> page \<Rightarrow> router \<times> page \<times> page_op option \<Rightarrow> bool" where
  "started_ok i r p res \<longleftrightarrow>
     (case res of (r', p', started) \<Rightarrow>
        router_ok r' \<and> collection_ok (coll p') \<and>
        (case started of
           None \<Rightarrow> pendingByServer (coll p') = pendingByServer (coll p) \<and>
             tokenRequestPending r' = tokenRequestPending r \<and>
             tokenRequestServerId r' = tokenRequestServerId r
         | Some x \<Rightarrow> op_page x = i \<and>
             (case op_mark x of
                None \<Rightarrow> pendingByServer (coll p') = pendingByServer (coll p)
              | Some (j, m) \<Rightarrow> pendingByServer (coll p) j = None \<and>
                  pendingByServer (coll p') = (pendingByServer (coll p))(j \<mapsto> m)) \<and>
             (if token_op x then \<not> tokenRequestPending r \<and> tokenRequestPending r' \<and>
                tokenRequestServerId r' = token_op_server x
              else r' = r)))"

lemma begin_ok:
  assumes "collection_ok c" and "beginServerRequest j a c = (g, c')"
  shows "collection_ok c'" "pendingByServer c' = (pendingByServer c)(j \<mapsto> \<lparr>pr_action = a, pr_generation = g\<rparr>)"
  using collection_ok_step [OF assms(1), of "StartMutation j a"] assms(2)
  by (auto simp: beginServerRequest_def Let_def)

lemma start_cases:
  assumes "router_ok r" and "startTokenRequest i r = (granted, r')"
  shows "router_ok r'" "\<not> granted \<Longrightarrow> r' = r"
    "granted \<Longrightarrow> \<not> tokenRequestPending r \<and> tokenRequestPending r' \<and> tokenRequestServerId r' = i"
  using keeper.start_ok [OF assms(1), of i] keeper.refused [OF assms(1), of i] assms
  by (auto simp: startTokenRequest_def router_ok_def split: if_splits)

lemma rowBusy_free: "\<not> rowBusy r p j \<Longrightarrow> pendingByServer (coll p) j = None"
  by (simp add: rowBusy_def)

lemma act_ok:
  assumes r: "router_ok r" and c: "collection_ok (coll p)" and e: "enabled r p a"
  shows "started_ok i r p (act i a r p)"
proof (cases a)
  case (SubmitCreate nm)
  obtain granted r' where s: "startTokenRequest None r = (granted, r')" by fastforce
  show ?thesis using start_cases [OF r s] r c
    by (auto simp: SubmitCreate started_ok_def create_begin_def s)
next
  case (SubmitRename s)
  obtain g c' where b: "beginServerRequest (sr_id s) ActRename (coll p) = (g, c')" by fastforce
  have "pendingByServer (coll p) (sr_id s) = None"
    using e by (auto simp: SubmitRename save_disabled_def dest: rowBusy_free)
  then show ?thesis using begin_ok [OF c b] r c
    by (auto simp: SubmitRename started_ok_def rename_begin_def b Let_def)
next
  case (ClickToggle s)
  obtain g c' where b: "beginServerRequest (sr_id s) ActToggle (coll p) = (g, c')" by fastforce
  have "pendingByServer (coll p) (sr_id s) = None"
    using e by (auto simp: ClickToggle dest: rowBusy_free)
  then show ?thesis using begin_ok [OF c b] r c
    by (auto simp: ClickToggle started_ok_def toggle_begin_def b Let_def)
next
  case (ClickConfirm s)
  obtain k where k: "row_confirming p s = Some k" "\<not> confirm_disabled r p (sr_id s) k"
    using e by (auto simp: ClickConfirm split: option.splits)
  then have free: "pendingByServer (coll p) (sr_id s) = None"
    by (auto simp: confirm_disabled_def dest: rowBusy_free)
  show ?thesis
  proof (cases k)
    case ConfirmDelete
    obtain g c' where b: "beginServerRequest (sr_id s) ActDelete (coll p) = (g, c')" by fastforce
    show ?thesis using begin_ok [OF c b] r c free k(1)
      by (auto simp: ClickConfirm ConfirmDelete started_ok_def confirmed_def remove_begin_def b Let_def)
  next
    case ConfirmRotate
    obtain granted r' where s: "startTokenRequest (Some (sr_id s)) r = (granted, r')" by fastforce
    obtain g c' where b: "beginServerRequest (sr_id s) ActRotate (coll p) = (g, c')" by fastforce
    show ?thesis using begin_ok [OF c b] start_cases [OF r s] r c free k(1)
      by (cases granted) (auto simp: ClickConfirm ConfirmRotate started_ok_def confirmed_def rotate_begin_def b s)
  qed
next
  case ClickReload
  then show ?thesis using collection_ok_step [OF c, of StartLoad] r
    by (simp add: started_ok_def loadServers_def Let_def)
next
  case ClickSaved
  then show ?thesis using r c e router_ok_ops(6) [OF r]
    by (simp add: started_ok_def clear_token_def)
next
  case FocusEffect
  then show ?thesis using r c
    by (simp add: started_ok_def focus_effect_def Let_def split: option.split)
qed (use r c in \<open>simp_all add: started_ok_def page_ops\<close>)

text \<open>A request that has its mark is the latest of its server, so its outcome is never discarded.\<close>

lemma settle_ok:
  assumes "collection_ok c" and "pendingByServer c j = Some \<lparr>pr_action = a, pr_generation = g\<rparr>"
  shows "update_settled j g out c = (res, c') \<Longrightarrow> collection_ok c' \<and>
      pendingByServer c' = (pendingByServer c)(j := None) \<and>
      res = (case out of Fulfilled u \<Rightarrow> Applied | Rejected e \<Rightarrow> Threw e)"
    and "remove_settled j g out' c = (res, c') \<Longrightarrow> collection_ok c' \<and>
      pendingByServer c' = (pendingByServer c)(j := None) \<and>
      res = (case out' of Fulfilled u \<Rightarrow> Applied | Rejected e \<Rightarrow> Threw e)"
proof -
  have l: "latestServerGeneration c j = Some g" using assms by (fastforce simp: collection_ok_def)
  show "collection_ok c' \<and> pendingByServer c' = (pendingByServer c)(j := None) \<and>
      res = (case out of Fulfilled u \<Rightarrow> Applied | Rejected e \<Rightarrow> Threw e)"
    if "update_settled j g out c = (res, c')"
    using collection_ok_step [OF assms(1), of "UpdateSettled j g out"]
      pending_mark_cleared [OF l assms(1), of out] l that
    by (auto simp: update_settled_def isLatestServerRequest_def split: promise.splits)
  show "collection_ok c' \<and> pendingByServer c' = (pendingByServer c)(j := None) \<and>
      res = (case out' of Fulfilled u \<Rightarrow> Applied | Rejected e \<Rightarrow> Threw e)"
    if "remove_settled j g out' c = (res, c')"
    using collection_ok_step [OF assms(1), of "RemoveSettled j g out'"]
      pending_mark_cleared [OF l assms(1), of _ out'] l that
    by (auto simp: remove_settled_def isLatestServerRequest_def split: promise.splits)
qed

definition finished_ok :: "page_op \<Rightarrow> router \<Rightarrow> page \<Rightarrow> router \<times> page \<Rightarrow> bool" where
  "finished_ok x r p res \<longleftrightarrow>
     (case res of (r', p') \<Rightarrow>
        router_ok r' \<and> collection_ok (coll p') \<and>
        pendingByServer (coll p') =
          (case op_mark x of None \<Rightarrow> pendingByServer (coll p)
           | Some (j, m) \<Rightarrow> (pendingByServer (coll p))(j := None)) \<and>
        tokenRequestPending r' = (tokenRequestPending r \<and> \<not> token_op x) \<and>
        (\<not> token_op x \<longrightarrow> tokenRequestServerId r' = tokenRequestServerId r))"

lemma addServer_ok: "collection_ok c \<Longrightarrow> collection_ok (addServer s c)"
  using collection_ok_step [of c "Add s"] by simp

lemma addServer_pending [simp]: "pendingByServer (addServer s c) = pendingByServer c"
  by (simp add: addServer_def)

lemma finish_ok:
  assumes r: "router_ok r" and c: "collection_ok (coll p)"
    and m: "\<And>j m. op_mark x = Some (j, m) \<Longrightarrow> pendingByServer (coll p) j = Some m"
    and t: "token_op x \<Longrightarrow> tokenRequestPending r" and f: "finish x out r p = Some res"
  shows "finished_ok x r p res"
proof (cases x)
  case (OpCreate i)
  then have b: "tokenRequestPending r" using t by simp
  show ?thesis
    using f keeper.published [OF r b] keeper.failed [OF r b] c
    by (cases out) (auto simp: OpCreate finished_ok_def create_done_def addServer_ok Let_def split: promise.splits)
next
  case (OpRename i s g nm)
  obtain o' where o: "out = ServerOutcome o'" using f OpRename by (cases out) simp_all
  obtain res' c' where u: "update_settled (sr_id s) g o' (coll p) = (res', c')" by fastforce
  have mk: "pendingByServer (coll p) (sr_id s) = Some \<lparr>pr_action = ActRename, pr_generation = g\<rparr>"
    using m OpRename by simp
  show ?thesis
    using f u settle_ok(1) [OF c mk u] r router_ok_ops(8) [OF r]
    by (cases o') (auto simp: OpRename o finished_ok_def rename_done_def)
next
  case (OpToggle i s g)
  obtain o' where o: "out = ServerOutcome o'" using f OpToggle by (cases out) simp_all
  obtain res' c' where u: "update_settled (sr_id s) g o' (coll p) = (res', c')" by fastforce
  have mk: "pendingByServer (coll p) (sr_id s) = Some \<lparr>pr_action = ActToggle, pr_generation = g\<rparr>"
    using m OpToggle by simp
  show ?thesis
    using f u settle_ok(1) [OF c mk u] r
    by (cases o') (auto simp: OpToggle o finished_ok_def toggle_done_def)
next
  case (OpRemove i s g)
  obtain o' where o: "out = UnitOutcome o'" using f OpRemove by (cases out) simp_all
  obtain res' c' where u: "remove_settled (sr_id s) g o' (coll p) = (res', c')" by fastforce
  have mk: "pendingByServer (coll p) (sr_id s) = Some \<lparr>pr_action = ActDelete, pr_generation = g\<rparr>"
    using m OpRemove by simp
  show ?thesis
    using f u settle_ok(2) [OF c mk u] r router_ok_ops(7) [OF r]
    by (cases o') (auto simp: OpRemove o finished_ok_def remove_done_def)
next
  case (OpRotate i s g)
  then have b: "tokenRequestPending r" using t by simp
  obtain o' where o: "out = TokenOutcome o'" using f OpRotate by (cases out) simp_all
  obtain res' c' where u: "update_settled (sr_id s) g (rotated_server o') (coll p) = (res', c')" by fastforce
  have mk: "pendingByServer (coll p) (sr_id s) = Some \<lparr>pr_action = ActRotate, pr_generation = g\<rparr>"
    using m OpRotate by simp
  show ?thesis
    using f u settle_ok(1) [OF c mk u] keeper.published [OF r b] keeper.failed [OF r b]
    by (cases o') (auto simp: OpRotate o finished_ok_def rotate_done_def Let_def)
qed

section \<open>Every step keeps the invariant\<close>

lemma map_filter_append: "List.map_filter f (xs @ ys) = List.map_filter f xs @ List.map_filter f ys"
  by (simp add: List.map_filter_def)

lemma map_filter_single: "List.map_filter f [x] = (case f x of None \<Rightarrow> [] | Some k \<Rightarrow> [k])"
  by (simp add: List.map_filter_def split: option.split)

lemma map_filter_none [simp]: "List.map_filter f [] = []"
  by (simp add: List.map_filter_def)

lemma set_map_filter_iff: "k \<in> set (List.map_filter f xs) \<longleftrightarrow> (\<exists>x \<in> set xs. f x = Some k)"
  by (force simp: List.map_filter_def)

lemma distinct_map_filter_remove1:
  "distinct (List.map_filter f xs) \<Longrightarrow> distinct (List.map_filter f (remove1 x xs))"
  by (induction xs) (auto simp: List.map_filter_def image_iff dest: notin_set_remove1 split: if_splits option.splits)

text \<open>No two requests of one page under way are about the same server.\<close>

lemma key_unique:
  assumes "distinct (List.map_filter f xs)" and "x \<in> set xs" and "f x = Some k"
    and "y \<in> set (remove1 x xs)" and "f y = Some k'"
  shows "k \<noteq> k'"
proof
  assume "k = k'"
  obtain as bs where xs: "xs = as @ x # bs" "x \<notin> set as" using assms(2) by (meson split_list_first)
  then have "y \<in> set (as @ bs)" using assms(4) by (simp add: remove1_append)
  then have "k \<in> set (List.map_filter f (as @ bs))" using assms(5) \<open>k = k'\<close> by (auto simp: set_map_filter_iff)
  then show False using assms(1,3) by (auto simp: xs(1) map_filter_append List.map_filter_def)
qed

lemma act_step_ok:
  assumes ok: "dashboard_ok d" and p: "pages d i = Some p" and s: "started_ok i (rt d) p (r', p', started)"
  shows "dashboard_ok (d\<lparr>rt := r', pages := (pages d)(i \<mapsto> p'),
    in_flight := in_flight d @ (case started of None \<Rightarrow> [] | Some x \<Rightarrow> [x])\<rparr>)"
    (is "dashboard_ok ?d")
proof -
  note okd = dashboard_okD [OF ok]
  have new: "op_consistent r' ((pages d)(i \<mapsto> p')) x" "op_key x = Some k \<Longrightarrow> k \<notin> set (List.map_filter op_key (in_flight d))"
    if "started = Some x" for x k
  proof -
    show "op_consistent r' ((pages d)(i \<mapsto> p')) x"
      using s that by (auto simp: started_ok_def op_consistent_def split: option.splits if_splits)
    show "k \<notin> set (List.map_filter op_key (in_flight d))" if key: "op_key x = Some k"
    proof
      assume "k \<in> set (List.map_filter op_key (in_flight d))"
      then obtain y where k: "op_key x = Some k" "y \<in> set (in_flight d)" "op_key y = Some k"
        using key by (auto simp: set_map_filter_iff)
      obtain j m m' where j: "op_mark x = Some (j, m)" "op_mark y = Some (j, m')" "op_page y = op_page x"
        using k(1,3) by (auto simp: op_key_def)
      have "op_page x = i" "pendingByServer (coll p) j = None"
        using s \<open>started = Some x\<close> j(1) by (auto simp: started_ok_def)
      then show False using okd(3) [OF k(2)] j p by (auto simp: op_consistent_def)
    qed
  qed
  have old: "op_consistent r' ((pages d)(i \<mapsto> p')) y" if y: "y \<in> set (in_flight d)" for y
  proof -
    note c = okd(3) [OF y]
    have tok: "token_op y \<Longrightarrow> tokenRequestPending (rt d)"
      using okd(5) y by (auto simp: filter_empty_conv split: if_splits)
    have "tokenRequestServerId r' = tokenRequestServerId (rt d)" if "token_op y"
      using s tok [OF that] by (auto simp: started_ok_def split: option.splits if_splits)
    moreover have "pendingByServer (coll p') j = Some m"
      if "pendingByServer (coll p) j = Some m" for j m
      using s that by (auto simp: started_ok_def split: option.splits)
    ultimately show ?thesis using c p by (auto simp: op_consistent_def)
  qed
  have "router_ok r'" "collection_ok (coll p')" using s by (auto simp: started_ok_def)
  moreover have "\<forall>x \<in> set (in_flight ?d). op_consistent r' ((pages d)(i \<mapsto> p')) x"
    using old new(1) by (auto split: option.splits)
  moreover have "distinct (List.map_filter op_key (in_flight ?d))"
    using okd(4) new(2) map_filter_single [of op_key]
    by (auto simp: map_filter_append split: option.splits)
  moreover have "length (filter token_op (in_flight ?d)) = (if tokenRequestPending r' then 1 else 0)"
    using okd(5) s by (auto simp: started_ok_def split: option.splits if_splits)
  ultimately show ?thesis using ok p by (auto simp: dashboard_ok_def)
qed

lemma filter_remove1_length:
  "x \<in> set xs \<Longrightarrow> length (filter P (remove1 x xs)) = length (filter P xs) - (if P x then 1 else 0)"
proof -
  assume "x \<in> set xs"
  then obtain as bs where "xs = as @ x # bs" "x \<notin> set as" by (meson split_list_first)
  then show ?thesis by (simp add: remove1_append)
qed

lemma finish_step_ok:
  assumes ok: "dashboard_ok d" and x: "x \<in> set (in_flight d)" and p: "pages d (op_page x) = Some p"
    and f: "finished_ok x (rt d) p (r', p')"
  shows "dashboard_ok (d\<lparr>rt := r', pages := (pages d)(op_page x \<mapsto> p'), in_flight := remove1 x (in_flight d)\<rparr>)"
    (is "dashboard_ok ?d")
proof -
  note okd = dashboard_okD [OF ok]
  have n: "length (filter token_op (remove1 x (in_flight d))) = (if tokenRequestPending r' then 1 else 0)"
    using okd(5) f x by (auto simp: filter_remove1_length finished_ok_def)
  have old: "op_consistent r' ((pages d)(op_page x \<mapsto> p')) y" if y: "y \<in> set (remove1 x (in_flight d))" for y
  proof -
    have c: "op_consistent (rt d) (pages d) y" using okd(3) y by (meson notin_set_remove1)
    have "\<not> token_op x" if "token_op y"
    proof -
      have "filter token_op (remove1 x (in_flight d)) \<noteq> []" using y that by (auto simp: filter_empty_conv)
      then have "tokenRequestPending r'" using n by (auto split: if_splits)
      then show ?thesis using f by (auto simp: finished_ok_def)
    qed
    then have "token_op y \<Longrightarrow> tokenRequestServerId r' = tokenRequestServerId (rt d)"
      using f by (auto simp: finished_ok_def)
    moreover have "pendingByServer (coll p') j = Some m"
      if j: "op_page y = op_page x" "op_mark y = Some (j, m)" "pendingByServer (coll p) j = Some m" for j m
    proof -
      have "op_mark x \<noteq> Some (j, m')" for m'
        using key_unique [OF okd(4) x _ y, of "(op_page x, j)" "(op_page x, j)"] j by (auto simp: op_key_def)
      then show ?thesis using f j(3) by (auto simp: finished_ok_def split: option.splits)
    qed
    ultimately show ?thesis using c p by (auto simp: op_consistent_def)
  qed
  have "router_ok r'" "collection_ok (coll p')" using f by (auto simp: finished_ok_def)
  moreover have "distinct (List.map_filter op_key (in_flight ?d))"
    using okd(4) by (simp add: distinct_map_filter_remove1)
  ultimately show ?thesis using ok p n old by (auto simp: dashboard_ok_def)
qed

lemma router_step_ok:
  assumes "dashboard_ok d" and "router_ok r'" and "tokenRequestPending r' = tokenRequestPending (rt d)"
    and "tokenRequestServerId r' = tokenRequestServerId (rt d)"
  shows "dashboard_ok (d\<lparr>rt := r'\<rparr>)"
  using assms by (auto simp: dashboard_ok_def op_consistent_def)

lemma list_step_ok:
  assumes ok: "dashboard_ok d" and p: "pages d i = Some p" and "collection_ok c"
    and "pendingByServer c = pendingByServer (coll p)"
  shows "dashboard_ok (d\<lparr>pages := (pages d)(i \<mapsto> p\<lparr>coll := c\<rparr>)\<rparr>)"
proof -
  have "started_ok i (rt d) p (rt d, p\<lparr>coll := c\<rparr>, None)"
    using dashboard_okD(1) [OF ok] assms by (simp add: started_ok_def)
  from act_step_ok [OF ok p this] show ?thesis by simp
qed

lemma dashboard_step_ok:
  assumes ok: "dashboard_ok d"
  shows "dashboard_ok (dashboard_step e d)"
proof (cases e)
  case (GoTo path)
  then show ?thesis
    using remount_ok router_step_ok [OF ok] router_ok_ops(2) dashboard_okD(1) [OF ok] by simp
next
  case (PopTo path)
  then show ?thesis
    using remount_ok router_step_ok [OF ok] router_ok_ops(1) dashboard_okD(1) [OF ok] by simp
next
  case DismissError
  then show ?thesis
    using remount_ok router_step_ok [OF ok] router_ok_ops(9) dashboard_okD(1) [OF ok] ok by simp
next
  case (User a)
  show ?thesis
  proof (cases "\<exists>i k p. shown d = Some (i, k) \<and> pages d i = Some p \<and> enabled (rt d) p a")
    case True
    then obtain i k p where p: "shown d = Some (i, k)" "pages d i = Some p" "enabled (rt d) p a" by blast
    obtain r' p' started where a: "act i a (rt d) p = (r', p', started)" by (metis prod_cases3)
    have "started_ok i (rt d) p (r', p', started)"
      using act_ok [OF dashboard_okD(1) [OF ok] _ p(3), of i] dashboard_okD(2) [OF ok p(2)] a by simp
    from remount_ok [OF act_step_ok [OF ok p(2) this]] show ?thesis by (simp add: User p a)
  next
    case False
    then have "dashboard_step e d = d" by (auto simp: User split: option.split)
    then show ?thesis using ok by simp
  qed
next
  case (Settled x out)
  show ?thesis
  proof (cases "\<exists>p r' p'. pages d (op_page x) = Some p \<and> x \<in> set (in_flight d) \<and>
      finish x out (rt d) p = Some (r', p')")
    case True
    then obtain p r' p' where p: "pages d (op_page x) = Some p" "x \<in> set (in_flight d)"
      "finish x out (rt d) p = Some (r', p')" by blast
    have c: "op_consistent (rt d) (pages d) x" by (rule dashboard_okD(3) [OF ok p(2)])
    have "finished_ok x (rt d) p (r', p')"
    proof (rule finish_ok [OF dashboard_okD(1) [OF ok] _ _ _ p(3)])
      show "collection_ok (coll p)" using dashboard_okD(2) [OF ok p(1)] by blast
      show "op_mark x = Some (j, m) \<Longrightarrow> pendingByServer (coll p) j = Some m" for j m
        using c p(1) by (simp add: op_consistent_def)
      show "token_op x \<Longrightarrow> tokenRequestPending (rt d)"
        using dashboard_okD(5) [OF ok] p(2) by (auto simp: filter_empty_conv split: if_splits)
    qed
    from remount_ok [OF finish_step_ok [OF ok p(2,1) this]] show ?thesis by (simp add: Settled p)
  next
    case False
    then have "dashboard_step e d = d" by (auto simp: Settled split: option.split)
    then show ?thesis using ok by simp
  qed
next
  case (ListSettled i g out)
  show ?thesis
  proof (cases "pages d i")
    case None
    then show ?thesis using ok by (simp add: ListSettled)
  next
    case (Some p)
    define c where "c = (case out of Fulfilled l \<Rightarrow> list_loaded g l (coll p) | Rejected e \<Rightarrow> list_failed g e (coll p))"
    have "collection_ok (coll p)" using dashboard_okD(2) [OF ok Some] by blast
    then have "collection_ok c" "pendingByServer c = pendingByServer (coll p)"
      using collection_ok_step [of "coll p" "ListLoaded g (case out of Fulfilled l \<Rightarrow> l)"]
        collection_ok_step [of "coll p" "ListFailed g (case out of Rejected e \<Rightarrow> e)"]
      by (auto simp: c_def list_loaded_def list_failed_def split: promise.split option.split)
    from list_step_ok [OF ok Some this] show ?thesis by (simp add: ListSettled Some c_def)
  qed
qed

lemma dashboard_run_ok: "dashboard_run d \<Longrightarrow> dashboard_ok d"
proof (induction rule: dashboard_run.induct)
  case (start path)
  have "dashboard_ok \<lparr>rt = initial_router path, pages = Map.empty, shown = None, next_page = 0, in_flight = []\<rparr>"
    using router_ok_initial [of path] by (simp add: dashboard_ok_def initial_router_def)
  from remount_ok [OF this] show ?case by (simp add: initial_dashboard_def)
qed (rule dashboard_step_ok)

text \<open>The page that is shown exists, and its key is not from the future.\<close>

definition shown_ok :: "dashboard \<Rightarrow> bool" where
  "shown_ok d \<longleftrightarrow>
     (\<forall>i k. shown d = Some (i, k) \<longrightarrow> pages d i \<noteq> None \<and> k \<le> managementGeneration (rt d))"

lemma shown_ok_remount: "shown_ok d \<Longrightarrow> shown_ok (remount d)"
  by (auto simp: shown_ok_def remount_def)

lemma generation_ops [simp]:
  "managementGeneration (navigate path r) = managementGeneration r"
  "managementGeneration (handlePopState path r) = managementGeneration r"
  "managementGeneration (dismissTokenError r) = managementGeneration r"
  "managementGeneration (snd (startTokenRequest i r)) = managementGeneration r"
  "managementGeneration (failTokenRequest m r) = managementGeneration r"
  "managementGeneration (clearToken r) = managementGeneration r"
  "managementGeneration (clearTokenForDeletedServer j r) = managementGeneration r"
  "managementGeneration (renameTokenServer j nm r) = managementGeneration r"
  "managementGeneration (publishToken t r) = managementGeneration r + 1"
  by (auto simp: router_ops Let_def split: option.split)

lemma act_generation: "act i a r p = (r', p', started) \<Longrightarrow> managementGeneration r' = managementGeneration r"
  by (cases a)
    (auto simp: page_ops confirmed_def startTokenRequest_def Let_def split: if_splits option.splits prod.splits)

lemma finish_generation: "finish x out r p = Some (r', p') \<Longrightarrow> managementGeneration r \<le> managementGeneration r'"
  by (cases "(x, out, r, p)" rule: finish.cases)
    (auto simp: page_ops Let_def split: promise.splits mutation_outcome.splits prod.splits)

lemma shown_ok_change:
  assumes "shown_ok d" and "managementGeneration (rt d) \<le> managementGeneration r'"
  shows "shown_ok (remount (d\<lparr>rt := r', pages := (pages d)(i \<mapsto> p'), in_flight := ops\<rparr>))"
    and "shown_ok (remount (d\<lparr>rt := r', pages := (pages d)(i \<mapsto> p')\<rparr>))"
    and "shown_ok (remount (d\<lparr>rt := r'\<rparr>))"
  by (rule shown_ok_remount, use assms in \<open>force simp: shown_ok_def\<close>)+

lemma shown_ok_step:
  assumes "shown_ok d"
  shows "shown_ok (dashboard_step e d)"
proof (cases e)
  case (User a)
  then show ?thesis using assms
    by (auto intro!: shown_ok_change dest: act_generation split: option.split prod.split)
next
  case (Settled x out)
  then show ?thesis using assms
    by (auto intro!: shown_ok_change dest: finish_generation split: option.split)
next
  case (ListSettled i g out)
  then show ?thesis using assms by (auto simp: shown_ok_def Let_def split: option.split)
qed (use assms in \<open>simp_all add: shown_ok_change split: option.split\<close>)

lemma dashboard_run_shown: "dashboard_run d \<Longrightarrow> shown_ok d"
proof (induction rule: dashboard_run.induct)
  case (start path)
  show ?case unfolding initial_dashboard_def by (rule shown_ok_remount) (simp add: shown_ok_def)
qed (rule shown_ok_step)

section \<open>One token at a time\<close>

text \<open>
  In every reachable state there is at most one request for a token or one token, never
  both; the router's pending flag, its lock and the warning before the page is left hold exactly
  while there is one of them; a new request is granted exactly when there is none; and a message
  about a failed request does not show while there is one.
\<close>

lemma one_token_at_a_time:
  assumes "dashboard_run d"
  shows "length (filter token_op (in_flight d)) + (if oneTimeToken (rt d) = None then 0 else 1) \<le> 1 \<and>
    (tokenRequestPending (rt d) \<longleftrightarrow> (\<exists>x \<in> set (in_flight d). token_op x)) \<and>
    (tokenLockRef (rt d) \<longleftrightarrow> unload_protected (rt d)) \<and> tokenRef (rt d) = oneTimeToken (rt d) \<and>
    (fst (startTokenRequest i (rt d)) \<longleftrightarrow> \<not> unload_protected (rt d)) \<and>
    (unload_protected (rt d) \<longrightarrow> dv_error_reminder (dashboard_view_of (rt d)) = None)"
proof -
  note ok = dashboard_run_ok [OF assms]
  note r = dashboard_okD(1) [OF ok] and n = dashboard_okD(5) [OF ok]
  have "tokenRequestPending (rt d) \<longleftrightarrow> filter token_op (in_flight d) \<noteq> []"
    using n by (auto split: if_splits)
  then have p: "tokenRequestPending (rt d) \<longleftrightarrow> (\<exists>x \<in> set (in_flight d). token_op x)"
    by (auto simp: filter_empty_conv)
  then show ?thesis
    using r n keeper.granted_iff [OF r, of i]
    by (auto simp: router_ok_def unload_protected_def dashboard_view_of_def Let_def)
qed

section \<open>Every request ends\<close>

lemma token_request_pending:
  assumes "dashboard_ok d" and "x \<in> set (in_flight d)" and "token_op x"
  shows "tokenRequestPending (rt d)" "filter token_op (remove1 x (in_flight d)) = []"
proof -
  have n: "length (filter token_op (in_flight d)) = (if tokenRequestPending (rt d) then 1 else 0)"
    by (rule dashboard_okD(5) [OF assms(1)])
  have "filter token_op (in_flight d) \<noteq> []" using assms(2,3) by (auto simp: filter_empty_conv)
  then show "tokenRequestPending (rt d)" using n by (auto split: if_splits)
  then have "length (filter token_op (remove1 x (in_flight d))) = 0"
    using n assms(2,3) by (simp add: filter_remove1_length)
  then show "filter token_op (remove1 x (in_flight d)) = []" by simp
qed

text \<open>The token that a request yields, and the message that it fails with.\<close>

fun yielded_token :: "page_op \<Rightarrow> server_token_result \<Rightarrow> one_time_token" where
  "yielded_token (OpRotate i s g) res =
     \<lparr>ot_serverId = sr_id s, ot_serverName = sr_name s, ot_token = tr_token res,
      ot_returnFocus = FocusRotate (sr_id s)\<rparr>"
| "yielded_token _ res =
     \<lparr>ot_serverId = sr_id (tr_server res), ot_serverName = sr_name (tr_server res),
      ot_token = tr_token res, ot_returnFocus = FocusCreate\<rparr>"

fun failure_text :: "page_op \<Rightarrow> string" where
  "failure_text (OpRotate i s g) = t_rotate_failed"
| "failure_text _ = t_create_failed"

lemma finish_token:
  assumes "dashboard_ok d" and "x \<in> set (in_flight d)" and "token_op x" and "pages d (op_page x) = Some p"
  shows "\<exists>p'. finish x (TokenOutcome (Fulfilled res)) (rt d) p = Some (publishToken (yielded_token x res) (rt d), p')"
    "\<exists>p'. finish x (TokenOutcome (Rejected e)) (rt d) p =
      Some (failTokenRequest (apiErrorMessage e (failure_text x)) (rt d), p')"
proof -
  have c: "collection_ok (coll p)" using dashboard_okD(2) [OF assms(1,4)] by blast
  have m: "op_mark x = Some (j, m) \<Longrightarrow> pendingByServer (coll p) j = Some m" for j m
    using dashboard_okD(3) [OF assms(1,2)] assms(4) by (simp add: op_consistent_def)
  have "(\<exists>p'. finish x (TokenOutcome (Fulfilled res)) (rt d) p =
        Some (publishToken (yielded_token x res) (rt d), p')) \<and>
      (\<exists>p'. finish x (TokenOutcome (Rejected e)) (rt d) p =
        Some (failTokenRequest (apiErrorMessage e (failure_text x)) (rt d), p'))"
  proof (cases x)
    case (OpRotate i s g)
    have mk: "pendingByServer (coll p) (sr_id s) = Some \<lparr>pr_action = ActRotate, pr_generation = g\<rparr>"
      using m OpRotate by simp
    obtain c1 r1 where u1: "update_settled (sr_id s) g (Fulfilled (tr_server res)) (coll p) = (r1, c1)" by fastforce
    obtain c2 r2 where u2: "update_settled (sr_id s) g (Rejected e) (coll p) = (r2, c2)" by fastforce
    show ?thesis
      using settle_ok(1) [OF c mk u1] settle_ok(1) [OF c mk u2]
      by (simp add: OpRotate rotate_done_def u1 u2 Let_def)
  qed (use assms(3) in \<open>simp_all add: create_done_def Let_def\<close>)
  then show "\<exists>p'. finish x (TokenOutcome (Fulfilled res)) (rt d) p = Some (publishToken (yielded_token x res) (rt d), p')"
    "\<exists>p'. finish x (TokenOutcome (Rejected e)) (rt d) p =
      Some (failTokenRequest (apiErrorMessage e (failure_text x)) (rt d), p')" by blast+
qed

lemma route_management [simp]: "route_of ''/servers'' = ManagementRoute"
  by (simp add: route_of_def alerts_path_def management_path_def detail_segment_def)

text \<open>
  C14: a granted request for a token always ends. Wherever the user has gone in the meantime, a
  success leads to the management page, mounted afresh, with the token shown and no request left
  under way; a failure leaves its message, no token and no request, and the next request is
  granted.
\<close>

theorem token_request_ends:
  assumes "dashboard_run d" and "x \<in> set (in_flight d)" and "token_op x"
    and "done = dashboard_step (Settled x (TokenOutcome (Fulfilled res))) d"
    and "failed = dashboard_step (Settled x (TokenOutcome (Rejected e))) d"
  shows "oneTimeToken (rt done) = Some (yielded_token x res) \<and>
    filter token_op (in_flight done) = [] \<and> pathname (rt done) = ''/servers'' \<and>
    shown done = Some (next_page d, managementGeneration (rt done)) \<and>
    pages done (next_page d) = Some mount_page \<and>
    sv_install (servers_view_of (rt done) mount_page) =
      Some (ot_serverName (yielded_token x res), tr_token res) \<and>
    oneTimeToken (rt failed) = None \<and> filter token_op (in_flight failed) = [] \<and>
    tokenRequestError (rt failed) = apiErrorMessage e (failure_text x) \<and>
    fst (startTokenRequest j (rt failed))"
proof -
  note ok = dashboard_run_ok [OF assms(1)]
  note r = dashboard_okD(1) [OF ok] and b = token_request_pending [OF ok assms(2,3)]
  obtain p where p: "pages d (op_page x) = Some p"
    using dashboard_okD(3) [OF ok assms(2)] by (auto simp: op_consistent_def)
  note fin = finish_token [OF ok assms(2,3) p]
  obtain p' where f: "finish x (TokenOutcome (Fulfilled res)) (rt d) p =
      Some (publishToken (yielded_token x res) (rt d), p')" using fin(1) by blast
  have fresh: "map_option snd (shown d) \<noteq> Some (managementGeneration (rt d) + 1)"
    using dashboard_run_shown [OF assms(1)] by (auto simp: shown_ok_def)
  have tok: "ot_token (yielded_token x res) = tr_token res" by (cases x) simp_all
  have "oneTimeToken (rt done) = Some (yielded_token x res) \<and>
    filter token_op (in_flight done) = [] \<and> pathname (rt done) = ''/servers'' \<and>
    shown done = Some (next_page d, managementGeneration (rt done)) \<and>
    pages done (next_page d) = Some mount_page \<and>
    sv_install (servers_view_of (rt done) mount_page) =
      Some (ot_serverName (yielded_token x res), tr_token res)"
    using assms(2,4) p f b fresh keeper.published [OF r b(1), of "yielded_token x res"] tok
    by (simp add: remount_def publishToken_def navigate_def servers_view_of_def Let_def)
  moreover obtain q where "finish x (TokenOutcome (Rejected e)) (rt d) p =
      Some (failTokenRequest (apiErrorMessage e (failure_text x)) (rt d), q)" using fin(2) by blast
  then have "oneTimeToken (rt failed) = None \<and> filter token_op (in_flight failed) = [] \<and>
    tokenRequestError (rt failed) = apiErrorMessage e (failure_text x) \<and>
    fst (startTokenRequest j (rt failed))"
    using assms(2,5) p b keeper.failed [OF r b(1)] keeper.free_after_failure [OF r b(1)]
    by (simp add: failTokenRequest_def)
  ultimately show ?thesis by blast
qed

section \<open>A reachable state with a request\<close>

definition one_server :: server_record where
  "one_server =
     \<lparr>sr_id = Fin 1, sr_name = ''a'', sr_enabled = True, sr_agentVersion = '''', sr_createdAt = '''',
      sr_updatedAt = ''''\<rparr>"

text \<open>A list with one server has been loaded, and the user acts on it.\<close>

definition after_list :: "dashboard_event list \<Rightarrow> dashboard" where
  "after_list es =
     fold dashboard_step (ListSettled 0 1 (Fulfilled [one_server]) # es) (initial_dashboard ''/servers'')"

lemma fold_run: "dashboard_run d \<Longrightarrow> dashboard_run (fold dashboard_step es d)"
  by (induction es arbitrary: d) (simp_all add: dashboard_run.step)

lemma after_list_run: "dashboard_run (after_list es)"
  unfolding after_list_def by (rule fold_run [OF dashboard_run.start])

lemmas evaluate_dashboard =
  after_list_def initial_dashboard_def remount_def initial_router_def mount_page_def loadServers_def
  initial_collection_def list_loaded_def one_server_def row_shown_def row_renaming_def row_confirming_def
  rowBusy_def tokenLocked_def id_is_def confirmed_def startTokenRequest_def beginServerRequest_def
  confirm_disabled_def ask_confirmation_def rotate_begin_def remove_begin_def survivor_of_def

definition rotating :: dashboard where
  "rotating = after_list [User (ClickRotate one_server), User (ClickConfirm one_server)]"

lemma rotating_facts:
  "dashboard_run rotating" "in_flight rotating = [OpRotate 0 one_server 2]"
  "next_page rotating = 1" "\<exists>p. pages rotating 0 = Some p"
proof -
  show "dashboard_run rotating" unfolding rotating_def by (rule after_list_run)
  show "in_flight rotating = [OpRotate 0 one_server 2]" "next_page rotating = 1"
    "\<exists>p. pages rotating 0 = Some p"
    by (simp_all add: rotating_def evaluate_dashboard)
qed

definition new_token :: server_token_result where
  "new_token = \<lparr>tr_server = one_server, tr_token = ''s3cret''\<rparr>"

theorem token_request_ends_witness:
  "sv_install (servers_view_of
       (rt (dashboard_step (Settled (OpRotate 0 one_server 2) (TokenOutcome (Fulfilled new_token))) rotating))
       mount_page) = Some (''a'', ''s3cret'')"
proof -
  have "OpRotate 0 one_server 2 \<in> set (in_flight rotating)" "token_op (OpRotate 0 one_server 2)"
    by (simp_all add: rotating_facts)
  from token_request_ends [OF rotating_facts(1) this refl refl, where res = new_token and e = OtherErr and j = None]
  show ?thesis by (simp add: new_token_def one_server_def)
qed

section \<open>No token is lost\<close>

lemma held_refuses: "router_ok r \<Longrightarrow> oneTimeToken r = Some t \<Longrightarrow> startTokenRequest i r = (False, r)"
  by (simp add: startTokenRequest_def router_ok_def)

lemma act_token:
  assumes "router_ok r" and "oneTimeToken r = Some t" and "a \<noteq> ClickSaved"
  shows "oneTimeToken (fst (act i a r p)) = Some t"
  using assms
  by (cases a)
    (auto simp: page_ops confirmed_def held_refuses [OF assms(1,2)] Let_def split: option.split prod.split)

lemma js_eq_imp: "js_eq a b \<Longrightarrow> a = b"
  by (cases a; cases b) auto

lemma finish_keeps_token:
  assumes "finish x out r p = Some (r', p')" and "\<not> token_op x" and "oneTimeToken r = Some t"
    and "\<And>i s g. x = OpRemove i s g \<Longrightarrow> out = UnitOutcome (Fulfilled ()) \<Longrightarrow> sr_id s \<noteq> ot_serverId t"
  shows "oneTimeToken r' = Some t \<or>
    (\<exists>i s g nm o'. x = OpRename i s g nm \<and> out = ServerOutcome (Fulfilled o') \<and>
       sr_id s = ot_serverId t \<and> oneTimeToken r' = Some (t\<lparr>ot_serverName := nm\<rparr>))"
proof (cases "(x, out, r, p)" rule: finish.cases)
  case (2 i s g nm out')
  then show ?thesis using assms(1,3)
    by (auto simp: rename_done_def update_settled_def renameTokenServer_def Let_def dest: js_eq_imp
        split: promise.splits if_splits mutation_outcome.splits)
next
  case (4 i s g out')
  then show ?thesis using assms(1,3,4)
    by (auto simp: remove_done_def remove_settled_def clearTokenForDeletedServer_def Let_def dest: js_eq_imp
        split: promise.splits if_splits mutation_outcome.splits)
qed (use assms in auto)

text \<open>
  C15: a token that is shown stays until the user says it is saved or its server is deleted:
  navigation, new requests, answers of old requests and reloads of the list all keep it, and
  renaming its server changes only the name beside it. Wherever the user is, the management page
  still shows it.
\<close>

theorem token_kept:
  assumes "dashboard_run d" and "oneTimeToken (rt d) = Some t" and "e \<noteq> User ClickSaved"
    and "\<And>i s g. e = Settled (OpRemove i s g) (UnitOutcome (Fulfilled ())) \<Longrightarrow> sr_id s \<noteq> ot_serverId t"
    and "back = dashboard_step (GoTo ''/servers'') d"
  shows "(oneTimeToken (rt (dashboard_step e d)) = Some t \<or>
      (\<exists>i s g nm o'. e = Settled (OpRename i s g nm) (ServerOutcome (Fulfilled o')) \<and>
         sr_id s = ot_serverId t \<and>
         oneTimeToken (rt (dashboard_step e d)) = Some (t\<lparr>ot_serverName := nm\<rparr>))) \<and>
    (\<exists>i k p. shown back = Some (i, k) \<and> pages back i = Some p \<and>
       sv_install (servers_view_of (rt back) p) = Some (ot_serverName t, ot_token t))"
proof
  note ok = dashboard_run_ok [OF assms(1)]
  note r = dashboard_okD(1) [OF ok]
  show "oneTimeToken (rt (dashboard_step e d)) = Some t \<or>
      (\<exists>i s g nm o'. e = Settled (OpRename i s g nm) (ServerOutcome (Fulfilled o')) \<and>
         sr_id s = ot_serverId t \<and>
         oneTimeToken (rt (dashboard_step e d)) = Some (t\<lparr>ot_serverName := nm\<rparr>))"
  proof (cases e)
    case (User a)
    then have "oneTimeToken (fst (act i a (rt d) p)) = Some t" for i p
      using act_token [OF r assms(2)] assms(3) by simp
    then have "oneTimeToken r' = Some t" if "act i a (rt d) p = (r', p', st)" for i p r' p' st
      using that by (metis fst_conv)
    then show ?thesis using assms(2) by (auto simp: User split: option.split prod.split)
  next
    case (Settled x out)
    have "\<not> token_op x" if "x \<in> set (in_flight d)"
      using token_request_pending(1) [OF ok that] r assms(2) by (auto simp: router_ok_def)
    then show ?thesis
      using finish_keeps_token [of x out "rt d" _ _ _ t] assms(2,4) Settled by (auto split: option.split)
  qed (use assms(2) in \<open>auto simp: Let_def split: option.split\<close>)
  have "shown_ok back" unfolding assms(5) by (rule shown_ok_step [OF dashboard_run_shown [OF assms(1)]])
  moreover have "shown back \<noteq> None" "oneTimeToken (rt back) = Some t"
    using assms(2) by (auto simp: assms(5) remount_def navigate_def)
  ultimately show "\<exists>i k p. shown back = Some (i, k) \<and> pages back i = Some p \<and>
       sv_install (servers_view_of (rt back) p) = Some (ot_serverName t, ot_token t)"
    by (auto simp: shown_ok_def servers_view_of_def Let_def)
qed

lemma published_state:
  "dashboard_run (dashboard_step (Settled (OpRotate 0 one_server 2) (TokenOutcome (Fulfilled new_token))) rotating)"
  by (rule dashboard_run.step [OF rotating_facts(1)])

theorem token_kept_witness:
  "oneTimeToken (rt (dashboard_step (GoTo ''/alerts'')
     (dashboard_step (Settled (OpRotate 0 one_server 2) (TokenOutcome (Fulfilled new_token))) rotating))) \<noteq> None"
proof -
  define d where "d = dashboard_step (Settled (OpRotate 0 one_server 2) (TokenOutcome (Fulfilled new_token))) rotating"
  obtain p where p: "pages rotating 0 = Some p" using rotating_facts(4) by blast
  have "OpRotate 0 one_server 2 \<in> set (in_flight rotating)" by (simp add: rotating_facts)
  from finish_token(1) [OF dashboard_run_ok [OF rotating_facts(1)] this, of p new_token] p
  have t: "oneTimeToken (rt d) = Some (yielded_token (OpRotate 0 one_server 2) new_token)"
    by (auto simp: d_def rotating_facts publishToken_def navigate_def)
  have "dashboard_run d" unfolding d_def by (rule published_state)
  from token_kept [OF this t, of "GoTo ''/alerts''"] show ?thesis by (auto simp: d_def)
qed

section \<open>No operation is superseded\<close>

text \<open>
  C16: because a row's controls are disabled while one of its operations is under way, a page
  never has two operations of one server under way, every operation is the latest of its server
  when it settles, so its outcome is never discarded, and the server's row is busy until then;
  a server whose token is being regenerated is busy on every page, the one that is mounted after
  the user left and came back included.
\<close>

theorem operations_not_superseded:
  assumes "dashboard_run d" and "x \<in> set (in_flight d)" and "op_mark x = Some (j, m)"
    and "pages d (op_page x) = Some p" and "j \<noteq> NaN"
  shows "(\<forall>y \<in> set (remove1 x (in_flight d)). op_page y = op_page x \<longrightarrow> (\<forall>m'. op_mark y \<noteq> Some (j, m'))) \<and>
    fst (update_settled j (pr_generation m) out (coll p)) =
      (case out of Fulfilled u \<Rightarrow> Applied | Rejected e \<Rightarrow> Threw e) \<and>
    fst (remove_settled j (pr_generation m) out' (coll p)) =
      (case out' of Fulfilled u \<Rightarrow> Applied | Rejected e \<Rightarrow> Threw e) \<and>
    rowBusy (rt d) p j \<and> (token_op x \<longrightarrow> rowBusy (rt d) q j)"
proof (intro conjI)
  note ok = dashboard_run_ok [OF assms(1)]
  have c: "collection_ok (coll p)" using dashboard_okD(2) [OF ok assms(4)] by blast
  have con: "op_consistent (rt d) (pages d) x" by (rule dashboard_okD(3) [OF ok assms(2)])
  then have mark: "pendingByServer (coll p) j = Some m" using assms(3,4) by (simp add: op_consistent_def)
  then have mk: "pendingByServer (coll p) j = Some \<lparr>pr_action = pr_action m, pr_generation = pr_generation m\<rparr>"
    by simp
  show "\<forall>y \<in> set (remove1 x (in_flight d)). op_page y = op_page x \<longrightarrow> (\<forall>m'. op_mark y \<noteq> Some (j, m'))"
    using key_unique [OF dashboard_okD(4) [OF ok] assms(2), of "(op_page x, j)" _ "(op_page x, j)"] assms(3)
    by (auto simp: op_key_def)
  show "fst (update_settled j (pr_generation m) out (coll p)) =
      (case out of Fulfilled u \<Rightarrow> Applied | Rejected e \<Rightarrow> Threw e)"
    using settle_ok(1) [OF c mk, of out] by (metis prod.collapse)
  show "fst (remove_settled j (pr_generation m) out' (coll p)) =
      (case out' of Fulfilled u \<Rightarrow> Applied | Rejected e \<Rightarrow> Threw e)"
    using settle_ok(2) [OF c mk, of out'] by (metis prod.collapse)
  show "rowBusy (rt d) p j" using mark by (simp add: rowBusy_def)
  show "token_op x \<longrightarrow> rowBusy (rt d) q j"
  proof
    assume t: "token_op x"
    then have "tokenRequestServerId (rt d) = Some j"
      using con assms(3) by (cases x) (auto simp: op_consistent_def)
    moreover have "js_eq j j" using assms(5) by (cases j) simp_all
    ultimately show "rowBusy (rt d) q j"
      using token_request_pending(1) [OF ok assms(2) t] by (simp add: rowBusy_def id_is_def)
  qed
qed

theorem operations_not_superseded_witness: "rowBusy (rt rotating) mount_page (Fin 1)"
proof -
  obtain p where p: "pages rotating 0 = Some p" using rotating_facts(4) by blast
  have "OpRotate 0 one_server 2 \<in> set (in_flight rotating)" by (simp add: rotating_facts)
  from operations_not_superseded [OF rotating_facts(1) this _ _ _, of "Fin 1" _ p "Fulfilled one_server" "Fulfilled ()" mount_page] p
  show ?thesis by (simp add: one_server_def)
qed

end
