(* ===== verification/Auth.thy ===== *)
theory Auth
  imports Client
begin

text \<open>
  \<^verbatim>\<open>web/src/auth/\<close>: \<open>AuthGate\<close>, which finds out whether to show the set-up page, the login page
  or the application, and the two forms. One machine holds the gate, the mounted form and the
  answers they wait for. The browser's own validation of the inputs is left out, so that more
  is submitted here than in the browser.
\<close>

section \<open>The view\<close>

datatype auth_view =
    AuthLoading
  | AuthSetup
  | AuthLogin bool
  | Authenticated
  | AuthError string

text \<open>\<open>resolveAuthView\<close>: the second request is sent only where the code sends it.\<close>

definition setup_required :: "jv \<Rightarrow> bool completion" where
  "setup_required v =
     (case get_prop ''setupRequired'' v of Throws \<Rightarrow> Throws | Returns x \<Rightarrow> Returns (truthy x))"

definition me_view :: "jv promise \<Rightarrow> auth_view promise" where
  "me_view me =
     (case me of
        Fulfilled v \<Rightarrow> Fulfilled Authenticated
      | Rejected (ApiErr e) \<Rightarrow>
          if js_eq (ae_status e) (Fin 401) then Fulfilled (AuthLogin False) else Rejected (ApiErr e)
      | Rejected OtherErr \<Rightarrow> Rejected OtherErr)"

definition resolveAuthView :: "fetch_fun \<Rightarrow> auth_view promise" where
  "resolveAuthView fetch =
     (case api_getSetupStatus fetch of
        Rejected e \<Rightarrow> Rejected e
      | Fulfilled v \<Rightarrow>
          (case setup_required v of
             Throws \<Rightarrow> Rejected OtherErr
           | Returns True \<Rightarrow> Fulfilled AuthSetup
           | Returns False \<Rightarrow> me_view (api_getMe fetch)))"

section \<open>The state\<close>

datatype form_kind = SetupForm | LoginForm

record auth_form =
  fm_username :: string
  fm_password :: string
  fm_error :: string
  fm_submitting :: bool

definition empty_form :: auth_form where
  "empty_form = \<lparr>fm_username = '''', fm_password = '''', fm_error = '''', fm_submitting = False\<rparr>"

text \<open>
  \<open>active_run\<close> is the effect whose \<open>active\<close> is still true, \<open>unresolved\<close> are the effects whose
  promise has not settled, \<open>waiting\<close> is the request of the form.
\<close>

record auth_gate =
  av :: auth_view
  requestVersion :: nat
  effects_run :: nat
  active_run :: "nat option"
  unresolved :: "nat set"
  form :: auth_form
  waiting :: "(form_kind \<times> credentials) option"

definition initial_gate :: auth_gate where
  "initial_gate =
     \<lparr>av = AuthLoading, requestVersion = 0, effects_run = 1, active_run = Some 1, unresolved = {1}, form = empty_form,
      waiting = None\<rparr>"

fun form_of :: "auth_view \<Rightarrow> form_kind option" where
  "form_of AuthSetup = Some SetupForm"
| "form_of (AuthLogin c) = Some LoginForm"
| "form_of _ = None"

text \<open>\<open>setView\<close>; a form that was not shown before is mounted empty.\<close>

definition setView :: "auth_view \<Rightarrow> auth_gate \<Rightarrow> auth_gate" where
  "setView v s =
     s\<lparr>av := v, form := (if form_of v = form_of (av s) then form s else empty_form)\<rparr>"

section \<open>What happens\<close>

datatype auth_event =
    ViewResolved nat fetch_fun
  | RetryAuth
  | TypeUsername string
  | TypePassword string
  | SubmitForm
  | FormAnswered fetch_fun
  | GateUnmounted

definition view_resolved :: "nat \<Rightarrow> fetch_fun \<Rightarrow> auth_gate \<Rightarrow> auth_gate" where
  "view_resolved n fetch s =
     (if n \<notin> unresolved s then s
      else let s1 = s\<lparr>unresolved := unresolved s - {n}\<rparr>
           in if active_run s \<noteq> Some n then s1
              else case resolveAuthView fetch of
                     Fulfilled v \<Rightarrow> setView v s1
                   | Rejected e \<Rightarrow> setView (AuthError (apiErrorMessage e t_auth_unknown)) s1)"

text \<open>The button of the error view: its change of the version runs the effect again.\<close>

definition retry_auth :: "auth_gate \<Rightarrow> auth_gate" where
  "retry_auth s =
     (case av s of
        AuthError m \<Rightarrow>
          (setView AuthLoading s)\<lparr>requestVersion := requestVersion s + 1,
             effects_run := effects_run s + 1, active_run := Some (effects_run s + 1),
             unresolved := insert (effects_run s + 1) (unresolved s)\<rparr>
      | _ \<Rightarrow> s)"

definition form_enabled :: "auth_gate \<Rightarrow> bool" where
  "form_enabled s \<longleftrightarrow> form_of (av s) \<noteq> None \<and> \<not> fm_submitting (form s)"

definition handleSubmit :: "auth_gate \<Rightarrow> auth_gate" where
  "handleSubmit s =
     (case form_of (av s) of
        None \<Rightarrow> s
      | Some k \<Rightarrow>
          if fm_submitting (form s) then s
          else s\<lparr>form := (form s)\<lparr>fm_error := '''', fm_submitting := True\<rparr>,
                 waiting := Some (k, \<lparr>cr_username = fm_username (form s),
                                      cr_password = fm_password (form s)\<rparr>)\<rparr>)"

fun form_request :: "form_kind \<Rightarrow> fetch_fun \<Rightarrow> credentials \<Rightarrow> jv promise" where
  "form_request SetupForm fetch c = api_setupAdmin fetch c"
| "form_request LoginForm fetch c = api_login fetch c"

fun form_fallback :: "form_kind \<Rightarrow> string" where
  "form_fallback SetupForm = t_setup_failed"
| "form_fallback LoginForm = t_login_failed"

text \<open>\<open>onComplete\<close> and \<open>onAuthenticated\<close>.\<close>

fun form_done :: "form_kind \<Rightarrow> auth_view" where
  "form_done SetupForm = AuthLogin True"
| "form_done LoginForm = Authenticated"

definition form_answered :: "fetch_fun \<Rightarrow> auth_gate \<Rightarrow> auth_gate" where
  "form_answered fetch s =
     (case waiting s of
        None \<Rightarrow> s
      | Some (k, c) \<Rightarrow>
          let s1 = s\<lparr>waiting := None, form := (form s)\<lparr>fm_submitting := False\<rparr>\<rparr>
          in case form_request k fetch c of
               Fulfilled v \<Rightarrow> setView (form_done k) s1
             | Rejected e \<Rightarrow>
                 s1\<lparr>form := (form s1)\<lparr>fm_error := apiErrorMessage e (form_fallback k)\<rparr>\<rparr>)"

fun auth_step :: "auth_event \<Rightarrow> auth_gate \<Rightarrow> auth_gate" where
  "auth_step (ViewResolved n fetch) s = view_resolved n fetch s"
| "auth_step RetryAuth s = retry_auth s"
| "auth_step (TypeUsername t) s =
     (if form_enabled s then s\<lparr>form := (form s)\<lparr>fm_username := t\<rparr>\<rparr> else s)"
| "auth_step (TypePassword t) s =
     (if form_enabled s then s\<lparr>form := (form s)\<lparr>fm_password := t\<rparr>\<rparr> else s)"
| "auth_step SubmitForm s = handleSubmit s"
| "auth_step (FormAnswered fetch) s = form_answered fetch s"
| "auth_step GateUnmounted s = s\<lparr>active_run := None\<rparr>"

section \<open>What is rendered\<close>

record auth_layout =
  al_heading :: string
  al_description :: string
  al_notice :: "string option"
  al_error :: "string option"
  al_button :: string
  al_disabled :: bool

definition form_error :: "auth_form \<Rightarrow> string option" where
  "form_error f = (if fm_error f \<noteq> '''' then Some (fm_error f) else None)"

definition login_page :: "bool \<Rightarrow> auth_form \<Rightarrow> auth_layout" where
  "login_page setupComplete f =
     \<lparr>al_heading = t_welcome_back, al_description = t_login_description,
      al_notice = (if setupComplete then Some t_setup_complete else None),
      al_error = form_error f,
      al_button = (if fm_submitting f then t_logging_in else t_login), al_disabled = fm_submitting f\<rparr>"

definition setup_page :: "auth_form \<Rightarrow> auth_layout" where
  "setup_page f =
     \<lparr>al_heading = t_create_admin, al_description = t_setup_description, al_notice = None,
      al_error = form_error f,
      al_button = (if fm_submitting f then t_creating else t_create_admin),
      al_disabled = fm_submitting f\<rparr>"

text \<open>\<open>None\<close> where the gate shows its loading indicator or its children.\<close>

definition gate_layout :: "auth_gate \<Rightarrow> auth_layout option" where
  "gate_layout s =
     (case av s of
        AuthSetup \<Rightarrow> Some (setup_page (form s))
      | AuthLogin c \<Rightarrow> Some (login_page c (form s))
      | AuthError m \<Rightarrow>
          Some \<lparr>al_heading = t_not_connected, al_description = t_not_connected_description,
                al_notice = None, al_error = Some m, al_button = t_retry, al_disabled = False\<rparr>
      | _ \<Rightarrow> None)"

lemmas auth_ops [hook_defs] =
  setView_def view_resolved_def retry_auth_def handleSubmit_def form_answered_def

end
