(* ===== verification/AuthProps.thy ===== *)
theory AuthProps
  imports Auth
begin

text \<open>
  The promises of the gate: the application is shown only after the server has said so, and a
  submitted form always comes back, with an error text or with the next view.
\<close>

inductive auth_run :: "auth_gate \<Rightarrow> bool" where
  start: "auth_run initial_gate"
| step: "auth_run s \<Longrightarrow> auth_run (auth_step e s)"

text \<open>
  While a promise of the active effect is open the gate shows its loading indicator, and the
  form is disabled exactly while its request, with the typed values, is under way.
\<close>

definition gate_ok :: "auth_gate \<Rightarrow> bool" where
  "gate_ok s \<longleftrightarrow>
     (\<forall>n \<in> unresolved s. n \<le> effects_run s \<and> (active_run s = Some n \<longrightarrow> av s = AuthLoading)) \<and>
     (case waiting s of
        None \<Rightarrow> \<not> fm_submitting (form s)
      | Some (k, c) \<Rightarrow> fm_submitting (form s) \<and> form_of (av s) = Some k \<and>
          c = \<lparr>cr_username = fm_username (form s), cr_password = fm_password (form s)\<rparr>)"

lemma gate_ok_waiting: "gate_ok s \<Longrightarrow> av s = AuthLoading \<or> (\<exists>m. av s = AuthError m) \<Longrightarrow> waiting s = None"
  by (auto simp: gate_ok_def split: option.splits)

lemma setView_frame [simp]:
  "unresolved (setView v s) = unresolved s" "active_run (setView v s) = active_run s"
  "effects_run (setView v s) = effects_run s" "waiting (setView v s) = waiting s" "av (setView v s) = v"
  "\<not> fm_submitting (form s) \<Longrightarrow> \<not> fm_submitting (form (setView v s))"
  by (simp_all add: setView_def empty_form_def)

lemma setView_ok:
  assumes "gate_ok s" and "waiting s = None" and "\<And>n. n \<in> unresolved s \<Longrightarrow> active_run s \<noteq> Some n"
  shows "gate_ok (setView v s)"
  using assms by (auto simp: gate_ok_def)

lemma gate_ok_step:
  assumes ok: "gate_ok s"
  shows "gate_ok (auth_step e s)"
proof (cases e)
  case (ViewResolved n fetch)
  define s1 where "s1 = s\<lparr>unresolved := unresolved s - {n}\<rparr>"
  have s1: "gate_ok s1" "waiting s1 = waiting s" using ok by (auto simp: gate_ok_def s1_def split: option.splits)
  show ?thesis
  proof (cases "n \<in> unresolved s \<and> active_run s = Some n")
    case True
    then have "av s = AuthLoading" using ok by (auto simp: gate_ok_def)
    then have "waiting s1 = None" using gate_ok_waiting [OF ok] s1(2) by simp
    then have "gate_ok (setView v s1)" for v
      using setView_ok [OF s1(1)] True by (auto simp: s1_def)
    then show ?thesis using True
      by (auto simp: ViewResolved view_resolved_def s1_def [symmetric] split: promise.split)
  next
    case False
    then show ?thesis using ok s1(1) by (auto simp: ViewResolved view_resolved_def s1_def Let_def)
  qed
next
  case RetryAuth
  show ?thesis
  proof (cases "\<exists>m. av s = AuthError m")
    case True
    then have "waiting s = None" using gate_ok_waiting [OF ok] by blast
    then show ?thesis using ok True
      by (fastforce simp: RetryAuth retry_auth_def gate_ok_def setView_def intro: le_SucI)
  next
    case False
    then show ?thesis using ok by (auto simp: RetryAuth retry_auth_def split: auth_view.split)
  qed
next
  case SubmitForm
  then show ?thesis using ok by (auto simp: handleSubmit_def gate_ok_def split: option.splits)
next
  case (FormAnswered fetch)
  show ?thesis
  proof (cases "waiting s")
    case None
    then show ?thesis using ok by (simp add: FormAnswered form_answered_def)
  next
    case (Some kc)
    define s1 where "s1 = s\<lparr>waiting := None, form := (form s)\<lparr>fm_submitting := False\<rparr>\<rparr>"
    have "form_of (av s) \<noteq> None" using ok Some by (auto simp: gate_ok_def)
    then have "\<And>n. n \<in> unresolved s1 \<Longrightarrow> active_run s1 \<noteq> Some n"
      using ok by (auto simp: gate_ok_def s1_def)
    moreover have "gate_ok s1" "waiting s1 = None" using ok Some by (auto simp: gate_ok_def s1_def)
    ultimately have "gate_ok (setView v s1)" for v using setView_ok by blast
    then show ?thesis using ok Some
      by (auto simp: FormAnswered form_answered_def gate_ok_def s1_def Let_def split: prod.split promise.split)
  qed
qed (use ok in \<open>auto simp: gate_ok_def form_enabled_def split: option.splits\<close>)

lemma auth_run_ok: "auth_run s \<Longrightarrow> gate_ok s"
proof (induction rule: auth_run.induct)
  case start
  show ?case by (simp add: gate_ok_def initial_gate_def empty_form_def)
qed (rule gate_ok_step)

section \<open>Who gets in\<close>

lemma request_fulfilled:
  "request fetch path init = Fulfilled v \<Longrightarrow> \<exists>r. fetch (fetch_arguments path init) = Some r \<and> resp_ok r"
  by (auto simp: request_def settle_response_def split: option.splits if_splits)

definition admitted_by :: "auth_event \<Rightarrow> bool" where
  "admitted_by e \<longleftrightarrow>
     (case e of
        ViewResolved n fetch \<Rightarrow>
          \<exists>r v. fetch (fetch_arguments ''/api/me'' no_init) = Some r \<and> resp_ok r \<and>
            api_getSetupStatus fetch = Fulfilled v \<and> setup_required v = Returns False
      | FormAnswered fetch \<Rightarrow>
          \<exists>c r. fetch (fetch_arguments ''/api/login'' (with_json ''POST'' (credentials_json c))) = Some r \<and>
            resp_ok r
      | _ \<Rightarrow> False)"

lemma resolve_authenticated:
  assumes "resolveAuthView fetch = Fulfilled Authenticated"
  shows "admitted_by (ViewResolved n fetch)"
proof -
  obtain v where v: "api_getSetupStatus fetch = Fulfilled v" "setup_required v = Returns False"
    "me_view (api_getMe fetch) = Fulfilled Authenticated"
    using assms by (auto simp: resolveAuthView_def split: promise.splits completion.splits bool.splits)
  then obtain w where "api_getMe fetch = Fulfilled w"
    by (auto simp: me_view_def split: promise.splits js_error.splits if_splits)
  then show ?thesis using v request_fulfilled by (fastforce simp: admitted_by_def api_getMe_def)
qed

lemma step_authenticated:
  assumes "av (auth_step e s) = Authenticated" and "av s \<noteq> Authenticated"
  shows "admitted_by e"
proof (cases e)
  case (ViewResolved n fetch)
  then show ?thesis using assms resolve_authenticated
    by (auto simp: view_resolved_def Let_def split: if_splits promise.splits)
next
  case (FormAnswered fetch)
  then obtain k c v where "waiting s = Some (k, c)" "form_request k fetch c = Fulfilled v" "form_done k = Authenticated"
    using assms by (auto simp: form_answered_def Let_def split: option.splits promise.splits prod.splits)
  then have "api_login fetch c = Fulfilled v" by (cases k) simp_all
  then show ?thesis
    using request_fulfilled [of fetch "''/api/login''" "with_json ''POST'' (credentials_json c)" v]
    by (auto simp: FormAnswered admitted_by_def api_login_def postJSON_def)
qed (use assms in \<open>auto simp: retry_auth_def handleSubmit_def split: if_splits auth_view.splits option.splits\<close>)

lemma authenticated_evidence:
  "av (fold auth_step es s) = Authenticated \<Longrightarrow> av s \<noteq> Authenticated \<Longrightarrow> \<exists>e \<in> set es. admitted_by e"
proof (induction es arbitrary: s)
  case (Cons e es)
  show ?case
  proof (cases "av (auth_step e s) = Authenticated")
    case True
    then show ?thesis using step_authenticated [OF _ Cons.prems(2)] by simp
  next
    case False
    then show ?thesis using Cons by simp
  qed
qed simp

lemma authenticated_stays: "gate_ok s \<Longrightarrow> av s = Authenticated \<Longrightarrow> av (auth_step e s) = Authenticated"
  by (cases e) (auto simp: auth_ops gate_ok_def Let_def split: option.splits promise.split if_splits)

text \<open>
  The application is shown only after the server has let the user in: some answer in the run
  was an ok response to \<open>/api/me\<close>, with a set-up status that asks for no set-up, or an ok
  response to a login with the submitted credentials. A 401, any other error status or a lost
  connection never opens it; and once it is open nothing closes it.
\<close>

lemma authenticated_only_by_server:
  assumes "s = fold auth_step es initial_gate" and "av s = Authenticated"
  shows "(\<exists>e \<in> set es. admitted_by e) \<and> av (auth_step e' s) = Authenticated"
proof
  have "av (fold auth_step es initial_gate) = Authenticated" using assms by simp
  then show "\<exists>e \<in> set es. admitted_by e"
    by (rule authenticated_evidence) (simp add: initial_gate_def)
  have run: "auth_run u \<Longrightarrow> auth_run (fold auth_step fs u)" for fs u
    by (induction fs arbitrary: u) (simp_all add: auth_run.step)
  have "gate_ok s" unfolding assms(1) by (rule auth_run_ok [OF run [OF auth_run.start]])
  then show "av (auth_step e' s) = Authenticated" using assms(2) by (rule authenticated_stays)
qed

text \<open>A server that needs no set-up and knows the session.\<close>

definition open_server :: fetch_fun where
  "open_server call = Some \<lparr>resp_ok = True, resp_status = Fin 200, resp_text = Some ''{}''\<rparr>"

lemma open_server_answers: "request open_server path init = Fulfilled (JObj [])"
proof -
  have "json_parse ''{}'' = Some (JObj [])" by code_simp
  then show ?thesis by (simp add: request_def open_server_def settle_response_def)
qed

lemma open_server_view: "resolveAuthView open_server = Fulfilled Authenticated"
  by (simp add: resolveAuthView_def api_getSetupStatus_def api_getMe_def open_server_answers
      setup_required_def me_view_def)

section \<open>Forms come back\<close>

lemma request_error_text:
  assumes "request fetch path init = Rejected e" and "fallback \<noteq> ''''"
  shows "apiErrorMessage e fallback \<noteq> ''''"
proof (cases e)
  case (ApiErr a)
  then obtain r where "serverMessage a = validatedErrorMessage r"
    using assms(1) by (auto simp: request_def settle_response_def newApiError_def split: option.splits if_splits)
  then show ?thesis using trim_nonblank [of r] assms(2) by (cases "validatedErrorMessage r") (auto simp: ApiErr)
qed (use assms(2) in simp)

lemma form_fallback_text: "form_fallback k \<noteq> ''''"
  by (cases k) (simp_all add: t_setup_failed_def t_login_failed_def)

lemma form_request_error:
  assumes "form_request k fetch c = Rejected e"
  shows "apiErrorMessage e (form_fallback k) \<noteq> ''''"
proof -
  obtain path where "postJSON fetch path c = Rejected e"
    using assms by (cases k) (auto simp: api_setupAdmin_def api_login_def)
  then show ?thesis unfolding postJSON_def using form_fallback_text by (rule request_error_text)
qed

text \<open>
  A submitted form always comes back: the request carries exactly the typed values; if it
  fails, the same page shows a text that is not blank, keeps what was typed and can be submitted
  again; if it succeeds, the login opens the application, and the set-up leads to an empty login
  form with a notice. While it is under way a second submission does nothing.
\<close>

lemma auth_form_settles:
  assumes "auth_run s" and "waiting s = Some (k, c)" and "s' = auth_step (FormAnswered fetch) s"
  shows "auth_step SubmitForm s = s \<and>
    c = \<lparr>cr_username = fm_username (form s), cr_password = fm_password (form s)\<rparr> \<and> waiting s' = None \<and>
    (case form_request k fetch c of
       Rejected e \<Rightarrow> av s' = av s \<and> form_enabled s' \<and> form_error (form s') \<noteq> None \<and>
         fm_username (form s') = cr_username c \<and> fm_password (form s') = cr_password c
     | Fulfilled v \<Rightarrow>
         (k = LoginForm \<longrightarrow> av s' = Authenticated) \<and>
         (k = SetupForm \<longrightarrow> av s' = AuthLogin True \<and> form s' = empty_form \<and>
            al_notice (login_page True (form s')) \<noteq> None))"
proof -
  have ok: "fm_submitting (form s)" "form_of (av s) = Some k"
    "c = \<lparr>cr_username = fm_username (form s), cr_password = fm_password (form s)\<rparr>"
    using auth_run_ok [OF assms(1)] assms(2) by (auto simp: gate_ok_def)
  show ?thesis
  proof (cases "form_request k fetch c")
    case (Fulfilled v)
    then show ?thesis using ok assms(2,3)
      by (cases k) (auto simp: handleSubmit_def form_answered_def setView_def login_page_def Let_def)
  next
    case (Rejected e)
    then show ?thesis using ok assms(2,3) form_request_error [OF Rejected]
      by (auto simp: handleSubmit_def form_answered_def form_enabled_def form_error_def Let_def)
  qed
qed

definition fresh_server :: fetch_fun where
  "fresh_server call = Some \<lparr>resp_ok = True, resp_status = Fin 200, resp_text = Some ''{\"setupRequired\":true}''\<rparr>"

end
