(* ===== verification/Overview.thy ===== *)
theory Overview
  imports LiveTheorems Format TokenRouter
begin

text \<open>
  \<^verbatim>\<open>web/src/components/ServerRow.tsx\<close>, \<^verbatim>\<open>web/src/components/SummaryPanel.tsx\<close> and
  \<^verbatim>\<open>web/src/pages/OverviewPage.tsx\<close>: what the overview renders from the live snapshots.
\<close>

section \<open>One server\<close>

definition or_dash :: "string \<Rightarrow> string" where
  "or_dash s = (if s \<noteq> '''' then s else em_dash)"

text \<open>\<open>[a, b].filter(Boolean).join(" ")\<close>\<close>

definition platform_name :: "host_info \<Rightarrow> string" where
  "platform_name h = join '' '' (filter (\<lambda>s. s \<noteq> '''') [platform h, platformVersion h])"

record server_row =
  rw_href :: string
  rw_name :: string
  rw_online :: bool
  rw_status :: string
  rw_platform :: string
  rw_uptime :: string
  rw_cpu :: metric_bar
  rw_memory :: metric_bar
  rw_disk :: metric_bar
  rw_upload :: string
  rw_download :: string
  rw_totalUpload :: string
  rw_totalDownload :: string

definition row_of_snapshot :: "server_snapshot \<Rightarrow> server_row" where
  "row_of_snapshot snap =
     (let reported = hasReport snap; rep = report snap; net = network rep; mem = memory rep; nm = serverName snap;
          memoryUsage = (if reported then percentage (mem_usedBytes mem) (mem_totalBytes mem) else None);
          diskUsage = (if reported then highestDiskUsage (disks rep) else None);
          system = (if reported then
                      (if platform_name (host rep) \<noteq> '''' then platform_name (host rep) else or_dash (os (host rep)))
                    else em_dash);
          rate = (\<lambda>x. if reported then formatRate x else em_dash);
          bytes = (\<lambda>x. if reported then formatBytes x else em_dash)
      in \<lparr>rw_href = server_link (serverId snap), rw_name = nm @ t_see_details, rw_online = online snap,
          rw_status = (if online snap then t_online else t_offline),
          rw_platform = system,
          rw_uptime = (if reported then formatDuration (uptimeSeconds (host rep)) else em_dash),
          rw_cpu = metricBar (nm @ '' CPU'') (if reported then Some (usagePercent (cpu rep)) else None),
          rw_memory = metricBar (nm @ t_memory_label) memoryUsage,
          rw_disk = metricBar (nm @ t_highest_disk) diskUsage,
          rw_upload = rate (uploadBytesPerSecond net), rw_download = rate (downloadBytesPerSecond net),
          rw_totalUpload = bytes (totalUploadBytes net),
          rw_totalDownload = bytes (totalDownloadBytes net)\<rparr>)"

section \<open>The summary\<close>

record traffic =
  tf_upload :: jsnum
  tf_download :: jsnum
  tf_totalUpload :: jsnum
  tf_totalDownload :: jsnum

definition add_traffic :: "traffic \<Rightarrow> server_snapshot \<Rightarrow> traffic" where
  "add_traffic t snap =
     (if \<not> online snap then t
      else let net = network (report snap)
           in \<lparr>tf_upload = js_add (tf_upload t) (uploadBytesPerSecond net),
               tf_download = js_add (tf_download t) (downloadBytesPerSecond net),
               tf_totalUpload = js_add (tf_totalUpload t) (totalUploadBytes net),
               tf_totalDownload = js_add (tf_totalDownload t) (totalDownloadBytes net)\<rparr>)"

definition traffic_of :: "server_snapshot list \<Rightarrow> traffic" where
  "traffic_of snaps =
     foldl add_traffic
       \<lparr>tf_upload = Fin 0, tf_download = Fin 0, tf_totalUpload = Fin 0, tf_totalDownload = Fin 0\<rparr> snaps"

definition online_count :: "server_snapshot list \<Rightarrow> nat" where
  "online_count snaps = length (filter online snaps)"

record summary_panel =
  sp_total :: nat
  sp_online :: nat
  sp_abnormal :: nat
  sp_upload :: string
  sp_download :: string
  sp_cumulative :: string

definition summary_of :: "server_snapshot list \<Rightarrow> summary_panel" where
  "summary_of snaps =
     (let t = traffic_of snaps
      in \<lparr>sp_total = length snaps, sp_online = online_count snaps,
          sp_abnormal = length snaps - online_count snaps,
          sp_upload = formatRate (tf_upload t), sp_download = formatRate (tf_download t),
          sp_cumulative = formatBytes (tf_totalUpload t) @ '' / '' @ formatBytes (tf_totalDownload t)\<rparr>)"

section \<open>The page\<close>

record error_notice =
  en_alert :: bool
  en_heading :: string
  en_message :: string

text \<open>The text of a message that is null or empty counts as none.\<close>

definition has_text :: "string option \<Rightarrow> bool" where
  "has_text m \<longleftrightarrow> m \<noteq> None \<and> m \<noteq> Some ''''"

definition current_error_notice :: "bool \<Rightarrow> string option \<Rightarrow> error_notice option" where
  "current_error_notice disconnected reqError =
     (if \<not> disconnected \<and> \<not> has_text reqError then None
      else Some
        \<lparr>en_alert = has_text reqError,
         en_heading = (if disconnected then t_connection_lost else t_refresh_failed),
         en_message =
           (if disconnected then
              (if has_text reqError then t_retry_failed_prefix @ the reqError @ t_still_usable
               else t_reconnecting)
            else the reqError @ t_still_usable)\<rparr>)"

definition nat_text :: "nat \<Rightarrow> string" where
  "nat_text n = number_to_string (num_of_int (int n))"

definition statusCopy :: "nat \<Rightarrow> nat \<Rightarrow> string" where
  "statusCopy tot onl =
     (let offl = tot - onl
      in if tot = 0 then t_status_empty
         else if offl = 0 then t_just_looked @ nat_text onl @ t_all_quiet
         else nat_text onl @ t_some_online @ nat_text offl @ t_some_silent)"

datatype intro_dot = DotOffline | DotAttention | DotOk

record overview_view =
  ov_heading :: string
  ov_status :: string
  ov_dot :: intro_dot
  ov_summary :: "summary_panel option"
  ov_loading :: bool
  ov_error :: "string option"
  ov_empty :: bool
  ov_notice :: "error_notice option"
  ov_list :: "(bool \<times> string \<times> server_row list) option"

definition overview_of :: "live_state \<Rightarrow> overview_view" where
  "overview_of s =
     (let snaps = snapshots s; onl = online_count snaps; none = (snaps = []);
          initialLoading = (none \<and> initialLoadStatus s = LoadPending);
          initialError = (none \<and> initialLoadStatus s = LoadError);
          initialEmpty = (none \<and> initialLoadStatus s = LoadSuccess)
      in \<lparr>ov_heading =
            (if initialLoading then t_heading_loading
             else if initialError then t_heading_error
             else if onl < length snaps then t_heading_attention else t_heading_quiet),
          ov_status =
            (if initialLoading then t_intro_loading
             else if initialError then t_intro_error else statusCopy (length snaps) onl),
          ov_dot =
            (if initialError then DotOffline
             else if initialLoading \<or> onl < length snaps then DotAttention else DotOk),
          ov_summary = (if none then None else Some (summary_of snaps)),
          ov_loading = initialLoading,
          ov_error = (if initialError then Some (nullish (live_error s) '''') else None),
          ov_empty = initialEmpty,
          ov_notice =
            (if initialEmpty \<or> \<not> none then current_error_notice (connectionFailed s) (requestError s)
             else None),
          ov_list =
            (if none then None
             else Some (liveConnected s, if liveConnected s then t_live_ok else t_live_waiting,
                        map row_of_snapshot snaps))\<rparr>)"

section \<open>Sums\<close>

definition ints_of :: "(network_stats \<Rightarrow> jsnum) \<Rightarrow> (server_snapshot \<Rightarrow> int) \<Rightarrow> server_snapshot list \<Rightarrow> bool" where
  "ints_of f g snaps \<longleftrightarrow>
     list_all (\<lambda>s. f (network (report s)) = num_of_int (g s) \<and> 0 \<le> g s) (filter online snaps) \<and>
     sum_list (map g (filter online snaps)) \<le> 2 ^ 53"

lemma foldl_js_add:
  assumes "list_all (\<lambda>s. f s = num_of_int (g s) \<and> 0 \<le> g s) xs" and "0 \<le> a"
    and "a + sum_list (map g xs) \<le> 2 ^ 53"
  shows "foldl (\<lambda>t s. js_add t (f s)) (num_of_int a) xs = num_of_int (a + sum_list (map g xs))"
  using assms
proof (induction xs arbitrary: a)
  case (Cons x xs)
  have "0 \<le> sum_list (map g xs)" using Cons.prems(1) by (intro sum_list_nonneg) (auto simp: list_all_iff)
  then have "\<bar>a + g x\<bar> \<le> 2 ^ 53" using Cons.prems by simp
  then have "js_add (num_of_int a) (f x) = num_of_int (a + g x)"
    using Cons.prems(1) js_add_int [of a "g x"] by simp
  then show ?case using Cons.IH [of "a + g x"] Cons.prems by (simp add: add.assoc del: js_add.simps)
qed simp

lemma traffic_fields:
  "tf_upload (foldl add_traffic t snaps) =
     foldl (\<lambda>a s. js_add a (uploadBytesPerSecond (network (report s)))) (tf_upload t) (filter online snaps)"
  "tf_download (foldl add_traffic t snaps) =
     foldl (\<lambda>a s. js_add a (downloadBytesPerSecond (network (report s)))) (tf_download t) (filter online snaps)"
  "tf_totalUpload (foldl add_traffic t snaps) =
     foldl (\<lambda>a s. js_add a (totalUploadBytes (network (report s)))) (tf_totalUpload t) (filter online snaps)"
  "tf_totalDownload (foldl add_traffic t snaps) =
     foldl (\<lambda>a s. js_add a (totalDownloadBytes (network (report s)))) (tf_totalDownload t) (filter online snaps)"
  by (induction snaps arbitrary: t) (simp_all add: add_traffic_def Let_def)

text \<open>
  The summary of the overview is exact: the online and the abnormal servers add up to all
  servers, and while the counters are whole numbers whose sum is at most \<open>2\<^sup>5\<^sup>3\<close>, the traffic is
  the exact sum over the online servers, in whatever order they are listed, the offline ones
  counting nothing.
\<close>

lemma summary_exact:
  assumes "ints_of uploadBytesPerSecond up snaps" and "ints_of downloadBytesPerSecond down snaps"
    and "ints_of totalUploadBytes tup snaps" and "ints_of totalDownloadBytes tdown snaps"
    and "p = summary_of snaps"
  shows "sp_online p + sp_abnormal p = sp_total p \<and>
    traffic_of snaps =
      \<lparr>tf_upload = num_of_int (sum_list (map up (filter online snaps))),
       tf_download = num_of_int (sum_list (map down (filter online snaps))),
       tf_totalUpload = num_of_int (sum_list (map tup (filter online snaps))),
       tf_totalDownload = num_of_int (sum_list (map tdown (filter online snaps)))\<rparr>"
proof
  show "sp_online p + sp_abnormal p = sp_total p"
    by (simp add: assms(5) summary_of_def online_count_def Let_def length_filter_le)
  have sum: "foldl (\<lambda>a s. js_add a (f (network (report s)))) (num_of_int 0) (filter online snaps) =
      num_of_int (sum_list (map g (filter online snaps)))" if "ints_of f g snaps" for f g
    using foldl_js_add [of "\<lambda>s. f (network (report s))" g "filter online snaps" 0] that by (simp add: ints_of_def)
  show "traffic_of snaps =
      \<lparr>tf_upload = num_of_int (sum_list (map up (filter online snaps))),
       tf_download = num_of_int (sum_list (map down (filter online snaps))),
       tf_totalUpload = num_of_int (sum_list (map tup (filter online snaps))),
       tf_totalDownload = num_of_int (sum_list (map tdown (filter online snaps)))\<rparr>"
    using sum [OF assms(1)] sum [OF assms(2)] sum [OF assms(3)] sum [OF assms(4)]
    by (intro traffic.equality) (simp_all add: traffic_of_def traffic_fields)
qed

section \<open>What the page shows\<close>

lemma statusCopy_text: "statusCopy a b \<noteq> ''''"
  by (simp add: statusCopy_def Let_def t_status_empty_def t_just_looked_def t_some_online_def)

text \<open>
  In every reachable state of the live data the overview shows exactly one of its loading
  state, its error state, its empty state and the list of servers; the notice about a lost
  connection or a failed refresh shows exactly when there is one of them and data or the empty
  state to show it beside; the page calls itself calm only when every listed server is online;
  and the list has the offline servers first, each with a link that leads to its own page.
\<close>

lemma overview_shows_one_state:
  assumes "live_run lc s" and "v = overview_of s" and "js_order lc"
    and "\<And>snap. snap \<in> set (snapshots s) \<Longrightarrow> valid_server_id (serverId snap)"
  shows "length (filter id [ov_loading v, ov_error v \<noteq> None, ov_empty v, ov_list v \<noteq> None]) = 1 \<and>
    (ov_notice v \<noteq> None \<longleftrightarrow>
       (ov_empty v \<or> ov_list v \<noteq> None) \<and> (connectionFailed s \<or> has_text (requestError s))) \<and>
    (ov_error v \<noteq> None \<longrightarrow> requestError s \<noteq> None) \<and>
    (ov_dot v = DotOk \<longrightarrow> (\<forall>snap \<in> set (snapshots s). online snap)) \<and>
    (\<forall>c t rows. ov_list v = Some (c, t, rows) \<longrightarrow>
       map (\<lambda>r. route_of (rw_href r)) rows = map (\<lambda>snap. DetailRoute (serverId snap)) (snapshots s) \<and>
       sorted_wrt (\<lambda>l r. rw_online l \<longrightarrow> rw_online r) rows)"
proof (intro conjI)
  have st: "status_ok s" by (rule live_run_status [OF assms(1)])
  show "length (filter id [ov_loading v, ov_error v \<noteq> None, ov_empty v, ov_list v \<noteq> None]) = 1"
    by (cases "initialLoadStatus s") (auto simp: assms(2) overview_of_def Let_def)
  show "ov_notice v \<noteq> None \<longleftrightarrow>
       (ov_empty v \<or> ov_list v \<noteq> None) \<and> (connectionFailed s \<or> has_text (requestError s))"
    by (auto simp: assms(2) overview_of_def current_error_notice_def Let_def)
  show "ov_error v \<noteq> None \<longrightarrow> requestError s \<noteq> None"
    using st by (auto simp: assms(2) overview_of_def status_ok_def Let_def)
  have "\<forall>snap \<in> set (snapshots s). online snap" if "\<not> online_count (snapshots s) < length (snapshots s)"
    using that length_filter_less [of _ "snapshots s" online] by (auto simp: online_count_def)
  then show "ov_dot v = DotOk \<longrightarrow> (\<forall>snap \<in> set (snapshots s). online snap)"
    by (auto simp: assms(2) overview_of_def Let_def)
  have order: "sorted_wrt (\<lambda>l r. online l \<longrightarrow> online r) (snapshots s)"
    using live_run_sorted [OF assms(3,1)] unfolding sorted_ok_def
    by (rule sorted_wrt_mono_rel [rotated]) (auto simp: listed_before_def)
  show "\<forall>c t rows. ov_list v = Some (c, t, rows) \<longrightarrow>
       map (\<lambda>r. route_of (rw_href r)) rows = map (\<lambda>snap. DetailRoute (serverId snap)) (snapshots s) \<and>
       sorted_wrt (\<lambda>l r. rw_online l \<longrightarrow> rw_online r) rows"
    using order assms(4) route_of_server_link(1)
    by (auto simp: assms(2) overview_of_def row_of_snapshot_def sorted_wrt_map Let_def)
qed

end
