(* ===== verification/DetailPage.thy ===== *)
theory DetailPage
  imports Overview HistoryHook
begin

text \<open>
  \<^verbatim>\<open>web/src/pages/ServerDetailPage.tsx\<close> and \<^verbatim>\<open>web/src/components/RangeTabs.tsx\<close>: the page of one
  server with its load, its range and the history hook. The router mounts a new page for
  another server, so the id of a page is fixed. The functions of \<^verbatim>\<open>utils/format.ts\<close> take the
  date functions of the browser as parameters.
\<close>

section \<open>Range tabs\<close>

definition range_tabs :: "history_range option \<Rightarrow> (string \<times> history_range option \<times> bool) list" where
  "range_tabs v =
     map (\<lambda>(label, r). (label, r, v = r))
       [(t_live, None), (t_1d, Some Range_1d), (t_7d, Some Range_7d), (t_30d, Some Range_30d)]"

section \<open>Live metrics\<close>

record disk_row =
  dr_mountpoint :: string
  dr_bar :: metric_bar
  dr_text :: string

record live_metrics =
  lm_cpu :: metric_bar
  lm_load :: string
  lm_memory :: metric_bar
  lm_memory_text :: string
  lm_swap :: metric_bar
  lm_swap_text :: string
  lm_disks :: "disk_row list"
  lm_read :: string
  lm_write :: string
  lm_interface :: string
  lm_upload :: string
  lm_download :: string
  lm_totalUpload :: string
  lm_totalDownload :: string

definition used_of :: "jsnum \<Rightarrow> jsnum \<Rightarrow> string" where
  "used_of used tot = formatBytes used @ '' / '' @ formatBytes tot"

definition RealTimeMetrics :: "server_snapshot \<Rightarrow> bool \<Rightarrow> live_metrics" where
  "RealTimeMetrics snap reported =
     (let rep = report snap; c = cpu rep; m = memory rep; n = network rep;
          when = (\<lambda>t. if reported then t else em_dash);
          memoryUsage = (if reported then percentage (mem_usedBytes m) (mem_totalBytes m) else None);
          swapUsage = (if reported then percentage (swapUsedBytes m) (swapTotalBytes m) else None)
      in \<lparr>lm_cpu = metricBar t_cpu_usage (if reported then Some (usagePercent c) else None),
          lm_load = when (to_fixed 2 (cpu_load1 c) @ '' / '' @ to_fixed 2 (cpu_load5 c) @ '' / '' @
                          to_fixed 2 (cpu_load15 c)),
          lm_memory = metricBar t_memory_usage memoryUsage,
          lm_memory_text = when (used_of (mem_usedBytes m) (mem_totalBytes m)),
          lm_swap = metricBar t_swap_usage swapUsage,
          lm_swap_text = when (if js_lt (Fin 0) (swapTotalBytes m)
                               then used_of (swapUsedBytes m) (swapTotalBytes m) else t_no_swap),
          lm_disks =
            (if reported then
               map (\<lambda>d. \<lparr>dr_mountpoint = mountpoint d,
                          dr_bar = metricBar (mountpoint d @ '' '' @ t_usage_suffix)
                                     (percentage (disk_usedBytes d) (disk_totalBytes d)),
                          dr_text = used_of (disk_usedBytes d) (disk_totalBytes d)\<rparr>)
                 (nullish (disks rep) [])
             else []),
          lm_read = when (formatRate (readBytesPerSecond (diskIo rep))),
          lm_write = when (formatRate (writeBytesPerSecond (diskIo rep))),
          lm_interface = when (or_dash (net_interface n)),
          lm_upload = when (formatRate (uploadBytesPerSecond n)),
          lm_download = when (formatRate (downloadBytesPerSecond n)),
          lm_totalUpload = when (formatBytes (totalUploadBytes n)),
          lm_totalDownload = when (formatBytes (totalDownloadBytes n))\<rparr>)"

section \<open>The error boundary of the charts\<close>

text \<open>\<open>True\<close> is the state \<open>failed\<close>; a failed boundary shows its reload button, no children.\<close>

definition getDerivedStateFromError :: "bool \<Rightarrow> bool" where
  "getDerivedStateFromError failed = True"

definition boundary_render :: "bool \<Rightarrow> 'a \<Rightarrow> 'a option" where
  "boundary_render failed children = (if failed then None else Some children)"

datatype reload_target = GivenReload | LocationReload

definition boundary_reload :: "bool \<Rightarrow> reload_target" where
  "boundary_reload has_reload = (if has_reload then GivenReload else LocationReload)"

section \<open>The state of the page\<close>

text \<open>
  \<open>dp_open\<close> are the loads that have not settled, \<open>dp_finishing\<close> those whose \<open>finally\<close> is still
  to run, \<open>dp_active\<close> is the effect whose \<open>active\<close> is true; its abort controller is aborted in
  the same clean-up.
\<close>

record detail_page =
  dp_serverId :: jsnum
  dp_snapshot :: "server_snapshot option"
  dp_error :: "string option"
  dp_loading :: bool
  dp_reload :: nat
  dp_active :: "nat option"
  dp_open :: "nat set"
  dp_finishing :: "nat set"
  rangeSelection :: "jsnum \<times> history_range option"
  dp_history :: history_hook

definition range_of :: "detail_page \<Rightarrow> history_range option" where
  "range_of p =
     (if js_eq (fst (rangeSelection p)) (dp_serverId p) then snd (rangeSelection p) else None)"

text \<open>The effect: it follows the clean-up of the one before, and names its load by \<open>dp_reload\<close>.\<close>

definition run_load :: "detail_page \<Rightarrow> detail_page" where
  "run_load p =
     p\<lparr>dp_snapshot := None, dp_loading := True, dp_error := None, dp_active := Some (dp_reload p),
       dp_open := insert (dp_reload p) (dp_open p)\<rparr>"

definition mount_detail :: "jsnum \<Rightarrow> history_cache \<Rightarrow> detail_page" where
  "mount_detail i cache = run_load
     \<lparr>dp_serverId = i, dp_snapshot = None, dp_error = None, dp_loading = True, dp_reload = 0,
      dp_active = None, dp_open = {}, dp_finishing = {}, rangeSelection = (i, None),
      dp_history = mount_history 0 0 (i, None) cache\<rparr>"

definition status_settled :: "nat \<Rightarrow> server_snapshot promise \<Rightarrow> detail_page \<Rightarrow> detail_page" where
  "status_settled n outcome p =
     (if n \<notin> dp_open p then p
      else let p1 = p\<lparr>dp_open := dp_open p - {n}, dp_finishing := insert n (dp_finishing p)\<rparr>
           in if dp_active p \<noteq> Some n then p1
              else case outcome of
                     Fulfilled next_snap \<Rightarrow> p1\<lparr>dp_snapshot := Some next_snap\<rparr>
                   | Rejected e \<Rightarrow> p1\<lparr>dp_error := Some (apiErrorMessage e t_status_failed)\<rparr>)"

definition status_finally :: "nat \<Rightarrow> detail_page \<Rightarrow> detail_page" where
  "status_finally n p =
     (if n \<notin> dp_finishing p then p
      else let p1 = p\<lparr>dp_finishing := dp_finishing p - {n}\<rparr>
           in if dp_active p = Some n then p1\<lparr>dp_loading := False\<rparr> else p1)"

section \<open>What it renders\<close>

record system_facts =
  fa_hostname :: string
  fa_os :: string
  fa_platform :: string
  fa_kernel :: string
  fa_architecture :: string
  fa_cpu :: string
  fa_cores :: string
  fa_primaryIp :: string
  fa_uptime :: string
  fa_boot :: string
  fa_agent :: string
  fa_sourceIp :: string

definition facts_of :: "(jsnum \<Rightarrow> string) \<Rightarrow> server_snapshot \<Rightarrow> system_facts" where
  "facts_of intl snap =
     (let h = host (report snap);
          when = (\<lambda>t. if hasReport snap then t else em_dash)
      in \<lparr>fa_hostname = when (or_dash (hostname h)), fa_os = when (or_dash (os h)),
          fa_platform = when (or_dash (platform_name h)), fa_kernel = when (or_dash (kernelVersion h)),
          fa_architecture = when (or_dash (architecture h)), fa_cpu = when (or_dash (cpuModel h)),
          fa_cores = when (number_to_string (cpuCores h)), fa_primaryIp = when (or_dash (primaryIp h)),
          fa_uptime = when (formatDuration (uptimeSeconds h)),
          fa_boot = when (formatUnixTimestamp intl (bootTimeUnix h)),
          fa_agent = when (or_dash (report_agentVersion (report snap))),
          fa_sourceIp = or_dash (sourceIp snap)\<rparr>)"

datatype metrics_body =
    LiveBody live_metrics
  | HistoryLoadingBody
  | HistoryErrorBody string
  | HistoryCharts history_response
  | HistoryEmpty

definition metrics_body_of ::
  "server_snapshot \<Rightarrow> history_range option \<Rightarrow> history_view \<Rightarrow> metrics_body" where
  "metrics_body_of snap rng h =
     (if rng = None then LiveBody (RealTimeMetrics snap (hasReport snap))
      else if v_loading h then HistoryLoadingBody
      else if has_text (v_error h) then HistoryErrorBody (the (v_error h))
      else case v_data h of
             Some d \<Rightarrow> if elements (points d) \<noteq> [] then HistoryCharts d else HistoryEmpty
           | None \<Rightarrow> HistoryEmpty)"

fun range_label :: "history_range option \<Rightarrow> string" where
  "range_label (Some Range_1d) = t_last_1d"
| "range_label (Some Range_7d) = t_last_7d"
| "range_label _ = t_last_30d"

record detail_content =
  dc_online :: bool
  dc_status :: string
  dc_name :: string
  dc_received :: string
  dc_collected :: string
  dc_unreported :: bool
  dc_facts :: system_facts
  dc_title :: string
  dc_hint :: string
  dc_tabs :: "(string \<times> history_range option \<times> bool) list"
  dc_metrics :: metrics_body

definition content_of ::
  "(string \<Rightarrow> jsnum) \<Rightarrow> (jsnum \<Rightarrow> string) \<Rightarrow> server_snapshot \<Rightarrow> history_range option \<Rightarrow>
   history_view \<Rightarrow> detail_content" where
  "content_of parse_date intl snap rng h =
     \<lparr>dc_online = online snap, dc_status = (if online snap then t_is_online else t_is_offline),
      dc_name = serverName snap, dc_received = formatTimestamp parse_date intl (lastReceivedAt snap),
      dc_collected =
        (if hasReport snap then formatUnixTimestamp intl (collectedAtUnix (report snap)) else t_no_data_yet),
      dc_unreported = (\<not> hasReport snap), dc_facts = facts_of intl snap,
      dc_title = (if rng = None then t_current_metrics else t_history_metrics),
      dc_hint = (if rng = None then t_live_hint else range_label rng @ t_range_hint),
      dc_tabs = range_tabs rng, dc_metrics = metrics_body_of snap rng h\<rparr>"

datatype detail_view = DetailLoading | DetailError string | DetailBlank | DetailShown detail_content

definition detail_view_of ::
  "(string \<Rightarrow> jsnum) \<Rightarrow> (jsnum \<Rightarrow> string) \<Rightarrow> int \<Rightarrow> detail_page \<Rightarrow> detail_view" where
  "detail_view_of parse_date intl now p =
     (case dp_snapshot p of
        None \<Rightarrow>
          if dp_loading p then DetailLoading
          else if has_text (dp_error p) then DetailError (the (dp_error p))
          else DetailBlank
      | Some snap \<Rightarrow>
          DetailShown (content_of parse_date intl snap (range_of p)
            (fst (history_view_of now (dp_history p)))))"

section \<open>What happens\<close>

text \<open>
  A click on the retry button renders with the next \<open>dp_reload\<close>, which cleans up the effect and
  runs it again; a click on a range tab renders the hook with the new arguments. Everything else
  the hook does is a \<open>HistoryEvent\<close>.
\<close>

datatype detail_event =
    StatusSettled nat "server_snapshot promise"
  | StatusFinally nat
  | ReloadClicked
  | RangeClicked "history_range option"
  | HistoryEvent history_event
  | DetailUnmounted

fun detail_step :: "detail_event \<Rightarrow> detail_page \<Rightarrow> detail_page" where
  "detail_step (StatusSettled n outcome) p = status_settled n outcome p"
| "detail_step (StatusFinally n) p = status_finally n p"
| "detail_step ReloadClicked p =
     (if dp_snapshot p = None \<and> \<not> dp_loading p \<and> has_text (dp_error p)
      then run_load (p\<lparr>dp_reload := dp_reload p + 1\<rparr>) else p)"
| "detail_step (RangeClicked rng) p =
     (if dp_snapshot p = None then p
      else let p1 = p\<lparr>rangeSelection := (dp_serverId p, rng)\<rparr>
           in p1\<lparr>dp_history := history_step (Props (dp_serverId p, range_of p1)) (dp_history p)\<rparr>)"
| "detail_step (HistoryEvent e) p =
     (case e of Props q \<Rightarrow> p | _ \<Rightarrow> p\<lparr>dp_history := history_step e (dp_history p)\<rparr>)"
| "detail_step DetailUnmounted p =
     p\<lparr>dp_active := None, dp_history := history_step Unmount (dp_history p)\<rparr>"

section \<open>The page is never blank\<close>

text \<open>A failed request has a message, which every error that \<open>request\<close> rejects with does.\<close>

fun detail_event_ok :: "detail_event \<Rightarrow> bool" where
  "detail_event_ok (StatusSettled n (Rejected e)) \<longleftrightarrow> apiErrorMessage e t_status_failed \<noteq> ''''"
| "detail_event_ok _ \<longleftrightarrow> True"

inductive detail_run :: "jsnum \<Rightarrow> detail_page \<Rightarrow> bool" for i where
  mounted: "detail_run i (mount_detail i cache)"
| stepped: "detail_run i p \<Longrightarrow> detail_event_ok e \<Longrightarrow> detail_run i (detail_step e p)"

definition detail_ok :: "jsnum \<Rightarrow> detail_page \<Rightarrow> bool" where
  "detail_ok i p \<longleftrightarrow>
     dp_serverId p = i \<and> props (dp_history p) = (i, range_of p) \<and>
     (\<forall>n. dp_active p = Some n \<longrightarrow> n = dp_reload p) \<and>
     (\<forall>n \<in> dp_open p \<union> dp_finishing p. n \<le> dp_reload p) \<and>
     (dp_error p \<noteq> None \<longrightarrow> has_text (dp_error p) \<and> dp_snapshot p = None) \<and>
     (dp_snapshot p = None \<and> dp_error p = None \<longrightarrow> dp_loading p) \<and>
     (dp_reload p \<in> dp_open p \<longrightarrow> dp_snapshot p = None \<and> dp_error p = None \<and> dp_reload p \<notin> dp_finishing p) \<and>
     (dp_reload p \<in> dp_finishing p \<and> dp_active p \<noteq> None \<longrightarrow> dp_snapshot p \<noteq> None \<or> dp_error p \<noteq> None) \<and>
     (dp_active p \<noteq> None \<and> dp_loading p \<longrightarrow> dp_reload p \<in> dp_open p \<union> dp_finishing p)"

lemma props_history_step: "(\<And>q. e \<noteq> Props q) \<Longrightarrow> props (history_step e h) = props h"
  by (cases e)
    (auto simp: run_effect_def run_cleanup_def Let_def split: option.split prod.split)

lemma mount_detail_ok: "detail_ok i (mount_detail i cache)"
  by (simp add: detail_ok_def mount_detail_def run_load_def range_of_def mount_history_def hook_key_def)

lemma detail_ok_step:
  assumes "detail_ok i p" and "detail_event_ok e" and "js_eq i i"
  shows "detail_ok i (detail_step e p)"
proof (cases e)
  case (StatusSettled n outcome)
  then show ?thesis using assms(1,2)
    by (cases outcome)
      (auto simp: detail_ok_def status_settled_def range_of_def has_text_def Let_def)
next
  case (StatusFinally n)
  then show ?thesis using assms(1)
    by (auto simp: detail_ok_def status_finally_def range_of_def Let_def)
next
  case ReloadClicked
  have "Suc (dp_reload p) \<notin> dp_open p \<union> dp_finishing p"
    using assms(1) not_less_eq_eq [of "dp_reload p" "dp_reload p"] unfolding detail_ok_def by blast
  then show ?thesis using assms(1) ReloadClicked
    by (auto simp: detail_ok_def run_load_def range_of_def intro: le_SucI)
next
  case (RangeClicked rng)
  then show ?thesis using assms(1,3) by (auto simp: detail_ok_def range_of_def Let_def)
next
  case (HistoryEvent h)
  have "detail_ok i (p\<lparr>dp_history := history_step h (dp_history p)\<rparr>)" if "\<And>q. h \<noteq> Props q"
    using assms(1) props_history_step [OF that] by (auto simp: detail_ok_def range_of_def)
  then show ?thesis using assms(1) by (cases h) (simp_all add: HistoryEvent)
next
  case DetailUnmounted
  then show ?thesis using assms(1) props_history_step [of Unmount "dp_history p"]
    by (auto simp: detail_ok_def range_of_def)
qed

lemma detail_run_ok: "detail_run i p \<Longrightarrow> js_eq i i \<Longrightarrow> detail_ok i p"
  by (induction rule: detail_run.induct) (simp_all add: mount_detail_ok detail_ok_step)

text \<open>What the view shows, by the fields of the page.\<close>

lemma detail_view_cases:
  assumes "detail_ok i p"
  shows "detail_view_of parse_date intl now p \<noteq> DetailBlank"
    and "detail_view_of parse_date intl now p = DetailLoading \<longleftrightarrow> dp_snapshot p = None \<and> dp_loading p"
    and "detail_view_of parse_date intl now p = DetailError msg \<longleftrightarrow>
           dp_snapshot p = None \<and> \<not> dp_loading p \<and> dp_error p = Some msg"
  using assms by (auto simp: detail_view_of_def detail_ok_def has_text_def split: option.split)

text \<open>The tab that is pressed after a list of events.\<close>

definition pressed_after :: "detail_event list \<Rightarrow> history_range option \<Rightarrow> history_range option" where
  "pressed_after es rng = foldl (\<lambda>r e. case e of RangeClicked r' \<Rightarrow> r' | _ \<Rightarrow> r) rng es"

lemma shown_server_kept:
  assumes "detail_ok i p" and "js_eq i i" and "dp_snapshot p = Some snap"
  shows "dp_snapshot (detail_step e p) = Some snap"
    and "range_of (detail_step e p) = pressed_after [e] (range_of p)"
proof -
  have "dp_active p \<noteq> Some n \<or> n \<notin> dp_open p" "dp_error p = None" for n
    using assms(1,3) by (auto simp: detail_ok_def)
  then show "dp_snapshot (detail_step e p) = Some snap"
    using assms(3)
    by (cases e)
      (auto simp: status_settled_def status_finally_def Let_def split: history_event.split)
  have "dp_serverId p = i" using assms(1) by (simp add: detail_ok_def)
  then show "range_of (detail_step e p) = pressed_after [e] (range_of p)"
    using assms(2,3)
    by (cases e)
      (auto simp: pressed_after_def range_of_def status_settled_def status_finally_def Let_def
         split: history_event.split promise.split)
qed

lemma shown_server_run:
  assumes "detail_ok i p" and "js_eq i i" and "dp_snapshot p = Some snap" and "list_all detail_event_ok es"
  shows "dp_snapshot (fold detail_step es p) = Some snap \<and>
    range_of (fold detail_step es p) = pressed_after es (range_of p)"
  using assms
proof (induction es arbitrary: p)
  case (Cons e es)
  have "detail_ok i (detail_step e p)" using Cons.prems by (intro detail_ok_step) simp_all
  note IH = Cons.IH [OF this Cons.prems(2) shown_server_kept(1) [OF Cons.prems(1-3)]]
  show ?case
    using IH Cons.prems(4) shown_server_kept(2) [OF Cons.prems(1-3), of e]
    by (simp add: pressed_after_def del: detail_step.simps)
qed (simp add: pressed_after_def)

text \<open>What the end of a load shows: of the load of the last effect, and of an abandoned one.\<close>

lemma load_settles:
  assumes "detail_ok i p" and "n \<in> dp_open p" and "dp_active p = Some n"
    and "after = (\<lambda>outcome. detail_step (StatusFinally n) (detail_step (StatusSettled n outcome) p))"
  shows "detail_view_of parse_date intl now (after (Fulfilled snap)) = DetailShown (content_of parse_date intl snap
      (range_of p) (fst (history_view_of now (dp_history p))))"
    and "apiErrorMessage e t_status_failed \<noteq> '''' \<Longrightarrow>
      detail_view_of parse_date intl now (after (Rejected e)) = DetailError (apiErrorMessage e t_status_failed) \<and>
      detail_view_of parse_date intl now (detail_step ReloadClicked (after (Rejected e))) = DetailLoading \<and>
      Suc n \<in> dp_open (detail_step ReloadClicked (after (Rejected e)))"
proof -
  have "n = dp_reload p" "dp_snapshot p = None" "dp_error p = None"
    using assms(1-3) by (auto simp: detail_ok_def)
  then show "detail_view_of parse_date intl now (after (Fulfilled snap)) = DetailShown (content_of parse_date intl snap
      (range_of p) (fst (history_view_of now (dp_history p))))"
    and "apiErrorMessage e t_status_failed \<noteq> '''' \<Longrightarrow>
      detail_view_of parse_date intl now (after (Rejected e)) = DetailError (apiErrorMessage e t_status_failed) \<and>
      detail_view_of parse_date intl now (detail_step ReloadClicked (after (Rejected e))) = DetailLoading \<and>
      Suc n \<in> dp_open (detail_step ReloadClicked (after (Rejected e)))"
    using assms(2,3)
    by (simp_all add: assms(4) status_settled_def status_finally_def detail_view_of_def has_text_def
        run_load_def range_of_def Let_def)
qed

lemma abandoned_settles:
  assumes "n \<in> dp_open p" and "dp_active p \<noteq> Some n"
  shows "detail_view_of parse_date intl now (detail_step (StatusFinally n) (detail_step (StatusSettled n outcome) p)) =
    detail_view_of parse_date intl now p"
  using assms
  by (simp add: status_settled_def status_finally_def detail_view_of_def range_of_def Let_def split: option.split)

text \<open>
  C37: the page of a server is never blank, whatever happens on it and in whatever order. It always
  shows its loading state, an error with a text, or the server, and the history hook always runs for
  this server and the pressed range tab. While it is mounted it shows that it loads only as long as
  the load of its last effect is under way. When that load ends, the page shows the loaded server, or
  the error, whose button starts a new load; the outcome of an abandoned load changes nothing that
  shows. Once the server is shown, it stays shown, with this same snapshot, through every further
  sequence of events: only the range follows the tabs that are pressed.
\<close>

theorem detail_page_never_blank:
  assumes "detail_run i p" and "i \<noteq> NaN"
    and "shown = (\<lambda>q. detail_view_of parse_date intl now q)"
    and "after = (\<lambda>n outcome. detail_step (StatusFinally n) (detail_step (StatusSettled n outcome) p))"
  shows "shown p \<noteq> DetailBlank \<and> (\<forall>msg. shown p = DetailError msg \<longrightarrow> msg \<noteq> '''') \<and>
    props (dp_history p) = (i, range_of p) \<and>
    (shown p = DetailLoading \<and> dp_active p \<noteq> None \<longrightarrow>
       dp_active p = Some (dp_reload p) \<and> dp_reload p \<in> dp_open p \<union> dp_finishing p) \<and>
    (\<forall>n \<in> dp_open p. dp_active p = Some n \<longrightarrow>
       (\<forall>snap. shown (after n (Fulfilled snap)) = DetailShown (content_of parse_date intl snap (range_of p)
          (fst (history_view_of now (dp_history p))))) \<and>
       (\<forall>e. apiErrorMessage e t_status_failed \<noteq> '''' \<longrightarrow>
          shown (after n (Rejected e)) = DetailError (apiErrorMessage e t_status_failed) \<and>
          shown (detail_step ReloadClicked (after n (Rejected e))) = DetailLoading \<and>
          Suc n \<in> dp_open (detail_step ReloadClicked (after n (Rejected e))))) \<and>
    (\<forall>n \<in> dp_open p. dp_active p \<noteq> Some n \<longrightarrow> (\<forall>outcome. shown (after n outcome) = shown p)) \<and>
    (\<forall>snap es. dp_snapshot p = Some snap \<and> list_all detail_event_ok es \<longrightarrow>
       shown (fold detail_step es p) = DetailShown (content_of parse_date intl snap
         (pressed_after es (range_of p)) (fst (history_view_of now (dp_history (fold detail_step es p))))))"
proof (intro conjI, goal_cases)
  have eq: "js_eq i i" using assms(2) by (cases i) simp_all
  have ok: "detail_ok i p" by (rule detail_run_ok [OF assms(1) eq])
  note view = detail_view_cases [OF ok]
  case 1
  show ?case unfolding assms(3) by (rule view(1))
  case 2
  show ?case using ok view(3) by (auto simp: assms(3) detail_ok_def has_text_def)
  case 3
  show ?case using ok by (simp add: detail_ok_def)
  case 4
  show ?case using ok view(2) unfolding assms(3) detail_ok_def by blast
  case 5
  show ?case using load_settles [OF ok] unfolding assms(3,4) by blast
  case 6
  show ?case using abandoned_settles unfolding assms(3,4) by blast
  case 7
  show ?case
    using shown_server_run [OF ok eq] by (auto simp: assms(3) detail_view_of_def)
qed

text \<open>The load comes back with a server, then a week is chosen, and a day.\<close>

theorem detail_page_never_blank_witness:
  "\<exists>h. detail_view_of (\<lambda>t. NaN) (\<lambda>t. '''') 0
     (fold detail_step [RangeClicked (Some Range_7d), RangeClicked (Some Range_1d)]
       (fold detail_step [StatusSettled 0 (Fulfilled (sample_snapshot 7 ''alpha'' True)), StatusFinally 0]
         (mount_detail (Fin 7) Map.empty))) =
     DetailShown (content_of (\<lambda>t. NaN) (\<lambda>t. '''') (sample_snapshot 7 ''alpha'' True) (Some Range_1d) h)"
proof -
  let ?p = "fold detail_step [StatusSettled 0 (Fulfilled (sample_snapshot 7 ''alpha'' True)), StatusFinally 0]
      (mount_detail (Fin 7) Map.empty)"
  have run: "detail_run (Fin 7) ?p"
    unfolding fold_simps by (intro detail_run.intros) simp_all
  have "dp_snapshot ?p = Some (sample_snapshot 7 ''alpha'' True)" "range_of ?p = None"
    by (simp_all add: mount_detail_def run_load_def status_settled_def status_finally_def range_of_def Let_def)
  moreover have "Fin 7 \<noteq> NaN" by simp
  note kept = detail_page_never_blank [OF run this refl refl, THEN conjunct2, THEN conjunct2, THEN conjunct2,
      THEN conjunct2, THEN conjunct2, THEN conjunct2, rule_format]
  ultimately show ?thesis
    using kept [of "sample_snapshot 7 ''alpha'' True" "[RangeClicked (Some Range_7d), RangeClicked (Some Range_1d)]"
        "\<lambda>t. NaN" "\<lambda>t. ''''" 0]
    by (intro exI) (simp add: pressed_after_def del: detail_step.simps fold_simps)
qed

end
