(* ===== verification/HistoryCharts.thy ===== *)
theory HistoryCharts
  imports ChartSeries Format
begin

text \<open>
  \<^verbatim>\<open>web/src/history/HistoricalMetrics.tsx\<close> and \<^verbatim>\<open>web/src/components/MetricChart.tsx\<close>: which
  charts a history response is shown in, with the selectors of their lines, and what one chart
  shows and passes to the chart library, which is not modelled. \<open>localeCompare\<close> is the
  parameter \<open>lc\<close>.
\<close>

section \<open>Selectors\<close>

text \<open>\<open>selector(point)?.k ?? null\<close>\<close>

definition pair_field :: "string \<Rightarrow> selector \<Rightarrow> selector" where
  "pair_field k sel point =
     (case sel point of
        Throws \<Rightarrow> Throws
      | Returns v \<Rightarrow>
          (case get_opt k v of JUndef \<Rightarrow> Returns JNull | JNull \<Rightarrow> Returns JNull | w \<Rightarrow> Returns w))"

definition pairSeries :: "selector \<Rightarrow> series_definition list" where
  "pairSeries sel =
     [\<lparr>sd_name = t_average, role = Primary, pairOrdinal = Fin 0, series_selector = pair_field ''average'' sel\<rparr>,
      \<lparr>sd_name = t_peak, role = Maximum, pairOrdinal = Fin 0, series_selector = pair_field ''maximum'' sel\<rparr>]"

definition payload_at :: "string list \<Rightarrow> selector" where
  "payload_at ks point = get_path (''payload'' # ks) point"

definition mountpoint_is :: "string \<Rightarrow> jv \<Rightarrow> bool" where
  "mountpoint_is m disk \<longleftrightarrow> get_opt ''mountpoint'' disk = JStr m"

definition disks_of :: "jv \<Rightarrow> jv list" where
  "disks_of payload_value = elements (get_opt ''disks'' payload_value)"

text \<open>The loop runs from the last disk down to the first.\<close>

definition diskPair :: "string \<Rightarrow> selector" where
  "diskPair m point =
     (case get_prop ''payload'' point of
        Throws \<Rightarrow> Throws
      | Returns pl \<Rightarrow>
          (case find (mountpoint_is m) (rev (disks_of pl)) of
             None \<Rightarrow> Returns JNull
           | Some disk \<Rightarrow> get_prop ''usage'' disk))"

fun mountpoint_name :: "jv \<Rightarrow> string option" where
  "mountpoint_name (JStr s) = Some s"
| "mountpoint_name _ = None"

definition add_disk :: "string list \<Rightarrow> jv \<Rightarrow> string list" where
  "add_disk ms disk =
     (case mountpoint_name (get_opt ''mountpoint'' disk) of None \<Rightarrow> ms | Some m \<Rightarrow> set_add m ms)"

definition add_point :: "string list \<Rightarrow> jv \<Rightarrow> string list" where
  "add_point ms point = foldl add_disk ms (disks_of (get_opt ''payload'' point))"

definition mountpoints_of :: "string compare_fun \<Rightarrow> history_response \<Rightarrow> string list" where
  "mountpoints_of lc history = js_sort lc (foldl add_point [] (elements (points history)))"

section \<open>The charts of a response\<close>

datatype chart_formatter = FmtPercent | FmtRate | FmtBytes | FmtLoad

fun metricChartFormatters :: "chart_formatter \<Rightarrow> jsnum \<Rightarrow> string" where
  "metricChartFormatters FmtPercent v = to_fixed 1 v @ ''%''"
| "metricChartFormatters FmtRate v = formatRate v"
| "metricChartFormatters FmtBytes v = formatBytes v"
| "metricChartFormatters FmtLoad v = to_fixed 2 v"

record chart_spec =
  cs_title :: string
  cs_series :: "series_definition list"
  cs_formatter :: chart_formatter

definition line_at ::
  "string \<Rightarrow> series_role \<Rightarrow> int \<Rightarrow> string list \<Rightarrow> series_definition" where
  "line_at nm rl ordinal ks =
     \<lparr>sd_name = nm, role = rl, pairOrdinal = num_of_int ordinal, series_selector = payload_at ks\<rparr>"

definition cpu_chart :: chart_spec where
  "cpu_chart = \<lparr>cs_title = t_cpu_usage, cs_series = pairSeries (payload_at [''cpuUsage'']),
                cs_formatter = FmtPercent\<rparr>"

definition load_chart :: chart_spec where
  "load_chart =
     \<lparr>cs_title = t_system_load,
      cs_series =
        [line_at ''Load 1'' Primary 0 [''load1'', ''average''],
         line_at (''Load 1 '' @ t_peak_suffix) Maximum 0 [''load1'', ''maximum''],
         line_at ''Load 5'' Context 1 [''load5'', ''average''],
         line_at (''Load 5 '' @ t_peak_suffix) ContextMaximum 1 [''load5'', ''maximum''],
         line_at ''Load 15'' Context 2 [''load15'', ''average''],
         line_at (''Load 15 '' @ t_peak_suffix) ContextMaximum 2 [''load15'', ''maximum'']],
      cs_formatter = FmtLoad\<rparr>"

definition memory_chart :: chart_spec where
  "memory_chart = \<lparr>cs_title = t_memory_usage, cs_series = pairSeries (payload_at [''memoryUsage'']),
                   cs_formatter = FmtPercent\<rparr>"

definition swap_chart :: chart_spec where
  "swap_chart = \<lparr>cs_title = t_swap_usage, cs_series = pairSeries (payload_at [''swapUsage'']),
                 cs_formatter = FmtPercent\<rparr>"

definition disk_chart :: "string \<Rightarrow> chart_spec" where
  "disk_chart m = \<lparr>cs_title = m @ '' '' @ t_usage_suffix, cs_series = pairSeries (diskPair m),
                   cs_formatter = FmtPercent\<rparr>"

definition disk_io_chart :: chart_spec where
  "disk_io_chart =
     \<lparr>cs_title = t_disk_io,
      cs_series =
        [line_at t_read Primary 0 [''diskReadBps'', ''average''],
         line_at (t_read @ t_peak_suffix) Maximum 0 [''diskReadBps'', ''maximum''],
         line_at t_write Context 1 [''diskWriteBps'', ''average''],
         line_at (t_write @ t_peak_suffix) ContextMaximum 1 [''diskWriteBps'', ''maximum'']],
      cs_formatter = FmtRate\<rparr>"

definition network_rate_chart :: chart_spec where
  "network_rate_chart =
     \<lparr>cs_title = t_network_rate,
      cs_series =
        [line_at t_upload Primary 0 [''uploadBps'', ''average''],
         line_at (t_upload @ t_peak_suffix) Maximum 0 [''uploadBps'', ''maximum''],
         line_at t_download Context 1 [''downloadBps'', ''average''],
         line_at (t_download @ t_peak_suffix) ContextMaximum 1 [''downloadBps'', ''maximum'']],
      cs_formatter = FmtRate\<rparr>"

definition network_total_chart :: chart_spec where
  "network_total_chart =
     \<lparr>cs_title = t_network_total,
      cs_series =
        [line_at t_total_upload Primary 0 [''totalUpload''],
         line_at t_total_download Context 1 [''totalDownload'']],
      cs_formatter = FmtBytes\<rparr>"

text \<open>All charts in their order; where there is no mount point the page says so instead.\<close>

definition HistoricalMetrics :: "string compare_fun \<Rightarrow> history_response \<Rightarrow> chart_spec list" where
  "HistoricalMetrics lc history =
     [cpu_chart, load_chart, memory_chart, swap_chart] @
     map disk_chart (mountpoints_of lc history) @
     [disk_io_chart, network_rate_chart, network_total_chart]"

section \<open>One chart\<close>

definition display :: "jsnum option \<Rightarrow> (jsnum \<Rightarrow> string) \<Rightarrow> string" where
  "display v formatter = (case v of None \<Rightarrow> em_dash | Some x \<Rightarrow> formatter x)"

definition AVERAGE_COLORS :: "string list" where
  "AVERAGE_COLORS = [''#8a3158'', ''#486a78'', ''#6d5c7d'']"

definition MAXIMUM_COLORS :: "string list" where
  "MAXIMUM_COLORS = [''#c07b94'', ''#6f8f9b'', ''#89769a'']"

definition ISOLATED_POINT_SYMBOL_SIZE :: nat where
  "ISOLATED_POINT_SYMBOL_SIZE = 5"

definition is_gap :: "chart_point list \<Rightarrow> nat \<Rightarrow> bool" where
  "is_gap ps i \<longleftrightarrow> i < length ps \<and> snd (ps ! i) = None"

definition isolatedPointSymbolSize :: "chart_point list \<Rightarrow> nat \<Rightarrow> nat" where
  "isolatedPointSymbolSize ps i =
     (if i \<ge> length ps \<or> snd (ps ! i) = None then 0
      else let previousIsBreak = (i = 0 \<or> is_gap ps (i - 1));
               nextIsBreak = (i = length ps - 1 \<or> is_gap ps (i + 1))
           in if previousIsBreak \<and> nextIsBreak then ISOLATED_POINT_SYMBOL_SIZE else 0)"

definition is_maximum_role :: "series_role \<Rightarrow> bool" where
  "is_maximum_role r \<longleftrightarrow> r = Maximum \<or> r = ContextMaximum"

definition lineColor :: "series_definition \<Rightarrow> string" where
  "lineColor d =
     (let palette = (if is_maximum_role (role d) then MAXIMUM_COLORS else AVERAGE_COLORS);
          ordinal = (if is_safe_integer (pairOrdinal d) \<and> js_le (Fin 0) (pairOrdinal d)
                     then nat (int_of_num (pairOrdinal d)) else 0)
      in palette ! (ordinal mod length palette))"

text \<open>
  The option object, of which the parts that are the same for every chart are left out: grid,
  tooltip, legend, axes, and the style of lines and symbols.
\<close>

text \<open>
  A line: \<open>ln_connectNulls\<close> off leaves gaps open, and \<open>ln_progressive\<close> is the number of points drawn
  in one go once there are more than the threshold.
\<close>

record line_option =
  ln_name :: string
  ln_data :: "chart_point list"
  ln_connectNulls :: bool
  ln_showSymbol :: bool
  ln_symbol :: string
  ln_symbols :: "nat list"
  ln_color :: string
  ln_dashed :: bool
  ln_width :: rat
  ln_opacity :: rat
  ln_emphasis :: string
  ln_progressive :: nat
  ln_progressiveThreshold :: nat

definition line_option_of :: "prepared_series \<Rightarrow> line_option" where
  "line_option_of line =
     (let d = ps_definition line
      in \<lparr>ln_name = sd_name d, ln_data = data line, ln_connectNulls = False, ln_showSymbol = True,
          ln_symbol = ''circle'', ln_symbols = map (isolatedPointSymbolSize (data line)) [0..<length (data line)],
          ln_color = lineColor d, ln_dashed = is_maximum_role (role d),
          ln_width = (if role d = Primary then 9 / 4 else 3 / 2), ln_opacity = 1, ln_emphasis = ''series'',
          ln_progressive = 500, ln_progressiveThreshold = 1000\<rparr>)"

text \<open>
  The axes, the legend and the tooltip. The formatter of the vertical axis and of the tooltip is the
  chart's own. The options replace those before them, at the library's next frame.
\<close>

record chart_grid =
  gd_top :: int
  gd_right :: int
  gd_bottom :: int
  gd_left :: int

record chart_legend =
  lg_top :: int
  lg_left :: int
  lg_itemWidth :: int
  lg_itemHeight :: int
  lg_color :: string
  lg_fontSize :: int

record chart_axis =
  ax_type :: string
  ax_boundaryGap :: "bool option"
  ax_lineColor :: "string option"
  ax_labelColor :: string
  ax_hideOverlap :: "bool option"
  ax_splitColor :: "string option"

record chart_option =
  op_animation :: bool
  op_duration :: int
  op_grid :: chart_grid
  op_legend :: chart_legend
  op_trigger :: string
  op_xAxis :: chart_axis
  op_yAxis :: chart_axis
  op_series :: "line_option list"
  op_notMerge :: bool
  op_lazyUpdate :: bool

definition plot_grid :: chart_grid where
  "plot_grid = \<lparr>gd_top = 42, gd_right = 18, gd_bottom = 34, gd_left = 54\<rparr>"

definition plot_legend :: chart_legend where
  "plot_legend =
     \<lparr>lg_top = 0, lg_left = 0, lg_itemWidth = 18, lg_itemHeight = 3, lg_color = ''#6c6268'', lg_fontSize = 12\<rparr>"

text \<open>\<open>None\<close> is an option that is not set, and split lines that are not drawn.\<close>

definition time_axis :: chart_axis where
  "time_axis =
     \<lparr>ax_type = ''time'', ax_boundaryGap = Some False, ax_lineColor = Some ''#ded8dc'', ax_labelColor = ''#746a70'',
      ax_hideOverlap = Some True, ax_splitColor = None\<rparr>"

definition value_axis :: chart_axis where
  "value_axis =
     \<lparr>ax_type = ''value'', ax_boundaryGap = None, ax_lineColor = None, ax_labelColor = ''#746a70'',
      ax_hideOverlap = None, ax_splitColor = Some ''#eee9ec''\<rparr>"

definition chart_option_of :: "bool \<Rightarrow> prepared_chart \<Rightarrow> chart_option" where
  "chart_option_of reduced prepared =
     \<lparr>op_animation = (\<not> reduced), op_duration = (if reduced then 0 else 260),
      op_grid = plot_grid, op_legend = plot_legend, op_trigger = ''axis'', op_xAxis = time_axis,
      op_yAxis = value_axis, op_series = map line_option_of (series prepared), op_notMerge = True,
      op_lazyUpdate = True\<rparr>"

text \<open>
  \<open>useReducedMotion\<close>: the initial state, with the result of \<open>matchMedia\<close> where it exists, and the
  handler of its changes.
\<close>

definition initial_reduced :: "bool option \<Rightarrow> bool" where
  "initial_reduced media = (case media of None \<Rightarrow> False | Some matches \<Rightarrow> matches)"

definition reduced_change :: "bool \<Rightarrow> bool \<Rightarrow> bool" where
  "reduced_change matches reduced = matches"

text \<open>
  \<open>resize\<close>: the width from the observer, if any, else the width of the container's box or its
  client width; the state follows only changes of at least a pixel.
\<close>

definition measured_width :: "jsnum option \<Rightarrow> jsnum \<Rightarrow> jsnum \<Rightarrow> jsnum" where
  "measured_width observed box client =
     (let fallback = (if truthy (JNum box) then box else client)
      in case observed of
           None \<Rightarrow> fallback
         | Some w \<Rightarrow>
             if truthy (JNum w) \<and> is_finite w \<and> js_lt (Fin 0) w then w else fallback)"

definition resize :: "jsnum option \<Rightarrow> jsnum \<Rightarrow> jsnum \<Rightarrow> jsnum \<Rightarrow> jsnum" where
  "resize observed box client current =
     (let measured = measured_width observed box client
      in if js_lt (Fin 0) measured
         then (if js_le (Fin 1) (math_abs (js_sub current measured)) then measured else current)
         else current)"

record metric_chart =
  mc_title :: string
  mc_current :: string
  mc_average :: string
  mc_maximum :: string
  mc_table :: "(string \<times> string \<times> string \<times> string) list"
  mc_option :: chart_option

definition primary_of :: "prepared_series list \<Rightarrow> prepared_series option" where
  "primary_of lines =
     (case find (\<lambda>l. role (ps_definition l) = Primary) lines of
        Some l \<Rightarrow> Some l
      | None \<Rightarrow> (case lines of [] \<Rightarrow> None | l # ls \<Rightarrow> Some l))"

definition maximum_of :: "prepared_series list \<Rightarrow> prepared_series option" where
  "maximum_of lines =
     find (\<lambda>l. role (ps_definition l) = Maximum \<and>
       (case primary_of lines of
          None \<Rightarrow> False
        | Some p \<Rightarrow> js_eq (pairOrdinal (ps_definition l)) (pairOrdinal (ps_definition p)))) lines"

definition table_row :: "(jsnum \<Rightarrow> string) \<Rightarrow> prepared_series \<Rightarrow> string \<times> string \<times> string \<times> string" where
  "table_row formatter line =
     (sd_name (ps_definition line), display (stat_current line) formatter,
      display (stat_average line) formatter, display (stat_maximum line) formatter)"

definition MetricChart :: "chart_spec \<Rightarrow> prepared_chart \<Rightarrow> bool \<Rightarrow> metric_chart" where
  "MetricChart spec prepared reduced =
     (let lines = series prepared; formatter = metricChartFormatters (cs_formatter spec);
          primary = primary_of lines; peak = Option.bind (maximum_of lines) stat_maximum
      in \<lparr>mc_title = cs_title spec,
          mc_current = display (Option.bind primary stat_current) formatter,
          mc_average = display (Option.bind primary stat_average) formatter,
          mc_maximum = display (if peak \<noteq> None then peak else Option.bind primary stat_maximum) formatter,
          mc_table = map (table_row formatter) lines,
          mc_option = chart_option_of reduced prepared\<rparr>)"

section \<open>Every value can be seen\<close>

text \<open>The chart library joins neighbouring points that are no gaps (\<open>connectNulls\<close> is false).\<close>

definition joined :: "chart_point list \<Rightarrow> nat \<Rightarrow> bool" where
  "joined ps i \<longleftrightarrow>
     (0 < i \<and> snd (ps ! (i - 1)) \<noteq> None) \<or> (i + 1 < length ps \<and> snd (ps ! (i + 1)) \<noteq> None)"

text \<open>
  Every value of a line can be seen: a point with a value has a symbol exactly when no
  segment of the line touches it, at the ends of the line and between gaps, and a gap never has
  one.
\<close>

lemma isolated_points_have_symbols:
  assumes "i < length ps"
  shows "(isolatedPointSymbolSize ps i > 0 \<longleftrightarrow> snd (ps ! i) \<noteq> None \<and> \<not> joined ps i) \<and>
    (isolatedPointSymbolSize ps i > 0 \<longrightarrow> isolatedPointSymbolSize ps i = ISOLATED_POINT_SYMBOL_SIZE)"
proof -
  have "i = length ps - 1 \<longleftrightarrow> \<not> i + 1 < length ps" using assms by linarith
  then show ?thesis using assms
    by (auto simp: isolatedPointSymbolSize_def joined_def is_gap_def ISOLATED_POINT_SYMBOL_SIZE_def Let_def)
qed

section \<open>The charts can be told apart\<close>

lemma set_add_disk: "set (add_disk ms d) = set ms \<union> {m. mountpoint_is m d}"
  by (cases "get_opt ''mountpoint'' d") (auto simp: add_disk_def mountpoint_is_def)

lemma set_add_point: "set (add_point ms p) = set ms \<union> {m. \<exists>d \<in> set (disks_of (get_opt ''payload'' p)). mountpoint_is m d}"
proof -
  have "set (foldl add_disk ms ds) = set ms \<union> {m. \<exists>d \<in> set ds. mountpoint_is m d}" for ds
    by (induction ds arbitrary: ms) (auto simp: set_add_disk)
  then show ?thesis by (simp add: add_point_def)
qed

lemma distinct_add_point: "distinct ms \<Longrightarrow> distinct (add_point ms p)"
proof -
  have "distinct (add_disk ms d) = distinct ms" for ms d by (simp add: add_disk_def split: option.split)
  then have "distinct (foldl add_disk ms ds) = distinct ms" for ds ms by (induction ds arbitrary: ms) simp_all
  then show "distinct ms \<Longrightarrow> distinct (add_point ms p)" by (simp add: add_point_def)
qed

lemma collected_mountpoints:
  "set (foldl add_point ms ps) =
     set ms \<union> {m. \<exists>p \<in> set ps. \<exists>d \<in> set (disks_of (get_opt ''payload'' p)). mountpoint_is m d}"
  "distinct ms \<Longrightarrow> distinct (foldl add_point ms ps)"
  by (induction ps arbitrary: ms) (auto simp: set_add_point distinct_add_point)

definition readable :: "chart_spec \<Rightarrow> bool" where
  "readable c \<longleftrightarrow>
     distinct (map sd_name (cs_series c)) \<and> distinct (map lineColor (cs_series c)) \<and>
     length (filter (\<lambda>d. role d = Primary) (cs_series c)) = 1"

lemmas line_values =
  readable_def pairSeries_def line_at_def lineColor_def is_maximum_role_def AVERAGE_COLORS_def
  MAXIMUM_COLORS_def max_safe_def

lemma pair_chart_readable: "cs_series c = pairSeries sel \<Longrightarrow> readable c"
  by (simp add: line_values t_average_def t_peak_def)

lemma other_charts_readable:
  "readable load_chart" "readable disk_io_chart" "readable network_rate_chart" "readable network_total_chart"
  by (simp_all add: line_values load_chart_def disk_io_chart_def network_rate_chart_def network_total_chart_def
      t_peak_suffix_def t_read_def t_write_def t_upload_def t_download_def t_total_upload_def t_total_download_def)

lemma find_last:
  assumes "P x" and "\<forall>y \<in> set zs. \<not> P y"
  shows "find P (rev (ys @ x # zs)) = Some x"
proof -
  have "find P (rev zs @ us) = find P us" for us
    using assms(2) by (induction zs arbitrary: us) simp_all
  then show ?thesis using assms(1) by simp
qed

text \<open>
  In every chart of a history response the lines have different names and different colours,
  and exactly one of them is the primary one that the summary shows. There is one chart for
  every mount point that occurs in any minute, none twice, in the order of the collation; and
  the value of a mount point in a minute is the usage of the last disk that is mounted there.
\<close>

lemma historical_charts_readable:
  assumes "js_order lc"
  shows "(\<forall>c \<in> set (HistoricalMetrics lc h). readable c) \<and>
    distinct (mountpoints_of lc h) \<and> sorted_wrt (\<lambda>a b. lc a b \<le> 0) (mountpoints_of lc h) \<and>
    (m \<in> set (mountpoints_of lc h) \<longleftrightarrow>
       (\<exists>p \<in> set (elements (points h)). \<exists>d \<in> set (disks_of (get_opt ''payload'' p)). mountpoint_is m d)) \<and>
    (get_prop ''payload'' p = Returns pl \<and> disks_of pl = ds @ d # ds' \<and> mountpoint_is m d \<and>
       (\<forall>d' \<in> set ds'. \<not> mountpoint_is m d') \<longrightarrow> diskPair m p = get_prop ''usage'' d)"
proof (intro conjI)
  show "\<forall>c \<in> set (HistoricalMetrics lc h). readable c"
    using other_charts_readable
    by (auto simp: HistoricalMetrics_def cpu_chart_def memory_chart_def swap_chart_def disk_chart_def
        intro!: pair_chart_readable)
  define ms where "ms = foldl add_point [] (elements (points h))"
  have mp: "mountpoints_of lc h = js_sort lc ms" by (simp add: mountpoints_of_def ms_def)
  show "distinct (mountpoints_of lc h)"
    using collected_mountpoints(2) [of "[]"] distinct_map_js_sort [of "\<lambda>m. m" lc ms] by (simp add: mp ms_def)
  show "sorted_wrt (\<lambda>a b. lc a b \<le> 0) (mountpoints_of lc h)"
    using js_order.ordered_js_sort [OF assms, of ms] by (simp add: mp js_order.ordered_def [OF assms])
  show "m \<in> set (mountpoints_of lc h) \<longleftrightarrow>
       (\<exists>p \<in> set (elements (points h)). \<exists>d \<in> set (disks_of (get_opt ''payload'' p)). mountpoint_is m d)"
    by (simp add: mp ms_def collected_mountpoints(1))
  show "get_prop ''payload'' p = Returns pl \<and> disks_of pl = ds @ d # ds' \<and> mountpoint_is m d \<and>
       (\<forall>d' \<in> set ds'. \<not> mountpoint_is m d') \<longrightarrow> diskPair m p = get_prop ''usage'' d"
    using find_last [of "mountpoint_is m" d ds' ds] by (auto simp: diskPair_def)
qed

definition two_disks :: history_response where
  "two_disks =
     \<lparr>fromUnix = Fin 0, toUnix = Fin 60,
      points = JArr [JObj [(''payload'', JObj [(''disks'',
        JArr [JObj [(''mountpoint'', JStr ''/data'')], JObj [(''mountpoint'', JStr ''/'')]])])]]\<rparr>"

end
