(* ===== verification/ChartComponent.thy ===== *)
theory ChartComponent
  imports HistoryCharts
begin

text \<open>
  The component of \<^verbatim>\<open>web/src/components/MetricChart.tsx\<close> over its life: its two effects, the
  observer or the listener of its width, the preference for reduced motion, and the calls it
  makes of the chart library, whose charts are numbered in the order of their \<open>init\<close>.
\<close>

datatype chart_call =
    InitChart nat
  | ResizeChart nat
  | SetOption nat chart_option
  | DisposeChart nat

text \<open>How the width is observed: by a \<open>ResizeObserver\<close>, or by the event of the window.\<close>

datatype width_source = FromObserver | FromWindow

text \<open>
  \<open>ch_chart\<close> is the chart that the effect holds, \<open>ch_ref\<close> the content of \<open>chartRef\<close>; \<open>ch_media\<close>
  says whether the listener of the preference is registered.
\<close>

record chart_component =
  ch_width :: jsnum
  ch_reduced :: bool
  ch_media :: bool
  ch_chart :: "nat option"
  ch_ref :: "nat option"
  ch_source :: "width_source option"
  ch_inits :: nat
  ch_calls :: "chart_call list"
  ch_cache :: index_cache

text \<open>The arguments of the component: the chart, and the history with its identity.\<close>

type_synonym chart_props = "chart_spec \<times> nat \<times> history_response"

datatype chart_event =
    WidthObserved "jsnum option" jsnum jsnum
  | WindowResized jsnum jsnum
  | MotionChanged bool
  | OptionsRun chart_props
  | ChartUnmounted

definition initial_chart :: "bool option \<Rightarrow> index_cache \<Rightarrow> chart_component" where
  "initial_chart media cache =
     \<lparr>ch_width = Fin 0, ch_reduced = initial_reduced media, ch_media = (media \<noteq> None),
      ch_chart = None, ch_ref = None, ch_source = None, ch_inits = 0, ch_calls = [], ch_cache = cache\<rparr>"

text \<open>The effect that makes the chart.\<close>

definition make_chart :: "width_source \<Rightarrow> chart_component \<Rightarrow> chart_component" where
  "make_chart src c =
     c\<lparr>ch_chart := Some (ch_inits c), ch_ref := Some (ch_inits c), ch_source := Some src,
       ch_inits := ch_inits c + 1, ch_calls := ch_calls c @ [InitChart (ch_inits c)]\<rparr>"

definition resized :: "jsnum option \<Rightarrow> jsnum \<Rightarrow> jsnum \<Rightarrow> chart_component \<Rightarrow> chart_component" where
  "resized observed box client c =
     (case ch_chart c of
        None \<Rightarrow> c
      | Some n \<Rightarrow>
          c\<lparr>ch_width := resize observed box client (ch_width c),
            ch_calls := ch_calls c @ [ResizeChart n]\<rparr>)"

text \<open>
  The effect that sets the options, with the series prepared for the current width. Which of its
  dependencies has changed is not modelled: it may run after any render, or not.
\<close>

definition set_option :: "chart_props \<Rightarrow> chart_component \<Rightarrow> chart_component" where
  "set_option props_now c =
     (case props_now of
        (spec, ref, history) \<Rightarrow>
          (case prepareChartSeries (ch_cache c) ref history (cs_series spec) (ch_width c) of
             (prepared, cache') \<Rightarrow>
               (case ch_ref c of
                  None \<Rightarrow> c\<lparr>ch_cache := cache'\<rparr>
                | Some n \<Rightarrow>
                    c\<lparr>ch_cache := cache',
                      ch_calls := ch_calls c @ [SetOption n (chart_option_of (ch_reduced c) prepared)]\<rparr>)))"

definition dispose_chart :: "chart_component \<Rightarrow> chart_component" where
  "dispose_chart c =
     (case ch_chart c of
        None \<Rightarrow> c
      | Some n \<Rightarrow>
          c\<lparr>ch_chart := None, ch_ref := None, ch_source := None, ch_media := False,
            ch_calls := ch_calls c @ [DisposeChart n]\<rparr>)"

fun chart_event_step :: "chart_event \<Rightarrow> chart_component \<Rightarrow> chart_component" where
  "chart_event_step (WidthObserved observed box client) c =
     (if ch_source c = Some FromObserver then resized observed box client c else c)"
| "chart_event_step (WindowResized box client) c =
     (if ch_source c = Some FromWindow then resized None box client c else c)"
| "chart_event_step (MotionChanged matches) c =
     (if ch_media c then c\<lparr>ch_reduced := reduced_change matches (ch_reduced c)\<rparr> else c)"
| "chart_event_step (OptionsRun props_now) c = set_option props_now c"
| "chart_event_step ChartUnmounted c = dispose_chart c"

text \<open>Mounting renders the component and runs its effects in their order.\<close>

definition mount_chart ::
  "bool option \<Rightarrow> width_source \<Rightarrow> chart_props \<Rightarrow> index_cache \<Rightarrow> chart_component" where
  "mount_chart media src props_now cache = set_option props_now (make_chart src (initial_chart media cache))"

section \<open>The life of the chart\<close>

text \<open>The chart that is alive after some calls, if every call was on the one alive.\<close>

fun alive :: "nat option \<Rightarrow> chart_call list \<Rightarrow> nat option option" where
  "alive a [] = Some a"
| "alive a (InitChart n # cs) = (if a = None then alive (Some n) cs else None)"
| "alive a (ResizeChart n # cs) = (if a = Some n then alive a cs else None)"
| "alive a (SetOption n oo # cs) = (if a = Some n then alive a cs else None)"
| "alive a (DisposeChart n # cs) = (if a = Some n then alive None cs else None)"

lemma alive_append: "alive a (cs @ ds) = (case alive a cs of None \<Rightarrow> None | Some b \<Rightarrow> alive b ds)"
  by (induction a cs rule: alive.induct) auto

definition chart_ok :: "chart_component \<Rightarrow> bool" where
  "chart_ok c \<longleftrightarrow>
     alive None (ch_calls c) = Some (ch_chart c) \<and> ch_ref c = ch_chart c \<and>
     (ch_source c = None \<longleftrightarrow> ch_chart c = None) \<and> (ch_chart c = None \<longrightarrow> \<not> ch_media c) \<and>
     js_le (Fin 0) (ch_width c)"

lemma resize_width: "js_le (Fin 0) w \<Longrightarrow> js_le (Fin 0) (resize observed box client w)"
  by (cases "measured_width observed box client") (auto simp: resize_def js_le_def Let_def)

lemma chart_ok_step: "chart_ok c \<Longrightarrow> chart_ok (chart_event_step e c)"
  by (cases e)
    (auto simp: chart_ok_def resized_def set_option_def dispose_chart_def alive_append resize_width
      split: option.splits prod.splits)

lemma chart_ok_mount: "chart_ok (mount_chart media src props_now cache)"
  by (auto simp: chart_ok_def mount_chart_def set_option_def make_chart_def initial_chart_def alive_append
      split: option.splits prod.splits)

lemma chart_ok_steps: "chart_ok c \<Longrightarrow> chart_ok (fold chart_event_step es c)"
  by (induction es arbitrary: c) (simp_all add: chart_ok_step)

lemma unmounted_step:
  assumes "chart_ok c" and "ch_chart c = None"
  shows "ch_calls (chart_event_step e c) = ch_calls c" and "ch_chart (chart_event_step e c) = None"
    and "ch_width (chart_event_step e c) = ch_width c" and "ch_reduced (chart_event_step e c) = ch_reduced c"
  using assms
  by (cases e; auto simp: chart_ok_def set_option_def dispose_chart_def split: prod.splits)+

lemma unmounted_steps:
  assumes "chart_ok c" and "ch_chart c = None"
  shows "ch_calls (fold chart_event_step es c) = ch_calls c \<and> ch_width (fold chart_event_step es c) = ch_width c"
  using assms
proof (induction es arbitrary: c)
  case (Cons e es)
  then show ?case
    using unmounted_step [OF Cons.prems, of e] chart_ok_step [OF Cons.prems(1), of e] by simp
qed simp

fun is_init :: "chart_call \<Rightarrow> bool" where
  "is_init (InitChart n) = True"
| "is_init _ = False"

lemma init_once: "filter is_init (ch_calls (fold chart_event_step es (mount_chart media src p cache))) = [InitChart 0]"
proof (induction es rule: rev_induct)
  case Nil
  show ?case
    by (auto simp: mount_chart_def set_option_def make_chart_def initial_chart_def split: option.split prod.split)
next
  case (snoc e es)
  have "filter is_init (ch_calls (chart_event_step e c)) = filter is_init (ch_calls c)" for c
    by (cases e) (auto simp: resized_def set_option_def dispose_chart_def split: option.split prod.split)
  then show ?case using snoc by simp
qed

lemma mounted_steps:
  assumes "ChartUnmounted \<notin> set es"
  shows "ch_chart (fold chart_event_step es (mount_chart media src p cache)) = Some 0"
  using assms
proof (induction es rule: rev_induct)
  case Nil
  show ?case
    by (auto simp: mount_chart_def set_option_def make_chart_def initial_chart_def split: option.split prod.split)
next
  case (snoc e es)
  have "e \<noteq> ChartUnmounted \<Longrightarrow> ch_chart (chart_event_step e c) = ch_chart c" for c
    by (cases e) (auto simp: resized_def set_option_def split: option.split prod.split)
  then show ?case using snoc by auto
qed

lemma disposed_steps:
  "chart_ok c \<Longrightarrow> ChartUnmounted \<in> set es \<Longrightarrow> ch_chart (fold chart_event_step es c) = None"
proof (induction es arbitrary: c)
  case (Cons e es)
  show ?case
  proof (cases "ChartUnmounted \<in> set es")
    case True
    then show ?thesis using Cons chart_ok_step by simp
  next
    case False
    then have e: "e = ChartUnmounted" using Cons.prems(2) by simp
    have "ch_chart (dispose_chart c) = None" by (auto simp: dispose_chart_def split: option.split)
    moreover have "chart_ok (dispose_chart c)" using chart_ok_step [OF Cons.prems(1), of ChartUnmounted] by simp
    ultimately show ?thesis
    proof -
      have "ch_chart d = None \<Longrightarrow> chart_ok d \<Longrightarrow> ch_chart (fold chart_event_step es d) = None" for d
        by (induction es arbitrary: d) (simp_all add: unmounted_step(2) chart_ok_step)
      then show ?thesis using \<open>ch_chart (dispose_chart c) = None\<close> \<open>chart_ok (dispose_chart c)\<close> e by simp
    qed
  qed
qed simp

lemma source_steps:
  assumes "ChartUnmounted \<notin> set es"
  shows "ch_source (fold chart_event_step es (mount_chart media src p cache)) = Some src"
  using assms
proof (induction es rule: rev_induct)
  case Nil
  show ?case
    by (auto simp: mount_chart_def set_option_def make_chart_def initial_chart_def split: option.split prod.split)
next
  case (snoc e es)
  have "e \<noteq> ChartUnmounted \<Longrightarrow> ch_source (chart_event_step e c) = ch_source c" for c
    by (cases e) (auto simp: resized_def set_option_def split: option.split prod.split)
  then show ?case using snoc by auto
qed

lemma resize_close:
  assumes "js_lt (Fin 0) (measured_width observed box client)"
  shows "\<not> js_le (Fin 1) (math_abs (js_sub (resize observed box client w) (measured_width observed box client)))"
proof -
  have "fl 0 = Fin 0" using fl_of_int [of 0] by simp
  then show ?thesis using assms
    by (cases "measured_width observed box client") (auto simp: resize_def Let_def js_le_def js_sub_def)
qed

text \<open>
  C39: whatever happens to a mounted chart, it makes exactly one chart of the library and every
  other call is on that chart while it lives: none before it is made and none after it is
  disposed of, which unmounting does and nothing else; afterwards no event has any effect. While
  it lives, running the effect of the options shows the series prepared for the current width
  and the current preference for motion, and an observed width becomes the current one up to less
  than a pixel.
\<close>

theorem chart_life_sound:
  assumes "c = fold chart_event_step es (mount_chart media src p cache)"
  shows "filter is_init (ch_calls c) = [InitChart 0] \<and>
    alive None (ch_calls c) = Some (if ChartUnmounted \<in> set es then None else Some 0) \<and>
    (ChartUnmounted \<in> set es \<longrightarrow>
       ch_calls (fold chart_event_step es' c) = ch_calls c \<and> ch_width (fold chart_event_step es' c) = ch_width c) \<and>
    (ChartUnmounted \<notin> set es \<longrightarrow>
       last (ch_calls (chart_event_step (OptionsRun (spec, ref, history)) c)) =
         SetOption 0 (chart_option_of (ch_reduced c)
           (fst (prepareChartSeries (ch_cache c) ref history (cs_series spec) (ch_width c))))) \<and>
    (ChartUnmounted \<notin> set es \<and> src = FromObserver \<and> js_lt (Fin 0) (measured_width observed box client) \<longrightarrow>
       \<not> js_le (Fin 1) (math_abs (js_sub
         (ch_width (chart_event_step (WidthObserved observed box client) c)) (measured_width observed box client))))"
proof (intro conjI impI)
  have ok: "chart_ok c" unfolding assms by (rule chart_ok_steps [OF chart_ok_mount])
  show "filter is_init (ch_calls c) = [InitChart 0]" unfolding assms by (rule init_once)
  have gone: "ChartUnmounted \<in> set es \<Longrightarrow> ch_chart c = None"
    unfolding assms by (rule disposed_steps [OF chart_ok_mount])
  have there: "ChartUnmounted \<notin> set es \<Longrightarrow> ch_chart c = Some 0"
    unfolding assms by (rule mounted_steps)
  show "alive None (ch_calls c) = Some (if ChartUnmounted \<in> set es then None else Some 0)"
    using ok gone there by (auto simp: chart_ok_def)
  show "ch_calls (fold chart_event_step es' c) = ch_calls c" "ch_width (fold chart_event_step es' c) = ch_width c"
    if "ChartUnmounted \<in> set es"
    using unmounted_steps [OF ok gone [OF that]] by simp_all
  show "last (ch_calls (chart_event_step (OptionsRun (spec, ref, history)) c)) =
         SetOption 0 (chart_option_of (ch_reduced c)
           (fst (prepareChartSeries (ch_cache c) ref history (cs_series spec) (ch_width c))))"
    if "ChartUnmounted \<notin> set es"
    using ok there [OF that] by (simp add: chart_ok_def set_option_def split: prod.split)
  assume a: "ChartUnmounted \<notin> set es \<and> src = FromObserver \<and> js_lt (Fin 0) (measured_width observed box client)"
  have "ch_source c = Some FromObserver"
    unfolding assms using a source_steps [of es media src p cache] by simp
  then show "\<not> js_le (Fin 1) (math_abs (js_sub
      (ch_width (chart_event_step (WidthObserved observed box client) c)) (measured_width observed box client)))"
    using there a resize_close [of observed box client "ch_width c"] by (simp add: resized_def)
qed

theorem chart_life_sound_witness:
  "filter is_init (ch_calls (fold chart_event_step [ChartUnmounted]
     (mount_chart None FromWindow (cpu_chart, 0, two_disks) Map.empty))) = [InitChart 0] \<and>
   alive None (ch_calls (fold chart_event_step [ChartUnmounted]
     (mount_chart None FromWindow (cpu_chart, 0, two_disks) Map.empty))) = Some None"
  using chart_life_sound [OF refl, of "[ChartUnmounted]" None FromWindow "(cpu_chart, 0, two_disks)" Map.empty
      "[]" cpu_chart 0 two_disks None "Fin 0" "Fin 0"]
  by simp

end
