(* ===== verification/AlertsServer.thy ===== *)
theory AlertsServer
  imports Endpoints
begin

text \<open>
  The part of \<^verbatim>\<open>internal/alerting/handler.go\<close> that meets the alert forms of the web interface:
  how the server reads the body of a rule, which rules it accepts, and how it hides and restores
  the secret headers of the webhook. Its database, its routes and the limits on the size and the
  type of a body are left out. \<open>strings.ToLower\<close> is the parameter \<open>lower\<close>.
\<close>

section \<open>Reading a body\<close>

text \<open>
  The value of a field that is a pointer: absent and null leave it nil, another type is an error.
  An integer field takes a number without a fraction within 64 bits, which is how JavaScript
  writes it; the outer \<open>None\<close> is the error.
\<close>

fun decode_int :: "jv \<Rightarrow> int option option" where
  "decode_int JUndef = Some None"
| "decode_int JNull = Some None"
| "decode_int (JNum (Fin x)) =
     (if of_int \<lfloor>x\<rfloor> = x \<and> - (2 ^ 63) \<le> \<lfloor>x\<rfloor> \<and> \<lfloor>x\<rfloor> < 2 ^ 63 then Some (Some \<lfloor>x\<rfloor>) else None)"
| "decode_int _ = None"

fun decode_float :: "jv \<Rightarrow> rat option option" where
  "decode_float JUndef = Some None"
| "decode_float JNull = Some None"
| "decode_float (JNum (Fin x)) = Some (Some x)"
| "decode_float _ = None"

fun decode_text :: "jv \<Rightarrow> string option option" where
  "decode_text JUndef = Some None"
| "decode_text JNull = Some None"
| "decode_text (JStr s) = Some (Some s)"
| "decode_text _ = None"

fun decode_flag :: "jv \<Rightarrow> bool option option" where
  "decode_flag JUndef = Some None"
| "decode_flag JNull = Some None"
| "decode_flag (JBool b) = Some (Some b)"
| "decode_flag _ = None"

text \<open>
  Both \<open>ruleCreate\<close> and \<open>ruleUpdate\<close>; a field that is no pointer is zero or empty for null, and a body
  that is null leaves every field as it is. The decoder would also take the names in another case.
\<close>

record rule_body =
  rb_serverId :: "int option"
  rb_metric :: "string option"
  rb_operator :: "string option"
  rb_threshold :: "rat option"
  rb_durationSeconds :: "int option"
  rb_repeatSeconds :: "int option"
  rb_enabled :: "bool option"

definition rule_fields :: "string list" where
  "rule_fields =
     [''serverId'', ''metric'', ''operator'', ''threshold'', ''durationSeconds'', ''repeatSeconds'', ''enabled'']"

definition decode_rule :: "jv \<Rightarrow> rule_body option" where
  "decode_rule v =
     (case v of
        JObj fs \<Rightarrow>
          if \<not> list_all (\<lambda>(k, x). k \<in> set rule_fields) fs then None
          else (case (decode_int (get_opt ''serverId'' v), decode_text (get_opt ''metric'' v),
                      decode_text (get_opt ''operator'' v), decode_float (get_opt ''threshold'' v),
                      decode_int (get_opt ''durationSeconds'' v), decode_int (get_opt ''repeatSeconds'' v),
                      decode_flag (get_opt ''enabled'' v)) of
                  (Some i, Some m, Some o', Some t, Some d, Some r, Some e) \<Rightarrow>
                    Some \<lparr>rb_serverId = i, rb_metric = m, rb_operator = o', rb_threshold = t,
                          rb_durationSeconds = d, rb_repeatSeconds = r, rb_enabled = e\<rparr>
                | _ \<Rightarrow> None)
      | JNull \<Rightarrow>
          Some \<lparr>rb_serverId = None, rb_metric = None, rb_operator = None, rb_threshold = None,
                rb_durationSeconds = None, rb_repeatSeconds = None, rb_enabled = None\<rparr>
      | _ \<Rightarrow> None)"

section \<open>Rules\<close>

record go_rule =
  gr_serverId :: int
  gr_metric :: string
  gr_operator :: string
  gr_threshold :: rat
  gr_durationSeconds :: int
  gr_repeatSeconds :: int
  gr_enabled :: bool

definition validMetric :: "string \<Rightarrow> bool" where
  "validMetric m \<longleftrightarrow>
     m \<in> set [''offline'', ''cpu_usage'', ''memory_usage'', ''disk_usage'', ''disk_free_bytes'']"

text \<open>The last check, on the rule that its first part has made.\<close>

definition times_ok :: "go_rule \<Rightarrow> bool" where
  "times_ok rule \<longleftrightarrow>
     \<not> (gr_durationSeconds rule < 0 \<or> gr_durationSeconds rule > 86400 \<or> gr_repeatSeconds rule < 0 \<or>
        gr_repeatSeconds rule > 604800 \<or> (gr_repeatSeconds rule \<noteq> 0 \<and> gr_repeatSeconds rule < 300))"

definition normalizeRule :: "go_rule \<Rightarrow> go_rule option" where
  "normalizeRule rule =
     (if gr_serverId rule < 1 \<or> \<not> validMetric (gr_metric rule) then None
      else let next =
        (if gr_metric rule = ''offline'' then
           (if (gr_operator rule \<noteq> '''' \<and> gr_operator rule \<noteq> ''gt'') \<or> gr_threshold rule \<noteq> 0 then None
            else Some (rule\<lparr>gr_operator := ''gt'', gr_threshold := 0, gr_durationSeconds := 0\<rparr>))
         else if gr_metric rule = ''disk_free_bytes'' then
           (if gr_operator rule \<noteq> ''lt'' \<or> gr_threshold rule \<le> 0 then None else Some rule)
         else if gr_operator rule \<noteq> ''gt'' \<or> gr_threshold rule < 0 \<or> gr_threshold rule > 100 then None
         else Some rule)
      in (case next of None \<Rightarrow> None | Some r \<Rightarrow> if times_ok r then Some r else None))"

definition ruleFromCreate :: "rule_body \<Rightarrow> go_rule option" where
  "ruleFromCreate b =
     normalizeRule
       \<lparr>gr_serverId = nullish (rb_serverId b) 0, gr_metric = nullish (rb_metric b) '''',
        gr_operator = nullish (rb_operator b) '''', gr_threshold = nullish (rb_threshold b) 0,
        gr_durationSeconds = nullish (rb_durationSeconds b) 300,
        gr_repeatSeconds = nullish (rb_repeatSeconds b) 0, gr_enabled = nullish (rb_enabled b) True\<rparr>"

definition applyRuleUpdate :: "go_rule \<Rightarrow> rule_body \<Rightarrow> go_rule" where
  "applyRuleUpdate current b =
     \<lparr>gr_serverId = nullish (rb_serverId b) (gr_serverId current),
      gr_metric = nullish (rb_metric b) (gr_metric current),
      gr_operator = nullish (rb_operator b) (gr_operator current),
      gr_threshold = nullish (rb_threshold b) (gr_threshold current),
      gr_durationSeconds = nullish (rb_durationSeconds b) (gr_durationSeconds current),
      gr_repeatSeconds = nullish (rb_repeatSeconds b) (gr_repeatSeconds current),
      gr_enabled = nullish (rb_enabled b) (gr_enabled current)\<rparr>"

text \<open>\<open>CreateRule\<close> and \<open>UpdateRule\<close> up to the repository: the rule that is stored, if any.\<close>

definition create_rule :: "jv \<Rightarrow> go_rule option" where
  "create_rule v = (case decode_rule v of None \<Rightarrow> None | Some b \<Rightarrow> ruleFromCreate b)"

definition update_rule :: "go_rule \<Rightarrow> jv \<Rightarrow> go_rule option" where
  "update_rule current v =
     (case decode_rule v of None \<Rightarrow> None | Some b \<Rightarrow> normalizeRule (applyRuleUpdate current b))"

text \<open>What every stored rule satisfies.\<close>

definition go_rule_ok :: "go_rule \<Rightarrow> bool" where
  "go_rule_ok rule \<longleftrightarrow>
     1 \<le> gr_serverId rule \<and> validMetric (gr_metric rule) \<and>
     gr_operator rule = (if gr_metric rule = ''disk_free_bytes'' then ''lt'' else ''gt'') \<and>
     (gr_metric rule = ''offline'' \<longrightarrow> gr_threshold rule = 0 \<and> gr_durationSeconds rule = 0) \<and>
     (gr_metric rule = ''disk_free_bytes'' \<longrightarrow> 0 < gr_threshold rule) \<and>
     (gr_metric rule \<noteq> ''disk_free_bytes'' \<longrightarrow> 0 \<le> gr_threshold rule \<and> gr_threshold rule \<le> 100) \<and>
     times_ok rule"

lemma normalizeRule_ok: "normalizeRule rule = Some rule' \<Longrightarrow> go_rule_ok rule'"
  by (auto simp: normalizeRule_def go_rule_ok_def Let_def split: if_splits option.splits)

lemma normalizeRule_id: "go_rule_ok rule \<Longrightarrow> normalizeRule rule = Some rule"
  by (auto simp: normalizeRule_def go_rule_ok_def times_ok_def Let_def split: if_splits)

lemma stored_rules_ok:
  "create_rule v = Some rule \<Longrightarrow> go_rule_ok rule" "update_rule current v = Some rule \<Longrightarrow> go_rule_ok rule"
  by (auto simp: create_rule_def ruleFromCreate_def update_rule_def normalizeRule_ok split: option.splits)

section \<open>The headers of the webhook\<close>

text \<open>Six bullets, U+2022.\<close>

definition maskedHeaderValue :: string where
  "maskedHeaderValue = concat (replicate 6 [CHR 0xE2, CHR 0x80, CHR 0xA2])"

definition contains :: "string \<Rightarrow> string \<Rightarrow> bool" where
  "contains s t \<longleftrightarrow> sublist t s"

definition secretHeader :: "(string \<Rightarrow> string) \<Rightarrow> string \<Rightarrow> bool" where
  "secretHeader lower nm \<longleftrightarrow>
     contains (lower nm) ''authorization'' \<or> contains (lower nm) ''token'' \<or>
     contains (lower nm) ''secret'' \<or> contains (lower nm) ''key''"

type_synonym headers = "string \<rightharpoonup> string"

definition maskWebhookHeaders :: "(string \<Rightarrow> string) \<Rightarrow> headers \<Rightarrow> headers" where
  "maskWebhookHeaders lower hs nm =
     map_option (\<lambda>v. if secretHeader lower nm then maskedHeaderValue else v) (hs nm)"

definition restoreMaskedHeaders :: "(string \<Rightarrow> string) \<Rightarrow> headers \<Rightarrow> headers \<Rightarrow> headers" where
  "restoreMaskedHeaders lower input existing nm =
     (case input nm of
        None \<Rightarrow> None
      | Some v \<Rightarrow>
          if v = maskedHeaderValue \<and> secretHeader lower nm
          then Some (nullish (existing nm) v) else Some v)"

text \<open>The headers of a body: null is the empty text, an entry of another type an error.\<close>

fun header_text :: "jv \<Rightarrow> string option" where
  "header_text (JStr s) = Some s"
| "header_text JNull = Some ''''"
| "header_text _ = None"

definition decode_headers :: "jv \<Rightarrow> headers option" where
  "decode_headers v =
     (case get_opt ''headers'' v of
        JObj fs \<Rightarrow>
          if list_all (\<lambda>(k, x). header_text x \<noteq> None) fs
          then Some (\<lambda>n. case map_of fs n of None \<Rightarrow> None | Some x \<Rightarrow> header_text x)
          else None
      | JUndef \<Rightarrow> Some Map.empty
      | JNull \<Rightarrow> Some Map.empty
      | _ \<Rightarrow> None)"

lemma restore_masked: "restoreMaskedHeaders lower (maskWebhookHeaders lower hs) hs = hs"
  by (rule ext) (auto simp: restoreMaskedHeaders_def maskWebhookHeaders_def split: option.split)

lemma decode_webhook_headers:
  "decode_headers (webhook_json w) = Some (map_of (wc_headers w))"
proof -
  have "map_of (map (\<lambda>(k, v). (k, JStr v)) hs) n = map_option JStr (map_of hs n)"
    for hs :: "(string \<times> string) list" and n
    by (induction hs) auto
  moreover have "list_all (\<lambda>(k, x). header_text x \<noteq> None) (map (\<lambda>(k, v). (k, JStr v)) hs)"
    for hs :: "(string \<times> string) list"
    by (induction hs) auto
  ultimately show ?thesis
    by (auto simp: decode_headers_def webhook_json_def fun_eq_iff split: option.split)
qed

end
