(* ===== verification/AlertMachine.thy ===== *)
theory AlertMachine
  imports Endpoints
begin

text \<open>
  \<^verbatim>\<open>internal/alerting/state_machine.go\<close>: the state of one rule and how an observation of its metric
  moves it, with the specification that reads the status off the history of observations.
  Times and durations are integers of nanoseconds.
\<close>

section \<open>The state machine\<close>

text \<open>
  \<open>State\<close> of \<^verbatim>\<open>model.go\<close>. A status is the text of one of the four, or, as \<open>None\<close>, a text that
  \<open>validStatus\<close> refuses.
\<close>

record rule_state =
  as_ruleId :: int
  as_status :: "alert_status option"
  as_pendingSince :: "int option"
  as_firingSince :: "int option"
  as_lastNotifiedAt :: "int option"
  as_lastValue :: "jsnum option"
  as_updatedAt :: int

definition validStatus :: "alert_status option \<Rightarrow> bool" where
  "validStatus s \<longleftrightarrow> s \<noteq> None"

record evaluation_input =
  in_state :: rule_state
  in_breached :: bool
  in_currentValue :: jsnum
  in_duration :: int
  in_repeatInterval :: int
  in_now :: int

definition finishEvaluation :: "rule_state \<Rightarrow> int \<Rightarrow> bool \<Rightarrow> rule_state \<times> bool" where
  "finishEvaluation state now notify = (state\<lparr>as_updatedAt := now\<rparr>, notify)"

text \<open>The four cases of the switch, on the state whose last value is set.\<close>

definition from_normal :: "evaluation_input \<Rightarrow> rule_state \<Rightarrow> rule_state \<times> bool" where
  "from_normal inp state =
     (let now = in_now inp
      in if \<not> in_breached inp then finishEvaluation state now False
         else if in_duration inp \<le> 0 then
           finishEvaluation
             (state\<lparr>as_status := Some Firing, as_pendingSince := None, as_firingSince := Some now,
                    as_lastNotifiedAt := Some now\<rparr>) now True
         else
           finishEvaluation
             (state\<lparr>as_status := Some Pending, as_pendingSince := Some now, as_firingSince := None\<rparr>)
             now False)"

definition from_pending :: "evaluation_input \<Rightarrow> rule_state \<Rightarrow> rule_state \<times> bool" where
  "from_pending inp state =
     (let now = in_now inp
      in if \<not> in_breached inp then
           finishEvaluation
             (state\<lparr>as_status := Some Normal, as_pendingSince := None, as_firingSince := None\<rparr>) now False
         else case as_pendingSince state of
                None \<Rightarrow> finishEvaluation (state\<lparr>as_pendingSince := Some now\<rparr>) now False
              | Some since \<Rightarrow>
                  if now - since < in_duration inp then finishEvaluation state now False
                  else finishEvaluation
                         (state\<lparr>as_status := Some Firing, as_firingSince := Some now,
                                as_lastNotifiedAt := Some now\<rparr>) now True)"

definition from_firing :: "evaluation_input \<Rightarrow> rule_state \<Rightarrow> rule_state \<times> bool" where
  "from_firing inp state =
     (let now = in_now inp
      in if \<not> in_breached inp then
           finishEvaluation
             (state\<lparr>as_status := Some Recovered, as_pendingSince := None, as_lastNotifiedAt := Some now\<rparr>)
             now True
         else let state1 = state\<lparr>as_firingSince := Some (nullish (as_firingSince state) now)\<rparr>
              in if in_repeatInterval inp > 0 \<and>
                    (case as_lastNotifiedAt state of
                       None \<Rightarrow> True
                     | Some notified \<Rightarrow> now - notified \<ge> in_repeatInterval inp)
                 then finishEvaluation (state1\<lparr>as_lastNotifiedAt := Some now\<rparr>) now True
                 else finishEvaluation state1 now False)"

definition from_recovered :: "evaluation_input \<Rightarrow> rule_state \<Rightarrow> rule_state \<times> bool" where
  "from_recovered inp state =
     (let now = in_now inp
      in if \<not> in_breached inp then
           finishEvaluation
             (state\<lparr>as_status := Some Normal, as_pendingSince := None, as_firingSince := None\<rparr>) now False
         else let state1 = state\<lparr>as_firingSince := None, as_lastNotifiedAt := None\<rparr>
              in if in_duration inp \<le> 0 then
                   finishEvaluation
                     (state1\<lparr>as_status := Some Firing, as_pendingSince := None, as_firingSince := Some now,
                             as_lastNotifiedAt := Some now\<rparr>) now True
                 else finishEvaluation
                        (state1\<lparr>as_status := Some Pending, as_pendingSince := Some now\<rparr>) now False)"

text \<open>An invalid status becomes Normal, so the switch has no other case.\<close>

definition Evaluate :: "evaluation_input \<Rightarrow> rule_state \<times> bool" where
  "Evaluate inp =
     (let state0 = in_state inp;
          status = (if validStatus (as_status state0) then the (as_status state0) else Normal);
          state = state0\<lparr>as_status := Some status, as_lastValue := Some (in_currentValue inp)\<rparr>
      in case status of
           Normal \<Rightarrow> from_normal inp state
         | Pending \<Rightarrow> from_pending inp state
         | Firing \<Rightarrow> from_firing inp state
         | Recovered \<Rightarrow> from_recovered inp state)"

text \<open>An observation: when, whether the threshold was breached, and the value.\<close>

record observation =
  ob_at :: int
  ob_breached :: bool
  ob_value :: jsnum

definition observe :: "int \<Rightarrow> int \<Rightarrow> observation \<Rightarrow> rule_state \<Rightarrow> rule_state \<times> bool" where
  "observe duration repeat ob st =
     Evaluate \<lparr>in_state = st, in_breached = ob_breached ob, in_currentValue = ob_value ob,
               in_duration = duration, in_repeatInterval = repeat, in_now = ob_at ob\<rparr>"

text \<open>The state a rule starts from (\<open>EvaluateNow\<close>, when none is stored).\<close>

definition fresh_state :: "int \<Rightarrow> rule_state" where
  "fresh_state ruleID =
     \<lparr>as_ruleId = ruleID, as_status = Some Normal, as_pendingSince = None, as_firingSince = None,
      as_lastNotifiedAt = None, as_lastValue = None, as_updatedAt = 0\<rparr>"

definition observe_all :: "int \<Rightarrow> int \<Rightarrow> observation list \<Rightarrow> rule_state \<Rightarrow> rule_state" where
  "observe_all duration repeat obs st = fold (\<lambda>ob s. fst (observe duration repeat ob s)) obs st"

text \<open>The notifications of a run, each with the status it reports and its time.\<close>

fun notifications :: "int \<Rightarrow> int \<Rightarrow> observation list \<Rightarrow> rule_state \<Rightarrow> (alert_status option \<times> int) list" where
  "notifications duration repeat [] st = []"
| "notifications duration repeat (ob # obs) st =
     (let (st', notify) = observe duration repeat ob st
      in (if notify then [(as_status st', ob_at ob)] else []) @ notifications duration repeat obs st')"

section \<open>The specification\<close>

text \<open>
  The current breach: the observations since the last one without a breach. The alert fires
  when some observation of the breach comes the duration after its first one.
\<close>

definition current_breach :: "observation list \<Rightarrow> observation list" where
  "current_breach obs = rev (takeWhile ob_breached (rev obs))"

definition fires :: "int \<Rightarrow> observation list \<Rightarrow> bool" where
  "fires duration obs =
     (case current_breach obs of
        [] \<Rightarrow> False
      | first # later \<Rightarrow> list_ex (\<lambda>ob. duration \<le> ob_at ob - ob_at first) (first # later))"

definition alert_spec :: "int \<Rightarrow> observation list \<Rightarrow> alert_status" where
  "alert_spec duration obs =
     (if current_breach obs \<noteq> [] then (if fires duration obs then Firing else Pending)
      else if obs \<noteq> [] \<and> fires duration (butlast obs) then Recovered
      else Normal)"

lemma observe_status:
  "as_status st = Some Normal \<Longrightarrow> as_status (fst (observe d r ob st)) =
     Some (if \<not> ob_breached ob then Normal else if d \<le> 0 then Firing else Pending)"
  "as_status st = Some Recovered \<Longrightarrow> as_status (fst (observe d r ob st)) =
     Some (if \<not> ob_breached ob then Normal else if d \<le> 0 then Firing else Pending)"
  "as_status st = Some Firing \<Longrightarrow> as_status (fst (observe d r ob st)) =
     Some (if ob_breached ob then Firing else Recovered)"
  "as_status st = Some Pending \<Longrightarrow> as_pendingSince st = Some p \<Longrightarrow>
     as_status (fst (observe d r ob st)) =
       Some (if \<not> ob_breached ob then Normal else if ob_at ob - p < d then Pending else Firing)"
  by (simp_all add: observe_def Evaluate_def validStatus_def from_normal_def from_recovered_def
      from_firing_def from_pending_def finishEvaluation_def Let_def)

lemma observe_pendingSince:
  "as_status st = Some Normal \<or> as_status st = Some Recovered \<Longrightarrow> ob_breached ob \<Longrightarrow> \<not> d \<le> 0 \<Longrightarrow>
     as_pendingSince (fst (observe d r ob st)) = Some (ob_at ob)"
  "as_status st = Some Pending \<Longrightarrow> as_pendingSince st = Some p \<Longrightarrow> ob_breached ob \<Longrightarrow> ob_at ob - p < d \<Longrightarrow>
     as_pendingSince (fst (observe d r ob st)) = Some p"
  by (auto simp: observe_def Evaluate_def validStatus_def from_normal_def from_recovered_def
      from_firing_def from_pending_def finishEvaluation_def Let_def)

lemma current_breach_snoc:
  "current_breach (obs @ [ob]) = (if ob_breached ob then current_breach obs @ [ob] else [])"
  by (simp add: current_breach_def)

lemma current_breach_Nil [simp]: "current_breach [] = []"
  by (simp add: current_breach_def)

lemma fires_snoc:
  "fires d (obs @ [ob]) \<longleftrightarrow>
     ob_breached ob \<and>
     (case current_breach obs of
        [] \<Rightarrow> d \<le> 0
      | first # later \<Rightarrow> fires d obs \<or> d \<le> ob_at ob - ob_at first)"
  by (auto simp: fires_def current_breach_snoc split: list.splits)

text \<open>The machine's state is the specification's, and a pending state knows when the breach began.\<close>

definition tracks :: "int \<Rightarrow> observation list \<Rightarrow> rule_state \<Rightarrow> bool" where
  "tracks d obs st \<longleftrightarrow>
     as_status st = Some (alert_spec d obs) \<and>
     (alert_spec d obs = Pending \<longrightarrow> as_pendingSince st = Some (ob_at (hd (current_breach obs))))"

lemma tracks_observe:
  assumes "tracks d obs st"
  shows "tracks d (obs @ [ob]) (fst (observe d r ob st))"
proof (cases "current_breach obs")
  case Nil
  then have "\<not> fires d obs" by (simp add: fires_def)
  then have "alert_spec d obs = Normal \<or> alert_spec d obs = Recovered"
    using Nil by (simp add: alert_spec_def)
  then show ?thesis
    using assms Nil \<open>\<not> fires d obs\<close> observe_status(1,2) [of st d r ob] observe_pendingSince(1) [of st ob d r]
    by (auto simp: tracks_def alert_spec_def current_breach_snoc fires_snoc split: if_splits)
next
  case (Cons first later)
  then have "alert_spec d obs = (if fires d obs then Firing else Pending)"
    by (simp add: alert_spec_def)
  then show ?thesis
    using assms Cons observe_status(3) [of st d r ob] observe_status(4) [of st "ob_at first" d r ob]
      observe_pendingSince(2) [of st "ob_at first" ob d r]
    by (auto simp: tracks_def alert_spec_def current_breach_snoc fires_snoc split: if_splits)
qed

lemma tracks_fresh: "tracks d [] (fresh_state i)"
  by (simp add: tracks_def fresh_state_def alert_spec_def)

lemma tracks_all: "tracks d h st \<Longrightarrow> tracks d (h @ obs) (observe_all d r obs st)"
proof (induction obs arbitrary: h st)
  case (Cons ob obs)
  then have "tracks d (h @ [ob]) (fst (observe d r ob st))" by (simp add: tracks_observe)
  then show ?case using Cons.IH by (fastforce simp: observe_all_def)
qed (simp add: observe_all_def)

section \<open>Notifications\<close>

text \<open>
  The order of notifications: a recovery only after a firing, a second firing only after a
  recovery, or, when the rule repeats, its interval after the one before.
\<close>

definition may_follow :: "int \<Rightarrow> alert_status option \<times> int \<Rightarrow> alert_status option \<times> int \<Rightarrow> bool" where
  "may_follow repeat a b \<longleftrightarrow>
     (fst b = Some Recovered \<and> fst a = Some Firing) \<or>
     (fst b = Some Firing \<and> fst a = Some Recovered) \<or>
     (fst b = Some Firing \<and> fst a = Some Firing \<and> 0 < repeat \<and> repeat \<le> snd b - snd a)"

definition notified_ok :: "int \<Rightarrow> rule_state \<Rightarrow> (alert_status option \<times> int) list \<Rightarrow> bool" where
  "notified_ok repeat st ns \<longleftrightarrow>
     successively (may_follow repeat) ns \<and> (ns \<noteq> [] \<longrightarrow> fst (hd ns) = Some Firing) \<and>
     as_status st \<noteq> None \<and>
     (if as_status st = Some Firing
      then ns \<noteq> [] \<and> fst (last ns) = Some Firing \<and> as_lastNotifiedAt st = Some (snd (last ns))
      else ns \<noteq> [] \<longrightarrow> fst (last ns) = Some Recovered)"

lemma notified_ok_observe:
  assumes "notified_ok r st ns"
  shows "notified_ok r (fst (observe d r ob st))
    (ns @ (if snd (observe d r ob st) then [(as_status (fst (observe d r ob st)), ob_at ob)] else []))"
proof -
  obtain s where s: "as_status st = Some s" using assms by (auto simp: notified_ok_def)
  show ?thesis
  proof (cases s)
    case Normal
    with assms s show ?thesis
      by (auto simp: notified_ok_def observe_def Evaluate_def validStatus_def from_normal_def
          finishEvaluation_def Let_def successively_append_iff may_follow_def hd_append)
  next
    case Pending
    with assms s show ?thesis
      by (auto simp: notified_ok_def observe_def Evaluate_def validStatus_def from_pending_def
          finishEvaluation_def Let_def successively_append_iff may_follow_def hd_append split: option.splits)
  next
    case Firing
    with assms s show ?thesis
      by (auto simp: notified_ok_def observe_def Evaluate_def validStatus_def from_firing_def
          finishEvaluation_def Let_def successively_append_iff may_follow_def hd_append split: option.splits)
  next
    case Recovered
    with assms s show ?thesis
      by (auto simp: notified_ok_def observe_def Evaluate_def validStatus_def from_recovered_def
          finishEvaluation_def Let_def successively_append_iff may_follow_def hd_append)
  qed
qed

lemma notified_ok_all:
  "notified_ok r st ns \<Longrightarrow> notified_ok r (observe_all d r obs st) (ns @ notifications d r obs st)"
proof (induction obs arbitrary: st ns)
  case (Cons ob obs)
  show ?case
    using Cons.IH [OF notified_ok_observe [OF Cons.prems, of d ob]]
    by (auto simp: observe_all_def Let_def split: prod.split if_splits)
qed (simp add: observe_all_def)

lemma notified_ok_fresh: "notified_ok r (fresh_state i) []"
  by (simp add: notified_ok_def fresh_state_def)

end
