(* ===== verification/GoTypes.thy ===== *)
theory GoTypes
  imports ApiTypes "HOL-Library.Word"
begin

text \<open>
  The data types of \<^verbatim>\<open>internal/protocol/report.go\<close> and the snapshot and event of \<^verbatim>\<open>internal/live\<close>.
  A \<open>uint64\<close> is a 64-bit word, an \<open>int64\<close> an integer (none is computed with near its bounds), a
  \<open>float64\<close> the type of binary64 values that also models JavaScript's Numbers, a \<open>time.Time\<close>
  its nanoseconds since 1970.
\<close>

type_synonym u64 = "64 word"

record g_host =
  g_hostname :: string
  g_os :: string
  g_platform :: string
  g_platformVersion :: string
  g_kernelVersion :: string
  g_architecture :: string
  g_cpuModel :: string
  g_cpuCores :: int
  g_primaryIp :: string
  g_bootTimeUnix :: int
  g_uptimeSeconds :: u64

record g_cpu =
  g_usagePercent :: jsnum
  g_load1 :: jsnum
  g_load5 :: jsnum
  g_load15 :: jsnum

record g_memory =
  g_memTotal :: u64
  g_memUsed :: u64
  g_swapTotal :: u64
  g_swapUsed :: u64

record g_disk =
  g_mountpoint :: string
  g_diskTotal :: u64
  g_diskUsed :: u64

record g_disk_io =
  g_readBps :: u64
  g_writeBps :: u64

record g_network =
  g_interface :: string
  g_uploadBps :: u64
  g_downloadBps :: u64
  g_totalUpload :: u64
  g_totalDownload :: u64

text \<open>A nil slice of disks is \<open>None\<close>.\<close>

record g_report =
  g_collectedAtUnix :: int
  g_agentVersion :: string
  g_host :: g_host
  g_cpu :: g_cpu
  g_memory :: g_memory
  g_disks :: "g_disk list option"
  g_diskIo :: g_disk_io
  g_network :: g_network

record g_snapshot =
  gs_serverId :: int
  gs_serverName :: string
  gs_online :: bool
  gs_lastReceivedAt :: int
  gs_sourceIp :: string
  gs_report :: g_report

datatype event_type = SnapshotUpdated | SnapshotOffline

fun event_type_name :: "event_type \<Rightarrow> string" where
  "event_type_name SnapshotUpdated = ''snapshot.updated''"
| "event_type_name SnapshotOffline = ''snapshot.offline''"

record g_event =
  ge_type :: event_type
  ge_snapshot :: g_snapshot

section \<open>Numbers\<close>

text \<open>The conversion \<open>float64(x)\<close> of a \<open>uint64\<close>, rounded to nearest.\<close>

definition float_of :: "u64 \<Rightarrow> jsnum" where
  "float_of w = fl (of_int (uint w))"

text \<open>\<open>range report.Disks\<close>\<close>

definition disks_list :: "g_report \<Rightarrow> g_disk list" where
  "disks_list r = nullish (g_disks r) []"

declare of_int_uint [simp del]

lemma uint_u64: "0 \<le> uint (w :: u64)" "uint (w :: u64) < 2 ^ 64"
  using uint_lt2p [of w] by simp_all

lemma fl_val_two_64: "fl_val (2 ^ 64) = 2 ^ 64"
proof (rule fl_val_multiple [of _ 1 64])
  show "quantum (2 ^ 64) \<le> 64" by (rule quantum_le) (simp_all add: power_int_def)
qed simp

lemma float_of_range: "float_of w = Fin (fl_val (of_int (uint w)))"
  "0 \<le> fl_val (of_int (uint w))" "fl_val (of_int (uint (w :: u64))) \<le> 2 ^ 64"
proof -
  have "(of_int (uint w) :: rat) \<le> of_int (2 ^ 64)"
    unfolding of_int_le_iff using uint_u64(2) [of w] by linarith
  then have "(of_int (uint w) :: rat) \<le> 2 ^ 64" by simp
  then have le: "fl_val (of_int (uint w)) \<le> 2 ^ 64"
    using fl_val_mono fl_val_two_64 by metis
  have ge: "0 \<le> fl_val (of_int (uint w))"
    by (rule fl_val_nonneg) (simp add: uint_u64)
  have "fl_val (of_int (uint w)) < overflow_bound"
    using le by (rule le_less_trans) (simp add: overflow_bound_def)
  moreover have "- overflow_bound < fl_val (of_int (uint w))"
    by (rule less_le_trans [OF _ ge]) (simp add: overflow_bound_def)
  ultimately show "float_of w = Fin (fl_val (of_int (uint w)))"
    by (auto simp: float_of_def fl_def Let_def)
  show "0 \<le> fl_val (of_int (uint w))" by (rule ge)
  show "fl_val (of_int (uint w)) \<le> 2 ^ 64" by (rule le)
qed

lemma float_of_zero [simp]: "float_of 0 = Fin 0"
  by (simp add: float_of_range)

lemma float_of_pos:
  assumes "w \<noteq> 0"
  shows "1 \<le> fl_val (of_int (uint (w :: u64)))"
proof -
  have "uint w \<noteq> 0" using assms by (simp add: unsigned_eq_0_iff)
  then have "1 \<le> uint w" using uint_u64(1) [of w] by linarith
  then have "(1 :: rat) \<le> of_int (uint w)" by simp
  then have "fl_val (of_int 1) \<le> fl_val (of_int (uint w))"
    by (intro fl_val_mono) simp
  then show ?thesis using fl_val_of_int [of 1] by simp
qed

lemma float_of_mono: "v \<le> w \<Longrightarrow> fl_val (of_int (uint (v :: u64))) \<le> fl_val (of_int (uint w))"
  by (rule fl_val_mono) (simp add: word_le_def)

text \<open>Exact below \<open>2\<^sup>5\<^sup>3\<close>.\<close>

lemma float_of_exact: "uint w \<le> 2 ^ 53 \<Longrightarrow> float_of w = num_of_int (uint w)"
  using fl_val_of_int [of "uint w"] float_of_range(1) [of w] uint_u64(1) [of w] by simp

text \<open>
  \<open>usagePercent\<close> of \<^verbatim>\<open>internal/history/accumulator.go\<close>, which the metrics of the alerts also
  compute.
\<close>

definition usage_percent :: "u64 \<Rightarrow> u64 \<Rightarrow> jsnum" where
  "usage_percent used tot =
     (if tot = 0 then Fin 0 else js_mul (js_div (float_of used) (float_of tot)) (Fin 100))"

lemma usage_percent_range:
  assumes "used \<le> tot"
  shows "\<exists>x. usage_percent used tot = Fin x \<and> 0 \<le> x \<and> x \<le> 100"
proof (cases "tot = 0")
  case False
  let ?u = "fl_val (of_int (uint used))" and ?t = "fl_val (of_int (uint tot))"
  have t: "1 \<le> ?t" and u: "0 \<le> ?u" "?u \<le> ?t"
    using float_of_pos [OF False] float_of_range(2) [of used] float_of_mono [OF assms] by simp_all
  have q: "of_int 0 \<le> ?u / ?t" "?u / ?t \<le> of_int 1" using t u by simp_all
  obtain y where y: "fl (?u / ?t) = Fin y" "0 \<le> y" "y \<le> 1"
    using fl_Fin_range [OF q] binary64.in_int_range [OF q] by fastforce
  have p: "of_int 0 \<le> y * 100" "y * 100 \<le> of_int 100" using y by simp_all
  obtain z where "fl (y * 100) = Fin z" "0 \<le> z" "z \<le> 100"
    using fl_Fin_range [OF p] binary64.in_int_range [OF p] by fastforce
  then show ?thesis using False t y(1) by (simp add: usage_percent_def float_of_range(1))
qed (simp add: usage_percent_def)

end
