(* ===== verification/LiveServer.thy ===== *)
theory LiveServer
  imports GoTypes "HOL-Library.Sublist" "HOL-Library.List_Lexorder" "HOL-Library.Char_ord"
    "HOL-Library.Product_Lexorder"
begin

text \<open>
  \<^verbatim>\<open>internal/live\<close>: the checks on a report, the store of snapshots, the hub that hands events to
  the open event streams, the coordinator that keeps the three in step, the sweeper and the
  status list. The locks of the code make each operation one step; where a stream reads its
  channel in the middle of a publish, those reads are part of the step.
\<close>

section \<open>Reports (ingest.go)\<close>

text \<open>
  \<open>strings.TrimSpace(s) == ""\<close> and \<open>strings.Fields\<close> on UTF-8 bytes: \<open>space_len s\<close> is the length
  of the white space character that \<open>s\<close> starts with, and 0 when it starts with none.
\<close>

definition code_between :: "nat \<Rightarrow> nat \<Rightarrow> char \<Rightarrow> bool" where
  "code_between a b c \<longleftrightarrow> a \<le> of_char c \<and> of_char c \<le> b"

definition space_len :: "string \<Rightarrow> nat" where
  "space_len s =
     (case s of
        [] \<Rightarrow> 0
      | c # s1 \<Rightarrow>
          if c = CHR 0x20 \<or> code_between 9 13 c then 1
          else case s1 of
                 [] \<Rightarrow> 0
               | d # s2 \<Rightarrow>
                   if c = CHR 0xC2 then (if d = CHR 0x85 \<or> d = CHR 0xA0 then 2 else 0)
                   else case s2 of
                          [] \<Rightarrow> 0
                        | e # s3 \<Rightarrow>
                            if (c = CHR 0xE1 \<and> d = CHR 0x9A \<and> e = CHR 0x80) \<or>
                               (c = CHR 0xE2 \<and> d = CHR 0x80 \<and>
                                (code_between 128 138 e \<or> e = CHR 0xA8 \<or> e = CHR 0xA9 \<or> e = CHR 0xAF)) \<or>
                               (c = CHR 0xE2 \<and> d = CHR 0x81 \<and> e = CHR 0x9F) \<or>
                               (c = CHR 0xE3 \<and> d = CHR 0x80 \<and> e = CHR 0x80)
                            then 3 else 0)"

function blank :: "string \<Rightarrow> bool" where
  "blank s = (if s = [] then True else if space_len s = 0 then False else blank (drop (space_len s) s))"
  by pat_completeness auto
termination
  by (relation "measure length") auto

declare blank.simps [simp del]

text \<open>\<open>None\<close> is a nil error, and there is one error only.\<close>

definition validateReport :: "g_report \<Rightarrow> bool" where
  "validateReport rep =
     (if blank (g_hostname (g_host rep)) \<or> disks_list rep = [] \<or> g_collectedAtUnix rep \<le> 0 then False
      else if \<not> is_finite (g_usagePercent (g_cpu rep)) \<or>
              js_lt (g_usagePercent (g_cpu rep)) (Fin 0) \<or>
              js_lt (Fin 100) (g_usagePercent (g_cpu rep)) \<or>
              \<not> is_finite (g_load1 (g_cpu rep)) \<or> \<not> is_finite (g_load5 (g_cpu rep)) \<or>
              \<not> is_finite (g_load15 (g_cpu rep)) then False
      else if g_memUsed (g_memory rep) > g_memTotal (g_memory rep) \<or>
              g_swapUsed (g_memory rep) > g_swapTotal (g_memory rep) then False
      else list_all (\<lambda>disk. \<not> (blank (g_mountpoint disk) \<or> g_diskUsed disk > g_diskTotal disk))
             (disks_list rep))"

section \<open>The store (store.go)\<close>

text \<open>\<open>servers.Server\<close>, of which the code here reads two fields.\<close>

record go_server =
  sv_id :: int
  sv_name :: string
  sv_enabled :: bool
  sv_agentVersion :: string
  sv_createdAt :: int
  sv_updatedAt :: int

type_synonym snapshot_store = "int \<rightharpoonup> g_snapshot"

text \<open>
  \<open>append([]T(nil), xs...)\<close> is nil when \<open>xs\<close> is empty, so a clone turns an empty slice into a nil
  one. Values are copied, so nothing in the store shares memory with a caller.
\<close>

definition cloneReport :: "g_report \<Rightarrow> g_report" where
  "cloneReport r = r\<lparr>g_disks := (case g_disks r of Some [] \<Rightarrow> None | ds \<Rightarrow> ds)\<rparr>"

definition cloneSnapshot :: "g_snapshot \<Rightarrow> g_snapshot" where
  "cloneSnapshot s = s\<lparr>gs_report := cloneReport (gs_report s)\<rparr>"

definition UpsertFrom ::
  "go_server \<Rightarrow> g_report \<Rightarrow> int \<Rightarrow> string \<Rightarrow> snapshot_store \<Rightarrow> g_snapshot \<times> snapshot_store" where
  "UpsertFrom server rep receivedAt sourceIP store =
     (let snapshot = \<lparr>gs_serverId = sv_id server, gs_serverName = sv_name server, gs_online = True,
                      gs_lastReceivedAt = receivedAt, gs_sourceIp = sourceIP,
                      gs_report = cloneReport rep\<rparr>
      in (cloneSnapshot snapshot, store(sv_id server \<mapsto> snapshot)))"

definition store_get :: "snapshot_store \<Rightarrow> int \<Rightarrow> g_snapshot option" where
  "store_get store serverID = map_option cloneSnapshot (store serverID)"

text \<open>The iteration over the map visits its keys in some order, \<open>ids\<close>.\<close>

fun MarkOffline :: "int list \<Rightarrow> int \<Rightarrow> snapshot_store \<Rightarrow> g_snapshot list \<times> snapshot_store" where
  "MarkOffline [] cutoff store = ([], store)"
| "MarkOffline (serverID # ids) cutoff store =
     (case store serverID of
        None \<Rightarrow> MarkOffline ids cutoff store
      | Some snapshot \<Rightarrow>
          if gs_online snapshot \<and> gs_lastReceivedAt snapshot < cutoff
          then let snapshot' = snapshot\<lparr>gs_online := False\<rparr>;
                   (changed, store') = MarkOffline ids cutoff (store(serverID \<mapsto> snapshot'))
               in (cloneSnapshot snapshot' # changed, store')
          else MarkOffline ids cutoff store)"

definition store_rename :: "int \<Rightarrow> string \<Rightarrow> snapshot_store \<Rightarrow> snapshot_store" where
  "store_rename serverID name store =
     (case store serverID of
        None \<Rightarrow> store
      | Some snapshot \<Rightarrow> store(serverID \<mapsto> snapshot\<lparr>gs_serverName := name\<rparr>))"

definition store_delete :: "int \<Rightarrow> snapshot_store \<Rightarrow> snapshot_store" where
  "store_delete serverID store = store(serverID := None)"

section \<open>The hub (hub.go)\<close>

definition subscriberCapacity :: nat where
  "subscriberCapacity = 8"

text \<open>
  A subscriber is its buffered channel, whether the hub still sends to it, and what its stream
  has taken from the channel so far (\<open>sub_out\<close>). \<open>hub_log\<close> and \<open>sub_joined\<close> are history: the events
  published while the hub was open, and how many of them there were at the subscription.
\<close>

record subscriber =
  sub_open :: bool
  sub_queue :: "g_event list"
  sub_out :: "g_event list"
  sub_joined :: nat

record hub =
  hub_closed :: bool
  hub_subs :: "nat \<rightharpoonup> subscriber"
  hub_next :: nat
  hub_log :: "g_event list"

definition NewHub :: hub where
  "NewHub = \<lparr>hub_closed = False, hub_subs = Map.empty, hub_next = 0, hub_log = []\<rparr>"

definition cloneEvent :: "g_event \<Rightarrow> g_event" where
  "cloneEvent e = e\<lparr>ge_snapshot := cloneSnapshot (ge_snapshot e)\<rparr>"

text \<open>A send that does not block; the stream's read from the channel.\<close>

definition try_send :: "g_event \<Rightarrow> g_event list \<Rightarrow> g_event list option" where
  "try_send e q = (if length q < subscriberCapacity then Some (q @ [e]) else None)"

definition receive :: "subscriber \<Rightarrow> subscriber" where
  "receive sub =
     (case sub_queue sub of
        [] \<Rightarrow> sub
      | e # q \<Rightarrow> sub\<lparr>sub_queue := q, sub_out := sub_out sub @ [e]\<rparr>)"

text \<open>
  The send of one event to one channel: when the buffer is full its oldest event is dropped.
  The stream may read \<open>m\<close> events before the drop and \<open>n\<close> before the second send.
\<close>

definition deliver :: "nat \<times> nat \<Rightarrow> g_event \<Rightarrow> subscriber \<Rightarrow> subscriber" where
  "deliver race delivery sub =
     (case try_send delivery (sub_queue sub) of
        Some q \<Rightarrow> sub\<lparr>sub_queue := q\<rparr>
      | None \<Rightarrow>
          let s1 = (receive ^^ fst race) sub;
              s2 = s1\<lparr>sub_queue := tl (sub_queue s1)\<rparr>;
              s3 = (receive ^^ snd race) s2
          in (case try_send delivery (sub_queue s3) of
                Some q \<Rightarrow> s3\<lparr>sub_queue := q\<rparr>
              | None \<Rightarrow> s3))"

definition Publish :: "(nat \<Rightarrow> nat \<times> nat) \<Rightarrow> g_event \<Rightarrow> hub \<Rightarrow> hub" where
  "Publish race event h =
     (if hub_closed h then h
      else h\<lparr>hub_subs := \<lambda>i. map_option
                (\<lambda>sub. if sub_open sub then deliver (race i) (cloneEvent event) sub else sub) (hub_subs h i),
             hub_log := hub_log h @ [cloneEvent event]\<rparr>)"

definition Subscribe :: "hub \<Rightarrow> nat \<times> hub" where
  "Subscribe h =
     (hub_next h,
      h\<lparr>hub_subs := (hub_subs h)(hub_next h \<mapsto>
            \<lparr>sub_open = \<not> hub_closed h, sub_queue = [], sub_out = [], sub_joined = length (hub_log h)\<rparr>),
        hub_next := hub_next h + 1\<rparr>)"

definition cancel :: "nat \<Rightarrow> hub \<Rightarrow> hub" where
  "cancel i h = h\<lparr>hub_subs := (hub_subs h)(i := map_option (\<lambda>sub. sub\<lparr>sub_open := False\<rparr>) (hub_subs h i))\<rparr>"

definition hub_close :: "hub \<Rightarrow> hub" where
  "hub_close h =
     (if hub_closed h then h
      else h\<lparr>hub_closed := True,
             hub_subs := \<lambda>i. map_option (\<lambda>sub. sub\<lparr>sub_open := False\<rparr>) (hub_subs h i)\<rparr>)"

text \<open>One turn of the loop of \<open>SSE\<close> in \<^verbatim>\<open>handler.go\<close> that takes an event: it is written to the stream.\<close>

definition sse_take :: "nat \<Rightarrow> hub \<Rightarrow> hub" where
  "sse_take i h = h\<lparr>hub_subs := (hub_subs h)(i := map_option receive (hub_subs h i))\<rparr>"

end
