(* ===== verification/LiveCoordinator.thy ===== *)
theory LiveCoordinator
  imports LiveServer
begin

text \<open>
  \<^verbatim>\<open>internal/live/coordinator.go\<close>, \<^verbatim>\<open>sweeper.go\<close> and the handlers of \<^verbatim>\<open>handler.go\<close>: the operations
  that change the store and publish what they changed. The registry of servers
  (\<^verbatim>\<open>internal/servers\<close>) is a parameter: each call is given the answers it gets from it.
\<close>

section \<open>The coordinator\<close>

text \<open>The calls that the coordinator makes to the history of metrics.\<close>

datatype history_call = HistoryAccept int g_report int | HistoryRemove int

text \<open>
  \<open>co_observed\<close> is what each observer has been sent, \<open>co_history\<close> the calls to the history, both
  in order.
\<close>

record coordinator =
  co_store :: snapshot_store
  co_hub :: hub
  co_observed :: "g_event list"
  co_history :: "history_call list"

text \<open>
  The errors of \<^verbatim>\<open>internal/servers/service.go\<close>; \<open>RegistryFailure\<close> is an error of the database or of the
  source of random bytes.
\<close>

datatype registry_error =
    InvalidInput
  | NotFound
  | InvalidToken
  | Disabled
  | ServerLimit
  | RegistryFailure


definition co_publish :: "(nat \<Rightarrow> nat \<times> nat) \<Rightarrow> g_event \<Rightarrow> coordinator \<Rightarrow> coordinator" where
  "co_publish race event c =
     c\<lparr>co_hub := Publish race event (co_hub c), co_observed := co_observed c @ [event]\<rparr>"

text \<open>\<open>auth\<close> and \<open>updated\<close> are the answers of \<open>AuthenticateToken\<close> and \<open>UpdateAgentVersion\<close>.\<close>

definition co_accept ::
  "(nat \<Rightarrow> nat \<times> nat) \<Rightarrow> registry_error + go_server \<Rightarrow> registry_error option \<Rightarrow> g_report \<Rightarrow> int \<Rightarrow>
   string \<Rightarrow> coordinator \<Rightarrow> (registry_error + g_snapshot) \<times> coordinator" where
  "co_accept race auth updated rep receivedAt sourceIP c =
     (case auth of
        Inl err \<Rightarrow> (Inl err, c)
      | Inr server \<Rightarrow>
          (case updated of
             Some err \<Rightarrow> (Inl err, c)
           | None \<Rightarrow>
               let (snapshot, store) = UpsertFrom server rep receivedAt sourceIP (co_store c);
                   c1 = co_publish race \<lparr>ge_type = SnapshotUpdated, ge_snapshot = snapshot\<rparr> (c\<lparr>co_store := store\<rparr>)
               in (Inr snapshot,
                   c1\<lparr>co_history := co_history c1 @ [HistoryAccept (sv_id server) rep receivedAt]\<rparr>)))"

definition offline_event :: "g_snapshot \<Rightarrow> g_event" where
  "offline_event snapshot = \<lparr>ge_type = SnapshotOffline, ge_snapshot = snapshot\<rparr>"

definition co_sweep ::
  "(g_event \<Rightarrow> nat \<Rightarrow> nat \<times> nat) \<Rightarrow> int list \<Rightarrow> int \<Rightarrow> coordinator \<Rightarrow> g_snapshot list \<times> coordinator" where
  "co_sweep race ids cutoff c =
     (let (changed, store) = MarkOffline ids cutoff (co_store c)
      in (changed,
          fold (\<lambda>snapshot. co_publish (race (offline_event snapshot)) (offline_event snapshot)) changed
            (c\<lparr>co_store := store\<rparr>)))"

text \<open>\<open>mutated\<close> is the answer of the change to the registry that the caller passes in.\<close>

definition ReconcileUpdate ::
  "registry_error + go_server \<Rightarrow> coordinator \<Rightarrow> (registry_error + go_server) \<times> coordinator" where
  "ReconcileUpdate mutated c =
     (case mutated of
        Inl err \<Rightarrow> (Inl err, c)
      | Inr server \<Rightarrow>
          (Inr server, c\<lparr>co_store := store_rename (sv_id server) (sv_name server) (co_store c)\<rparr>))"

definition ReconcileDelete ::
  "int \<Rightarrow> registry_error option \<Rightarrow> coordinator \<Rightarrow> registry_error option \<times> coordinator" where
  "ReconcileDelete serverID mutated c =
     (case mutated of
        Some err \<Rightarrow> (Some err, c)
      | None \<Rightarrow>
          (None, c\<lparr>co_store := store_delete serverID (co_store c),
                   co_history := co_history c @ [HistoryRemove serverID]\<rparr>))"

text \<open>The loop of the sweeper: at each tick of five seconds it sweeps with the time of its clock.\<close>

definition offlineAfter :: int where
  "offlineAfter = 30 * 1000000000"

definition sweeper_tick ::
  "(g_event \<Rightarrow> nat \<Rightarrow> nat \<times> nat) \<Rightarrow> int list \<Rightarrow> int \<Rightarrow> coordinator \<Rightarrow> coordinator" where
  "sweeper_tick race ids now c = snd (co_sweep race ids (now - offlineAfter) c)"

section \<open>The handlers\<close>

text \<open>\<open>strings.Fields\<close>: \<open>word\<close> is the field read so far.\<close>

definition flush_field :: "string \<Rightarrow> string list \<Rightarrow> string list" where
  "flush_field w rest = (if w = '''' then rest else w # rest)"

function fields_from :: "string \<Rightarrow> string \<Rightarrow> string list" where
  "fields_from w s =
     (if s = [] then flush_field w []
      else if space_len s = 0 then fields_from (w @ [hd s]) (tl s)
      else flush_field w (fields_from [] (drop (space_len s) s)))"
  by pat_completeness auto
termination
  by (relation "measure (\<lambda>(w, s). length s)") auto

declare fields_from.simps [simp del]

definition lower_ascii :: "char \<Rightarrow> char" where
  "lower_ascii c = (if code_between 65 90 c then char_of (of_char c + 32 :: nat) else c)"

text \<open>No letter of "Bearer" folds to one outside ASCII, so \<open>EqualFold\<close> compares ASCII here.\<close>

definition bearerToken :: "string \<Rightarrow> string option" where
  "bearerToken header =
     (case fields_from [] header of
        [scheme, token] \<Rightarrow> if map lower_ascii scheme = ''bearer'' then Some token else None
      | _ \<Rightarrow> None)"

definition registry_status :: "registry_error \<Rightarrow> nat" where
  "registry_status err = (case err of InvalidToken \<Rightarrow> 401 | Disabled \<Rightarrow> 403 | _ \<Rightarrow> 500)"

datatype decode_error = TooLarge | Malformed

text \<open>
  \<open>Ingest\<close>, with the status of its response: \<open>auth0\<close> is the answer of the first
  \<open>AuthenticateToken\<close>, \<open>decoded\<close> what decoding the body, and looking for more after it, gives.
\<close>

definition Ingest ::
  "(nat \<Rightarrow> nat \<times> nat) \<Rightarrow> string \<Rightarrow> (string \<Rightarrow> registry_error + go_server) \<Rightarrow> decode_error + g_report \<Rightarrow> int \<Rightarrow>
   string \<Rightarrow> (string \<Rightarrow> registry_error + go_server) \<Rightarrow> registry_error option \<Rightarrow> coordinator \<Rightarrow>
   nat \<times> coordinator" where
  "Ingest race authorization auth0 decoded now source auth updated c =
     (case bearerToken authorization of
        None \<Rightarrow> (401, c)
      | Some token \<Rightarrow>
          (case auth0 token of
             Inl err \<Rightarrow> (registry_status err, c)
           | Inr _ \<Rightarrow>
               (case decoded of
                  Inl TooLarge \<Rightarrow> (413, c)
                | Inl Malformed \<Rightarrow> (400, c)
                | Inr rep \<Rightarrow>
                    if \<not> validateReport rep then (400, c)
                    else (case co_accept race (auth token) updated rep now source c of
                            (Inl err, c') \<Rightarrow> (registry_status err, c')
                          | (Inr _, c') \<Rightarrow> (204, c')))))"

definition empty_report :: g_report where
  "empty_report =
     \<lparr>g_collectedAtUnix = 0, g_agentVersion = '''',
      g_host = \<lparr>g_hostname = '''', g_os = '''', g_platform = '''', g_platformVersion = '''',
                g_kernelVersion = '''', g_architecture = '''', g_cpuModel = '''', g_cpuCores = 0,
                g_primaryIp = '''', g_bootTimeUnix = 0, g_uptimeSeconds = 0\<rparr>,
      g_cpu = \<lparr>g_usagePercent = Fin 0, g_load1 = Fin 0, g_load5 = Fin 0, g_load15 = Fin 0\<rparr>,
      g_memory = \<lparr>g_memTotal = 0, g_memUsed = 0, g_swapTotal = 0, g_swapUsed = 0\<rparr>,
      g_disks = None, g_diskIo = \<lparr>g_readBps = 0, g_writeBps = 0\<rparr>,
      g_network = \<lparr>g_interface = '''', g_uploadBps = 0, g_downloadBps = 0, g_totalUpload = 0,
                   g_totalDownload = 0\<rparr>\<rparr>"

text \<open>The zero \<open>time.Time\<close>, 1 January of year 1.\<close>

definition zero_time :: int where
  "zero_time = - 62135596800 * 1000000000"

definition snapshotFor :: "snapshot_store \<Rightarrow> go_server \<Rightarrow> g_snapshot" where
  "snapshotFor store server =
     (case store_get store (sv_id server) of
        None \<Rightarrow> \<lparr>gs_serverId = sv_id server, gs_serverName = sv_name server, gs_online = False,
                 gs_lastReceivedAt = zero_time, gs_sourceIp = '''', gs_report = empty_report\<rparr>
      | Some snapshot \<Rightarrow>
          snapshot\<lparr>gs_serverId := sv_id server, gs_serverName := sv_name server\<rparr>)"

text \<open>
  The list of \<open>ListStatus\<close>. \<open>sort.Slice\<close> leaves the order of equal elements open; here they keep
  the order of the registry.
\<close>

definition ListStatus :: "go_server list \<Rightarrow> snapshot_store \<Rightarrow> g_snapshot list" where
  "ListStatus registered store =
     sort_key (\<lambda>s. (gs_online s, gs_serverName s)) (map (snapshotFor store) registered)"

section \<open>Runs\<close>

text \<open>
  Everything that can happen to the coordinator and its hub, with arbitrary answers of the
  registry, clocks and interleavings of the streams.
\<close>

inductive server_run :: "coordinator \<Rightarrow> bool" where
  run_start: "server_run \<lparr>co_store = Map.empty, co_hub = NewHub, co_observed = [], co_history = []\<rparr>"
| run_accept: "server_run c \<Longrightarrow> server_run (snd (co_accept race auth updated rep receivedAt src c))"
| run_sweep: "server_run c \<Longrightarrow> distinct ids \<Longrightarrow> server_run (snd (co_sweep races ids cutoff c))"
| run_update: "server_run c \<Longrightarrow> server_run (snd (ReconcileUpdate mutated c))"
| run_delete: "server_run c \<Longrightarrow> server_run (snd (ReconcileDelete serverID deleted c))"
| run_subscribe: "server_run c \<Longrightarrow> server_run (c\<lparr>co_hub := snd (Subscribe (co_hub c))\<rparr>)"
| run_cancel: "server_run c \<Longrightarrow> server_run (c\<lparr>co_hub := cancel i (co_hub c)\<rparr>)"
| run_close: "server_run c \<Longrightarrow> server_run (c\<lparr>co_hub := hub_close (co_hub c)\<rparr>)"
| run_take: "server_run c \<Longrightarrow> server_run (c\<lparr>co_hub := sse_take i (co_hub c)\<rparr>)"

end
