(* ===== verification/LiveServerProps.thy ===== *)
theory LiveServerProps
  imports LiveCoordinator
begin

text \<open>
  What the live part of the server guarantees: the checks on a report, what each stream is
  given of the published events, and how the published events follow the store.
\<close>

section \<open>Reports\<close>

lemma cloneReport_id: "disks_list rep \<noteq> [] \<Longrightarrow> cloneReport rep = rep"
  by (cases "g_disks rep") (auto simp: cloneReport_def disks_list_def split: list.splits)

lemma clone_idem [simp]: "cloneReport (cloneReport rep) = cloneReport rep"
  "cloneSnapshot (cloneSnapshot s) = cloneSnapshot s" "cloneEvent (cloneEvent e) = cloneEvent e"
  by (auto simp: cloneReport_def cloneSnapshot_def cloneEvent_def split: option.splits list.splits)

lemma clone_fields [simp]:
  "gs_serverId (cloneSnapshot s) = gs_serverId s" "gs_serverName (cloneSnapshot s) = gs_serverName s"
  "gs_online (cloneSnapshot s) = gs_online s" "gs_lastReceivedAt (cloneSnapshot s) = gs_lastReceivedAt s"
  "gs_sourceIp (cloneSnapshot s) = gs_sourceIp s" "gs_report (cloneSnapshot s) = cloneReport (gs_report s)"
  "ge_type (cloneEvent e) = ge_type e" "ge_snapshot (cloneEvent e) = cloneSnapshot (ge_snapshot e)"
  by (simp_all add: cloneSnapshot_def cloneEvent_def)

lemma validateReport_disks: "validateReport rep \<Longrightarrow> disks_list rep \<noteq> []"
  by (simp add: validateReport_def split: if_splits)

lemma validateReport_cpu:
  assumes "validateReport rep"
  shows "\<exists>x. g_usagePercent (g_cpu rep) = Fin x \<and> 0 \<le> x \<and> x \<le> 100"
  using assms by (cases "g_usagePercent (g_cpu rep)") (auto simp: validateReport_def split: if_splits)

lemma validateReport_loads:
  assumes "validateReport rep"
  shows "is_finite (g_load1 (g_cpu rep))" "is_finite (g_load5 (g_cpu rep))" "is_finite (g_load15 (g_cpu rep))"
  using assms by (auto simp: validateReport_def split: if_splits)

lemma validateReport_memory:
  assumes "validateReport rep"
  shows "g_memUsed (g_memory rep) \<le> g_memTotal (g_memory rep)"
    "g_swapUsed (g_memory rep) \<le> g_swapTotal (g_memory rep)"
  using assms by (auto simp: validateReport_def not_less split: if_splits)

lemma validateReport_disk:
  assumes "validateReport rep" and "d \<in> set (disks_list rep)"
  shows "g_diskUsed d \<le> g_diskTotal d"
  using assms by (auto simp: validateReport_def list_all_iff not_less split: if_splits)

section \<open>The streams\<close>

lemma receive_keeps [simp]:
  "sub_out (receive sub) @ sub_queue (receive sub) = sub_out sub @ sub_queue sub"
  "sub_open (receive sub) = sub_open sub" "sub_joined (receive sub) = sub_joined sub"
  "length (sub_queue (receive sub)) = length (sub_queue sub) - 1"
  by (auto simp: receive_def split: list.splits)

lemma receives_keep [simp]:
  "sub_out ((receive ^^ n) sub) @ sub_queue ((receive ^^ n) sub) = sub_out sub @ sub_queue sub"
  "sub_open ((receive ^^ n) sub) = sub_open sub" "sub_joined ((receive ^^ n) sub) = sub_joined sub"
  "length (sub_queue ((receive ^^ n) sub)) = length (sub_queue sub) - n"
  by (induction n) auto

text \<open>
  One delivery: the stream's events are a subsequence of what it had and the new event, which
  comes last, and the channel keeps its bound.
\<close>

lemma deliver_keeps [simp]:
  "sub_open (deliver race e sub) = sub_open sub" "sub_joined (deliver race e sub) = sub_joined sub"
  by (auto simp: deliver_def Let_def split: option.splits)

lemma deliver_stream:
  assumes "length (sub_queue sub) \<le> subscriberCapacity"
  shows "subseq (sub_out (deliver race e sub) @ sub_queue (deliver race e sub))
           (sub_out sub @ sub_queue sub @ [e])"
    and "last (sub_queue (deliver race e sub)) = e" and "sub_queue (deliver race e sub) \<noteq> []"
    and "length (sub_queue (deliver race e sub)) \<le> subscriberCapacity"
proof -
  let ?d = "deliver race e sub"
  have "subseq (sub_out ?d @ sub_queue ?d) (sub_out sub @ sub_queue sub @ [e]) \<and>
      last (sub_queue ?d) = e \<and> sub_queue ?d \<noteq> [] \<and> length (sub_queue ?d) \<le> subscriberCapacity"
  proof (cases "length (sub_queue sub) < subscriberCapacity")
    case True
    then show ?thesis by (simp add: deliver_def try_send_def)
  next
    case False
    define s1 where "s1 = (receive ^^ fst race) sub"
    define s2 where "s2 = s1\<lparr>sub_queue := tl (sub_queue s1)\<rparr>"
    define s3 where "s3 = (receive ^^ snd race) s2"
    have room: "length (sub_queue s3) < subscriberCapacity"
      using assms by (simp add: s3_def s2_def s1_def subscriberCapacity_def)
    have d: "?d = s3\<lparr>sub_queue := sub_queue s3 @ [e]\<rparr>"
      using False room by (simp add: deliver_def try_send_def s1_def s2_def s3_def Let_def)
    have "sub_out s3 @ sub_queue s3 = sub_out s1 @ tl (sub_queue s1)"
      using receives_keep(1) [of "snd race" s2] by (simp add: s3_def s2_def)
    moreover have "subseq (tl (sub_queue s1)) (sub_queue s1)"
      by (cases "sub_queue s1") auto
    then have "subseq (sub_out s1 @ tl (sub_queue s1)) (sub_out s1 @ sub_queue s1)"
      by (intro list_emb_append_mono) simp_all
    moreover have "sub_out s1 @ sub_queue s1 = sub_out sub @ sub_queue sub"
      by (simp add: s1_def)
    ultimately have "subseq (sub_out s3 @ sub_queue s3) (sub_out sub @ sub_queue sub)" by simp
    then have "subseq ((sub_out s3 @ sub_queue s3) @ [e]) ((sub_out sub @ sub_queue sub) @ [e])"
      by (rule list_emb_append_mono) simp
    then show ?thesis using room by (simp add: d)
  qed
  then show "subseq (sub_out ?d @ sub_queue ?d) (sub_out sub @ sub_queue sub @ [e])"
    and "last (sub_queue ?d) = e" and "sub_queue ?d \<noteq> []"
    and "length (sub_queue ?d) \<le> subscriberCapacity" by blast+
qed

definition stream_ok :: "g_event list \<Rightarrow> subscriber \<Rightarrow> bool" where
  "stream_ok published sub \<longleftrightarrow>
     sub_joined sub \<le> length published \<and>
     subseq (sub_out sub @ sub_queue sub) (drop (sub_joined sub) published) \<and>
     length (sub_queue sub) \<le> subscriberCapacity \<and>
     (sub_open sub \<longrightarrow> sub_joined sub < length published \<longrightarrow>
        sub_out sub @ sub_queue sub \<noteq> [] \<and> last (sub_out sub @ sub_queue sub) = last published)"

lemma stream_ok_receive: "stream_ok published sub \<Longrightarrow> stream_ok published (receive sub)"
  unfolding stream_ok_def receive_keeps by auto

lemma stream_ok_close: "stream_ok published sub \<Longrightarrow> stream_ok published (sub\<lparr>sub_open := False\<rparr>)"
  by (simp add: stream_ok_def)

lemma stream_ok_idle: "stream_ok published sub \<Longrightarrow> \<not> sub_open sub \<Longrightarrow> stream_ok (published @ [e]) sub"
  by (auto simp: stream_ok_def)

lemma stream_ok_deliver:
  assumes "stream_ok published sub"
  shows "stream_ok (published @ [e]) (deliver race e sub)"
proof -
  let ?d = "deliver race e sub"
  note d = deliver_stream [of sub race e]
  have cap: "length (sub_queue sub) \<le> subscriberCapacity" using assms by (simp add: stream_ok_def)
  have "subseq (sub_out ?d @ sub_queue ?d) ((sub_out sub @ sub_queue sub) @ [e])"
    using d(1) [OF cap] by simp
  also have "subseq ((sub_out sub @ sub_queue sub) @ [e]) (drop (sub_joined sub) published @ [e])"
    using assms by (intro list_emb_append_mono) (simp_all add: stream_ok_def)
  finally show ?thesis
    using assms d(2-4) [OF cap] by (simp add: stream_ok_def)
qed

definition hub_ok :: "hub \<Rightarrow> bool" where
  "hub_ok h \<longleftrightarrow> (\<forall>i sub. hub_subs h i = Some sub \<longrightarrow> stream_ok (hub_log h) sub)"

lemma hub_ok_Publish: "hub_ok h \<Longrightarrow> hub_ok (Publish race e h)"
  by (auto simp: hub_ok_def Publish_def intro: stream_ok_deliver stream_ok_idle)

lemma hub_ok_others:
  assumes "hub_ok h"
  shows "hub_ok (snd (Subscribe h))" "hub_ok (cancel i h)" "hub_ok (hub_close h)" "hub_ok (sse_take i h)"
proof -
  show "hub_ok (snd (Subscribe h))"
    using assms by (auto simp: hub_ok_def Subscribe_def stream_ok_def subscriberCapacity_def split: if_splits)
  show "hub_ok (cancel i h)" "hub_ok (hub_close h)" "hub_ok (sse_take i h)"
    using assms by (auto simp: hub_ok_def cancel_def hub_close_def sse_take_def stream_ok_close stream_ok_receive
        split: if_splits)
qed

section \<open>The coordinator\<close>

text \<open>What one sweep does: it takes exactly the servers that are due offline, once each.\<close>

definition due :: "int \<Rightarrow> snapshot_store \<Rightarrow> int \<Rightarrow> bool" where
  "due cutoff store i =
     (case store i of None \<Rightarrow> False | Some s \<Rightarrow> gs_online s \<and> gs_lastReceivedAt s < cutoff)"

definition gone_offline :: "snapshot_store \<Rightarrow> int \<Rightarrow> g_snapshot" where
  "gone_offline store i = (the (store i))\<lparr>gs_online := False\<rparr>"

lemma due_upd [simp]: "j \<noteq> i \<Longrightarrow> due cutoff (store(i \<mapsto> s)) j = due cutoff store j"
  by (simp add: due_def)

lemma gone_offline_upd [simp]: "j \<noteq> i \<Longrightarrow> gone_offline (store(i \<mapsto> s)) j = gone_offline store j"
  by (simp add: gone_offline_def)

lemma MarkOffline_eq:
  assumes "distinct ids"
  shows "MarkOffline ids cutoff store =
    (map (cloneSnapshot \<circ> gone_offline store) (filter (due cutoff store) ids),
     \<lambda>i. if i \<in> set ids \<and> due cutoff store i then Some (gone_offline store i) else store i)"
  using assms
proof (induction ids arbitrary: store)
  case (Cons i ids)
  have same: "map (cloneSnapshot \<circ> gone_offline (store(i \<mapsto> s))) (filter (due cutoff (store(i \<mapsto> s))) ids) =
      map (cloneSnapshot \<circ> gone_offline store) (filter (due cutoff store) ids)" for s
  proof -
    have "filter (due cutoff (store(i \<mapsto> s))) ids = filter (due cutoff store) ids"
      using Cons.prems by (intro filter_cong) (auto simp: due_def)
    then show ?thesis using Cons.prems by (auto simp: gone_offline_def)
  qed
  show ?case
  proof (cases "due cutoff store i")
    case True
    then obtain s where s: "store i = Some s" "gs_online s" "gs_lastReceivedAt s < cutoff"
      by (auto simp: due_def split: option.splits)
    then have "gone_offline store i = s\<lparr>gs_online := False\<rparr>" by (simp add: gone_offline_def)
    then have head: "MarkOffline (i # ids) cutoff store =
        (let (changed, store') = MarkOffline ids cutoff (store(i \<mapsto> gone_offline store i))
         in (cloneSnapshot (gone_offline store i) # changed, store'))"
      using s by (simp add: Let_def)
    have rest: "MarkOffline ids cutoff (store(i \<mapsto> gone_offline store i)) =
        (map (cloneSnapshot \<circ> gone_offline store) (filter (due cutoff store) ids),
         \<lambda>j. if j \<in> set ids \<and> due cutoff store j then Some (gone_offline store j)
             else (store(i \<mapsto> gone_offline store i)) j)"
    proof -
      let ?st = "store(i \<mapsto> gone_offline store i)"
      have "(if j \<in> set ids \<and> due cutoff ?st j then Some (gone_offline ?st j) else ?st j) =
          (if j \<in> set ids \<and> due cutoff store j then Some (gone_offline store j) else ?st j)" for j
        using Cons.prems by (cases "j = i") simp_all
      moreover have "distinct ids" using Cons.prems by simp
      ultimately show ?thesis by (simp only: Cons.IH same)
    qed
    show ?thesis
      unfolding head rest using True Cons.prems by (auto simp: Let_def fun_eq_iff)
  next
    case False
    then show ?thesis using Cons by (auto simp: due_def fun_eq_iff split: option.splits)
  qed
qed (simp add: fun_eq_iff)

lemma co_publish_fields [simp]:
  "co_store (co_publish race e c) = co_store c" "co_history (co_publish race e c) = co_history c"
  "co_observed (co_publish race e c) = co_observed c @ [e]"
  "co_hub (co_publish race e c) = Publish race e (co_hub c)"
  by (simp_all add: co_publish_def)

lemma publish_all_fields:
  "co_store (fold (\<lambda>s. co_publish (race s) (ev s)) xs c) = co_store c"
  "co_history (fold (\<lambda>s. co_publish (race s) (ev s)) xs c) = co_history c"
  "co_observed (fold (\<lambda>s. co_publish (race s) (ev s)) xs c) = co_observed c @ map ev xs"
  "hub_ok (co_hub c) \<Longrightarrow> hub_ok (co_hub (fold (\<lambda>s. co_publish (race s) (ev s)) xs c))"
  by (induction xs arbitrary: c) (simp_all add: hub_ok_Publish)

lemma co_sweep_fields:
  assumes "distinct ids"
  shows "co_store (snd (co_sweep races ids cutoff c)) =
      (\<lambda>i. if i \<in> set ids \<and> due cutoff (co_store c) i then Some (gone_offline (co_store c) i)
           else co_store c i)"
    "co_observed (snd (co_sweep races ids cutoff c)) =
      co_observed c @ map (\<lambda>i. offline_event (cloneSnapshot (gone_offline (co_store c) i)))
        (filter (due cutoff (co_store c)) ids)"
    "hub_ok (co_hub c) \<Longrightarrow> hub_ok (co_hub (snd (co_sweep races ids cutoff c)))"
  by (simp_all add: co_sweep_def MarkOffline_eq [OF assms] publish_all_fields comp_def)

lemma co_accept_fields:
  "co_accept race (Inl err) updated rep t src c = (Inl err, c)"
  "co_accept race (Inr server) (Some err) rep t src c = (Inl err, c)"
  "co_store (snd (co_accept race (Inr server) None rep t src c)) =
     snd (UpsertFrom server rep t src (co_store c))"
  "co_observed (snd (co_accept race (Inr server) None rep t src c)) =
     co_observed c @ [\<lparr>ge_type = SnapshotUpdated, ge_snapshot = fst (UpsertFrom server rep t src (co_store c))\<rparr>]"
  "co_history (snd (co_accept race (Inr server) None rep t src c)) =
     co_history c @ [HistoryAccept (sv_id server) rep t]"
  "hub_ok (co_hub c) \<Longrightarrow> hub_ok (co_hub (snd (co_accept race auth updated rep t src c)))"
  by (auto simp: co_accept_def UpsertFrom_def Let_def intro: hub_ok_Publish split: sum.split option.split)

lemma server_run_hub: "server_run c \<Longrightarrow> hub_ok (co_hub c)"
proof (induction rule: server_run.induct)
  case run_start
  show ?case by (simp add: hub_ok_def NewHub_def)
next
  case (run_update c mutated)
  then show ?case by (auto simp: ReconcileUpdate_def split: sum.split)
next
  case (run_delete c serverID deleted)
  then show ?case by (auto simp: ReconcileDelete_def split: option.split)
qed (simp_all add: co_accept_fields co_sweep_fields hub_ok_others)

text \<open>The events of one server, and how they follow its snapshot in the store.\<close>

definition server_events :: "int \<Rightarrow> g_event list \<Rightarrow> g_event list" where
  "server_events i es = filter (\<lambda>e. gs_serverId (ge_snapshot e) = i) es"

definition follows_store :: "g_event list \<Rightarrow> g_snapshot \<Rightarrow> bool" where
  "follows_store es s \<longleftrightarrow>
     es \<noteq> [] \<and> ge_type (last es) = (if gs_online s then SnapshotUpdated else SnapshotOffline) \<and>
     (ge_snapshot (last es))\<lparr>gs_serverName := gs_serverName s\<rparr> = cloneSnapshot s"

definition outages_ok :: "g_event list \<Rightarrow> bool" where
  "outages_ok es \<longleftrightarrow>
     (es \<noteq> [] \<longrightarrow> ge_type (hd es) = SnapshotUpdated) \<and>
     successively (\<lambda>e f. ge_type e = SnapshotUpdated \<or> ge_type f = SnapshotUpdated) es"

definition events_ok :: "coordinator \<Rightarrow> bool" where
  "events_ok c \<longleftrightarrow>
     (\<forall>i. outages_ok (server_events i (co_observed c)) \<and>
          (\<forall>s. co_store c i = Some s \<longrightarrow>
             gs_serverId s = i \<and> follows_store (server_events i (co_observed c)) s))"

lemma outages_ok_updated: "outages_ok es \<Longrightarrow> ge_type e = SnapshotUpdated \<Longrightarrow> outages_ok (es @ [e])"
  unfolding outages_ok_def successively_append_iff by (cases es) simp_all

lemma outages_ok_offline:
  "outages_ok es \<Longrightarrow> es \<noteq> [] \<Longrightarrow> ge_type (last es) = SnapshotUpdated \<Longrightarrow> outages_ok (es @ [e])"
  unfolding outages_ok_def successively_append_iff by simp

lemma server_events_append [simp]:
  "server_events i (es @ fs) = server_events i es @ server_events i fs"
  "server_events i [e] = (if gs_serverId (ge_snapshot e) = i then [e] else [])" "server_events i [] = []"
  by (simp_all add: server_events_def)

lemma offline_event_fields [simp]:
  "ge_type (offline_event s) = SnapshotOffline" "ge_snapshot (offline_event s) = s"
  by (simp_all add: offline_event_def)

lemma gone_offline_fields:
  assumes "store i = Some s"
  shows "gs_serverId (gone_offline store i) = gs_serverId s" "gs_serverName (gone_offline store i) = gs_serverName s"
    "gs_online (gone_offline store i) = False"
  using assms by (simp_all add: gone_offline_def)

lemma sweep_server_events:
  assumes "distinct ids" and "\<And>j s. store j = Some s \<Longrightarrow> gs_serverId s = j"
  shows "server_events i (map (\<lambda>i. offline_event (cloneSnapshot (gone_offline store i))) (filter (due cutoff store) ids)) =
    (if i \<in> set ids \<and> due cutoff store i then [offline_event (cloneSnapshot (gone_offline store i))] else [])"
  using assms(1)
proof (induction ids)
  case (Cons j ids)
  have "due cutoff store j \<Longrightarrow> gs_serverId (gone_offline store j) = j"
    using assms(2) [of j] by (auto simp: due_def gone_offline_def split: option.splits)
  with Cons show ?case by (auto simp: server_events_def)
qed simp

lemma events_ok_accept:
  assumes "events_ok c"
  shows "events_ok (snd (co_accept race auth updated rep t src c))"
proof (cases auth)
  case (Inr server)
  show ?thesis
  proof (cases updated)
    case None
    have "ge_type \<lparr>ge_type = SnapshotUpdated, ge_snapshot = s\<rparr> = SnapshotUpdated" for s by simp
    with assms show ?thesis
      unfolding events_ok_def Inr None co_accept_fields
      by (auto simp: UpsertFrom_def Let_def follows_store_def cloneSnapshot_def intro: outages_ok_updated)
  qed (use assms in \<open>simp add: Inr co_accept_fields\<close>)
qed (use assms in \<open>simp add: co_accept_fields\<close>)

lemma events_ok_sweep:
  assumes "events_ok c" and ids: "distinct ids"
  shows "events_ok (snd (co_sweep races ids cutoff c))"
proof -
  let ?st = "co_store c" and ?ev = "\<lambda>i. server_events i (co_observed c)"
  have own: "\<And>j s. ?st j = Some s \<Longrightarrow> gs_serverId s = j"
    using assms(1) by (simp add: events_ok_def)
  have "outages_ok (?ev i @ (if i \<in> set ids \<and> due cutoff ?st i
            then [offline_event (cloneSnapshot (gone_offline ?st i))] else []))" for i
  proof (cases "i \<in> set ids \<and> due cutoff ?st i")
    case True
    then obtain s where "?st i = Some s" "gs_online s" by (auto simp: due_def split: option.splits)
    then have "?ev i \<noteq> []" "ge_type (last (?ev i)) = SnapshotUpdated"
      using assms(1) by (auto simp: events_ok_def follows_store_def)
    then show ?thesis using True assms(1) by (simp add: events_ok_def outages_ok_offline)
  next
    case False
    then have "(if i \<in> set ids \<and> due cutoff ?st i then [offline_event (cloneSnapshot (gone_offline ?st i))] else []) = []"
      by auto
    then show ?thesis using assms(1) by (simp only: events_ok_def append_Nil2)
  qed
  moreover have "gs_serverId s = i \<and> follows_store (?ev i @ (if i \<in> set ids \<and> due cutoff ?st i
            then [offline_event (cloneSnapshot (gone_offline ?st i))] else [])) s"
    if "(if i \<in> set ids \<and> due cutoff ?st i then Some (gone_offline ?st i) else ?st i) = Some s" for i s
  proof (cases "i \<in> set ids \<and> due cutoff ?st i")
    case True
    then obtain s0 where s0: "?st i = Some s0" by (auto simp: due_def split: option.splits)
    then show ?thesis
      using that own [OF s0] gone_offline_fields [of ?st, OF s0] True
      by (auto simp: follows_store_def cloneSnapshot_def)
  next
    case False
    then show ?thesis using that assms(1) by (auto simp: events_ok_def)
  qed
  moreover have "server_events i (map (\<lambda>i. offline_event (cloneSnapshot (gone_offline ?st i))) (filter (due cutoff ?st) ids)) =
      (if i \<in> set ids \<and> due cutoff ?st i then [offline_event (cloneSnapshot (gone_offline ?st i))] else [])" for i
    using ids own by (rule sweep_server_events)
  ultimately show ?thesis
    by (simp only: events_ok_def co_sweep_fields(1,2) [OF ids] server_events_append(1)) blast
qed

lemma follows_store_rename:
  assumes "follows_store es s"
  shows "follows_store es (s\<lparr>gs_serverName := n\<rparr>)"
proof -
  have "(ge_snapshot (last es))\<lparr>gs_serverName := gs_serverName s\<rparr> = cloneSnapshot s"
    using assms by (simp add: follows_store_def)
  then have "(ge_snapshot (last es))\<lparr>gs_serverName := gs_serverName s\<rparr>\<lparr>gs_serverName := n\<rparr> =
      (cloneSnapshot s)\<lparr>gs_serverName := n\<rparr>" by (rule arg_cong)
  then show ?thesis using assms by (simp add: follows_store_def cloneSnapshot_def)
qed

lemma events_ok_update: "events_ok c \<Longrightarrow> events_ok (snd (ReconcileUpdate mutated c))"
  by (auto simp: events_ok_def ReconcileUpdate_def store_rename_def follows_store_rename
      split: sum.split option.split)

lemma events_ok_delete: "events_ok c \<Longrightarrow> events_ok (snd (ReconcileDelete serverID deleted c))"
  by (auto simp: events_ok_def ReconcileDelete_def store_delete_def split: option.split)

lemma server_run_events: "server_run c \<Longrightarrow> events_ok c"
proof (induction rule: server_run.induct)
  case run_start
  show ?case by (simp add: events_ok_def outages_ok_def)
qed (simp_all add: events_ok_accept events_ok_sweep events_ok_update events_ok_delete,
     simp_all add: events_ok_def)

section \<open>A report to evaluate the model on\<close>

definition sample_go_report :: g_report where
  "sample_go_report =
     \<lparr>g_collectedAtUnix = 1753588800, g_agentVersion = ''0.1.0'',
      g_host = \<lparr>g_hostname = ''home-lab'', g_os = ''linux'', g_platform = ''ubuntu'',
                g_platformVersion = ''24.04'', g_kernelVersion = ''6.8.0'', g_architecture = ''amd64'',
                g_cpuModel = ''Tiny CPU'', g_cpuCores = 4, g_primaryIp = ''192.0.2.10'',
                g_bootTimeUnix = 1752724800, g_uptimeSeconds = 864000\<rparr>,
      g_cpu = \<lparr>g_usagePercent = Fin 95, g_load1 = Fin 1, g_load5 = Fin 0, g_load15 = Fin 0\<rparr>,
      g_memory = \<lparr>g_memTotal = 8589934592, g_memUsed = 4294967296, g_swapTotal = 2147483648,
                  g_swapUsed = 536870912\<rparr>,
      g_disks = Some [\<lparr>g_mountpoint = ''/'', g_diskTotal = 400, g_diskUsed = 200\<rparr>],
      g_diskIo = \<lparr>g_readBps = 1024, g_writeBps = 2048\<rparr>,
      g_network = \<lparr>g_interface = ''eth0'', g_uploadBps = 4096, g_downloadBps = 8192,
                   g_totalUpload = 10737418240, g_totalDownload = 21474836480\<rparr>\<rparr>"

definition sample_go_snapshot :: g_snapshot where
  "sample_go_snapshot =
     \<lparr>gs_serverId = 3, gs_serverName = ''home-lab'', gs_online = True,
      gs_lastReceivedAt = 1753588800 * 1000000000, gs_sourceIp = ''192.0.2.10'',
      gs_report = sample_go_report\<rparr>"

lemma blank_letter: "space_len (c # s) = 0 \<Longrightarrow> \<not> blank (c # s)"
  by (simp add: blank.simps)

lemma sample_go_valid: "validateReport (gs_report sample_go_snapshot)"
proof -
  have "\<not> blank ''home-lab''" "\<not> blank ''/''"
    by (rule blank_letter, simp add: space_len_def code_between_def)+
  then show ?thesis
    by (simp add: sample_go_snapshot_def sample_go_report_def validateReport_def disks_list_def)
qed

section \<open>The hub and the observers\<close>

lemma hub_log_publish_all:
  "hub_closed (co_hub (fold (\<lambda>s. co_publish (race s) (ev s)) xs c)) = hub_closed (co_hub c)"
  "\<not> hub_closed (co_hub c) \<Longrightarrow>
     hub_log (co_hub (fold (\<lambda>s. co_publish (race s) (ev s)) xs c)) = hub_log (co_hub c) @ map (cloneEvent \<circ> ev) xs"
  by (induction xs arbitrary: c) (auto simp: Publish_def)

lemma hub_log_observed:
  "server_run c \<Longrightarrow> \<not> hub_closed (co_hub c) \<Longrightarrow> hub_log (co_hub c) = map cloneEvent (co_observed c)"
proof (induction rule: server_run.induct)
  case (run_accept c race auth updated rep receivedAt src)
  then show ?case
    by (auto simp: co_accept_def UpsertFrom_def Let_def Publish_def split: sum.splits option.splits)
next
  case (run_sweep c ids races cutoff)
  then show ?case
    by (auto simp: co_sweep_def MarkOffline_eq publish_all_fields hub_log_publish_all comp_def)
qed (auto simp: NewHub_def ReconcileUpdate_def ReconcileDelete_def Subscribe_def cancel_def hub_close_def
    sse_take_def split: sum.splits option.splits)

section \<open>The properties\<close>

text \<open>
  C19: Whatever happens, each event stream gets the events published since it was opened in their
  order, none twice; at most eight wait in its channel; and while it is open, the last event it has
  taken or will take is the last one published: a slow stream loses old events, never the newest.
\<close>

theorem streams_in_order:
  assumes "server_run c" and "hub_subs (co_hub c) i = Some sub"
  shows "subseq (sub_out sub @ sub_queue sub) (drop (sub_joined sub) (hub_log (co_hub c))) \<and>
    length (sub_queue sub) \<le> 8 \<and>
    (sub_open sub \<and> sub_joined sub < length (hub_log (co_hub c)) \<longrightarrow>
       sub_out sub @ sub_queue sub \<noteq> [] \<and> last (sub_out sub @ sub_queue sub) = last (hub_log (co_hub c)))"
  using server_run_hub [OF assms(1)] assms(2) by (auto simp: hub_ok_def stream_ok_def subscriberCapacity_def)

definition sample_server :: go_server where
  "sample_server = \<lparr>sv_id = 3, sv_name = ''home-lab'', sv_enabled = True, sv_agentVersion = ''1.2.0'',
                    sv_createdAt = 0, sv_updatedAt = 0\<rparr>"

lemma sample_server_fields [simp]: "sv_id sample_server = 3" "sv_name sample_server = ''home-lab''"
  by (simp_all add: sample_server_def)

definition sample_live :: coordinator where
  "sample_live =
     (let c0 = \<lparr>co_store = Map.empty, co_hub = NewHub, co_observed = [], co_history = []\<rparr>;
          c1 = c0\<lparr>co_hub := snd (Subscribe (co_hub c0))\<rparr>
      in snd (co_accept (\<lambda>i. (0, 0)) (Inr sample_server) None sample_go_report
                (1753588800 * 1000000000) ''192.0.2.10'' c1))"

lemma sample_live_run: "server_run sample_live"
  unfolding sample_live_def Let_def by (intro server_run.intros)

lemma sample_live_sub:
  "hub_subs (co_hub sample_live) 0 =
     Some \<lparr>sub_open = True, sub_queue = [\<lparr>ge_type = SnapshotUpdated, ge_snapshot = sample_go_snapshot\<rparr>],
           sub_out = [], sub_joined = 0\<rparr>"
  by (simp add: sample_live_def co_accept_def UpsertFrom_def Subscribe_def NewHub_def Publish_def Let_def
      deliver_def try_send_def subscriberCapacity_def cloneEvent_def cloneSnapshot_def cloneReport_def
      sample_go_snapshot_def sample_go_report_def)

theorem streams_in_order_witness:
  "subseq [\<lparr>ge_type = SnapshotUpdated, ge_snapshot = sample_go_snapshot\<rparr>] (hub_log (co_hub sample_live))"
  using streams_in_order [OF sample_live_run sample_live_sub] by simp

text \<open>
  C20: An outage is published once: of one server's events the first is an update and between two
  offline events there is an update. And the published events follow the store: the last event of a
  server that is in the store says online or offline as the store does, with the store's snapshot
  up to a later change of the server's name.
\<close>

theorem outages_published_once:
  assumes "server_run c"
  shows "outages_ok (server_events i (co_observed c)) \<and>
    (case co_store c i of
       None \<Rightarrow> True
     | Some s \<Rightarrow> gs_serverId s = i \<and> follows_store (server_events i (co_observed c)) s)"
  using server_run_events [OF assms] by (simp add: events_ok_def split: option.split)

theorem outages_published_once_witness: "outages_ok (server_events 3 (co_observed sample_live))"
  using outages_published_once [OF sample_live_run, of 3] by simp

text \<open>
  C24: A report has an effect exactly when it is answered with 204: its token is one bearer token that
  the registry accepts before and after the body is read, and the report passes the checks. Then the
  server is online in the store with this report, and the event and the call to the history go out
  once; any other answer leaves everything as it was.
\<close>

theorem ingest_all_or_nothing:
  "let (status, c') = Ingest race authorization auth0 decoded now src auth updated c
   in (case bearerToken authorization of
         None \<Rightarrow> status = 401 \<and> c' = c
       | Some token \<Rightarrow>
           (case (auth0 token, decoded, auth token, updated) of
              (Inr _, Inr rep, Inr server, None) \<Rightarrow>
                if validateReport rep
                then status = 204 \<and> co_history c' = co_history c @ [HistoryAccept (sv_id server) rep now] \<and>
                     co_store c' = (co_store c)(sv_id server \<mapsto>
                       \<lparr>gs_serverId = sv_id server, gs_serverName = sv_name server, gs_online = True,
                        gs_lastReceivedAt = now, gs_sourceIp = src, gs_report = rep\<rparr>) \<and>
                     co_observed c' = co_observed c @ [\<lparr>ge_type = SnapshotUpdated,
                       ge_snapshot = the (co_store c' (sv_id server))\<rparr>]
                else status = 400 \<and> c' = c
            | _ \<Rightarrow> status \<in> {400, 401, 403, 413, 500} \<and> c' = c))"
  using cloneReport_id validateReport_disks
  by (auto simp: Ingest_def co_accept_def UpsertFrom_def Let_def registry_status_def cloneSnapshot_def
      split: option.split sum.split decode_error.split registry_error.split)

end
