(* ===== verification/AlertEvaluator.thy ===== *)
theory AlertEvaluator
  imports AlertsServer AlertMachine LiveServerProps
begin

text \<open>
  \<^verbatim>\<open>internal/alerting\<close> beyond its handlers: \<^verbatim>\<open>metrics.go\<close>, the evaluator of \<^verbatim>\<open>evaluator.go\<close> with the
  operations of \<^verbatim>\<open>repository.go\<close> that it calls, and the dispatcher of \<^verbatim>\<open>dispatcher.go\<close>. The
  database is the five tables of \<^verbatim>\<open>migrations/003_alerting.sql\<close>, the rows in the order of their ids, with
  the next value of each \<open>AUTOINCREMENT\<close>; a call to it fails when the parameter \<open>world\<close> says so.
\<close>

section \<open>Metrics\<close>

definition memory_percent :: "g_report \<Rightarrow> jsnum" where
  "memory_percent rep =
     (if g_memTotal (g_memory rep) = 0 then Fin 0
      else js_mul (js_div (float_of (g_memUsed (g_memory rep))) (float_of (g_memTotal (g_memory rep)))) (Fin 100))"

definition disk_percent :: "g_report \<Rightarrow> jsnum" where
  "disk_percent rep =
     foldl (\<lambda>acc disk.
         if g_diskTotal disk = 0 then acc
         else math_max acc
           (js_mul (js_div (float_of (g_diskUsed disk)) (float_of (g_diskTotal disk))) (Fin 100)))
       (Fin 0) (disks_list rep)"

text \<open>The subtraction is one of \<open>uint64\<close>, so it wraps around.\<close>

definition disk_free :: "g_report \<Rightarrow> jsnum" where
  "disk_free rep =
     (let least = foldl (\<lambda>acc disk. math_min acc (float_of (g_diskTotal disk - g_diskUsed disk))) PosInf
                    (disks_list rep)
      in if least = PosInf then Fin 0 else least)"

definition MetricValue :: "g_snapshot \<Rightarrow> string \<Rightarrow> jsnum" where
  "MetricValue snapshot metric =
     (if metric = ''offline'' then (if gs_online snapshot then Fin 0 else Fin 1)
      else if metric = ''cpu_usage'' then g_usagePercent (g_cpu (gs_report snapshot))
      else if metric = ''memory_usage'' then memory_percent (gs_report snapshot)
      else if metric = ''disk_usage'' then disk_percent (gs_report snapshot)
      else if metric = ''disk_free_bytes'' then disk_free (gs_report snapshot)
      else Fin 0)"

definition breached :: "jsnum \<Rightarrow> go_rule \<Rightarrow> bool" where
  "breached v rule =
     (if gr_operator rule = ''gt'' then js_lt (Fin (gr_threshold rule)) v
      else if gr_operator rule = ''lt'' then js_lt v (Fin (gr_threshold rule))
      else False)"

text \<open>A \<open>time.Duration\<close> is an \<open>int64\<close>, whose product wraps around.\<close>

definition nanoseconds :: "int \<Rightarrow> int" where
  "nanoseconds seconds = (seconds * 1000000000 + 2 ^ 63) mod 2 ^ 64 - 2 ^ 63"

definition durationForRule :: "go_rule \<Rightarrow> int" where
  "durationForRule rule =
     (if gr_metric rule = ''offline'' then 0 else nanoseconds (gr_durationSeconds rule))"

section \<open>The database\<close>

record go_event =
  ae_id :: int
  ae_ruleId :: int
  ae_serverId :: int
  ae_status :: "alert_status option"
  ae_currentValue :: "jsnum option"
  ae_threshold :: "rat option"
  ae_startedAt :: int
  ae_endedAt :: "int option"
  ae_createdAt :: "int option"

text \<open>\<open>None\<close> as the time of creation is the zero time of an event that is not stored yet.\<close>

record attempt_result =
  at_responseStatus :: "int option"
  at_errorText :: string

text \<open>An attempt before it is stored, and its row: the id and the time it was sent at.\<close>

record go_attempt =
  ga_eventId :: "int option"
  ga_isTest :: bool
  ga_attempt :: int
  ga_result :: attempt_result

record attempt_row =
  wr_id :: int
  wr_attempt :: go_attempt
  wr_sentAt :: int

text \<open>The times of a configuration that is not stored are the zero time, \<open>None\<close>.\<close>

record go_webhook =
  gw_url :: string
  gw_headers :: headers
  gw_bodyTemplate :: string
  gw_enabled :: bool
  gw_createdAt :: "int option"
  gw_updatedAt :: "int option"

text \<open>\<open>db_ruleTimes\<close> are the columns \<open>created_at\<close> and \<open>updated_at\<close> of a rule.\<close>

record alert_db =
  db_rules :: "(int \<times> go_rule) list"
  db_ruleTimes :: "int \<Rightarrow> int \<times> int"
  db_states :: "int \<rightharpoonup> rule_state"
  db_events :: "go_event list"
  db_attempts :: "attempt_row list"
  db_webhook :: "go_webhook option"
  db_nextRule :: int
  db_nextEvent :: int
  db_nextAttempt :: int

definition empty_alert_db :: alert_db where
  "empty_alert_db =
     \<lparr>db_rules = [], db_ruleTimes = (\<lambda>i. (0, 0)), db_states = Map.empty, db_events = [], db_attempts = [],
      db_webhook = None, db_nextRule = 1, db_nextEvent = 1, db_nextAttempt = 1\<rparr>"

text \<open>Which calls fail, and what the clocks of the evaluator and of the repository show for a rule.\<close>

record world =
  list_fails :: bool
  get_fails :: "int \<Rightarrow> bool"
  save_fails :: "int \<Rightarrow> bool"
  webhook_fails :: bool
  eval_clock :: "int \<Rightarrow> int"
  save_clock :: "int \<Rightarrow> int"

datatype alerting_error = ErrInvalidInput | ErrNotFound | ErrStore

definition ListEnabledRulesForServer :: "world \<Rightarrow> int \<Rightarrow> alert_db \<Rightarrow> alerting_error + (int \<times> go_rule) list" where
  "ListEnabledRulesForServer w serverID db =
     (if serverID < 1 then Inl ErrInvalidInput
      else if list_fails w then Inl ErrStore
      else Inr (filter (\<lambda>(i, rule). gr_serverId rule = serverID \<and> gr_enabled rule) (db_rules db)))"

definition GetState :: "world \<Rightarrow> int \<Rightarrow> alert_db \<Rightarrow> alerting_error + rule_state" where
  "GetState w ruleID db =
     (if ruleID < 1 then Inl ErrInvalidInput
      else if get_fails w ruleID then Inl ErrStore
      else case db_states db ruleID of
             None \<Rightarrow> Inl ErrNotFound
           | Some st \<Rightarrow> if validStatus (as_status st) then Inr st else Inl ErrStore)"

text \<open>
  The zero \<open>Event\<close> that a save without an event returns is \<open>None\<close>. The foreign keys refuse the state
  and the event of a rule that has been removed; that of the event's server is a reason for \<open>save_fails\<close>.
\<close>

definition SaveStateAndEvent ::
  "world \<Rightarrow> rule_state \<Rightarrow> go_event option \<Rightarrow> alert_db \<Rightarrow> alerting_error + (go_event option \<times> alert_db)" where
  "SaveStateAndEvent w state event db =
     (if as_ruleId state < 1 \<or> \<not> validStatus (as_status state) then Inl ErrInvalidInput
      else if (case event of
                 None \<Rightarrow> False
               | Some e \<Rightarrow> ae_ruleId e < 1 \<or> ae_serverId e < 1 \<or> \<not> validStatus (ae_status e))
      then Inl ErrInvalidInput
      else if save_fails w (as_ruleId state) \<or> as_ruleId state \<notin> fst ` set (db_rules db) \<or>
              (case event of None \<Rightarrow> False | Some e \<Rightarrow> ae_ruleId e \<notin> fst ` set (db_rules db))
      then Inl ErrStore
      else let now = save_clock w (as_ruleId state);
               db1 = db\<lparr>db_states := (db_states db)(as_ruleId state \<mapsto> state\<lparr>as_updatedAt := now\<rparr>)\<rparr>
           in case event of
                None \<Rightarrow> Inr (None, db1)
              | Some e \<Rightarrow>
                  let e1 = e\<lparr>ae_createdAt := Some (nullish (ae_createdAt e) now), ae_id := db_nextEvent db\<rparr>
                  in Inr (Some e1, db1\<lparr>db_events := db_events db1 @ [e1], db_nextEvent := db_nextEvent db + 1\<rparr>))"

text \<open>A failed read gives the error together with the zero configuration, which is not enabled.\<close>

definition no_webhook :: go_webhook where
  "no_webhook = \<lparr>gw_url = '''', gw_headers = Map.empty, gw_bodyTemplate = '''', gw_enabled = False,
                 gw_createdAt = None, gw_updatedAt = None\<rparr>"

definition GetWebhook :: "world \<Rightarrow> alert_db \<Rightarrow> go_webhook \<times> alerting_error option" where
  "GetWebhook w db =
     (if webhook_fails w then (no_webhook, Some ErrStore)
      else case db_webhook db of
             None \<Rightarrow> (no_webhook, Some ErrNotFound)
           | Some config \<Rightarrow> (config, None))"

section \<open>The evaluator\<close>

definition eventFor :: "int \<Rightarrow> go_rule \<Rightarrow> g_snapshot \<Rightarrow> rule_state \<Rightarrow> jsnum \<Rightarrow> go_event" where
  "eventFor ruleID rule snapshot state v =
     \<lparr>ae_id = 0, ae_ruleId = ruleID, ae_serverId = gs_serverId snapshot, ae_status = as_status state,
      ae_currentValue = Some v, ae_threshold = Some (gr_threshold rule),
      ae_startedAt = nullish (as_firingSince state) (as_updatedAt state),
      ae_endedAt = (if as_status state = Some Recovered then Some (as_updatedAt state) else None),
      ae_createdAt = None\<rparr>"

record delivery_job =
  dj_event :: go_event
  dj_config :: go_webhook
  dj_serverName :: string
  dj_metric :: string
  dj_currentValue :: jsnum
  dj_threshold :: rat

definition deliveryQueueCapacity :: nat where
  "deliveryQueueCapacity = 64"

record evaluator =
  ev_db :: alert_db
  ev_deliveries :: "delivery_job list"

text \<open>\<open>None\<close> is \<open>ErrQueueFull\<close>.\<close>

definition Enqueue :: "delivery_job \<Rightarrow> delivery_job list \<Rightarrow> delivery_job list option" where
  "Enqueue job q = (if length q < deliveryQueueCapacity then Some (q @ [job]) else None)"

definition enqueueDelivery ::
  "world \<Rightarrow> go_event \<Rightarrow> g_snapshot \<Rightarrow> go_rule \<Rightarrow> evaluator \<Rightarrow> evaluator" where
  "enqueueDelivery w event snapshot rule ev =
     (let (config, err) = GetWebhook w (ev_db ev)
      in if err = Some ErrNotFound \<or> \<not> gw_enabled config then ev
         else if err \<noteq> None then ev
         else let job = \<lparr>dj_event = event, dj_config = config, dj_serverName = gs_serverName snapshot,
                         dj_metric = gr_metric rule,
                         dj_currentValue = nullish (ae_currentValue event) (Fin 0),
                         dj_threshold = nullish (ae_threshold event) (gr_threshold rule)\<rparr>
              in (case Enqueue job (ev_deliveries ev) of
                    None \<Rightarrow> ev
                  | Some q \<Rightarrow> ev\<lparr>ev_deliveries := q\<rparr>))"

text \<open>The body of the loop over the rules; each \<open>continue\<close> leaves the evaluator as it is.\<close>

definition evaluate_rule :: "world \<Rightarrow> g_event \<Rightarrow> int \<times> go_rule \<Rightarrow> evaluator \<Rightarrow> evaluator" where
  "evaluate_rule w event row ev =
     (let (ruleID, rule) = row; snapshot = ge_snapshot event
      in if ge_type event = SnapshotOffline \<and> gr_metric rule \<noteq> ''offline'' then ev
         else let v = MetricValue snapshot (gr_metric rule)
              in case (case GetState w ruleID (ev_db ev) of
                         Inl ErrNotFound \<Rightarrow> Some (fresh_state ruleID)
                       | Inl err \<Rightarrow> None
                       | Inr st \<Rightarrow> Some st) of
                   None \<Rightarrow> ev
                 | Some st \<Rightarrow>
                     let (st', notify) = Evaluate
                           \<lparr>in_state = st, in_breached = breached v rule, in_currentValue = v,
                            in_duration = durationForRule rule,
                            in_repeatInterval = nanoseconds (gr_repeatSeconds rule),
                            in_now = eval_clock w ruleID\<rparr>;
                         created = (if notify then Some (eventFor ruleID rule snapshot st' v) else None)
                     in case SaveStateAndEvent w st' created (ev_db ev) of
                          Inl err \<Rightarrow> ev
                        | Inr (stored, db) \<Rightarrow>
                            (case stored of
                               None \<Rightarrow> ev\<lparr>ev_db := db\<rparr>
                             | Some e \<Rightarrow> enqueueDelivery w e snapshot rule (ev\<lparr>ev_db := db\<rparr>)))"

definition EvaluateNow :: "world \<Rightarrow> g_event \<Rightarrow> evaluator \<Rightarrow> evaluator" where
  "EvaluateNow w event ev =
     (if gs_serverId (ge_snapshot event) < 1 then ev
      else case ListEnabledRulesForServer w (gs_serverId (ge_snapshot event)) (ev_db ev) of
             Inl err \<Rightarrow> ev
           | Inr rules \<Rightarrow> fold (evaluate_rule w event) rules ev)"

section \<open>The queue in front of the evaluator\<close>

definition evaluationQueueCapacity :: nat where
  "evaluationQueueCapacity = 128"

text \<open>\<open>eq_pending\<close> are the servers with a timer that will submit their latest snapshot.\<close>

record eval_queue =
  eq_events :: "g_event list"
  eq_pending :: "int set"

definition scheduleLatest :: "int \<Rightarrow> eval_queue \<Rightarrow> eval_queue" where
  "scheduleLatest serverID q =
     (if serverID < 1 then q else q\<lparr>eq_pending := insert serverID (eq_pending q)\<rparr>)"

definition Submit :: "g_event \<Rightarrow> eval_queue \<Rightarrow> eval_queue" where
  "Submit event q =
     (if length (eq_events q) < evaluationQueueCapacity then q\<lparr>eq_events := eq_events q @ [event]\<rparr>
      else scheduleLatest (gs_serverId (ge_snapshot event)) q)"

text \<open>The timer's function.\<close>

definition timer_fires :: "snapshot_store \<Rightarrow> int \<Rightarrow> eval_queue \<Rightarrow> eval_queue" where
  "timer_fires store serverID q =
     (case store_get store serverID of
        None \<Rightarrow> q\<lparr>eq_pending := eq_pending q - {serverID}\<rparr>
      | Some snapshot \<Rightarrow>
          if length (eq_events q) < evaluationQueueCapacity
          then q\<lparr>eq_events := eq_events q @ [\<lparr>ge_type = SnapshotUpdated, ge_snapshot = snapshot\<rparr>],
                 eq_pending := eq_pending q - {serverID}\<rparr>
          else scheduleLatest serverID (q\<lparr>eq_pending := eq_pending q - {serverID}\<rparr>))"

definition eval_take :: "eval_queue \<Rightarrow> g_event option \<times> eval_queue" where
  "eval_take q =
     (case eq_events q of
        [] \<Rightarrow> (None, q)
      | e # es \<Rightarrow> (Some e, q\<lparr>eq_events := es\<rparr>))"

section \<open>The dispatcher\<close>

definition attempt_success :: "attempt_result \<Rightarrow> bool" where
  "attempt_success r \<longleftrightarrow>
     (case at_responseStatus r of
        None \<Rightarrow> False
      | Some status \<Rightarrow> 200 \<le> status \<and> status < 300 \<and> at_errorText r = '''')"

definition maxAttemptErrorLength :: nat where
  "maxAttemptErrorLength = 2048"

definition limitAttemptError :: "string \<Rightarrow> string" where
  "limitAttemptError v = (if length v \<le> maxAttemptErrorLength then v else take maxAttemptErrorLength v)"

text \<open>
  The attempts of a delivery are for its event when that one is stored. Whether the record of one
  could be stored does not change the course of the delivery.
\<close>

definition attempt_event :: "go_event \<Rightarrow> int option" where
  "attempt_event e = (if ae_id e > 0 then Some (ae_id e) else None)"

text \<open>
  The loop over the delays of 0, 5 and 15 seconds: \<open>sleeps n\<close> is whether the wait before the
  attempt \<open>n\<close> (from 0) was left because the context ended, \<open>send n\<close> the result of the attempt.
\<close>

fun attempts_from ::
  "(nat \<Rightarrow> bool) \<Rightarrow> (nat \<Rightarrow> attempt_result) \<Rightarrow> go_event \<Rightarrow> bool \<Rightarrow> nat \<Rightarrow> int list \<Rightarrow>
   bool \<times> go_attempt list" where
  "attempts_from sleeps send e test index [] = (False, [])"
| "attempts_from sleeps send e test index (delay # delays) =
     (if delay > 0 \<and> sleeps index then (False, [])
      else let result = send index;
               attempt = \<lparr>ga_eventId = attempt_event e, ga_isTest = test, ga_attempt = int index + 1,
                          ga_result = result\<rparr>
           in if attempt_success result then (True, [attempt])
              else let (ok, rest) = attempts_from sleeps send e test (index + 1) delays
                   in (ok, attempt # rest))"

definition delays :: "int list" where
  "delays = [0, nanoseconds 5, nanoseconds 15]"

text \<open>\<open>body\<close> is the result of rendering the template: its error, or the body.\<close>

definition dispatch ::
  "string + string \<Rightarrow> (nat \<Rightarrow> bool) \<Rightarrow> (string \<Rightarrow> nat \<Rightarrow> attempt_result) \<Rightarrow> go_event \<Rightarrow> bool \<Rightarrow>
   bool \<times> go_attempt list" where
  "dispatch body sleeps send e test =
     (case body of
        Inl err \<Rightarrow>
          (False, [\<lparr>ga_eventId = attempt_event e, ga_isTest = test, ga_attempt = 1,
                    ga_result = \<lparr>at_responseStatus = None, at_errorText = limitAttemptError err\<rparr>\<rparr>])
      | Inr text \<Rightarrow> attempts_from sleeps (send text) e test 0 delays)"

end
