(* ===== verification/Registry.thy ===== *)
theory Registry
  imports LiveServerProps
begin

text \<open>
  \<^verbatim>\<open>internal/servers/service.go\<close>: the registry of servers and the tokens of their agents, and how it
  and the coordinator change together. The rows are the table \<open>servers\<close> of \<^verbatim>\<open>migrations\<close>, in the order
  of their ids, which \<open>AUTOINCREMENT\<close> never uses twice; a call that fails leaves them as they are.
  SHA-256 is the parameter \<open>sha\<close>.
\<close>

section \<open>Tokens\<close>

definition base64_alphabet :: string where
  "base64_alphabet = ''ABCDEFGHIJKLMNOPQRSTUVWXYZabcdefghijklmnopqrstuvwxyz0123456789-_''"

definition base64_char :: "nat \<Rightarrow> char" where
  "base64_char n = base64_alphabet ! (n mod 64)"

text \<open>\<open>base64.RawURLEncoding\<close>, three bytes at a time, without padding.\<close>

fun base64_url :: "string \<Rightarrow> string" where
  "base64_url (a # b # c # rest) =
     (let v = (of_char a * 256 + of_char b) * 256 + of_char c :: nat
      in base64_char (v div 2 ^ 18) # base64_char (v div 2 ^ 12) # base64_char (v div 2 ^ 6) # base64_char v #
         base64_url rest)"
| "base64_url [a, b] =
     (let v = (of_char a * 256 + of_char b) * 4 :: nat
      in [base64_char (v div 2 ^ 12), base64_char (v div 2 ^ 6), base64_char v])"
| "base64_url [a] = (let v = of_char a * 16 :: nat in [base64_char (v div 2 ^ 6), base64_char v])"
| "base64_url [] = []"

text \<open>\<open>bytes\<close> are the 32 random bytes, \<open>None\<close> when they could not be read.\<close>

definition agentTokenPair :: "(string \<Rightarrow> string) \<Rightarrow> string option \<Rightarrow> (string \<times> string) option" where
  "agentTokenPair sha bytes =
     map_option (\<lambda>b. let rawToken = ''tp_'' @ base64_url b in (rawToken, sha rawToken)) bytes"

section \<open>The service\<close>

text \<open>
  \<open>strings.TrimSpace\<close> on a UTF-8 text: no character of more than one byte has a continuation that
  starts white space.
\<close>

function trim_left :: "string \<Rightarrow> string" where
  "trim_left s = (if s = [] \<or> space_len s = 0 then s else trim_left (drop (space_len s) s))"
  by pat_completeness auto
termination
  by (relation "measure length") auto

declare trim_left.simps [simp del]

fun trim_right :: "string \<Rightarrow> string" where
  "trim_right [] = []"
| "trim_right (c # s) = (if blank (c # s) then [] else c # trim_right s)"

definition TrimSpace :: "string \<Rightarrow> string" where
  "TrimSpace s = trim_right (trim_left s)"

definition maxServers :: nat where
  "maxServers = 10"

text \<open>A row of the table is the server with the digest of its token.\<close>

record registry =
  rg_rows :: "(go_server \<times> string) list"
  rg_next :: int

definition empty_registry :: registry where
  "empty_registry = \<lparr>rg_rows = [], rg_next = 1\<rparr>"

text \<open>
  \<open>count_fails\<close> is whether the transaction could not be begun or the rows not be counted,
  \<open>insert_fails\<close> whether the insertion failed, besides on the uniqueness of the digest.
\<close>

definition Create ::
  "(string \<Rightarrow> string) \<Rightarrow> string option \<Rightarrow> bool \<Rightarrow> bool \<Rightarrow> int \<Rightarrow> string \<Rightarrow> registry \<Rightarrow>
   (registry_error + go_server \<times> string) \<times> registry" where
  "Create sha bytes count_fails insert_fails now name0 r =
     (let name = TrimSpace name0
      in if name = '''' then (Inl InvalidInput, r)
         else case agentTokenPair sha bytes of
                None \<Rightarrow> (Inl RegistryFailure, r)
              | Some (rawToken, digest) \<Rightarrow>
                  if count_fails then (Inl RegistryFailure, r)
                  else if length (rg_rows r) \<ge> maxServers then (Inl ServerLimit, r)
                  else if insert_fails \<or> digest \<in> set (map snd (rg_rows r)) then (Inl RegistryFailure, r)
                  else let server = \<lparr>sv_id = rg_next r, sv_name = name, sv_enabled = True,
                                     sv_agentVersion = '''', sv_createdAt = now, sv_updatedAt = now\<rparr>
                       in (Inr (server, rawToken),
                           r\<lparr>rg_rows := rg_rows r @ [(server, digest)], rg_next := rg_next r + 1\<rparr>))"

definition registered :: "registry \<Rightarrow> go_server list" where
  "registered r = map fst (rg_rows r)"

definition find_server :: "int \<Rightarrow> registry \<Rightarrow> go_server option" where
  "find_server i r = find (\<lambda>sv. sv_id sv = i) (registered r)"

definition registry_list :: "bool \<Rightarrow> registry \<Rightarrow> registry_error + go_server list" where
  "registry_list fails r = (if fails then Inl RegistryFailure else Inr (registered r))"

definition registry_get :: "bool \<Rightarrow> int \<Rightarrow> registry \<Rightarrow> registry_error + go_server" where
  "registry_get fails i r =
     (if fails then Inl RegistryFailure
      else case find_server i r of None \<Rightarrow> Inl NotFound | Some sv \<Rightarrow> Inr sv)"

text \<open>An \<open>UPDATE ... WHERE id=?\<close> of the row \<open>i\<close>.\<close>

definition update_row :: "int \<Rightarrow> (go_server \<times> string \<Rightarrow> go_server \<times> string) \<Rightarrow> registry \<Rightarrow> registry" where
  "update_row i f r = r\<lparr>rg_rows := map (\<lambda>row. if sv_id (fst row) = i then f row else row) (rg_rows r)\<rparr>"

text \<open>The statement of \<open>Update\<close>, with what it returns; \<open>name\<close> is trimmed already.\<close>

definition change_server :: "string option \<Rightarrow> bool option \<Rightarrow> int \<Rightarrow> go_server \<Rightarrow> go_server" where
  "change_server name enabled now sv =
     sv\<lparr>sv_name := nullish name (sv_name sv), sv_enabled := nullish enabled (sv_enabled sv), sv_updatedAt := now\<rparr>"

definition update_statement ::
  "bool \<Rightarrow> int \<Rightarrow> int \<Rightarrow> string option \<Rightarrow> bool option \<Rightarrow> registry \<Rightarrow> (registry_error + go_server) \<times> registry" where
  "update_statement fails now i name enabled r =
     (if fails then (Inl RegistryFailure, r)
      else case find_server i r of
             None \<Rightarrow> (Inl NotFound, r)
           | Some sv \<Rightarrow> (Inr (change_server name enabled now sv),
                        update_row i (\<lambda>(sv, d). (change_server name enabled now sv, d)) r))"

definition delete_statement :: "bool \<Rightarrow> int \<Rightarrow> registry \<Rightarrow> registry_error option \<times> registry" where
  "delete_statement fails i r =
     (if fails then (Some RegistryFailure, r)
      else if find_server i r = None then (Some NotFound, r)
      else (None, r\<lparr>rg_rows := filter (\<lambda>row. sv_id (fst row) \<noteq> i) (rg_rows r)\<rparr>))"

definition RotateTokenWithServer ::
  "(string \<Rightarrow> string) \<Rightarrow> string option \<Rightarrow> bool \<Rightarrow> int \<Rightarrow> int \<Rightarrow> registry \<Rightarrow>
   (registry_error + go_server \<times> string) \<times> registry" where
  "RotateTokenWithServer sha bytes fails now i r =
     (case agentTokenPair sha bytes of
        None \<Rightarrow> (Inl RegistryFailure, r)
      | Some (rawToken, digest) \<Rightarrow>
          if fails then (Inl RegistryFailure, r)
          else case find_server i r of
                 None \<Rightarrow> (Inl NotFound, r)
               | Some sv \<Rightarrow>
                   if digest \<in> set (map snd (filter (\<lambda>row. sv_id (fst row) \<noteq> i) (rg_rows r)))
                   then (Inl RegistryFailure, r)
                   else (Inr (sv\<lparr>sv_updatedAt := now\<rparr>, rawToken),
                         update_row i (\<lambda>(sv, d). (sv\<lparr>sv_updatedAt := now\<rparr>, digest)) r))"

definition AuthenticateToken :: "(string \<Rightarrow> string) \<Rightarrow> bool \<Rightarrow> string \<Rightarrow> registry \<Rightarrow> registry_error + go_server" where
  "AuthenticateToken sha fails rawToken r =
     (if fails then Inl RegistryFailure
      else case find (\<lambda>row. snd row = sha rawToken) (rg_rows r) of
             None \<Rightarrow> Inl InvalidToken
           | Some (sv, d) \<Rightarrow> if sv_enabled sv then Inr sv else Inl Disabled)"

definition UpdateAgentVersion :: "bool \<Rightarrow> int \<Rightarrow> string \<Rightarrow> registry \<Rightarrow> registry_error option \<times> registry" where
  "UpdateAgentVersion fails i version r =
     (if fails then (Some RegistryFailure, r)
      else if find_server i r = None then (Some NotFound, r)
      else (None, update_row i (\<lambda>(sv, d). (sv\<lparr>sv_agentVersion := version\<rparr>, d)) r))"

end
