(* ===== verification/AlertRepository.thy ===== *)
theory AlertRepository
  imports AlertEvaluator Registry
begin

text \<open>
  The operations of \<^verbatim>\<open>internal/alerting/repository.go\<close> that the handlers and the dispatcher call; those
  of the evaluator are in \<open>AlertEvaluator\<close>. Every call of the database takes whether it fails. The table
  \<open>servers\<close>, which the foreign keys look up and the events are joined with, is the argument \<open>srvs\<close>.
\<close>

section \<open>Rules\<close>

definition validOperator :: "string \<Rightarrow> bool" where
  "validOperator operator \<longleftrightarrow> operator = ''gt'' \<or> operator = ''lt''"

definition validateRule :: "go_rule \<Rightarrow> bool" where
  "validateRule rule \<longleftrightarrow>
     \<not> (gr_serverId rule < 1 \<or> \<not> validMetric (gr_metric rule) \<or> \<not> validOperator (gr_operator rule) \<or>
        gr_durationSeconds rule < 0 \<or> gr_repeatSeconds rule < 0)"

text \<open>A rule as it is returned: with its id, its times and its state.\<close>

record rule_result =
  rs_id :: int
  rs_rule :: go_rule
  rs_createdAt :: int
  rs_updatedAt :: int
  rs_state :: alert_status

definition scan_rule :: "alert_db \<Rightarrow> alert_status \<Rightarrow> int \<times> go_rule \<Rightarrow> alerting_error + rule_result" where
  "scan_rule db status row =
     (let (i, rule) = row
      in if \<not> validMetric (gr_metric rule) \<or> \<not> validOperator (gr_operator rule) then Inl ErrStore
         else Inr \<lparr>rs_id = i, rs_rule = rule, rs_createdAt = fst (db_ruleTimes db i),
                   rs_updatedAt = snd (db_ruleTimes db i), rs_state = status\<rparr>)"

definition server_known :: "go_server list \<Rightarrow> int \<Rightarrow> bool" where
  "server_known srvs i \<longleftrightarrow> i \<in> sv_id ` set srvs"

text \<open>
  A statement that fails leaves the tables; one that returns its row returns what it stored, so that
  reading it back cannot be refused.
\<close>

definition CreateRule ::
  "go_server list \<Rightarrow> bool \<Rightarrow> int \<Rightarrow> go_rule \<Rightarrow> alert_db \<Rightarrow> (alerting_error + rule_result) \<times> alert_db" where
  "CreateRule srvs fails now rule db =
     (if \<not> validateRule rule then (Inl ErrInvalidInput, db)
      else if fails \<or> \<not> server_known srvs (gr_serverId rule) then (Inl ErrStore, db)
      else let i = db_nextRule db;
               db' = db\<lparr>db_rules := db_rules db @ [(i, rule)],
                        db_ruleTimes := (db_ruleTimes db)(i := (now, now)), db_nextRule := i + 1\<rparr>
           in (scan_rule db' Normal (i, rule), db'))"

text \<open>The state of a rule with the left join: no row is the state normal.\<close>

definition joined_state :: "alert_db \<Rightarrow> int \<Rightarrow> alert_status option" where
  "joined_state db i = (case db_states db i of None \<Rightarrow> Some Normal | Some st \<Rightarrow> as_status st)"

fun scan_all :: "('a \<Rightarrow> alerting_error + 'b) \<Rightarrow> 'a list \<Rightarrow> alerting_error + 'b list" where
  "scan_all scan [] = Inr []"
| "scan_all scan (row # rows) =
     (case scan row of
        Inl err \<Rightarrow> Inl err
      | Inr x \<Rightarrow> (case scan_all scan rows of Inl err \<Rightarrow> Inl err | Inr xs \<Rightarrow> Inr (x # xs)))"

definition ListRules :: "bool \<Rightarrow> alert_db \<Rightarrow> alerting_error + rule_result list" where
  "ListRules fails db =
     (if fails then Inl ErrStore
      else scan_all (\<lambda>(i, rule).
             (case joined_state db i of
                None \<Rightarrow> Inl ErrStore
              | Some status \<Rightarrow> scan_rule db status (i, rule))) (db_rules db))"

text \<open>The state of a rule that has been read: \<open>GetState\<close>, whose absence is the state normal.\<close>

definition with_state :: "world \<Rightarrow> alert_db \<Rightarrow> alerting_error + rule_result \<Rightarrow> alerting_error + rule_result" where
  "with_state w db scanned =
     (case scanned of
        Inl err \<Rightarrow> Inl err
      | Inr r \<Rightarrow>
          (case GetState w (rs_id r) db of
             Inr st \<Rightarrow> Inr (r\<lparr>rs_state := nullish (as_status st) Normal\<rparr>)
           | Inl ErrNotFound \<Rightarrow> Inr (r\<lparr>rs_state := Normal\<rparr>)
           | Inl err \<Rightarrow> Inl err))"

definition GetRule :: "world \<Rightarrow> bool \<Rightarrow> int \<Rightarrow> alert_db \<Rightarrow> alerting_error + rule_result" where
  "GetRule w fails i db =
     (if i < 1 then Inl ErrInvalidInput
      else if fails then Inl ErrStore
      else case map_of (db_rules db) i of
             None \<Rightarrow> Inl ErrNotFound
           | Some rule \<Rightarrow> with_state w db (scan_rule db Normal (i, rule)))"

definition set_rule :: "int \<Rightarrow> go_rule \<Rightarrow> (int \<times> go_rule) list \<Rightarrow> (int \<times> go_rule) list" where
  "set_rule i rule rows = map (\<lambda>row. if fst row = i then (i, rule) else row) rows"

text \<open>The row is changed even when the state cannot be read afterwards.\<close>

definition UpdateRule ::
  "go_server list \<Rightarrow> world \<Rightarrow> bool \<Rightarrow> int \<Rightarrow> int \<Rightarrow> go_rule \<Rightarrow> alert_db \<Rightarrow>
   (alerting_error + rule_result) \<times> alert_db" where
  "UpdateRule srvs w fails now i rule db =
     (if i < 1 \<or> \<not> validateRule rule then (Inl ErrInvalidInput, db)
      else if fails then (Inl ErrStore, db)
      else if i \<notin> fst ` set (db_rules db) then (Inl ErrNotFound, db)
      else if \<not> server_known srvs (gr_serverId rule) then (Inl ErrStore, db)
      else let db' = db\<lparr>db_rules := set_rule i rule (db_rules db),
                        db_ruleTimes := (db_ruleTimes db)(i := (fst (db_ruleTimes db i), now))\<rparr>
           in (with_state w db' (scan_rule db' Normal (i, rule)), db'))"

text \<open>
  What \<open>ON DELETE CASCADE\<close> removes with rules and events: \<open>gone\<close> are the rules, \<open>gone_event\<close> further
  events.
\<close>

definition cascade :: "(int \<Rightarrow> bool) \<Rightarrow> (go_event \<Rightarrow> bool) \<Rightarrow> alert_db \<Rightarrow> alert_db" where
  "cascade gone gone_event db =
     (let events = filter (\<lambda>e. \<not> gone (ae_ruleId e) \<and> \<not> gone_event e) (db_events db)
      in db\<lparr>db_rules := filter (\<lambda>row. \<not> gone (fst row)) (db_rules db),
            db_states := (\<lambda>i. if gone i then None else db_states db i),
            db_events := events,
            db_attempts := filter (\<lambda>row. case ga_eventId (wr_attempt row) of
                                           None \<Rightarrow> True
                                         | Some j \<Rightarrow> j \<in> ae_id ` set events) (db_attempts db)\<rparr>)"

definition DeleteRule :: "bool \<Rightarrow> int \<Rightarrow> alert_db \<Rightarrow> alerting_error option \<times> alert_db" where
  "DeleteRule fails i db =
     (if i < 1 then (Some ErrInvalidInput, db)
      else if fails then (Some ErrStore, db)
      else if i \<notin> fst ` set (db_rules db) then (Some ErrNotFound, db)
      else (None, cascade (\<lambda>j. j = i) (\<lambda>e. False) db))"

text \<open>The removal of the server \<open>i\<close> takes its rules and its events along.\<close>

definition rule_of_server :: "int \<Rightarrow> alert_db \<Rightarrow> int \<Rightarrow> bool" where
  "rule_of_server i db j \<longleftrightarrow> (case map_of (db_rules db) j of None \<Rightarrow> False | Some rule \<Rightarrow> gr_serverId rule = i)"

definition cascade_server :: "int \<Rightarrow> alert_db \<Rightarrow> alert_db" where
  "cascade_server i db = cascade (rule_of_server i db) (\<lambda>e. ae_serverId e = i) db"

section \<open>Attempts and events\<close>

definition RecordAttempt :: "bool \<Rightarrow> int \<Rightarrow> go_attempt \<Rightarrow> alert_db \<Rightarrow> (alerting_error + attempt_row) \<times> alert_db" where
  "RecordAttempt fails sentAt attempt db =
     (if ga_attempt attempt < 1 then (Inl ErrInvalidInput, db)
      else if (case ga_eventId attempt of None \<Rightarrow> False | Some i \<Rightarrow> i < 1) then (Inl ErrInvalidInput, db)
      else if fails \<or> (case ga_eventId attempt of None \<Rightarrow> False | Some i \<Rightarrow> i \<notin> ae_id ` set (db_events db))
      then (Inl ErrStore, db)
      else let row = \<lparr>wr_id = db_nextAttempt db, wr_attempt = attempt, wr_sentAt = sentAt\<rparr>
           in (Inr row, db\<lparr>db_attempts := db_attempts db @ [row], db_nextAttempt := db_nextAttempt db + 1\<rparr>))"

definition ListAttempts :: "bool \<Rightarrow> int \<Rightarrow> alert_db \<Rightarrow> alerting_error + attempt_row list" where
  "ListAttempts fails eventID db =
     (if eventID < 1 then Inl ErrInvalidInput
      else if fails then Inl ErrStore
      else Inr (filter (\<lambda>row. ga_eventId (wr_attempt row) = Some eventID) (db_attempts db)))"

text \<open>An event as it is listed: with the name of its server, the metric of its rule and its attempts.\<close>

record event_result =
  es_event :: go_event
  es_serverName :: string
  es_metric :: string
  es_attempts :: "attempt_row list"

definition scan_event :: "go_server list \<Rightarrow> alert_db \<Rightarrow> go_event \<Rightarrow> event_result option" where
  "scan_event srvs db e =
     (case (find (\<lambda>sv. sv_id sv = ae_serverId e) srvs, map_of (db_rules db) (ae_ruleId e)) of
        (Some sv, Some rule) \<Rightarrow>
          Some \<lparr>es_event = e, es_serverName = sv_name sv, es_metric = gr_metric rule, es_attempts = []\<rparr>
      | _ \<Rightarrow> None)"

text \<open>The rows of the query of \<open>ListEvents\<close>: the joins, the condition, the order and the limit.\<close>

definition event_rows :: "go_server list \<Rightarrow> int \<Rightarrow> nat \<Rightarrow> alert_db \<Rightarrow> event_result list" where
  "event_rows srvs beforeID limit db =
     take limit
       (sort_key (\<lambda>r. - ae_id (es_event r))
         (List.map_filter (scan_event srvs db)
           (filter (\<lambda>e. beforeID = 0 \<or> ae_id e < beforeID) (db_events db))))"

text \<open>\<open>attempts_fail\<close> is which of the queries for attempts fail.\<close>

definition ListEvents ::
  "go_server list \<Rightarrow> bool \<Rightarrow> (int \<Rightarrow> bool) \<Rightarrow> int \<Rightarrow> int \<Rightarrow> alert_db \<Rightarrow> alerting_error + event_result list" where
  "ListEvents srvs fails attempts_fail beforeID limit db =
     (if beforeID < 0 \<or> limit < 1 \<or> limit > 100 then Inl ErrInvalidInput
      else if fails then Inl ErrStore
      else let rows = event_rows srvs beforeID (nat limit) db
           in if \<not> list_all (\<lambda>r. validMetric (es_metric r) \<and> validStatus (ae_status (es_event r))) rows then Inl ErrStore
              else scan_all (\<lambda>r.
                     (case ListAttempts (attempts_fail (ae_id (es_event r))) (ae_id (es_event r)) db of
                        Inl err \<Rightarrow> Inl err
                      | Inr attempts \<Rightarrow> Inr (r\<lparr>es_attempts := attempts\<rparr>))) rows)"

section \<open>The webhook\<close>

definition UpsertWebhook :: "bool \<Rightarrow> int \<Rightarrow> go_webhook \<Rightarrow> alert_db \<Rightarrow> (alerting_error + go_webhook) \<times> alert_db" where
  "UpsertWebhook fails now config db =
     (if gw_url config = '''' \<or> gw_bodyTemplate config = '''' then (Inl ErrInvalidInput, db)
      else if fails then (Inl ErrStore, db)
      else let created = (case db_webhook db of None \<Rightarrow> now | Some old \<Rightarrow> nullish (gw_createdAt old) now);
               stored = config\<lparr>gw_createdAt := Some created, gw_updatedAt := Some now\<rparr>
           in (Inr stored, db\<lparr>db_webhook := Some stored\<rparr>))"

end
