(* ===== verification/ServerSystem.thy ===== *)
theory ServerSystem
  imports Registry
begin

text \<open>
  The registry and the coordinator together, as \<^verbatim>\<open>internal/app/app.go\<close> connects them: the coordinator
  is the observer of the registry, so that a change or a removal of a server and the acceptance of
  a report exclude each other. The properties: a token authenticates the server it was last issued
  for, and the live part never knows a server that is not registered.
\<close>

section \<open>The operations\<close>

text \<open>\<open>ss_issued\<close> is history: the tokens given out, the newest first, each with its server.\<close>

record server_system =
  ss_live :: coordinator
  ss_registry :: registry
  ss_issued :: "(int \<times> string) list"

definition issue :: "(registry_error + go_server \<times> string) \<times> registry \<Rightarrow> server_system \<Rightarrow> server_system" where
  "issue answer s =
     s\<lparr>ss_registry := snd answer,
       ss_issued := (case fst answer of
                       Inl err \<Rightarrow> ss_issued s
                     | Inr (sv, rawToken) \<Rightarrow> (sv_id sv, rawToken) # ss_issued s)\<rparr>"

definition Update ::
  "bool \<Rightarrow> int \<Rightarrow> int \<Rightarrow> string option \<Rightarrow> bool option \<Rightarrow> server_system \<Rightarrow>
   (registry_error + go_server) \<times> server_system" where
  "Update fails now i name0 enabled s =
     (let name = map_option TrimSpace name0
      in if (name = None \<and> enabled = None) \<or> name = Some '''' then (Inl InvalidInput, s)
         else let (mutated, r) = update_statement fails now i name enabled (ss_registry s);
                  (answer, c) = ReconcileUpdate mutated (ss_live s)
              in (answer, s\<lparr>ss_live := c, ss_registry := r\<rparr>))"

definition Delete :: "bool \<Rightarrow> int \<Rightarrow> server_system \<Rightarrow> registry_error option \<times> server_system" where
  "Delete fails i s =
     (let (mutated, r) = delete_statement fails i (ss_registry s);
          (answer, c) = ReconcileDelete i mutated (ss_live s)
      in (answer, s\<lparr>ss_live := c, ss_registry := r\<rparr>))"

text \<open>\<open>Accept\<close> of the coordinator with the registry's own answers.\<close>

definition Accept ::
  "(string \<Rightarrow> string) \<Rightarrow> (nat \<Rightarrow> nat \<times> nat) \<Rightarrow> bool \<Rightarrow> bool \<Rightarrow> string \<Rightarrow> g_report \<Rightarrow> int \<Rightarrow> string \<Rightarrow> server_system \<Rightarrow>
   (registry_error + g_snapshot) \<times> server_system" where
  "Accept sha race auth_fails update_fails token rep receivedAt src s =
     (let auth = AuthenticateToken sha auth_fails token (ss_registry s);
          (updated, r) =
            (case auth of
               Inl err \<Rightarrow> (None, ss_registry s)
             | Inr sv \<Rightarrow> UpdateAgentVersion update_fails (sv_id sv) (g_agentVersion rep) (ss_registry s));
          (answer, c) = co_accept race auth updated rep receivedAt src (ss_live s)
      in (answer, s\<lparr>ss_live := c, ss_registry := r\<rparr>))"

text \<open>What the event streams do.\<close>

datatype stream_op = OpenStream | CancelStream nat | CloseStreams | TakeEvent nat

fun stream_step :: "stream_op \<Rightarrow> hub \<Rightarrow> hub" where
  "stream_step OpenStream h = snd (Subscribe h)"
| "stream_step (CancelStream i) h = cancel i h"
| "stream_step CloseStreams h = hub_close h"
| "stream_step (TakeEvent i) h = sse_take i h"

inductive system_run :: "(string \<Rightarrow> string) \<Rightarrow> server_system \<Rightarrow> bool" for sha where
  sys_start:
    "system_run sha \<lparr>ss_live = \<lparr>co_store = Map.empty, co_hub = NewHub, co_observed = [], co_history = []\<rparr>,
                     ss_registry = empty_registry, ss_issued = []\<rparr>"
| sys_create: "system_run sha s \<Longrightarrow> system_run sha (issue (Create sha bytes f g now name (ss_registry s)) s)"
| sys_rotate: "system_run sha s \<Longrightarrow> system_run sha (issue (RotateTokenWithServer sha bytes f now i (ss_registry s)) s)"
| sys_update: "system_run sha s \<Longrightarrow> system_run sha (snd (Update f now i name enabled s))"
| sys_delete: "system_run sha s \<Longrightarrow> system_run sha (snd (Delete f i s))"
| sys_accept: "system_run sha s \<Longrightarrow> system_run sha (snd (Accept sha race f g token rep t src s))"
| sys_sweep: "system_run sha s \<Longrightarrow> distinct ids \<Longrightarrow>
    system_run sha (s\<lparr>ss_live := snd (co_sweep races ids cutoff (ss_live s))\<rparr>)"
| sys_streams: "system_run sha s \<Longrightarrow>
    system_run sha (s\<lparr>ss_live := ss_live s\<lparr>co_hub := stream_step op (co_hub (ss_live s))\<rparr>\<rparr>)"

section \<open>The runs of the coordinator\<close>

lemma live_fields:
  "ss_live (issue a s) = ss_live s" "ss_registry (issue a s) = snd a"
  "ss_live (snd (Delete f i s)) = snd (ReconcileDelete i (fst (delete_statement f i (ss_registry s))) (ss_live s))"
  "ss_registry (snd (Delete f i s)) = snd (delete_statement f i (ss_registry s))"
  "ss_issued (snd (Delete f i s)) = ss_issued s"
  "ss_issued (snd (Update f now i name enabled s)) = ss_issued s"
  "ss_issued (snd (Accept sha race f g token rep t src s)) = ss_issued s"
  by (simp_all add: issue_def Delete_def Update_def Accept_def Let_def case_prod_beta)

lemma system_run_live: "system_run sha s \<Longrightarrow> server_run (ss_live s)"
proof (induction rule: system_run.induct)
  case sys_start
  show ?case by (simp add: server_run.run_start)
next
  case (sys_update s f now i name enabled)
  then show ?case by (simp add: Update_def Let_def case_prod_beta server_run.run_update)
next
  case (sys_accept s race f g token rep t src)
  then show ?case by (simp add: Accept_def Let_def case_prod_beta server_run.run_accept)
next
  case (sys_streams s op)
  then show ?case by (cases op) (simp_all add: server_run.intros)
qed (simp_all add: live_fields server_run.run_delete server_run.run_sweep)

section \<open>Tokens\<close>

text \<open>A character that never starts white space; the tokens are made of them.\<close>

definition solid :: "char \<Rightarrow> bool" where
  "solid c \<longleftrightarrow> c \<noteq> CHR 0x20 \<and> \<not> code_between 9 13 c \<and> of_char c < (128 :: nat)"

lemma solid_space_len: "solid c \<Longrightarrow> space_len (c # s) = 0"
  by (auto simp: solid_def space_len_def split: list.splits)

lemma fields_solid: "list_all solid s \<Longrightarrow> fields_from w s = flush_field (w @ s) []"
proof (induction s arbitrary: w)
  case Nil
  show ?case by (simp add: fields_from.simps)
next
  case (Cons c s)
  have "fields_from w (c # s) = fields_from (w @ [c]) s"
    using Cons.prems by (subst fields_from.simps) (simp add: solid_space_len)
  then show ?case using Cons by simp
qed

lemma fields_space:
  "list_all solid xs \<Longrightarrow> fields_from w (xs @ CHR '' '' # s) = flush_field (w @ xs) (fields_from [] s)"
proof (induction xs arbitrary: w)
  case Nil
  show ?case by (subst fields_from.simps) (simp add: space_len_def)
next
  case (Cons c xs)
  have "fields_from w (c # xs @ CHR '' '' # s) = fields_from (w @ [c]) (xs @ CHR '' '' # s)"
    using Cons.prems by (subst fields_from.simps) (simp add: solid_space_len)
  then show ?case using Cons by simp
qed

lemma base64_char_solid: "solid (base64_char n)"
proof -
  have "list_all solid base64_alphabet"
    by (simp add: base64_alphabet_def solid_def code_between_def)
  moreover have "n mod 64 < length base64_alphabet" by (simp add: base64_alphabet_def)
  ultimately show ?thesis by (simp add: base64_char_def list_all_length)
qed

lemma base64_url_solid: "list_all solid (base64_url bs)"
  by (induction bs rule: base64_url.induct) (simp_all add: Let_def base64_char_solid)

lemma bearer_fields:
  assumes "list_all solid token" and "token \<noteq> ''''"
  shows "bearerToken (''Bearer '' @ token) = Some token"
proof -
  have "fields_from [] (''Bearer'' @ CHR '' '' # token) = [''Bearer'', token]"
    using fields_space [of "''Bearer''" "[]" token] fields_solid [OF assms(1), of "[]"] assms(2)
    by (simp add: solid_def code_between_def flush_field_def)
  then show ?thesis by (simp add: bearerToken_def lower_ascii_def code_between_def char_of_def bit_0)
qed

text \<open>The header that the agent sends with a token, \<^verbatim>\<open>internal/agent/client.go\<close>, is read back.\<close>

definition usable :: "string \<Rightarrow> bool" where
  "usable t \<longleftrightarrow> bearerToken (''Bearer '' @ t) = Some t"

lemma agentTokenPair_bearer:
  assumes "agentTokenPair sha bytes = Some (raw, d)"
  shows "usable raw" and "d = sha raw"
proof -
  obtain b where raw: "raw = ''tp_'' @ base64_url b" and d: "d = sha raw"
    using assms by (auto simp: agentTokenPair_def Let_def)
  have "list_all solid raw"
    unfolding raw list_all_append using base64_url_solid by (simp add: solid_def code_between_def)
  then show "usable raw" unfolding usable_def by (rule bearer_fields) (simp add: raw)
  show "d = sha raw" by (rule d)
qed

section \<open>The rows\<close>

abbreviation server_ids :: "registry \<Rightarrow> int list" where
  "server_ids r \<equiv> map sv_id (registered r)"

text \<open>The digest of each row is that of the token last issued for its server.\<close>

definition registry_ok :: "(string \<Rightarrow> string) \<Rightarrow> (int \<times> string) list \<Rightarrow> registry \<Rightarrow> bool" where
  "registry_ok sha issued r \<longleftrightarrow>
     distinct (server_ids r) \<and> (\<forall>i \<in> set (server_ids r). i < rg_next r) \<and> (\<forall>(i, t) \<in> set issued. i < rg_next r) \<and>
     length (rg_rows r) \<le> maxServers \<and> distinct (map snd (rg_rows r)) \<and>
     (\<forall>(sv, d) \<in> set (rg_rows r). \<exists>t. map_of issued (sv_id sv) = Some t \<and> d = sha t) \<and>
     (\<forall>(i, t) \<in> set issued. usable t)"

lemma find_server_None: "find_server i r = None \<longleftrightarrow> i \<notin> set (server_ids r)"
  by (auto simp: find_server_def find_None_iff)

lemma find_server_Some: "find_server i r = Some sv \<Longrightarrow> sv \<in> set (registered r) \<and> sv_id sv = i"
  by (auto simp: find_server_def find_Some_iff)

lemma find_unique: "distinct (map g xs) \<Longrightarrow> x \<in> set xs \<Longrightarrow> find (\<lambda>y. g y = g x) xs = Some x"
  by (induction xs) auto

lemma find_server_unique:
  "distinct (server_ids r) \<Longrightarrow> sv \<in> set (registered r) \<Longrightarrow> find_server (sv_id sv) r = Some sv"
  by (simp add: find_server_def find_unique)

lemma update_row_rows:
  "rg_rows (update_row i f r) = map (\<lambda>row. if sv_id (fst row) = i then f row else row) (rg_rows r)"
  by (simp add: update_row_def)

lemma update_row_fields [simp]:
  assumes "\<And>sv d. sv_id (fst (f (sv, d))) = sv_id sv"
  shows "server_ids (update_row i f r) = server_ids r" "rg_next (update_row i f r) = rg_next r"
    "length (rg_rows (update_row i f r)) = length (rg_rows r)"
  using assms by (auto simp: update_row_def registered_def)

lemma Create_cases:
  obtains err where "Create sha bytes f g now name r = (Inl err, r)"
  | sv raw d where "Create sha bytes f g now name r =
        (Inr (sv, raw), r\<lparr>rg_rows := rg_rows r @ [(sv, d)], rg_next := rg_next r + 1\<rparr>)"
      "agentTokenPair sha bytes = Some (raw, d)" "sv_id sv = rg_next r" "d \<notin> set (map snd (rg_rows r))"
      "length (rg_rows r) < maxServers"
proof (cases "agentTokenPair sha bytes")
  case None
  then show thesis by (intro that(1) [of "if TrimSpace name = '''' then InvalidInput else RegistryFailure"])
      (simp add: Create_def)
next
  case (Some p)
  obtain raw d where p: "p = (raw, d)" by (cases p)
  let ?err = "if TrimSpace name = '''' then InvalidInput else if f then RegistryFailure
    else if length (rg_rows r) \<ge> maxServers then ServerLimit else RegistryFailure"
  show thesis
  proof (cases "TrimSpace name = '''' \<or> f \<or> length (rg_rows r) \<ge> maxServers \<or> g \<or> d \<in> set (map snd (rg_rows r))")
    case True
    then show thesis by (intro that(1) [of ?err]) (auto simp: Create_def Some p)
  next
    case False
    then show thesis using Some p by (intro that(2)) (auto simp: Create_def Let_def)
  qed
qed

lemma registry_ok_Create:
  assumes "registry_ok sha (ss_issued s) (ss_registry s)"
  shows "registry_ok sha (ss_issued (issue (Create sha bytes f g now name (ss_registry s)) s))
    (snd (Create sha bytes f g now name (ss_registry s)))"
proof (cases rule: Create_cases [of sha bytes f g now name "ss_registry s"])
  case 1
  then show ?thesis using assms by (simp add: issue_def)
next
  case (2 sv raw d)
  note raw = agentTokenPair_bearer [OF 2(2)]
  have low: "i < rg_next (ss_registry s)" if "i \<in> set (server_ids (ss_registry s))" for i
    using assms that by (auto simp: registry_ok_def)
  have "\<exists>t. map_of ((rg_next (ss_registry s), raw) # ss_issued s) (sv_id sv') = Some t \<and> d' = sha t"
    if "(sv', d') \<in> set (rg_rows (ss_registry s) @ [(sv, d)])" for sv' d'
  proof (cases "(sv', d') \<in> set (rg_rows (ss_registry s))")
    case True
    then have "sv_id sv' \<in> set (server_ids (ss_registry s))" by (force simp: registered_def)
    then show ?thesis using True assms low by (fastforce simp: registry_ok_def)
  qed (use that 2(3) raw(2) in auto)
  then have rows: "\<forall>(sv', d') \<in> set (rg_rows (ss_registry s) @ [(sv, d)]).
      \<exists>t. map_of ((rg_next (ss_registry s), raw) # ss_issued s) (sv_id sv') = Some t \<and> d' = sha t" by blast
  have fresh: "rg_next (ss_registry s) \<notin> set (server_ids (ss_registry s))" using low by blast
  show ?thesis
    using assms 2(4,5) raw(1) low fresh rows
    unfolding registry_ok_def 2(1) issue_def
    by (simp add: registered_def 2(3)) (intro conjI; fastforce)
qed

lemma registry_ok_keep:
  assumes "registry_ok sha issued r" and "\<And>sv d. sv_id (fst (f (sv, d))) = sv_id sv \<and> snd (f (sv, d)) = d"
  shows "registry_ok sha issued (update_row i f r)"
proof -
  have "map snd (rg_rows (update_row i f r)) = map snd (rg_rows r)"
    using assms(2) by (auto simp: update_row_def)
  moreover have "\<exists>t. map_of issued (sv_id sv) = Some t \<and> d = sha t"
    if "(sv, d) \<in> set (rg_rows (update_row i f r))" for sv d
  proof -
    obtain row where row: "row \<in> set (rg_rows r)" "(sv, d) = (if sv_id (fst row) = i then f row else row)"
      using \<open>(sv, d) \<in> set (rg_rows (update_row i f r))\<close> by (auto simp: update_row_def)
    then have "sv_id (fst row) = sv_id sv \<and> snd row = d"
      using assms(2) [of "fst row" "snd row"] by (auto split: if_splits) (metis fst_conv snd_conv)+
    then show ?thesis using assms(1) row(1) by (force simp: registry_ok_def)
  qed
  ultimately show ?thesis using assms by (simp add: registry_ok_def) blast
qed

lemma Rotate_cases:
  obtains err where "RotateTokenWithServer sha bytes f now i r = (Inl err, r)"
  | sv raw d where "RotateTokenWithServer sha bytes f now i r =
        (Inr (sv\<lparr>sv_updatedAt := now\<rparr>, raw), update_row i (\<lambda>(sv, d'). (sv\<lparr>sv_updatedAt := now\<rparr>, d)) r)"
      "agentTokenPair sha bytes = Some (raw, d)" "find_server i r = Some sv"
      "d \<notin> set (map snd (filter (\<lambda>row. sv_id (fst row) \<noteq> i) (rg_rows r)))"
proof (cases "agentTokenPair sha bytes")
  case None
  then show thesis by (intro that(1) [of RegistryFailure]) (simp add: RotateTokenWithServer_def)
next
  case (Some p)
  obtain raw d where p: "p = (raw, d)" by (cases p)
  show thesis
  proof (cases "f \<or> find_server i r = None")
    case True
    then show thesis by (intro that(1) [of "if f then RegistryFailure else NotFound"])
        (auto simp: RotateTokenWithServer_def Some p)
  next
    case False
    then obtain sv where sv: "find_server i r = Some sv" by auto
    show thesis
    proof (cases "d \<in> set (map snd (filter (\<lambda>row. sv_id (fst row) \<noteq> i) (rg_rows r)))")
      case True
      then show thesis using False sv by (intro that(1) [of RegistryFailure])
          (simp add: RotateTokenWithServer_def Some p)
    next
      case new: False
      show thesis
        by (rule that(2) [of sv raw d])
           (use False sv new in \<open>simp_all add: RotateTokenWithServer_def Some p\<close>)
    qed
  qed
qed

text \<open>New digests stay distinct when the one of a single row is replaced by a new one.\<close>

lemma distinct_replace:
  assumes "distinct (map snd rows)" and "distinct (map (sv_id \<circ> fst) rows)"
    and "\<forall>row \<in> set rows. sv_id (fst row) \<noteq> i \<longrightarrow> snd row \<noteq> d"
    and "\<And>row. snd (f row) = d"
  shows "distinct (map snd (map (\<lambda>row. if sv_id (fst row) = i then f row else row) rows))"
  using assms(1-3)
proof (induction rows)
  case (Cons row rows)
  show ?case
  proof (cases "sv_id (fst row) = i")
    case True
    then have "map (\<lambda>row. if sv_id (fst row) = i then f row else row) rows = rows"
      using Cons.prems(2) by (intro map_idI) (auto simp: rev_image_eqI)
    moreover have "d \<notin> snd ` set rows"
      using Cons.prems(2,3) True by (auto simp: rev_image_eqI)
    ultimately show ?thesis using Cons.prems(1) True assms(4) by simp
  next
    case False
    then have "snd row \<noteq> snd (if sv_id (fst x) = i then f x else x)" if "x \<in> set rows" for x
      using Cons.prems(1,3) that assms(4) by (auto simp: rev_image_eqI)
    then have "snd row \<notin> set (map snd (map (\<lambda>row. if sv_id (fst row) = i then f row else row) rows))"
      by auto
    then show ?thesis using Cons.prems Cons.IH False by simp
  qed
qed simp

lemma registry_ok_Rotate:
  assumes "registry_ok sha (ss_issued s) (ss_registry s)"
  shows "registry_ok sha (ss_issued (issue (RotateTokenWithServer sha bytes f now i (ss_registry s)) s))
    (snd (RotateTokenWithServer sha bytes f now i (ss_registry s)))"
proof (cases rule: Rotate_cases [of sha bytes f now i "ss_registry s"])
  case 1
  then show ?thesis using assms by (simp add: issue_def)
next
  case (2 sv raw d)
  note raw = agentTokenPair_bearer [OF 2(2)]
  let ?f = "\<lambda>(sv, d' :: string). (sv\<lparr>sv_updatedAt := now\<rparr>, d)"
  let ?r = "update_row i ?f (ss_registry s)"
  have id: "sv_id sv = i" and mem: "i \<in> set (server_ids (ss_registry s))"
    using find_server_Some [OF 2(3)] by auto
  have ids: "server_ids ?r = server_ids (ss_registry s)" "rg_next ?r = rg_next (ss_registry s)"
    "length (rg_rows ?r) = length (rg_rows (ss_registry s))"
    by (rule update_row_fields, simp)+
  have "distinct (map snd (rg_rows ?r))"
    unfolding update_row_rows
    by (rule distinct_replace [where d = d])
       (use assms 2(4) in \<open>auto simp: registry_ok_def registered_def o_def rev_image_eqI\<close>)
  moreover have "\<exists>t. map_of ((i, raw) # ss_issued s) (sv_id sv') = Some t \<and> d' = sha t"
    if "(sv', d') \<in> set (rg_rows ?r)" for sv' d'
  proof -
    obtain row where row: "row \<in> set (rg_rows (ss_registry s))" "(sv', d') = (if sv_id (fst row) = i then ?f row else row)"
      using \<open>(sv', d') \<in> set (rg_rows ?r)\<close> unfolding update_row_rows set_map by blast
    show ?thesis
    proof (cases "sv_id (fst row) = i")
      case True
      then have "sv_id sv' = i" "d' = d" using row(2) by (auto split: prod.splits)
      then show ?thesis using raw(2) by simp
    next
      case False
      then have "row = (sv', d')" "sv_id sv' \<noteq> i" using row(2) by auto
      then show ?thesis using assms row(1) by (fastforce simp: registry_ok_def)
    qed
  qed
  ultimately show ?thesis
    using assms ids raw(1) mem id
    unfolding registry_ok_def 2(1) issue_def
    by (simp add: 2(3)) (intro conjI; fastforce)
qed

lemma registry_ok_delete: "registry_ok sha issued r \<Longrightarrow> registry_ok sha issued (snd (delete_statement f i r))"
  by (auto simp: registry_ok_def delete_statement_def registered_def distinct_map inj_on_def
      intro: le_trans [OF length_filter_le])

lemma change_server_id [simp]: "sv_id (change_server name enabled now sv) = sv_id sv"
  by (simp add: change_server_def)

lemma registry_ok_update:
  "registry_ok sha issued r \<Longrightarrow> registry_ok sha issued (snd (update_statement f now i name enabled r))"
  by (auto simp: update_statement_def intro!: registry_ok_keep split: option.split)

lemma registry_ok_version:
  "registry_ok sha issued r \<Longrightarrow> registry_ok sha issued (snd (UpdateAgentVersion f i version r))"
  by (auto simp: UpdateAgentVersion_def intro!: registry_ok_keep)

lemma system_run_registry: "system_run sha s \<Longrightarrow> registry_ok sha (ss_issued s) (ss_registry s)"
proof (induction rule: system_run.induct)
  case sys_start
  show ?case by (simp add: registry_ok_def empty_registry_def registered_def)
next
  case (sys_create s bytes f g now name)
  then show ?case by (simp add: live_fields registry_ok_Create)
next
  case (sys_rotate s bytes f now i)
  then show ?case by (simp add: live_fields registry_ok_Rotate)
next
  case (sys_update s f now i name enabled)
  then show ?case
    by (auto simp: Update_def Let_def case_prod_beta intro: registry_ok_update)
next
  case (sys_accept s race f g token rep t src)
  then show ?case
    by (auto simp: Accept_def Let_def case_prod_beta intro: registry_ok_version split: sum.split)
qed (simp_all add: live_fields registry_ok_delete)

end
