(* ===== verification/GoHttp.thy ===== *)
theory GoHttp
  imports ServerSystem AlertsServer
begin

text \<open>
  What the handlers of the server share, and the handlers of the registry, \<^verbatim>\<open>internal/servers/handler.go\<close>:
  how an id in a path and a body are read, and how each error is answered.
\<close>

section \<open>Numbers in a path or a query\<close>

text \<open>\<open>strconv.ParseInt\<close> with base 10 and 64 bits; \<open>strconv.Atoi\<close> is the same.\<close>

definition ParseInt :: "string \<Rightarrow> int option" where
  "ParseInt s =
     (let negative = (s \<noteq> [] \<and> hd s = CHR ''-'');
          ds = (if s \<noteq> [] \<and> (hd s = CHR ''-'' \<or> hd s = CHR ''+'') then tl s else s);
          v = (if negative then - digits_value ds else digits_value ds)
      in if ds = [] \<or> \<not> list_all is_digit ds \<or> v < - (2 ^ 63) \<or> v \<ge> 2 ^ 63 then None else Some v)"

text \<open>\<open>serverID\<close> and \<open>routeID\<close>: \<open>None\<close> is answered with 400.\<close>

definition routeID :: "string \<Rightarrow> int option" where
  "routeID s = (case ParseInt s of None \<Rightarrow> None | Some i \<Rightarrow> if i < 1 then None else Some i)"

lemma ParseInt_decimal:
  assumes "\<bar>n\<bar> < 2 ^ 63"
  shows "ParseInt (dec_int n) = Some n"
proof (cases "n < 0")
  case True
  then have "0 \<le> - n" by simp
  note d = dec_digits_facts [OF this]
  show ?thesis using True d assms by (auto simp: ParseInt_def dec_int_def Let_def)
next
  case False
  then have "0 \<le> n" by simp
  note d = dec_digits_facts [OF this]
  have "is_digit (hd (dec_digits n))" using d by (cases "dec_digits n") auto
  then have "hd (dec_digits n) \<noteq> CHR ''-''" "hd (dec_digits n) \<noteq> CHR ''+''" by (auto simp: is_digit_def)
  then show ?thesis using False d assms by (auto simp: ParseInt_def dec_int_def Let_def)
qed

section \<open>Bodies\<close>

text \<open>
  \<open>decodeJSON\<close>: a body is the value that was read, or the status 415 or 400 that it was refused with
  (its type, its size, its syntax, or more than one value); then the value may not fit.
\<close>

definition decode_body :: "(jv \<Rightarrow> 'a option) \<Rightarrow> nat + jv \<Rightarrow> nat + 'a" where
  "decode_body decode body =
     (case body of
        Inl status \<Rightarrow> Inl status
      | Inr v \<Rightarrow> (case decode v of None \<Rightarrow> Inl 400 | Some x \<Rightarrow> Inr x))"

definition refused_text :: "string \<Rightarrow> nat \<Rightarrow> string" where
  "refused_text invalid status = (if status = 415 then ''content type must be application/json'' else invalid)"

section \<open>The handlers of the registry\<close>

text \<open>An answer: a status with nothing, an error, a server, several, or a server with its new token.\<close>

datatype server_body =
    NoServer
  | ServerError string
  | OneServer go_server
  | ServerList "go_server list"
  | TokenBody go_server string

definition internal_error :: string where
  "internal_error = ''internal server error''"

definition handleServiceError :: "registry_error \<Rightarrow> nat \<times> server_body" where
  "handleServiceError err =
     (if err = InvalidInput then (400, ServerError ''invalid server input'')
      else if err = NotFound then (404, ServerError ''server not found'')
      else if err = ServerLimit then (409, ServerError ''server limit reached'')
      else (500, ServerError internal_error))"

definition refused_server :: "nat \<Rightarrow> nat \<times> server_body" where
  "refused_server status = (status, ServerError (refused_text ''invalid server input'' status))"

text \<open>
  The bodies: a missing or null name of a new server is empty. The decoder would also take the names in
  another case.
\<close>

definition decode_create :: "jv \<Rightarrow> string option" where
  "decode_create v =
     (case v of
        JObj fs \<Rightarrow>
          if \<not> list_all (\<lambda>(k, x). k = ''name'') fs then None
          else map_option (\<lambda>name. nullish name '''') (decode_text (get_opt ''name'' v))
      | JNull \<Rightarrow> Some ''''
      | _ \<Rightarrow> None)"

definition decode_update :: "jv \<Rightarrow> (string option \<times> bool option) option" where
  "decode_update v =
     (case v of
        JObj fs \<Rightarrow>
          if \<not> list_all (\<lambda>(k, x). k = ''name'' \<or> k = ''enabled'') fs then None
          else (case (decode_text (get_opt ''name'' v), decode_flag (get_opt ''enabled'' v)) of
                  (Some name, Some enabled) \<Rightarrow> Some (name, enabled)
                | _ \<Rightarrow> None)
      | JNull \<Rightarrow> Some (None, None)
      | _ \<Rightarrow> None)"

definition list_servers_handler :: "bool \<Rightarrow> server_system \<Rightarrow> nat \<times> server_body" where
  "list_servers_handler fails s =
     (case registry_list fails (ss_registry s) of
        Inl err \<Rightarrow> (500, ServerError internal_error)
      | Inr srvs \<Rightarrow> (200, ServerList srvs))"

definition token_reply :: "registry_error + go_server \<times> string \<Rightarrow> nat \<times> server_body" where
  "token_reply answer =
     (case answer of
        Inl err \<Rightarrow> handleServiceError err
      | Inr (server, token) \<Rightarrow> (201, TokenBody server token))"

definition create_server_handler ::
  "(string \<Rightarrow> string) \<Rightarrow> string option \<Rightarrow> bool \<Rightarrow> bool \<Rightarrow> int \<Rightarrow> nat + jv \<Rightarrow> server_system \<Rightarrow>
   (nat \<times> server_body) \<times> server_system" where
  "create_server_handler sha bytes count_fails insert_fails now body s =
     (case decode_body decode_create body of
        Inl status \<Rightarrow> (refused_server status, s)
      | Inr name \<Rightarrow>
          let answer = Create sha bytes count_fails insert_fails now name (ss_registry s)
          in (token_reply (fst answer), issue answer s))"

definition update_server_handler ::
  "bool \<Rightarrow> int \<Rightarrow> string \<Rightarrow> nat + jv \<Rightarrow> server_system \<Rightarrow> (nat \<times> server_body) \<times> server_system" where
  "update_server_handler fails now path_id body s =
     (case routeID path_id of
        None \<Rightarrow> (refused_server 400, s)
      | Some i \<Rightarrow>
          (case decode_body decode_update body of
             Inl status \<Rightarrow> (refused_server status, s)
           | Inr (name, enabled) \<Rightarrow>
               (case Update fails now i name enabled s of
                  (Inl err, s') \<Rightarrow> (handleServiceError err, s')
                | (Inr server, s') \<Rightarrow> ((200, OneServer server), s'))))"

definition delete_server_handler ::
  "bool \<Rightarrow> string \<Rightarrow> server_system \<Rightarrow> (nat \<times> server_body) \<times> server_system" where
  "delete_server_handler fails path_id s =
     (case routeID path_id of
        None \<Rightarrow> (refused_server 400, s)
      | Some i \<Rightarrow>
          (case Delete fails i s of
             (Some err, s') \<Rightarrow> (handleServiceError err, s')
           | (None, s') \<Rightarrow> ((204, NoServer), s')))"

definition rotate_handler ::
  "(string \<Rightarrow> string) \<Rightarrow> string option \<Rightarrow> bool \<Rightarrow> int \<Rightarrow> string \<Rightarrow> server_system \<Rightarrow>
   (nat \<times> server_body) \<times> server_system" where
  "rotate_handler sha bytes fails now path_id s =
     (case routeID path_id of
        None \<Rightarrow> (refused_server 400, s)
      | Some i \<Rightarrow>
          let answer = RotateTokenWithServer sha bytes fails now i (ss_registry s)
          in (token_reply (fst answer), issue answer s))"

end
