(* ===== verification/AlertRoutes.thy ===== *)
theory AlertRoutes
  imports AlertRepository GoHttp
begin

text \<open>
  The handlers of \<^verbatim>\<open>internal/alerting/handler.go\<close>, each with its answer and the tables after it. The
  parameters say which calls fail, what the clock shows, and what the libraries make of a URL
  (\<open>parse_url\<close>, its scheme and host) and of a body template (\<open>renders\<close>).
\<close>

section \<open>Answers\<close>

datatype alert_body =
    NoAlertBody
  | AlertError string
  | RuleBody rule_result
  | RuleListBody "rule_result list"
  | EventListBody "event_result list"
  | WebhookBody go_webhook
  | OutcomeBody bool "attempt_row list"

type_synonym alert_reply = "nat \<times> alert_body"

definition invalid_alerting :: string where
  "invalid_alerting = ''invalid alerting input''"

definition refused_alert :: "nat \<Rightarrow> alert_reply" where
  "refused_alert status = (status, AlertError (refused_text invalid_alerting status))"

definition handleRepositoryError :: "alerting_error \<Rightarrow> alert_reply" where
  "handleRepositoryError err =
     (case err of
        ErrInvalidInput \<Rightarrow> (400, AlertError invalid_alerting)
      | ErrNotFound \<Rightarrow> (404, AlertError ''alerting record not found'')
      | ErrStore \<Rightarrow> (500, AlertError internal_error))"

definition handleServerLookupError :: "registry_error \<Rightarrow> alert_reply" where
  "handleServerLookupError err =
     (if err = NotFound then (404, AlertError ''server not found'') else (500, AlertError internal_error))"

section \<open>Rules\<close>

definition list_rules_handler :: "bool \<Rightarrow> alert_db \<Rightarrow> alert_reply" where
  "list_rules_handler fails db =
     (case ListRules fails db of
        Inl err \<Rightarrow> (500, AlertError internal_error)
      | Inr rules \<Rightarrow> (200, RuleListBody rules))"

definition create_rule_handler ::
  "registry \<Rightarrow> bool \<Rightarrow> bool \<Rightarrow> int \<Rightarrow> nat + jv \<Rightarrow> alert_db \<Rightarrow> alert_reply \<times> alert_db" where
  "create_rule_handler reg lookup_fails insert_fails now body db =
     (case decode_body decode_rule body of
        Inl status \<Rightarrow> (refused_alert status, db)
      | Inr inp \<Rightarrow>
          (case ruleFromCreate inp of
             None \<Rightarrow> (refused_alert 400, db)
           | Some rule \<Rightarrow>
               (case registry_get lookup_fails (gr_serverId rule) reg of
                  Inl err \<Rightarrow> (handleServerLookupError err, db)
                | Inr server \<Rightarrow>
                    (case CreateRule (registered reg) insert_fails now rule db of
                       (Inl err, db') \<Rightarrow> (handleRepositoryError err, db')
                     | (Inr created, db') \<Rightarrow> ((201, RuleBody created), db')))))"

text \<open>
  The two worlds are those of the reads of the rule and of its state after the change. The handler is
  one step: no other request changes the rule between its statements.
\<close>

definition update_rule_handler ::
  "registry \<Rightarrow> world \<Rightarrow> world \<Rightarrow> bool \<Rightarrow> bool \<Rightarrow> bool \<Rightarrow> int \<Rightarrow> string \<Rightarrow> nat + jv \<Rightarrow> alert_db \<Rightarrow>
   alert_reply \<times> alert_db" where
  "update_rule_handler reg w1 w2 get_rule_fails lookup_fails update_fails now path_id body db =
     (case routeID path_id of
        None \<Rightarrow> (refused_alert 400, db)
      | Some i \<Rightarrow>
          (case GetRule w1 get_rule_fails i db of
             Inl err \<Rightarrow> (handleRepositoryError err, db)
           | Inr current \<Rightarrow>
               (case decode_body decode_rule body of
                  Inl status \<Rightarrow> (refused_alert status, db)
                | Inr changes \<Rightarrow>
                    (case normalizeRule (applyRuleUpdate (rs_rule current) changes) of
                       None \<Rightarrow> (refused_alert 400, db)
                     | Some next \<Rightarrow>
                         (case registry_get lookup_fails (gr_serverId next) reg of
                            Inl err \<Rightarrow> (handleServerLookupError err, db)
                          | Inr server \<Rightarrow>
                              (case UpdateRule (registered reg) w2 update_fails now (rs_id current) next db of
                                 (Inl err, db') \<Rightarrow> (handleRepositoryError err, db')
                               | (Inr updated, db') \<Rightarrow> ((200, RuleBody updated), db')))))))"

definition delete_rule_handler :: "bool \<Rightarrow> string \<Rightarrow> alert_db \<Rightarrow> alert_reply \<times> alert_db" where
  "delete_rule_handler fails path_id db =
     (case routeID path_id of
        None \<Rightarrow> (refused_alert 400, db)
      | Some i \<Rightarrow>
          (case DeleteRule fails i db of
             (Some err, db') \<Rightarrow> (handleRepositoryError err, db')
           | (None, db') \<Rightarrow> ((204, NoAlertBody), db')))"

section \<open>Events\<close>

text \<open>The parameters \<open>beforeId\<close> and \<open>limit\<close> of the query, empty when they are missing.\<close>

definition eventPage :: "string \<Rightarrow> string \<Rightarrow> (int \<times> int) option" where
  "eventPage before_text limit_text =
     (let before = (if before_text = '''' then Some 0
                    else case ParseInt before_text of
                           None \<Rightarrow> None
                         | Some v \<Rightarrow> if v < 1 then None else Some v);
          limit = (if limit_text = '''' then Some 50
                   else case ParseInt limit_text of
                          None \<Rightarrow> None
                        | Some v \<Rightarrow> if v < 1 \<or> v > 100 then None else Some v)
      in (case (before, limit) of (Some b, Some l) \<Rightarrow> Some (b, l) | _ \<Rightarrow> None))"

definition list_events_handler ::
  "registry \<Rightarrow> bool \<Rightarrow> (int \<Rightarrow> bool) \<Rightarrow> string \<Rightarrow> string \<Rightarrow> alert_db \<Rightarrow> alert_reply" where
  "list_events_handler reg fails attempts_fail before_text limit_text db =
     (case eventPage before_text limit_text of
        None \<Rightarrow> refused_alert 400
      | Some (beforeID, limit) \<Rightarrow>
          (case ListEvents (registered reg) fails attempts_fail beforeID limit db of
             Inl err \<Rightarrow> handleRepositoryError err
           | Inr events \<Rightarrow> (200, EventListBody events)))"

section \<open>The webhook\<close>

definition DefaultBodyTemplate :: string where
  "DefaultBodyTemplate =
     (let q = [CHR 0x22]; nl = [CHR 0x0A]; field = (\<lambda>name. ''  '' @ q @ name @ q @ '': '')
      in ''{'' @ nl @
         field ''server'' @ ''{{json .ServerName}},'' @ nl @
         field ''metric'' @ q @ ''{{.Metric}}'' @ q @ '','' @ nl @
         field ''status'' @ q @ ''{{.Status}}'' @ q @ '','' @ nl @
         field ''currentValue'' @ ''{{.CurrentValue}},'' @ nl @
         field ''threshold'' @ ''{{.Threshold}},'' @ nl @
         field ''startedAt'' @ q @ ''{{.StartedAt.Format '' @ q @ ''2006-01-02T15:04:05Z07:00'' @ q @ ''}}'' @ q @ '','' @ nl @
         field ''detailUrl'' @ ''{{json .DetailURL}}'' @ nl @
         ''}'')"

definition defaultWebhookConfig :: go_webhook where
  "defaultWebhookConfig = no_webhook\<lparr>gw_bodyTemplate := DefaultBodyTemplate\<rparr>"

definition validateWebhook ::
  "(string \<Rightarrow> (string \<times> string) option) \<Rightarrow> (string \<Rightarrow> bool) \<Rightarrow> go_webhook \<Rightarrow> bool" where
  "validateWebhook parse_url renders config \<longleftrightarrow>
     (case parse_url (gw_url config) of
        None \<Rightarrow> False
      | Some (scheme, authority) \<Rightarrow>
          \<not> (scheme = '''' \<or> authority = '''' \<or> (scheme \<noteq> ''http'' \<and> scheme \<noteq> ''https'')) \<and>
          renders (gw_bodyTemplate config))"

text \<open>What a configuration is answered with: its secret headers masked.\<close>

definition masked_webhook :: "(string \<Rightarrow> string) \<Rightarrow> go_webhook \<Rightarrow> alert_body" where
  "masked_webhook lower config = WebhookBody (config\<lparr>gw_headers := maskWebhookHeaders lower (gw_headers config)\<rparr>)"

text \<open>The stored configuration, the default one when there is none, or an answer.\<close>

definition current_webhook :: "world \<Rightarrow> alert_db \<Rightarrow> alert_reply + go_webhook" where
  "current_webhook w db =
     (case GetWebhook w db of
        (config, Some ErrNotFound) \<Rightarrow> Inr defaultWebhookConfig
      | (config, Some err) \<Rightarrow> Inl (handleRepositoryError err)
      | (config, None) \<Rightarrow> Inr config)"

definition get_webhook_handler :: "(string \<Rightarrow> string) \<Rightarrow> world \<Rightarrow> alert_db \<Rightarrow> alert_reply" where
  "get_webhook_handler lower w db =
     (case current_webhook w db of
        Inl reply \<Rightarrow> reply
      | Inr config \<Rightarrow> (200, masked_webhook lower config))"

text \<open>
  The body of \<open>PutWebhook\<close>. Its times are read and not used: \<open>time_ok\<close> is which texts \<open>time.Time\<close> reads;
  it takes no value but a text or null.
\<close>

definition webhook_fields :: "string list" where
  "webhook_fields = [''url'', ''headers'', ''bodyTemplate'', ''enabled'', ''createdAt'', ''updatedAt'']"

fun decode_time :: "(string \<Rightarrow> bool) \<Rightarrow> jv \<Rightarrow> bool" where
  "decode_time time_ok JUndef = True"
| "decode_time time_ok JNull = True"
| "decode_time time_ok (JStr s) = time_ok s"
| "decode_time time_ok _ = False"

definition decode_webhook :: "(string \<Rightarrow> bool) \<Rightarrow> jv \<Rightarrow> go_webhook option" where
  "decode_webhook time_ok v =
     (case v of
        JObj fs \<Rightarrow>
          if \<not> list_all (\<lambda>(k, x). k \<in> set webhook_fields) fs \<or> \<not> decode_time time_ok (get_opt ''createdAt'' v) \<or>
             \<not> decode_time time_ok (get_opt ''updatedAt'' v) then None
          else (case (decode_text (get_opt ''url'' v), decode_headers v,
                      decode_text (get_opt ''bodyTemplate'' v), decode_flag (get_opt ''enabled'' v)) of
                  (Some u, Some hs, Some t, Some e) \<Rightarrow>
                    Some \<lparr>gw_url = nullish u '''', gw_headers = hs, gw_bodyTemplate = nullish t '''',
                          gw_enabled = nullish e False, gw_createdAt = None, gw_updatedAt = None\<rparr>
                | _ \<Rightarrow> None)
      | JNull \<Rightarrow> Some no_webhook
      | _ \<Rightarrow> None)"

definition put_webhook_handler ::
  "(string \<Rightarrow> bool) \<Rightarrow> (string \<Rightarrow> string) \<Rightarrow> (string \<Rightarrow> (string \<times> string) option) \<Rightarrow> (string \<Rightarrow> bool) \<Rightarrow>
   world \<Rightarrow> bool \<Rightarrow> int \<Rightarrow> nat + jv \<Rightarrow> alert_db \<Rightarrow> alert_reply \<times> alert_db" where
  "put_webhook_handler time_ok lower parse_url renders w upsert_fails now body db =
     (case decode_body (decode_webhook time_ok) body of
        Inl status \<Rightarrow> (refused_alert status, db)
      | Inr inp \<Rightarrow>
          (case current_webhook w db of
             Inl reply \<Rightarrow> (reply, db)
           | Inr current \<Rightarrow>
               let next = inp\<lparr>gw_headers := restoreMaskedHeaders lower (gw_headers inp) (gw_headers current)\<rparr>
               in if \<not> validateWebhook parse_url renders next then (refused_alert 400, db)
                  else case UpsertWebhook upsert_fails now next db of
                         (Inl err, db') \<Rightarrow> (handleRepositoryError err, db')
                       | (Inr updated, db') \<Rightarrow> ((200, masked_webhook lower updated), db')))"

text \<open>
  \<open>DispatchNow\<close>: the attempts of a delivery are stored one after another; \<open>fails n\<close> and \<open>sent n\<close> are
  whether the record of the attempt \<open>n\<close> fails and when it was sent. The outcome holds the stored
  rows, and an attempt that could not be stored without an id.
\<close>

definition recorded :: "int \<Rightarrow> go_attempt \<Rightarrow> alerting_error + attempt_row \<Rightarrow> attempt_row" where
  "recorded sentAt attempt answer =
     (case answer of
        Inl err \<Rightarrow> \<lparr>wr_id = 0, wr_attempt = attempt, wr_sentAt = sentAt\<rparr>
      | Inr row \<Rightarrow> row)"

fun record_attempts ::
  "(nat \<Rightarrow> bool) \<Rightarrow> (nat \<Rightarrow> int) \<Rightarrow> nat \<Rightarrow> go_attempt list \<Rightarrow> alert_db \<Rightarrow> attempt_row list \<times> alert_db" where
  "record_attempts fails sent n [] db = ([], db)"
| "record_attempts fails sent n (a # attempts) db =
     (let (answer, db1) = RecordAttempt (fails n) (sent n) a db;
          (rows, db2) = record_attempts fails sent (n + 1) attempts db1
      in (recorded (sent n) a answer # rows, db2))"

text \<open>The event of a test delivery is the zero event, whose id is 0.\<close>

definition zero_event :: go_event where
  "zero_event =
     \<lparr>ae_id = 0, ae_ruleId = 0, ae_serverId = 0, ae_status = None, ae_currentValue = None,
      ae_threshold = None, ae_startedAt = 0, ae_endedAt = None, ae_createdAt = None\<rparr>"

definition test_webhook_handler ::
  "(string \<Rightarrow> (string \<times> string) option) \<Rightarrow> (string \<Rightarrow> bool) \<Rightarrow> (string \<Rightarrow> string + string) \<Rightarrow> (nat \<Rightarrow> bool) \<Rightarrow>
   (string \<Rightarrow> nat \<Rightarrow> attempt_result) \<Rightarrow> (nat \<Rightarrow> bool) \<Rightarrow> (nat \<Rightarrow> int) \<Rightarrow> world \<Rightarrow> alert_db \<Rightarrow>
   alert_reply \<times> alert_db" where
  "test_webhook_handler parse_url renders render sleeps send record_fails sent w db =
     (case GetWebhook w db of
        (config, Some ErrNotFound) \<Rightarrow> (refused_alert 400, db)
      | (config, Some err) \<Rightarrow> (handleRepositoryError err, db)
      | (config, None) \<Rightarrow>
          if \<not> validateWebhook parse_url renders config then (refused_alert 400, db)
          else let (ok, attempts) = dispatch (render (gw_bodyTemplate config)) sleeps send zero_event True;
                   (rows, db') = record_attempts record_fails sent 0 attempts db
               in ((200, OutcomeBody ok rows), db'))"

end
