(* ===== verification/AlertProps.thy ===== *)
theory AlertProps
  imports AlertEvaluator
begin

text \<open>
  What the alerting engine guarantees: the values of its metrics, how the evaluator runs the
  state machine of each rule on the events of its server, and the deliveries.
\<close>

section \<open>Metrics\<close>

lemma memory_percent_eq: "memory_percent rep = usage_percent (g_memUsed (g_memory rep)) (g_memTotal (g_memory rep))"
  by (simp add: memory_percent_def usage_percent_def)

lemma disk_percent_range:
  assumes "\<And>d. d \<in> set ds \<Longrightarrow> g_diskUsed d \<le> g_diskTotal d" and "0 \<le> a" and "a \<le> 100"
  shows "\<exists>x. foldl (\<lambda>acc disk. if g_diskTotal disk = 0 then acc
           else math_max acc (js_mul (js_div (float_of (g_diskUsed disk)) (float_of (g_diskTotal disk))) (Fin 100)))
         (Fin a) ds = Fin x \<and> 0 \<le> x \<and> x \<le> 100"
  using assms
proof (induction ds arbitrary: a)
  case (Cons d ds)
  obtain y where y: "usage_percent (g_diskUsed d) (g_diskTotal d) = Fin y" "0 \<le> y" "y \<le> 100"
    using usage_percent_range Cons.prems(1) [of d] by auto
  show ?case
  proof (cases "g_diskTotal d = 0")
    case False
    then have "js_mul (js_div (float_of (g_diskUsed d)) (float_of (g_diskTotal d))) (Fin 100) = Fin y"
      using y(1) by (simp add: usage_percent_def)
    then show ?thesis using False Cons.IH [of "max a y"] Cons.prems y by simp
  qed (use Cons in simp)
qed simp

text \<open>The free space of the disk that has least: no difference wraps around.\<close>

definition free_bytes :: "g_disk \<Rightarrow> int" where
  "free_bytes d = uint (g_diskTotal d) - uint (g_diskUsed d)"

lemma free_bytes_word:
  "g_diskUsed d \<le> g_diskTotal d \<Longrightarrow> uint (g_diskTotal d - g_diskUsed d) = free_bytes d"
  by (simp add: free_bytes_def uint_sub_lem word_le_def)

lemma disk_free_fold:
  assumes "\<And>d. d \<in> set ds \<Longrightarrow> g_diskUsed d \<le> g_diskTotal d"
  shows "foldl (\<lambda>acc disk. math_min acc (float_of (g_diskTotal disk - g_diskUsed disk)))
           (Fin (fl_val (of_int n))) ds = Fin (fl_val (of_int (foldl min n (map free_bytes ds))))"
  using assms
proof (induction ds arbitrary: n)
  case (Cons d ds)
  have "min (fl_val (of_int n)) (fl_val (of_int (free_bytes d))) = fl_val (of_int (min n (free_bytes d)))"
    using fl_val_mono [of "of_int n" "of_int (free_bytes d)"] fl_val_mono [of "of_int (free_bytes d)" "of_int n"]
    by (auto simp: min_def)
  then show ?case
    using Cons float_of_range(1) [of "g_diskTotal d - g_diskUsed d"] by (simp add: free_bytes_word)
qed simp

lemma foldl_min_Min: "foldl min n ns = Min (set (n # ns))" for n :: int
proof (induction ns arbitrary: n)
  case (Cons a ns)
  then show ?case by (cases "ns = []") (simp_all add: min.assoc)
qed simp

lemma disk_free_eq:
  assumes "disks_list rep \<noteq> []" and "\<And>d. d \<in> set (disks_list rep) \<Longrightarrow> g_diskUsed d \<le> g_diskTotal d"
  shows "disk_free rep = Fin (fl_val (of_int (Min (free_bytes ` set (disks_list rep)))))"
proof -
  obtain d ds where ds: "disks_list rep = d # ds" using assms(1) by (cases "disks_list rep") auto
  have "float_of (g_diskTotal d - g_diskUsed d) = Fin (fl_val (of_int (free_bytes d)))"
    using assms(2) [of d] float_of_range(1) [of "g_diskTotal d - g_diskUsed d"] by (simp add: ds free_bytes_word)
  then have "foldl (\<lambda>acc disk. math_min acc (float_of (g_diskTotal disk - g_diskUsed disk))) PosInf (disks_list rep)
      = Fin (fl_val (of_int (foldl min (free_bytes d) (map free_bytes ds))))"
    using disk_free_fold [of ds "free_bytes d"] assms(2) by (simp add: ds math_min_def)
  then show ?thesis by (simp add: disk_free_def foldl_min_Min ds)
qed

section \<open>One rule in the database\<close>

definition rule_observation :: "int \<Rightarrow> go_rule \<Rightarrow> world \<times> g_event \<Rightarrow> observation option" where
  "rule_observation i rule we =
     (let w = fst we; e = snd we; v = MetricValue (ge_snapshot e) (gr_metric rule)
      in if 1 \<le> gs_serverId (ge_snapshot e) \<and> gs_serverId (ge_snapshot e) = gr_serverId rule \<and>
            \<not> list_fails w \<and> \<not> get_fails w i \<and> \<not> save_fails w i \<and>
            \<not> (ge_type e = SnapshotOffline \<and> gr_metric rule \<noteq> ''offline'')
         then Some \<lparr>ob_at = eval_clock w i, ob_breached = breached v rule, ob_value = v\<rparr>
         else None)"

text \<open>The observations of a rule in a run of the evaluator: what a failed call concerns is no observation.\<close>

definition rule_observations :: "int \<Rightarrow> go_rule \<Rightarrow> (world \<times> g_event) list \<Rightarrow> observation list" where
  "rule_observations i rule run = List.map_filter (rule_observation i rule) run"

definition evaluate_all :: "(world \<times> g_event) list \<Rightarrow> evaluator \<Rightarrow> evaluator" where
  "evaluate_all run ev = fold (\<lambda>(w, e). EvaluateNow w e) run ev"

definition rule_events :: "int \<Rightarrow> alert_db \<Rightarrow> go_event list" where
  "rule_events i db = filter (\<lambda>e. ae_ruleId e = i) (db_events db)"

definition states_own :: "alert_db \<Rightarrow> bool" where
  "states_own db \<longleftrightarrow> (\<forall>i st. db_states db i = Some st \<longrightarrow> as_ruleId st = i \<and> validStatus (as_status st))"

lemma enqueueDelivery_db [simp]: "ev_db (enqueueDelivery w e s rule ev) = ev_db ev"
  by (auto simp: enqueueDelivery_def Let_def split: prod.split option.split)

lemma Evaluate_keeps [simp]:
  "as_ruleId (fst (Evaluate inp)) = as_ruleId (in_state inp)" "validStatus (as_status (fst (Evaluate inp)))"
  by (auto simp: Evaluate_def from_normal_def from_pending_def from_firing_def from_recovered_def
      finishEvaluation_def validStatus_def Let_def split: alert_status.split option.split)

lemma observe_keeps [simp]:
  "as_ruleId (fst (observe d r ob st)) = as_ruleId st" "validStatus (as_status (fst (observe d r ob st)))"
  by (simp_all add: observe_def)

lemma observe_all_ruleId [simp]: "as_ruleId (observe_all d r obs st) = as_ruleId st"
  by (induction obs arbitrary: st) (simp_all add: observe_all_def)

text \<open>The state that a rule is evaluated from.\<close>

definition rule_state_of :: "int \<Rightarrow> alert_db \<Rightarrow> rule_state" where
  "rule_state_of i db = nullish (db_states db i) (fresh_state i)"

lemma rule_state_of_id: "states_own db \<Longrightarrow> as_ruleId (rule_state_of i db) = i"
  by (cases "db_states db i") (auto simp: rule_state_of_def states_own_def fresh_state_def)

text \<open>What evaluating one rule does to the database.\<close>

lemma evaluate_rule_db:
  assumes "states_own (ev_db ev)" and "1 \<le> i" and "1 \<le> gs_serverId (ge_snapshot e)"
    and "gs_serverId (ge_snapshot e) = gr_serverId rule" and "\<not> list_fails w"
    and "i \<in> fst ` set (db_rules (ev_db ev))"
  shows "\<exists>stored.
    ev_db (evaluate_rule w e (i, rule) ev) =
      (case rule_observation i rule (w, e) of
         None \<Rightarrow> ev_db ev
       | Some ob \<Rightarrow>
           let (st, notify) = observe (durationForRule rule) (nanoseconds (gr_repeatSeconds rule)) ob
                 (rule_state_of i (ev_db ev))
           in (ev_db ev)
                \<lparr>db_states := (db_states (ev_db ev))(i \<mapsto> st\<lparr>as_updatedAt := save_clock w i\<rparr>),
                 db_events := db_events (ev_db ev) @ (if notify then [stored] else []),
                 db_nextEvent := db_nextEvent (ev_db ev) + (if notify then 1 else 0)\<rparr>) \<and>
    ae_ruleId stored = i \<and>
    (\<forall>ob. rule_observation i rule (w, e) = Some ob \<longrightarrow>
       ae_status stored = as_status (fst (observe (durationForRule rule) (nanoseconds (gr_repeatSeconds rule)) ob
         (rule_state_of i (ev_db ev)))))"
proof (cases "ge_type e = SnapshotOffline \<and> gr_metric rule \<noteq> ''offline'' \<or> get_fails w i")
  case True
  have "ev_db (evaluate_rule w e (i, rule) ev) = ev_db ev"
    using True assms(2) by (auto simp: evaluate_rule_def GetState_def Let_def)
  moreover have none: "rule_observation i rule (w, e) = None" using True by (auto simp: rule_observation_def Let_def)
  moreover obtain stored :: go_event where "ae_ruleId stored = i" by (meson go_event.select_convs(2))
  ultimately show ?thesis by (intro exI [of _ stored]) simp
next
  case False
  define v where "v = MetricValue (ge_snapshot e) (gr_metric rule)"
  define ob where "ob = \<lparr>ob_at = eval_clock w i, ob_breached = breached v rule, ob_value = v\<rparr>"
  define st0 where "st0 = rule_state_of i (ev_db ev)"
  define res where "res = observe (durationForRule rule) (nanoseconds (gr_repeatSeconds rule)) ob st0"
  obtain st notify where r: "res = (st, notify)" by (cases res)
  define created where "created = eventFor i rule (ge_snapshot e) st v"
  define stored where "stored = created\<lparr>ae_createdAt := Some (save_clock w i),
    ae_id := db_nextEvent (ev_db ev)\<rparr>"
  have id: "as_ruleId st = i" and valid: "validStatus (as_status st)"
  proof -
    have "st = fst res" by (simp add: r)
    then show "as_ruleId st = i" "validStatus (as_status st)"
      by (simp_all add: res_def st0_def rule_state_of_id [OF assms(1)])
  qed
  have stored: "ae_ruleId stored = i" "ae_status stored = as_status st"
    by (simp_all add: stored_def created_def eventFor_def)
  have get: "(case GetState w i (ev_db ev) of Inl ErrNotFound \<Rightarrow> Some (fresh_state i) | Inl err \<Rightarrow> None
      | Inr st \<Rightarrow> Some st) = Some st0"
    using False assms(1,2) by (auto simp: GetState_def st0_def rule_state_of_def states_own_def split: option.split)
  have ev: "Evaluate \<lparr>in_state = st0, in_breached = breached v rule, in_currentValue = v,
      in_duration = durationForRule rule, in_repeatInterval = nanoseconds (gr_repeatSeconds rule),
      in_now = eval_clock w i\<rparr> = (st, notify)"
    using r by (simp add: res_def observe_def ob_def)
  have obs: "rule_observation i rule (w, e) = (if save_fails w i then None else Some ob)"
    using False assms by (auto simp: rule_observation_def ob_def v_def Let_def)
  have save: "SaveStateAndEvent w st (if notify then Some created else None) (ev_db ev) =
      (if save_fails w i then Inl ErrStore
       else Inr (if notify then Some stored else None,
         (ev_db ev)\<lparr>db_states := (db_states (ev_db ev))(i \<mapsto> st\<lparr>as_updatedAt := save_clock w i\<rparr>),
           db_events := db_events (ev_db ev) @ (if notify then [stored] else []),
                 db_nextEvent := db_nextEvent (ev_db ev) + (if notify then 1 else 0)\<rparr>))"
    using id valid assms(2,3,6) by (auto simp: SaveStateAndEvent_def created_def stored_def eventFor_def Let_def)
  have "ev_db (evaluate_rule w e (i, rule) ev) =
      (if save_fails w i then ev_db ev
       else (ev_db ev)\<lparr>db_states := (db_states (ev_db ev))(i \<mapsto> st\<lparr>as_updatedAt := save_clock w i\<rparr>),
           db_events := db_events (ev_db ev) @ (if notify then [stored] else []),
                 db_nextEvent := db_nextEvent (ev_db ev) + (if notify then 1 else 0)\<rparr>)"
    using False save
    by (cases "save_fails w i"; cases notify)
       (auto simp: evaluate_rule_def Let_def get ev v_def [symmetric] created_def [symmetric])
  then show ?thesis using stored r by (intro exI [of _ stored]) (simp add: obs res_def st0_def)
qed

lemma states_own_rule:
  assumes "states_own (ev_db ev)" and "1 \<le> i" and "1 \<le> gs_serverId (ge_snapshot e)"
    and "gs_serverId (ge_snapshot e) = gr_serverId rule" and "\<not> list_fails w"
    and "i \<in> fst ` set (db_rules (ev_db ev))"
  shows "states_own (ev_db (evaluate_rule w e (i, rule) ev)) \<and>
    db_rules (ev_db (evaluate_rule w e (i, rule) ev)) = db_rules (ev_db ev) \<and>
    (j \<noteq> i \<longrightarrow> db_states (ev_db (evaluate_rule w e (i, rule) ev)) j = db_states (ev_db ev) j \<and>
       rule_events j (ev_db (evaluate_rule w e (i, rule) ev)) = rule_events j (ev_db ev))"
proof -
  obtain stored where "ae_ruleId stored = i" and
    "ev_db (evaluate_rule w e (i, rule) ev) =
      (case rule_observation i rule (w, e) of
         None \<Rightarrow> ev_db ev
       | Some ob \<Rightarrow>
           let (st, notify) = observe (durationForRule rule) (nanoseconds (gr_repeatSeconds rule)) ob
                 (rule_state_of i (ev_db ev))
           in (ev_db ev)
                \<lparr>db_states := (db_states (ev_db ev))(i \<mapsto> st\<lparr>as_updatedAt := save_clock w i\<rparr>),
                 db_events := db_events (ev_db ev) @ (if notify then [stored] else []),
                 db_nextEvent := db_nextEvent (ev_db ev) + (if notify then 1 else 0)\<rparr>)"
    using evaluate_rule_db [OF assms] by auto
  then show ?thesis
    using assms(1) rule_state_of_id [OF assms(1), of i]
    by (auto simp: states_own_def rule_events_def case_prod_beta Let_def split: option.splits)
qed

text \<open>Evaluating the other rules leaves a rule alone.\<close>

lemma evaluate_others:
  assumes "states_own (ev_db ev)" and "1 \<le> gs_serverId (ge_snapshot e)" and "\<not> list_fails w"
    and "\<forall>(i, rule) \<in> set rows. 1 \<le> i \<and> gs_serverId (ge_snapshot e) = gr_serverId rule"
    and "j \<notin> fst ` set rows" and "fst ` set rows \<subseteq> fst ` set (db_rules (ev_db ev))"
  shows "states_own (ev_db (fold (evaluate_rule w e) rows ev)) \<and>
    db_rules (ev_db (fold (evaluate_rule w e) rows ev)) = db_rules (ev_db ev) \<and>
    db_states (ev_db (fold (evaluate_rule w e) rows ev)) j = db_states (ev_db ev) j \<and>
    rule_events j (ev_db (fold (evaluate_rule w e) rows ev)) = rule_events j (ev_db ev)"
  using assms
proof (induction rows arbitrary: ev)
  case (Cons row rows)
  obtain i rule where row: "row = (i, rule)" by (cases row)
  show ?case
    using states_own_rule [of ev i e rule w j] Cons.IH [of "evaluate_rule w e row ev"] Cons.prems
    by (simp add: row)
qed simp

section \<open>The evaluator and the state machine\<close>

definition db_ok :: "alert_db \<Rightarrow> bool" where
  "db_ok db \<longleftrightarrow> states_own db \<and> distinct (map fst (db_rules db)) \<and> (\<forall>(i, rule) \<in> set (db_rules db). 1 \<le> i)"

definition same_state :: "rule_state \<Rightarrow> rule_state \<Rightarrow> bool" where
  "same_state s t \<longleftrightarrow> s\<lparr>as_updatedAt := 0\<rparr> = t\<lparr>as_updatedAt := 0\<rparr>"

text \<open>The rule's part of the database is the run of the machine over the observations.\<close>

definition runs_machine :: "int \<Rightarrow> go_rule \<Rightarrow> observation list \<Rightarrow> alert_db \<Rightarrow> bool" where
  "runs_machine i rule obs db \<longleftrightarrow>
     (let d = durationForRule rule; r = nanoseconds (gr_repeatSeconds rule)
      in (case db_states db i of
            None \<Rightarrow> obs = []
          | Some st \<Rightarrow> same_state st (observe_all d r obs (fresh_state i))) \<and>
         map ae_status (rule_events i db) = map fst (notifications d r obs (fresh_state i)))"

lemma observe_same:
  assumes "same_state s t"
  shows "observe d r ob s = observe d r ob t"
proof -
  have "observe d r ob (u\<lparr>as_updatedAt := 0\<rparr>) = observe d r ob u" for u
    by (simp add: observe_def Evaluate_def from_normal_def from_pending_def from_firing_def
        from_recovered_def finishEvaluation_def Let_def split: alert_status.split option.split) auto
  then show ?thesis using assms unfolding same_state_def by metis
qed

lemma same_state_updatedAt: "same_state (s\<lparr>as_updatedAt := x\<rparr>) s"
  by (simp add: same_state_def)

lemma observe_all_snoc:
  "observe_all d r (obs @ [ob]) st = fst (observe d r ob (observe_all d r obs st))"
  by (simp add: observe_all_def)

lemma notifications_snoc:
  "notifications d r (obs @ [ob]) st = notifications d r obs st @
     (let (st', notify) = observe d r ob (observe_all d r obs st)
      in if notify then [(as_status st', ob_at ob)] else [])"
  by (induction obs arbitrary: st) (auto simp: observe_all_def Let_def split: prod.split)

lemma runs_machine_rule:
  assumes "runs_machine i rule obs (ev_db ev)" and own: "states_own (ev_db ev)" "1 \<le> i"
    "1 \<le> gs_serverId (ge_snapshot e)" "gs_serverId (ge_snapshot e) = gr_serverId rule" "\<not> list_fails w"
    "i \<in> fst ` set (db_rules (ev_db ev))"
  shows "runs_machine i rule (obs @ (case rule_observation i rule (w, e) of None \<Rightarrow> [] | Some ob \<Rightarrow> [ob]))
    (ev_db (evaluate_rule w e (i, rule) ev))"
proof -
  let ?d = "durationForRule rule" and ?r = "nanoseconds (gr_repeatSeconds rule)"
  obtain stored where stored: "ae_ruleId stored = i"
    "\<And>ob. rule_observation i rule (w, e) = Some ob \<Longrightarrow>
       ae_status stored = as_status (fst (observe ?d ?r ob (rule_state_of i (ev_db ev))))" and
    db: "ev_db (evaluate_rule w e (i, rule) ev) =
      (case rule_observation i rule (w, e) of
         None \<Rightarrow> ev_db ev
       | Some ob \<Rightarrow>
           let (st, notify) = observe ?d ?r ob (rule_state_of i (ev_db ev))
           in (ev_db ev)
                \<lparr>db_states := (db_states (ev_db ev))(i \<mapsto> st\<lparr>as_updatedAt := save_clock w i\<rparr>),
                 db_events := db_events (ev_db ev) @ (if notify then [stored] else []),
                 db_nextEvent := db_nextEvent (ev_db ev) + (if notify then 1 else 0)\<rparr>)"
    using evaluate_rule_db [OF own] by auto
  show ?thesis
  proof (cases "rule_observation i rule (w, e)")
    case (Some ob)
    have "same_state (rule_state_of i (ev_db ev)) (observe_all ?d ?r obs (fresh_state i))"
      using assms(1) by (auto simp: runs_machine_def rule_state_of_def observe_all_def same_state_def
          Let_def split: option.splits)
    then have same: "observe ?d ?r ob (rule_state_of i (ev_db ev)) =
        observe ?d ?r ob (observe_all ?d ?r obs (fresh_state i))"
      by (rule observe_same)
    show ?thesis
      using assms(1) stored(1) stored(2) [OF Some]
      by (auto simp: runs_machine_def db Some same Let_def case_prod_beta observe_all_snoc notifications_snoc
          rule_events_def same_state_updatedAt)
  qed (use assms(1) db in simp)
qed

lemma map_filter_snoc:
  "List.map_filter f (xs @ [x]) = List.map_filter f xs @ (case f x of None \<Rightarrow> [] | Some y \<Rightarrow> [y])"
  by (simp add: List.map_filter_def split: option.split)

lemma EvaluateNow_runs:
  assumes "db_ok (ev_db ev)" and row: "(i, rule) \<in> set (db_rules (ev_db ev))" and "gr_enabled rule"
    and "runs_machine i rule obs (ev_db ev)"
  shows "db_ok (ev_db (EvaluateNow w e ev)) \<and> db_rules (ev_db (EvaluateNow w e ev)) = db_rules (ev_db ev) \<and>
    runs_machine i rule (obs @ (case rule_observation i rule (w, e) of None \<Rightarrow> [] | Some ob \<Rightarrow> [ob]))
      (ev_db (EvaluateNow w e ev))"
proof (cases "1 \<le> gs_serverId (ge_snapshot e) \<and> \<not> list_fails w")
  case False
  then have "EvaluateNow w e ev = ev" by (auto simp: EvaluateNow_def ListEnabledRulesForServer_def)
  moreover have "rule_observation i rule (w, e) = None" using False by (auto simp: rule_observation_def Let_def)
  ultimately show ?thesis using assms by simp
next
  case True
  let ?sid = "gs_serverId (ge_snapshot e)"
  define rows where "rows = filter (\<lambda>(i, rule). gr_serverId rule = ?sid \<and> gr_enabled rule) (db_rules (ev_db ev))"
  have now: "EvaluateNow w e ev = fold (evaluate_rule w e) rows ev"
    using True by (simp add: EvaluateNow_def ListEnabledRulesForServer_def rows_def)
  have own: "states_own (ev_db ev)" and dist: "distinct (map fst (db_rules (ev_db ev)))"
    and ids: "\<forall>(i, rule) \<in> set (db_rules (ev_db ev)). 1 \<le> i"
    using assms(1) by (auto simp: db_ok_def)
  have rows: "\<forall>(i, rule) \<in> set rows. 1 \<le> i \<and> ?sid = gr_serverId rule"
    using ids by (auto simp: rows_def)
  have distr: "distinct (map fst rows)" unfolding rows_def using dist by (rule distinct_map_filter)
  have i1: "1 \<le> i" using ids row by auto
  have known: "fst ` set rows \<subseteq> fst ` set (db_rules (ev_db ev))" by (auto simp: rows_def)
  have known_i: "i \<in> fst ` set (db_rules (ev_db ev))" using row by force
  show ?thesis
  proof (cases "gr_serverId rule = ?sid")
    case True
    then have "(i, rule) \<in> set rows" using row assms(3) by (simp add: rows_def)
    then obtain xs ys where split: "rows = xs @ (i, rule) # ys" by (meson split_list)
    have out: "i \<notin> fst ` set xs" "i \<notin> fst ` set ys" using distr split by auto
    have parts: "\<forall>(i, rule) \<in> set xs. 1 \<le> i \<and> ?sid = gr_serverId rule"
        "\<forall>(i, rule) \<in> set ys. 1 \<le> i \<and> ?sid = gr_serverId rule"
      using rows unfolding split set_append list.set ball_Un by blast+
    define e1 where "e1 = fold (evaluate_rule w e) xs ev"
    define e2 where "e2 = evaluate_rule w e (i, rule) e1"
    have s1: "states_own (ev_db e1) \<and> db_rules (ev_db e1) = db_rules (ev_db ev) \<and>
        db_states (ev_db e1) i = db_states (ev_db ev) i \<and> rule_events i (ev_db e1) = rule_events i (ev_db ev)"
      unfolding e1_def using \<open>1 \<le> ?sid \<and> \<not> list_fails w\<close>
      by (intro evaluate_others [OF own _ _ parts(1) out(1)]) (use known split in auto)
    then have m1: "runs_machine i rule obs (ev_db e1)" using assms(4) by (simp add: runs_machine_def)
    have s2: "states_own (ev_db e2) \<and> db_rules (ev_db e2) = db_rules (ev_db e1)"
      unfolding e2_def
      using s1 \<open>1 \<le> ?sid \<and> \<not> list_fails w\<close> states_own_rule [OF _ i1 _ True [symmetric], of e1 w i] known_i by simp
    have m2: "runs_machine i rule (obs @ (case rule_observation i rule (w, e) of None \<Rightarrow> [] | Some ob \<Rightarrow> [ob]))
        (ev_db e2)"
      unfolding e2_def using s1 \<open>1 \<le> ?sid \<and> \<not> list_fails w\<close>
      by (intro runs_machine_rule [OF m1 _ i1 _ True [symmetric]]) (use known_i in simp_all)
    have "states_own (ev_db (fold (evaluate_rule w e) ys e2)) \<and>
        db_rules (ev_db (fold (evaluate_rule w e) ys e2)) = db_rules (ev_db e2) \<and>
        db_states (ev_db (fold (evaluate_rule w e) ys e2)) i = db_states (ev_db e2) i \<and>
        rule_events i (ev_db (fold (evaluate_rule w e) ys e2)) = rule_events i (ev_db e2)"
      using s2 \<open>1 \<le> ?sid \<and> \<not> list_fails w\<close> by (intro evaluate_others [OF _ _ _ parts(2) out(2)]) (use s1 known split in auto)
    moreover have "EvaluateNow w e ev = fold (evaluate_rule w e) ys e2"
      by (simp add: now split e2_def e1_def)
    ultimately show ?thesis using s1 s2 m2 assms(1) by (simp add: db_ok_def runs_machine_def)
  next
    case False
    then have "i \<notin> fst ` set rows" using dist row by (auto simp: rows_def dest: eq_key_imp_eq_value)
    then have "states_own (ev_db (fold (evaluate_rule w e) rows ev)) \<and>
        db_rules (ev_db (fold (evaluate_rule w e) rows ev)) = db_rules (ev_db ev) \<and>
        db_states (ev_db (fold (evaluate_rule w e) rows ev)) i = db_states (ev_db ev) i \<and>
        rule_events i (ev_db (fold (evaluate_rule w e) rows ev)) = rule_events i (ev_db ev)"
      using \<open>1 \<le> ?sid \<and> \<not> list_fails w\<close> by (intro evaluate_others [OF own _ _ rows]) (use known in simp_all)
    moreover have "rule_observation i rule (w, e) = None" using False by (auto simp: rule_observation_def Let_def)
    ultimately show ?thesis using assms by (simp add: now db_ok_def runs_machine_def)
  qed
qed

lemma evaluate_all_runs:
  assumes "db_ok (ev_db ev)" and "(i, rule) \<in> set (db_rules (ev_db ev))" and "gr_enabled rule"
    and "runs_machine i rule [] (ev_db ev)"
  shows "db_ok (ev_db (evaluate_all run ev)) \<and> db_rules (ev_db (evaluate_all run ev)) = db_rules (ev_db ev) \<and>
    runs_machine i rule (rule_observations i rule run) (ev_db (evaluate_all run ev))"
proof (induction run rule: rev_induct)
  case (snoc we run)
  obtain w e where we: "we = (w, e)" by (cases we)
  show ?case
    using EvaluateNow_runs [of "evaluate_all run ev" i rule "rule_observations i rule run" w e] snoc assms(2,3)
    by (simp add: we evaluate_all_def rule_observations_def map_filter_snoc)
qed (use assms in \<open>simp add: evaluate_all_def rule_observations_def\<close>)

section \<open>The queue of the evaluator\<close>

text \<open>An event is queued, or its server has a timer that ends only by queueing its snapshot.\<close>

lemma submitted_or_pending:
  "1 \<le> gs_serverId (ge_snapshot e) \<Longrightarrow>
     e \<in> set (eq_events (Submit e q)) \<or> gs_serverId (ge_snapshot e) \<in> eq_pending (Submit e q)"
  by (simp add: Submit_def scheduleLatest_def)

lemma timer_queues_or_waits:
  "store_get store i = Some s \<Longrightarrow> 1 \<le> i \<Longrightarrow>
     \<lparr>ge_type = SnapshotUpdated, ge_snapshot = s\<rparr> \<in> set (eq_events (timer_fires store i q)) \<or>
     i \<in> eq_pending (timer_fires store i q)"
  by (simp add: timer_fires_def scheduleLatest_def)

lemma queue_bounded:
  "length (eq_events q) \<le> evaluationQueueCapacity \<Longrightarrow>
     length (eq_events (Submit e q)) \<le> evaluationQueueCapacity \<and>
     length (eq_events (timer_fires store i q)) \<le> evaluationQueueCapacity"
  by (auto simp: Submit_def timer_fires_def scheduleLatest_def split: option.splits)

text \<open>
  The timer submits an offline server's snapshot as an update, so every rule of the server is
  evaluated again on the values of its last report.
\<close>

lemma timer_updates_offline:
  "store_get store i = Some s \<Longrightarrow> \<not> gs_online s \<Longrightarrow> length (eq_events q) < evaluationQueueCapacity \<Longrightarrow>
     last (eq_events (timer_fires store i q)) = \<lparr>ge_type = SnapshotUpdated, ge_snapshot = s\<rparr>"
  by (simp add: timer_fires_def)

text \<open>The webhook's read error is never told from a webhook that is switched off.\<close>

lemma webhook_error_silent: "webhook_fails w \<Longrightarrow> enqueueDelivery w e s rule ev = ev"
  by (simp add: enqueueDelivery_def GetWebhook_def no_webhook_def)

section \<open>Deliveries\<close>

definition attempts_ok :: "bool \<Rightarrow> nat \<Rightarrow> go_attempt list \<Rightarrow> bool" where
  "attempts_ok ok start xs \<longleftrightarrow>
     map ga_attempt xs = map int [Suc start..<Suc start + length xs] \<and>
     list_all (\<lambda>a. \<not> attempt_success (ga_result a)) (butlast xs) \<and>
     (ok \<longleftrightarrow> xs \<noteq> [] \<and> attempt_success (ga_result (last xs)))"

lemma attempts_from_ok:
  "attempts_ok (fst (attempts_from sleeps send e test n ds)) n (snd (attempts_from sleeps send e test n ds)) \<and>
   length (snd (attempts_from sleeps send e test n ds)) \<le> length ds"
proof (induction ds arbitrary: n)
  case (Cons d ds)
  let ?r = "attempts_from sleeps send e test (n + 1) ds"
  show ?case
  proof (cases "d > 0 \<and> sleeps n")
    case False
    show ?thesis
    proof (cases "attempt_success (send n)")
      case True
      with False show ?thesis by (simp add: attempts_ok_def Let_def)
    next
      case fail: False
      have "attempts_ok (fst ?r) (n + 1) (snd ?r)" "length (snd ?r) \<le> length ds" using Cons.IH by simp_all
      moreover have "[Suc n..<Suc n + Suc k] = Suc n # [Suc (n + 1)..<Suc (n + 1) + k]" for k
        by (simp add: upt_conv_Cons del: upt_Suc)
      ultimately show ?thesis
        using False fail by (auto simp: attempts_ok_def Let_def case_prod_beta simp del: upt_Suc)
    qed
  qed (auto simp: attempts_ok_def)
qed (simp add: attempts_ok_def)

section \<open>The properties\<close>

text \<open>
  C6: The evaluator runs the state machine of each rule: whatever events come in, and whichever
  calls to the database fail, the stored state of a rule is the machine's state after the
  observations that concern it, and its stored events are the machine's notifications in order;
  a failed call, or a failure of another rule, costs no more than the observation it belongs to.
\<close>

theorem evaluator_runs_machine:
  assumes "db_ok (ev_db ev)" and "(i, rule) \<in> set (db_rules (ev_db ev))" and "gr_enabled rule"
    and "db_states (ev_db ev) i = None" and "rule_events i (ev_db ev) = []"
  shows "runs_machine i rule (rule_observations i rule run) (ev_db (evaluate_all run ev))"
  using evaluate_all_runs [OF assms(1-3)] assms(4,5) by (simp add: runs_machine_def)

definition sample_rule :: go_rule where
  "sample_rule =
     \<lparr>gr_serverId = 3, gr_metric = ''cpu_usage'', gr_operator = ''gt'', gr_threshold = 90,
      gr_durationSeconds = 60, gr_repeatSeconds = 300, gr_enabled = True\<rparr>"

definition sample_evaluator :: evaluator where
  "sample_evaluator =
     \<lparr>ev_db = empty_alert_db\<lparr>db_rules := [(7, sample_rule)], db_nextRule := 8\<rparr>,
      ev_deliveries = []\<rparr>"

definition sample_run :: "(world \<times> g_event) list" where
  "sample_run =
     map (\<lambda>t. (\<lparr>list_fails = False, get_fails = \<lambda>i. i = 9, save_fails = \<lambda>i. False, webhook_fails = True,
                eval_clock = \<lambda>i. nanoseconds t, save_clock = \<lambda>i. nanoseconds t\<rparr>,
              \<lparr>ge_type = SnapshotUpdated, ge_snapshot = sample_go_snapshot\<rparr>)) [0, 30, 60]"

theorem evaluator_runs_machine_witness:
  "runs_machine 7 sample_rule (rule_observations 7 sample_rule sample_run)
     (ev_db (evaluate_all sample_run sample_evaluator))"
  by (rule evaluator_runs_machine)
     (simp_all add: sample_evaluator_def sample_rule_def empty_alert_db_def db_ok_def states_own_def rule_events_def)

text \<open>
  C18: The status of a rule is exactly what the history of its observations says: firing when some
  observation of the current breach comes at least the duration after the first one of the breach,
  pending while none does, recovered right after a firing breach has ended, and normal otherwise.
\<close>

theorem alert_status_exact:
  "as_status (observe_all duration repeat obs (fresh_state i)) = Some (alert_spec duration obs)"
  using tracks_all [OF tracks_fresh [of duration i], of obs repeat] by (simp add: tracks_def)

text \<open>
  The notifications of a rule tell a story without repetition: the first reports a firing, a
  recovery follows only a firing, and another firing follows only a recovery or, when the rule
  repeats, a notification that is at least the interval old.
\<close>

lemma notifications_alternate:
  "successively (may_follow repeat) (notifications duration repeat obs (fresh_state i)) \<and>
   (case notifications duration repeat obs (fresh_state i) of [] \<Rightarrow> True | n # ns \<Rightarrow> fst n = Some Firing)"
  using notified_ok_all [OF notified_ok_fresh [of repeat i], of duration obs]
  by (auto simp: notified_ok_def split: list.split)

text \<open>
  The metrics of an accepted report are the quantities they name: the percentages of processor,
  memory and disk lie between 0 and 100, and the free disk space is the least of the disks, none of
  the differences of unsigned numbers wrapping around.
\<close>

lemma metric_values:
  assumes "validateReport (gs_report s)"
  shows "list_all (\<lambda>m. case MetricValue s m of Fin x \<Rightarrow> 0 \<le> x \<and> x \<le> 100 | _ \<Rightarrow> False)
      [''offline'', ''cpu_usage'', ''memory_usage'', ''disk_usage''] \<and>
    MetricValue s ''disk_free_bytes'' =
      Fin (fl_val (of_int (Min ((\<lambda>d. uint (g_diskTotal d) - uint (g_diskUsed d)) ` set (disks_list (gs_report s))))))"
proof -
  have d: "\<And>d. d \<in> set (disks_list (gs_report s)) \<Longrightarrow> g_diskUsed d \<le> g_diskTotal d"
    using validateReport_disk [OF assms] .
  obtain c where "g_usagePercent (g_cpu (gs_report s)) = Fin c" "0 \<le> c" "c \<le> 100"
    using validateReport_cpu [OF assms] by auto
  moreover obtain m where "memory_percent (gs_report s) = Fin m" "0 \<le> m" "m \<le> 100"
    using usage_percent_range [OF validateReport_memory(1) [OF assms]] by (auto simp: memory_percent_eq)
  moreover obtain p where "disk_percent (gs_report s) = Fin p" "0 \<le> p" "p \<le> 100"
    using disk_percent_range [OF d, of "disks_list (gs_report s)" 0] by (auto simp: disk_percent_def)
  ultimately show ?thesis
    using disk_free_eq [OF validateReport_disks [OF assms] d] by (simp add: MetricValue_def free_bytes_def)
qed

text \<open>
  A delivery makes one to three attempts, numbered from 1; it stops at the first success, so
  only the last attempt can be one, and it reports success exactly when that one is.
\<close>

lemma delivery_attempts:
  "let (ok, xs) = dispatch body sleeps send e test
   in 1 \<le> length xs \<and> length xs \<le> 3 \<and> map ga_attempt xs = map int [1..<Suc (length xs)] \<and>
      list_all (\<lambda>a. \<not> attempt_success (ga_result a)) (butlast xs) \<and>
      (ok \<longleftrightarrow> attempt_success (ga_result (last xs)))"
proof (cases body)
  case (Inl err)
  then show ?thesis by (simp add: dispatch_def attempt_success_def)
next
  case (Inr content)
  let ?r = "attempts_from sleeps (send content) e test 0 delays"
  have "snd ?r \<noteq> []" by (simp add: delays_def Let_def case_prod_beta)
  then have "1 \<le> length (snd ?r)" by (cases "snd ?r") simp_all
  then show ?thesis
    using attempts_from_ok [of sleeps "send content" e test 0 delays] \<open>snd ?r \<noteq> []\<close>
    by (simp add: Inr dispatch_def attempts_ok_def case_prod_beta Let_def delays_def del: upt_Suc attempts_from.simps)
qed

section \<open>The offline rule and the store of the server\<close>

lemma same_state_status: "same_state s t \<Longrightarrow> as_status s = as_status t"
  unfolding same_state_def by (drule arg_cong [of _ _ as_status]) simp

lemma machine_status:
  assumes "runs_machine i rule obs db" and "obs \<noteq> []"
  shows "\<exists>st. db_states db i = Some st \<and> as_status st = Some (alert_spec (durationForRule rule) obs)"
proof -
  let ?all = "observe_all (durationForRule rule) (nanoseconds (gr_repeatSeconds rule)) obs (fresh_state i)"
  obtain st where "db_states db i = Some st" "same_state st ?all"
    using assms by (auto simp: runs_machine_def Let_def split: option.splits)
  moreover have "as_status ?all = Some (alert_spec (durationForRule rule) obs)"
    using tracks_all [OF tracks_fresh [of "durationForRule rule" i], of obs] by (simp add: tracks_def)
  ultimately show ?thesis using same_state_status by metis
qed

lemma alert_spec_zero: "obs \<noteq> [] \<Longrightarrow> alert_spec 0 obs = Firing \<longleftrightarrow> ob_breached (last obs)"
proof (induction obs rule: rev_induct)
  case (snoc ob obs)
  show ?case
    by (cases "current_breach obs") (auto simp: alert_spec_def current_breach_snoc fires_snoc fires_def split: if_splits list.splits)
qed simp

definition no_failure :: "int \<Rightarrow> world \<times> g_event \<Rightarrow> bool" where
  "no_failure i we \<longleftrightarrow> \<not> list_fails (fst we) \<and> \<not> get_fails (fst we) i \<and> \<not> save_fails (fst we) i"

definition offline_rule :: "go_rule \<Rightarrow> bool" where
  "offline_rule rule \<longleftrightarrow> gr_metric rule = ''offline'' \<and> gr_operator rule = ''gt'' \<and> gr_threshold rule = 0 \<and>
     1 \<le> gr_serverId rule"

lemma offline_observation:
  assumes "offline_rule rule" and "no_failure i (w, e)"
  shows "rule_observation i rule (w, e) =
    (if gs_serverId (ge_snapshot e) = gr_serverId rule
     then Some \<lparr>ob_at = eval_clock w i, ob_breached = \<not> gs_online (ge_snapshot e),
                ob_value = (if gs_online (ge_snapshot e) then Fin 0 else Fin 1)\<rparr>
     else None)"
  using assms by (auto simp: rule_observation_def offline_rule_def no_failure_def MetricValue_def breached_def Let_def)

lemma offline_observations:
  assumes "offline_rule rule" and "list_all (no_failure i) run"
    and "server_events (gr_serverId rule) (map snd run) \<noteq> []"
  shows "rule_observations i rule run \<noteq> [] \<and>
    (ob_breached (last (rule_observations i rule run)) \<longleftrightarrow>
       \<not> gs_online (ge_snapshot (last (server_events (gr_serverId rule) (map snd run)))))"
  using assms(2,3)
proof (induction run rule: rev_induct)
  case (snoc we run)
  obtain w e where we: "we = (w, e)" by (cases we)
  have "no_failure i (w, e)" using snoc.prems(1) by (simp add: we)
  then show ?case
    using snoc by (auto simp: we rule_observations_def map_filter_snoc offline_observation [OF assms(1)])
qed simp

text \<open>
  C22: The offline alert and the server's store agree. When the evaluator has taken every event that
  the coordinator published, in their order and without a failing call, the stored status of an
  offline rule is firing exactly when the store has the server offline.
\<close>

theorem offline_alert_follows_store:
  assumes "server_run c" and "db_ok (ev_db ev)" and "(i, rule) \<in> set (db_rules (ev_db ev))"
    and "gr_enabled rule" and "offline_rule rule" and "db_states (ev_db ev) i = None"
    and "rule_events i (ev_db ev) = []" and "map snd run = co_observed c" and "list_all (no_failure i) run"
    and "co_store c (gr_serverId rule) = Some s"
  shows "\<exists>st. db_states (ev_db (evaluate_all run ev)) i = Some st \<and>
    (as_status st = Some Firing \<longleftrightarrow> \<not> gs_online s)"
proof -
  let ?es = "server_events (gr_serverId rule) (co_observed c)"
  have f: "follows_store ?es s"
    using server_run_events [OF assms(1)] assms(10) by (simp add: events_ok_def)
  then have es: "?es \<noteq> []" "(ge_snapshot (last ?es))\<lparr>gs_serverName := gs_serverName s\<rparr> = cloneSnapshot s"
    by (simp_all add: follows_store_def)
  have "gs_online (ge_snapshot (last ?es)) = gs_online s"
    using arg_cong [OF es(2), of gs_online] by simp
  with es have obs: "rule_observations i rule run \<noteq> []"
      "ob_breached (last (rule_observations i rule run)) \<longleftrightarrow> \<not> gs_online s"
    using offline_observations [OF assms(5,9)] by (simp_all add: assms(8))
  have "runs_machine i rule [] (ev_db ev)" using assms(6,7) by (simp add: runs_machine_def)
  then have "runs_machine i rule (rule_observations i rule run) (ev_db (evaluate_all run ev))"
    using evaluate_all_runs [OF assms(2-4)] by blast
  moreover have "durationForRule rule = 0" using assms(5) by (simp add: durationForRule_def offline_rule_def)
  ultimately show ?thesis
    using machine_status [OF _ obs(1)] alert_spec_zero [OF obs(1)] obs(2) by (metis option.inject)
qed

definition sample_offline_rule :: go_rule where
  "sample_offline_rule =
     \<lparr>gr_serverId = 3, gr_metric = ''offline'', gr_operator = ''gt'', gr_threshold = 0,
      gr_durationSeconds = 0, gr_repeatSeconds = 0, gr_enabled = True\<rparr>"

theorem offline_alert_follows_store_witness:
  "\<exists>st. db_states (ev_db (evaluate_all
      (map (\<lambda>e. (\<lparr>list_fails = False, get_fails = \<lambda>i. False, save_fails = \<lambda>i. False, webhook_fails = False,
                   eval_clock = \<lambda>i. 0, save_clock = \<lambda>i. 0\<rparr>, e)) (co_observed sample_live))
      \<lparr>ev_db = empty_alert_db\<lparr>db_rules := [(7, sample_offline_rule)], db_nextRule := 8\<rparr>,
       ev_deliveries = []\<rparr>)) 7 = Some st \<and> as_status st \<noteq> Some Firing"
proof -
  have store: "co_store sample_live (gr_serverId sample_offline_rule) = Some sample_go_snapshot"
    by (simp add: sample_live_def co_accept_def UpsertFrom_def Let_def cloneReport_def sample_offline_rule_def
        sample_go_snapshot_def sample_go_report_def)
  let ?run = "map (\<lambda>e. (\<lparr>list_fails = False, get_fails = \<lambda>i. False, save_fails = \<lambda>i. False, webhook_fails = False,
      eval_clock = \<lambda>i. 0, save_clock = \<lambda>i. 0\<rparr>, e)) (co_observed sample_live)"
  let ?ev = "\<lparr>ev_db = empty_alert_db\<lparr>db_rules := [(7, sample_offline_rule)], db_nextRule := 8\<rparr>,
       ev_deliveries = []\<rparr>"
  have "map snd ?run = co_observed sample_live" by (simp add: o_def)
  moreover have "list_all (no_failure 7) ?run" by (simp add: list_all_iff no_failure_def)
  moreover have "gs_online sample_go_snapshot" by (simp add: sample_go_snapshot_def)
  ultimately show ?thesis
    using offline_alert_follows_store [OF sample_live_run _ _ _ _ _ _ _ _ store, of ?ev 7 ?run]
    by (simp add: empty_alert_db_def db_ok_def states_own_def rule_events_def offline_rule_def sample_offline_rule_def)
qed

end
