(* ===== verification/AlertTables.thy ===== *)
theory AlertTables
  imports AlertRoutes AlertProps
begin

text \<open>
  What every operation on the alert tables keeps: ids that grow, references that resolve, rules that
  the form of the rules allows.
\<close>

section \<open>The invariant\<close>

definition rules_ok :: "go_server list \<Rightarrow> alert_db \<Rightarrow> bool" where
  "rules_ok srvs db \<longleftrightarrow>
     sorted_wrt (<) (map fst (db_rules db)) \<and>
     (\<forall>(i, rule) \<in> set (db_rules db). 1 \<le> i \<and> i < db_nextRule db \<and> go_rule_ok rule \<and>
        server_known srvs (gr_serverId rule))"

definition states_ok :: "alert_db \<Rightarrow> bool" where
  "states_ok db \<longleftrightarrow>
     (\<forall>i st. db_states db i = Some st \<longrightarrow>
        i \<in> fst ` set (db_rules db) \<and> as_ruleId st = i \<and> validStatus (as_status st))"

definition alert_events_ok :: "go_server list \<Rightarrow> alert_db \<Rightarrow> bool" where
  "alert_events_ok srvs db \<longleftrightarrow>
     sorted_wrt (<) (map ae_id (db_events db)) \<and>
     (\<forall>e \<in> set (db_events db). 1 \<le> ae_id e \<and> ae_id e < db_nextEvent db \<and> validStatus (ae_status e) \<and>
        ae_ruleId e \<in> fst ` set (db_rules db) \<and> server_known srvs (ae_serverId e))"

definition recorded_ok :: "alert_db \<Rightarrow> bool" where
  "recorded_ok db \<longleftrightarrow>
     sorted_wrt (<) (map wr_id (db_attempts db)) \<and>
     (\<forall>row \<in> set (db_attempts db). wr_id row < db_nextAttempt db \<and> 1 \<le> ga_attempt (wr_attempt row) \<and>
        (\<forall>i. ga_eventId (wr_attempt row) = Some i \<longrightarrow> i \<in> ae_id ` set (db_events db)))"

definition alert_tables_ok :: "go_server list \<Rightarrow> alert_db \<Rightarrow> bool" where
  "alert_tables_ok srvs db \<longleftrightarrow>
     1 \<le> db_nextRule db \<and> 1 \<le> db_nextEvent db \<and> rules_ok srvs db \<and> states_ok db \<and> alert_events_ok srvs db \<and>
     recorded_ok db"

lemmas table_parts = rules_ok_def states_ok_def alert_events_ok_def recorded_ok_def

lemma alert_tables_empty: "alert_tables_ok srvs empty_alert_db"
  by (simp add: alert_tables_ok_def table_parts empty_alert_db_def)

lemma server_known_mono: "set srvs \<subseteq> set srvs' \<Longrightarrow> server_known srvs i \<Longrightarrow> server_known srvs' i"
  by (auto simp: server_known_def)

lemma alert_tables_servers:
  assumes "alert_tables_ok srvs db" and "\<And>i. server_known srvs i \<Longrightarrow> server_known srvs' i"
  shows "alert_tables_ok srvs' db"
  using assms by (auto simp: alert_tables_ok_def table_parts)

section \<open>The operations\<close>

lemma sorted_wrt_snoc: "sorted_wrt (<) (xs @ [x]) \<longleftrightarrow> sorted_wrt (<) xs \<and> (\<forall>y \<in> set xs. y < x)" for x :: int
  by (auto simp: sorted_wrt_append)

lemma sorted_map_filter: "sorted_wrt (<) (map f xs) \<Longrightarrow> sorted_wrt (<) (map f (filter P xs))" for f :: "'a \<Rightarrow> int"
  by (induction xs) auto

lemma set_rule_keys [simp]: "map fst (set_rule i rule rows) = map fst rows" "fst ` set (set_rule i rule rows) = fst ` set rows"
proof -
  show "map fst (set_rule i rule rows) = map fst rows" by (simp add: set_rule_def)
  then show "fst ` set (set_rule i rule rows) = fst ` set rows" by (metis list.set_map)
qed

lemma CreateRule_ok:
  assumes "alert_tables_ok srvs db" and "go_rule_ok rule"
  shows "alert_tables_ok srvs (snd (CreateRule srvs f now rule db))"
proof -
  have r: "rules_ok srvs (db\<lparr>db_rules := db_rules db @ [(db_nextRule db, rule)], db_nextRule := db_nextRule db + 1\<rparr>)"
    if "server_known srvs (gr_serverId rule)"
    using assms that by (fastforce simp: alert_tables_ok_def rules_ok_def sorted_wrt_snoc)
  then show ?thesis
    using assms by (auto simp: CreateRule_def Let_def alert_tables_ok_def table_parts)
qed

lemma UpdateRule_ok:
  assumes "alert_tables_ok srvs db" and "go_rule_ok rule"
  shows "alert_tables_ok srvs (snd (UpdateRule srvs w f now i rule db))"
proof -
  have "rules_ok srvs (db\<lparr>db_rules := set_rule i rule (db_rules db)\<rparr>)" if "server_known srvs (gr_serverId rule)"
    unfolding rules_ok_def using assms that
    by (auto simp: alert_tables_ok_def rules_ok_def) (auto simp: set_rule_def)
  then show ?thesis
    using assms by (auto simp: UpdateRule_def Let_def alert_tables_ok_def table_parts)
qed

lemma cascade_ok:
  assumes "alert_tables_ok srvs db"
    and "\<And>i rule. (i, rule) \<in> set (db_rules db) \<Longrightarrow> \<not> gone i \<Longrightarrow> server_known srvs' (gr_serverId rule)"
    and "\<And>e. e \<in> set (db_events db) \<Longrightarrow> \<not> gone (ae_ruleId e) \<Longrightarrow> \<not> gone_event e \<Longrightarrow> server_known srvs' (ae_serverId e)"
  shows "alert_tables_ok srvs' (cascade gone gone_event db)"
proof -
  let ?db = "cascade gone gone_event db"
  have "rules_ok srvs' ?db" and "states_ok ?db"
    using assms by (force simp: alert_tables_ok_def rules_ok_def cascade_def Let_def sorted_map_filter,
        force simp: alert_tables_ok_def states_ok_def cascade_def Let_def)
  moreover have "alert_events_ok srvs' ?db"
    using assms by (force simp: alert_tables_ok_def alert_events_ok_def cascade_def Let_def sorted_map_filter)
  moreover have "recorded_ok ?db"
    using assms by (auto simp: alert_tables_ok_def recorded_ok_def cascade_def Let_def sorted_map_filter)
  ultimately show ?thesis using assms(1) by (simp add: alert_tables_ok_def cascade_def Let_def)
qed

lemma DeleteRule_ok:
  assumes "alert_tables_ok srvs db"
  shows "alert_tables_ok srvs (snd (DeleteRule f i db))"
proof -
  have "alert_tables_ok srvs (cascade (\<lambda>j. j = i) (\<lambda>e. False) db)"
    using assms by (intro cascade_ok) (auto simp: alert_tables_ok_def rules_ok_def alert_events_ok_def)
  then show ?thesis using assms by (simp add: DeleteRule_def)
qed

lemma rule_of_server_row:
  assumes "alert_tables_ok srvs db" and "(j, rule) \<in> set (db_rules db)"
  shows "map_of (db_rules db) j = Some rule" "rule_of_server i db j \<longleftrightarrow> gr_serverId rule = i"
proof -
  have "distinct (map fst (db_rules db))"
    using assms(1) by (auto simp: alert_tables_ok_def rules_ok_def strict_sorted_iff)
  then show "map_of (db_rules db) j = Some rule" using assms(2) by simp
  then show "rule_of_server i db j \<longleftrightarrow> gr_serverId rule = i" by (simp add: rule_of_server_def)
qed

lemma cascade_server_ok:
  assumes "alert_tables_ok srvs db" and "\<And>j. server_known srvs j \<Longrightarrow> j \<noteq> i \<Longrightarrow> server_known srvs' j"
  shows "alert_tables_ok srvs' (cascade_server i db)"
proof -
  note row = rule_of_server_row [OF assms(1)]
  show ?thesis
    unfolding cascade_server_def
  proof (rule cascade_ok [OF assms(1)])
    fix j rule assume "(j, rule) \<in> set (db_rules db)" "\<not> rule_of_server i db j"
    then show "server_known srvs' (gr_serverId rule)"
      using row(2) assms by (auto simp: alert_tables_ok_def rules_ok_def)
  next
    fix e assume "e \<in> set (db_events db)" "ae_serverId e \<noteq> i"
    then show "server_known srvs' (ae_serverId e)"
      using assms by (auto simp: alert_tables_ok_def alert_events_ok_def)
  qed
qed

lemma RecordAttempt_ok: "alert_tables_ok srvs db \<Longrightarrow> alert_tables_ok srvs (snd (RecordAttempt f t a db))"
  by (auto simp: RecordAttempt_def Let_def alert_tables_ok_def table_parts sorted_wrt_snoc split: option.splits)

lemma UpsertWebhook_ok: "alert_tables_ok srvs db \<Longrightarrow> alert_tables_ok srvs (snd (UpsertWebhook f now c db))"
  by (auto simp: UpsertWebhook_def Let_def alert_tables_ok_def table_parts)

text \<open>A save of the evaluator, when the foreign key of the event's server holds.\<close>

definition saved :: "world \<Rightarrow> rule_state \<Rightarrow> go_event option \<Rightarrow> alert_db \<Rightarrow> alert_db" where
  "saved w st event db = (case SaveStateAndEvent w st event db of Inl err \<Rightarrow> db | Inr (e, db') \<Rightarrow> db')"

lemma saved_ok:
  assumes "alert_tables_ok srvs db" and "\<And>e. event = Some e \<Longrightarrow> server_known srvs (ae_serverId e)"
  shows "alert_tables_ok srvs (saved w st event db)"
proof (cases event)
  case None
  then show ?thesis
    using assms by (auto simp: saved_def SaveStateAndEvent_def Let_def alert_tables_ok_def table_parts)
next
  case (Some e)
  then show ?thesis
    using assms
    by (auto simp: saved_def SaveStateAndEvent_def Let_def alert_tables_ok_def table_parts sorted_wrt_snoc)
qed

end
