(* ===== verification/Sessions.thy ===== *)
theory Sessions
  imports Registry
begin

text \<open>
  \<^verbatim>\<open>internal/auth\<close>: the administrator, the sessions and what each handler answers. SHA-256, the
  password hash of the library (\<open>hash\<close>, \<open>verify\<close>), the clock and the text \<open>sec_text\<close> of a time to the
  second are parameters; a call of the database that fails leaves it as it is.
\<close>

section \<open>Times as texts\<close>

text \<open>
  \<open>RFC3339Nano\<close> in UTC: the fraction of a second has no trailing zeros and is left out when it is 0.
\<close>

fun fixed_digits :: "nat \<Rightarrow> int \<Rightarrow> string" where
  "fixed_digits 0 n = []"
| "fixed_digits (Suc k) n = fixed_digits k (n div 10) @ [char_of (48 + nat (n mod 10))]"

definition frac_text :: "int \<Rightarrow> string" where
  "frac_text ns =
     (if ns = 0 then ''''
      else CHR ''.'' # rev (dropWhile (\<lambda>c. c = CHR ''0'') (rev (fixed_digits 9 ns))))"

definition time_text :: "(int \<Rightarrow> string) \<Rightarrow> int \<Rightarrow> string" where
  "time_text sec_text t = sec_text (t div 1000000000) @ frac_text (t mod 1000000000) @ ''Z''"

section \<open>The service (service.go)\<close>

datatype auth_error =
    ErrSetupComplete
  | AuthInvalidInput
  | ErrInvalidLogin
  | ErrUnauthenticated
  | AuthFailure

text \<open>
  The tables \<open>admins\<close>, with at most the row of id 1 (name and hash), and \<open>sessions\<close>, from digests to
  the texts of their ends.
\<close>

record auth_db =
  ad_admin :: "(string \<times> string) option"
  ad_sessions :: "(string \<times> string) list"

definition SetupRequired :: "bool \<Rightarrow> auth_db \<Rightarrow> auth_error + bool" where
  "SetupRequired fails db = (if fails then Inl AuthFailure else Inr (ad_admin db = None))"

text \<open>
  \<open>required\<close> is the answer of \<open>SetupRequired\<close>, which another request may have made stale before the
  insertion; \<open>None\<close> is a nil error.
\<close>

definition CreateAdmin ::
  "(string \<Rightarrow> string option) \<Rightarrow> auth_error + bool \<Rightarrow> bool \<Rightarrow> string \<Rightarrow> string \<Rightarrow> auth_db \<Rightarrow>
   auth_error option \<times> auth_db" where
  "CreateAdmin hash required insert_fails username password db =
     (if length username < 1 \<or> length username > 64 \<or> length password < 12 \<or> length password > 128
      then (Some AuthInvalidInput, db)
      else case required of
             Inl err \<Rightarrow> (Some err, db)
           | Inr False \<Rightarrow> (Some ErrSetupComplete, db)
           | Inr True \<Rightarrow>
               (case hash password of
                  None \<Rightarrow> (Some AuthFailure, db)
                | Some encoded \<Rightarrow>
                    if insert_fails then (Some AuthFailure, db)
                    else if ad_admin db \<noteq> None then (Some ErrSetupComplete, db)
                    else (None, db\<lparr>ad_admin := Some (username, encoded)\<rparr>)))"

definition dummyPasswordHash :: string where
  "dummyPasswordHash =
     ''$argon2id$v=19$m=65536,t=1,p=12$FDKiXYbml13FC/LuELea5Q$lLcuyKnc+IrVPHELeLyBVtPz872Q4x13pbmwguGktlg''"

definition tokenPair :: "(string \<Rightarrow> string) \<Rightarrow> string option \<Rightarrow> (string \<times> string) option" where
  "tokenPair sha bytes = map_option (\<lambda>raw. let content = base64_url raw in (content, sha content)) bytes"

definition session_length :: int where
  "session_length = 7 * 24 * 3600 * 1000000000"

text \<open>\<open>verify\<close> gives \<open>None\<close> for an error; the name is compared only after the password has been checked.\<close>

definition Login ::
  "(string \<Rightarrow> string) \<Rightarrow> (int \<Rightarrow> string) \<Rightarrow> (string \<Rightarrow> string \<Rightarrow> bool option) \<Rightarrow> string option \<Rightarrow> bool \<Rightarrow> bool \<Rightarrow> int \<Rightarrow>
   string \<Rightarrow> string \<Rightarrow> auth_db \<Rightarrow> (auth_error + string \<times> int) \<times> auth_db" where
  "Login sha sec_text verify bytes query_fails insert_fails now username password db =
     (if query_fails then (Inl AuthFailure, db)
      else let (encoded, usernameMismatch) =
                 (case ad_admin db of
                    None \<Rightarrow> (dummyPasswordHash, True)
                  | Some (stored, h) \<Rightarrow> (h, stored \<noteq> username))
           in if verify password encoded \<noteq> Some True \<or> usernameMismatch then (Inl ErrInvalidLogin, db)
              else case tokenPair sha bytes of
                     None \<Rightarrow> (Inl AuthFailure, db)
                   | Some (raw, digest) \<Rightarrow>
                       let expires = now + session_length
                       in if insert_fails \<or> digest \<in> fst ` set (ad_sessions db) then (Inl AuthFailure, db)
                          else (Inr (raw, expires),
                                db\<lparr>ad_sessions := (digest, time_text sec_text expires) # ad_sessions db\<rparr>))"

text \<open>The comparison of the ends is the database's, of texts byte by byte.\<close>

definition Authenticate ::
  "(string \<Rightarrow> string) \<Rightarrow> (int \<Rightarrow> string) \<Rightarrow> bool \<Rightarrow> int \<Rightarrow> string \<Rightarrow> auth_db \<Rightarrow> auth_error + string" where
  "Authenticate sha sec_text fails now rawToken db =
     (if fails then Inl AuthFailure
      else case (map_of (ad_sessions db) (sha rawToken), ad_admin db) of
             (Some expires, Some (username, h)) \<Rightarrow>
               if expires > time_text sec_text now then Inr username else Inl ErrUnauthenticated
           | _ \<Rightarrow> Inl ErrUnauthenticated)"

definition Logout :: "(string \<Rightarrow> string) \<Rightarrow> bool \<Rightarrow> string \<Rightarrow> auth_db \<Rightarrow> auth_error option \<times> auth_db" where
  "Logout sha fails rawToken db =
     (if fails then (Some AuthFailure, db)
      else (None, db\<lparr>ad_sessions := filter (\<lambda>(d, e). d \<noteq> sha rawToken) (ad_sessions db)\<rparr>))"

section \<open>The handlers (handler.go, middleware.go)\<close>

definition sessionMaxAge :: int where
  "sessionMaxAge = 7 * 24 * 60 * 60"

text \<open>The cookie a response sets: its value and its maximal age in seconds.\<close>

record auth_reply =
  ar_status :: nat
  ar_cookie :: "(string \<times> int) option"
  ar_user :: "string option"

definition plain_reply :: "nat \<Rightarrow> auth_reply" where
  "plain_reply status = \<lparr>ar_status = status, ar_cookie = None, ar_user = None\<rparr>"

text \<open>\<open>credentials\<close> is what \<open>decodeCredentials\<close> reads, or the status it answers with: 415 or 400.\<close>

definition setup_handler ::
  "(string \<Rightarrow> string option) \<Rightarrow> auth_error + bool \<Rightarrow> bool \<Rightarrow> nat + string \<times> string \<Rightarrow> auth_db \<Rightarrow>
   auth_reply \<times> auth_db" where
  "setup_handler hash required insert_fails credentials db =
     (case credentials of
        Inl status \<Rightarrow> (plain_reply status, db)
      | Inr (username, password) \<Rightarrow>
          (case CreateAdmin hash required insert_fails username password db of
             (None, db') \<Rightarrow> (\<lparr>ar_status = 201, ar_cookie = None, ar_user = Some username\<rparr>, db')
           | (Some AuthInvalidInput, db') \<Rightarrow> (plain_reply 400, db')
           | (Some ErrSetupComplete, db') \<Rightarrow> (plain_reply 409, db')
           | (Some _, db') \<Rightarrow> (plain_reply 500, db')))"

definition login_handler ::
  "(string \<Rightarrow> string) \<Rightarrow> (int \<Rightarrow> string) \<Rightarrow> (string \<Rightarrow> string \<Rightarrow> bool option) \<Rightarrow> string option \<Rightarrow> bool \<Rightarrow> bool \<Rightarrow> int \<Rightarrow>
   nat + string \<times> string \<Rightarrow> auth_db \<Rightarrow> auth_reply \<times> auth_db" where
  "login_handler sha sec_text verify bytes query_fails insert_fails now credentials db =
     (case credentials of
        Inl status \<Rightarrow> (plain_reply status, db)
      | Inr (username, password) \<Rightarrow>
          (case Login sha sec_text verify bytes query_fails insert_fails now username password db of
             (Inl ErrInvalidLogin, db') \<Rightarrow> (plain_reply 401, db')
           | (Inl _, db') \<Rightarrow> (plain_reply 500, db')
           | (Inr (token, expires), db') \<Rightarrow>
               (\<lparr>ar_status = 200, ar_cookie = Some (token, sessionMaxAge), ar_user = None\<rparr>, db')))"

text \<open>\<open>RequireSession\<close>: the status it answers with, or the user and the token of the request.\<close>

definition RequireSession ::
  "(string \<Rightarrow> string) \<Rightarrow> (int \<Rightarrow> string) \<Rightarrow> bool \<Rightarrow> int \<Rightarrow> string option \<Rightarrow> auth_db \<Rightarrow> nat + string \<times> string" where
  "RequireSession sha sec_text fails now cookie db =
     (if cookie = None \<or> cookie = Some '''' then Inl 401
      else case Authenticate sha sec_text fails now (the cookie) db of
             Inl ErrUnauthenticated \<Rightarrow> Inl 401
           | Inl _ \<Rightarrow> Inl 500
           | Inr username \<Rightarrow> Inr (username, the cookie))"

definition me_handler :: "nat + string \<times> string \<Rightarrow> auth_reply" where
  "me_handler session =
     (case session of
        Inl status \<Rightarrow> plain_reply status
      | Inr (username, token) \<Rightarrow> \<lparr>ar_status = 200, ar_cookie = None, ar_user = Some username\<rparr>)"

definition logout_handler ::
  "(string \<Rightarrow> string) \<Rightarrow> bool \<Rightarrow> nat + string \<times> string \<Rightarrow> auth_db \<Rightarrow> auth_reply \<times> auth_db" where
  "logout_handler sha fails session db =
     (case session of
        Inl status \<Rightarrow> (plain_reply status, db)
      | Inr (username, token) \<Rightarrow>
          (case Logout sha fails token db of
             (Some err, db') \<Rightarrow> (plain_reply 500, db')
           | (None, db') \<Rightarrow> (\<lparr>ar_status = 204, ar_cookie = Some ('''', - 1), ar_user = None\<rparr>, db')))"

end
