(* ===== verification/HistoryServer.thy ===== *)
theory HistoryServer
  imports LiveCoordinator HistoryData "HOL-Library.AList"
begin

text \<open>
  \<^verbatim>\<open>internal/history\<close>: the accumulator of a minute, the aggregator that flushes finished minutes
  to a writer, the store with its paged query, and the handler of a history request. The
  records that the web interface knows have the field names of \<open>HistoryData\<close>; the server's have
  their own, with 64-bit counters.
\<close>

section \<open>Records (model.go)\<close>

record g_disk_minute =
  gd_mountpoint :: string
  gd_usage :: pair
  gd_total :: u64
  gd_used :: u64

record g_payload =
  gp_cpuUsage :: pair
  gp_load1 :: pair
  gp_load5 :: pair
  gp_load15 :: pair
  gp_memoryUsage :: pair
  gp_swapUsage :: pair
  gp_disks :: "g_disk_minute list"
  gp_diskRead :: pair
  gp_diskWrite :: pair
  gp_upload :: pair
  gp_download :: pair
  gp_totalUpload :: u64
  gp_totalDownload :: u64

record g_minute =
  gm_serverId :: int
  gm_minuteUnix :: int
  gm_payload :: g_payload

section \<open>The accumulator (accumulator.go)\<close>

record numeric =
  n_count :: u64
  n_sum :: jsnum
  n_max :: jsnum

definition numeric_zero :: numeric where
  "numeric_zero = \<lparr>n_count = 0, n_sum = Fin 0, n_max = Fin 0\<rparr>"

definition numeric_add :: "jsnum \<Rightarrow> numeric \<Rightarrow> numeric" where
  "numeric_add v n =
     (let count = n_count n + 1
      in \<lparr>n_count = count, n_sum = js_add (n_sum n) v,
          n_max = (if count = 1 \<or> js_lt (n_max n) v then v else n_max n)\<rparr>)"

definition numeric_pair :: "numeric \<Rightarrow> pair" where
  "numeric_pair n =
     (if n_count n = 0 then \<lparr>average = Fin 0, maximum = Fin 0\<rparr>
      else \<lparr>average = js_div (n_sum n) (float_of (n_count n)), maximum = n_max n\<rparr>)"

record disk_acc =
  da_usage :: numeric
  da_total :: u64
  da_used :: u64
  da_last :: "int option"

text \<open>\<open>da_last\<close> and \<open>ac_last\<close> are the time of the last report and whether there is one.\<close>

record accumulator =
  ac_cpuUsage :: numeric
  ac_load1 :: numeric
  ac_load5 :: numeric
  ac_load15 :: numeric
  ac_memoryUsage :: numeric
  ac_swapUsage :: numeric
  ac_disks :: "(string \<times> disk_acc) list"
  ac_diskRead :: numeric
  ac_diskWrite :: numeric
  ac_upload :: numeric
  ac_download :: numeric
  ac_totalUpload :: u64
  ac_totalDownload :: u64
  ac_last :: "int option"

definition acc_zero :: accumulator where
  "acc_zero =
     \<lparr>ac_cpuUsage = numeric_zero, ac_load1 = numeric_zero, ac_load5 = numeric_zero,
      ac_load15 = numeric_zero, ac_memoryUsage = numeric_zero, ac_swapUsage = numeric_zero,
      ac_disks = [], ac_diskRead = numeric_zero, ac_diskWrite = numeric_zero,
      ac_upload = numeric_zero, ac_download = numeric_zero, ac_totalUpload = 0,
      ac_totalDownload = 0, ac_last = None\<rparr>"

text \<open>
  The maps from mount points are association lists with one pair per key, so their order stands
  for the order in which Go iterates; the result does not depend on it.
\<close>

definition report_disks :: "g_report \<Rightarrow> (string \<times> g_disk) list" where
  "report_disks rep = foldl (\<lambda>m d. AList.update (g_mountpoint d) d m) [] (disks_list rep)"

definition newer :: "int option \<Rightarrow> int option \<Rightarrow> bool" where
  "newer received last_received =
     (case (received, last_received) of (Some t, Some l) \<Rightarrow> \<not> t < l | _ \<Rightarrow> True)"

definition acc_disk :: "int option \<Rightarrow> g_disk \<Rightarrow> (string \<times> disk_acc) list \<Rightarrow> (string \<times> disk_acc) list" where
  "acc_disk received disk ds =
     (let entry0 = nullish (map_of ds (g_mountpoint disk))
                     \<lparr>da_usage = numeric_zero, da_total = 0, da_used = 0, da_last = None\<rparr>;
          entry = entry0\<lparr>da_usage :=
                     numeric_add (usage_percent (g_diskUsed disk) (g_diskTotal disk)) (da_usage entry0)\<rparr>
      in AList.update (g_mountpoint disk)
           (if newer received (da_last entry)
            then entry\<lparr>da_total := g_diskTotal disk, da_used := g_diskUsed disk, da_last := received\<rparr>
            else entry) ds)"

text \<open>\<open>received\<close> is \<open>None\<close> for the unordered \<open>Add\<close> and the time of the report for \<open>addAt\<close>.\<close>

definition acc_add :: "int option \<Rightarrow> g_report \<Rightarrow> accumulator \<Rightarrow> accumulator" where
  "acc_add received rep a =
     (let c = g_cpu rep; m = g_memory rep; n = g_network rep;
          a1 = a\<lparr>ac_cpuUsage := numeric_add (g_usagePercent c) (ac_cpuUsage a),
                 ac_load1 := numeric_add (g_load1 c) (ac_load1 a),
                 ac_load5 := numeric_add (g_load5 c) (ac_load5 a),
                 ac_load15 := numeric_add (g_load15 c) (ac_load15 a),
                 ac_memoryUsage := numeric_add (usage_percent (g_memUsed m) (g_memTotal m)) (ac_memoryUsage a),
                 ac_swapUsage := numeric_add (usage_percent (g_swapUsed m) (g_swapTotal m)) (ac_swapUsage a),
                 ac_disks := fold (\<lambda>(k, disk). acc_disk received disk) (report_disks rep) (ac_disks a),
                 ac_diskRead := numeric_add (float_of (g_readBps (g_diskIo rep))) (ac_diskRead a),
                 ac_diskWrite := numeric_add (float_of (g_writeBps (g_diskIo rep))) (ac_diskWrite a),
                 ac_upload := numeric_add (float_of (g_uploadBps n)) (ac_upload a),
                 ac_download := numeric_add (float_of (g_downloadBps n)) (ac_download a)\<rparr>
      in if newer received (ac_last a)
         then a1\<lparr>ac_totalUpload := g_totalUpload n, ac_totalDownload := g_totalDownload n,
                 ac_last := received\<rparr>
         else a1)"

definition finish_disk :: "string \<times> disk_acc \<Rightarrow> g_disk_minute" where
  "finish_disk e =
     \<lparr>gd_mountpoint = fst e, gd_usage = numeric_pair (da_usage (snd e)), gd_total = da_total (snd e),
      gd_used = da_used (snd e)\<rparr>"

definition acc_finish :: "int \<Rightarrow> int \<Rightarrow> accumulator \<Rightarrow> g_minute" where
  "acc_finish serverID minute a =
     \<lparr>gm_serverId = serverID, gm_minuteUnix = minute,
      gm_payload =
        \<lparr>gp_cpuUsage = numeric_pair (ac_cpuUsage a), gp_load1 = numeric_pair (ac_load1 a),
         gp_load5 = numeric_pair (ac_load5 a), gp_load15 = numeric_pair (ac_load15 a),
         gp_memoryUsage = numeric_pair (ac_memoryUsage a), gp_swapUsage = numeric_pair (ac_swapUsage a),
         gp_disks = map finish_disk (sort_key fst (ac_disks a)),
         gp_diskRead = numeric_pair (ac_diskRead a), gp_diskWrite = numeric_pair (ac_diskWrite a),
         gp_upload = numeric_pair (ac_upload a), gp_download = numeric_pair (ac_download a),
         gp_totalUpload = ac_totalUpload a, gp_totalDownload = ac_totalDownload a\<rparr>\<rparr>"

section \<open>The aggregator (aggregator.go)\<close>

type_synonym bucket_key = "int \<times> int"

text \<open>\<open>bu_ref\<close> is the identity of the bucket, which the flush compares.\<close>

record bucket =
  bu_acc :: accumulator
  bu_revision :: u64
  bu_ref :: nat

record candidate =
  ca_key :: bucket_key
  ca_ref :: nat
  ca_revision :: u64
  ca_record :: g_minute

text \<open>
  The state between the steps of a flush: the candidates that are left, whether the first of
  them has been written and with what result, and whether an error has been kept. \<open>ag_db\<close> is the
  state of the writer.
\<close>

record 'd aggregator =
  ag_buckets :: "(bucket_key \<times> bucket) list"
  ag_next :: nat
  ag_flush :: "candidate list"
  ag_written :: "bool option"
  ag_failed :: bool
  ag_db :: 'd

definition minute_of :: "int \<Rightarrow> int" where
  "minute_of t = t div (60 * 1000000000) * 60"

definition ag_accept :: "int \<Rightarrow> g_report \<Rightarrow> int \<Rightarrow> 'd aggregator \<Rightarrow> 'd aggregator" where
  "ag_accept serverID rep receivedAt ag =
     (let key = (serverID, minute_of receivedAt);
          found = map_of (ag_buckets ag) key;
          entry = nullish found \<lparr>bu_acc = acc_zero, bu_revision = 0, bu_ref = ag_next ag\<rparr>
      in ag\<lparr>ag_buckets :=
              AList.update key
                (entry\<lparr>bu_acc := acc_add (Some receivedAt) rep (bu_acc entry),
                       bu_revision := bu_revision entry + 1\<rparr>) (ag_buckets ag),
            ag_next := (if found = None then ag_next ag + 1 else ag_next ag)\<rparr>)"

definition ag_remove :: "int \<Rightarrow> 'd aggregator \<Rightarrow> 'd aggregator" where
  "ag_remove serverID ag =
     ag\<lparr>ag_buckets := filter (\<lambda>(key, b). fst key \<noteq> serverID) (ag_buckets ag)\<rparr>"

definition candidate_of :: "bucket_key \<times> bucket \<Rightarrow> candidate" where
  "candidate_of kb =
     \<lparr>ca_key = fst kb, ca_ref = bu_ref (snd kb), ca_revision = bu_revision (snd kb),
      ca_record = acc_finish (fst (fst kb)) (snd (fst kb)) (bu_acc (snd kb))\<rparr>"

text \<open>
  The steps of \<open>FlushBefore\<close>: the first holds the lock and picks the buckets of the minutes before
  the boundary, and the gate lets one flush in at a time; then each candidate is written, without
  the lock, and settled, with it.
\<close>

definition flush_begin :: "int \<Rightarrow> 'd aggregator \<Rightarrow> 'd aggregator" where
  "flush_begin boundary ag =
     (if ag_flush ag \<noteq> [] then ag
      else ag\<lparr>ag_flush := map candidate_of
                (sort_key fst (filter (\<lambda>(key, b). snd key * 1000000000 < boundary) (ag_buckets ag))),
              ag_written := None, ag_failed := False\<rparr>)"

definition flush_write :: "(g_minute \<Rightarrow> 'd \<Rightarrow> 'd option) \<Rightarrow> 'd aggregator \<Rightarrow> 'd aggregator" where
  "flush_write upsert ag =
     (case (ag_flush ag, ag_written ag) of
        (c # cs, None) \<Rightarrow>
          (case upsert (ca_record c) (ag_db ag) of
             None \<Rightarrow> ag\<lparr>ag_written := Some False\<rparr>
           | Some db \<Rightarrow> ag\<lparr>ag_db := db, ag_written := Some True\<rparr>)
      | _ \<Rightarrow> ag)"

definition flush_settle :: "'d aggregator \<Rightarrow> 'd aggregator" where
  "flush_settle ag =
     (case (ag_flush ag, ag_written ag) of
        (c # cs, Some ok) \<Rightarrow>
          let same = (case map_of (ag_buckets ag) (ca_key c) of
                        None \<Rightarrow> None
                      | Some b \<Rightarrow> if bu_ref b = ca_ref c then Some b else None);
              drop_bucket = (case same of None \<Rightarrow> False | Some b \<Rightarrow> ok \<and> bu_revision b = ca_revision c);
              err = (same \<noteq> None \<and> \<not> ok)
          in ag\<lparr>ag_buckets := (if drop_bucket then AList.delete (ca_key c) (ag_buckets ag) else ag_buckets ag),
                ag_flush := cs, ag_written := None, ag_failed := ag_failed ag \<or> err\<rparr>
      | _ \<Rightarrow> ag)"

section \<open>The store (store.go)\<close>

text \<open>
  The rows of the table, one per server and minute. A payload is stored as the value that its JSON
  text decodes to, \<open>None\<close> for a text that does not decode: encoding keeps the 64-bit counters and
  the finite numbers of a payload as they are.
\<close>

type_synonym minute_rows = "(bucket_key \<times> g_payload option) list"

definition pair_finite :: "pair \<Rightarrow> bool" where
  "pair_finite p \<longleftrightarrow> is_finite (average p) \<and> is_finite (maximum p)"

text \<open>\<open>json.Marshal\<close> refuses an infinity and a NaN.\<close>

definition marshal_ok :: "g_payload \<Rightarrow> bool" where
  "marshal_ok p \<longleftrightarrow>
     list_all pair_finite
       ([gp_cpuUsage p, gp_load1 p, gp_load5 p, gp_load15 p, gp_memoryUsage p, gp_swapUsage p,
         gp_diskRead p, gp_diskWrite p, gp_upload p, gp_download p] @ map gd_usage (gp_disks p))"

text \<open>\<open>exec_fails\<close> says of a row whether the database refuses it.\<close>

definition UpsertMinute ::
  "(bucket_key \<Rightarrow> bool) \<Rightarrow> g_minute \<Rightarrow> minute_rows \<Rightarrow> minute_rows option" where
  "UpsertMinute exec_fails record rows =
     (if \<not> marshal_ok (gm_payload record) \<or> exec_fails (gm_serverId record, gm_minuteUnix record) then None
      else Some (AList.update (gm_serverId record, gm_minuteUnix record) (Some (gm_payload record)) rows))"

definition maxHistoryQuerySeconds :: int where
  "maxHistoryQuerySeconds = 30 * 24 * 60 * 60"

definition maxHistoryQueryRows :: nat where
  "maxHistoryQueryRows = 43201"

definition historyQueryPageRows :: nat where
  "historyQueryPageRows = 256"

definition queryPage ::
  "minute_rows \<Rightarrow> int \<Rightarrow> int \<Rightarrow> int \<Rightarrow> int option \<Rightarrow> nat \<Rightarrow> (int \<times> g_payload option) list" where
  "queryPage rows serverID fromU toU after limit =
     take limit (sort_key fst (map (\<lambda>(key, p). (snd key, p))
       (filter (\<lambda>(key, p). fst key = serverID \<and>
          (case after of None \<Rightarrow> snd key \<ge> fromU | Some a \<Rightarrow> snd key > a) \<and> snd key \<le> toU) rows)))"

fun decode_page :: "int \<Rightarrow> (int \<times> g_payload option) list \<Rightarrow> g_minute list option" where
  "decode_page serverID [] = Some []"
| "decode_page serverID ((minute, p) # page) =
     (case p of
        None \<Rightarrow> None
      | Some content \<Rightarrow>
          map_option (\<lambda>rs. \<lparr>gm_serverId = serverID, gm_minuteUnix = minute, gm_payload = content\<rparr> # rs)
            (decode_page serverID page))"

lemma decode_page_length: "decode_page i page = Some rs \<Longrightarrow> length rs = length page"
  by (induction i page arbitrary: rs rule: decode_page.induct) (auto split: option.splits)

text \<open>\<open>fails n\<close>: the query of the page \<open>n\<close> fails, or the context has ended by then.\<close>

function query_loop ::
  "(nat \<Rightarrow> bool) \<Rightarrow> minute_rows \<Rightarrow> int \<Rightarrow> int \<Rightarrow> int \<Rightarrow> int option \<Rightarrow> nat \<Rightarrow> g_minute list \<Rightarrow>
   g_minute list option" where
  "query_loop fails rows serverID fromU toU after n recs =
     (if length recs < maxHistoryQueryRows then
        let pageLimit = min historyQueryPageRows (maxHistoryQueryRows - length recs);
            page = queryPage rows serverID fromU toU after pageLimit
        in if fails n then None
           else case decode_page serverID page of
                  None \<Rightarrow> None
                | Some rs \<Rightarrow>
                    if length page < pageLimit \<or> length (recs @ rs) = maxHistoryQueryRows then Some (recs @ rs)
                    else query_loop fails rows serverID fromU toU (Some (fst (last page))) (n + 1) (recs @ rs)
      else Some recs)"
  by pat_completeness auto
termination
proof (relation "measure (\<lambda>(fails, rows, i, f, t, after, n, recs). maxHistoryQueryRows - length recs)",
       goal_cases)
  case (2 fails rows serverID fromU toU after n recs limit page rs)
  have "0 < limit" using 2(1,2) by (simp add: historyQueryPageRows_def)
  moreover have "limit \<le> length page" using 2 by linarith
  moreover have "length rs = length page" using 2 by (simp add: decode_page_length)
  ultimately show ?case using 2(1) by simp
qed simp

declare query_loop.simps [simp del]

datatype query_error = InvalidRange | QueryFailure

text \<open>\<open>math.MaxInt64\<close>\<close>

definition max_int64 :: int where
  "max_int64 = 2 ^ 63 - 1"

definition Query ::
  "(nat \<Rightarrow> bool) \<Rightarrow> minute_rows \<Rightarrow> int \<Rightarrow> int \<Rightarrow> int \<Rightarrow> query_error + g_minute list" where
  "Query fails rows serverID fromU toU =
     (if fromU > toU \<or> (fromU \<le> max_int64 - maxHistoryQuerySeconds \<and> toU > fromU + maxHistoryQuerySeconds)
      then Inl InvalidRange
      else case query_loop fails rows serverID fromU toU None 0 [] of
             None \<Rightarrow> Inl QueryFailure
           | Some recs \<Rightarrow> Inr recs)"

definition DeleteBefore :: "int \<Rightarrow> minute_rows \<Rightarrow> minute_rows" where
  "DeleteBefore cutoff rows = filter (\<lambda>(key, p). \<not> snd key < cutoff) rows"

section \<open>The handler and the jobs (handler.go, jobs.go)\<close>

definition historyDuration :: "string \<Rightarrow> int option" where
  "historyDuration v =
     (if v = ''1d'' then Some (24 * 60 * 60)
      else if v = ''7d'' then Some (7 * 24 * 60 * 60)
      else if v = ''30d'' then Some (30 * 24 * 60 * 60)
      else None)"

datatype history_reply =
    HistoryReply int int "g_minute list"
  | HistoryStatus nat

text \<open>
  \<open>Get\<close>, durations in seconds: \<open>pathID\<close> is the parsed path parameter, \<open>lookup\<close> the registry's answer
  (the error is whether the server is unknown).
\<close>

definition history_get ::
  "string \<Rightarrow> int option \<Rightarrow> (int \<Rightarrow> bool + go_server) \<Rightarrow> int \<Rightarrow> (nat \<Rightarrow> bool) \<Rightarrow> minute_rows \<Rightarrow> history_reply" where
  "history_get range_text pathID lookup now fails rows =
     (case historyDuration range_text of
        None \<Rightarrow> HistoryStatus 400
      | Some duration \<Rightarrow>
          (case pathID of
             None \<Rightarrow> HistoryStatus 400
           | Some serverID \<Rightarrow>
               if serverID < 1 then HistoryStatus 400
               else case lookup serverID of
                      Inl unknown \<Rightarrow> HistoryStatus (if unknown then 404 else 500)
                    | Inr server \<Rightarrow>
                        let toU = minute_of now; fromU = toU - duration
                        in case Query fails rows serverID fromU toU of
                             Inl InvalidRange \<Rightarrow> HistoryStatus 400
                           | Inl QueryFailure \<Rightarrow> HistoryStatus 500
                           | Inr recs \<Rightarrow> HistoryReply fromU toU recs))"

text \<open>The boundary of a flush and the cutoff of the retention, from the clock.\<close>

definition flush_boundary :: "int \<Rightarrow> int" where
  "flush_boundary now = minute_of now * 1000000000"

definition retention_cutoff :: "int \<Rightarrow> int" where
  "retention_cutoff now = minute_of (now - 30 * 24 * 3600 * 1000000000)"

end
