(* ===== verification/ServerSystemProps.thy ===== *)
theory ServerSystemProps
  imports ServerSystem
begin

text \<open>
  What the registry and the live part owe each other: lookups after every change, the names in the
  store, the calls to the history, and the two properties.
\<close>

section \<open>Lookups\<close>

lemma find_map_conv: "find P (map f xs) = map_option f (find (P \<circ> f) xs)"
  by (induction xs) simp_all

lemma find_append_conv: "find P (xs @ ys) = (case find P xs of None \<Rightarrow> find P ys | Some x \<Rightarrow> Some x)"
  by (induction xs) simp_all

lemma find_server_rows: "find_server i r = map_option fst (find (\<lambda>row. sv_id (fst row) = i) (rg_rows r))"
  by (simp add: find_server_def registered_def find_map_conv o_def)

lemma find_server_update_row:
  assumes "\<And>sv. sv_id (g sv) = sv_id sv"
  shows "find_server i (update_row j (\<lambda>(sv, d). (g sv, h d)) r) =
    (if i = j then map_option g (find_server i r) else find_server i r)"
proof -
  have "find_server i (r\<lparr>rg_rows := map (\<lambda>row. if sv_id (fst row) = j then (\<lambda>(sv, d). (g sv, h d)) row else row) rows\<rparr>) =
      (if i = j then map_option g (find_server i (r\<lparr>rg_rows := rows\<rparr>)) else find_server i (r\<lparr>rg_rows := rows\<rparr>))" for rows
    by (induction rows) (auto simp: find_server_rows assms split: prod.splits)
  from this [of "rg_rows r"] show ?thesis by (simp add: update_row_def)
qed

lemma find_server_create:
  "find_server i (r\<lparr>rg_rows := rg_rows r @ [(sv, d)], rg_next := n\<rparr>) =
     (case find_server i r of None \<Rightarrow> (if sv_id sv = i then Some sv else None) | Some sv' \<Rightarrow> Some sv')"
  by (simp add: find_server_rows find_append_conv split: option.split)

lemma find_server_delete:
  "find_server i (r\<lparr>rg_rows := filter (\<lambda>row. sv_id (fst row) \<noteq> j) (rg_rows r)\<rparr>) =
     (if i = j then None else find_server i r)"
proof -
  have "find (\<lambda>row. sv_id (fst row) = i) (filter (\<lambda>row. sv_id (fst row) \<noteq> j) rows) =
      (if i = j then None else find (\<lambda>row. sv_id (fst row) = i) rows)" for rows :: "(go_server \<times> string) list"
    by (induction rows) auto
  then show ?thesis by (simp add: find_server_rows)
qed

lemma authenticated_is_registered:
  assumes "AuthenticateToken sha f t r = Inr sv" and "distinct (server_ids r)"
  shows "find_server (sv_id sv) r = Some sv"
proof -
  have "sv \<in> set (registered r)"
  proof -
    obtain d where "find (\<lambda>row. snd row = sha t) (rg_rows r) = Some (sv, d)"
      using assms(1) by (auto simp: AuthenticateToken_def split: if_splits option.splits)
    then have "(sv, d) \<in> set (rg_rows r)" by (metis find_Some_iff nth_mem)
    then show ?thesis by (force simp: registered_def)
  qed
  then show ?thesis using assms(2) by (rule find_server_unique [rotated])
qed

section \<open>The live part follows the registry\<close>

text \<open>The calls to the history: a server that has been removed is never mentioned again.\<close>

fun call_server :: "history_call \<Rightarrow> int" where
  "call_server (HistoryAccept i rep t) = i"
| "call_server (HistoryRemove i) = i"

fun removed_for_good :: "history_call list \<Rightarrow> bool" where
  "removed_for_good [] = True"
| "removed_for_good (HistoryRemove i # cs) = (i \<notin> set (map call_server cs) \<and> removed_for_good cs)"
| "removed_for_good (HistoryAccept i rep t # cs) = removed_for_good cs"

lemma removed_for_good_append:
  "removed_for_good (cs @ [c]) \<longleftrightarrow> removed_for_good cs \<and> HistoryRemove (call_server c) \<notin> set cs"
  by (induction cs rule: removed_for_good.induct) (cases c; auto)+

definition follows_registry :: "server_system \<Rightarrow> bool" where
  "follows_registry s \<longleftrightarrow>
     (\<forall>i snap. co_store (ss_live s) i = Some snap \<longrightarrow>
        (\<exists>sv. find_server i (ss_registry s) = Some sv \<and> sv_name sv = gs_serverName snap)) \<and>
     removed_for_good (co_history (ss_live s)) \<and>
     (\<forall>i. HistoryRemove i \<in> set (co_history (ss_live s)) \<longrightarrow>
        i < rg_next (ss_registry s) \<and> find_server i (ss_registry s) = None)"

lemma follows_registry_create:
  assumes "follows_registry s" and "registry_ok sha (ss_issued s) (ss_registry s)"
  shows "follows_registry (issue (Create sha bytes f g now name (ss_registry s)) s)"
proof (cases rule: Create_cases [of sha bytes f g now name "ss_registry s"])
  case 1
  then show ?thesis using assms by (simp add: follows_registry_def live_fields)
next
  case (2 sv raw d)
  then show ?thesis
    using assms(1) by (fastforce simp: follows_registry_def live_fields find_server_create split: option.split)
qed

lemma follows_registry_rotate:
  assumes "follows_registry s"
  shows "follows_registry (issue (RotateTokenWithServer sha bytes f now i (ss_registry s)) s)"
proof (cases rule: Rotate_cases [of sha bytes f now i "ss_registry s"])
  case 1
  then show ?thesis using assms by (simp add: follows_registry_def live_fields)
next
  case (2 sv raw d)
  then show ?thesis
    using assms by (fastforce simp: follows_registry_def live_fields find_server_update_row)
qed

lemma follows_registry_update:
  assumes "follows_registry s"
  shows "follows_registry (snd (Update f now i name enabled s))"
proof -
  have "follows_registry (s\<lparr>ss_live := snd (ReconcileUpdate (fst m) (ss_live s)), ss_registry := snd m\<rparr>)"
    if "m = update_statement f now i name' enabled (ss_registry s)" for m name'
  proof (cases "f \<or> find_server i (ss_registry s) = None")
    case True
    then show ?thesis using assms that by (auto simp: update_statement_def ReconcileUpdate_def follows_registry_def)
  next
    case False
    then obtain sv where sv: "find_server i (ss_registry s) = Some sv" by auto
    then have "m = (Inr (change_server name' enabled now sv),
        update_row i (\<lambda>(sv, d). (change_server name' enabled now sv, d)) (ss_registry s))" and "sv_id sv = i"
      using False that find_server_Some [OF sv] by (auto simp: update_statement_def)
    then show ?thesis
      using assms sv
      by (fastforce simp: follows_registry_def ReconcileUpdate_def store_rename_def find_server_update_row
          split: option.splits)
  qed
  then show ?thesis using assms by (simp add: Update_def Let_def case_prod_beta)
qed

lemma follows_registry_delete:
  assumes "follows_registry s" and "registry_ok sha (ss_issued s) (ss_registry s)"
  shows "follows_registry (snd (Delete f i s))"
proof (cases "f \<or> find_server i (ss_registry s) = None")
  case True
  then show ?thesis using assms(1)
    by (auto simp: follows_registry_def live_fields delete_statement_def ReconcileDelete_def)
next
  case False
  then obtain sv where sv: "find_server i (ss_registry s) = Some sv" by auto
  then have "i < rg_next (ss_registry s)"
    using assms(2) find_server_Some [OF sv] by (auto simp: registry_ok_def)
  moreover have "HistoryRemove i \<notin> set (co_history (ss_live s))"
    using assms(1) sv by (auto simp: follows_registry_def)
  ultimately show ?thesis
    using assms(1) False
    by (auto simp: follows_registry_def live_fields delete_statement_def ReconcileDelete_def store_delete_def
        find_server_delete removed_for_good_append)
qed

lemma follows_registry_version:
  "follows_registry s \<Longrightarrow> follows_registry (s\<lparr>ss_registry := snd (UpdateAgentVersion f i v (ss_registry s))\<rparr>)"
  by (fastforce simp: follows_registry_def UpdateAgentVersion_def find_server_update_row)

lemma follows_registry_accept:
  assumes "follows_registry s" and "registry_ok sha (ss_issued s) (ss_registry s)"
  shows "follows_registry (snd (Accept sha race f g token rep t src s))"
proof (cases "AuthenticateToken sha f token (ss_registry s)")
  case (Inl err)
  then show ?thesis using assms(1) by (simp add: Accept_def co_accept_def follows_registry_def)
next
  case (Inr sv)
  let ?u = "UpdateAgentVersion g (sv_id sv) (g_agentVersion rep) (ss_registry s)"
  have found: "find_server (sv_id sv) (ss_registry s) = Some sv"
    using Inr assms(2) by (auto intro: authenticated_is_registered simp: registry_ok_def)
  have s': "snd (Accept sha race f g token rep t src s) =
      s\<lparr>ss_live := snd (co_accept race (Inr sv) (fst ?u) rep t src (ss_live s)), ss_registry := snd ?u\<rparr>"
    by (simp add: Accept_def Inr Let_def case_prod_beta)
  have base: "follows_registry (s\<lparr>ss_registry := snd ?u\<rparr>)"
    using assms(1) by (rule follows_registry_version)
  show ?thesis
  proof (cases "fst ?u")
    case (Some err)
    then show ?thesis using base by (simp add: s' co_accept_def)
  next
    case None
    then have up: "snd ?u = update_row (sv_id sv) (\<lambda>(sv, d). (sv\<lparr>sv_agentVersion := g_agentVersion rep\<rparr>, d)) (ss_registry s)"
      by (auto simp: UpdateAgentVersion_def split: if_splits)
    have now: "find_server (sv_id sv) (snd ?u) = Some (sv\<lparr>sv_agentVersion := g_agentVersion rep\<rparr>)"
      by (simp add: up find_server_update_row found)
    then have "HistoryRemove (sv_id sv) \<notin> set (co_history (ss_live s))"
      using base by (auto simp: follows_registry_def)
    then show ?thesis
      using base now unfolding s' None follows_registry_def co_accept_fields
      by (auto simp: co_accept_fields UpsertFrom_def Let_def removed_for_good_append)
  qed
qed

lemma follows_registry_sweep:
  assumes "follows_registry s" and "distinct ids"
  shows "follows_registry (s\<lparr>ss_live := snd (co_sweep races ids cutoff (ss_live s))\<rparr>)"
proof -
  have "co_history (snd (co_sweep races ids cutoff c)) = co_history c" for c
    by (simp add: co_sweep_def case_prod_beta Let_def publish_all_fields)
  then show ?thesis
    using assms(1) by (auto simp: follows_registry_def co_sweep_fields(1) [OF assms(2)] gone_offline_def due_def
        split: if_splits option.splits)
qed

lemma system_run_follows: "system_run sha s \<Longrightarrow> follows_registry s"
proof (induction rule: system_run.induct)
  case sys_start
  show ?case by (simp add: follows_registry_def)
next
  case (sys_create s bytes f g now name)
  then show ?case by (blast intro: follows_registry_create system_run_registry)
next
  case (sys_delete s f i)
  then show ?case by (blast intro: follows_registry_delete system_run_registry)
next
  case (sys_accept s race f g token rep t src)
  then show ?case by (blast intro: follows_registry_accept system_run_registry)
next
  case (sys_streams s op)
  then show ?case by (simp add: follows_registry_def)
qed (simp_all add: follows_registry_rotate follows_registry_update follows_registry_sweep)

section \<open>The properties\<close>

text \<open>The registered server whose latest token is \<open>t\<close>.\<close>

definition token_server :: "string \<Rightarrow> server_system \<Rightarrow> go_server option" where
  "token_server t s =
     find (\<lambda>sv. map_of (ss_issued s) (sv_id sv) = Some t) (registered (ss_registry s))"

text \<open>
  C12: A token authenticates exactly the server it was last issued for. Whatever has been created,
  changed, rotated and deleted, with any failures: a token that is not the latest one of a registered
  server is refused, the latest one of a disabled server is refused as such, and the header an agent
  sends with an issued token is read back as that token. This rests on SHA-256 having no collision
  among the tokens in play.
\<close>

theorem token_authenticates_latest:
  assumes "system_run sha s" and "inj_on sha (insert t (snd ` set (ss_issued s)))"
  shows "AuthenticateToken sha False t (ss_registry s) =
      (case token_server t s of
         None \<Rightarrow> Inl InvalidToken
       | Some sv \<Rightarrow> if sv_enabled sv then Inr sv else Inl Disabled) \<and>
    (t \<in> snd ` set (ss_issued s) \<longrightarrow> bearerToken (''Bearer '' @ t) = Some t)"
proof
  note ok = system_run_registry [OF assms(1)]
  have "snd row = sha t \<longleftrightarrow> map_of (ss_issued s) (sv_id (fst row)) = Some t"
    if row: "row \<in> set (rg_rows (ss_registry s))" for row
  proof -
    obtain t' where t': "map_of (ss_issued s) (sv_id (fst row)) = Some t'" "snd row = sha t'"
      using ok row by (cases row) (fastforce simp: registry_ok_def)
    then have "t' \<in> snd ` set (ss_issued s)" by (metis map_of_SomeD snd_conv image_eqI)
    then show ?thesis using t' assms(2) by (auto simp: inj_on_def)
  qed
  then have "find (\<lambda>row. snd row = sha t) (rg_rows (ss_registry s)) =
      find (\<lambda>row. map_of (ss_issued s) (sv_id (fst row)) = Some t) (rg_rows (ss_registry s))"
    by (intro find_cong) simp_all
  then show "AuthenticateToken sha False t (ss_registry s) =
      (case token_server t s of
         None \<Rightarrow> Inl InvalidToken
       | Some sv \<Rightarrow> if sv_enabled sv then Inr sv else Inl Disabled)"
    by (auto simp: AuthenticateToken_def token_server_def registered_def find_map_conv o_def
        split: option.split)
  show "t \<in> snd ` set (ss_issued s) \<longrightarrow> bearerToken (''Bearer '' @ t) = Some t"
    using ok by (auto simp: registry_ok_def usable_def)
qed

text \<open>A run to evaluate the properties on: a server is created, its agent reports, its token is replaced.\<close>

definition sample_created :: server_system where
  "sample_created =
     (let s0 = \<lparr>ss_live = \<lparr>co_store = Map.empty, co_hub = NewHub, co_observed = [], co_history = []\<rparr>,
                ss_registry = empty_registry, ss_issued = []\<rparr>
      in issue (Create (\<lambda>t. t) (Some ''abc'') False False 7 ''home-lab'' (ss_registry s0)) s0)"

definition sample_system :: server_system where
  "sample_system =
     (let s1 = sample_created;
          s2 = snd (Accept (\<lambda>t. t) (\<lambda>i. (0, 0)) False False ''tp_YWJj'' sample_go_report 9 ''10.0.0.7'' s1)
      in issue (RotateTokenWithServer (\<lambda>t. t) (Some ''abd'') False 11 1 (ss_registry s2)) s2)"

lemma sample_system_run: "system_run (\<lambda>t. t) sample_system"
  unfolding sample_system_def sample_created_def Let_def by (intro system_run.intros)

lemma sample_tokens:
  "agentTokenPair (\<lambda>t. t) (Some ''abc'') = Some (''tp_YWJj'', ''tp_YWJj'')"
  "agentTokenPair (\<lambda>t. t) (Some ''abd'') = Some (''tp_YWJk'', ''tp_YWJk'')"
  "TrimSpace ''home-lab'' = ''home-lab''"
  by (simp_all add: agentTokenPair_def base64_char_def base64_alphabet_def TrimSpace_def trim_left.simps
      blank.simps space_len_def code_between_def Let_def)

lemma sample_created_eq:
  "sample_created =
     \<lparr>ss_live = \<lparr>co_store = Map.empty, co_hub = NewHub, co_observed = [], co_history = []\<rparr>,
      ss_registry = \<lparr>rg_rows = [(\<lparr>sv_id = 1, sv_name = ''home-lab'', sv_enabled = True, sv_agentVersion = '''',
          sv_createdAt = 7, sv_updatedAt = 7\<rparr>, ''tp_YWJj'')], rg_next = 2\<rparr>,
      ss_issued = [(1, ''tp_YWJj'')]\<rparr>"
  by (simp add: sample_created_def Create_def sample_tokens issue_def empty_registry_def maxServers_def Let_def)

lemma sample_accepted:
  "snd (Accept (\<lambda>t. t) (\<lambda>i. (0, 0)) False False ''tp_YWJj'' sample_go_report 9 ''10.0.0.7'' sample_created) =
     sample_created\<lparr>ss_live := snd (co_accept (\<lambda>i. (0, 0))
           (Inr (fst (hd (rg_rows (ss_registry sample_created))))) None sample_go_report 9 ''10.0.0.7''
           (ss_live sample_created)),
       ss_registry := update_row 1 (\<lambda>(sv, d). (sv\<lparr>sv_agentVersion := ''0.1.0''\<rparr>, d)) (ss_registry sample_created)\<rparr>"
  by (simp add: Accept_def AuthenticateToken_def UpdateAgentVersion_def find_server_def registered_def
      sample_created_eq case_prod_beta Let_def sample_go_report_def)

lemma sample_system_state:
  "ss_issued sample_system = [(1, ''tp_YWJk''), (1, ''tp_YWJj'')]"
  "rg_rows (ss_registry sample_system) =
     [(\<lparr>sv_id = 1, sv_name = ''home-lab'', sv_enabled = True, sv_agentVersion = ''0.1.0'', sv_createdAt = 7,
        sv_updatedAt = 11\<rparr>, ''tp_YWJk'')]"
  "map_option gs_serverName (co_store (ss_live sample_system) 1) = Some ''home-lab''"
  unfolding sample_system_def sample_accepted Let_def
  by (simp_all add: sample_created_eq RotateTokenWithServer_def sample_tokens issue_def find_server_def
      registered_def update_row_def co_accept_def UpsertFrom_def Let_def)

theorem token_authenticates_latest_witness:
  "AuthenticateToken (\<lambda>t. t) False ''tp_YWJj'' (ss_registry sample_system) = Inl InvalidToken \<and>
   (\<exists>sv. AuthenticateToken (\<lambda>t. t) False ''tp_YWJk'' (ss_registry sample_system) = Inr sv \<and> sv_id sv = 1)"
  using token_authenticates_latest [OF sample_system_run, of "''tp_YWJj''"]
    token_authenticates_latest [OF sample_system_run, of "''tp_YWJk''"]
  by (simp add: token_server_def registered_def sample_system_state)

text \<open>
  The live part follows the registry. At most ten servers are registered, and no two with one id;
  whatever is in the store of snapshots is registered, under the name that the snapshot carries; and
  once the history has been told of the removal of a server, it is never told anything of that
  server again, since ids are not reused.
\<close>

lemma store_follows_registry:
  assumes "system_run sha s"
  shows "length (registered (ss_registry s)) \<le> 10 \<and> distinct (map sv_id (registered (ss_registry s))) \<and>
    (case co_store (ss_live s) i of
       None \<Rightarrow> True
     | Some snap \<Rightarrow>
         (case find_server i (ss_registry s) of
            None \<Rightarrow> False
          | Some sv \<Rightarrow> gs_serverId snap = sv_id sv \<and> gs_serverName snap = sv_name sv)) \<and>
    removed_for_good (co_history (ss_live s))"
proof -
  note ok = system_run_registry [OF assms] and follows = system_run_follows [OF assms]
  have "length (registered (ss_registry s)) \<le> 10" "distinct (map sv_id (registered (ss_registry s)))"
    using ok by (simp_all add: registry_ok_def registered_def maxServers_def)
  moreover have "case co_store (ss_live s) i of
       None \<Rightarrow> True
     | Some snap \<Rightarrow>
         (case find_server i (ss_registry s) of
            None \<Rightarrow> False
          | Some sv \<Rightarrow> gs_serverId snap = sv_id sv \<and> gs_serverName snap = sv_name sv)"
  proof (cases "co_store (ss_live s) i")
    case (Some snap)
    then obtain sv where "find_server i (ss_registry s) = Some sv" "sv_name sv = gs_serverName snap"
      using follows unfolding follows_registry_def by blast
    moreover have "gs_serverId snap = i"
      using server_run_events [OF system_run_live [OF assms]] Some by (simp add: events_ok_def)
    ultimately show ?thesis using Some find_server_Some [of i "ss_registry s" sv] by simp
  qed simp
  ultimately show ?thesis using follows by (simp add: follows_registry_def)
qed


end
