(* ===== verification/HttpRouter.thy ===== *)
theory HttpRouter
  imports AlertTables Sessions HistoryServer ServerSystemProps
begin

text \<open>
  \<^verbatim>\<open>internal/httpapi/router.go\<close>: every route of the server with its handler, over the whole state of the
  server. Which route chi chooses for a request, and the values it takes from the path, are arguments;
  a request is answered in one step, with the status of its answer.
\<close>

section \<open>The state and a request\<close>

record probe =
  pb_auth :: auth_db
  pb_system :: server_system
  pb_alerts :: alert_db
  pb_minutes :: minute_rows

text \<open>What the handlers call of the libraries.\<close>

record library =
  lb_sha :: "string \<Rightarrow> string"
  lb_sec_text :: "int \<Rightarrow> string"
  lb_hash :: "string \<Rightarrow> string option"
  lb_verify :: "string \<Rightarrow> string \<Rightarrow> bool option"
  lb_lower :: "string \<Rightarrow> string"
  lb_parse_url :: "string \<Rightarrow> (string \<times> string) option"
  lb_renders :: "string \<Rightarrow> bool"
  lb_render :: "string \<Rightarrow> string + string"
  lb_time_ok :: "string \<Rightarrow> bool"

text \<open>
  The circumstances of a request: the clock for the session and for the handler, random bytes, which
  calls of the database fail (\<open>cn_fails n\<close>, counted within the request, 0 for the session), the reads
  of a rule's state and of the webhook, and what the other ends of connections do.
\<close>

record circumstances =
  cn_session_now :: int
  cn_now :: int
  cn_bytes :: "string option"
  cn_fails :: "nat \<Rightarrow> bool"
  cn_reads :: world
  cn_rereads :: world
  cn_attempts_fail :: "int \<Rightarrow> bool"
  cn_history_fails :: "nat \<Rightarrow> bool"
  cn_race :: "nat \<Rightarrow> nat \<times> nat"
  cn_sleeps :: "nat \<Rightarrow> bool"
  cn_send :: "string \<Rightarrow> nat \<Rightarrow> attempt_result"
  cn_record_fails :: "nat \<Rightarrow> bool"
  cn_sent :: "nat \<Rightarrow> int"
  cn_static :: nat

record http_request =
  rq_cookie :: "string option"
  rq_authorization :: string
  rq_body :: "nat + jv"
  rq_credentials :: "nat + string \<times> string"
  rq_report :: "decode_error + g_report"
  rq_source :: string

section \<open>The routes\<close>

text \<open>
  \<open>Unrouted\<close> is what no route takes: a missing endpoint, a wrong method, a file of the web interface or
  of the downloads. The texts are those of the path and of the query.
\<close>

datatype endpoint =
    Unrouted
  | GetHealth
  | GetSetupStatus
  | PostSetup
  | PostLogin
  | PostReport
  | PostLogout
  | GetMe
  | GetServers
  | GetStatus
  | GetServerStatus string
  | GetHistory string string
  | GetLive
  | GetRules
  | PostRule
  | PatchRule string
  | DeleteRuleAt string
  | GetEvents string string
  | GetWebhookAt
  | PutWebhookAt
  | PostWebhookTest
  | PostServer
  | PatchServer string
  | DeleteServer string
  | PostToken string

text \<open>The routes outside the group with \<open>RequireSession\<close>.\<close>

fun guarded :: "endpoint \<Rightarrow> bool" where
  "guarded Unrouted = False"
| "guarded GetHealth = False"
| "guarded GetSetupStatus = False"
| "guarded PostSetup = False"
| "guarded PostLogin = False"
| "guarded PostReport = False"
| "guarded _ = True"

section \<open>Reports and removals\<close>

text \<open>\<open>Ingest\<close> with the registry's own answers.\<close>

definition ingest_request ::
  "(string \<Rightarrow> string) \<Rightarrow> (nat \<Rightarrow> nat \<times> nat) \<Rightarrow> (nat \<Rightarrow> bool) \<Rightarrow> string \<Rightarrow> decode_error + g_report \<Rightarrow> int \<Rightarrow>
   string \<Rightarrow> server_system \<Rightarrow> nat \<times> server_system" where
  "ingest_request sha race fails authorization decoded now source s =
     (case bearerToken authorization of
        None \<Rightarrow> (401, s)
      | Some token \<Rightarrow>
          (case AuthenticateToken sha (fails 1) token (ss_registry s) of
             Inl err \<Rightarrow> (registry_status err, s)
           | Inr sv \<Rightarrow>
               (case decoded of
                  Inl TooLarge \<Rightarrow> (413, s)
                | Inl Malformed \<Rightarrow> (400, s)
                | Inr rep \<Rightarrow>
                    if \<not> validateReport rep then (400, s)
                    else (case Accept sha race (fails 2) (fails 3) token rep now source s of
                            (Inl err, s') \<Rightarrow> (registry_status err, s')
                          | (Inr snapshot, s') \<Rightarrow> (204, s')))))"

text \<open>
  The row of a server goes with everything that refers to it: \<open>ON DELETE CASCADE\<close> of the tables of alerts
  and of the minutes.
\<close>

definition remove_references :: "int \<Rightarrow> probe \<Rightarrow> probe" where
  "remove_references i p =
     p\<lparr>pb_alerts := cascade_server i (pb_alerts p),
       pb_minutes := filter (\<lambda>(key, payload). fst key \<noteq> i) (pb_minutes p)\<rparr>"

definition delete_server_request :: "bool \<Rightarrow> string \<Rightarrow> probe \<Rightarrow> nat \<times> probe" where
  "delete_server_request fails path_id p =
     (let (reply, s) = delete_server_handler fails path_id (pb_system p);
          p' = p\<lparr>pb_system := s\<rparr>
      in (fst reply,
          case routeID path_id of
            Some i \<Rightarrow> (if fst reply = 204 then remove_references i p' else p')
          | None \<Rightarrow> p'))"

section \<open>The handlers behind the routes\<close>

definition with_auth :: "auth_reply \<times> auth_db \<Rightarrow> probe \<Rightarrow> nat \<times> probe" where
  "with_auth answer p = (ar_status (fst answer), p\<lparr>pb_auth := snd answer\<rparr>)"

definition with_system :: "(nat \<times> server_body) \<times> server_system \<Rightarrow> probe \<Rightarrow> nat \<times> probe" where
  "with_system answer p = (fst (fst answer), p\<lparr>pb_system := snd answer\<rparr>)"

definition with_alerts :: "alert_reply \<times> alert_db \<Rightarrow> probe \<Rightarrow> nat \<times> probe" where
  "with_alerts answer p = (fst (fst answer), p\<lparr>pb_alerts := snd answer\<rparr>)"

definition history_status :: "history_reply \<Rightarrow> nat" where
  "history_status reply = (case reply of HistoryReply a b recs \<Rightarrow> 200 | HistoryStatus status \<Rightarrow> status)"

text \<open>\<open>ListStatus\<close> and \<open>DetailStatus\<close>, the status alone; \<open>PostReport\<close> and the setup read no session.\<close>

definition detail_status :: "bool \<Rightarrow> string \<Rightarrow> registry \<Rightarrow> snapshot_store \<Rightarrow> nat + g_snapshot" where
  "detail_status fails path_id reg store =
     (case routeID path_id of
        None \<Rightarrow> Inl 400
      | Some i \<Rightarrow>
          (case registry_get fails i reg of
             Inl err \<Rightarrow> Inl (if err = NotFound then 404 else 500)
           | Inr server \<Rightarrow> Inr (snapshotFor store server)))"

definition history_lookup :: "bool \<Rightarrow> registry \<Rightarrow> int \<Rightarrow> bool + go_server" where
  "history_lookup fails reg i =
     (case registry_get fails i reg of Inl err \<Rightarrow> Inl (err = NotFound) | Inr server \<Rightarrow> Inr server)"

fun open_route :: "library \<Rightarrow> circumstances \<Rightarrow> endpoint \<Rightarrow> http_request \<Rightarrow> probe \<Rightarrow> nat \<times> probe" where
  "open_route lb cn GetHealth rq p = (200, p)"
| "open_route lb cn GetSetupStatus rq p =
     ((case SetupRequired (cn_fails cn 1) (pb_auth p) of Inl err \<Rightarrow> 500 | Inr required \<Rightarrow> 200), p)"
| "open_route lb cn PostSetup rq p =
     with_auth (setup_handler (lb_hash lb) (SetupRequired (cn_fails cn 1) (pb_auth p)) (cn_fails cn 2)
                  (rq_credentials rq) (pb_auth p)) p"
| "open_route lb cn PostLogin rq p =
     with_auth (login_handler (lb_sha lb) (lb_sec_text lb) (lb_verify lb) (cn_bytes cn) (cn_fails cn 1) (cn_fails cn 2)
                  (cn_now cn) (rq_credentials rq) (pb_auth p)) p"
| "open_route lb cn PostReport rq p =
     (let (status, s) = ingest_request (lb_sha lb) (cn_race cn) (cn_fails cn) (rq_authorization rq) (rq_report rq)
                          (cn_now cn) (rq_source rq) (pb_system p)
      in (status, p\<lparr>pb_system := s\<rparr>))"
| "open_route lb cn _ rq p = (cn_static cn, p)"

fun session_route ::
  "library \<Rightarrow> circumstances \<Rightarrow> string \<times> string \<Rightarrow> endpoint \<Rightarrow> http_request \<Rightarrow> probe \<Rightarrow> nat \<times> probe" where
  "session_route lb cn session PostLogout rq p =
     with_auth (logout_handler (lb_sha lb) (cn_fails cn 1) (Inr session) (pb_auth p)) p"
| "session_route lb cn session GetServers rq p =
     (fst (list_servers_handler (cn_fails cn 1) (pb_system p)), p)"
| "session_route lb cn session GetStatus rq p =
     ((case registry_list (cn_fails cn 1) (ss_registry (pb_system p)) of Inl err \<Rightarrow> 500 | Inr srvs \<Rightarrow> 200), p)"
| "session_route lb cn session (GetServerStatus i) rq p =
     ((case detail_status (cn_fails cn 1) i (ss_registry (pb_system p)) (co_store (ss_live (pb_system p))) of
         Inl status \<Rightarrow> status | Inr snapshot \<Rightarrow> 200), p)"
| "session_route lb cn session (GetHistory i period) rq p =
     (history_status (history_get period (ParseInt i) (history_lookup (cn_fails cn 1) (ss_registry (pb_system p)))
        (cn_now cn) (cn_history_fails cn) (pb_minutes p)), p)"
| "session_route lb cn session GetLive rq p =
     (200, p\<lparr>pb_system := pb_system p\<lparr>ss_live := ss_live (pb_system p)
               \<lparr>co_hub := stream_step OpenStream (co_hub (ss_live (pb_system p)))\<rparr>\<rparr>\<rparr>)"
| "session_route lb cn session GetRules rq p = (fst (list_rules_handler (cn_fails cn 1) (pb_alerts p)), p)"
| "session_route lb cn session PostRule rq p =
     with_alerts (create_rule_handler (ss_registry (pb_system p)) (cn_fails cn 1) (cn_fails cn 2) (cn_now cn)
                    (rq_body rq) (pb_alerts p)) p"
| "session_route lb cn session (PatchRule i) rq p =
     with_alerts (update_rule_handler (ss_registry (pb_system p)) (cn_reads cn) (cn_rereads cn) (cn_fails cn 1)
                    (cn_fails cn 2) (cn_fails cn 3) (cn_now cn) i (rq_body rq) (pb_alerts p)) p"
| "session_route lb cn session (DeleteRuleAt i) rq p =
     with_alerts (delete_rule_handler (cn_fails cn 1) i (pb_alerts p)) p"
| "session_route lb cn session (GetEvents before limit) rq p =
     (fst (list_events_handler (ss_registry (pb_system p)) (cn_fails cn 1) (cn_attempts_fail cn) before limit
        (pb_alerts p)), p)"
| "session_route lb cn session GetWebhookAt rq p =
     (fst (get_webhook_handler (lb_lower lb) (cn_reads cn) (pb_alerts p)), p)"
| "session_route lb cn session PutWebhookAt rq p =
     with_alerts (put_webhook_handler (lb_time_ok lb) (lb_lower lb) (lb_parse_url lb) (lb_renders lb) (cn_reads cn)
                    (cn_fails cn 1) (cn_now cn) (rq_body rq) (pb_alerts p)) p"
| "session_route lb cn session PostWebhookTest rq p =
     with_alerts (test_webhook_handler (lb_parse_url lb) (lb_renders lb) (lb_render lb) (cn_sleeps cn) (cn_send cn)
                    (cn_record_fails cn) (cn_sent cn) (cn_reads cn) (pb_alerts p)) p"
| "session_route lb cn session PostServer rq p =
     with_system (create_server_handler (lb_sha lb) (cn_bytes cn) (cn_fails cn 1) (cn_fails cn 2) (cn_now cn)
                    (rq_body rq) (pb_system p)) p"
| "session_route lb cn session (PatchServer i) rq p =
     with_system (update_server_handler (cn_fails cn 1) (cn_now cn) i (rq_body rq) (pb_system p)) p"
| "session_route lb cn session (DeleteServer i) rq p = delete_server_request (cn_fails cn 1) i p"
| "session_route lb cn session (PostToken i) rq p =
     with_system (rotate_handler (lb_sha lb) (cn_bytes cn) (cn_fails cn 1) (cn_now cn) i (pb_system p)) p"
| "session_route lb cn session _ rq p = (ar_status (me_handler (Inr session)), p)"

text \<open>The router: the group goes through \<open>RequireSession\<close>.\<close>

definition serve :: "library \<Rightarrow> circumstances \<Rightarrow> endpoint \<Rightarrow> http_request \<Rightarrow> probe \<Rightarrow> nat \<times> probe" where
  "serve lb cn r rq p =
     (if \<not> guarded r then open_route lb cn r rq p
      else case RequireSession (lb_sha lb) (lb_sec_text lb) (cn_fails cn 0) (cn_session_now cn) (rq_cookie rq)
                  (pb_auth p) of
             Inl status \<Rightarrow> (status, p)
           | Inr session \<Rightarrow> session_route lb cn session r rq p)"

end
