(* ===== verification/SessionProps.thy ===== *)
theory SessionProps
  imports Sessions Auth
begin

text \<open>
  The life of a session: from a successful login until its logout or its end, which is seven days
  later up to the second, because the database compares the ends as texts.
\<close>

section \<open>The order of the texts\<close>

lemma list_less_split:
  fixes xs ys :: string
  assumes "length xs = length ys"
  shows "xs < ys \<longleftrightarrow> (\<exists>ps a b us vs. xs = ps @ a # us \<and> ys = ps @ b # vs \<and> a < b)"
proof
  assume "xs < ys"
  then show "\<exists>ps a b us vs. xs = ps @ a # us \<and> ys = ps @ b # vs \<and> a < b"
    using assms unfolding list_less_def lexord_def by auto
next
  assume "\<exists>ps a b us vs. xs = ps @ a # us \<and> ys = ps @ b # vs \<and> a < b"
  then show "xs < ys" unfolding list_less_def lexord_def by blast
qed

lemma list_less_append:
  fixes xs ys :: string
  assumes "length xs = length ys" and "xs < ys"
  shows "xs @ us < ys @ vs"
proof -
  obtain ps a b us' vs' where "xs = ps @ a # us'" "ys = ps @ b # vs'" "a < b"
    using assms by (auto simp: list_less_split)
  then have "xs @ us = ps @ a # (us' @ us)" "ys @ vs = ps @ b # (vs' @ vs)" "(a, b) \<in> {(u, v). u < v}" by simp_all
  then show ?thesis unfolding list_less_def lexord_def by blast
qed

text \<open>What the text of a time to the second has: one length, and the order of time, for four digits of years.\<close>

definition year_end :: int where
  "year_end = 253402300800"

definition sec_text_ok :: "(int \<Rightarrow> string) \<Rightarrow> bool" where
  "sec_text_ok sec_text \<longleftrightarrow>
     (\<forall>a b. 0 \<le> a \<longrightarrow> a < b \<longrightarrow> b < year_end \<longrightarrow> length (sec_text a) = length (sec_text b) \<and> sec_text a < sec_text b)"

lemma time_text_less:
  assumes "sec_text_ok sec_text" and "0 \<le> a" and "b < year_end * 1000000000" and "a div 1000000000 < b div 1000000000"
  shows "time_text sec_text a < time_text sec_text b"
proof -
  have "0 \<le> a div 1000000000" "b div 1000000000 < year_end"
    using assms(2,3) by (simp_all add: pos_imp_zdiv_nonneg_iff year_end_def)
  then show ?thesis
    using assms(1,4) unfolding time_text_def by (intro list_less_append) (auto simp: sec_text_ok_def)
qed

section \<open>The runs\<close>

text \<open>The history of the tokens with the times of their logins, the newest first.\<close>

datatype session_log = LoggedIn string int | LoggedOut string

record auth_state =
  as_db :: auth_db
  as_log :: "session_log list"

fun log_token :: "session_log \<Rightarrow> string" where
  "log_token (LoggedIn t since) = t"
| "log_token (LoggedOut t) = t"

fun session_of :: "(string \<Rightarrow> string) \<Rightarrow> session_log list \<Rightarrow> string \<Rightarrow> int option" where
  "session_of sha [] d = None"
| "session_of sha (LoggedIn t since # es) d = (if sha t = d then Some since else session_of sha es d)"
| "session_of sha (LoggedOut t # es) d = (if sha t = d then None else session_of sha es d)"

definition after_login :: "int \<Rightarrow> (auth_error + string \<times> int) \<times> auth_db \<Rightarrow> auth_state \<Rightarrow> auth_state" where
  "after_login now answer s =
     \<lparr>as_db = snd answer,
      as_log = (case fst answer of Inl err \<Rightarrow> as_log s | Inr (t, e) \<Rightarrow> LoggedIn t now # as_log s)\<rparr>"

definition after_logout :: "string \<Rightarrow> auth_error option \<times> auth_db \<Rightarrow> auth_state \<Rightarrow> auth_state" where
  "after_logout t answer s =
     \<lparr>as_db = snd answer, as_log = (if fst answer = None then LoggedOut t # as_log s else as_log s)\<rparr>"

inductive session_run :: "(string \<Rightarrow> string) \<Rightarrow> (int \<Rightarrow> string) \<Rightarrow> auth_state \<Rightarrow> bool" for sha sec_text where
  sessions_start: "session_run sha sec_text \<lparr>as_db = \<lparr>ad_admin = None, ad_sessions = []\<rparr>, as_log = []\<rparr>"
| sessions_setup: "session_run sha sec_text s \<Longrightarrow>
    session_run sha sec_text (s\<lparr>as_db := snd (CreateAdmin hash required f username password (as_db s))\<rparr>)"
| sessions_login: "session_run sha sec_text s \<Longrightarrow>
    session_run sha sec_text (after_login now (Login sha sec_text verify bytes f g now username password (as_db s)) s)"
| sessions_logout: "session_run sha sec_text s \<Longrightarrow>
    session_run sha sec_text (after_logout t (Logout sha f t (as_db s)) s)"

definition sessions_ok :: "(string \<Rightarrow> string) \<Rightarrow> (int \<Rightarrow> string) \<Rightarrow> auth_state \<Rightarrow> bool" where
  "sessions_ok sha sec_text s \<longleftrightarrow>
     map_of (ad_sessions (as_db s)) = (\<lambda>d. map_option (\<lambda>since. time_text sec_text (since + session_length)) (session_of sha (as_log s) d)) \<and>
     (ad_admin (as_db s) = None \<longrightarrow> (\<forall>d. session_of sha (as_log s) d = None))"

lemma Login_cases:
  obtains err where "Login sha sec_text verify bytes f g now username password db = (Inl err, db)"
  | raw h where "Login sha sec_text verify bytes f g now username password db =
        (Inr (raw, now + session_length),
         db\<lparr>ad_sessions := (sha raw, time_text sec_text (now + session_length)) # ad_sessions db\<rparr>)"
      "ad_admin db = Some (username, h)" "verify password h = Some True"
proof (cases "\<exists>h raw. ad_admin db = Some (username, h) \<and> verify password h = Some True \<and>
    tokenPair sha bytes = Some (raw, sha raw) \<and> \<not> f \<and> \<not> g \<and> sha raw \<notin> fst ` set (ad_sessions db)")
  case True
  then obtain h raw where "ad_admin db = Some (username, h)" "verify password h = Some True"
    "tokenPair sha bytes = Some (raw, sha raw)" "\<not> f" "\<not> g" "sha raw \<notin> fst ` set (ad_sessions db)" by blast
  then show thesis by (intro that(2) [of raw h]) (simp_all add: Login_def Let_def)
next
  case False
  have "snd p = sha (fst p)" if "tokenPair sha bytes = Some p" for p
    using that by (auto simp: tokenPair_def Let_def)
  then have "\<exists>err. Login sha sec_text verify bytes f g now username password db = (Inl err, db)"
    using False by (cases "ad_admin db"; cases "tokenPair sha bytes") (auto simp: Login_def Let_def)
  then show thesis using that(1) by blast
qed

lemma sessions_ok_logout:
  assumes "sessions_ok sha sec_text s"
  shows "sessions_ok sha sec_text (after_logout t (Logout sha f t (as_db s)) s)"
proof -
  have "map_of (filter (\<lambda>(d, e). d \<noteq> sha t) xs) = (\<lambda>d. if d = sha t then None else map_of xs d)" for xs :: "(string \<times> string) list"
    by (induction xs) (auto simp: fun_eq_iff)
  then show ?thesis using assms
    by (cases f) (auto simp: sessions_ok_def after_logout_def Logout_def fun_eq_iff)
qed

lemma session_run_ok: "session_run sha sec_text s \<Longrightarrow> sessions_ok sha sec_text s"
proof (induction rule: session_run.induct)
  case sessions_start
  show ?case by (simp add: sessions_ok_def)
next
  case (sessions_setup s hash required f username password)
  have "ad_sessions (snd (CreateAdmin hash required f username password db)) = ad_sessions db" for db
    by (simp add: CreateAdmin_def split: sum.split bool.split option.split)
  moreover have "ad_admin (snd (CreateAdmin hash required f username password db)) = None \<Longrightarrow> ad_admin db = None" for db
    by (auto simp: CreateAdmin_def split: sum.splits bool.splits option.splits if_splits)
  ultimately show ?case using sessions_setup.IH by (simp add: sessions_ok_def)
next
  case (sessions_login s now verify bytes f g username password)
  then show ?case
    by (cases rule: Login_cases [of sha sec_text verify bytes f g now username password "as_db s"])
       (auto simp: sessions_ok_def after_login_def fun_eq_iff)
qed (simp add: sessions_ok_logout)

section \<open>The properties\<close>

lemma session_of_inj:
  assumes "inj_on sha (insert t (log_token ` set es))"
  shows "session_of sha es (sha t) = session_of (\<lambda>x. x) es t"
  using assms
proof (induction es)
  case (Cons e es)
  have "inj_on sha (insert t (log_token ` set es))" using Cons.prems by (rule inj_on_subset) auto
  moreover have "sha (log_token e) = sha t \<longleftrightarrow> log_token e = t" using Cons.prems by (auto simp: inj_on_def)
  ultimately show ?case using Cons.IH by (cases e) auto
qed simp

lemma Authenticate_session:
  assumes "session_run sha sec_text s" and "inj_on sha (insert t (log_token ` set (as_log s)))"
  shows "Authenticate sha sec_text False now t (as_db s) =
    (case (session_of (\<lambda>x. x) (as_log s) t, ad_admin (as_db s)) of
       (Some since, Some (username, h)) \<Rightarrow>
         if time_text sec_text (since + session_length) > time_text sec_text now then Inr username
         else Inl ErrUnauthenticated
     | _ \<Rightarrow> Inl ErrUnauthenticated)"
  using session_run_ok [OF assms(1)] session_of_inj [OF assms(2)]
  by (auto simp: Authenticate_def sessions_ok_def split: option.split)

text \<open>
  C26: A session lasts from its login to its logout or its end. A token is accepted exactly when it
  was given out by a successful login and not logged out since, and its end has not come: it is
  accepted in every second before the one in which the seven days are over, and in none after it.
  This rests on SHA-256 having no collision among the tokens in play.
\<close>

theorem sessions_expire:
  assumes "session_run sha sec_text s" and "inj_on sha (insert t (log_token ` set (as_log s)))"
    and "sec_text_ok sec_text" and "0 \<le> now" and "now < year_end * 1000000000"
  shows "(case session_of (\<lambda>x. x) (as_log s) t of
       None \<Rightarrow> Authenticate sha sec_text False now t (as_db s) = Inl ErrUnauthenticated
     | Some since \<Rightarrow>
         let over = since + 7 * 24 * 3600 * 1000000000
         in 0 \<le> over \<and> over < year_end * 1000000000 \<longrightarrow>
              (now div 1000000000 < over div 1000000000 \<longrightarrow>
                 (\<exists>username h. ad_admin (as_db s) = Some (username, h) \<and>
                    Authenticate sha sec_text False now t (as_db s) = Inr username)) \<and>
              (over div 1000000000 < now div 1000000000 \<longrightarrow>
                 Authenticate sha sec_text False now t (as_db s) = Inl ErrUnauthenticated))"
proof (cases "session_of (\<lambda>x. x) (as_log s) t")
  case None
  then show ?thesis by (simp add: Authenticate_session [OF assms(1,2)])
next
  case (Some since)
  then have "session_of sha (as_log s) (sha t) \<noteq> None" by (simp add: session_of_inj [OF assms(2)])
  then obtain username h where admin: "ad_admin (as_db s) = Some (username, h)"
    using session_run_ok [OF assms(1)] by (cases "ad_admin (as_db s)") (auto simp: sessions_ok_def)
  show ?thesis
    using time_text_less [OF assms(3,4), of "since + session_length"]
      time_text_less [OF assms(3) _ assms(5), of "since + session_length"]
    by (auto simp: Some admin Authenticate_session [OF assms(1,2)] session_length_def Let_def dest: less_asym)
qed

text \<open>
  Within the second of the end the comparison can err: an end on a full second is behind every
  later time of that second.
\<close>

lemma fixed_digits_numeral:
  "fixed_digits (numeral k) n = fixed_digits (pred_numeral k) (n div 10) @ [char_of (48 + nat (n mod 10))]"
  by (simp add: numeral_eq_Suc)

lemma session_outlives_end:
  assumes "over mod 1000000000 = 0"
  shows "time_text sec_text over > time_text sec_text (over + 500000000)"
proof -
  have "(over + 500000000) div 1000000000 = over div 1000000000" "(over + 500000000) mod 1000000000 = 500000000"
    using assms by (auto simp: div_add1_eq mod_add_eq [symmetric] mod_simps)
  moreover have "frac_text 500000000 @ ''Z'' = ''.5Z''"
    by (simp add: frac_text_def fixed_digits_numeral char_of_def bit_0)
  ultimately have texts: "time_text sec_text over = sec_text (over div 1000000000) @ ''Z''"
    "time_text sec_text (over + 500000000) = sec_text (over div 1000000000) @ ''.5Z''"
    using assms by (simp_all add: time_text_def frac_text_def)
  have "(CHR ''.'', CHR ''Z'') \<in> {(u, v). u < v}" by (simp add: less_char_def)
  then show ?thesis
    unfolding texts list_less_def lexord_def by fastforce
qed

text \<open>A text of seconds to evaluate the properties with: twelve decimal digits.\<close>

lemma length_fixed_digits: "length (fixed_digits k n) = k"
  by (induction k arbitrary: n) simp_all

lemma fixed_digits_less:
  "0 \<le> a \<Longrightarrow> a < b \<Longrightarrow> b < 10 ^ k \<Longrightarrow> fixed_digits k a < fixed_digits k b"
proof (induction k arbitrary: a b)
  case (Suc k)
  show ?case
  proof (cases "a div 10 = b div 10")
    case True
    then have "a mod 10 < b mod 10" using Suc.prems(2) by (metis mult_div_mod_eq add_less_cancel_left)
    then have "(char_of (48 + nat (a mod 10)), char_of (48 + nat (b mod 10))) \<in> {(u :: char, v). u < v}"
      by (simp add: less_char_def)
    then show ?thesis using True unfolding list_less_def lexord_def by fastforce
  next
    case False
    then have "fixed_digits k (a div 10) < fixed_digits k (b div 10)"
      using Suc.prems by (intro Suc.IH) (auto simp: pos_imp_zdiv_nonneg_iff intro: le_neq_trans zdiv_mono1)
    then show ?thesis by (simp add: list_less_append length_fixed_digits)
  qed
qed simp

lemma sample_sec_text: "sec_text_ok (fixed_digits 12)"
proof -
  have "fixed_digits 12 a < fixed_digits 12 b" if "0 \<le> a" "a < b" "b < year_end" for a b
    using that by (intro fixed_digits_less) (simp_all add: year_end_def)
  then show ?thesis by (simp add: sec_text_ok_def length_fixed_digits)
qed

definition sample_sessions :: auth_state where
  "sample_sessions =
     (let s0 = \<lparr>as_db = \<lparr>ad_admin = None, ad_sessions = []\<rparr>, as_log = []\<rparr>;
          s1 = s0\<lparr>as_db := snd (CreateAdmin Some (Inr True) False ''admin'' ''long-password'' (as_db s0))\<rparr>
      in after_login 10000000000 (Login (\<lambda>t. t) (fixed_digits 12) (\<lambda>p h. Some (p = h)) (Some ''abc'') False False
           10000000000 ''admin'' ''long-password'' (as_db s1)) s1)"

lemma sample_sessions_run: "session_run (\<lambda>t. t) (fixed_digits 12) sample_sessions"
  unfolding sample_sessions_def Let_def by (intro session_run.intros)

lemma sample_sessions_state: "as_log sample_sessions = [LoggedIn ''YWJj'' 10000000000]"
  "ad_admin (as_db sample_sessions) = Some (''admin'', ''long-password'')"
  by (simp_all add: sample_sessions_def CreateAdmin_def Login_def tokenPair_def after_login_def Let_def
      base64_char_def base64_alphabet_def)

theorem sessions_expire_witness:
  "Authenticate (\<lambda>t. t) (fixed_digits 12) False 20000000000 ''YWJj'' (as_db sample_sessions) = Inr ''admin'' \<and>
   Authenticate (\<lambda>t. t) (fixed_digits 12) False 604812000000000 ''YWJj'' (as_db sample_sessions) = Inl ErrUnauthenticated \<and>
   Authenticate (\<lambda>t. t) (fixed_digits 12) False 20000000000 ''YWJk'' (as_db sample_sessions) = Inl ErrUnauthenticated"
  using sessions_expire [OF sample_sessions_run _ sample_sec_text, of "''YWJj''" 20000000000]
    sessions_expire [OF sample_sessions_run _ sample_sec_text, of "''YWJj''" 604812000000000]
    sessions_expire [OF sample_sessions_run _ sample_sec_text, of "''YWJk''" 20000000000]
  by (simp add: sample_sessions_state year_end_def)

section \<open>The gate of the interface\<close>

text \<open>
  The answers of the two requests of \<open>AuthGate\<close>, with the text \<open>enc\<close> of JSON values on the server and
  the cookie that the browser sends along.
\<close>

definition setup_json :: "bool \<Rightarrow> jv" where
  "setup_json required = JObj [(''setupRequired'', JBool required)]"

definition me_json :: "auth_reply \<Rightarrow> jv" where
  "me_json r =
     (case ar_user r of
        Some username \<Rightarrow> JObj [(''id'', JNum (Fin 1)), (''username'', JStr username)]
      | None \<Rightarrow> JObj [(''error'', JStr ''unauthenticated'')])"

definition server_fetch ::
  "(jv \<Rightarrow> string) \<Rightarrow> (string \<Rightarrow> string) \<Rightarrow> (int \<Rightarrow> string) \<Rightarrow> int \<Rightarrow> string option \<Rightarrow> auth_db \<Rightarrow> fetch_fun" where
  "server_fetch enc sha sec_text now cookie db call =
     (if fc_path call = ''/api/setup/status'' then
        Some \<lparr>resp_ok = True, resp_status = Fin 200,
              resp_text = Some (enc (setup_json (ad_admin db = None)))\<rparr>
      else if fc_path call = ''/api/me'' then
        let reply = me_handler (RequireSession sha sec_text False now cookie db)
        in Some \<lparr>resp_ok = (200 \<le> ar_status reply \<and> ar_status reply < 300),
                 resp_status = Fin (of_nat (ar_status reply)), resp_text = Some (enc (me_json reply))\<rparr>
      else None)"

text \<open>
  C25: The gate shows what the server's session says: the set-up form while there is no administrator,
  the application exactly when the cookie's token is a session that was begun and not logged out,
  and whose end has not come, and the login form otherwise, whatever else was in the session table.
\<close>

theorem gate_shows_session:
  assumes "session_run sha sec_text s" and "inj_on sha (insert t (log_token ` set (as_log s)))" and "t \<noteq> ''''"
    and "\<forall>required. json_parse (enc (setup_json required)) = Some (setup_json required)"
    and "\<forall>username h reply. ad_admin (as_db s) = Some (username, h) \<longrightarrow> ar_user reply = Some username \<longrightarrow>
      json_parse (enc (me_json reply)) = Some (me_json reply)"
  shows "resolveAuthView (server_fetch enc sha sec_text now (Some t) (as_db s)) =
    Fulfilled
      (if ad_admin (as_db s) = None then AuthSetup
       else case session_of (\<lambda>x. x) (as_log s) t of
              None \<Rightarrow> AuthLogin False
            | Some since \<Rightarrow>
                if time_text sec_text (since + 7 * 24 * 3600 * 1000000000) > time_text sec_text now
                then Authenticated else AuthLogin False)"
proof -
  let ?fetch = "server_fetch enc sha sec_text now (Some t) (as_db s)"
  have "api_getSetupStatus ?fetch = Fulfilled (setup_json (ad_admin (as_db s) = None))"
    using assms(4) by (simp add: api_getSetupStatus_def request_def fetch_arguments_def no_init_def
        server_fetch_def settle_response_def)
  moreover have "setup_required (setup_json b) = Returns b" for b
    by (simp add: setup_required_def setup_json_def)
  moreover have "me_view (api_getMe ?fetch) =
      Fulfilled (case Authenticate sha sec_text False now t (as_db s) of
                   Inl err \<Rightarrow> AuthLogin False | Inr username \<Rightarrow> Authenticated)"
    if admin: "ad_admin (as_db s) = Some (username, h)" for username h
  proof (cases "Authenticate sha sec_text False now t (as_db s)")
    case (Inl err)
    then have "err = ErrUnauthenticated"
      by (auto simp: Authenticate_session [OF assms(1,2)] split: option.splits if_splits)
    with Inl show ?thesis using assms(3)
      by (simp add: api_getMe_def request_def fetch_arguments_def no_init_def server_fetch_def settle_response_def
          me_handler_def RequireSession_def plain_reply_def me_view_def newApiError_def)
  next
    case (Inr username')
    then have "username' = username"
      using admin by (auto simp: Authenticate_session [OF assms(1,2)] split: option.splits if_splits)
    with Inr show ?thesis using assms(3,5) admin
      by (simp add: api_getMe_def request_def fetch_arguments_def no_init_def server_fetch_def settle_response_def
          me_handler_def RequireSession_def me_view_def)
  qed
  ultimately show ?thesis
    by (cases "ad_admin (as_db s)")
       (auto simp: resolveAuthView_def Authenticate_session [OF assms(1,2)] session_length_def split: option.split)
qed

theorem gate_shows_session_witness:
  "resolveAuthView (server_fetch stringify (\<lambda>t. t) (fixed_digits 12) 20000000000 (Some ''YWJj'') (as_db sample_sessions)) =
     Fulfilled Authenticated \<and>
   resolveAuthView (server_fetch stringify (\<lambda>t. t) (fixed_digits 12) 20000000000 (Some ''YWJk'') (as_db sample_sessions)) =
     Fulfilled (AuthLogin False)"
proof -
  have "json_parse (stringify (setup_json required)) = Some (setup_json required)" for required
    by (rule stringify_round_trip) (simp add: setup_json_def)
  moreover have "json_parse (stringify (me_json reply)) = Some (me_json reply)" if "ar_user reply = Some u" for reply u
    by (rule stringify_round_trip) (simp add: me_json_def that max_safe_def)
  moreover have "time_text (fixed_digits 12) 20000000000 < time_text (fixed_digits 12) 604810000000000"
    by (rule time_text_less [OF sample_sec_text]) (simp_all add: year_end_def)
  ultimately show ?thesis
    using gate_shows_session [OF sample_sessions_run, of "''YWJj''" stringify 20000000000]
      gate_shows_session [OF sample_sessions_run, of "''YWJk''" stringify 20000000000]
    by (simp add: sample_sessions_state)
qed

end
