(* ===== verification/HttpProps.thy ===== *)
theory HttpProps
  imports HttpRouter SessionProps
begin

text \<open>
  The server as a whole: what can happen to its state, that its tables never lose their references,
  that nothing of a removed server remains, and that nobody changes it without a session.
\<close>

section \<open>What can happen\<close>

text \<open>
  Requests, and the work of the background: the sweeper, the event streams, the saves of the evaluator
  and the attempts of the dispatcher, the minutes of the aggregator and their retention. A save or a
  minute that names a server without a row is refused by its foreign key.
\<close>

inductive probe_step :: "library \<Rightarrow> probe \<Rightarrow> probe \<Rightarrow> bool" for lb where
  step_request: "probe_step lb p (snd (serve lb cn r rq p))"
| step_sweep: "distinct ids \<Longrightarrow>
    probe_step lb p (p\<lparr>pb_system := pb_system p\<lparr>ss_live := snd (co_sweep races ids cutoff (ss_live (pb_system p)))\<rparr>\<rparr>)"
| step_streams: "probe_step lb p (p\<lparr>pb_system := pb_system p
    \<lparr>ss_live := ss_live (pb_system p)\<lparr>co_hub := stream_step op (co_hub (ss_live (pb_system p)))\<rparr>\<rparr>\<rparr>)"
| step_save: "(\<And>e. event = Some e \<Longrightarrow> server_known (registered (ss_registry (pb_system p))) (ae_serverId e)) \<Longrightarrow>
    probe_step lb p (p\<lparr>pb_alerts := saved w st event (pb_alerts p)\<rparr>)"
| step_attempt: "probe_step lb p (p\<lparr>pb_alerts := snd (RecordAttempt f t a (pb_alerts p))\<rparr>)"
| step_minute: "server_known (registered (ss_registry (pb_system p))) (gm_serverId m) \<Longrightarrow>
    UpsertMinute fails m (pb_minutes p) = Some rows \<Longrightarrow> probe_step lb p (p\<lparr>pb_minutes := rows\<rparr>)"
| step_retention: "probe_step lb p (p\<lparr>pb_minutes := DeleteBefore cutoff (pb_minutes p)\<rparr>)"

definition initial_probe :: probe where
  "initial_probe =
     \<lparr>pb_auth = \<lparr>ad_admin = None, ad_sessions = []\<rparr>,
      pb_system = \<lparr>ss_live = \<lparr>co_store = Map.empty, co_hub = NewHub, co_observed = [], co_history = []\<rparr>,
                   ss_registry = empty_registry, ss_issued = []\<rparr>,
      pb_alerts = empty_alert_db, pb_minutes = []\<rparr>"

definition probe_run :: "library \<Rightarrow> probe \<Rightarrow> bool" where
  "probe_run lb p \<longleftrightarrow> (probe_step lb)\<^sup>*\<^sup>* initial_probe p"

text \<open>Every reference of the tables to a server resolves.\<close>

definition probe_ok :: "probe \<Rightarrow> bool" where
  "probe_ok p \<longleftrightarrow>
     (let srvs = registered (ss_registry (pb_system p))
      in alert_tables_ok srvs (pb_alerts p) \<and> (\<forall>(key, payload) \<in> set (pb_minutes p). server_known srvs (fst key)))"

section \<open>What a request does to the registry\<close>

lemmas system_handlers =
  create_server_handler_def update_server_handler_def delete_server_handler_def rotate_handler_def ingest_request_def

lemma handlers_run:
  assumes "system_run sha s"
  shows "system_run sha (snd (create_server_handler sha bytes f g now body s))"
    "system_run sha (snd (update_server_handler f now path_id body s))"
    "system_run sha (snd (delete_server_handler f path_id s))"
    "system_run sha (snd (rotate_handler sha bytes f now path_id s))"
    "system_run sha (snd (ingest_request sha race fs authorization decoded now source s))"
proof -

  show "system_run sha (snd (create_server_handler sha bytes f g now body s))"
    using assms by (auto simp: create_server_handler_def Let_def sys_create split: sum.split)
  show "system_run sha (snd (rotate_handler sha bytes f now path_id s))"
    using assms by (auto simp: rotate_handler_def Let_def sys_rotate split: option.split)
  show "system_run sha (snd (update_server_handler f now path_id body s))"
  proof -
    have "system_run sha (snd (case Update f now i name enabled s of (Inl err, s') \<Rightarrow> (handleServiceError err, s')
        | (Inr server, s') \<Rightarrow> ((200, OneServer server), s')))" for i name enabled
      using sys_update [OF assms, of f now i name enabled] by (auto split: prod.splits sum.splits)
    then show ?thesis using assms by (auto simp: update_server_handler_def split: option.split sum.split)
  qed
  show "system_run sha (snd (delete_server_handler f path_id s))"
  proof -
    have "system_run sha (snd (case Delete f i s of (Some err, s') \<Rightarrow> (handleServiceError err, s')
        | (None, s') \<Rightarrow> ((204, NoServer), s')))" for i
      using sys_delete [OF assms, of f i] by (auto split: prod.splits option.splits)
    then show ?thesis using assms by (auto simp: delete_server_handler_def split: option.split)
  qed
  show "system_run sha (snd (ingest_request sha race fs authorization decoded now source s))"
  proof -
    have "system_run sha (snd (case Accept sha race f g token rep now source s of (Inl err, s') \<Rightarrow> (registry_status err, s')
        | (Inr snapshot, s') \<Rightarrow> (204, s')))" for f g token rep
      using sys_accept [OF assms, of race f g token rep now source] by (auto split: prod.splits sum.splits)
    then show ?thesis using assms
      by (auto simp: ingest_request_def split: option.split sum.split decode_error.split)
  qed
qed

lemma with_fields [simp]:
  "snd (with_auth a p) = p\<lparr>pb_auth := snd a\<rparr>" "snd (with_system s p) = p\<lparr>pb_system := snd s\<rparr>"
  "snd (with_alerts d p) = p\<lparr>pb_alerts := snd d\<rparr>"
  by (simp_all add: with_auth_def with_system_def with_alerts_def)

lemma remove_references_fields [simp]:
  "pb_system (remove_references i p) = pb_system p" "pb_auth (remove_references i p) = pb_auth p"
  "pb_alerts (remove_references i p) = cascade_server i (pb_alerts p)"
  by (simp_all add: remove_references_def)

lemma delete_server_request_system [simp]:
  "pb_system (snd (delete_server_request f i p)) = snd (delete_server_handler f i (pb_system p))"
  "pb_auth (snd (delete_server_request f i p)) = pb_auth p"
  by (auto simp: delete_server_request_def Let_def split: prod.split option.split)

lemma serve_system_run:
  assumes "system_run (lb_sha lb) (pb_system p)"
  shows "system_run (lb_sha lb) (pb_system (snd (serve lb cn r rq p)))"
proof -
  note h = handlers_run [OF assms]
  show ?thesis
    unfolding serve_def
    using sys_streams [OF assms, of OpenStream]
    by (cases r) (simp_all add: assms h Let_def case_prod_beta split: sum.split)
qed

lemma probe_step_system: "probe_step lb p q \<Longrightarrow> system_run (lb_sha lb) (pb_system p) \<Longrightarrow> system_run (lb_sha lb) (pb_system q)"
  by (induction rule: probe_step.induct) (simp_all add: serve_system_run sys_sweep sys_streams)

lemma probe_run_system: "probe_run lb p \<Longrightarrow> system_run (lb_sha lb) (pb_system p)"
  unfolding probe_run_def
  by (induction rule: rtranclp_induct) (simp_all add: initial_probe_def sys_start probe_step_system)

section \<open>The references\<close>

lemma server_known_ids: "server_known (registered r) i \<longleftrightarrow> i \<in> set (server_ids r)"
  by (simp add: server_known_def)

lemma Update_ids: "server_ids (ss_registry (snd (Update f now i name enabled s))) = server_ids (ss_registry s)"
proof -
  have "server_ids (snd (update_statement f now i name' enabled r)) = server_ids r" for name' r
    by (auto simp: update_statement_def split: option.split)
  then show ?thesis by (simp add: Update_def Let_def case_prod_beta)
qed

lemma Accept_ids: "server_ids (ss_registry (snd (Accept sha race f g token rep t src s))) = server_ids (ss_registry s)"
proof -
  have "server_ids (snd (UpdateAgentVersion g i v r)) = server_ids r" for i v r
    by (simp add: UpdateAgentVersion_def)
  then show ?thesis by (simp add: Accept_def Let_def case_prod_beta split: sum.split)
qed

lemma ids_grow:
  assumes "i \<in> set (server_ids (ss_registry s))"
  shows "i \<in> set (server_ids (ss_registry (snd (create_server_handler sha bytes f g now body s))))"
    "i \<in> set (server_ids (ss_registry (snd (update_server_handler h now path_id body s))))"
    "i \<in> set (server_ids (ss_registry (snd (rotate_handler sha bytes f now path_id s))))"
    "i \<in> set (server_ids (ss_registry (snd (ingest_request sha race fs authorization decoded now source s))))"
proof -
  have create: "i \<in> set (server_ids (snd (Create sha bytes f g now name (ss_registry s))))" for name
    using assms by (cases rule: Create_cases [of sha bytes f g now name "ss_registry s"]) (auto simp: registered_def)
  then show "i \<in> set (server_ids (ss_registry (snd (create_server_handler sha bytes f g now body s))))"
    using assms by (auto simp: create_server_handler_def Let_def live_fields split: sum.split)
  have rotate: "i \<in> set (server_ids (snd (RotateTokenWithServer sha bytes f now j (ss_registry s))))" for j
    using assms by (cases rule: Rotate_cases [of sha bytes f now j "ss_registry s"]) auto
  then show "i \<in> set (server_ids (ss_registry (snd (rotate_handler sha bytes f now path_id s))))"
    using assms by (auto simp: rotate_handler_def Let_def live_fields split: option.split)
  show "i \<in> set (server_ids (ss_registry (snd (update_server_handler h now path_id body s))))"
  proof -
    have "i \<in> set (server_ids (ss_registry s'))" if "Update h now j name enabled s = (a, s')" for j name enabled a s'
      using Update_ids [of h now j name enabled s] that assms by simp
    then show ?thesis using assms
      by (auto simp: update_server_handler_def split: option.splits sum.splits prod.splits)
  qed
  show "i \<in> set (server_ids (ss_registry (snd (ingest_request sha race fs authorization decoded now source s))))"
  proof -
    have "i \<in> set (server_ids (ss_registry s'))" if "Accept sha race f g token rep now source s = (a, s')" for f g token rep a s'
      using Accept_ids [of sha race f g token rep now source s] that assms by simp
    then show ?thesis using assms
      by (auto simp: ingest_request_def split: option.splits sum.splits prod.splits decode_error.splits)
  qed
qed

lemma delete_handler_cases:
  obtains "snd (delete_server_handler f path_id s) = s" "fst (fst (delete_server_handler f path_id s)) \<noteq> 204"
  | i where "routeID path_id = Some i" "fst (fst (delete_server_handler f path_id s)) = 204"
      "ss_registry (snd (delete_server_handler f path_id s)) =
        (ss_registry s)\<lparr>rg_rows := filter (\<lambda>row. sv_id (fst row) \<noteq> i) (rg_rows (ss_registry s))\<rparr>"
      "find_server i (ss_registry s) \<noteq> None"
proof (cases "routeID path_id")
  case None
  then show thesis using that(1) by (simp add: delete_server_handler_def refused_server_def)
next
  case (Some i)
  show thesis
  proof (cases "f \<or> find_server i (ss_registry s) = None")
    case True
    then show thesis using Some
      by (intro that(1)) (auto simp: delete_server_handler_def Delete_def delete_statement_def ReconcileDelete_def
        handleServiceError_def)
  next
    case False
    then show thesis using Some
      by (intro that(2) [of i]) (auto simp: delete_server_handler_def Delete_def delete_statement_def ReconcileDelete_def)
  qed
qed

lemma alert_handlers_ok:
  assumes "alert_tables_ok (registered reg) db"
  shows "alert_tables_ok (registered reg) (snd (create_rule_handler reg f g now body db))"
    "alert_tables_ok (registered reg) (snd (update_rule_handler reg w1 w2 f g h now path_id body db))"
    "alert_tables_ok (registered reg) (snd (delete_rule_handler f path_id db))"
    "alert_tables_ok (registered reg) (snd (put_webhook_handler time_ok lower parse_url renders w f now body db))"
    "alert_tables_ok (registered reg)
       (snd (test_webhook_handler parse_url renders render sleeps send record_fails sent w db))"
proof -
  have create: "alert_tables_ok (registered reg) db'"
    if "CreateRule (registered reg) g now rule db = (a, db')" "ruleFromCreate inp = Some rule" for a db' rule inp
    using CreateRule_ok [OF assms, of rule g now] that by (simp add: ruleFromCreate_def normalizeRule_ok)
  show "alert_tables_ok (registered reg) (snd (create_rule_handler reg f g now body db))"
    using assms create by (auto simp: create_rule_handler_def split: sum.splits option.splits prod.splits)
  have update: "alert_tables_ok (registered reg) db'"
    if "UpdateRule (registered reg) w2 h now i rule db = (a, db')" "normalizeRule inp = Some rule" for a db' i rule inp
    using UpdateRule_ok [OF assms, of rule w2 h now i] that by (simp add: normalizeRule_ok)
  show "alert_tables_ok (registered reg) (snd (update_rule_handler reg w1 w2 f g h now path_id body db))"
    using assms update by (auto simp: update_rule_handler_def split: sum.splits option.splits prod.splits)
  show "alert_tables_ok (registered reg) (snd (delete_rule_handler f path_id db))"
    using assms DeleteRule_ok [OF assms, of f]
    by (auto simp: delete_rule_handler_def split: option.splits prod.splits) (metis snd_conv)+
  have put: "alert_tables_ok (registered reg) db'" if "UpsertWebhook f now c db = (a, db')" for a db' c
    using UpsertWebhook_ok [OF assms, of f now c] that by simp
  show "alert_tables_ok (registered reg) (snd (put_webhook_handler time_ok lower parse_url renders w f now body db))"
    using assms put by (auto simp: put_webhook_handler_def Let_def split: sum.splits prod.splits)
  have "alert_tables_ok (registered reg) (snd (record_attempts record_fails sent n xs db))" for n xs
    using assms by (induction xs arbitrary: n db) (simp_all add: RecordAttempt_ok Let_def case_prod_beta)
  then have attempts: "alert_tables_ok (registered reg) db'"
    if "record_attempts record_fails sent n xs db = (rows, db')" for n xs rows db'
    using that by (metis snd_conv)
  show "alert_tables_ok (registered reg)
      (snd (test_webhook_handler parse_url renders render sleeps send record_fails sent w db))"
    using assms attempts
    by (auto simp: test_webhook_handler_def Let_def split: prod.splits option.splits alerting_error.splits)
qed

lemma probe_ok_servers:
  assumes "probe_ok p" and "\<And>i. i \<in> set (server_ids (ss_registry (pb_system p))) \<Longrightarrow> i \<in> set (server_ids (ss_registry s))"
  shows "probe_ok (p\<lparr>pb_system := s\<rparr>)"
proof -
  have known: "server_known (registered (ss_registry (pb_system p))) i \<Longrightarrow> server_known (registered (ss_registry s)) i" for i
    using assms(2) by (simp add: server_known_ids)
  then have "alert_tables_ok (registered (ss_registry s)) (pb_alerts p)"
    using assms(1) alert_tables_servers by (auto simp: probe_ok_def Let_def)
  then show ?thesis using assms(1) known by (auto simp: probe_ok_def Let_def)
qed

lemma probe_ok_alerts:
  "probe_ok p \<Longrightarrow> alert_tables_ok (registered (ss_registry (pb_system p))) db \<Longrightarrow> probe_ok (p\<lparr>pb_alerts := db\<rparr>)"
  by (simp add: probe_ok_def Let_def)

lemma server_ids_filter:
  "server_ids (r\<lparr>rg_rows := filter (\<lambda>row. sv_id (fst row) \<noteq> i) (rg_rows r)\<rparr>) = filter (\<lambda>j. j \<noteq> i) (server_ids r)"
  by (simp add: registered_def filter_map o_def)

lemma probe_ok_delete:
  assumes "probe_ok p"
  shows "probe_ok (snd (delete_server_request f path_id p))"
proof (cases rule: delete_handler_cases [of f path_id "pb_system p"])
  case 1
  then show ?thesis using assms
    by (auto simp: delete_server_request_def case_prod_beta Let_def split: option.split)
next
  case (2 i)
  let ?reg = "ss_registry (pb_system p)" and ?reg' = "ss_registry (snd (delete_server_handler f path_id (pb_system p)))"
  have known: "server_known (registered ?reg') j" if "server_known (registered ?reg) j" "j \<noteq> i" for j
    using that by (simp add: 2(3) server_known_ids server_ids_filter)
  then have "alert_tables_ok (registered ?reg') (cascade_server i (pb_alerts p))"
    using assms by (intro cascade_server_ok [of "registered ?reg"]) (auto simp: probe_ok_def Let_def)
  then show ?thesis
    using assms known 2(1,2)
    by (auto simp: probe_ok_def Let_def delete_server_request_def case_prod_beta remove_references_def)
qed

lemma probe_ok_serve:
  assumes "probe_ok p"
  shows "probe_ok (snd (serve lb cn r rq p))"
proof -
  have a: "alert_tables_ok (registered (ss_registry (pb_system p))) (pb_alerts p)"
    using assms by (simp add: probe_ok_def Let_def)
  have auth: "probe_ok (p\<lparr>pb_auth := db\<rparr>)" for db using assms by (simp add: probe_ok_def)
  note alerts = alert_handlers_ok [OF a, THEN probe_ok_alerts [OF assms]]
  have system: "probe_ok (p\<lparr>pb_system := snd (create_server_handler sha bytes f g now body (pb_system p))\<rparr>)"
      "probe_ok (p\<lparr>pb_system := snd (update_server_handler f now path_id body (pb_system p))\<rparr>)"
      "probe_ok (p\<lparr>pb_system := snd (rotate_handler sha bytes f now path_id (pb_system p))\<rparr>)"
      "probe_ok (p\<lparr>pb_system := snd (ingest_request sha race fs authorization decoded now source (pb_system p))\<rparr>)"
    for sha bytes f g now body path_id race fs authorization decoded source
    by (rule probe_ok_servers [OF assms], erule ids_grow)+
  have live: "probe_ok (p\<lparr>pb_system := pb_system p\<lparr>ss_live := c\<rparr>\<rparr>)" for c using assms by (simp add: probe_ok_def)
  show ?thesis
    unfolding serve_def
    by (cases r) (simp_all add: assms auth alerts system live probe_ok_delete Let_def case_prod_beta split: sum.split)
qed

lemma probe_ok_step: "probe_step lb p q \<Longrightarrow> probe_ok p \<Longrightarrow> probe_ok q"
proof (induction rule: probe_step.induct)
  case (step_save event p w st)
  then show ?case by (intro probe_ok_alerts saved_ok) (auto simp: probe_ok_def Let_def)
next
  case (step_attempt p f t a)
  then show ?case by (intro probe_ok_alerts RecordAttempt_ok) (auto simp: probe_ok_def Let_def)
next
  case (step_minute p m fails rows)
  have "set (AList.update k v xs) \<subseteq> insert (k, v) (set xs)" for k v and xs :: minute_rows
    using update_conv' by (induction xs) auto
  then show ?case using step_minute by (fastforce simp: probe_ok_def Let_def UpsertMinute_def split: if_splits)
qed (simp add: probe_ok_serve, auto simp: probe_ok_def Let_def DeleteBefore_def)

lemma probe_run_ok: "probe_run lb p \<Longrightarrow> probe_ok p"
proof -
  have "probe_ok initial_probe"
    using alert_tables_empty by (simp add: probe_ok_def initial_probe_def)
  moreover have "probe_ok q" if "(probe_step lb)\<^sup>*\<^sup>* r q" "probe_ok r" for r q
    using that by (induction rule: rtranclp_induct) (simp_all add: probe_ok_step)
  moreover assume "probe_run lb p"
  ultimately show "probe_ok p" by (simp add: probe_run_def)
qed

section \<open>Ids are not used again\<close>

definition never_again :: "int \<Rightarrow> registry \<Rightarrow> bool" where
  "never_again i r \<longleftrightarrow> i < rg_next r \<and> i \<notin> set (server_ids r)"

lemma never_again_operations:
  assumes "never_again i (ss_registry s)"
  shows "never_again i (snd (Create sha bytes f g now name (ss_registry s)))"
    "never_again i (snd (RotateTokenWithServer sha bytes f now j (ss_registry s)))"
    "never_again i (ss_registry (snd (Update f now j name' enabled s)))"
    "never_again i (ss_registry (snd (Accept sha race f g token rep t src s)))"
proof -
  show "never_again i (snd (Create sha bytes f g now name (ss_registry s)))"
    using assms by (cases rule: Create_cases [of sha bytes f g now name "ss_registry s"])
      (auto simp: never_again_def registered_def)
  show "never_again i (snd (RotateTokenWithServer sha bytes f now j (ss_registry s)))"
    using assms by (cases rule: Rotate_cases [of sha bytes f now j "ss_registry s"]) (auto simp: never_again_def)
  have "rg_next (snd (update_statement f now j name'' enabled r)) = rg_next r" for name'' r
    by (auto simp: update_statement_def split: option.split)
  then show "never_again i (ss_registry (snd (Update f now j name' enabled s)))"
    using assms Update_ids [of f now j name' enabled s] by (simp add: never_again_def Update_def Let_def case_prod_beta)
  have "rg_next (snd (UpdateAgentVersion g k v r)) = rg_next r" for k v r
    by (simp add: UpdateAgentVersion_def)
  then have "rg_next (ss_registry (snd (Accept sha race f g token rep t src s))) = rg_next (ss_registry s)"
    by (simp add: Accept_def Let_def case_prod_beta split: sum.split)
  then show "never_again i (ss_registry (snd (Accept sha race f g token rep t src s)))"
    using assms Accept_ids [of sha race f g token rep t src s] by (simp add: never_again_def)
qed

lemma never_again_handlers:
  assumes "never_again i (ss_registry s)"
  shows "never_again i (ss_registry (snd (create_server_handler sha bytes f g now body s)))"
    "never_again i (ss_registry (snd (update_server_handler h now path_id body s)))"
    "never_again i (ss_registry (snd (rotate_handler sha bytes f now path_id s)))"
    "never_again i (ss_registry (snd (ingest_request sha race fs authorization decoded now source s)))"
    "never_again i (ss_registry (snd (delete_server_handler h path_id s)))"
proof -
  note ops = never_again_operations [OF assms]
  have upd: "never_again i (ss_registry s')" if "Update h now j name enabled s = (a, s')" for j name enabled a s'
    using never_again_operations(3) [OF assms, of h now j name enabled] that by simp
  have acc: "never_again i (ss_registry s')" if "Accept sha race f g token rep now source s = (a, s')" for f g token rep a s'
    using never_again_operations(4) [OF assms, of sha race f g token rep now source] that by simp
  show "never_again i (ss_registry (snd (create_server_handler sha bytes f g now body s)))"
    using assms ops(1) by (auto simp: create_server_handler_def Let_def live_fields split: sum.split)
  show "never_again i (ss_registry (snd (rotate_handler sha bytes f now path_id s)))"
    using assms ops(2) by (auto simp: rotate_handler_def Let_def live_fields split: option.split)
  show "never_again i (ss_registry (snd (update_server_handler h now path_id body s)))"
    using assms upd
    by (auto simp: update_server_handler_def split: option.splits sum.splits prod.splits)
  show "never_again i (ss_registry (snd (ingest_request sha race fs authorization decoded now source s)))"
    using assms acc
    by (auto simp: ingest_request_def split: option.splits sum.splits prod.splits decode_error.splits)
  show "never_again i (ss_registry (snd (delete_server_handler h path_id s)))"
    using assms by (cases rule: delete_handler_cases [of h path_id s]) (auto simp: never_again_def registered_def)
qed

lemma never_again_serve:
  assumes "never_again i (ss_registry (pb_system p))"
  shows "never_again i (ss_registry (pb_system (snd (serve lb cn r rq p))))"
  unfolding serve_def
  by (cases r) (simp_all add: assms never_again_handlers [OF assms] Let_def case_prod_beta split: sum.split)

lemma never_again_run:
  assumes "(probe_step lb)\<^sup>*\<^sup>* p q" and "never_again i (ss_registry (pb_system p))"
  shows "never_again i (ss_registry (pb_system q))"
proof -
  have "never_again i (ss_registry (pb_system q))"
    if "probe_step lb p q" "never_again i (ss_registry (pb_system p))" for p q
    using that by (induction rule: probe_step.induct) (simp_all add: never_again_serve)
  note step = this
  show ?thesis using assms by (induction rule: rtranclp_induct) (auto intro: step)
qed

section \<open>Nothing of a removed server remains\<close>

definition leaves_nothing :: "(string \<Rightarrow> string) \<Rightarrow> int \<Rightarrow> probe \<Rightarrow> bool" where
  "leaves_nothing sha i p \<longleftrightarrow>
     i \<notin> set (server_ids (ss_registry (pb_system p))) \<and>
     (\<forall>fails t sv. AuthenticateToken sha fails t (ss_registry (pb_system p)) = Inr sv \<longrightarrow> sv_id sv \<noteq> i) \<and>
     co_store (ss_live (pb_system p)) i = None \<and>
     (\<forall>(j, rule) \<in> set (db_rules (pb_alerts p)). gr_serverId rule \<noteq> i) \<and>
     (\<forall>e \<in> set (db_events (pb_alerts p)). ae_serverId e \<noteq> i) \<and>
     (\<forall>(key, payload) \<in> set (pb_minutes p). fst key \<noteq> i)"

lemma leaves_nothing_unregistered:
  assumes "probe_ok p" and "system_run sha (pb_system p)" and "i \<notin> set (server_ids (ss_registry (pb_system p)))"
  shows "leaves_nothing sha i p"
proof -
  have "sv_id sv \<noteq> i" if "AuthenticateToken sha fails t (ss_registry (pb_system p)) = Inr sv" for fails t sv
  proof -
    have "find_server (sv_id sv) (ss_registry (pb_system p)) = Some sv"
      using that system_run_registry [OF assms(2)] by (auto intro: authenticated_is_registered simp: registry_ok_def)
    then have "sv_id sv \<in> set (server_ids (ss_registry (pb_system p)))"
      using find_server_None [of "sv_id sv" "ss_registry (pb_system p)"] by simp
    then show ?thesis using assms(3) by blast
  qed
  moreover have "co_store (ss_live (pb_system p)) i = None"
  proof (rule ccontr)
    assume "co_store (ss_live (pb_system p)) i \<noteq> None"
    then obtain snap where "co_store (ss_live (pb_system p)) i = Some snap" by auto
    then obtain sv where "find_server i (ss_registry (pb_system p)) = Some sv"
      using system_run_follows [OF assms(2)] unfolding follows_registry_def by blast
    then show False using assms(3) find_server_None [of i "ss_registry (pb_system p)"] by simp
  qed
  moreover have unknown: "\<not> server_known (registered (ss_registry (pb_system p))) i"
    using assms(3) by (simp add: server_known_ids)
  have "\<forall>(j, rule) \<in> set (db_rules (pb_alerts p)). gr_serverId rule \<noteq> i"
    using assms(1) unknown by (fastforce simp: probe_ok_def Let_def alert_tables_ok_def rules_ok_def)
  moreover have "\<forall>e \<in> set (db_events (pb_alerts p)). ae_serverId e \<noteq> i"
    using assms(1) unknown by (fastforce simp: probe_ok_def Let_def alert_tables_ok_def alert_events_ok_def)
  moreover have "\<forall>(key, payload) \<in> set (pb_minutes p). fst key \<noteq> i"
    using assms(1) unknown by (fastforce simp: probe_ok_def Let_def)
  ultimately show ?thesis using assms(3) unfolding leaves_nothing_def by blast
qed

lemma deleted_never_again:
  assumes "system_run sha (pb_system p)" and "serve lb cn (DeleteServer path_id) rq p = (204, p')"
  shows "\<exists>i. routeID path_id = Some i \<and> never_again i (ss_registry (pb_system p'))"
proof -
  have "delete_server_request (cn_fails cn 1) path_id p = (204, p')"
    using assms(2) by (auto simp: serve_def RequireSession_def split: sum.splits if_splits auth_error.splits)
  then have reply: "fst (fst (delete_server_handler (cn_fails cn 1) path_id (pb_system p))) = 204"
      "pb_system p' = snd (delete_server_handler (cn_fails cn 1) path_id (pb_system p))"
    using delete_server_request_system(1) [of "cn_fails cn 1" path_id p]
    by (auto simp: delete_server_request_def Let_def case_prod_beta)
  show ?thesis
  proof (cases rule: delete_handler_cases [of "cn_fails cn 1" path_id "pb_system p"])
    case 1
    then show ?thesis using reply(1) by simp
  next
    case (2 i)
    then have "i \<in> set (server_ids (ss_registry (pb_system p)))" by (simp only: find_server_None not_not)
    then have "i < rg_next (ss_registry (pb_system p))"
      using system_run_registry [OF assms(1)] by (auto simp: registry_ok_def)
    then show ?thesis using 2(1,3) by (auto simp: reply(2) never_again_def server_ids_filter)
  qed
qed

text \<open>
  C5: Nothing of a removed server remains, and nothing comes back. Once a request to delete a server has
  been answered with success, then after whatever else happens - requests of any kind, reports of its
  agent that were under way, saves of the evaluator, flushed minutes - the server is not registered, no
  token authenticates it, and neither the live store nor a rule, an event or a minute refers to it.
\<close>

theorem removed_server_leaves_nothing:
  assumes "probe_run lb p" and "serve lb cn (DeleteServer path_id) rq p = (204, p')" and "(probe_step lb)\<^sup>*\<^sup>* p' q"
  shows "\<exists>i. routeID path_id = Some i \<and> leaves_nothing (lb_sha lb) i q"
proof -
  have "probe_step lb p p'" using step_request [of lb p cn "DeleteServer path_id" rq] assms(2) by simp
  then have q: "probe_run lb q" using assms(1,3) unfolding probe_run_def by simp
  obtain i where "routeID path_id = Some i" "never_again i (ss_registry (pb_system p'))"
    using deleted_never_again [OF probe_run_system [OF assms(1)] assms(2)] by blast
  moreover from this have "i \<notin> set (server_ids (ss_registry (pb_system q)))"
    using never_again_run [OF assms(3)] by (simp add: never_again_def)
  ultimately show ?thesis
    using leaves_nothing_unregistered [OF probe_run_ok [OF q] probe_run_system [OF q]] by blast
qed

section \<open>Nobody changes anything without a session\<close>

definition without_version :: "registry \<Rightarrow> (go_server \<times> string) list" where
  "without_version r = map (\<lambda>(sv, d). (sv\<lparr>sv_agentVersion := ''''\<rparr>, d)) (rg_rows r)"

lemma ingest_outsider:
  assumes s'_def: "s' = snd (ingest_request sha race fs authorization decoded now source s)"
  shows "without_version (ss_registry s') = without_version (ss_registry s)"
    "rg_next (ss_registry s') = rg_next (ss_registry s)" "ss_issued s' = ss_issued s"
    "s' \<noteq> s \<longrightarrow> (\<exists>token sv. bearerToken authorization = Some token \<and>
       AuthenticateToken sha False token (ss_registry s) = Inr sv)"
proof -
  have version: "without_version (snd (UpdateAgentVersion f i v r)) = without_version r \<and>
      rg_next (snd (UpdateAgentVersion f i v r)) = rg_next r" for f i v r
    by (auto simp: UpdateAgentVersion_def without_version_def update_row_rows update_row_def)
  then have accept: "without_version (ss_registry s2) = without_version (ss_registry s) \<and>
      rg_next (ss_registry s2) = rg_next (ss_registry s) \<and> ss_issued s2 = ss_issued s"
    if "Accept sha race f g token rep now source s = (a, s2)" for f g token rep a s2
    using that by (auto simp: Accept_def Let_def case_prod_beta split: sum.splits)
  show "without_version (ss_registry s') = without_version (ss_registry s)"
    "rg_next (ss_registry s') = rg_next (ss_registry s)" "ss_issued s' = ss_issued s"
    using accept
    by (auto simp: s'_def ingest_request_def split: option.splits sum.splits prod.splits decode_error.splits)
  have "AuthenticateToken sha False token (ss_registry s) = Inr sv"
    if "AuthenticateToken sha f token (ss_registry s) = Inr sv" for f token sv
    using that by (auto simp: AuthenticateToken_def split: if_splits)
  then show "s' \<noteq> s \<longrightarrow> (\<exists>token sv. bearerToken authorization = Some token \<and>
       AuthenticateToken sha False token (ss_registry s) = Inr sv)"
    by (auto simp: s'_def ingest_request_def split: option.splits sum.splits)
qed

lemma setup_outsider:
  "snd (setup_handler hash required f credentials db) \<noteq> db \<longrightarrow> ad_admin db = None"
  by (cases "ad_admin db") (auto simp: setup_handler_def CreateAdmin_def split: sum.splits prod.splits bool.splits
      option.splits if_splits auth_error.splits)

lemma login_outsider:
  "snd (login_handler sha sec_text verify bytes f g now credentials db) \<noteq> db \<longrightarrow>
     (\<exists>username password h. credentials = Inr (username, password) \<and> ad_admin db = Some (username, h) \<and>
        verify password h = Some True)"
proof (cases credentials)
  case (Inr c)
  obtain username password where c: "c = (username, password)" by (cases c)
  show ?thesis
    by (cases rule: Login_cases [of sha sec_text verify bytes f g now username password db])
       (auto simp: login_handler_def Inr c split: auth_error.splits)
qed (simp add: login_handler_def)

text \<open>
  C7: Without a session nobody reads or changes anything but what is meant to be open. A request whose
  cookie is no live session is answered 401 (500 when the sessions cannot be read) on every route of
  the group and changes nothing; on the open routes it changes no rule, event, attempt, minute, webhook
  or server except the version a server's agent reports. The live part changes only for a report
  with the token of an enabled server, and the accounts only when the administrator is set up
  for the first time or logs in with the right name and password.
\<close>

theorem outsider_changes_nothing:
  assumes "RequireSession (lb_sha lb) (lb_sec_text lb) (cn_fails cn 0) (cn_session_now cn) (rq_cookie rq) (pb_auth p) = Inl st"
    and "serve lb cn r rq p = (status, q)"
  shows "(guarded r \<longrightarrow> status = st \<and> (st = 401 \<or> st = 500) \<and> q = p) \<and>
    pb_alerts q = pb_alerts p \<and> pb_minutes q = pb_minutes p \<and>
    without_version (ss_registry (pb_system q)) = without_version (ss_registry (pb_system p)) \<and>
    rg_next (ss_registry (pb_system q)) = rg_next (ss_registry (pb_system p)) \<and>
    ss_issued (pb_system q) = ss_issued (pb_system p) \<and>
    (pb_system q \<noteq> pb_system p \<longrightarrow> r = PostReport \<and>
       (\<exists>token sv. bearerToken (rq_authorization rq) = Some token \<and>
          AuthenticateToken (lb_sha lb) False token (ss_registry (pb_system p)) = Inr sv)) \<and>
    (pb_auth q \<noteq> pb_auth p \<longrightarrow>
       r = PostSetup \<and> ad_admin (pb_auth p) = None \<or>
       r = PostLogin \<and> (\<exists>username password h. rq_credentials rq = Inr (username, password) \<and>
          ad_admin (pb_auth p) = Some (username, h) \<and> lb_verify lb password h = Some True))"
proof (cases "guarded r")
  case True
  have "st = 401 \<or> st = 500"
    using assms(1) by (auto simp: RequireSession_def split: if_splits sum.splits auth_error.splits)
  then show ?thesis using True assms by (simp add: serve_def)
next
  case False
  have open': "open_route lb cn r rq p = (status, q)" using False assms(2) by (simp add: serve_def)
  let ?auth = "\<lambda>db. p\<lparr>pb_auth := db\<rparr>" and ?sys = "\<lambda>s. p\<lparr>pb_system := s\<rparr>"
  consider "q = p"
    | "r = PostSetup" "q = ?auth (snd (setup_handler (lb_hash lb) (SetupRequired (cn_fails cn 1) (pb_auth p))
        (cn_fails cn 2) (rq_credentials rq) (pb_auth p)))"
    | "r = PostLogin" "q = ?auth (snd (login_handler (lb_sha lb) (lb_sec_text lb) (lb_verify lb) (cn_bytes cn)
        (cn_fails cn 1) (cn_fails cn 2) (cn_now cn) (rq_credentials rq) (pb_auth p)))"
    | "r = PostReport" "q = ?sys (snd (ingest_request (lb_sha lb) (cn_race cn) (cn_fails cn) (rq_authorization rq)
        (rq_report rq) (cn_now cn) (rq_source rq) (pb_system p)))"
    using False open' by (cases r) (auto simp: with_auth_def Let_def case_prod_beta)
  then show ?thesis
  proof cases
    case 1
    then show ?thesis using False by simp
  next
    case 2
    then show ?thesis using setup_outsider [of "lb_hash lb" "SetupRequired (cn_fails cn 1) (pb_auth p)"
        "cn_fails cn 2" "rq_credentials rq" "pb_auth p"] by simp
  next
    case 3
    then show ?thesis using login_outsider [of "lb_sha lb" "lb_sec_text lb" "lb_verify lb" "cn_bytes cn"
        "cn_fails cn 1" "cn_fails cn 2" "cn_now cn" "rq_credentials rq" "pb_auth p"] by simp
  next
    case 4
    then show ?thesis using ingest_outsider [OF refl, of "lb_sha lb" "cn_race cn" "cn_fails cn" "rq_authorization rq"
        "rq_report rq" "cn_now cn" "rq_source rq" "pb_system p"] by simp
  qed
qed

text \<open>
  A run to evaluate the properties on: the administrator is set up and logs in, and creates a server. The
  library of the sample hashes nothing, and its text of a time tells the first 100 seconds from the rest.
\<close>

definition sample_library :: library where
  "sample_library =
     \<lparr>lb_sha = (\<lambda>t. t), lb_sec_text = (\<lambda>t. if t < 100 then ''0'' else ''1''), lb_hash = Some,
      lb_verify = (\<lambda>password h. Some (password = h)), lb_lower = (\<lambda>t. t),
      lb_parse_url = (\<lambda>u. Some (''https'', u)), lb_renders = (\<lambda>t. True), lb_render = Inr, lb_time_ok = (\<lambda>t. True)\<rparr>"

definition sample_world :: world where
  "sample_world =
     \<lparr>list_fails = False, get_fails = (\<lambda>i. False), save_fails = (\<lambda>i. False), webhook_fails = False,
      eval_clock = (\<lambda>i. 0), save_clock = (\<lambda>i. 0)\<rparr>"

definition sample_circumstances :: circumstances where
  "sample_circumstances =
     \<lparr>cn_session_now = 0, cn_now = 0, cn_bytes = Some ''abc'', cn_fails = (\<lambda>n. False), cn_reads = sample_world,
      cn_rereads = sample_world, cn_attempts_fail = (\<lambda>i. False), cn_history_fails = (\<lambda>n. False),
      cn_race = (\<lambda>n. (0, 0)), cn_sleeps = (\<lambda>n. False),
      cn_send = (\<lambda>t n. \<lparr>at_responseStatus = Some 200, at_errorText = ''''\<rparr>), cn_record_fails = (\<lambda>n. False),
      cn_sent = (\<lambda>n. 0), cn_static = 404\<rparr>"

definition sample_request :: "jv \<Rightarrow> http_request" where
  "sample_request body =
     \<lparr>rq_cookie = Some ''YWJj'', rq_authorization = '''', rq_body = Inr body,
      rq_credentials = Inr (''admin'', ''correct horse''), rq_report = Inl Malformed, rq_source = ''10.0.0.9''\<rparr>"

definition sample_after :: "endpoint \<Rightarrow> jv \<Rightarrow> probe \<Rightarrow> probe" where
  "sample_after r body p = snd (serve sample_library sample_circumstances r (sample_request body) p)"

definition sample_probe :: probe where
  "sample_probe =
     sample_after PostServer (JObj [(''name'', JStr ''home-lab'')])
       (sample_after PostLogin JNull (sample_after PostSetup JNull initial_probe))"

lemma sample_after_step: "(probe_step sample_library)\<^sup>*\<^sup>* p q \<Longrightarrow> (probe_step sample_library)\<^sup>*\<^sup>* p (sample_after r body q)"
  unfolding sample_after_def by (erule rtranclp.rtrancl_into_rtrancl) (rule step_request)

lemma sample_probe_run: "probe_run sample_library sample_probe"
  unfolding sample_probe_def probe_run_def by (intro sample_after_step) simp

lemmas sample_defs = sample_library_def sample_circumstances_def sample_request_def

lemma base64_abc: "base64_url ''abc'' = ''YWJj''"
  by (simp add: base64_char_def base64_alphabet_def Let_def)

lemma sample_logged_in:
  "sample_after PostLogin JNull (sample_after PostSetup JNull initial_probe) =
     initial_probe\<lparr>pb_auth := \<lparr>ad_admin = Some (''admin'', ''correct horse''), ad_sessions = [(''YWJj'', ''1Z'')]\<rparr>\<rparr>"
  by (simp add: sample_after_def serve_def sample_defs with_auth_def setup_handler_def CreateAdmin_def SetupRequired_def
      login_handler_def Login_def tokenPair_def base64_abc time_text_def frac_text_def session_length_def
      initial_probe_def Let_def del: base64_url.simps)

lemma sample_session:
  "RequireSession (lb_sha sample_library) (lb_sec_text sample_library) False 0 (Some ''YWJj'')
     \<lparr>ad_admin = Some (''admin'', ''correct horse''), ad_sessions = [(''YWJj'', ''1Z'')]\<rparr> = Inr (''admin'', ''YWJj'')"
  by (simp add: RequireSession_def Authenticate_def sample_library_def time_text_def frac_text_def less_char_def)

lemma sample_probe_eq:
  "sample_probe =
     \<lparr>pb_auth = \<lparr>ad_admin = Some (''admin'', ''correct horse''), ad_sessions = [(''YWJj'', ''1Z'')]\<rparr>,
      pb_system = \<lparr>ss_live = \<lparr>co_store = Map.empty, co_hub = NewHub, co_observed = [], co_history = []\<rparr>,
        ss_registry = \<lparr>rg_rows = [(\<lparr>sv_id = 1, sv_name = ''home-lab'', sv_enabled = True, sv_agentVersion = '''',
            sv_createdAt = 0, sv_updatedAt = 0\<rparr>, ''tp_YWJj'')], rg_next = 2\<rparr>,
        ss_issued = [(1, ''tp_YWJj'')]\<rparr>,
      pb_alerts = empty_alert_db, pb_minutes = []\<rparr>"
proof -
  have "decode_body decode_create (Inr (JObj [(''name'', JStr ''home-lab'')])) = Inr ''home-lab''"
    by (simp add: decode_body_def decode_create_def)
  then show ?thesis
    unfolding sample_probe_def sample_logged_in
    unfolding sample_after_def
    using sample_session
    by (simp add: serve_def sample_circumstances_def sample_request_def initial_probe_def with_system_def
        create_server_handler_def Create_def sample_tokens issue_def empty_registry_def maxServers_def Let_def
        sample_library_def)
qed

lemma sample_delete:
  "serve sample_library sample_circumstances (DeleteServer ''1'') (sample_request JNull) sample_probe =
     (204, sample_probe\<lparr>pb_system := (pb_system sample_probe)
        \<lparr>ss_live := \<lparr>co_store = Map.empty, co_hub = NewHub, co_observed = [], co_history = [HistoryRemove 1]\<rparr>,
         ss_registry := \<lparr>rg_rows = [], rg_next = 2\<rparr>\<rparr>\<rparr>)"
proof -
  have "routeID ''1'' = Some 1"
    by (simp add: routeID_def ParseInt_def digits_value_def is_digit_def)
  moreover have "cascade_server i empty_alert_db = empty_alert_db" for i
    by (simp add: cascade_server_def cascade_def empty_alert_db_def fun_eq_iff)
  ultimately show ?thesis
    using sample_session
    by (simp add: serve_def sample_probe_eq sample_circumstances_def sample_request_def delete_server_request_def
        delete_server_handler_def Delete_def delete_statement_def find_server_def registered_def ReconcileDelete_def
        store_delete_def remove_references_def sample_library_def Let_def)
qed

theorem removed_server_leaves_nothing_witness:
  "leaves_nothing (\<lambda>t. t) 1
     (sample_after PostServer (JObj [(''name'', JStr ''other'')])
        (sample_after (DeleteServer ''1'') JNull sample_probe))"
proof -
  let ?p = "sample_after (DeleteServer ''1'') JNull sample_probe"
  have step: "(probe_step sample_library)\<^sup>*\<^sup>* ?p (sample_after PostServer body ?p)" for body
    by (rule sample_after_step) simp
  have "serve sample_library sample_circumstances (DeleteServer ''1'') (sample_request JNull) sample_probe = (204, ?p)"
    by (simp add: sample_after_def sample_delete)
  moreover have "routeID ''1'' = Some 1"
    by (simp add: routeID_def ParseInt_def digits_value_def is_digit_def)
  moreover have "lb_sha sample_library = (\<lambda>t. t)" by (simp add: sample_library_def)
  ultimately show ?thesis
    using removed_server_leaves_nothing [OF sample_probe_run _ step, of sample_circumstances "''1''" "sample_request JNull"]
    by simp
qed

theorem outsider_changes_nothing_witness:
  "serve sample_library sample_circumstances (DeleteServer ''1'') ((sample_request JNull)\<lparr>rq_cookie := Some ''tp_YWJj''\<rparr>)
     sample_probe = (401, sample_probe)"
proof -
  let ?rq = "(sample_request JNull)\<lparr>rq_cookie := Some ''tp_YWJj''\<rparr>"
  have "RequireSession (lb_sha sample_library) (lb_sec_text sample_library) (cn_fails sample_circumstances 0)
      (cn_session_now sample_circumstances) (rq_cookie ?rq) (pb_auth sample_probe) = Inl 401"
    by (simp add: RequireSession_def Authenticate_def sample_defs sample_probe_eq)
  from outsider_changes_nothing [OF this, of "DeleteServer ''1''"] show ?thesis
    by (cases "serve sample_library sample_circumstances (DeleteServer ''1'') ?rq sample_probe") simp
qed

section \<open>The tables together\<close>

text \<open>
  C9: The tables and the live part stay consistent, whatever requests come and however they interleave
  with the background's work. At most ten servers are registered, no two with one id; a snapshot in the
  live store is that of a registered server, under its current name; every rule, event and minute
  belongs to a registered server, every state and event to a rule, and every attempt recorded for an event
  to one that is stored;
  the ids of the tables grow; and every stored rule is one that the form of the rules allows.
\<close>

theorem probe_stays_consistent:
  assumes "probe_run lb p"
  shows "let srvs = registered (ss_registry (pb_system p))
    in length srvs \<le> 10 \<and> distinct (map sv_id srvs) \<and>
       (case co_store (ss_live (pb_system p)) i of
          None \<Rightarrow> True
        | Some snap \<Rightarrow> \<exists>sv \<in> set srvs. sv_id sv = i \<and> gs_serverId snap = i \<and> gs_serverName snap = sv_name sv) \<and>
       alert_tables_ok srvs (pb_alerts p) \<and>
       (\<forall>(key, payload) \<in> set (pb_minutes p). server_known srvs (fst key))"
proof -
  have "case co_store (ss_live (pb_system p)) i of
      None \<Rightarrow> True
    | Some snap \<Rightarrow> \<exists>sv \<in> set (registered (ss_registry (pb_system p))).
        sv_id sv = i \<and> gs_serverId snap = i \<and> gs_serverName snap = sv_name sv"
    using store_follows_registry [OF probe_run_system [OF assms], of i]
      find_server_Some [of i "ss_registry (pb_system p)"]
    by (auto split: option.splits)
  then show ?thesis
    using store_follows_registry [OF probe_run_system [OF assms], of i] probe_run_ok [OF assms]
    by (simp add: probe_ok_def Let_def)
qed

theorem probe_stays_consistent_witness:
  "alert_tables_ok [\<lparr>sv_id = 1, sv_name = ''home-lab'', sv_enabled = True, sv_agentVersion = '''', sv_createdAt = 0,
      sv_updatedAt = 0\<rparr>] (pb_alerts sample_probe)"
  using probe_stays_consistent [OF sample_probe_run] by (simp add: Let_def sample_probe_eq registered_def)

end
