(* ===== verification/AlertForms.thy ===== *)
theory AlertForms
  imports Endpoints StringNumber
begin

text \<open>
  \<^verbatim>\<open>web/src/components/AlertRuleForm.tsx\<close>, \<^verbatim>\<open>web/src/components/WebhookForm.tsx\<close> and
  \<^verbatim>\<open>web/src/components/AlertEventList.tsx\<close>. The browser's validation of the inputs is left out.
  An exception that is no \<open>ApiError\<close> has a message if it is an \<open>Error\<close>: the parameter \<open>om\<close>.
\<close>

definition error_message :: "string option \<Rightarrow> string \<Rightarrow> js_error \<Rightarrow> string" where
  "error_message om fallback e =
     (case e of ApiErr a \<Rightarrow> ae_message a | OtherErr \<Rightarrow> nullish om fallback)"

section \<open>The form of a rule\<close>

fun metric_label :: "alert_metric \<Rightarrow> string" where
  "metric_label Offline = t_server_offline"
| "metric_label CpuUsage = t_cpu_usage"
| "metric_label MemoryUsage = t_memory_usage"
| "metric_label DiskUsage = t_disk_usage"
| "metric_label DiskFreeBytes = t_disk_free"

definition metricLabels :: "(alert_metric \<times> string) list" where
  "metricLabels =
     map (\<lambda>m. (m, metric_label m)) [Offline, CpuUsage, MemoryUsage, DiskUsage, DiskFreeBytes]"

text \<open>The menu offers every metric, once.\<close>

lemma metricLabels_complete:
  "map fst metricLabels = enum_class.enum" "distinct (map snd metricLabels)"
  by (simp_all add: metricLabels_def enum_alert_metric_def t_server_offline_def t_cpu_usage_def
      t_memory_usage_def t_disk_usage_def t_disk_free_def)

definition initialInput :: "alert_rule option \<Rightarrow> alert_rule_input" where
  "initialInput rule =
     \<lparr>ri_serverId = nullish (map_option ru_serverId rule) (Fin 0),
      ri_metric = nullish (map_option ru_metric rule) CpuUsage,
      ri_operator = nullish (map_option ru_operator rule) Gt,
      ri_threshold = nullish (map_option ru_threshold rule) (Fin 85),
      ri_durationSeconds = Some (nullish (map_option ru_durationSeconds rule) (Fin 300)),
      ri_repeatSeconds = nullish (map_option ru_repeatSeconds rule) (Fin 0),
      ri_enabled = nullish (map_option ru_enabled rule) True\<rparr>"

definition metricDescription :: "alert_metric \<Rightarrow> jsnum \<Rightarrow> string" where
  "metricDescription m x =
     (case m of
        Offline \<Rightarrow> t_server_offline
      | CpuUsage \<Rightarrow> t_cpu_usage @ t_above @ number_to_string x @ ''%''
      | MemoryUsage \<Rightarrow> t_memory_usage @ t_above @ number_to_string x @ ''%''
      | DiskUsage \<Rightarrow> t_disk_usage @ t_above @ number_to_string x @ ''%''
      | DiskFreeBytes \<Rightarrow> t_disk_free @ t_below @ number_to_string x @ t_bytes)"

definition is_percent :: "alert_metric \<Rightarrow> bool" where
  "is_percent m \<longleftrightarrow> m \<noteq> DiskFreeBytes \<and> m \<noteq> Offline"

text \<open>\<open>current.durationSeconds || 300\<close>\<close>

definition duration_or_default :: "jsnum option \<Rightarrow> jsnum" where
  "duration_or_default d =
     (case d of None \<Rightarrow> Fin 300 | Some x \<Rightarrow> if truthy (JNum x) then x else Fin 300)"

definition changeMetric :: "alert_metric \<Rightarrow> alert_rule_input \<Rightarrow> alert_rule_input" where
  "changeMetric m input =
     input\<lparr>ri_metric := m, ri_operator := (if m = DiskFreeBytes then Lt else Gt),
           ri_threshold := (if m = Offline then Fin 0 else ri_threshold input),
           ri_durationSeconds :=
             Some (if m = Offline then Fin 0 else duration_or_default (ri_durationSeconds input))\<rparr>"

text \<open>The check of \<open>submit\<close>: the error text, or the input that is saved.\<close>

definition submit_rule :: "alert_rule_input \<Rightarrow> string + alert_rule_input" where
  "submit_rule input =
     (let offl = (ri_metric input = Offline); x = ri_threshold input
      in if js_lt (ri_serverId input) (Fin 1) then Inl t_choose_server
         else if \<not> offl \<and> (\<not> is_finite x \<or> js_lt x (Fin 0) \<or> (is_percent (ri_metric input) \<and> js_lt (Fin 100) x))
         then Inl t_bad_threshold
         else Inr (input\<lparr>ri_durationSeconds := (if offl then Some (Fin 0) else ri_durationSeconds input)\<rparr>))"

record rule_form =
  rf_input :: alert_rule_input
  rf_error :: string

text \<open>The effect of a new \<open>initial\<close>, and the first state.\<close>

definition reset_rule_form :: "alert_rule option \<Rightarrow> rule_form" where
  "reset_rule_form initial = \<lparr>rf_input = initialInput initial, rf_error = ''''\<rparr>"

text \<open>The inputs; a number is read with \<open>Number\<close> from the text of its field.\<close>

datatype rule_edit =
    ChooseServer jsnum
  | ChooseMetric alert_metric
  | TypeThreshold string
  | TypeDuration string
  | TypeRepeat string
  | CheckEnabled bool

fun edit_rule :: "rule_edit \<Rightarrow> alert_rule_input \<Rightarrow> alert_rule_input" where
  "edit_rule (ChooseServer i) input = input\<lparr>ri_serverId := i\<rparr>"
| "edit_rule (ChooseMetric m) input = changeMetric m input"
| "edit_rule (TypeThreshold t) input =
     (if ri_metric input = Offline then input else input\<lparr>ri_threshold := to_number t\<rparr>)"
| "edit_rule (TypeDuration t) input =
     (if ri_metric input = Offline then input else input\<lparr>ri_durationSeconds := Some (to_number t)\<rparr>)"
| "edit_rule (TypeRepeat t) input = input\<lparr>ri_repeatSeconds := to_number t\<rparr>"
| "edit_rule (CheckEnabled b) input = input\<lparr>ri_enabled := b\<rparr>"

text \<open>\<open>submit\<close> up to \<open>onSave\<close>, and its \<open>catch\<close>.\<close>

definition submit_begin :: "rule_form \<Rightarrow> alert_rule_input option \<times> rule_form" where
  "submit_begin f =
     (case submit_rule (rf_input f) of
        Inl message \<Rightarrow> (None, f\<lparr>rf_error := message\<rparr>)
      | Inr input \<Rightarrow> (Some input, f\<lparr>rf_error := ''''\<rparr>))"

definition submit_failed :: "string option \<Rightarrow> js_error \<Rightarrow> rule_form \<Rightarrow> rule_form" where
  "submit_failed om e f = f\<lparr>rf_error := error_message om t_rule_save_failed e\<rparr>"

record rule_form_view =
  rv_servers :: "(string \<times> jsnum) list"
  rv_metrics :: "(alert_metric \<times> string) list"
  rv_threshold_label :: string
  rv_max :: "jsnum option"
  rv_threshold :: jsnum
  rv_duration :: "jsnum option"
  rv_repeat :: jsnum
  rv_checked :: bool
  rv_offline :: bool
  rv_submit :: string
  rv_saving :: bool
  rv_cancel :: bool
  rv_error :: "string option"

definition rule_form_view_of ::
  "server_record list \<Rightarrow> alert_rule option \<Rightarrow> bool \<Rightarrow> bool \<Rightarrow> rule_form \<Rightarrow> rule_form_view" where
  "rule_form_view_of srvs initial saving cancellable f =
     (let input = rf_input f; m = ri_metric input; offl = (m = Offline)
      in \<lparr>rv_servers = map (\<lambda>s. (sr_name s, sr_id s)) srvs, rv_metrics = metricLabels,
          rv_threshold_label =
            t_threshold @ (if is_percent m then t_in_percent else if m = DiskFreeBytes then t_in_bytes else ''''),
          rv_max = (if is_percent m then Some (Fin 100) else None),
          rv_threshold = ri_threshold input,
          rv_duration = (if offl then Some (Fin 0) else ri_durationSeconds input),
          rv_repeat = ri_repeatSeconds input, rv_checked = ri_enabled input, rv_offline = offl,
          rv_submit = (if saving then t_saving else if initial \<noteq> None then t_save_rule else t_add_rule),
          rv_saving = saving, rv_cancel = cancellable,
          rv_error = (if rf_error f \<noteq> '''' then Some (rf_error f) else None)\<rparr>)"

section \<open>The form of the webhook\<close>

text \<open>
  An object of headers is the list of its entries. Names that are array indices, which
  JavaScript moves to the front, and the name of the prototype are left out.
\<close>

definition rowsFromHeaders :: "(string \<times> string) list \<Rightarrow> (string \<times> string) list" where
  "rowsFromHeaders headers = (if headers \<noteq> [] then headers else [('''', '''')])"

record webhook_form =
  wf_url :: string
  wf_enabled :: bool
  wf_bodyTemplate :: string
  wf_headers :: "(string \<times> string) list"
  wf_error :: string
  wf_testing :: bool
  wf_testResult :: string

definition initial_webhook_form :: "webhook_config \<Rightarrow> webhook_form" where
  "initial_webhook_form w =
     \<lparr>wf_url = wc_url w, wf_enabled = wc_enabled w, wf_bodyTemplate = wc_bodyTemplate w,
      wf_headers = rowsFromHeaders (wc_headers w), wf_error = '''', wf_testing = False, wf_testResult = ''''\<rparr>"

text \<open>The effect of a new \<open>initial\<close> keeps the test's state.\<close>

definition reset_webhook_form :: "webhook_config \<Rightarrow> webhook_form \<Rightarrow> webhook_form" where
  "reset_webhook_form w f =
     f\<lparr>wf_url := wc_url w, wf_enabled := wc_enabled w, wf_bodyTemplate := wc_bodyTemplate w,
       wf_headers := rowsFromHeaders (wc_headers w), wf_error := ''''\<rparr>"

definition header_of_row :: "(string \<times> string) list \<Rightarrow> string \<times> string \<Rightarrow> (string \<times> string) list" where
  "header_of_row result row =
     (if trim (fst row) \<noteq> '''' then put_header result (trim (fst row), snd row) else result)"

definition config :: "webhook_form \<Rightarrow> webhook_config" where
  "config f =
     \<lparr>wc_url = trim (wf_url f), wc_headers = foldl header_of_row [] (wf_headers f),
      wc_bodyTemplate = wf_bodyTemplate f, wc_enabled = wf_enabled f,
      wc_createdAt = None, wc_updatedAt = None\<rparr>"

datatype header_key = HeaderName | HeaderValue

fun change_row :: "header_key \<Rightarrow> string \<Rightarrow> string \<times> string \<Rightarrow> string \<times> string" where
  "change_row HeaderName t (n, v) = (t, v)"
| "change_row HeaderValue t (n, v) = (n, t)"

definition changeHeader :: "nat \<Rightarrow> header_key \<Rightarrow> string \<Rightarrow> webhook_form \<Rightarrow> webhook_form" where
  "changeHeader index k t f =
     f\<lparr>wf_headers := map (\<lambda>(i, row). if i = index then change_row k t row else row)
                        (zip [0..<length (wf_headers f)] (wf_headers f))\<rparr>"

definition removeHeader :: "nat \<Rightarrow> webhook_form \<Rightarrow> webhook_form" where
  "removeHeader index f =
     f\<lparr>wf_headers :=
         (if length (wf_headers f) = 1 then [('''', '''')]
          else map snd (filter (\<lambda>(i, row). i \<noteq> index) (zip [0..<length (wf_headers f)] (wf_headers f))))\<rparr>"

definition addHeader :: "webhook_form \<Rightarrow> webhook_form" where
  "addHeader f = f\<lparr>wf_headers := wf_headers f @ [('''', '''')]\<rparr>"

definition save_begin :: "webhook_form \<Rightarrow> webhook_config \<times> webhook_form" where
  "save_begin f = (config f, f\<lparr>wf_error := '''', wf_testResult := ''''\<rparr>)"

definition save_failed :: "string option \<Rightarrow> js_error \<Rightarrow> webhook_form \<Rightarrow> webhook_form" where
  "save_failed om e f = f\<lparr>wf_error := error_message om t_webhook_save_failed e\<rparr>"

definition test_begin :: "webhook_form \<Rightarrow> webhook_form" where
  "test_begin f = f\<lparr>wf_testing := True, wf_error := '''', wf_testResult := ''''\<rparr>"

definition count_text :: "'a list \<Rightarrow> string" where
  "count_text xs = number_to_string (num_of_int (int (length xs)))"

definition test_done :: "string option \<Rightarrow> delivery_outcome promise \<Rightarrow> webhook_form \<Rightarrow> webhook_form" where
  "test_done om outcome f =
     (case outcome of
        Fulfilled d \<Rightarrow>
          f\<lparr>wf_testResult := (if do_success d then t_test_ok else t_test_not_ok) @
              count_text (do_attempts d) @ t_attempts\<rparr>
      | Rejected e \<Rightarrow> f\<lparr>wf_error := error_message om t_test_failed e\<rparr>)\<lparr>wf_testing := False\<rparr>"

record webhook_form_view =
  wv_rows :: "(string \<times> string \<times> string \<times> string) list"
  wv_save :: string
  wv_save_disabled :: bool
  wv_test :: string
  wv_test_disabled :: bool
  wv_result :: "string option"
  wv_error :: "string option"

definition webhook_form_view_of :: "bool \<Rightarrow> webhook_form \<Rightarrow> webhook_form_view" where
  "webhook_form_view_of saving f =
     \<lparr>wv_rows =
        map (\<lambda>(i, n, v). let k = number_to_string (num_of_int (int i + 1))
               in (t_header_name @ k, n, t_header_value @ (if n \<noteq> '''' then n else k), v))
          (zip [0..<length (wf_headers f)] (wf_headers f)),
      wv_save = (if saving then t_saving else t_save_webhook), wv_save_disabled = saving,
      wv_test = (if wf_testing f then t_sending else t_send_test),
      wv_test_disabled = (wf_testing f \<or> saving),
      wv_result = (if wf_testResult f \<noteq> '''' then Some (wf_testResult f) else None),
      wv_error = (if wf_error f \<noteq> '''' then Some (wf_error f) else None)\<rparr>"

section \<open>The list of events\<close>

fun status_label :: "alert_status \<Rightarrow> string" where
  "status_label Normal = t_normal"
| "status_label Pending = t_waiting"
| "status_label Firing = t_firing"
| "status_label Recovered = t_recovered"

text \<open>\<open>new Date(value).toLocaleString\<close> is the parameter \<open>locale\<close>.\<close>

definition formatTime :: "(string \<Rightarrow> string) \<Rightarrow> string option \<Rightarrow> string" where
  "formatTime loc v =
     (case v of None \<Rightarrow> em_dash | Some t \<Rightarrow> if t \<noteq> '''' then loc t else em_dash)"

fun number_is_integer :: "jsnum \<Rightarrow> bool" where
  "number_is_integer (Fin x) = (of_int \<lfloor>x\<rfloor> = x)"
| "number_is_integer _ = False"

definition formatValue :: "jsnum option \<Rightarrow> string" where
  "formatValue v =
     (case v of
        None \<Rightarrow> em_dash
      | Some x \<Rightarrow> if number_is_integer x then number_to_string x else to_fixed 2 x)"

definition toggle_expanded :: "jsnum \<Rightarrow> jsnum option \<Rightarrow> jsnum option" where
  "toggle_expanded i current =
     (case current of Some j \<Rightarrow> if js_eq j i then None else Some i | None \<Rightarrow> Some i)"

definition attempt_text :: "(string \<Rightarrow> string) \<Rightarrow> webhook_attempt \<Rightarrow> string" where
  "attempt_text loc a =
     t_ordinal @ number_to_string (wa_attempt a) @ t_times @
     (case wa_responseStatus a of
        Some st \<Rightarrow> if truthy (JNum st) then ''HTTP '' @ number_to_string st else t_no_response
      | None \<Rightarrow> t_no_response) @
     (if wa_errorText a \<noteq> '''' then t_dot @ wa_errorText a else '''') @ t_dot @
     formatTime loc (Some (wa_sentAt a))"

record event_row =
  er_status :: string
  er_server :: string
  er_metric :: string
  er_value :: string
  er_threshold :: string
  er_started :: string
  er_ended :: string
  er_button :: string
  er_attempts :: "string list option"

text \<open>An empty list of attempts that is shown is the hint that none was made.\<close>

definition event_row_of :: "(string \<Rightarrow> string) \<Rightarrow> jsnum option \<Rightarrow> alert_event \<Rightarrow> event_row" where
  "event_row_of loc expanded e =
     (let opened = (case expanded of None \<Rightarrow> False | Some j \<Rightarrow> js_eq j (ev_id e))
      in \<lparr>er_status = status_label (ev_status e), er_server = ev_serverName e,
          er_metric = metric_label (ev_metric e), er_value = formatValue (ev_currentValue e),
          er_threshold = formatValue (ev_threshold e), er_started = formatTime loc (Some (ev_startedAt e)),
          er_ended = formatTime loc (ev_endedAt e),
          er_button = (if opened then t_collapse_attempts
                       else t_attempt_log @ count_text (ev_attempts e) @ t_close_paren),
          er_attempts = (if opened then Some (map (attempt_text loc) (ev_attempts e)) else None)\<rparr>)"

definition AlertEventList :: "(string \<Rightarrow> string) \<Rightarrow> jsnum option \<Rightarrow> alert_event list \<Rightarrow> event_row list" where
  "AlertEventList loc expanded es = map (event_row_of loc expanded) es"

section \<open>What the forms send\<close>

text \<open>Every input goes with its operator, and an offline rule has neither threshold nor duration.\<close>

definition rule_consistent :: "alert_rule_input \<Rightarrow> bool" where
  "rule_consistent input \<longleftrightarrow>
     ri_operator input = (if ri_metric input = DiskFreeBytes then Lt else Gt) \<and>
     (ri_metric input = Offline \<longrightarrow> ri_threshold input = Fin 0) \<and> ri_durationSeconds input \<noteq> None"

definition stored_rule_ok :: "alert_rule \<Rightarrow> bool" where
  "stored_rule_ok rule \<longleftrightarrow>
     ru_operator rule = (if ru_metric rule = DiskFreeBytes then Lt else Gt) \<and>
     (ru_metric rule = Offline \<longrightarrow> ru_threshold rule = Fin 0)"

lemma initialInput_consistent:
  "(\<And>rule. initial = Some rule \<Longrightarrow> stored_rule_ok rule) \<Longrightarrow> rule_consistent (initialInput initial)"
  by (cases initial) (auto simp: rule_consistent_def initialInput_def stored_rule_ok_def)

lemma edit_rule_consistent: "rule_consistent input \<Longrightarrow> rule_consistent (edit_rule e input)"
  by (cases e) (auto simp: rule_consistent_def changeMetric_def)

lemma edits_consistent: "rule_consistent input \<Longrightarrow> rule_consistent (fold edit_rule es input)"
  by (induction es arbitrary: input) (simp_all add: edit_rule_consistent)

lemma edits_server:
  "ri_serverId (fold edit_rule es input) \<in> insert (ri_serverId input) {i. ChooseServer i \<in> set es}"
proof (induction es arbitrary: input)
  case (Cons e es)
  have "ri_serverId (edit_rule e input) = ri_serverId input \<or> e = ChooseServer (ri_serverId (edit_rule e input))"
    by (cases e) (simp_all add: changeMetric_def)
  then show ?case using Cons [of "edit_rule e input"] by auto
qed simp

text \<open>What the form sends; the server's view of it is in theory AlertsProps.\<close>

definition rule_sendable :: "alert_rule_input \<Rightarrow> bool" where
  "rule_sendable r \<longleftrightarrow>
     \<not> js_lt (ri_serverId r) (Fin 1) \<and>
     ri_operator r = (if ri_metric r = DiskFreeBytes then Lt else Gt) \<and>
     (ri_metric r = Offline \<longrightarrow> ri_threshold r = Fin 0 \<and> ri_durationSeconds r = Some (Fin 0)) \<and>
     is_finite (ri_threshold r) \<and> \<not> js_lt (ri_threshold r) (Fin 0) \<and>
     (is_percent (ri_metric r) \<longrightarrow> \<not> js_lt (Fin 100) (ri_threshold r)) \<and>
     ri_durationSeconds r \<noteq> None"

lemma submit_rule_sendable:
  "rule_consistent input \<Longrightarrow> submit_rule input = Inr r \<Longrightarrow> rule_sendable r"
  by (auto simp: submit_rule_def rule_consistent_def rule_sendable_def Let_def split: if_splits)

lemma submit_begin_sendable:
  assumes "rule_consistent (rf_input f)" and "submit_begin f = (Some r, f')"
  shows "rule_sendable r"
  using assms by (auto simp: submit_begin_def submit_rule_sendable split: sum.splits)

text \<open>
  C38: whatever is chosen and typed in the form of a rule, in whatever order, what it saves is a
  rule that makes sense: for a server that was chosen, with the operator of its metric, an
  offline rule with threshold and duration zero, any other with a threshold that is a finite
  number not below zero and at most 100 where it is a percentage, and always with a duration; the
  description of the rule names the direction of that operator. Everything else is refused with
  a text, and nothing is sent.
\<close>

theorem rule_form_saves_valid:
  assumes "\<And>rule. initial = Some rule \<Longrightarrow> stored_rule_ok rule"
    and "f = \<lparr>rf_input = fold edit_rule es (initialInput initial), rf_error = ''''\<rparr>"
  shows "case submit_begin f of
      (Some r, f') \<Rightarrow>
        \<not> js_lt (ri_serverId r) (Fin 1) \<and>
        ri_serverId r \<in> insert (ri_serverId (initialInput initial)) {i. ChooseServer i \<in> set es} \<and>
        ri_operator r = (if ri_metric r = DiskFreeBytes then Lt else Gt) \<and>
        (ri_metric r = Offline \<longrightarrow> ri_threshold r = Fin 0 \<and> ri_durationSeconds r = Some (Fin 0)) \<and>
        is_finite (ri_threshold r) \<and> \<not> js_lt (ri_threshold r) (Fin 0) \<and>
        (is_percent (ri_metric r) \<longrightarrow> \<not> js_lt (Fin 100) (ri_threshold r)) \<and>
        ri_durationSeconds r \<noteq> None \<and> rf_error f' = ''''
    | (None, f') \<Rightarrow> rf_error f' \<in> {t_choose_server, t_bad_threshold} \<and> rf_input f' = rf_input f"
proof -
  define input where "input = fold edit_rule es (initialInput initial)"
  have c: "rule_consistent input"
    unfolding input_def by (rule edits_consistent [OF initialInput_consistent [OF assms(1)]])
  have s: "ri_serverId input \<in> insert (ri_serverId (initialInput initial)) {i. ChooseServer i \<in> set es}"
    unfolding input_def by (rule edits_server)
  have f: "f = \<lparr>rf_input = input, rf_error = ''''\<rparr>" using assms(2) by (simp add: input_def)
  show ?thesis
  proof (cases "submit_rule input")
    case (Inl m)
    then show ?thesis by (auto simp: f submit_begin_def submit_rule_def Let_def split: if_splits)
  next
    case (Inr r)
    then show ?thesis using c s
      by (auto simp: f submit_begin_def submit_rule_def rule_consistent_def Let_def split: if_splits)
  qed
qed

theorem rule_form_saves_valid_witness:
  "case submit_begin \<lparr>rf_input = fold edit_rule [ChooseServer (Fin 7), ChooseMetric Offline] (initialInput None),
      rf_error = ''''\<rparr> of
     (Some r, f') \<Rightarrow> ri_threshold r = Fin 0 \<and> ri_serverId r \<in> {Fin 0, Fin 7}
   | (None, f') \<Rightarrow> rf_error f' \<in> {t_choose_server, t_bad_threshold}"
proof -
  have "stored_rule_ok rule" if "None = Some rule" for rule using that by simp
  note valid = rule_form_saves_valid [where initial = None and es = "[ChooseServer (Fin 7), ChooseMetric Offline]", OF this refl]
  have "ri_metric r = Offline" if "submit_begin \<lparr>rf_input = fold edit_rule [ChooseServer (Fin 7), ChooseMetric Offline]
      (initialInput None), rf_error = ''''\<rparr> = (Some r, f')" for r f'
    using that by (auto simp: submit_begin_def submit_rule_def changeMetric_def initialInput_def Let_def split: if_splits)
  with valid show ?thesis by (auto simp: initialInput_def split: prod.splits option.splits)
qed

text \<open>
  The form of a stored webhook whose names are trimmed, not blank and distinct sends its headers
  back unchanged.
\<close>

lemma put_header_new: "fst kv \<notin> fst ` set hs \<Longrightarrow> put_header hs kv = hs @ [kv]"
  by (induction hs) auto

definition good_headers :: "(string \<times> string) list \<Rightarrow> bool" where
  "good_headers hs \<longleftrightarrow> distinct (map fst hs) \<and> (\<forall>(n, v) \<in> set hs. trim n = n \<and> n \<noteq> '''')"

lemma foldl_header_of_row:
  "distinct (map fst (acc @ rows)) \<Longrightarrow> \<forall>(n, v) \<in> set rows. trim n = n \<and> n \<noteq> '''' \<Longrightarrow>
   foldl header_of_row acc rows = acc @ rows"
proof (induction rows arbitrary: acc)
  case (Cons row rows)
  have "header_of_row acc row = acc @ [row]"
    using Cons.prems put_header_new [of row acc] by (cases row) (auto simp: header_of_row_def)
  then show ?case using Cons.IH [of "acc @ [row]"] Cons.prems by simp
qed simp

lemma rows_good_headers: "good_headers hs \<Longrightarrow> foldl header_of_row [] hs = hs"
  using foldl_header_of_row [of "[]" hs] by (simp add: good_headers_def)

lemma rows_blank: "foldl header_of_row [] [('''', v)] = []"
  by (simp add: header_of_row_def trim_def strip.simps [of _ "[]"] js_whitespace_def)

lemma config_headers_round_trip: "good_headers hs \<Longrightarrow> foldl header_of_row [] (rowsFromHeaders hs) = hs"
  using rows_good_headers [of hs] rows_blank [of "''''"] by (cases hs) (simp_all add: rowsFromHeaders_def)

end
