(* ===== verification/AlertsPage.thy ===== *)
theory AlertsPage
  imports AlertForms
begin

text \<open>
  \<^verbatim>\<open>web/src/pages/AlertsPage.tsx\<close>: the state of the alerts page and its handlers, cut at their
  \<open>await\<close>; the variables a handler has captured are arguments of its second part.
\<close>

definition emptyWebhook :: webhook_config where
  "emptyWebhook =
     \<lparr>wc_url = '''', wc_headers = [],
      wc_bodyTemplate =
        ''{'' @ [CHR 0x0A] @
        ''  '' @ [CHR 0x22] @ ''server'' @ [CHR 0x22] @ '': {{json .ServerName}},'' @ [CHR 0x0A] @
        ''  '' @ [CHR 0x22] @ ''metric'' @ [CHR 0x22] @ '': '' @ [CHR 0x22] @ ''{{.Metric}}'' @ [CHR 0x22] @
          '','' @ [CHR 0x0A] @
        ''  '' @ [CHR 0x22] @ ''status'' @ [CHR 0x22] @ '': '' @ [CHR 0x22] @ ''{{.Status}}'' @ [CHR 0x22] @
          '','' @ [CHR 0x0A] @
        ''  '' @ [CHR 0x22] @ ''currentValue'' @ [CHR 0x22] @ '': {{.CurrentValue}},'' @ [CHR 0x0A] @
        ''  '' @ [CHR 0x22] @ ''threshold'' @ [CHR 0x22] @ '': {{.Threshold}},'' @ [CHR 0x0A] @
        ''  '' @ [CHR 0x22] @ ''detailUrl'' @ [CHR 0x22] @ '': {{json .DetailURL}}'' @ [CHR 0x0A] @
        ''}'',
      wc_enabled = False, wc_createdAt = None, wc_updatedAt = None\<rparr>"

record alerts_page =
  ap_servers :: "server_record list"
  ap_rules :: "alert_rule list"
  ap_events :: "alert_event list"
  ap_webhook :: webhook_config
  ap_loading :: bool
  ap_error :: string
  ap_editing :: "alert_rule option"
  ap_savingRule :: bool
  ap_deleting :: "jsnum option"
  ap_savingWebhook :: bool

definition initial_alerts :: alerts_page where
  "initial_alerts =
     \<lparr>ap_servers = [], ap_rules = [], ap_events = [], ap_webhook = emptyWebhook, ap_loading = True,
      ap_error = '''', ap_editing = None, ap_savingRule = False, ap_deleting = None,
      ap_savingWebhook = False\<rparr>"

section \<open>Handlers\<close>

definition load_begin :: "alerts_page \<Rightarrow> alerts_page" where
  "load_begin s = s\<lparr>ap_loading := True, ap_error := ''''\<rparr>"

text \<open>\<open>Promise.all\<close> of the four requests is one promise.\<close>

definition load_done ::
  "(server_record list \<times> alert_rule list \<times> alert_event list \<times> webhook_config) promise \<Rightarrow>
   alerts_page \<Rightarrow> alerts_page" where
  "load_done outcome s =
     (case outcome of
        Fulfilled (srvs, rules, events, webhook) \<Rightarrow>
          s\<lparr>ap_servers := srvs, ap_rules := rules, ap_events := events, ap_webhook := webhook\<rparr>
      | Rejected e \<Rightarrow> s\<lparr>ap_error := apiErrorMessage e t_alerts_load_failed\<rparr>)\<lparr>ap_loading := False\<rparr>"

definition replace_rule :: "alert_rule \<Rightarrow> alert_rule list \<Rightarrow> alert_rule list" where
  "replace_rule saved rules = map (\<lambda>rule. if js_eq (ru_id rule) (ru_id saved) then saved else rule) rules"

text \<open>The request of \<open>saveRule\<close>, by the rule that is being edited.\<close>

definition saveRule_request :: "fetch_fun \<Rightarrow> alert_rule option \<Rightarrow> alert_rule_input \<Rightarrow> jv promise" where
  "saveRule_request fetch editing input =
     (case editing of
        Some rule \<Rightarrow>
          request fetch (rule_path (ru_id rule)) (with_json ''PATCH'' (rule_input_json input))
      | None \<Rightarrow> alertsApi_createRule fetch input)"

definition saveRule_begin :: "alerts_page \<Rightarrow> alerts_page" where
  "saveRule_begin s = s\<lparr>ap_savingRule := True\<rparr>"

text \<open>A failure goes on to the form, which shows its message.\<close>

definition saveRule_done :: "alert_rule option \<Rightarrow> alert_rule promise \<Rightarrow> alerts_page \<Rightarrow> alerts_page" where
  "saveRule_done editing outcome s =
     (case outcome of
        Fulfilled saved \<Rightarrow>
          s\<lparr>ap_rules := (if editing \<noteq> None then replace_rule saved (ap_rules s) else ap_rules s @ [saved]),
            ap_editing := None\<rparr>
      | Rejected e \<Rightarrow> s)\<lparr>ap_savingRule := False\<rparr>"

definition toggleRule_request :: "fetch_fun \<Rightarrow> alert_rule \<Rightarrow> jv promise" where
  "toggleRule_request fetch rule =
     alertsApi_updateRule fetch (ru_id rule) [(''enabled'', JBool (\<not> ru_enabled rule))]"

definition toggleRule_done :: "alert_rule promise \<Rightarrow> alerts_page \<Rightarrow> alerts_page" where
  "toggleRule_done outcome s =
     (case outcome of
        Fulfilled saved \<Rightarrow> s\<lparr>ap_rules := replace_rule saved (ap_rules s)\<rparr>
      | Rejected e \<Rightarrow> s\<lparr>ap_error := apiErrorMessage e t_rule_update_failed\<rparr>)"

definition deleteRule_done ::
  "alert_rule \<Rightarrow> alert_rule option \<Rightarrow> unit promise \<Rightarrow> alerts_page \<Rightarrow> alerts_page" where
  "deleteRule_done rule editing outcome s =
     (case outcome of
        Fulfilled u \<Rightarrow>
          let s1 = s\<lparr>ap_rules := filter (\<lambda>item. \<not> js_eq (ru_id item) (ru_id rule)) (ap_rules s),
                     ap_deleting := None\<rparr>
          in (case editing of
                None \<Rightarrow> s1
              | Some edited \<Rightarrow> if js_eq (ru_id edited) (ru_id rule) then s1\<lparr>ap_editing := None\<rparr> else s1)
      | Rejected e \<Rightarrow> s\<lparr>ap_error := apiErrorMessage e t_rule_delete_failed\<rparr>)"

definition saveWebhook_begin :: "alerts_page \<Rightarrow> alerts_page" where
  "saveWebhook_begin s = s\<lparr>ap_savingWebhook := True\<rparr>"

definition saveWebhook_done :: "webhook_config promise \<Rightarrow> alerts_page \<Rightarrow> alerts_page" where
  "saveWebhook_done outcome s =
     (case outcome of
        Fulfilled saved \<Rightarrow> s\<lparr>ap_webhook := saved\<rparr>
      | Rejected e \<Rightarrow> s)\<lparr>ap_savingWebhook := False\<rparr>"

section \<open>What it renders\<close>

record rule_row =
  rr_server :: string
  rr_description :: string
  rr_state :: alert_status
  rr_state_text :: string
  rr_switch_label :: string
  rr_enabled :: bool
  rr_enabled_text :: string
  rr_confirming :: bool

definition rule_row_of :: "server_record list \<Rightarrow> jsnum option \<Rightarrow> alert_rule \<Rightarrow> rule_row" where
  "rule_row_of srvs deleting rule =
     (let server = find (\<lambda>item. js_eq (sr_id item) (ru_serverId rule)) srvs
      in \<lparr>rr_server =
            nullish (map_option sr_name server) (t_server_number @ number_to_string (ru_serverId rule)),
          rr_description =
            metricDescription (ru_metric rule) (ru_threshold rule) @
            (if ru_metric rule = Offline then ''''
             else t_lasting @ number_to_string (ru_durationSeconds rule) @ t_seconds),
          rr_state = ru_state rule,
          rr_state_text =
            (if ru_state rule = Firing then t_firing else if ru_state rule = Pending then t_waiting
             else if ru_state rule = Recovered then t_recovered else t_normal),
          rr_switch_label =
            t_enable @ '' '' @ nullish (map_option sr_name server) (number_to_string (ru_id rule)) @
            t_alert_rule_suffix,
          rr_enabled = ru_enabled rule,
          rr_enabled_text = (if ru_enabled rule then t_is_enabled else t_is_disabled),
          rr_confirming = (case deleting of None \<Rightarrow> False | Some i \<Rightarrow> js_eq i (ru_id rule))\<rparr>)"

record alerts_view =
  av_error :: "string option"
  av_form_initial :: "alert_rule option"
  av_form_saving :: bool
  av_form_cancel :: bool
  av_rules :: "rule_row list"
  av_events :: "event_row list"
  av_webhook :: webhook_config
  av_webhook_saving :: bool

text \<open>\<open>None\<close> while the page shows that it loads, which unmounts its forms.\<close>

definition alerts_view_of :: "(string \<Rightarrow> string) \<Rightarrow> jsnum option \<Rightarrow> alerts_page \<Rightarrow> alerts_view option" where
  "alerts_view_of loc expanded s =
     (if ap_loading s then None
      else Some
        \<lparr>av_error = (if ap_error s \<noteq> '''' then Some (ap_error s) else None),
         av_form_initial = ap_editing s, av_form_saving = ap_savingRule s,
         av_form_cancel = (ap_editing s \<noteq> None),
         av_rules = map (rule_row_of (ap_servers s) (ap_deleting s)) (ap_rules s),
         av_events = AlertEventList loc expanded (ap_events s),
         av_webhook = ap_webhook s, av_webhook_saving = ap_savingWebhook s\<rparr>)"

section \<open>A rule that shows twice\<close>

text \<open>
  The page does not number its loads and mutations. When a list that was requested while a rule
  is being created already contains the new rule, the answer of the creation, arriving later,
  appends it again.
\<close>

lemma created_rule_shown_twice:
  assumes "loaded = (srvs, rules @ [saved], events, webhook)"
  shows "ap_rules (saveRule_done None (Fulfilled saved)
           (load_done (Fulfilled loaded) (load_begin (saveRule_begin s)))) = rules @ [saved, saved]"
  by (simp add: assms saveRule_done_def load_done_def load_begin_def saveRule_begin_def)

text \<open>
  And a list that was requested before a rule was deleted brings the rule back when it arrives
  after the deletion.
\<close>

lemma deleted_rule_comes_back:
  assumes "loaded = (srvs, [rule], events, webhook)"
  shows "ap_rules (load_done (Fulfilled loaded)
           (deleteRule_done rule None (Fulfilled ()) (load_begin s))) = [rule]"
  by (simp add: assms load_done_def)

end
