(* ===== verification/AlertsProps.thy ===== *)
theory AlertsProps
  imports AlertsPage AlertsServer
begin

text \<open>
  The alerts page with its two forms and the requests under way, and the form of a rule with the
  server's handler: which rules are sent, and which the server stores.
\<close>

section \<open>Rules that come from the server\<close>

definition rule_matches :: "go_rule \<Rightarrow> alert_rule \<Rightarrow> bool" where
  "rule_matches stored rule \<longleftrightarrow>
     ru_serverId rule = num_of_int (gr_serverId stored) \<and>
     metric_name (ru_metric rule) = gr_metric stored \<and>
     operator_name (ru_operator rule) = gr_operator stored \<and>
     ru_threshold rule = Fin (gr_threshold stored)"

lemma metric_name_eq [simp]:
  "metric_name m = ''offline'' \<longleftrightarrow> m = Offline"
  "metric_name m = ''disk_free_bytes'' \<longleftrightarrow> m = DiskFreeBytes"
  by (cases m; simp)+

lemma validMetric_name [simp]: "validMetric (metric_name m)"
  by (cases m) (simp_all add: validMetric_def)

lemma operator_name_eq [simp]:
  "operator_name p = ''gt'' \<longleftrightarrow> p = Gt" "operator_name p = ''lt'' \<longleftrightarrow> p = Lt" "operator_name p \<noteq> ''''"
  by (cases p; simp)+

lemma stored_rule_ok_matches: "go_rule_ok stored \<Longrightarrow> rule_matches stored rule \<Longrightarrow> stored_rule_ok rule"
  by (auto simp: go_rule_ok_def rule_matches_def stored_rule_ok_def split: if_splits)

section \<open>The rules the server accepts\<close>

definition go_rule_of :: "alert_rule_input \<Rightarrow> go_rule" where
  "go_rule_of r =
     \<lparr>gr_serverId = int_of_num (ri_serverId r), gr_metric = metric_name (ri_metric r),
      gr_operator = operator_name (ri_operator r), gr_threshold = rat_of_int (int_of_num (ri_threshold r)),
      gr_durationSeconds = int_of_num (the (ri_durationSeconds r)),
      gr_repeatSeconds = int_of_num (ri_repeatSeconds r), gr_enabled = ri_enabled r\<rparr>"

text \<open>What the form leaves to the browser's validation and to the server.\<close>

definition server_ranges :: "alert_rule_input \<Rightarrow> bool" where
  "server_ranges r \<longleftrightarrow>
     (ri_metric r = DiskFreeBytes \<longrightarrow> js_lt (Fin 0) (ri_threshold r)) \<and> times_ok (go_rule_of r)"

definition whole_numbers :: "alert_rule_input \<Rightarrow> bool" where
  "whole_numbers r \<longleftrightarrow>
     list_all is_safe_integer
       [ri_serverId r, ri_threshold r, ri_repeatSeconds r, nullish (ri_durationSeconds r) (Fin 0)]"

definition decoded_rule :: "alert_rule_input \<Rightarrow> rule_body" where
  "decoded_rule r =
     \<lparr>rb_serverId = Some (int_of_num (ri_serverId r)), rb_metric = Some (metric_name (ri_metric r)),
      rb_operator = Some (operator_name (ri_operator r)),
      rb_threshold = Some (rat_of_int (int_of_num (ri_threshold r))),
      rb_durationSeconds = Some (int_of_num (the (ri_durationSeconds r))),
      rb_repeatSeconds = Some (int_of_num (ri_repeatSeconds r)), rb_enabled = Some (ri_enabled r)\<rparr>"

lemma decode_int_safe: "\<bar>n\<bar> \<le> max_safe \<Longrightarrow> decode_int (JNum (num_of_int n)) = Some (Some n)"
  by (auto simp: max_safe_def)

lemma decode_sent_rule:
  assumes "whole_numbers r" and "ri_durationSeconds r = Some d"
  shows "decode_rule (rule_input_json r) = Some (decoded_rule r)"
proof -
  obtain i t n m where n: "ri_serverId r = num_of_int i" "\<bar>i\<bar> \<le> max_safe"
      "ri_threshold r = num_of_int t" "\<bar>t\<bar> \<le> max_safe"
      "ri_repeatSeconds r = num_of_int n" "\<bar>n\<bar> \<le> max_safe" "d = num_of_int m" "\<bar>m\<bar> \<le> max_safe"
    using assms by (auto simp: whole_numbers_def is_safe_integer_iff simp del: is_safe_integer.simps)
  then show ?thesis
    using assms(2) decode_int_safe [of i] decode_int_safe [of n] decode_int_safe [of m]
    by (simp add: decode_rule_def rule_input_json_def rule_fields_def optional_field_def decoded_rule_def
        del: decode_int.simps(3))
qed

lemma normalize_sendable:
  assumes "rule_sendable r" and "whole_numbers r"
  shows "normalizeRule (go_rule_of r) = (if server_ranges r then Some (go_rule_of r) else None)"
proof -
  obtain i t where n: "ri_serverId r = num_of_int i" "ri_threshold r = num_of_int t"
    using assms(2) by (auto simp: whole_numbers_def is_safe_integer_iff simp del: is_safe_integer.simps)
  have "1 \<le> i" "0 \<le> t" "is_percent (ri_metric r) \<Longrightarrow> t \<le> 100"
    using assms(1) n by (auto simp: rule_sendable_def not_less)
  then show ?thesis
    using assms(1) n
    by (cases "ri_metric r")
      (auto simp: normalizeRule_def go_rule_of_def rule_sendable_def server_ranges_def is_percent_def
        times_ok_def validMetric_def Let_def)
qed

definition server_verdict :: "alert_rule_input \<Rightarrow> go_rule option" where
  "server_verdict r = (if server_ranges r then Some (go_rule_of r) else None)"

lemma sent_rule_verdict:
  assumes "rule_sendable r" and "whole_numbers r"
  shows "json_parse (stringify (rule_input_json r)) = Some (rule_input_json r)"
    and "create_rule (rule_input_json r) = server_verdict r"
    and "update_rule current (rule_input_json r) = server_verdict r"
proof -
  obtain d where d: "ri_durationSeconds r = Some d" using assms(1) by (auto simp: rule_sendable_def)
  have "json_ok (rule_input_json r)"
    using assms(2) d by (intro json_ok_rule_input) (simp_all add: whole_numbers_def del: is_safe_integer.simps)
  then show "json_parse (stringify (rule_input_json r)) = Some (rule_input_json r)"
    by (simp add: stringify_round_trip)
  note decoded = decode_sent_rule [OF assms(2) d]
  have "ruleFromCreate (decoded_rule r) = normalizeRule (go_rule_of r)"
    "applyRuleUpdate current (decoded_rule r) = go_rule_of r"
    by (simp_all add: ruleFromCreate_def applyRuleUpdate_def decoded_rule_def go_rule_of_def)
  then show "create_rule (rule_input_json r) = server_verdict r"
    "update_rule current (rule_input_json r) = server_verdict r"
    using normalize_sendable [OF assms]
    by (simp_all add: create_rule_def update_rule_def decoded server_verdict_def)
qed

text \<open>
  C35: the form and the server agree on rules. Whatever is chosen and typed in the form, as long as
  its numbers are whole, the text of the request reads back on the server as a rule that it
  stores unchanged, for a new rule as for a changed one, exactly when the duration is at most a
  day, the repetition zero or from five minutes to a week, and a limit on free space positive:
  server, metric, operator and threshold are never the reason of a refusal otherwise. The stored
  rule satisfies everything the server promises, so that the form can be opened on it again.
\<close>

theorem form_rules_meet_server:
  assumes "\<And>rule. initial = Some rule \<Longrightarrow> stored_rule_ok rule"
    and "submit_begin \<lparr>rf_input = fold edit_rule es (initialInput initial), rf_error = e\<rparr> = (Some r, f)"
    and "whole_numbers r"
  shows "\<exists>v. json_parse (stringify (rule_input_json r)) = Some v \<and>
      create_rule v = (if server_ranges r then Some (go_rule_of r) else None) \<and>
      update_rule current v = (if server_ranges r then Some (go_rule_of r) else None) \<and>
      (server_ranges r \<longrightarrow> go_rule_ok (go_rule_of r) \<and>
        (\<forall>rule. rule_matches (go_rule_of r) rule \<longrightarrow> stored_rule_ok rule))"
proof -
  have "rule_consistent (fold edit_rule es (initialInput initial))"
    by (rule edits_consistent [OF initialInput_consistent [OF assms(1)]])
  then have s: "rule_sendable r" using submit_begin_sendable [OF _ assms(2)] by simp
  note v = sent_rule_verdict [OF s assms(3)]
  have "server_ranges r \<Longrightarrow> go_rule_ok (go_rule_of r)"
    using v(2) stored_rules_ok(1) by (simp add: server_verdict_def)
  then show ?thesis
    using v stored_rule_ok_matches unfolding server_verdict_def by blast
qed

theorem form_rules_meet_server_witness:
  "\<exists>r f v. submit_begin \<lparr>rf_input = fold edit_rule [ChooseServer (Fin 7), ChooseMetric Offline] (initialInput None),
      rf_error = ''''\<rparr> = (Some r, f) \<and>
    json_parse (stringify (rule_input_json r)) = Some v \<and> create_rule v = Some (go_rule_of r) \<and>
    gr_serverId (go_rule_of r) = 7"
proof -
  define r where "r = \<lparr>ri_serverId = Fin 7, ri_metric = Offline, ri_operator = Gt, ri_threshold = Fin 0,
    ri_durationSeconds = Some (Fin 0), ri_repeatSeconds = Fin 0, ri_enabled = True\<rparr>"
  have sub: "submit_begin \<lparr>rf_input = fold edit_rule [ChooseServer (Fin 7), ChooseMetric Offline] (initialInput None),
      rf_error = ''''\<rparr> = (Some r, \<lparr>rf_input = r, rf_error = ''''\<rparr>)"
    by (simp add: r_def submit_begin_def submit_rule_def changeMetric_def initialInput_def Let_def)
  have w: "whole_numbers r" by (simp add: r_def whole_numbers_def max_safe_def)
  have "server_ranges r" by (simp add: r_def server_ranges_def times_ok_def go_rule_of_def)
  moreover have "gr_serverId (go_rule_of r) = 7" by (simp add: r_def go_rule_of_def)
  moreover obtain v where "json_parse (stringify (rule_input_json r)) = Some v"
      "create_rule v = (if server_ranges r then Some (go_rule_of r) else None)"
    using form_rules_meet_server [OF _ sub w] by (metis option.distinct(1))
  ultimately show ?thesis using sub by auto
qed

text \<open>A limit on free space of zero passes the form and is always refused by the server.\<close>

lemma zero_free_space_refused:
  assumes "ri_metric r = DiskFreeBytes" and "ri_threshold r = Fin 0" and "ri_operator r = Lt"
    and "\<not> js_lt (ri_serverId r) (Fin 1)"
  shows "submit_rule r = Inr r" and "normalizeRule (go_rule_of r) = None"
  using assms by (simp_all add: submit_rule_def normalizeRule_def go_rule_of_def is_percent_def Let_def)

section \<open>The page with its form and its requests\<close>

datatype alerts_op =
    PendLoad
  | PendSave "alert_rule option" nat alert_rule_input
  | PendToggle alert_rule
  | PendDelete alert_rule "alert_rule option"
  | PendWebhook nat webhook_config
  | PendTest nat

datatype alerts_answer =
    LoadAnswer "(server_record list \<times> alert_rule list \<times> alert_event list \<times> webhook_config) promise"
  | RuleAnswer "alert_rule promise"
  | DeleteAnswer "unit promise"
  | WebhookAnswer "webhook_config promise"
  | TestAnswer "delivery_outcome promise"

text \<open>
  \<open>as_mount\<close> counts the mountings of the rule form and of the form of the webhook, whose states are
  \<open>as_form\<close> and \<open>as_webhook\<close>; a request keeps what its handler had captured. While the page shows
  that it loads no form is mounted.
\<close>

record alerts_state =
  as_page :: alerts_page
  as_form :: rule_form
  as_webhook :: webhook_form
  as_mount :: nat
  as_ops :: "alerts_op list"

definition initial_alerts_state :: alerts_state where
  "initial_alerts_state =
     \<lparr>as_page = load_begin initial_alerts, as_form = reset_rule_form None,
      as_webhook = initial_webhook_form emptyWebhook, as_mount = 0, as_ops = [PendLoad]\<rparr>"

text \<open>What is typed and clicked in the form of the webhook.\<close>

datatype webhook_edit =
    TypeUrl string
  | TickWebhook bool
  | TypeTemplate string
  | TypeHeader nat header_key string
  | DropHeader nat
  | NewHeader

fun edit_webhook :: "webhook_edit \<Rightarrow> webhook_form \<Rightarrow> webhook_form" where
  "edit_webhook (TypeUrl t) f = f\<lparr>wf_url := t\<rparr>"
| "edit_webhook (TickWebhook b) f = f\<lparr>wf_enabled := b\<rparr>"
| "edit_webhook (TypeTemplate t) f = f\<lparr>wf_bodyTemplate := t\<rparr>"
| "edit_webhook (TypeHeader i key t) f = changeHeader i key t f"
| "edit_webhook (DropHeader i) f = removeHeader i f"
| "edit_webhook NewHeader f = addHeader f"

text \<open>
  \<open>AlEdit\<close> says whether the rule is the very object that is being edited already, in which case
  the effect of the form does not run.
\<close>

datatype alerts_action =
    AlRefresh
  | AlEdit alert_rule bool
  | AlCancelEdit
  | AlAskDelete alert_rule
  | AlKeepRule
  | AlType rule_edit
  | AlSubmit
  | AlToggle alert_rule
  | AlConfirmDelete alert_rule
  | AlTypeWebhook webhook_edit
  | AlSaveWebhook
  | AlTestWebhook

fun alerts_enabled :: "alerts_page \<Rightarrow> webhook_form \<Rightarrow> alerts_action \<Rightarrow> bool" where
  "alerts_enabled p f AlRefresh = (\<not> ap_loading p)"
| "alerts_enabled p f (AlEdit rule same) = (\<not> ap_loading p \<and> rule \<in> set (ap_rules p))"
| "alerts_enabled p f AlCancelEdit = (\<not> ap_loading p \<and> ap_editing p \<noteq> None \<and> \<not> ap_savingRule p)"
| "alerts_enabled p f (AlAskDelete rule) = (\<not> ap_loading p \<and> rule \<in> set (ap_rules p))"
| "alerts_enabled p f AlKeepRule = (\<not> ap_loading p \<and> ap_deleting p \<noteq> None)"
| "alerts_enabled p f (AlType e) = (\<not> ap_loading p)"
| "alerts_enabled p f AlSubmit = (\<not> ap_loading p \<and> \<not> ap_savingRule p)"
| "alerts_enabled p f (AlToggle rule) = (\<not> ap_loading p \<and> rule \<in> set (ap_rules p))"
| "alerts_enabled p f (AlConfirmDelete rule) =
     (\<not> ap_loading p \<and> rule \<in> set (ap_rules p) \<and> rr_confirming (rule_row_of (ap_servers p) (ap_deleting p) rule))"
| "alerts_enabled p f (AlTypeWebhook e) = (\<not> ap_loading p)"
| "alerts_enabled p f AlSaveWebhook = (\<not> ap_loading p \<and> \<not> ap_savingWebhook p)"
| "alerts_enabled p f AlTestWebhook = (\<not> ap_loading p \<and> \<not> wf_testing f \<and> \<not> ap_savingWebhook p)"

definition start_op :: "alerts_op \<Rightarrow> alerts_state \<Rightarrow> alerts_state" where
  "start_op op s = s\<lparr>as_ops := as_ops s @ [op]\<rparr>"

fun alerts_act :: "alerts_action \<Rightarrow> alerts_state \<Rightarrow> alerts_state" where
  "alerts_act AlRefresh s = start_op PendLoad (s\<lparr>as_page := load_begin (as_page s)\<rparr>)"
| "alerts_act (AlEdit rule same) s =
     (let p = as_page s
      in s\<lparr>as_page := p\<lparr>ap_editing := Some rule\<rparr>,
           as_form := (if same \<and> ap_editing p = Some rule then as_form s else reset_rule_form (Some rule))\<rparr>)"
| "alerts_act AlCancelEdit s =
     s\<lparr>as_page := (as_page s)\<lparr>ap_editing := None\<rparr>, as_form := reset_rule_form None\<rparr>"
| "alerts_act (AlAskDelete rule) s = s\<lparr>as_page := (as_page s)\<lparr>ap_deleting := Some (ru_id rule)\<rparr>\<rparr>"
| "alerts_act AlKeepRule s = s\<lparr>as_page := (as_page s)\<lparr>ap_deleting := None\<rparr>\<rparr>"
| "alerts_act (AlType e) s =
     s\<lparr>as_form := (as_form s)\<lparr>rf_input := edit_rule e (rf_input (as_form s))\<rparr>\<rparr>"
| "alerts_act AlSubmit s =
     (case submit_begin (as_form s) of
        (None, f) \<Rightarrow> s\<lparr>as_form := f\<rparr>
      | (Some r, f) \<Rightarrow>
          start_op (PendSave (ap_editing (as_page s)) (as_mount s) r)
            (s\<lparr>as_form := f, as_page := saveRule_begin (as_page s)\<rparr>))"
| "alerts_act (AlToggle rule) s = start_op (PendToggle rule) s"
| "alerts_act (AlConfirmDelete rule) s = start_op (PendDelete rule (ap_editing (as_page s))) s"
| "alerts_act (AlTypeWebhook e) s = s\<lparr>as_webhook := edit_webhook e (as_webhook s)\<rparr>"
| "alerts_act AlSaveWebhook s =
     (let (w, f) = save_begin (as_webhook s)
      in start_op (PendWebhook (as_mount s) w) (s\<lparr>as_webhook := f, as_page := saveWebhook_begin (as_page s)\<rparr>))"
| "alerts_act AlTestWebhook s =
     start_op (PendTest (as_mount s)) (s\<lparr>as_webhook := test_begin (as_webhook s)\<rparr>)"

text \<open>
  The page becomes \<open>p'\<close>. A form that stays mounted runs its effect when \<open>editing\<close> has become
  undefined; a page that no longer shows that it loads mounts new forms.
\<close>

definition set_page :: "alerts_page \<Rightarrow> alerts_state \<Rightarrow> alerts_state" where
  "set_page p' s =
     (let p = as_page s
      in if ap_loading p \<and> \<not> ap_loading p' then
           s\<lparr>as_page := p', as_form := reset_rule_form (ap_editing p'),
             as_webhook := initial_webhook_form (ap_webhook p'), as_mount := as_mount s + 1\<rparr>
         else if \<not> ap_loading p' \<and> ap_editing p \<noteq> None \<and> ap_editing p' = None then
           s\<lparr>as_page := p', as_form := reset_rule_form None\<rparr>
         else s\<lparr>as_page := p'\<rparr>)"

text \<open>The \<open>catch\<close> of \<open>submit\<close>, which finds its form only if it is still mounted.\<close>

definition save_rejected :: "string option \<Rightarrow> nat \<Rightarrow> js_error \<Rightarrow> alerts_state \<Rightarrow> alerts_state" where
  "save_rejected om m e s =
     (if m = as_mount s \<and> \<not> ap_loading (as_page s)
      then s\<lparr>as_form := submit_failed om e (as_form s)\<rparr> else s)"

text \<open>
  The end of \<open>save\<close> and of \<open>test\<close> in the form of the webhook. A saved configuration is a new object,
  for which the effect of a mounted form runs; a failure finds its form only if it is still mounted.
\<close>

definition webhook_saved :: "webhook_config \<Rightarrow> alerts_state \<Rightarrow> alerts_state" where
  "webhook_saved w s =
     (if ap_loading (as_page s) then s else s\<lparr>as_webhook := reset_webhook_form w (as_webhook s)\<rparr>)"

definition webhook_rejected :: "string option \<Rightarrow> nat \<Rightarrow> js_error \<Rightarrow> alerts_state \<Rightarrow> alerts_state" where
  "webhook_rejected om m e s =
     (if m = as_mount s \<and> \<not> ap_loading (as_page s)
      then s\<lparr>as_webhook := save_failed om e (as_webhook s)\<rparr> else s)"

definition test_ended :: "string option \<Rightarrow> nat \<Rightarrow> delivery_outcome promise \<Rightarrow> alerts_state \<Rightarrow> alerts_state" where
  "test_ended om m a s =
     (if m = as_mount s \<and> \<not> ap_loading (as_page s)
      then s\<lparr>as_webhook := test_done om a (as_webhook s)\<rparr> else s)"

fun alerts_answered :: "string option \<Rightarrow> alerts_op \<Rightarrow> alerts_answer \<Rightarrow> alerts_state \<Rightarrow> alerts_state option" where
  "alerts_answered om PendLoad (LoadAnswer a) s = Some (set_page (load_done a (as_page s)) s)"
| "alerts_answered om (PendSave editing m r) (RuleAnswer a) s =
     Some (let s1 = set_page (saveRule_done editing a (as_page s)) s
           in case a of Fulfilled saved \<Rightarrow> s1 | Rejected e \<Rightarrow> save_rejected om m e s1)"
| "alerts_answered om (PendToggle rule) (RuleAnswer a) s = Some (set_page (toggleRule_done a (as_page s)) s)"
| "alerts_answered om (PendDelete rule editing) (DeleteAnswer a) s =
     Some (set_page (deleteRule_done rule editing a (as_page s)) s)"
| "alerts_answered om (PendWebhook m w) (WebhookAnswer a) s =
     Some (let s1 = set_page (saveWebhook_done a (as_page s)) s
           in case a of Fulfilled saved \<Rightarrow> webhook_saved saved s1 | Rejected e \<Rightarrow> webhook_rejected om m e s1)"
| "alerts_answered om (PendTest m) (TestAnswer a) s = Some (test_ended om m a s)"
| "alerts_answered om op a s = None"

text \<open>The answer to the request at a position; an answer of another request's type is none.\<close>

definition alerts_settle :: "string option \<Rightarrow> nat \<Rightarrow> alerts_answer \<Rightarrow> alerts_state \<Rightarrow> alerts_state" where
  "alerts_settle om k a s =
     (if length (as_ops s) \<le> k then s
      else case alerts_answered om (as_ops s ! k) a s of
             None \<Rightarrow> s
           | Some s' \<Rightarrow> s'\<lparr>as_ops := take k (as_ops s) @ drop (Suc k) (as_ops s)\<rparr>)"

section \<open>Its invariant\<close>

text \<open>A rule as a handler of the server returns it, and an answer that holds only such rules.\<close>

definition from_server :: "alert_rule \<Rightarrow> bool" where
  "from_server rule \<longleftrightarrow> (\<exists>stored. go_rule_ok stored \<and> rule_matches stored rule)"

lemma from_server_ok: "from_server rule \<Longrightarrow> stored_rule_ok rule"
  by (auto simp: from_server_def stored_rule_ok_matches)

fun answer_ok :: "alerts_answer \<Rightarrow> bool" where
  "answer_ok (LoadAnswer (Fulfilled (srvs, rules, events, w))) = (\<forall>rule \<in> set rules. from_server rule)"
| "answer_ok (RuleAnswer (Fulfilled rule)) = from_server rule"
| "answer_ok _ = True"

inductive alerts_run :: "alerts_state \<Rightarrow> bool" where
  Start: "alerts_run initial_alerts_state"
| Act: "alerts_run s \<Longrightarrow> alerts_enabled (as_page s) (as_webhook s) a \<Longrightarrow> alerts_run (alerts_act a s)"
| Settle: "alerts_run s \<Longrightarrow> answer_ok ans \<Longrightarrow> alerts_run (alerts_settle om k ans s)"

fun is_save :: "alerts_op \<Rightarrow> bool" where
  "is_save (PendSave ed m r) = True"
| "is_save _ = False"

fun is_webhook_save :: "alerts_op \<Rightarrow> bool" where
  "is_webhook_save (PendWebhook m w) = True"
| "is_webhook_save _ = False"

fun test_mount :: "alerts_op \<Rightarrow> nat option" where
  "test_mount (PendTest m) = Some m"
| "test_mount _ = None"

fun op_sendable :: "alerts_op \<Rightarrow> bool" where
  "op_sendable (PendSave ed m r) = rule_sendable r"
| "op_sendable _ = True"

definition page_rules_ok :: "alerts_page \<Rightarrow> bool" where
  "page_rules_ok p \<longleftrightarrow>
     (\<forall>rule \<in> set (ap_rules p). stored_rule_ok rule) \<and>
     (\<forall>rule. ap_editing p = Some rule \<longrightarrow> stored_rule_ok rule)"

definition alerts_ok :: "alerts_state \<Rightarrow> bool" where
  "alerts_ok s \<longleftrightarrow>
     (ap_loading (as_page s) \<longrightarrow> PendLoad \<in> set (as_ops s)) \<and>
     length (filter is_save (as_ops s)) = of_bool (ap_savingRule (as_page s)) \<and>
     rule_consistent (rf_input (as_form s)) \<and> page_rules_ok (as_page s) \<and>
     list_all op_sendable (as_ops s)"

text \<open>The form of the webhook: one save under way at a time, and one test of the mounted form.\<close>

definition webhook_ok :: "alerts_state \<Rightarrow> bool" where
  "webhook_ok s \<longleftrightarrow>
     length (filter is_webhook_save (as_ops s)) = of_bool (ap_savingWebhook (as_page s)) \<and>
     list_all (\<lambda>op. \<forall>m. test_mount op = Some m \<longrightarrow> m \<le> as_mount s) (as_ops s) \<and>
     (\<not> ap_loading (as_page s) \<longrightarrow>
        length (filter (\<lambda>op. test_mount op = Some (as_mount s)) (as_ops s)) = of_bool (wf_testing (as_webhook s)))"

lemma reset_consistent:
  "rule_consistent (initialInput None)" "stored_rule_ok rule \<Longrightarrow> rule_consistent (initialInput (Some rule))"
  by (rule initialInput_consistent, simp)+

lemma alerts_ok_initial: "alerts_ok initial_alerts_state"
  by (simp add: alerts_ok_def initial_alerts_state_def initial_alerts_def load_begin_def page_rules_ok_def
      reset_rule_form_def reset_consistent)

lemma page_frame [simp]:
  "ap_rules (load_begin p) = ap_rules p" "ap_editing (load_begin p) = ap_editing p"
  "ap_savingRule (load_begin p) = ap_savingRule p" "ap_loading (load_begin p)"
  "ap_loading (saveRule_begin p) = ap_loading p" "ap_rules (saveRule_begin p) = ap_rules p"
  "ap_editing (saveRule_begin p) = ap_editing p" "ap_savingRule (saveRule_begin p)"
  "ap_loading (saveWebhook_begin p) = ap_loading p" "ap_rules (saveWebhook_begin p) = ap_rules p"
  "ap_editing (saveWebhook_begin p) = ap_editing p" "ap_savingRule (saveWebhook_begin p) = ap_savingRule p"
  by (simp_all add: load_begin_def saveRule_begin_def saveWebhook_begin_def)

lemma alerts_ok_act:
  assumes "alerts_ok s" and "alerts_enabled (as_page s) f a"
  shows "alerts_ok (alerts_act a s)"
proof (cases a)
  case AlSubmit
  show ?thesis
  proof (cases "submit_begin (as_form s)")
    case (Pair r f)
    have f: "rf_input f = rf_input (as_form s)"
      using Pair by (auto simp: submit_begin_def split: sum.splits)
    have "r = Some r' \<Longrightarrow> rule_sendable r'" for r'
      using assms(1) Pair submit_begin_sendable [of "as_form s" r' f] by (auto simp: alerts_ok_def)
    then show ?thesis
      using assms AlSubmit Pair f
      by (cases r) (simp_all add: alerts_ok_def start_op_def page_rules_ok_def)
  qed
qed (use assms in \<open>auto simp: alerts_ok_def start_op_def page_rules_ok_def Let_def reset_rule_form_def
      reset_consistent edit_rule_consistent split: prod.split\<close>)

lemma set_page_frame [simp]: "as_page (set_page p s) = p" "as_ops (set_page p s) = as_ops s"
  by (simp_all add: set_page_def Let_def)

lemma set_page_consistent:
  "rule_consistent (rf_input (as_form s)) \<Longrightarrow> page_rules_ok p \<Longrightarrow> rule_consistent (rf_input (as_form (set_page p s)))"
  by (cases "ap_editing p") (simp_all add: set_page_def Let_def reset_rule_form_def page_rules_ok_def reset_consistent)

lemma save_rejected_frame [simp]:
  "as_page (save_rejected om m e s) = as_page s" "as_ops (save_rejected om m e s) = as_ops s"
  "rf_input (as_form (save_rejected om m e s)) = rf_input (as_form s)"
  by (simp_all add: save_rejected_def submit_failed_def)

lemma webhook_end_frame [simp]:
  "as_page (webhook_saved w s) = as_page s" "as_page (webhook_rejected om m e s) = as_page s"
  "as_page (test_ended om m a s) = as_page s" "as_ops (webhook_saved w s) = as_ops s"
  "as_ops (webhook_rejected om m e s) = as_ops s" "as_ops (test_ended om m a s) = as_ops s"
  "as_form (webhook_saved w s) = as_form s" "as_form (webhook_rejected om m e s) = as_form s"
  "as_form (test_ended om m a s) = as_form s"
  by (simp_all add: webhook_saved_def webhook_rejected_def test_ended_def)

lemma page_rules_ok_done:
  assumes "page_rules_ok p"
  shows "answer_ok (LoadAnswer a) \<Longrightarrow> page_rules_ok (load_done a p)"
    "answer_ok (RuleAnswer b) \<Longrightarrow> page_rules_ok (saveRule_done ed b p)"
    "answer_ok (RuleAnswer b) \<Longrightarrow> page_rules_ok (toggleRule_done b p)"
    "page_rules_ok (deleteRule_done rule ed c p)" "page_rules_ok (saveWebhook_done d p)"
  using assms
  by (auto simp: page_rules_ok_def load_done_def saveRule_done_def toggleRule_done_def deleteRule_done_def
      saveWebhook_done_def replace_rule_def Let_def from_server_ok split: promise.splits option.splits prod.splits)

lemma done_frame [simp]:
  "\<not> ap_loading (load_done a p)" "ap_savingRule (load_done a p) = ap_savingRule p"
  "ap_loading (saveRule_done ed b p) = ap_loading p" "\<not> ap_savingRule (saveRule_done ed b p)"
  "ap_loading (toggleRule_done b p) = ap_loading p" "ap_savingRule (toggleRule_done b p) = ap_savingRule p"
  "ap_loading (deleteRule_done rule ed c p) = ap_loading p"
  "ap_savingRule (deleteRule_done rule ed c p) = ap_savingRule p"
  "ap_loading (saveWebhook_done d p) = ap_loading p"
  "ap_savingRule (saveWebhook_done d p) = ap_savingRule p"
  by (simp_all add: load_done_def saveRule_done_def toggleRule_done_def deleteRule_done_def
      saveWebhook_done_def Let_def split: promise.split option.split prod.split)

definition without :: "nat \<Rightarrow> 'a list \<Rightarrow> 'a list" where
  "without k xs = take k xs @ drop (Suc k) xs"

lemma without_facts:
  assumes "k < length xs"
  shows "length (filter P xs) = length (filter P (without k xs)) + of_bool (P (xs ! k))"
    and "list_all P xs \<Longrightarrow> list_all P (without k xs)"
    and "x \<in> set xs \<Longrightarrow> x \<noteq> xs ! k \<Longrightarrow> x \<in> set (without k xs)"
proof -
  define a b c where "a = take k xs" and "b = xs ! k" and "c = drop (Suc k) xs"
  have xs: "xs = a @ b # c" "without k xs = a @ c" "xs ! k = b"
    using id_take_nth_drop [OF assms] by (simp_all add: a_def b_def c_def without_def)
  show "length (filter P xs) = length (filter P (without k xs)) + of_bool (P (xs ! k))"
    "list_all P xs \<Longrightarrow> list_all P (without k xs)" "x \<in> set xs \<Longrightarrow> x \<noteq> xs ! k \<Longrightarrow> x \<in> set (without k xs)"
    unfolding xs(2,3) by (auto simp: xs(1))
qed

text \<open>What one answer does to the parts of the state that the invariant speaks of.\<close>

lemma answered_frame:
  assumes "alerts_answered om op ans s = Some s'" and "answer_ok ans"
    and "rule_consistent (rf_input (as_form s))" and "page_rules_ok (as_page s)"
  shows "rule_consistent (rf_input (as_form s'))" "page_rules_ok (as_page s')"
    "ap_loading (as_page s') \<longleftrightarrow> op \<noteq> PendLoad \<and> ap_loading (as_page s)"
    "ap_savingRule (as_page s') \<longleftrightarrow> \<not> is_save op \<and> ap_savingRule (as_page s)"
    "as_ops s' = as_ops s"
  using assms
  by (cases "(om, op, ans, s)" rule: alerts_answered.cases;
      auto simp: Let_def set_page_consistent page_rules_ok_done split: promise.splits)+

lemma alerts_ok_settle:
  assumes "alerts_ok s" and "answer_ok ans"
  shows "alerts_ok (alerts_settle om k ans s)"
proof (cases "length (as_ops s) \<le> k \<or> alerts_answered om (as_ops s ! k) ans s = None")
  case True
  then show ?thesis using assms(1) by (auto simp: alerts_settle_def)
next
  case False
  then obtain s' where k: "k < length (as_ops s)"
    and s': "alerts_answered om (as_ops s ! k) ans s = Some s'" by auto
  have eq: "alerts_settle om k ans s = s'\<lparr>as_ops := without k (as_ops s)\<rparr>"
    using k s' by (simp add: alerts_settle_def without_def)
  have ok: "rule_consistent (rf_input (as_form s))" "page_rules_ok (as_page s)" "list_all op_sendable (as_ops s)"
    "ap_loading (as_page s) \<Longrightarrow> PendLoad \<in> set (as_ops s)"
    "length (filter is_save (as_ops s)) = of_bool (ap_savingRule (as_page s))"
    using assms(1) by (simp_all add: alerts_ok_def)
  note f = answered_frame [OF s' assms(2) ok(1,2)]
  show ?thesis
    using f ok(3,4,5) without_facts(1) [OF k, of is_save] without_facts(2) [OF k, of op_sendable]
      without_facts(3) [OF k, of PendLoad]
    by (cases "ap_savingRule (as_page s)") (auto simp: alerts_ok_def eq)
qed

lemma alerts_ok_run: "alerts_run s \<Longrightarrow> alerts_ok s"
  by (induction rule: alerts_run.induct) (simp_all add: alerts_ok_initial alerts_ok_act alerts_ok_settle)

section \<open>The form of the webhook\<close>

lemma saving_webhook_frame [simp]:
  "ap_savingWebhook (load_begin p) = ap_savingWebhook p" "ap_savingWebhook (saveRule_begin p) = ap_savingWebhook p"
  "ap_savingWebhook (saveWebhook_begin p)" "ap_savingWebhook (load_done a p) = ap_savingWebhook p"
  "ap_savingWebhook (saveRule_done ed b p) = ap_savingWebhook p"
  "ap_savingWebhook (toggleRule_done b p) = ap_savingWebhook p"
  "ap_savingWebhook (deleteRule_done rule ed c p) = ap_savingWebhook p"
  "\<not> ap_savingWebhook (saveWebhook_done d p)"
  by (simp_all add: load_begin_def saveRule_begin_def saveWebhook_begin_def load_done_def saveRule_done_def
      toggleRule_done_def deleteRule_done_def saveWebhook_done_def Let_def
      split: promise.split option.split prod.split)

lemma testing_frame [simp]:
  "wf_testing (edit_webhook e f) = wf_testing f" "wf_testing (snd (save_begin f)) = wf_testing f"
  "wf_testing (test_begin f)" "wf_testing (save_failed om er f) = wf_testing f"
  "\<not> wf_testing (test_done om a f)" "wf_testing (reset_webhook_form w f) = wf_testing f"
  "\<not> wf_testing (initial_webhook_form w)"
  by (cases e)
    (simp_all add: changeHeader_def removeHeader_def addHeader_def save_begin_def test_begin_def save_failed_def
      test_done_def reset_webhook_form_def initial_webhook_form_def split: promise.split)

lemma webhook_ok_initial: "webhook_ok initial_alerts_state"
  by (simp add: webhook_ok_def initial_alerts_state_def initial_alerts_def load_begin_def)

lemma webhook_ok_act:
  assumes "webhook_ok s" and "alerts_enabled (as_page s) (as_webhook s) a"
  shows "webhook_ok (alerts_act a s)"
proof (cases a)
  case AlSaveWebhook
  obtain w f where wf: "save_begin (as_webhook s) = (w, f)" by (cases "save_begin (as_webhook s)")
  have "wf_testing f = wf_testing (as_webhook s)"
    using testing_frame(2) [of "as_webhook s"] wf by simp
  then show ?thesis using assms AlSaveWebhook wf by (simp add: webhook_ok_def start_op_def)
next
  case AlSubmit
  then show ?thesis using assms
    by (auto simp: webhook_ok_def start_op_def split: prod.split option.split)
qed (use assms in \<open>auto simp: webhook_ok_def start_op_def Let_def\<close>)

lemma answered_webhook:
  assumes "alerts_answered om op ans s = Some s'"
  shows "ap_savingWebhook (as_page s') \<longleftrightarrow> \<not> is_webhook_save op \<and> ap_savingWebhook (as_page s)"
    and "as_mount s' = as_mount s + of_bool (op = PendLoad \<and> ap_loading (as_page s))"
    and "\<not> ap_loading (as_page s') \<Longrightarrow> wf_testing (as_webhook s') \<longleftrightarrow>
           \<not> (op = PendLoad \<and> ap_loading (as_page s)) \<and> test_mount op \<noteq> Some (as_mount s) \<and>
           wf_testing (as_webhook s)"
  using assms
  by (cases "(om, op, ans, s)" rule: alerts_answered.cases;
      auto simp: Let_def set_page_def save_rejected_def webhook_saved_def webhook_rejected_def test_ended_def
        split: promise.splits if_splits)+

lemma webhook_ok_settle:
  assumes "webhook_ok s"
  shows "webhook_ok (alerts_settle om k ans s)"
proof (cases "length (as_ops s) \<le> k \<or> alerts_answered om (as_ops s ! k) ans s = None")
  case True
  then show ?thesis using assms by (auto simp: alerts_settle_def)
next
  case False
  then obtain s' where k: "k < length (as_ops s)"
    and s': "alerts_answered om (as_ops s ! k) ans s = Some s'" by auto
  let ?op = "as_ops s ! k" and ?P = "\<lambda>m op. test_mount op = Some m"
  have eq: "alerts_settle om k ans s = s'\<lparr>as_ops := without k (as_ops s)\<rparr>"
    using k s' by (simp add: alerts_settle_def without_def)
  have ok: "length (filter is_webhook_save (as_ops s)) = of_bool (ap_savingWebhook (as_page s))"
    "list_all (\<lambda>op. \<forall>m. ?P m op \<longrightarrow> m \<le> as_mount s) (as_ops s)"
    "\<not> ap_loading (as_page s) \<Longrightarrow> length (filter (?P (as_mount s)) (as_ops s)) = of_bool (wf_testing (as_webhook s))"
    using assms by (simp_all add: webhook_ok_def)
  note a = answered_webhook [OF s']
  have bound: "list_all (\<lambda>op. \<forall>m. ?P m op \<longrightarrow> m \<le> as_mount s) (without k (as_ops s))"
    by (rule without_facts(2) [OF k ok(2)])
  have load: "ap_loading (as_page s') \<longleftrightarrow> ?op \<noteq> PendLoad \<and> ap_loading (as_page s)"
    using s' by (cases "(om, ?op, ans, s)" rule: alerts_answered.cases) (auto simp: Let_def split: promise.splits)
  have "length (filter (?P (as_mount s')) (without k (as_ops s))) = of_bool (wf_testing (as_webhook s'))"
    if nl: "\<not> ap_loading (as_page s')"
  proof (cases "?op = PendLoad \<and> ap_loading (as_page s)")
    case True
    then have "as_mount s' = Suc (as_mount s)" by (simp add: a(2))
    then have "filter (?P (as_mount s')) (without k (as_ops s)) = []"
      using bound by (fastforce simp: filter_empty_conv list_all_iff)
    then show ?thesis using a(3) [OF nl] True by simp
  next
    case no: False
    then have m: "as_mount s' = as_mount s" and "\<not> ap_loading (as_page s)"
      using nl load by (auto simp: a(2))
    then show ?thesis
      using ok(3) without_facts(1) [OF k, of "?P (as_mount s)"] a(3) [OF nl] no
      by (cases "wf_testing (as_webhook s)"; cases "?P (as_mount s) ?op") (auto simp: m)
  qed
  moreover have "length (filter is_webhook_save (without k (as_ops s))) = of_bool (ap_savingWebhook (as_page s'))"
    using ok(1) without_facts(1) [OF k, of is_webhook_save] a(1)
    by (cases "ap_savingWebhook (as_page s)"; cases "is_webhook_save ?op") auto
  moreover have "list_all (\<lambda>op. \<forall>m. ?P m op \<longrightarrow> m \<le> as_mount s') (without k (as_ops s))"
    using bound by (auto simp: list_all_iff a(2))
  ultimately show ?thesis by (simp add: eq webhook_ok_def)
qed

lemma webhook_ok_run: "alerts_run s \<Longrightarrow> webhook_ok s"
  by (induction rule: alerts_run.induct) (simp_all add: webhook_ok_initial webhook_ok_act webhook_ok_settle)

section \<open>What a failure leaves\<close>

lemma settle_eq:
  "k < length (as_ops s) \<Longrightarrow>
   alerts_settle om k a s =
     (case alerts_answered om (as_ops s ! k) a s of
        None \<Rightarrow> s | Some s' \<Rightarrow> s'\<lparr>as_ops := without k (as_ops s)\<rparr>)"
  by (simp add: alerts_settle_def without_def split: option.split)

lemma rejected_page:
  "load_done (Rejected e) p = p\<lparr>ap_error := apiErrorMessage e t_alerts_load_failed, ap_loading := False\<rparr>"
  "saveRule_done ed (Rejected e) p = p\<lparr>ap_savingRule := False\<rparr>"
  "toggleRule_done (Rejected e) p = p\<lparr>ap_error := apiErrorMessage e t_rule_update_failed\<rparr>"
  "deleteRule_done rule ed (Rejected e) p = p\<lparr>ap_error := apiErrorMessage e t_rule_delete_failed\<rparr>"
  "saveWebhook_done (Rejected e) p = p\<lparr>ap_savingWebhook := False\<rparr>"
  "set_page (p\<lparr>ap_savingRule := b\<rparr>) s = s\<lparr>as_page := p\<lparr>ap_savingRule := b\<rparr>\<rparr>"
  "set_page (p\<lparr>ap_savingWebhook := b\<rparr>) s = s\<lparr>as_page := p\<lparr>ap_savingWebhook := b\<rparr>\<rparr>" if "p = as_page s"
  using that
  by (auto simp: load_done_def saveRule_done_def toggleRule_done_def deleteRule_done_def
      saveWebhook_done_def set_page_def Let_def)

text \<open>The text that the page shows for a failure.\<close>

definition rejected_text :: "alerts_op \<Rightarrow> string" where
  "rejected_text op =
     (case op of PendLoad \<Rightarrow> t_alerts_load_failed | PendToggle r \<Rightarrow> t_rule_update_failed
      | PendDelete r ed \<Rightarrow> t_rule_delete_failed | _ \<Rightarrow> '''')"

fun rejects :: "alerts_op \<Rightarrow> js_error \<Rightarrow> alerts_answer" where
  "rejects PendLoad e = LoadAnswer (Rejected e)"
| "rejects (PendDelete r ed) e = DeleteAnswer (Rejected e)"
| "rejects (PendWebhook m w) e = WebhookAnswer (Rejected e)"
| "rejects (PendTest m) e = TestAnswer (Rejected e)"
| "rejects op e = RuleAnswer (Rejected e)"

text \<open>Whether the forms that were mounted with the number \<open>m\<close> are the ones on the page.\<close>

definition form_there :: "nat \<Rightarrow> alerts_state \<Rightarrow> bool" where
  "form_there m s \<longleftrightarrow> m = as_mount s \<and> \<not> ap_loading (as_page s)"

lemma rejected_facts:
  "save_rejected om m e s = (if form_there m s
     then s\<lparr>as_form := (as_form s)\<lparr>rf_error := error_message om t_rule_save_failed e\<rparr>\<rparr> else s)"
  "webhook_rejected om m e s = (if form_there m s
     then s\<lparr>as_webhook := (as_webhook s)\<lparr>wf_error := error_message om t_webhook_save_failed e\<rparr>\<rparr> else s)"
  "test_ended om m (Rejected e) s = (if form_there m s
     then s\<lparr>as_webhook := (as_webhook s)\<lparr>wf_error := error_message om t_test_failed e, wf_testing := False\<rparr>\<rparr>
     else s)"
  by (simp_all add: form_there_def save_rejected_def submit_failed_def webhook_rejected_def save_failed_def
      test_ended_def test_done_def)

lemma form_there_page [simp]:
  "form_there m (s\<lparr>as_page := (as_page s)\<lparr>ap_savingRule := b\<rparr>\<rparr>) = form_there m s"
  "form_there m (s\<lparr>as_page := (as_page s)\<lparr>ap_savingWebhook := b\<rparr>\<rparr>) = form_there m s"
  by (simp_all add: form_there_def)

text \<open>What a failed request leaves, by its kind.\<close>

lemma failure_leaves:
  assumes "k < length (as_ops s)"
  shows "let s' = alerts_settle om k (rejects (as_ops s ! k) e) s in
      ap_rules (as_page s') = ap_rules (as_page s) \<and> ap_webhook (as_page s') = ap_webhook (as_page s) \<and>
      (case as_ops s ! k of
         PendSave ed m r \<Rightarrow>
           \<not> ap_savingRule (as_page s') \<and> ap_error (as_page s') = ap_error (as_page s) \<and>
           as_webhook s' = as_webhook s \<and>
           as_form s' = (if form_there m s
                         then (as_form s)\<lparr>rf_error := error_message om t_rule_save_failed e\<rparr> else as_form s)
       | PendWebhook m w \<Rightarrow>
           \<not> ap_savingWebhook (as_page s') \<and> ap_error (as_page s') = ap_error (as_page s) \<and>
           as_form s' = as_form s \<and>
           as_webhook s' = (if form_there m s
                            then (as_webhook s)\<lparr>wf_error := error_message om t_webhook_save_failed e\<rparr>
                            else as_webhook s)
       | PendTest m \<Rightarrow>
           as_page s' = as_page s \<and> as_form s' = as_form s \<and>
           as_webhook s' = (if form_there m s
                            then (as_webhook s)\<lparr>wf_error := error_message om t_test_failed e, wf_testing := False\<rparr>
                            else as_webhook s)
       | op \<Rightarrow> ap_error (as_page s') = apiErrorMessage e (rejected_text op))"
  unfolding settle_eq [OF assms] Let_def
  by (cases "as_ops s ! k") (simp_all add: rejected_page rejected_facts rejected_text_def Let_def)

lemma load_shows:
  assumes "k < length (as_ops s)" and "as_ops s ! k = PendLoad"
  shows "let p = as_page (alerts_settle om k (LoadAnswer (Fulfilled (srvs, rules, events, w))) s) in
      \<not> ap_loading p \<and> ap_rules p = rules \<and> ap_servers p = srvs \<and> ap_events p = events \<and> ap_webhook p = w"
  using assms settle_eq [of k s om "LoadAnswer (Fulfilled (srvs, rules, events, w))"]
  by (simp add: load_done_def)

text \<open>
  C36: the alerts page never hangs and never loses a rule to a failure. As long as the server
  returns rules as its handler stores them: the page shows that it loads only while a load is
  under way, and an ended load shows either the loaded rules or the earlier ones with a text; each
  form is locked exactly while one save of it is under way, and there is never a second one; the form
  of the webhook shows a test exactly while one that it started is under way; every save under way
  sends a rule that makes sense. Any request that fails leaves the rules and the webhook of the page
  as they were. A failed load, switch or deletion leaves its text on the page. A failed save, of a rule
  or of the webhook, and a failed test leave theirs in the form they came from, which keeps what was
  typed, when that form is still there; a refresh in between has taken that form away, and then
  the failure leaves nothing at all, neither on the page nor in the forms.
\<close>

theorem alerts_page_sound:
  assumes "alerts_run s"
  shows "(alerts_view_of loc expanded (as_page s) = None \<longrightarrow> PendLoad \<in> set (as_ops s)) \<and>
    length (filter is_save (as_ops s)) = of_bool (ap_savingRule (as_page s)) \<and>
    length (filter is_webhook_save (as_ops s)) = of_bool (ap_savingWebhook (as_page s)) \<and>
    (\<not> ap_loading (as_page s) \<longrightarrow>
       length (filter (\<lambda>op. op = PendTest (as_mount s)) (as_ops s)) = of_bool (wf_testing (as_webhook s))) \<and>
    (\<forall>ed m r. PendSave ed m r \<in> set (as_ops s) \<longrightarrow> rule_sendable r) \<and>
    (\<forall>rule \<in> set (ap_rules (as_page s)). stored_rule_ok rule) \<and>
    (\<forall>k < length (as_ops s). \<forall>e. let s' = alerts_settle om k (rejects (as_ops s ! k) e) s in
       ap_rules (as_page s') = ap_rules (as_page s) \<and> ap_webhook (as_page s') = ap_webhook (as_page s) \<and>
       (case as_ops s ! k of
          PendSave ed m r \<Rightarrow>
            \<not> ap_savingRule (as_page s') \<and> ap_error (as_page s') = ap_error (as_page s) \<and>
            as_webhook s' = as_webhook s \<and>
            as_form s' = (if form_there m s
                          then (as_form s)\<lparr>rf_error := error_message om t_rule_save_failed e\<rparr> else as_form s)
        | PendWebhook m w \<Rightarrow>
            \<not> ap_savingWebhook (as_page s') \<and> ap_error (as_page s') = ap_error (as_page s) \<and>
            as_form s' = as_form s \<and>
            as_webhook s' = (if form_there m s
                             then (as_webhook s)\<lparr>wf_error := error_message om t_webhook_save_failed e\<rparr>
                             else as_webhook s)
        | PendTest m \<Rightarrow>
            as_page s' = as_page s \<and> as_form s' = as_form s \<and>
            as_webhook s' = (if form_there m s
                             then (as_webhook s)\<lparr>wf_error := error_message om t_test_failed e, wf_testing := False\<rparr>
                             else as_webhook s)
        | op \<Rightarrow> ap_error (as_page s') = apiErrorMessage e (rejected_text op))) \<and>
    (\<forall>k < length (as_ops s). \<forall>srvs rules events w. as_ops s ! k = PendLoad \<longrightarrow>
       (let p = as_page (alerts_settle om k (LoadAnswer (Fulfilled (srvs, rules, events, w))) s) in
          \<not> ap_loading p \<and> ap_rules p = rules \<and> ap_servers p = srvs \<and> ap_events p = events \<and>
          ap_webhook p = w))"
proof (intro conjI, goal_cases)
  note ok = alerts_ok_run [OF assms] and webhook = webhook_ok_run [OF assms]
  case 1
  show ?case using ok by (auto simp: alerts_ok_def alerts_view_of_def split: if_splits)
  case 2
  show ?case using ok by (simp add: alerts_ok_def)
  case 3
  show ?case using webhook by (simp add: webhook_ok_def)
  case 4
  have "(op = PendTest m) = (test_mount op = Some m)" for op m by (cases op) auto
  then show ?case using webhook by (simp add: webhook_ok_def)
  case 5
  show ?case using ok by (auto simp: alerts_ok_def list_all_iff dest!: bspec)
  case 6
  show ?case using ok by (simp add: alerts_ok_def page_rules_ok_def)
qed (use failure_leaves load_shows in blast)+

text \<open>
  The page loads, the form of the webhook is saved, the page is refreshed, and the save fails: its
  form is gone, so that nothing tells of it.
\<close>

theorem alerts_page_sound_witness:
  "\<exists>s e. alerts_run s \<and> as_ops s = [PendWebhook 1 (config (initial_webhook_form emptyWebhook))] \<and>
     alerts_view_of (\<lambda>t. t) None (as_page s) \<noteq> None \<and>
     as_webhook (alerts_settle None 0 (WebhookAnswer (Rejected e)) s) = as_webhook s \<and>
     ap_error (as_page (alerts_settle None 0 (WebhookAnswer (Rejected e)) s)) = ap_error (as_page s)"
proof -
  let ?load = "LoadAnswer (Fulfilled ([], [], [], emptyWebhook))"
  let ?w = "config (initial_webhook_form emptyWebhook)"
  define s1 where "s1 = alerts_settle None 0 ?load initial_alerts_state"
  define s2 where "s2 = alerts_act AlRefresh (alerts_act AlSaveWebhook s1)"
  define s where "s = alerts_settle None 1 ?load s2"
  have parts: "as_page s1 = (load_begin initial_alerts)\<lparr>ap_servers := [], ap_rules := [], ap_events := [],
        ap_webhook := emptyWebhook, ap_loading := False\<rparr>"
      "as_webhook s1 = initial_webhook_form emptyWebhook" "as_mount s1 = 1" "as_ops s1 = []"
    by (simp_all add: s1_def alerts_settle_def initial_alerts_state_def load_done_def set_page_def load_begin_def)
  have "alerts_run s1" unfolding s1_def by (intro Settle Start) simp
  then have "alerts_run (alerts_act AlSaveWebhook s1)"
    by (rule Act) (simp add: parts load_begin_def initial_alerts_def)
  then have "alerts_run s2"
    unfolding s2_def by (rule Act) (simp add: parts load_begin_def start_op_def save_begin_def saveWebhook_begin_def)
  then have run: "alerts_run s" unfolding s_def by (rule Settle) simp
  have two: "as_ops s2 = [PendWebhook 1 ?w, PendLoad]" "as_mount s2 = 1" "ap_loading (as_page s2)"
    by (simp_all add: s2_def parts start_op_def save_begin_def)
  then have ops: "as_ops s = [PendWebhook 1 ?w]" "as_mount s = 2" "\<not> ap_loading (as_page s)"
    by (simp_all add: s_def alerts_settle_def set_page_def Let_def)
  then have first: "as_ops s ! 0 = PendWebhook 1 ?w" "0 < length (as_ops s)" by simp_all
  have gone: "\<not> form_there (Suc 0) s" by (simp add: form_there_def ops(2))
  have "let s' = alerts_settle None 0 (rejects (as_ops s ! 0) OtherErr) s in
      ap_error (as_page s') = ap_error (as_page s) \<and> as_webhook s' = as_webhook s"
    using alerts_page_sound [OF run, of "\<lambda>t. t" None None, THEN conjunct2, THEN conjunct2, THEN conjunct2,
        THEN conjunct2, THEN conjunct2, THEN conjunct2, THEN conjunct1, rule_format, OF first(2), of OtherErr]
    by (simp add: Let_def first(1) gone del: alerts_answered.simps)
  moreover have "alerts_view_of (\<lambda>t. t) None (as_page s) \<noteq> None"
    by (simp add: alerts_view_of_def ops(3))
  ultimately show ?thesis using run ops(1) by (intro exI [of _ s] exI [of _ OtherErr]) (simp add: Let_def)
qed

end
