(* ===== verification/AlertListing.thy ===== *)
theory AlertListing
  imports HttpProps AlertsProps
begin

text \<open>
  What the lists of rules and events are made of on the server, how the pages of events join, and what
  the alerts page makes of the events that it gets.
\<close>

section \<open>Scanning\<close>

lemma scan_all_total:
  "(\<And>row. row \<in> set rows \<Longrightarrow> scan row = Inr (f row)) \<Longrightarrow> scan_all scan rows = Inr (map f rows)"
  by (induction rows) simp_all

text \<open>A row of the rules as it is listed.\<close>

definition listed_rule :: "alert_db \<Rightarrow> int \<times> go_rule \<Rightarrow> rule_result" where
  "listed_rule db row =
     \<lparr>rs_id = fst row, rs_rule = snd row, rs_createdAt = fst (db_ruleTimes db (fst row)),
      rs_updatedAt = snd (db_ruleTimes db (fst row)),
      rs_state = (case db_states db (fst row) of None \<Rightarrow> Normal | Some st \<Rightarrow> nullish (as_status st) Normal)\<rparr>"

definition listing_rows_ok :: "alert_db \<Rightarrow> bool" where
  "listing_rows_ok db \<longleftrightarrow>
     1 \<le> db_nextRule db \<and> sorted_wrt (<) (map fst (db_rules db)) \<and>
     (\<forall>(i, rule) \<in> set (db_rules db). 1 \<le> i \<and> i < db_nextRule db \<and> go_rule_ok rule) \<and>
     (\<forall>i st. db_states db i = Some st \<longrightarrow> validStatus (as_status st))"

lemma alert_tables_rows: "alert_tables_ok srvs db \<Longrightarrow> listing_rows_ok db"
  by (auto simp: alert_tables_ok_def table_parts listing_rows_ok_def)

lemma go_rule_ok_valid: "go_rule_ok rule \<Longrightarrow> validMetric (gr_metric rule) \<and> validOperator (gr_operator rule)"
  by (auto simp: go_rule_ok_def validOperator_def)

lemma ListRules_eq:
  assumes "listing_rows_ok db"
  shows "ListRules False db = Inr (map (listed_rule db) (db_rules db))"
proof -
  have "(case joined_state db i of None \<Rightarrow> Inl ErrStore | Some status \<Rightarrow> scan_rule db status (i, rule)) =
      Inr (listed_rule db (i, rule))" if "(i, rule) \<in> set (db_rules db)" for i rule
  proof -
    have valid: "validMetric (gr_metric rule)" "validOperator (gr_operator rule)"
      using assms that go_rule_ok_valid [of rule] by (auto simp: listing_rows_ok_def)
    have "as_status st \<noteq> None" if "db_states db i = Some st" for st
      using assms that by (auto simp: listing_rows_ok_def validStatus_def)
    then show ?thesis
      using valid by (cases "db_states db i") (auto simp: joined_state_def scan_rule_def listed_rule_def)
  qed
  then show ?thesis by (auto simp: ListRules_def intro!: scan_all_total)
qed

section \<open>The order of the events\<close>

lemma insort_key_last: "(\<And>y. y \<in> set ys \<Longrightarrow> f y < f x) \<Longrightarrow> insort_key f x ys = ys @ [x]"
  for f :: "'a \<Rightarrow> int"
  by (induction ys) (auto simp: less_le_not_le)

lemma sort_key_rev: "sorted_wrt (\<lambda>x y. f y < f x) xs \<Longrightarrow> sort_key f xs = rev xs" for f :: "'a \<Rightarrow> int"
proof (induction xs)
  case (Cons x xs)
  then show ?case using insort_key_last [of "rev xs" f x] by simp
qed simp

definition listed_event :: "go_server list \<Rightarrow> alert_db \<Rightarrow> go_event \<Rightarrow> event_result" where
  "listed_event srvs db e =
     (the (scan_event srvs db e))
       \<lparr>es_attempts := filter (\<lambda>row. ga_eventId (wr_attempt row) = Some (ae_id e)) (db_attempts db)\<rparr>"

lemma scan_event_total:
  assumes "alert_tables_ok srvs db" and "e \<in> set (db_events db)"
  shows "\<exists>r. scan_event srvs db e = Some r \<and> es_event r = e \<and> validMetric (es_metric r) \<and> es_attempts r = []"
proof -
  obtain rule where rule: "(ae_ruleId e, rule) \<in> set (db_rules db)"
    using assms by (fastforce simp: alert_tables_ok_def alert_events_ok_def)
  have "server_known srvs (ae_serverId e)"
    using assms by (auto simp: alert_tables_ok_def alert_events_ok_def)
  then obtain sv where "sv \<in> set srvs" "sv_id sv = ae_serverId e" by (auto simp: server_known_def)
  then have "find (\<lambda>sv. sv_id sv = ae_serverId e) srvs \<noteq> None" by (auto simp: find_None_iff)
  then show ?thesis
    using rule_of_server_row(1) [OF assms(1) rule] assms(1) rule
    by (auto simp: scan_event_def alert_tables_ok_def rules_ok_def go_rule_ok_def split: option.splits)
qed

lemma listed_event_id:
  "alert_tables_ok srvs db \<Longrightarrow> e \<in> set (db_events db) \<Longrightarrow> es_event (listed_event srvs db e) = e"
  using scan_event_total by (fastforce simp: listed_event_def)

text \<open>The events before an id, the newest first.\<close>

definition events_before :: "int \<Rightarrow> alert_db \<Rightarrow> go_event list" where
  "events_before b db = rev (filter (\<lambda>e. b = 0 \<or> ae_id e < b) (db_events db))"

lemma ListEvents_eq:
  assumes "alert_tables_ok srvs db" and "0 \<le> b" and "1 \<le> l" and "l \<le> 100"
  shows "ListEvents srvs False (\<lambda>i. False) b l db =
    Inr (map (listed_event srvs db) (take (nat l) (events_before b db)))"
proof -
  let ?es = "filter (\<lambda>e. b = 0 \<or> ae_id e < b) (db_events db)" and ?scan = "\<lambda>e. the (scan_event srvs db e)"
  note scan = scan_event_total [OF assms(1)]
  have some: "scan_event srvs db e = Some (?scan e) \<and> es_event (?scan e) = e \<and> validMetric (es_metric (?scan e))"
    if "e \<in> set ?es" for e
    using scan [of e] that by auto
  have filter: "List.map_filter (scan_event srvs db) xs = map ?scan xs" if "set xs \<subseteq> set ?es" for xs
    using that some by (induction xs) (auto simp: List.map_filter_def)
  have sorted: "sorted_wrt (<) (map ae_id ?es)"
    using assms(1) by (auto simp: alert_tables_ok_def alert_events_ok_def intro: sorted_map_filter)
  have "sorted_wrt (\<lambda>r s. - ae_id (es_event s) < - ae_id (es_event r)) (map ?scan xs)"
    if "set xs \<subseteq> set ?es" "sorted_wrt (<) (map ae_id xs)" for xs
    using that some by (induction xs) auto
  from sort_key_rev [OF this [OF subset_refl sorted]]
  have rows: "event_rows srvs b (nat l) db = map ?scan (take (nat l) (rev ?es))"
    using filter [of ?es] by (simp add: event_rows_def take_map rev_map)
  let ?rows = "take (nat l) (rev ?es)"
  have sub: "set ?rows \<subseteq> set ?es" by (metis set_rev set_take_subset)
  then have valid: "list_all (\<lambda>r. validMetric (es_metric r) \<and> validStatus (go_event.ae_status (es_event r))) (map ?scan ?rows)"
    using some assms(1) by (fastforce simp: list_all_iff alert_tables_ok_def alert_events_ok_def)
  have "scan_all (\<lambda>r. case ListAttempts False (ae_id (es_event r)) db of Inl err \<Rightarrow> Inl err
        | Inr attempts \<Rightarrow> Inr (r\<lparr>es_attempts := attempts\<rparr>)) (map ?scan ?rows) =
      Inr (map (\<lambda>r. r\<lparr>es_attempts := filter (\<lambda>row. ga_eventId (wr_attempt row) = Some (ae_id (es_event r)))
             (db_attempts db)\<rparr>) (map ?scan ?rows))"
  proof (rule scan_all_total)
    fix r assume "r \<in> set (map ?scan ?rows)"
    then have "1 \<le> ae_id (es_event r)"
      using some sub assms(1) by (fastforce simp: alert_tables_ok_def alert_events_ok_def)
    then show "(case ListAttempts False (ae_id (es_event r)) db of Inl err \<Rightarrow> Inl err
        | Inr attempts \<Rightarrow> Inr (r\<lparr>es_attempts := attempts\<rparr>)) =
      Inr (r\<lparr>es_attempts := filter (\<lambda>row. ga_eventId (wr_attempt row) = Some (ae_id (es_event r))) (db_attempts db)\<rparr>)"
      by (simp add: ListAttempts_def)
  qed
  also have "map (\<lambda>r. r\<lparr>es_attempts := filter (\<lambda>row. ga_eventId (wr_attempt row) = Some (ae_id (es_event r)))
             (db_attempts db)\<rparr>) (map ?scan ?rows) = map (listed_event srvs db) ?rows"
    using some sub by (auto simp: listed_event_def)
  finally show ?thesis
    using assms(2-4) valid by (simp add: ListEvents_def rows Let_def events_before_def)
qed

lemma drop_of_decreasing:
  fixes f :: "'a \<Rightarrow> int"
  assumes "sorted_wrt (\<lambda>x y. f y < f x) xs" and "k < length xs"
  shows "filter (\<lambda>y. f y < f (xs ! k)) xs = drop (Suc k) xs"
  using assms
proof (induction xs arbitrary: k)
  case (Cons x xs)
  show ?case
  proof (cases k)
    case 0
    then show ?thesis using Cons.prems by (auto simp: filter_id_conv)
  next
    case (Suc j)
    then have "\<not> f x < f (xs ! j)" using Cons.prems by (simp add: less_imp_not_less)
    then show ?thesis using Suc Cons by simp
  qed
qed simp

lemma events_before_join:
  assumes "alert_tables_ok srvs db" and "0 \<le> b" and "take l (events_before b db) \<noteq> []"
  defines "c \<equiv> ae_id (last (take l (events_before b db)))"
  shows "1 \<le> c" "take l (events_before b db) @ take m (events_before c db) = take (l + m) (events_before b db)"
proof -
  let ?xs = "events_before b db"
  have dec: "sorted_wrt (\<lambda>x y. ae_id y < ae_id x) ?xs"
    using assms(1) sorted_map_filter [of ae_id "db_events db"]
    by (simp add: events_before_def sorted_wrt_rev alert_tables_ok_def alert_events_ok_def sorted_wrt_map)
  let ?k = "min l (length ?xs) - 1"
  have k: "?k < length ?xs" and last: "last (take l ?xs) = ?xs ! ?k"
    using assms(3) by (auto simp: last_conv_nth min_def)
  then have c: "c = ae_id (?xs ! ?k)" and mem: "?xs ! ?k \<in> set ?xs" by (simp_all add: c_def)
  then show "1 \<le> c"
    using assms(1) by (auto simp: events_before_def alert_tables_ok_def alert_events_ok_def)
  have "b = 0 \<or> c < b" using mem c by (auto simp: events_before_def)
  then have "events_before c db = filter (\<lambda>e. ae_id e < c) ?xs"
    using \<open>1 \<le> c\<close> by (auto simp: events_before_def rev_filter intro!: filter_cong)
  also have "\<dots> = drop (Suc ?k) ?xs" unfolding c using dec k by (rule drop_of_decreasing)
  finally have "events_before c db = drop (Suc ?k) ?xs" .
  then show "take l ?xs @ take m (events_before c db) = take (l + m) ?xs"
    using assms(3) by (cases "l \<le> length ?xs") (auto simp: take_add min_def)
qed

lemma events_before_sorted:
  assumes "alert_tables_ok srvs db"
  shows "sorted_wrt (>) (map ae_id (take n (events_before b db)))"
proof -
  have "sorted_wrt (<) (map ae_id (filter (\<lambda>e. b = 0 \<or> ae_id e < b) (db_events db)))"
    using assms by (intro sorted_map_filter) (simp add: alert_tables_ok_def alert_events_ok_def)
  then have "sorted_wrt (>) (map ae_id (events_before b db))"
    by (simp add: events_before_def sorted_wrt_rev sorted_wrt_map)
  then show ?thesis by (simp add: sorted_wrt_take flip: take_map)
qed

lemma events_before_stored: "set (events_before b db) \<subseteq> set (db_events db)"
  by (auto simp: events_before_def)

lemma listed_events:
  assumes "alert_tables_ok srvs db"
  shows "map es_event (map (listed_event srvs db) (take n (events_before b db))) = take n (events_before b db)"
  using listed_event_id [OF assms] events_before_stored by (fastforce intro!: map_idI dest: in_set_takeD)

end
