(* ===== verification/WebhookProps.thy ===== *)
theory WebhookProps
  imports AlertListing
begin

text \<open>
  The webhook from the server's database through \<open>GetWebhook\<close> to its form
  (\<^verbatim>\<open>web/src/components/WebhookForm.tsx\<close>) and back through \<open>PutWebhook\<close>: what becomes of the headers,
  and of the secret values that the server masks.
\<close>

section \<open>The answer, as the page has it\<close>

text \<open>
  \<open>encoding/json\<close> writes a map in the order of its keys, which is the order of \<open>Object.entries\<close> for
  names that are no array indices. The text of a time is the parameter \<open>when_text\<close>.
\<close>

definition page_webhook :: "(int option \<Rightarrow> string) \<Rightarrow> go_webhook \<Rightarrow> webhook_config" where
  "page_webhook when_text w =
     \<lparr>wc_url = gw_url w,
      wc_headers = map (\<lambda>n. (n, the (gw_headers w n))) (sorted_list_of_set (dom (gw_headers w))),
      wc_bodyTemplate = gw_bodyTemplate w, wc_enabled = gw_enabled w,
      wc_createdAt = Some (when_text (gw_createdAt w)), wc_updatedAt = Some (when_text (gw_updatedAt w))\<rparr>"

text \<open>The body of the request that saves a form.\<close>

definition webhook_body :: "webhook_form \<Rightarrow> nat + jv" where
  "webhook_body f =
     (case json_parse (stringify (webhook_json (fst (save_begin f)))) of None \<Rightarrow> Inl 400 | Some v \<Rightarrow> Inr v)"

definition form_webhook :: "webhook_form \<Rightarrow> headers \<Rightarrow> go_webhook" where
  "form_webhook f hs =
     \<lparr>gw_url = trim (wf_url f), gw_headers = hs, gw_bodyTemplate = wf_bodyTemplate f,
      gw_enabled = wf_enabled f, gw_createdAt = None, gw_updatedAt = None\<rparr>"

lemma page_headers:
  assumes "finite (dom (gw_headers w))"
  shows "map_of (wc_headers (page_webhook tt w)) = gw_headers w"
    and "(\<And>n. n \<in> dom (gw_headers w) \<Longrightarrow> trim n = n \<and> n \<noteq> '''') \<Longrightarrow> good_headers (wc_headers (page_webhook tt w))"
proof -
  let ?ns = "sorted_list_of_set (dom (gw_headers w))"
  have "set ?ns = dom (gw_headers w)" using assms by simp
  moreover have "map_of (map (\<lambda>n. (n, the (m n))) ns) k = (if k \<in> set ns then m k else None)"
    if "set ns \<subseteq> dom m" for m :: headers and ns k
    using that by (induction ns) auto
  ultimately show "map_of (wc_headers (page_webhook tt w)) = gw_headers w"
    by (auto simp: page_webhook_def fun_eq_iff domIff)
  show "good_headers (wc_headers (page_webhook tt w))"
    if "\<And>n. n \<in> dom (gw_headers w) \<Longrightarrow> trim n = n \<and> n \<noteq> ''''"
    using assms that by (auto simp: good_headers_def page_webhook_def o_def)
qed

section \<open>The rows of the form\<close>

lemma rows_around:
  assumes "good_headers hs" and "i < length hs" and "hs ! i = (n, old)"
  obtains a b where "hs = a @ (n, old) # b" and "length a = i"
    and "good_headers (a @ b)" and "n \<notin> fst ` set (a @ b)"
proof
  show hs: "hs = take i hs @ (n, old) # drop (Suc i) hs" "length (take i hs) = i"
    using assms(2,3) id_take_nth_drop [OF assms(2)] by simp_all
  from assms(1) have "good_headers (take i hs @ (n, old) # drop (Suc i) hs)" using hs(1) by simp
  then show "good_headers (take i hs @ drop (Suc i) hs)" "n \<notin> fst ` set (take i hs @ drop (Suc i) hs)"
    by (auto simp: good_headers_def)
qed

text \<open>The rows after the name and the value of one of them have been typed anew, and without it.\<close>

lemma changed_rows:
  "i < length (wf_headers f) \<Longrightarrow>
   wf_headers (changeHeader i k t f) = (wf_headers f)[i := change_row k t (wf_headers f ! i)]"
  by (intro nth_equalityI) (auto simp: changeHeader_def nth_list_update)

lemma edited_rows:
  assumes "wf_headers f = a @ (n, old) # b" and "length a = i"
  shows "wf_headers (changeHeader i HeaderName t (changeHeader i HeaderValue v f)) = a @ (t, v) # b"
proof -
  have "wf_headers (changeHeader i HeaderValue v f) = a @ (n, v) # b"
    using assms by (subst changed_rows) auto
  then show ?thesis using assms(2) by (subst changed_rows) auto
qed

lemma rows_without_index:
  "map snd (filter (\<lambda>(j, x). j \<noteq> i) (zip [0..<length xs] xs)) = take i xs @ drop (Suc i) xs"
proof (induction xs rule: rev_induct)
  case (snoc x xs)
  then show ?case by (cases "i \<le> length xs"; cases "i = length xs") auto
qed simp

lemma removed_rows:
  assumes "wf_headers f = a @ (n, old) # b" and "length a = i"
  shows "wf_headers (removeHeader i f) = rowsFromHeaders (a @ b)"
proof -
  have "take i (a @ (n, old) # b) = a" "drop (Suc i) (a @ (n, old) # b) = b" using assms(2) by simp_all
  then show ?thesis
    using rows_without_index [of i "a @ (n, old) # b"] assms(1)
    by (auto simp: removeHeader_def rowsFromHeaders_def)
qed

text \<open>What the form sends for such rows.\<close>

lemma sent_edited:
  assumes "good_headers (a @ b)" and "trim t \<notin> fst ` set (a @ b)"
  shows "foldl header_of_row [] (a @ (t, v) # b) = a @ (if trim t = '''' then [] else [(trim t, v)]) @ b"
proof -
  have g: "foldl header_of_row [] a = a" using assms(1) by (intro rows_good_headers) (auto simp: good_headers_def)
  have row: "header_of_row a (t, v) = a @ (if trim t = '''' then [] else [(trim t, v)])"
    using assms(2) put_header_new [of "(trim t, v)" a] by (auto simp: header_of_row_def)
  have "foldl header_of_row (a @ (if trim t = '''' then [] else [(trim t, v)])) b =
      (a @ (if trim t = '''' then [] else [(trim t, v)])) @ b"
    using assms by (intro foldl_header_of_row) (auto simp: good_headers_def image_iff)
  then show ?thesis by (simp add: g row)
qed

lemma map_of_edited:
  assumes "n \<notin> fst ` set (a @ b)" and "t \<notin> fst ` set (a @ b)"
  shows "map_of (a @ (t, v) # b) = (map_of (a @ (n, old) # b))(n := None, t \<mapsto> v)"
    and "map_of (a @ b) = (map_of (a @ (n, old) # b))(n := None)"
proof -
  have none: "map_of a n = None" "map_of b n = None" "map_of a t = None" "map_of b t = None"
    using assms by (auto simp: map_of_eq_None_iff)
  show "map_of (a @ (t, v) # b) = (map_of (a @ (n, old) # b))(n := None, t \<mapsto> v)"
    and "map_of (a @ b) = (map_of (a @ (n, old) # b))(n := None)"
    using none by (auto simp: fun_eq_iff map_add_def split: option.split)
qed

section \<open>Saving the form\<close>

lemma put_header_keys: "fst ` set (put_header hs kv) = insert (fst kv) (fst ` set hs)"
  by (induction hs) auto

lemma distinct_put_header: "distinct (map fst hs) \<Longrightarrow> distinct (map fst (put_header hs kv))"
proof (induction hs)
  case (Cons h hs)
  then show ?case using put_header_keys [of hs kv] by (auto simp flip: set_map)
qed simp

lemma distinct_config: "distinct (map fst (wc_headers (config f)))"
proof -
  have "distinct (map fst acc) \<Longrightarrow> distinct (map fst (foldl header_of_row acc rows))" for acc rows
    by (induction rows arbitrary: acc) (simp_all add: header_of_row_def distinct_put_header)
  then show ?thesis by (simp add: config_def)
qed

lemma webhook_body_decoded:
  "decode_body (decode_webhook time_ok) (webhook_body f) =
     Inr (form_webhook f (map_of (wc_headers (config f))))"
proof -
  have "json_parse (stringify (webhook_json (config f))) = Some (webhook_json (config f))"
    by (intro stringify_round_trip json_ok_webhook distinct_config)
  then have body: "webhook_body f = Inr (webhook_json (config f))" by (simp add: webhook_body_def save_begin_def)
  have "decode_webhook time_ok (webhook_json (config f)) = Some (form_webhook f (map_of (wc_headers (config f))))"
    using decode_webhook_headers [of "config f"]
    by (simp add: decode_webhook_def webhook_json_def webhook_fields_def optional_field_def config_def form_webhook_def)
  then show ?thesis by (simp add: body decode_body_def)
qed

text \<open>
  The outcome of saving the form: what is stored has the form's fields and the given headers, or, when
  the handler refuses or fails, nothing is changed.
\<close>

definition saves_headers ::
  "(webhook_form \<Rightarrow> alert_reply \<times> alert_db) \<Rightarrow> bool \<Rightarrow> int \<Rightarrow> alert_db \<Rightarrow> webhook_form \<Rightarrow> headers \<Rightarrow> bool" where
  "saves_headers send accepted now db f hs \<longleftrightarrow>
     (if accepted
      then fst (fst (send f)) = 200 \<and>
        (\<exists>created. db_webhook (snd (send f)) =
           Some ((form_webhook f hs)\<lparr>gw_createdAt := created, gw_updatedAt := Some now\<rparr>))
      else fst (fst (send f)) \<noteq> 200 \<and> snd (send f) = db)"

text \<open>When the handler accepts the form.\<close>

definition form_accepted ::
  "(string \<Rightarrow> (string \<times> string) option) \<Rightarrow> (string \<Rightarrow> bool) \<Rightarrow> world \<Rightarrow> bool \<Rightarrow> webhook_form \<Rightarrow> bool" where
  "form_accepted parse_url renders w fails f \<longleftrightarrow>
     \<not> webhook_fails w \<and> \<not> fails \<and> validateWebhook parse_url renders (form_webhook f Map.empty) \<and>
     trim (wf_url f) \<noteq> '''' \<and> wf_bodyTemplate f \<noteq> ''''"

lemma form_saved:
  assumes "current_webhook w db = Inr stored"
    and "send = (\<lambda>f. put_webhook_handler time_ok lower parse_url renders w' fails now (webhook_body f) db)"
    and "hs = restoreMaskedHeaders lower (map_of (wc_headers (config f))) (gw_headers stored)"
  shows "saves_headers send (form_accepted parse_url renders w' fails f) now db f hs"
proof (cases "webhook_fails w'")
  case True
  then show ?thesis
    by (simp add: saves_headers_def assms(2) put_webhook_handler_def webhook_body_decoded form_accepted_def
        current_webhook_def GetWebhook_def handleRepositoryError_def)
next
  case False
  then have "current_webhook w' db = Inr stored"
    using assms(1) by (auto simp: current_webhook_def GetWebhook_def split: if_splits option.splits)
  moreover have "validateWebhook parse_url renders (form_webhook f hs) =
      validateWebhook parse_url renders (form_webhook f Map.empty)"
    by (auto simp: validateWebhook_def form_webhook_def split: option.split)
  moreover have "(form_webhook f (map_of (wc_headers (config f))))\<lparr>gw_headers := hs\<rparr> = form_webhook f hs"
    "gw_headers (form_webhook f (map_of (wc_headers (config f)))) = map_of (wc_headers (config f))"
    "gw_url (form_webhook f hs) = trim (wf_url f)" "gw_bodyTemplate (form_webhook f hs) = wf_bodyTemplate f"
    by (simp_all add: form_webhook_def)
  ultimately show ?thesis
    using False
    by (auto simp: saves_headers_def assms(2) put_webhook_handler_def webhook_body_decoded form_accepted_def
        UpsertWebhook_def assms(3) [symmetric] Let_def refused_alert_def handleRepositoryError_def)
qed

section \<open>What the handlers answer\<close>

lemma put_reply_masked:
  assumes "fst (put_webhook_handler time_ok lower parse_url renders w fails now body db) = (200, WebhookBody b)"
    and "secretHeader lower n" and "gw_headers b n = Some v"
  shows "v = maskedHeaderValue"
proof -
  have "\<exists>c. masked_webhook lower c = WebhookBody b"
    using assms(1)
    by (auto simp: put_webhook_handler_def refused_alert_def handleRepositoryError_def current_webhook_def
        GetWebhook_def UpsertWebhook_def Let_def
        split: sum.splits prod.splits if_splits option.splits alerting_error.splits)
  then show ?thesis using assms(2,3) by (auto simp: masked_webhook_def maskWebhookHeaders_def)
qed

lemma restore_edited:
  assumes "m = maskWebhookHeaders lower stored" and "t \<noteq> n \<Longrightarrow> stored t = None" and "n \<in> dom stored"
  shows "restoreMaskedHeaders lower (m(n := None, t \<mapsto> v)) stored =
      (if t = n \<and> v = maskedHeaderValue \<and> secretHeader lower n then stored else stored(n := None, t \<mapsto> v))"
    and "restoreMaskedHeaders lower (m(n := None)) stored = stored(n := None)"
  using assms(2,3)
  by (auto simp: fun_eq_iff assms(1) restoreMaskedHeaders_def maskWebhookHeaders_def split: option.split)

text \<open>What the server makes of the headers of the form after one row has been edited, and after it is removed.\<close>

lemma edited_headers:
  assumes "good_headers rows" and "map_of rows = maskWebhookHeaders lower stored"
    and "i < length rows" and "rows ! i = (n, old)" and "wf_headers f = rowsFromHeaders rows"
  shows "trim t = n \<or> trim t \<notin> fst ` set rows \<Longrightarrow>
      restoreMaskedHeaders lower
        (map_of (wc_headers (config (changeHeader i HeaderName t (changeHeader i HeaderValue v f))))) stored =
      (if trim t = '''' then stored(n := None)
       else if trim t = n \<and> v = maskedHeaderValue \<and> secretHeader lower n then stored
       else stored(n := None, trim t \<mapsto> v))"
    and "restoreMaskedHeaders lower (map_of (wc_headers (config (removeHeader i f)))) stored = stored(n := None)"
proof -
  obtain a b where ab: "rows = a @ (n, old) # b" "length a = i" "good_headers (a @ b)" "n \<notin> fst ` set (a @ b)"
    by (rule rows_around [OF assms(1,3,4)])
  have f: "wf_headers f = a @ (n, old) # b" by (simp add: assms(5) ab(1) rowsFromHeaders_def)
  have "map_of rows n \<noteq> None" by (simp add: ab(1) map_add_def split: option.split)
  then have n: "n \<in> dom stored" by (auto simp: assms(2) maskWebhookHeaders_def)
  note restore = restore_edited [OF assms(2) _ n]
  have removed: "restoreMaskedHeaders lower (map_of (a @ b)) stored = stored(n := None)"
    using restore(2) [of n] map_of_edited(2) [OF ab(4,4)] by (simp add: ab(1))
  moreover have "wc_headers (config (removeHeader i f)) = a @ b"
    using removed_rows [OF f ab(2)] config_headers_round_trip [OF ab(3)] by (simp add: config_def)
  ultimately show "restoreMaskedHeaders lower (map_of (wc_headers (config (removeHeader i f)))) stored =
      stored(n := None)" by simp
  assume "trim t = n \<or> trim t \<notin> fst ` set rows"
  then have t: "trim t \<notin> fst ` set (a @ b)" and "trim t \<noteq> n \<Longrightarrow> map_of rows (trim t) = None"
    using ab(1,4) by (auto simp: map_of_eq_None_iff)
  then have fresh: "trim t \<noteq> n \<Longrightarrow> stored (trim t) = None"
    by (simp add: assms(2) maskWebhookHeaders_def)
  have "wc_headers (config (changeHeader i HeaderName t (changeHeader i HeaderValue v f))) =
      a @ (if trim t = '''' then [] else [(trim t, v)]) @ b"
    using sent_edited [OF ab(3) t, of v] edited_rows [OF f ab(2), of t v] by (simp add: config_def)
  then show "restoreMaskedHeaders lower
        (map_of (wc_headers (config (changeHeader i HeaderName t (changeHeader i HeaderValue v f))))) stored =
      (if trim t = '''' then stored(n := None)
       else if trim t = n \<and> v = maskedHeaderValue \<and> secretHeader lower n then stored
       else stored(n := None, trim t \<mapsto> v))"
    using removed restore(1) [OF fresh] map_of_edited(1) [OF ab(4) t, of v old]
    by (cases "trim t = ''''") (simp_all add: ab(1))
qed

text \<open>
  C34: secret headers of the webhook never leave the server, and the form does not lose them. Whatever
  \<open>GetWebhook\<close> and \<open>PutWebhook\<close> answer, the value of a secret header in it is six bullets, while
  \<open>GetWebhook\<close> gives the other headers as they are stored. Suppose a form is opened on that answer,
  nothing else changes the webhook, and the stored names have no blanks around them and are not empty,
  as those that the form sends. Saved with its rows untouched, whatever else was typed, the server
  goes on with exactly the headers it had stored. With the name and the value of one row typed anew,
  where the name is not that of another row, only that header changes: a blank name removes it; a
  secret header under its own name with the bullets as its value keeps its stored value; otherwise the
  row is stored as it stands under the new name and the old name is gone. So a secret header that is
  only renamed is stored with the bullets as its value, and its secret is lost. With a row removed,
  only that header is gone. The server stores the form exactly when it accepts address and template and
  no call fails; otherwise nothing changes.
\<close>

theorem webhook_secrets_kept:
  assumes "get_webhook_handler lower w db = (200, WebhookBody sent)" and "current_webhook w db = Inr stored"
    and "finite (dom (gw_headers stored))"
    and "\<And>n. n \<in> dom (gw_headers stored) \<Longrightarrow> trim n = n \<and> n \<noteq> ''''"
    and "rows = wc_headers (page_webhook when_text sent)" and "wf_headers f = rowsFromHeaders rows"
    and "send = (\<lambda>f. put_webhook_handler time_ok lower parse_url renders w' fails now (webhook_body f) db)"
    and "saves = (\<lambda>f. saves_headers send (form_accepted parse_url renders w' fails f) now db f)"
  shows "(\<forall>n v. secretHeader lower n \<and> gw_headers sent n = Some v \<longrightarrow> v = maskedHeaderValue) \<and>
    (\<forall>n. \<not> secretHeader lower n \<longrightarrow> gw_headers sent n = gw_headers stored n) \<and>
    (\<forall>f b n v. fst (send f) = (200, WebhookBody b) \<and> secretHeader lower n \<and> gw_headers b n = Some v \<longrightarrow>
       v = maskedHeaderValue) \<and>
    saves f (gw_headers stored) \<and>
    (\<forall>i < length rows. \<forall>n old t v. rows ! i = (n, old) \<longrightarrow>
       (trim t = n \<or> trim t \<notin> fst ` set rows \<longrightarrow>
          saves (changeHeader i HeaderName t (changeHeader i HeaderValue v f))
            (if trim t = '''' then (gw_headers stored)(n := None)
             else if trim t = n \<and> v = maskedHeaderValue \<and> secretHeader lower n then gw_headers stored
             else (gw_headers stored)(n := None, trim t \<mapsto> v))) \<and>
       saves (removeHeader i f) ((gw_headers stored)(n := None)))"
proof (intro conjI allI impI)
  have sent: "gw_headers sent = maskWebhookHeaders lower (gw_headers stored)"
    using assms(1,2) by (auto simp: get_webhook_handler_def masked_webhook_def)
  then show "v = maskedHeaderValue" if "secretHeader lower n \<and> gw_headers sent n = Some v" for n v
    using that by (auto simp: maskWebhookHeaders_def)
  show "gw_headers sent n = gw_headers stored n" if "\<not> secretHeader lower n" for n
    using that by (simp add: sent maskWebhookHeaders_def option.map_ident)
  show "v = maskedHeaderValue"
    if "fst (send f) = (200, WebhookBody b) \<and> secretHeader lower n \<and> gw_headers b n = Some v" for f b n v
    using that put_reply_masked unfolding assms(7) by blast
  have dom: "dom (gw_headers sent) = dom (gw_headers stored)"
    by (auto simp: sent maskWebhookHeaders_def)
  have rows: "good_headers rows" "map_of rows = maskWebhookHeaders lower (gw_headers stored)"
    using page_headers [of sent when_text, unfolded dom] assms(3,4) by (simp_all add: assms(5) flip: sent)
  have saves: "saves f' hs"
    if "map_of (wc_headers (config f')) = m" "restoreMaskedHeaders lower m (gw_headers stored) = hs" for f' m hs
    using form_saved [OF assms(2,7), of hs f'] that by (simp add: assms(8))
  have "wc_headers (config f) = rows"
    using config_headers_round_trip [OF rows(1)] by (simp add: config_def assms(6))
  then show "saves f (gw_headers stored)"
    using restore_masked [of lower "gw_headers stored"] by (intro saves [OF refl]) (simp add: rows(2))
  fix i n old t v assume row: "i < length rows" "rows ! i = (n, old)"
  note edited = edited_headers [OF rows row assms(6)]
  show "saves (removeHeader i f) ((gw_headers stored)(n := None))" by (rule saves [OF refl edited(2)])
  assume "trim t = n \<or> trim t \<notin> fst ` set rows"
  then show "saves (changeHeader i HeaderName t (changeHeader i HeaderValue v f))
      (if trim t = '''' then (gw_headers stored)(n := None)
       else if trim t = n \<and> v = maskedHeaderValue \<and> secretHeader lower n then gw_headers stored
       else (gw_headers stored)(n := None, trim t \<mapsto> v))"
    by (rule saves [OF refl edited(1)])
qed

text \<open>The lower case of ASCII letters, an instance of the parameter.\<close>

definition ascii_lower :: "string \<Rightarrow> string" where
  "ascii_lower =
     map (\<lambda>c. if 65 \<le> (of_char c :: nat) \<and> (of_char c :: nat) \<le> 90 then char_of (of_char c + 32 :: nat) else c)"

definition secret_webhook :: go_webhook where
  "secret_webhook = no_webhook\<lparr>gw_url := ''https://example.com'', gw_bodyTemplate := ''{}'',
     gw_headers := [''X-Token'' \<mapsto> ''abc'']\<rparr>"

definition calm_world :: world where
  "calm_world = \<lparr>list_fails = False, get_fails = \<lambda>i. False, save_fails = \<lambda>i. False, webhook_fails = False,
                 eval_clock = \<lambda>i. 0, save_clock = \<lambda>i. 0\<rparr>"

text \<open>One secret header: untouched it stays, renamed to \<^verbatim>\<open>X-Key\<close> its value becomes the bullets.\<close>

theorem webhook_secrets_kept_witness:
  "let form = initial_webhook_form (page_webhook (\<lambda>t. '''')
        (secret_webhook\<lparr>gw_headers := [''X-Token'' \<mapsto> maskedHeaderValue]\<rparr>));
      send = (\<lambda>f. put_webhook_handler (\<lambda>t. True) ascii_lower (\<lambda>u. Some (''https'', u)) (\<lambda>t. True) calm_world False 9
        (webhook_body f) (empty_alert_db\<lparr>db_webhook := Some secret_webhook\<rparr>));
      stored = (\<lambda>f. map_option gw_headers (db_webhook (snd (send f))))
    in stored form = Some [''X-Token'' \<mapsto> ''abc''] \<and>
       stored (changeHeader 0 HeaderName ''X-Key'' (changeHeader 0 HeaderValue maskedHeaderValue form)) =
         Some [''X-Key'' \<mapsto> maskedHeaderValue]"
proof -
  let ?db = "empty_alert_db\<lparr>db_webhook := Some secret_webhook\<rparr>"
  let ?sent = "secret_webhook\<lparr>gw_headers := [''X-Token'' \<mapsto> maskedHeaderValue]\<rparr>"
  let ?form = "initial_webhook_form (page_webhook (\<lambda>t. '''') ?sent)"
  let ?send = "\<lambda>f. put_webhook_handler (\<lambda>t. True) ascii_lower (\<lambda>u. Some (''https'', u)) (\<lambda>t. True) calm_world False 9
        (webhook_body f) ?db"
  have stored: "current_webhook calm_world ?db = Inr secret_webhook"
    by (simp add: current_webhook_def GetWebhook_def calm_world_def)
  have "ascii_lower ''X-Token'' = ''x-token''" by code_simp
  then have "secretHeader ascii_lower ''X-Token''"
    by (simp add: secretHeader_def contains_def sublist_Cons_right)
  then have masked: "maskWebhookHeaders ascii_lower [''X-Token'' \<mapsto> ''abc''] = [''X-Token'' \<mapsto> maskedHeaderValue]"
    by (auto simp: fun_eq_iff maskWebhookHeaders_def)
  have reply: "get_webhook_handler ascii_lower calm_world ?db = (200, WebhookBody ?sent)"
    by (simp add: get_webhook_handler_def stored masked_webhook_def masked) (simp add: secret_webhook_def masked)
  have fin: "finite (dom (gw_headers secret_webhook))" by (simp add: secret_webhook_def)
  have trims: "trim ''X-Token'' = ''X-Token''" "trim ''X-Key'' = ''X-Key''" "trim ''https://example.com'' = ''https://example.com''"
    by (simp_all add: trim_def js_whitespace_def strip.simps)
  then have names: "trim n = n \<and> n \<noteq> ''''" if "n \<in> dom (gw_headers secret_webhook)" for n
    using that by (auto simp: secret_webhook_def no_webhook_def split: if_splits)
  have rows: "wc_headers (page_webhook (\<lambda>t. '''') ?sent) = [(''X-Token'', maskedHeaderValue)]"
    by (simp add: page_webhook_def)
  have ok: "form_accepted (\<lambda>u. Some (''https'', u)) (\<lambda>t. True) calm_world False f"
    if "wf_url f = ''https://example.com''" "wf_bodyTemplate f = ''{}''" for f
    using that trims(3) by (simp add: form_accepted_def calm_world_def validateWebhook_def form_webhook_def)
  have form: "wf_headers ?form = rowsFromHeaders (wc_headers (page_webhook (\<lambda>t. '''') ?sent))"
    "wf_url ?form = ''https://example.com''" "wf_bodyTemplate ?form = ''{}''"
    by (simp_all add: initial_webhook_form_def page_webhook_def secret_webhook_def)
  let ?new = "changeHeader 0 HeaderName ''X-Key'' (changeHeader 0 HeaderValue maskedHeaderValue ?form)"
  have new: "wf_url ?new = ''https://example.com''" "wf_bodyTemplate ?new = ''{}''"
    using form by (simp_all add: changeHeader_def)
  have headers: "map_option gw_headers (db_webhook (snd (?send f))) = Some hs"
    if "saves_headers ?send (form_accepted (\<lambda>u. Some (''https'', u)) (\<lambda>t. True) calm_world False f) 9 ?db f hs"
      and "wf_url f = ''https://example.com''" "wf_bodyTemplate f = ''{}''" for f hs
    using that(1) ok [OF that(2,3)] by (auto simp: saves_headers_def form_webhook_def)
  note kept = webhook_secrets_kept [OF reply stored fin names refl form(1) refl refl,
      where time_ok = "\<lambda>t. True" and parse_url = "\<lambda>u. Some (''https'', u)" and renders = "\<lambda>t. True" and
        w' = calm_world and fails = False and now = 9, THEN conjunct2, THEN conjunct2, THEN conjunct2]
  have "map_option gw_headers (db_webhook (snd (?send ?form))) = Some (gw_headers secret_webhook)"
    by (rule headers [OF kept [THEN conjunct1] form(2,3)])
  moreover have "map_option gw_headers (db_webhook (snd (?send ?new))) =
      Some ((gw_headers secret_webhook)(''X-Token'' := None, ''X-Key'' \<mapsto> maskedHeaderValue))"
    using kept [THEN conjunct2, rule_format,
        where i = 0 and n = "''X-Token''" and old = maskedHeaderValue and t = "''X-Key''" and v = maskedHeaderValue]
    by (intro headers [OF _ new]) (simp add: rows trims)
  ultimately show ?thesis
    by (simp add: Let_def secret_webhook_def no_webhook_def fun_upd_twist)
qed

end
