(* ===== verification/HistoryAggregate.thy ===== *)
theory HistoryAggregate
  imports HistoryServer
begin

text \<open>
  The aggregator under every interleaving of reports, removals and the steps of a flush: no report
  of a minute is lost. The writer is an interface, \<open>minute_writer\<close>, of which the store is an
  instance.
\<close>

section \<open>Runs\<close>

text \<open>The step \<open>AgWrite\<close> carries what goes wrong in its call to the writer.\<close>

datatype 'f ag_op =
    AgAccept int g_report int
  | AgRemove int
  | AgFlush int
  | AgWrite 'f
  | AgSettle

fun ag_step :: "('f \<Rightarrow> g_minute \<Rightarrow> 'd \<Rightarrow> 'd option) \<Rightarrow> 'f ag_op \<Rightarrow> 'd aggregator \<Rightarrow> 'd aggregator" where
  "ag_step upsert (AgAccept i rep t) ag = ag_accept i rep t ag"
| "ag_step upsert (AgRemove i) ag = ag_remove i ag"
| "ag_step upsert (AgFlush boundary) ag = flush_begin boundary ag"
| "ag_step upsert (AgWrite f) ag = flush_write (upsert f) ag"
| "ag_step upsert AgSettle ag = flush_settle ag"

definition ag_run :: "('f \<Rightarrow> g_minute \<Rightarrow> 'd \<Rightarrow> 'd option) \<Rightarrow> 'f ag_op list \<Rightarrow> 'd aggregator \<Rightarrow> 'd aggregator" where
  "ag_run upsert ops ag = fold (ag_step upsert) ops ag"

definition ag_start :: "'d \<Rightarrow> 'd aggregator" where
  "ag_start db =
     \<lparr>ag_buckets = [], ag_next = 0, ag_flush = [], ag_written = None, ag_failed = False, ag_db = db\<rparr>"

text \<open>The reports accepted for each minute since its server was last removed, with their times.\<close>

type_synonym accepted = "bucket_key \<Rightarrow> (g_report \<times> int) list"

fun log_op :: "'f ag_op \<Rightarrow> accepted \<Rightarrow> accepted" where
  "log_op (AgAccept i rep t) h = h((i, minute_of t) := h (i, minute_of t) @ [(rep, t)])"
| "log_op (AgRemove i) h = (\<lambda>k. if fst k = i then [] else h k)"
| "log_op _ h = h"

definition accepted_reports :: "'f ag_op list \<Rightarrow> accepted" where
  "accepted_reports ops = fold log_op ops (\<lambda>k. [])"

text \<open>
  A run is in order when no report comes for a minute whose bucket has been written and dropped:
  each report finds the bucket of its minute, or is the first one of the minute.
\<close>

fun in_order :: "('f \<Rightarrow> g_minute \<Rightarrow> 'd \<Rightarrow> 'd option) \<Rightarrow> 'f ag_op list \<Rightarrow> 'd aggregator \<Rightarrow> accepted \<Rightarrow> bool" where
  "in_order upsert [] ag h = True"
| "in_order upsert (op # ops) ag h =
     ((case op of
         AgAccept i rep t \<Rightarrow> map_of (ag_buckets ag) (i, minute_of t) \<noteq> None \<or> h (i, minute_of t) = []
       | _ \<Rightarrow> True) \<and>
      in_order upsert ops (ag_step upsert op ag) (log_op op h))"

definition minute_acc :: "(g_report \<times> int) list \<Rightarrow> accumulator" where
  "minute_acc rts = fold (\<lambda>(rep, t). acc_add (Some t) rep) rts acc_zero"

definition minute_record_of :: "bucket_key \<Rightarrow> (g_report \<times> int) list \<Rightarrow> g_minute" where
  "minute_record_of k rts = acc_finish (fst k) (snd k) (minute_acc rts)"

lemma minute_record_of_key [simp]:
  "gm_serverId (minute_record_of k rts) = fst k" "gm_minuteUnix (minute_record_of k rts) = snd k"
  by (simp_all add: minute_record_of_def acc_finish_def)

lemma minute_acc_snoc: "minute_acc (rts @ [(rep, t)]) = acc_add (Some t) rep (minute_acc rts)"
  by (simp add: minute_acc_def)

section \<open>The invariant\<close>

definition buckets_ok :: "accepted \<Rightarrow> 'd aggregator \<Rightarrow> bool" where
  "buckets_ok h ag \<longleftrightarrow>
     distinct (map fst (ag_buckets ag)) \<and>
     (\<forall>k b. map_of (ag_buckets ag) k = Some b \<longrightarrow>
        h k \<noteq> [] \<and> bu_acc b = minute_acc (h k) \<and> bu_revision b = of_nat (length (h k)) \<and>
        bu_ref b < ag_next ag)"

definition candidate_ok :: "accepted \<Rightarrow> 'd aggregator \<Rightarrow> candidate \<Rightarrow> bool" where
  "candidate_ok h ag c \<longleftrightarrow>
     ca_ref c < ag_next ag \<and> (gm_serverId (ca_record c), gm_minuteUnix (ca_record c)) = ca_key c \<and>
     (case map_of (ag_buckets ag) (ca_key c) of
        None \<Rightarrow> h (ca_key c) = []
      | Some b \<Rightarrow> bu_ref b = ca_ref c \<longrightarrow>
          (\<exists>n \<le> length (h (ca_key c)). ca_revision c = of_nat n \<and>
             ca_record c = minute_record_of (ca_key c) (take n (h (ca_key c)))))"

definition flush_ok :: "accepted \<Rightarrow> 'd aggregator \<Rightarrow> bool" where
  "flush_ok h ag \<longleftrightarrow> distinct (map ca_key (ag_flush ag)) \<and> (\<forall>c \<in> set (ag_flush ag). candidate_ok h ag c)"

definition stored_ok :: "('d \<Rightarrow> bucket_key \<Rightarrow> g_minute option) \<Rightarrow> accepted \<Rightarrow> 'd aggregator \<Rightarrow> bool" where
  "stored_ok read_minute h ag \<longleftrightarrow>
     (\<forall>k. map_of (ag_buckets ag) k = None \<and> h k \<noteq> [] \<longrightarrow>
        read_minute (ag_db ag) k = Some (minute_record_of k (h k))) \<and>
     (ag_written ag = Some True \<and> ag_flush ag \<noteq> [] \<longrightarrow>
        read_minute (ag_db ag) (ca_key (hd (ag_flush ag))) = Some (ca_record (hd (ag_flush ag))))"

definition aggregate_ok :: "('d \<Rightarrow> bucket_key \<Rightarrow> g_minute option) \<Rightarrow> accepted \<Rightarrow> 'd aggregator \<Rightarrow> bool" where
  "aggregate_ok read_minute h ag \<longleftrightarrow> buckets_ok h ag \<and> flush_ok h ag \<and> stored_ok read_minute h ag"

lemma bucket_okD:
  "aggregate_ok read_minute h ag \<Longrightarrow> map_of (ag_buckets ag) k = Some b \<Longrightarrow>
     h k \<noteq> [] \<and> bu_acc b = minute_acc (h k) \<and> bu_revision b = of_nat (length (h k)) \<and> bu_ref b < ag_next ag"
  unfolding aggregate_ok_def buckets_ok_def by blast

lemma stored_okD:
  "aggregate_ok read_minute h ag \<Longrightarrow> map_of (ag_buckets ag) k = None \<Longrightarrow> h k \<noteq> [] \<Longrightarrow>
     read_minute (ag_db ag) k = Some (minute_record_of k (h k))"
  unfolding aggregate_ok_def stored_ok_def by blast

lemma aggregate_ok_start: "aggregate_ok read_minute (\<lambda>k. []) (ag_start db)"
  by (simp add: aggregate_ok_def buckets_ok_def flush_ok_def stored_ok_def ag_start_def)

text \<open>Accepting a report.\<close>

lemma accept_buckets:
  "map_of (ag_buckets (ag_accept i rep t ag)) k =
     (if k = (i, minute_of t)
      then (let entry = nullish (map_of (ag_buckets ag) k) \<lparr>bu_acc = acc_zero, bu_revision = 0, bu_ref = ag_next ag\<rparr>
            in Some (entry\<lparr>bu_acc := acc_add (Some t) rep (bu_acc entry), bu_revision := bu_revision entry + 1\<rparr>))
      else map_of (ag_buckets ag) k)"
  by (simp add: ag_accept_def Let_def update_conv')

lemma accept_fields [simp]:
  "ag_flush (ag_accept i rep t ag) = ag_flush ag" "ag_written (ag_accept i rep t ag) = ag_written ag"
  "ag_db (ag_accept i rep t ag) = ag_db ag"
  "ag_next (ag_accept i rep t ag) =
     (if map_of (ag_buckets ag) (i, minute_of t) = None then ag_next ag + 1 else ag_next ag)"
  by (simp_all add: ag_accept_def Let_def)

lemma buckets_ok_accept:
  assumes "buckets_ok h ag"
    and "map_of (ag_buckets ag) (i, minute_of t) \<noteq> None \<or> h (i, minute_of t) = []"
  shows "buckets_ok (log_op (AgAccept i rep t) h) (ag_accept i rep t ag)"
proof -
  have "distinct (map fst (ag_buckets (ag_accept i rep t ag)))"
    using assms(1) by (simp add: buckets_ok_def ag_accept_def Let_def distinct_update)
  moreover have zero: "minute_acc [] = acc_zero" by (simp add: minute_acc_def)
  moreover have old: "h k \<noteq> [] \<and> bu_acc b = minute_acc (h k) \<and> bu_revision b = of_nat (length (h k)) \<and>
      bu_ref b < ag_next ag" if "map_of (ag_buckets ag) k = Some b" for k b
    using assms(1) that unfolding buckets_ok_def by blast
  moreover have "log_op (AgAccept i rep t) h k \<noteq> [] \<and> bu_acc b = minute_acc (log_op (AgAccept i rep t) h k) \<and>
      bu_revision b = of_nat (length (log_op (AgAccept i rep t) h k)) \<and> bu_ref b < ag_next (ag_accept i rep t ag)"
    if b: "map_of (ag_buckets (ag_accept i rep t ag)) k = Some b" for k b
  proof (cases "k = (i, minute_of t)")
    case True
    show ?thesis
    proof (cases "map_of (ag_buckets ag) k")
      case None
      then have "h k = []" using assms(2) True by simp
      then show ?thesis using b None True
        by (auto simp: accept_buckets Let_def minute_acc_snoc [of "[]", simplified] zero)
    next
      case (Some b0)
      from old [OF this] show ?thesis
        using b Some True by (auto simp: accept_buckets Let_def minute_acc_snoc)
    qed
  next
    case False
    then have "map_of (ag_buckets ag) k = Some b" using b by (simp add: accept_buckets)
    from old [OF this] show ?thesis using False by simp
  qed
  ultimately show ?thesis unfolding buckets_ok_def by blast
qed

lemma candidate_ok_accept:
  assumes "buckets_ok h ag" and "candidate_ok h ag c"
  shows "candidate_ok (log_op (AgAccept i rep t) h) (ag_accept i rep t ag) c"
proof (cases "ca_key c = (i, minute_of t)")
  case True
  show ?thesis
  proof (cases "map_of (ag_buckets ag) (ca_key c)")
    case None
    then show ?thesis
      using assms(2) True by (auto simp: candidate_ok_def accept_buckets Let_def)
  next
    case (Some b)
    show ?thesis
    proof (cases "bu_ref b = ca_ref c")
      case same: True
      then obtain n where "n \<le> length (h (ca_key c))" "ca_revision c = of_nat n"
          "ca_record c = minute_record_of (ca_key c) (take n (h (ca_key c)))"
        using assms(2) Some by (auto simp: candidate_ok_def)
      then have "\<exists>n \<le> Suc (length (h (ca_key c))). ca_revision c = of_nat n \<and>
          ca_record c = minute_record_of (ca_key c) (take n (h (ca_key c) @ [(rep, t)]))"
        by (intro exI [of _ n]) simp
      then show ?thesis
        using assms(2) True Some by (simp add: candidate_ok_def accept_buckets Let_def)
    qed (use assms(2) True Some in \<open>simp add: candidate_ok_def accept_buckets Let_def\<close>)
  qed
next
  case False
  then show ?thesis using assms(2) by (auto simp: candidate_ok_def accept_buckets split: option.splits)
qed

lemma aggregate_ok_accept:
  assumes "aggregate_ok read_minute h ag"
    and "map_of (ag_buckets ag) (i, minute_of t) \<noteq> None \<or> h (i, minute_of t) = []"
  shows "aggregate_ok read_minute (log_op (AgAccept i rep t) h) (ag_accept i rep t ag)"
proof -
  have "stored_ok read_minute (log_op (AgAccept i rep t) h) (ag_accept i rep t ag)"
    using assms(1) unfolding aggregate_ok_def stored_ok_def accept_buckets
    by (auto simp: Let_def split: if_splits)
  then show ?thesis
    using assms buckets_ok_accept [of h ag i t rep] candidate_ok_accept [of h ag _ i rep t]
    unfolding aggregate_ok_def flush_ok_def accept_fields by blast
qed

text \<open>Removing a server.\<close>

lemma remove_buckets:
  "map_of (ag_buckets (ag_remove i ag)) k = (if fst k = i then None else map_of (ag_buckets ag) k)"
proof -
  have "map_of (filter (\<lambda>(key, b). fst key \<noteq> i) bs) k = (if fst k = i then None else map_of bs k)"
    for bs :: "(bucket_key \<times> bucket) list"
    by (induction bs) auto
  then show ?thesis by (simp add: ag_remove_def)
qed

lemma aggregate_ok_remove:
  assumes "aggregate_ok read_minute h ag"
  shows "aggregate_ok read_minute (log_op (AgRemove i) h) (ag_remove i ag)"
proof -
  have "distinct (map fst (ag_buckets (ag_remove i ag)))"
    using assms by (simp add: aggregate_ok_def buckets_ok_def ag_remove_def distinct_map_filter)
  moreover have "ag_flush (ag_remove i ag) = ag_flush ag" "ag_written (ag_remove i ag) = ag_written ag"
      "ag_db (ag_remove i ag) = ag_db ag" "ag_next (ag_remove i ag) = ag_next ag"
    by (simp_all add: ag_remove_def)
  moreover have "candidate_ok (log_op (AgRemove i) h) (ag_remove i ag) c" if "candidate_ok h ag c" for c
    using that \<open>ag_next (ag_remove i ag) = ag_next ag\<close>
    by (auto simp: candidate_ok_def remove_buckets split: option.splits)
  ultimately show ?thesis
    using assms unfolding aggregate_ok_def buckets_ok_def flush_ok_def stored_ok_def remove_buckets
    by (auto split: if_splits)
qed

text \<open>The first step of a flush.\<close>

lemma candidate_of_key [simp]: "ca_key (candidate_of kb) = fst kb"
  by (simp add: candidate_of_def)

lemma aggregate_ok_begin:
  assumes "aggregate_ok read_minute h ag"
  shows "aggregate_ok read_minute h (flush_begin boundary ag)"
proof (cases "ag_flush ag = []")
  case True
  let ?ag = "flush_begin boundary ag"
  let ?due = "filter (\<lambda>(key, b). snd key * 1000000000 < boundary) (ag_buckets ag)"
  have dist: "distinct (map fst (ag_buckets ag))" using assms by (simp add: aggregate_ok_def buckets_ok_def)
  have fields: "ag_buckets ?ag = ag_buckets ag" "ag_next ?ag = ag_next ag" "ag_db ?ag = ag_db ag"
      "ag_written ?ag = None" "ag_flush ?ag = map candidate_of (sort_key fst ?due)"
    using True by (simp_all add: flush_begin_def)
  have keys: "map ca_key (map candidate_of xs) = map fst xs" for xs by (induction xs) simp_all
  have "distinct (map fst ?due)" using dist by (rule distinct_map_filter)
  then have "distinct (map ca_key (ag_flush ?ag))"
    unfolding fields keys by (simp add: distinct_map)
  moreover have "candidate_ok h ?ag c" if "c \<in> set (ag_flush ?ag)" for c
  proof -
    have "c \<in> candidate_of ` set (sort_key fst ?due)" using that by (simp only: fields set_map)
    then obtain x where "c = candidate_of x" "x \<in> set (sort_key fst ?due)" by (elim imageE)
    moreover obtain k b where "x = (k, b)" by (cases x)
    ultimately have kb: "c = candidate_of (k, b)" "(k, b) \<in> set (ag_buckets ag)" by simp_all
    then have m: "map_of (ag_buckets ag) k = Some b" using dist by simp
    from bucket_okD [OF assms this] show ?thesis
      using m by (auto simp: kb(1) candidate_ok_def candidate_of_def fields acc_finish_def minute_record_of_def
          intro!: exI [of _ "length (h k)"])
  qed
  ultimately show ?thesis
    using assms fields by (simp add: aggregate_ok_def buckets_ok_def flush_ok_def stored_ok_def)
qed (use assms in \<open>simp add: flush_begin_def\<close>)

section \<open>The writer\<close>

text \<open>
  What the aggregator needs of its writer: a write that succeeds makes the record the one that is
  read for its server and minute, and changes no other.
\<close>

locale minute_writer =
  fixes upsert :: "'f \<Rightarrow> g_minute \<Rightarrow> 'd \<Rightarrow> 'd option"
    and read_minute :: "'d \<Rightarrow> bucket_key \<Rightarrow> g_minute option"
  assumes read_upsert: "upsert f r d = Some d' \<Longrightarrow>
    read_minute d' k = (if k = (gm_serverId r, gm_minuteUnix r) then Some r else read_minute d k)"
begin

lemma aggregate_ok_write:
  assumes "aggregate_ok read_minute h ag"
  shows "aggregate_ok read_minute h (flush_write (upsert f) ag)"
proof (cases "ag_flush ag")
  case (Cons c cs)
  show ?thesis
  proof (cases "ag_written ag = None")
    case True
    note fl = Cons this
    have c: "candidate_ok h ag c" using assms fl by (simp add: aggregate_ok_def flush_ok_def)
    show ?thesis
    proof (cases "upsert f (ca_record c) (ag_db ag)")
      case None
      then show ?thesis
        using assms fl by (simp add: flush_write_def aggregate_ok_def buckets_ok_def flush_ok_def stored_ok_def
            candidate_ok_def)
    next
      case (Some db)
      have rd: "read_minute db k = (if k = ca_key c then Some (ca_record c) else read_minute (ag_db ag) k)" for k
        using read_upsert [OF Some, of k] c by (simp add: candidate_ok_def)
      have "map_of (ag_buckets ag) (ca_key c) = None \<Longrightarrow> h (ca_key c) = []"
        using c by (simp add: candidate_ok_def)
      moreover have "read_minute (ag_db ag) k = Some (minute_record_of k (h k))"
        if "map_of (ag_buckets ag) k = None" "h k \<noteq> []" for k
        using assms that by (rule stored_okD)
      ultimately have "read_minute db k = Some (minute_record_of k (h k))"
        if "map_of (ag_buckets ag) k = None" "h k \<noteq> []" for k
        using that by (cases "k = ca_key c") (auto simp: rd)
      then show ?thesis
        using assms fl Some by (auto simp: flush_write_def aggregate_ok_def buckets_ok_def flush_ok_def stored_ok_def
            candidate_ok_def rd)
    qed
  qed (use assms Cons in \<open>auto simp: flush_write_def split: option.splits\<close>)
qed (use assms in \<open>simp add: flush_write_def\<close>)

end

text \<open>Settling a candidate.\<close>

lemma settled_revision:
  assumes "n \<le> length xs" and "length xs < 2 ^ 64" and "(of_nat (length xs) :: u64) = of_nat n"
  shows "n = length xs"
proof -
  have "take_bit 64 (length xs) = take_bit 64 n" using assms(3) by (simp add: word_of_nat_eq_iff)
  then show ?thesis using assms(1,2) by (simp add: take_bit_nat_eq_self)
qed

lemma aggregate_ok_settle:
  assumes "aggregate_ok read_minute h ag" and "\<And>k. length (h k) < 2 ^ 64"
  shows "aggregate_ok read_minute h (flush_settle ag)"
proof (cases "ag_flush ag")
  case (Cons c cs)
  show ?thesis
  proof (cases "ag_written ag")
    case (Some ok)
    have c: "candidate_ok h ag c" and cs: "ca_key c \<notin> ca_key ` set cs" "distinct (map ca_key cs)"
        "\<forall>c' \<in> set cs. candidate_ok h ag c'"
      using assms(1) Cons by (simp_all add: aggregate_ok_def flush_ok_def)
    show ?thesis
    proof (cases "\<exists>b. map_of (ag_buckets ag) (ca_key c) = Some b \<and> bu_ref b = ca_ref c \<and> ok \<and>
        bu_revision b = ca_revision c")
      case True
      then obtain b where b: "map_of (ag_buckets ag) (ca_key c) = Some b" "bu_ref b = ca_ref c" "ok"
          "bu_revision b = ca_revision c" by blast
      let ?ag = "flush_settle ag"
      have ag: "ag_buckets ?ag = AList.delete (ca_key c) (ag_buckets ag)" "ag_flush ?ag = cs"
          "ag_written ?ag = None" "ag_next ?ag = ag_next ag" "ag_db ?ag = ag_db ag"
        using Cons Some b by (simp_all add: flush_settle_def)
      have bk: "map_of (ag_buckets ?ag) k = (if k = ca_key c then None else map_of (ag_buckets ag) k)" for k
        by (simp add: ag delete_conv')
      obtain n where n: "n \<le> length (h (ca_key c))" "ca_revision c = of_nat n"
          "ca_record c = minute_record_of (ca_key c) (take n (h (ca_key c)))"
        using c b by (auto simp: candidate_ok_def)
      have "bu_revision b = of_nat (length (h (ca_key c)))"
        using bucket_okD [OF assms(1) b(1)] by simp
      then have "n = length (h (ca_key c))"
        using n(1,2) assms(2) b(4) settled_revision by metis
      then have "ca_record c = minute_record_of (ca_key c) (h (ca_key c))" using n by simp
      moreover have "read_minute (ag_db ag) (ca_key c) = Some (ca_record c)"
        using assms(1) Cons Some b(3) by (simp add: aggregate_ok_def stored_ok_def)
      ultimately have "read_minute (ag_db ag) k = Some (minute_record_of k (h k))"
        if "map_of (ag_buckets ?ag) k = None" "h k \<noteq> []" for k
        using that stored_okD [OF assms(1), of k] by (cases "k = ca_key c") (simp_all add: bk)
      then have "stored_ok read_minute h ?ag"
        unfolding stored_ok_def ag(3,5) by simp
      moreover have "candidate_ok h ?ag c'" if "c' \<in> set cs" for c'
      proof -
        have "ca_key c' \<noteq> ca_key c" using that cs(1) by (metis imageI)
        then show ?thesis using cs(3) that unfolding candidate_ok_def bk ag(4) by simp
      qed
      then have "flush_ok h ?ag" using cs(2) unfolding flush_ok_def ag(2) by simp
      moreover have "distinct (map fst (ag_buckets ?ag))"
        using assms(1) unfolding ag(1) by (simp add: aggregate_ok_def buckets_ok_def distinct_delete)
      then have "buckets_ok h ?ag"
        using bucket_okD [OF assms(1)] unfolding buckets_ok_def bk ag(4) by (simp del: map_of_eq_Some_iff)
      ultimately show ?thesis using \<open>flush_ok h ?ag\<close> \<open>buckets_ok h ?ag\<close> by (simp add: aggregate_ok_def)
    next
      case False
      then have "flush_settle ag =
          ag\<lparr>ag_flush := cs, ag_written := None, ag_failed := ag_failed (flush_settle ag)\<rparr>"
        using Cons Some by (auto simp: flush_settle_def Let_def split: option.splits)
      then obtain failed where eq: "flush_settle ag = ag\<lparr>ag_flush := cs, ag_written := None, ag_failed := failed\<rparr>"
        by blast
      show ?thesis
        unfolding eq using assms(1) cs
        by (simp add: aggregate_ok_def buckets_ok_def flush_ok_def stored_ok_def candidate_ok_def)
    qed
  qed (use assms Cons in \<open>simp add: flush_settle_def\<close>)
qed (use assms in \<open>simp add: flush_settle_def\<close>)

context minute_writer
begin

lemma aggregate_ok_step:
  assumes "aggregate_ok read_minute h ag" and "in_order upsert (op # ops) ag h" and "\<And>k. length (h k) < 2 ^ 64"
  shows "aggregate_ok read_minute (log_op op h) (ag_step upsert op ag)"
proof (cases op)
  case (AgAccept i rep t)
  then show ?thesis using assms(1,2) aggregate_ok_accept [of read_minute h ag i t rep] by simp
next
  case (AgRemove i)
  then show ?thesis using assms(1) aggregate_ok_remove [of read_minute h ag i] by simp
next
  case AgSettle
  then show ?thesis using assms(1,3) by (simp add: aggregate_ok_settle)
qed (use assms(1) in \<open>simp_all add: aggregate_ok_begin aggregate_ok_write\<close>)

lemma log_op_length: "length (log_op op h k) \<le> Suc (length (h k))"
  by (cases op) simp_all

lemma aggregate_ok_run:
  "aggregate_ok read_minute h ag \<Longrightarrow> in_order upsert ops ag h \<Longrightarrow>
   (\<And>k. length (h k) + length ops < 2 ^ 64) \<Longrightarrow>
   aggregate_ok read_minute (fold log_op ops h) (ag_run upsert ops ag)"
proof (induction ops arbitrary: h ag)
  case (Cons op ops)
  have "length (h k) < 2 ^ 64" for k using Cons.prems(3) [of k] by linarith
  then have "aggregate_ok read_minute (log_op op h) (ag_step upsert op ag)"
    using Cons.prems(1,2) by (intro aggregate_ok_step)
  moreover have "length (log_op op h k) + length ops < 2 ^ 64" for k
    using Cons.prems(3) [of k] log_op_length [of op h k] by simp
  ultimately show ?case using Cons.IH [of "log_op op h" "ag_step upsert op ag"] Cons.prems(2)
    by (simp add: ag_run_def)
qed (simp add: ag_run_def)

text \<open>Every accepted report is in its bucket, or in the record that is read for its minute.\<close>

lemma no_report_lost:
  assumes "in_order upsert ops (ag_start db) (\<lambda>k. [])" and "length ops < 2 ^ 64"
    and "accepted_reports ops k \<noteq> []"
  shows "(case map_of (ag_buckets (ag_run upsert ops (ag_start db))) k of
      Some b \<Rightarrow> bu_acc b = minute_acc (accepted_reports ops k)
    | None \<Rightarrow> read_minute (ag_db (ag_run upsert ops (ag_start db))) k =
        Some (minute_record_of k (accepted_reports ops k)))"
proof -
  have "aggregate_ok read_minute (accepted_reports ops) (ag_run upsert ops (ag_start db))"
    unfolding accepted_reports_def using assms(1,2) by (intro aggregate_ok_run aggregate_ok_start) simp_all
  from bucket_okD [OF this] stored_okD [OF this] show ?thesis
    using assms(3) by (simp split: option.split)
qed

end

section \<open>The store is a writer\<close>

definition read_row :: "minute_rows \<Rightarrow> bucket_key \<Rightarrow> g_minute option" where
  "read_row rows k =
     (case map_of rows k of
        Some (Some p) \<Rightarrow> Some \<lparr>gm_serverId = fst k, gm_minuteUnix = snd k, gm_payload = p\<rparr>
      | _ \<Rightarrow> None)"

interpretation store_writer: minute_writer UpsertMinute read_row
proof
  fix f r d d' k
  assume "UpsertMinute f r d = Some d'"
  then have "d' = AList.update (gm_serverId r, gm_minuteUnix r) (Some (gm_payload r)) d"
    by (simp add: UpsertMinute_def split: if_splits)
  then show "read_row d' k = (if k = (gm_serverId r, gm_minuteUnix r) then Some r else read_row d k)"
    by (cases k) (auto simp: read_row_def update_conv')
qed

end
