(* ===== verification/HistoryServerProps.thy ===== *)
theory HistoryServerProps
  imports HistoryAggregate LiveServerProps
begin

text \<open>
  What the history part of the server guarantees: the numbers of a minute's record, that no report
  is lost between the aggregator and the store, and that the paged query is the whole query.
\<close>

section \<open>The numbers of a minute\<close>

text \<open>\<open>c\<close> values between 0 and the integer bound \<open>B\<close> have been added.\<close>

definition numeric_ok :: "int \<Rightarrow> nat \<Rightarrow> numeric \<Rightarrow> bool" where
  "numeric_ok B c n \<longleftrightarrow>
     n_count n = of_nat c \<and>
     (\<exists>s. n_sum n = Fin s \<and> 0 \<le> s \<and> s \<le> of_int (B * int c)) \<and>
     (\<exists>m. n_max n = Fin m \<and> 0 \<le> m \<and> m \<le> of_int B)"

lemma fl_nonneg_le:
  assumes "0 \<le> x" and "x \<le> of_int b" and "\<bar>b\<bar> \<le> 2 ^ 53"
  shows "\<exists>y. fl x = Fin y \<and> 0 \<le> y \<and> y \<le> of_int b"
proof -
  have "of_int 0 \<le> x" using assms(1) by simp
  from fl_Fin_range [OF this assms(2)] binary64.in_int_range [OF this assms(2)] assms(3)
  show ?thesis by simp
qed

lemma numeric_ok_add:
  assumes "numeric_ok B c n" and "0 \<le> v" "v \<le> of_int B" and "0 \<le> B" and "B * int (Suc c) \<le> 2 ^ 53"
  shows "numeric_ok B (Suc c) (numeric_add (Fin v) n)"
proof -
  obtain s where s: "n_sum n = Fin s" "0 \<le> s" "s \<le> of_int (B * int c)"
    using assms(1) by (auto simp: numeric_ok_def)
  have "s + v \<le> of_int (B * int (Suc c))" using s(3) assms(3) by (simp add: algebra_simps)
  moreover have "0 \<le> B * int (Suc c)" using assms(4) by simp
  ultimately obtain y where "fl (s + v) = Fin y" "0 \<le> y" "y \<le> of_int (B * int (Suc c))"
    using fl_nonneg_le [of "s + v" "B * int (Suc c)"] s(2) assms(2,5) by auto
  then show ?thesis
    using assms(1,2,3) s(1) by (auto simp: numeric_ok_def numeric_add_def Let_def add.commute)
qed

lemma numeric_ok_zero: "0 \<le> B \<Longrightarrow> numeric_ok B 0 numeric_zero"
  by (simp add: numeric_ok_def numeric_zero_def)

lemma numeric_ok_pair:
  assumes "numeric_ok B c n" and "0 \<le> B" and "0 < c" and "c < 2 ^ 53" and "B * int c \<le> 2 ^ 53" and "B \<le> 2 ^ 53"
  shows "(\<exists>a. average (numeric_pair n) = Fin a \<and> 0 \<le> a \<and> a \<le> of_int B) \<and>
    (\<exists>m. maximum (numeric_pair n) = Fin m \<and> 0 \<le> m \<and> m \<le> of_int B)"
proof -
  obtain s where s: "n_sum n = Fin s" "0 \<le> s" "s \<le> of_int (B * int c)"
    using assms(1) by (auto simp: numeric_ok_def)
  have count: "n_count n = of_nat c" using assms(1) by (simp add: numeric_ok_def)
  have u: "uint (of_nat c :: u64) = int c"
    using assms(4) by (simp add: unsigned_of_nat take_bit_nat_eq_self)
  then have c0: "(of_nat c :: u64) \<noteq> 0" using assms(3) by force
  have f: "float_of (of_nat c) = Fin (of_nat c)"
    using float_of_exact [of "of_nat c :: u64"] u assms(4) by simp
  have "s / of_nat c \<le> of_int B" using s(3) assms(3) by (simp add: field_simps)
  then obtain a where "fl (s / of_nat c) = Fin a" "0 \<le> a" "a \<le> of_int B"
    using fl_nonneg_le [of "s / of_nat c" B] s(2) assms(2,6) by auto
  then have "average (numeric_pair n) = Fin a \<and> 0 \<le> a \<and> a \<le> of_int B"
    using c0 f assms(3) by (simp add: numeric_pair_def count s(1))
  moreover have "maximum (numeric_pair n) = n_max n" using c0 by (simp add: numeric_pair_def count)
  ultimately show ?thesis using assms(1) by (auto simp: numeric_ok_def)
qed

lemma numeric_adds_ok:
  assumes "\<forall>v \<in> set vs. \<exists>x. v = Fin x \<and> 0 \<le> x \<and> x \<le> of_int B" and "0 \<le> B"
    and "numeric_ok B c n" and "B * int (c + length vs) \<le> 2 ^ 53"
  shows "numeric_ok B (c + length vs) (fold numeric_add vs n)"
  using assms
proof (induction vs arbitrary: c n)
  case (Cons v vs)
  obtain x where x: "v = Fin x" "0 \<le> x" "x \<le> of_int B" using Cons.prems(1) by auto
  have "B * int (Suc c) \<le> B * int (c + length (v # vs))" using assms(2) by (intro mult_left_mono) simp_all
  also have "\<dots> \<le> 2 ^ 53" by (rule Cons.prems(4))
  finally have "numeric_ok B (Suc c) (numeric_add (Fin x) n)"
    using Cons.prems(3) x assms(2) by (intro numeric_ok_add) simp_all
  then show ?case using Cons.IH [of "Suc c"] Cons.prems(1,4) assms(2) by (simp add: x(1))
qed simp

text \<open>The maximum is the greatest of the values: the count tells the first one from the others.\<close>

lemma numeric_max:
  assumes "n_count n = of_nat c" and "0 < c" and "c + length xs < 2 ^ 64" and "n_max n = Fin m"
  shows "n_max (fold numeric_add (map Fin xs) n) = Fin (foldl max m xs)"
  using assms
proof (induction xs arbitrary: c n m)
  case (Cons x xs)
  have "(of_nat (Suc c) :: u64) \<noteq> 1"
  proof
    assume "(of_nat (Suc c) :: u64) = 1"
    then have "(of_nat (Suc c) :: u64) = of_nat 1" by simp
    then have "take_bit 64 (Suc c) = take_bit 64 1" by (subst (asm) word_of_nat_eq_iff) simp
    then show False using Cons.prems(2,3) by (simp add: take_bit_nat_eq_self)
  qed
  then have "n_max (numeric_add (Fin x) n) = Fin (max m x)" "n_count (numeric_add (Fin x) n) = of_nat (Suc c)"
    using Cons.prems(1,4) by (auto simp: numeric_add_def Let_def max_def add.commute)
  then show ?case using Cons.IH [of "numeric_add (Fin x) n" "Suc c" "max m x"] Cons.prems(3) by simp
qed simp

text \<open>The fields of the accumulator that each report adds one value to.\<close>

lemma acc_add_fields [simp]:
  "ac_cpuUsage (acc_add r rep a) = numeric_add (g_usagePercent (g_cpu rep)) (ac_cpuUsage a)"
  "ac_memoryUsage (acc_add r rep a) =
     numeric_add (usage_percent (g_memUsed (g_memory rep)) (g_memTotal (g_memory rep))) (ac_memoryUsage a)"
  "ac_swapUsage (acc_add r rep a) =
     numeric_add (usage_percent (g_swapUsed (g_memory rep)) (g_swapTotal (g_memory rep))) (ac_swapUsage a)"
  "ac_disks (acc_add r rep a) = fold (\<lambda>(k, disk). acc_disk r disk) (report_disks rep) (ac_disks a)"
  by (simp_all add: acc_add_def Let_def)

text \<open>The disks: one entry per mount point, each the accumulation of at most one value per report.\<close>

definition disks_ok :: "nat \<Rightarrow> (string \<times> disk_acc) list \<Rightarrow> bool" where
  "disks_ok c ds \<longleftrightarrow>
     distinct (map fst ds) \<and>
     (\<forall>k e. map_of ds k = Some e \<longrightarrow> (\<exists>j. 0 < j \<and> j \<le> c \<and> numeric_ok 100 j (da_usage e)))"

lemma report_disks_keys:
  "distinct (map fst (report_disks rep))"
  "map_of (report_disks rep) k = Some d \<Longrightarrow> d \<in> set (disks_list rep) \<and> g_mountpoint d = k"
proof -
  have "distinct (map fst m) \<Longrightarrow> distinct (map fst (foldl (\<lambda>m d. AList.update (g_mountpoint d) d m) m ds))"
    for m :: "(string \<times> g_disk) list" and ds
    by (induction ds arbitrary: m) (simp_all add: distinct_update)
  then show "distinct (map fst (report_disks rep))" by (simp add: report_disks_def)
  have "map_of (foldl (\<lambda>m d. AList.update (g_mountpoint d) d m) m ds) k = Some d \<Longrightarrow>
      map_of m k = Some d \<or> (d \<in> set ds \<and> g_mountpoint d = k)"
    for m :: "(string \<times> g_disk) list" and ds
  proof (induction ds arbitrary: m)
    case (Cons a ds)
    from Cons.IH [of "AList.update (g_mountpoint a) a m"] Cons.prems show ?case
      by (auto simp: update_conv' split: if_splits)
  qed simp
  then show "map_of (report_disks rep) k = Some d \<Longrightarrow> d \<in> set (disks_list rep) \<and> g_mountpoint d = k"
    by (fastforce simp: report_disks_def)
qed

lemma acc_disk_at:
  "map_of (acc_disk r disk ds) k =
     (if k = g_mountpoint disk
      then (let e = nullish (map_of ds k) \<lparr>da_usage = numeric_zero, da_total = 0, da_used = 0, da_last = None\<rparr>;
                u = numeric_add (usage_percent (g_diskUsed disk) (g_diskTotal disk)) (da_usage e)
            in Some (if newer r (da_last e)
                     then e\<lparr>da_usage := u, da_total := g_diskTotal disk, da_used := g_diskUsed disk, da_last := r\<rparr>
                     else e\<lparr>da_usage := u\<rparr>))
      else map_of ds k)"
  by (simp add: acc_disk_def Let_def update_conv')

lemma distinct_acc_disk: "distinct (map fst ds) \<Longrightarrow> distinct (map fst (acc_disk r disk ds))"
  by (simp add: acc_disk_def Let_def distinct_update)

lemma acc_disks_distinct:
  "distinct (map fst ds) \<Longrightarrow> distinct (map fst (fold (\<lambda>(k, disk). acc_disk r disk) ps ds))"
  by (induction ps arbitrary: ds) (auto simp: distinct_acc_disk split: prod.splits)

lemma acc_disks_at:
  assumes "distinct (map fst ps)" and "\<forall>(k, d) \<in> set ps. g_mountpoint d = k"
  shows "map_of (fold (\<lambda>(k, disk). acc_disk r disk) ps ds) k =
    (case map_of ps k of None \<Rightarrow> map_of ds k | Some d \<Rightarrow> map_of (acc_disk r d ds) k)"
  using assms
proof (induction ps arbitrary: ds)
  case (Cons p ps)
  obtain k' d' where p: "p = (k', d')" by (cases p)
  have m: "g_mountpoint d' = k'" using Cons.prems(2) p by auto
  have IH: "map_of (fold (\<lambda>(k, disk). acc_disk r disk) ps (acc_disk r d' ds)) k =
      (case map_of ps k of None \<Rightarrow> map_of (acc_disk r d' ds) k
       | Some d \<Rightarrow> map_of (acc_disk r d (acc_disk r d' ds)) k)"
    using Cons.prems by (intro Cons.IH) auto
  show ?case
  proof (cases "k = k'")
    case True
    then have "map_of ps k = None" using Cons.prems(1) p by (simp add: map_of_eq_None_iff)
    then show ?thesis using IH p True by simp
  next
    case False
    show ?thesis
    proof (cases "map_of ps k")
      case None
      then show ?thesis using IH p False m by (simp add: acc_disk_at)
    next
      case (Some d)
      then have "g_mountpoint d = k" using Cons.prems(2) by (auto dest: map_of_SomeD)
      then show ?thesis using IH p False m Some by (simp add: acc_disk_at)
    qed
  qed
qed simp

lemma usage_value_range:
  assumes "used \<le> tot"
  obtains x where "usage_percent used tot = Fin x" and "0 \<le> x" and "x \<le> of_int 100"
  using usage_percent_range [OF assms] by auto

lemma disks_ok_add:
  assumes "disks_ok c (ac_disks a)" and "validateReport rep" and "100 * int (Suc c) \<le> 2 ^ 53"
  shows "disks_ok (Suc c) (ac_disks (acc_add r rep a))"
proof -
  let ?ps = "report_disks rep"
  have ps: "distinct (map fst ?ps)" "\<forall>(k, d) \<in> set ?ps. g_mountpoint d = k"
    using report_disks_keys(1) [of rep] report_disks_keys(2) [of rep] by auto
  have "\<exists>j. 0 < j \<and> j \<le> Suc c \<and> numeric_ok 100 j (da_usage e)"
    if e: "map_of (fold (\<lambda>(k, disk). acc_disk r disk) ?ps (ac_disks a)) k = Some e" for k e
  proof (cases "map_of ?ps k")
    case None
    then have "map_of (ac_disks a) k = Some e" using e by (simp add: acc_disks_at [OF ps])
    then show ?thesis using assms(1) unfolding disks_ok_def by (meson le_SucI)
  next
    case (Some d)
    then have d: "d \<in> set (disks_list rep)" "g_mountpoint d = k" using report_disks_keys(2) by blast+
    obtain x where x: "usage_percent (g_diskUsed d) (g_diskTotal d) = Fin x" "0 \<le> x" "x \<le> of_int 100"
      by (rule usage_value_range [OF validateReport_disk [OF assms(2) d(1)]])
    define e0 where "e0 = nullish (map_of (ac_disks a) k)
      \<lparr>da_usage = numeric_zero, da_total = 0, da_used = 0, da_last = None\<rparr>"
    have "\<exists>j. j \<le> c \<and> numeric_ok 100 j (da_usage e0)"
    proof (cases "map_of (ac_disks a) k")
      case None
      then show ?thesis using numeric_ok_zero [of 100] by (auto simp: e0_def)
    next
      case (Some e1)
      then show ?thesis using assms(1) unfolding disks_ok_def e0_def by (metis nullish_simps(2))
    qed
    then obtain j where j: "j \<le> c" "numeric_ok 100 j (da_usage e0)" by blast
    then have "numeric_ok 100 (Suc j) (numeric_add (Fin x) (da_usage e0))"
      using x assms(3) by (intro numeric_ok_add) simp_all
    moreover have "da_usage e = numeric_add (Fin x) (da_usage e0)"
      using e Some d(2) x(1)
      by (auto simp: acc_disks_at [OF ps] acc_disk_at Let_def e0_def [symmetric] split: if_splits)
    ultimately show ?thesis using j(1) by (intro exI [of _ "Suc j"]) simp
  qed
  moreover have "distinct (map fst (ac_disks (acc_add r rep a)))"
    using assms(1) by (simp add: disks_ok_def acc_disks_distinct)
  ultimately show ?thesis by (simp add: disks_ok_def del: map_of_eq_Some_iff)
qed

lemma disks_ok_all:
  assumes "\<forall>(rep, t) \<in> set rts. validateReport rep" and "disks_ok c (ac_disks a)"
    and "100 * int (c + length rts) \<le> 2 ^ 53"
  shows "disks_ok (c + length rts) (ac_disks (fold (\<lambda>(rep, t). acc_add (Some t) rep) rts a))"
  using assms
proof (induction rts arbitrary: c a)
  case (Cons rt rts)
  obtain rep t where rt: "rt = (rep, t)" by (cases rt)
  have "disks_ok (Suc c) (ac_disks (acc_add (Some t) rep a))"
    using Cons.prems rt by (intro disks_ok_add) auto
  moreover have "\<forall>(rep, t) \<in> set rts. validateReport rep" using Cons.prems(1) by simp
  ultimately show ?case using Cons.IH [of "Suc c" "acc_add (Some t) rep a"] Cons.prems(3) by (simp add: rt)
qed simp

definition percent_pair :: "pair \<Rightarrow> bool" where
  "percent_pair p \<longleftrightarrow>
     (\<exists>a m. p = \<lparr>average = Fin a, maximum = Fin m\<rparr> \<and> 0 \<le> a \<and> a \<le> 100 \<and> 0 \<le> m \<and> m \<le> 100)"

lemma percent_pairI:
  assumes "numeric_ok 100 c n" and "0 < c" and "100 * int c \<le> 2 ^ 53"
  shows "percent_pair (numeric_pair n)"
proof -
  have "c < 2 ^ 53" using assms(3) by simp
  then show ?thesis
    using numeric_ok_pair [OF assms(1) _ assms(2) _ assms(3)]
    by (cases "numeric_pair n") (auto simp: percent_pair_def)
qed

lemma percent_field:
  assumes "rts \<noteq> []" and "100 * int (length rts) \<le> 2 ^ 53"
    and "\<And>rep t. (rep, t) \<in> set rts \<Longrightarrow> \<exists>x. f rep = Fin x \<and> 0 \<le> x \<and> x \<le> 100"
  shows "percent_pair (numeric_pair (fold numeric_add (map (\<lambda>(rep, t). f rep) rts) numeric_zero))"
proof -
  have "\<forall>v \<in> set (map (\<lambda>(rep, t). f rep) rts). \<exists>x. v = Fin x \<and> 0 \<le> x \<and> x \<le> of_int 100"
    using assms(3) by auto
  from numeric_adds_ok [OF this _ numeric_ok_zero] assms(2)
  have "numeric_ok 100 (length rts) (fold numeric_add (map (\<lambda>(rep, t). f rep) rts) numeric_zero)" by simp
  then show ?thesis using assms(1,2) by (intro percent_pairI) simp_all
qed

section \<open>The query\<close>

text \<open>The rows that a query is for, in the order of their minutes.\<close>

definition query_rows :: "minute_rows \<Rightarrow> int \<Rightarrow> int \<Rightarrow> int \<Rightarrow> (int \<times> g_payload option) list" where
  "query_rows rows serverID fromU toU =
     sort_key fst (map (\<lambda>(key, p). (snd key, p))
       (filter (\<lambda>(key, p). fst key = serverID \<and> snd key \<ge> fromU \<and> snd key \<le> toU) rows))"

lemma distinct_sort_fst: "distinct (map fst xs) \<Longrightarrow> distinct (map fst (sort_key fst xs))"
  by (simp add: distinct_map)

lemma query_rows_sorted:
  assumes "distinct (map fst rows)"
  shows "sorted (map fst (query_rows rows i f t))" and "distinct (map fst (query_rows rows i f t))"
proof -
  show "sorted (map fst (query_rows rows i f t))" by (simp add: query_rows_def)
  have "distinct (map fst (map (\<lambda>(key, p). (snd key, p))
      (filter (\<lambda>(key, p). fst key = i \<and> snd key \<ge> f \<and> snd key \<le> t) rows)))"
    using assms by (induction rows) (auto simp: image_iff)
  then show "distinct (map fst (query_rows rows i f t))" unfolding query_rows_def by (rule distinct_sort_fst)
qed

lemma queryPage_first: "queryPage rows i f t None limit = take limit (query_rows rows i f t)"
  by (simp add: queryPage_def query_rows_def)

lemma queryPage_after:
  assumes "f \<le> a"
  shows "queryPage rows i f t (Some a) limit = take limit (filter (\<lambda>r. fst r > a) (query_rows rows i f t))"
proof -
  let ?m = "\<lambda>(key :: bucket_key, p :: g_payload option). (snd key, p)"
  have "filter (\<lambda>r. fst r > a) (map ?m (filter (\<lambda>(key, p). fst key = i \<and> snd key \<ge> f \<and> snd key \<le> t) rows)) =
      map ?m (filter (\<lambda>(key, p). fst key = i \<and> snd key > a \<and> snd key \<le> t) rows)"
    using assms by (induction rows) auto
  then show ?thesis by (simp add: queryPage_def query_rows_def filter_sort)
qed

lemma sorted_filter_drop:
  fixes L :: "(int \<times> 'a) list"
  assumes "sorted (map fst L)" and "distinct (map fst L)" and "n < length L"
  shows "filter (\<lambda>r. fst r > fst (L ! n)) L = drop (Suc n) L"
proof -
  have "\<forall>r \<in> set (take (Suc n) L). \<not> fst r > fst (L ! n)"
  proof
    fix r assume "r \<in> set (take (Suc n) L)"
    then obtain j where "j \<le> n" "r = L ! j" using assms(3) by (auto simp: in_set_conv_nth less_Suc_eq_le)
    then show "\<not> fst r > fst (L ! n)" using sorted_nth_mono [OF assms(1), of j n] assms(3) by simp
  qed
  moreover have "\<forall>r \<in> set (drop (Suc n) L). fst r > fst (L ! n)"
  proof
    fix r assume "r \<in> set (drop (Suc n) L)"
    then obtain j where "j < length (drop (Suc n) L)" "r = drop (Suc n) L ! j" by (metis in_set_conv_nth)
    then have j: "Suc n + j < length L" "r = L ! (Suc n + j)" by simp_all
    have "fst (L ! n) \<le> fst (L ! (Suc n + j))" using sorted_nth_mono [OF assms(1), of n "Suc n + j"] j(1) by simp
    moreover have "fst (L ! n) \<noteq> fst (L ! (Suc n + j))"
      using nth_eq_iff_index_eq [OF assms(2), of n "Suc n + j"] j(1) assms(3) by simp
    ultimately show "fst r > fst (L ! n)" using j(2) by simp
  qed
  ultimately have "filter (\<lambda>r. fst r > fst (L ! n)) (take (Suc n) L @ drop (Suc n) L) = drop (Suc n) L"
    unfolding filter_append by (simp add: filter_empty_conv del: append_take_drop_id)
  then show ?thesis by simp
qed

text \<open>The page after \<open>n\<close> rows have been read.\<close>

definition cursor :: "(int \<times> g_payload option) list \<Rightarrow> nat \<Rightarrow> int option" where
  "cursor L n = (if n = 0 then None else Some (fst (L ! (n - 1))))"

lemma queryPage_cursor:
  assumes "distinct (map fst rows)" and "n \<le> length (query_rows rows i f t)"
  shows "queryPage rows i f t (cursor (query_rows rows i f t) n) limit =
    take limit (drop n (query_rows rows i f t))"
proof (cases n)
  case 0
  then show ?thesis by (simp add: cursor_def queryPage_first)
next
  case (Suc m)
  let ?L = "query_rows rows i f t"
  have m: "m < length ?L" using assms(2) Suc by simp
  then have "?L ! m \<in> set ?L" by (rule nth_mem)
  then have "f \<le> fst (?L ! m)" by (auto simp: query_rows_def)
  then show ?thesis
    using sorted_filter_drop [OF query_rows_sorted [OF assms(1)] m] Suc by (simp add: cursor_def queryPage_after)
qed

lemma decode_page_append:
  "decode_page i (xs @ ys) =
     (case decode_page i xs of None \<Rightarrow> None | Some rs \<Rightarrow> map_option ((@) rs) (decode_page i ys))"
proof (induction xs)
  case Nil
  show ?case by (cases "decode_page i ys") simp_all
next
  case (Cons x xs)
  obtain m p where x: "x = (m, p)" by (cases x)
  show ?case
    by (cases p; cases "decode_page i xs"; cases "decode_page i ys") (simp_all add: x Cons.IH)
qed

text \<open>Page by page, the loop reads what one query over the whole range would, up to its cap.\<close>

lemma query_loop_rows:
  assumes "distinct (map fst rows)" and "\<And>k. \<not> fails k"
    and "decode_page i (take n (query_rows rows i f t)) = Some recs" and "n \<le> length (query_rows rows i f t)"
    and "n \<le> maxHistoryQueryRows"
  shows "query_loop fails rows i f t (cursor (query_rows rows i f t) n) k recs =
    decode_page i (take maxHistoryQueryRows (query_rows rows i f t))"
  using assms(3-5)
proof (induction "maxHistoryQueryRows - n" arbitrary: n k recs rule: less_induct)
  case less
  let ?L = "query_rows rows i f t"
  define lim where "lim = min historyQueryPageRows (maxHistoryQueryRows - n)"
  have n: "length recs = n" using decode_page_length [OF less.prems(1)] less.prems(2) by simp
  show ?case
  proof (cases "n < maxHistoryQueryRows")
    case False
    then have "n = maxHistoryQueryRows" using less.prems(3) by simp
    then show ?thesis using less.prems(1) n by (subst query_loop.simps) simp
  next
    case True
    define page where "page = take lim (drop n ?L)"
    have pg: "queryPage rows i f t (cursor ?L n) lim = page"
      using queryPage_cursor [OF assms(1) less.prems(2)] by (simp add: page_def)
    have lim0: "0 < lim" "n + lim \<le> maxHistoryQueryRows" using True by (simp_all add: lim_def historyQueryPageRows_def)
    have tk: "take (n + lim) ?L = take n ?L @ page" by (simp add: page_def take_add)
    have loop: "query_loop fails rows i f t (cursor ?L n) k recs =
        (case decode_page i page of
           None \<Rightarrow> None
         | Some rs \<Rightarrow>
             if length page < lim \<or> length (recs @ rs) = maxHistoryQueryRows then Some (recs @ rs)
             else query_loop fails rows i f t (Some (fst (last page))) (k + 1) (recs @ rs))"
      unfolding query_loop.simps [of fails rows i f t "cursor ?L n" k recs] Let_def n lim_def [symmetric] pg
      using True assms(2) by simp
    show ?thesis
    proof (cases "decode_page i page")
      case None
      have "take maxHistoryQueryRows ?L = take (n + lim) ?L @ drop (n + lim) (take maxHistoryQueryRows ?L)"
        using lim0(2) by (metis append_take_drop_id min.absorb2 min.commute take_take)
      moreover have "decode_page i (take (n + lim) ?L @ ys) = None" for ys
        by (simp add: tk decode_page_append less.prems(1) None)
      ultimately have "decode_page i (take maxHistoryQueryRows ?L) = None" by metis
      then show ?thesis using loop None by simp
    next
      case (Some rs)
      have dec: "decode_page i (take (n + lim) ?L) = Some (recs @ rs)"
        by (simp add: tk decode_page_append less.prems(1) Some)
      have len: "length rs = length page" by (rule decode_page_length [OF Some])
      show ?thesis
      proof (cases "length page < lim")
        case True
        then have "length ?L \<le> n + lim" by (simp add: page_def)
        then have "take maxHistoryQueryRows ?L = take (n + lim) ?L" using lim0(2) by simp
        then show ?thesis using loop Some dec True by simp
      next
        case False
        then have full: "length page = lim" by (simp add: page_def)
        then have nl: "n + lim \<le> length ?L" using lim0(1) less.prems(2) by (simp add: page_def min_def split: if_splits)
        show ?thesis
        proof (cases "n + lim = maxHistoryQueryRows")
          case True
          then show ?thesis using loop Some dec n len full by simp
        next
          case False
          have "last page = ?L ! (n + lim - 1)"
            using full lim0(1) nl by (subst last_conv_nth) (auto simp: page_def)
          then have cur: "Some (fst (last page)) = cursor ?L (n + lim)" using lim0(1) by (simp add: cursor_def)
          have "query_loop fails rows i f t (cursor ?L (n + lim)) (k + 1) (recs @ rs) =
              decode_page i (take maxHistoryQueryRows ?L)"
            using lim0 dec nl True by (intro less.hyps) simp_all
          then show ?thesis using loop Some n len full False cur by simp
        qed
      qed
    qed
  qed
qed

text \<open>Whole minutes in a span of 30 days are at most as many as the cap.\<close>

lemma aligned_count:
  fixes L :: "(int \<times> 'a) list"
  assumes "distinct (map fst L)" and "\<forall>r \<in> set L. 60 dvd fst r \<and> f \<le> fst r \<and> fst r \<le> t"
    and "60 dvd f" and "t - f \<le> maxHistoryQuerySeconds"
  shows "length L \<le> maxHistoryQueryRows"
proof -
  have "fst ` set L \<subseteq> (\<lambda>k. f + 60 * k) ` {0..43200}"
  proof
    fix m assume "m \<in> fst ` set L"
    then have m: "60 dvd m" "f \<le> m" "m \<le> t" using assms(2) by auto
    then obtain k where k: "m - f = 60 * k" using assms(3) by (meson dvdE dvd_diff)
    then have "0 \<le> k" "k \<le> 43200" using m assms(4) by (simp_all add: maxHistoryQuerySeconds_def)
    then show "m \<in> (\<lambda>k. f + 60 * k) ` {0..43200}" using k by (auto intro!: image_eqI [of _ _ k])
  qed
  then have "card (fst ` set L) \<le> card ((\<lambda>k. f + 60 * k) ` {0..43200})" by (intro card_mono) simp_all
  also have "\<dots> \<le> card {0..43200::int}" by (rule card_image_le) simp
  also have "card (fst ` set L) = length L" using distinct_card [OF assms(1)] by simp
  finally show ?thesis by (simp add: maxHistoryQueryRows_def)
qed

definition rows_ok :: "minute_rows \<Rightarrow> bool" where
  "rows_ok rows \<longleftrightarrow> distinct (map fst rows) \<and> (\<forall>(k, p) \<in> set rows. 60 dvd snd k \<and> p \<noteq> None)"

definition decode_row :: "int \<Rightarrow> int \<times> g_payload option \<Rightarrow> g_minute" where
  "decode_row i r = \<lparr>gm_serverId = i, gm_minuteUnix = fst r, gm_payload = the (snd r)\<rparr>"

lemma decode_page_all: "\<forall>r \<in> set page. snd r \<noteq> None \<Longrightarrow> decode_page i page = Some (map (decode_row i) page)"
  by (induction i page rule: decode_page.induct) (auto simp: decode_row_def)

lemma query_rows_member:
  "r \<in> set (query_rows rows i f t) \<longleftrightarrow> ((i, fst r), snd r) \<in> set rows \<and> f \<le> fst r \<and> fst r \<le> t"
proof
  assume "((i, fst r), snd r) \<in> set rows \<and> f \<le> fst r \<and> fst r \<le> t"
  then have "((i, fst r), snd r) \<in> set (filter (\<lambda>(key, p). fst key = i \<and> f \<le> snd key \<and> snd key \<le> t) rows)"
    by simp
  then have "(\<lambda>(key, p). (snd key, p)) ((i, fst r), snd r) \<in> (\<lambda>(key, p). (snd key, p)) `
      set (filter (\<lambda>(key, p). fst key = i \<and> f \<le> snd key \<and> snd key \<le> t) rows)" by (rule imageI)
  then show "r \<in> set (query_rows rows i f t)" by (simp add: query_rows_def del: set_filter)
qed (auto simp: query_rows_def)

lemma Query_rows:
  assumes "rows_ok rows" and "\<And>k. \<not> fails k" and "f \<le> t" and "t - f \<le> maxHistoryQuerySeconds" and "60 dvd f"
  shows "Query fails rows i f t = Inr (map (decode_row i) (query_rows rows i f t))"
proof -
  let ?L = "query_rows rows i f t"
  have dist: "distinct (map fst rows)" using assms(1) by (simp add: rows_ok_def)
  have row: "60 dvd fst r \<and> f \<le> fst r \<and> fst r \<le> t \<and> snd r \<noteq> None" if "r \<in> set ?L" for r
    using that assms(1) by (fastforce simp: query_rows_member rows_ok_def)
  have "length ?L \<le> maxHistoryQueryRows"
    using query_rows_sorted(2) [OF dist] row assms(4,5) by (intro aligned_count [of _ f t]) auto
  moreover have "decode_page i ?L = Some (map (decode_row i) ?L)" using row by (intro decode_page_all) simp
  ultimately have "query_loop fails rows i f t None 0 [] = Some (map (decode_row i) ?L)"
    using query_loop_rows [OF dist assms(2), where n = 0 and recs = "[]" and k = 0 and i = i and f = f and t = t]
    by (simp add: cursor_def)
  then show ?thesis using assms(3,4) by (simp add: Query_def)
qed

lemma foldl_max_Max: "foldl max y ys = Max (set (y # ys))" for y :: rat
proof (induction ys arbitrary: y)
  case (Cons a ys)
  then show ?case by (cases "ys = []") (simp_all add: max.assoc)
qed simp

section \<open>What a minute says of its reports\<close>

text \<open>
  The numbers of a pair, from the values in the order of the reports: their sum in this order, rounded
  at each step and divided by their count, and the greatest of them.
\<close>

definition summary_of :: "jsnum list \<Rightarrow> pair \<Rightarrow> bool" where
  "summary_of vs p \<longleftrightarrow>
     average p = js_div (foldl js_add (Fin 0) vs) (float_of (of_nat (length vs))) \<and>
     (\<exists>xs. vs = map Fin xs \<and> maximum p = Fin (Max (set xs)))"

lemma numeric_sums:
  "n_count (fold numeric_add vs n) = n_count n + of_nat (length vs)"
  "n_sum (fold numeric_add vs n) = foldl js_add (n_sum n) vs"
  by (induction vs arbitrary: n) (simp_all add: numeric_add_def Let_def)

lemma summary_of_values:
  assumes "vs \<noteq> []" and "\<forall>v \<in> set vs. is_finite v" and "length vs < 2 ^ 64"
  shows "summary_of vs (numeric_pair (fold numeric_add vs numeric_zero))"
proof -
  have "\<exists>x. v = Fin x" if "v \<in> set vs" for v
    using assms(2) that by (cases v) auto
  then have "\<exists>xs. vs = map Fin xs" by (auto simp: ex_map_conv)
  then obtain x xs where xs: "vs = map Fin (x # xs)" using assms(1) by (cases vs) auto
  have "n_max (fold numeric_add (map Fin xs) (numeric_add (Fin x) numeric_zero)) = Fin (foldl max x xs)"
    using assms(3) xs
    by (intro numeric_max [of _ 1]) (simp_all add: numeric_add_def numeric_zero_def Let_def)
  then have max: "n_max (fold numeric_add vs numeric_zero) = Fin (Max (set (x # xs)))"
    unfolding foldl_max_Max [symmetric] by (simp add: xs)
  have "(of_nat (length vs) :: u64) \<noteq> 0"
    using assms(1,3) by (simp add: word_of_nat_eq_0_iff take_bit_nat_eq_self nat_dvd_not_less)
  moreover define n where "n = fold numeric_add vs numeric_zero"
  moreover have "n_count n = of_nat (length vs)" "n_sum n = foldl js_add (Fin 0) vs"
    by (simp_all add: n_def numeric_sums) (simp_all add: numeric_zero_def)
  ultimately show ?thesis
    using max unfolding summary_of_def xs [symmetric]
    by (intro conjI exI [of _ "x # xs"]) (simp_all add: numeric_pair_def xs)
qed

text \<open>The latest of timed values, the last one where times are equal.\<close>

definition latest_at :: "('a \<times> int) list \<Rightarrow> 'a \<Rightarrow> int \<Rightarrow> bool" where
  "latest_at xs x t \<longleftrightarrow>
     (\<exists>before after. xs = before @ (x, t) # after \<and> (\<forall>(y, u) \<in> set before. u \<le> t) \<and> (\<forall>(y, u) \<in> set after. u < t))"

lemma latest_at_le: "latest_at xs x t \<Longrightarrow> (y, u) \<in> set xs \<Longrightarrow> u \<le> t"
  by (fastforce simp: latest_at_def)

lemma latest_at_snoc:
  "xs = [] \<Longrightarrow> latest_at (xs @ [(y, u)]) y u"
  "latest_at xs x t \<Longrightarrow> t \<le> u \<Longrightarrow> latest_at (xs @ [(y, u)]) y u"
  "latest_at xs x t \<Longrightarrow> u < t \<Longrightarrow> latest_at (xs @ [(y, u)]) x t"
proof -
  show "xs = [] \<Longrightarrow> latest_at (xs @ [(y, u)]) y u"
    unfolding latest_at_def by (intro exI [of _ "[]"]) simp
  assume l: "latest_at xs x t"
  show "latest_at (xs @ [(y, u)]) y u" if "t \<le> u"
    unfolding latest_at_def using that latest_at_le [OF l]
    by (intro exI [of _ xs] exI [of _ "[]"]) fastforce
  obtain before after where xs: "xs = before @ (x, t) # after" "\<forall>(y, u) \<in> set before. u \<le> t" "\<forall>(y, u) \<in> set after. u < t"
    using l by (auto simp: latest_at_def)
  then show "latest_at (xs @ [(y, u)]) x t" if "u < t"
    unfolding latest_at_def using that by (intro exI [of _ before] exI [of _ "after @ [(y, u)]"]) auto
qed

text \<open>The values that the reports give to each pair of a record.\<close>

definition measures :: "((g_payload \<Rightarrow> pair) \<times> (g_report \<Rightarrow> jsnum)) list" where
  "measures =
     [(gp_cpuUsage, \<lambda>r. g_usagePercent (g_cpu r)), (gp_load1, \<lambda>r. g_load1 (g_cpu r)),
      (gp_load5, \<lambda>r. g_load5 (g_cpu r)), (gp_load15, \<lambda>r. g_load15 (g_cpu r)),
      (gp_memoryUsage, \<lambda>r. usage_percent (g_memUsed (g_memory r)) (g_memTotal (g_memory r))),
      (gp_swapUsage, \<lambda>r. usage_percent (g_swapUsed (g_memory r)) (g_swapTotal (g_memory r))),
      (gp_diskRead, \<lambda>r. float_of (g_readBps (g_diskIo r))), (gp_diskWrite, \<lambda>r. float_of (g_writeBps (g_diskIo r))),
      (gp_upload, \<lambda>r. float_of (g_uploadBps (g_network r))),
      (gp_download, \<lambda>r. float_of (g_downloadBps (g_network r)))]"

lemma acc_field:
  assumes "\<And>r rep a. F (acc_add r rep a) = numeric_add (v rep) (F a)" and "F acc_zero = numeric_zero"
  shows "F (minute_acc rts) = fold numeric_add (map (\<lambda>(rep, t). v rep) rts) numeric_zero"
proof -
  have "F (fold (\<lambda>(rep, t). acc_add (Some t) rep) rts a) = fold numeric_add (map (\<lambda>(rep, t). v rep) rts) (F a)" for a
    by (induction rts arbitrary: a) (auto simp: assms(1))
  then show ?thesis by (simp add: minute_acc_def assms(2))
qed

lemma minute_acc_values:
  "ac_cpuUsage (minute_acc rts) = fold numeric_add (map (\<lambda>(r, t). g_usagePercent (g_cpu r)) rts) numeric_zero"
  "ac_load1 (minute_acc rts) = fold numeric_add (map (\<lambda>(r, t). g_load1 (g_cpu r)) rts) numeric_zero"
  "ac_load5 (minute_acc rts) = fold numeric_add (map (\<lambda>(r, t). g_load5 (g_cpu r)) rts) numeric_zero"
  "ac_load15 (minute_acc rts) = fold numeric_add (map (\<lambda>(r, t). g_load15 (g_cpu r)) rts) numeric_zero"
  "ac_memoryUsage (minute_acc rts) =
     fold numeric_add (map (\<lambda>(r, t). usage_percent (g_memUsed (g_memory r)) (g_memTotal (g_memory r))) rts) numeric_zero"
  "ac_swapUsage (minute_acc rts) =
     fold numeric_add (map (\<lambda>(r, t). usage_percent (g_swapUsed (g_memory r)) (g_swapTotal (g_memory r))) rts) numeric_zero"
  "ac_diskRead (minute_acc rts) = fold numeric_add (map (\<lambda>(r, t). float_of (g_readBps (g_diskIo r))) rts) numeric_zero"
  "ac_diskWrite (minute_acc rts) = fold numeric_add (map (\<lambda>(r, t). float_of (g_writeBps (g_diskIo r))) rts) numeric_zero"
  "ac_upload (minute_acc rts) = fold numeric_add (map (\<lambda>(r, t). float_of (g_uploadBps (g_network r))) rts) numeric_zero"
  "ac_download (minute_acc rts) =
     fold numeric_add (map (\<lambda>(r, t). float_of (g_downloadBps (g_network r))) rts) numeric_zero"
  by (rule acc_field; simp add: acc_add_def acc_zero_def Let_def)+

lemma measure_pair:
  assumes "(field, v) \<in> set measures"
  shows "field (gm_payload (minute_record_of k rts)) =
    numeric_pair (fold numeric_add (map (\<lambda>(rep, t). v rep) rts) numeric_zero)"
  using assms by (auto simp: measures_def minute_record_of_def acc_finish_def minute_acc_values)

lemma measure_finite:
  assumes "(field, v) \<in> set measures" and "validateReport rep"
  shows "is_finite (v rep)"
  using assms validateReport_loads [OF assms(2)] validateReport_cpu [OF assms(2)]
    usage_percent_range [OF validateReport_memory(1) [OF assms(2)]]
    usage_percent_range [OF validateReport_memory(2) [OF assms(2)]]
  by (auto simp: measures_def float_of_range(1))

text \<open>The totals of the network are those of the latest report.\<close>

lemma minute_totals:
  assumes "rts \<noteq> []"
  shows "\<exists>rep t. latest_at rts rep t \<and> ac_last (minute_acc rts) = Some t \<and>
    ac_totalUpload (minute_acc rts) = g_totalUpload (g_network rep) \<and>
    ac_totalDownload (minute_acc rts) = g_totalDownload (g_network rep)"
  using assms
proof (induction rts rule: rev_induct)
  case (snoc rt rts)
  obtain rep t where rt: "rt = (rep, t)" by (cases rt)
  let ?a = "minute_acc rts"
  have step: "minute_acc (rts @ [(rep, t)]) = acc_add (Some t) rep ?a" by (simp add: minute_acc_def)
  show ?case
  proof (cases "rts = []")
    case True
    then show ?thesis unfolding rt
      using latest_at_snoc(1) [of rts rep t]
      by (auto simp: step minute_acc_def acc_add_def acc_zero_def newer_def Let_def intro!: exI [of _ rep] exI [of _ t])
  next
    case False
    obtain r u where l: "latest_at rts r u" "ac_last ?a = Some u"
        "ac_totalUpload ?a = g_totalUpload (g_network r)" "ac_totalDownload ?a = g_totalDownload (g_network r)"
      using snoc.IH [OF False] by blast
    show ?thesis
    proof (cases "t < u")
      case True
      then show ?thesis unfolding rt using l latest_at_snoc(3) [OF l(1) True, of rep]
        by (intro exI [of _ r] exI [of _ u]) (simp add: step acc_add_def newer_def Let_def)
    next
      case False
      then show ?thesis unfolding rt using l latest_at_snoc(2) [OF l(1), of t rep]
        by (intro exI [of _ rep] exI [of _ t]) (simp add: step acc_add_def newer_def Let_def)
    qed
  qed
qed simp

text \<open>What the reports of a minute say of a mount point; of a repeated one, the last entry of a report counts.\<close>

definition mount_reports :: "string \<Rightarrow> (g_report \<times> int) list \<Rightarrow> (g_disk \<times> int) list" where
  "mount_reports m rts =
     List.map_filter (\<lambda>(rep, t). map_option (\<lambda>d. (d, t)) (map_of (report_disks rep) m)) rts"

definition disk_value :: "g_disk \<Rightarrow> jsnum" where
  "disk_value d = usage_percent (g_diskUsed d) (g_diskTotal d)"

definition disk_from :: "(g_disk \<times> int) list \<Rightarrow> disk_acc \<Rightarrow> bool" where
  "disk_from xs e \<longleftrightarrow>
     da_usage e = fold numeric_add (map (\<lambda>(d, t). disk_value d) xs) numeric_zero \<and>
     (\<exists>d t. latest_at xs d t \<and> da_last e = Some t \<and> da_total e = g_diskTotal d \<and> da_used e = g_diskUsed d)"

lemma mount_reports_snoc:
  "mount_reports m (rts @ [(rep, t)]) =
     mount_reports m rts @ (case map_of (report_disks rep) m of None \<Rightarrow> [] | Some d \<Rightarrow> [(d, t)])"
  by (induction rts) (auto simp: mount_reports_def List.map_filter_simps split: option.split)

lemma minute_disk:
  "case map_of (ac_disks (minute_acc rts)) m of
     None \<Rightarrow> mount_reports m rts = []
   | Some e \<Rightarrow> mount_reports m rts \<noteq> [] \<and> disk_from (mount_reports m rts) e"
proof (induction rts rule: rev_induct)
  case Nil
  then show ?case by (simp add: minute_acc_def acc_zero_def mount_reports_def List.map_filter_simps)
next
  case (snoc rt rts)
  obtain rep t where rt: "rt = (rep, t)" by (cases rt)
  let ?ds = "ac_disks (minute_acc rts)" and ?xs = "mount_reports m rts"
  have ps: "distinct (map fst (report_disks rep))" "\<forall>(k, d) \<in> set (report_disks rep). g_mountpoint d = k"
    using report_disks_keys(1) [of rep] report_disks_keys(2) [of rep] by auto
  have step: "ac_disks (minute_acc (rts @ [(rep, t)])) =
      fold (\<lambda>(k, disk). acc_disk (Some t) disk) (report_disks rep) ?ds"
    by (simp add: minute_acc_def)
  show ?case
  proof (cases "map_of (report_disks rep) m")
    case None
    then show ?thesis unfolding rt using snoc.IH
      by (auto simp: step acc_disks_at [OF ps] mount_reports_snoc split: option.split)
  next
    case (Some d)
    then have d: "g_mountpoint d = m" using report_disks_keys(2) by blast
    have at: "map_of (ac_disks (minute_acc (rts @ [(rep, t)]))) m = map_of (acc_disk (Some t) d ?ds) m"
      "mount_reports m (rts @ [(rep, t)]) = ?xs @ [(d, t)]"
      by (simp_all add: step acc_disks_at [OF ps] mount_reports_snoc Some)
    show ?thesis
    proof (cases "map_of ?ds m")
      case None
      then show ?thesis unfolding rt using snoc.IH latest_at_snoc(1) [of ?xs d t]
        by (auto simp: at acc_disk_at d Let_def newer_def disk_from_def disk_value_def)
    next
      case old: (Some e)
      then have e: "da_usage e = fold numeric_add (map (\<lambda>(d, t). disk_value d) ?xs) numeric_zero"
        using snoc.IH by (simp add: disk_from_def)
      obtain d0 u where l: "latest_at ?xs d0 u" "da_last e = Some u" "da_total e = g_diskTotal d0"
          "da_used e = g_diskUsed d0"
        using snoc.IH old by (auto simp: disk_from_def)
      show ?thesis unfolding rt
        using e l latest_at_snoc(3) [OF l(1), of t d] latest_at_snoc(2) [OF l(1), of t d] old
        by (cases "t < u") (auto simp: at acc_disk_at d Let_def newer_def disk_from_def disk_value_def)
    qed
  qed
qed

lemma mount_reports_valid:
  assumes "\<forall>(rep, t) \<in> set rts. validateReport rep" and "(d, t) \<in> set (mount_reports m rts)"
  shows "is_finite (disk_value d)"
proof -
  obtain rep where rep: "(rep, t) \<in> set rts" "map_of (report_disks rep) m = Some d"
    using assms(2) by (auto simp: mount_reports_def List.map_filter_def)
  then have "d \<in> set (disks_list rep)" "validateReport rep"
    using report_disks_keys(2) assms(1) by blast+
  then show ?thesis
    using usage_percent_range [OF validateReport_disk] by (fastforce simp: disk_value_def)
qed

lemma mount_reports_length: "length (mount_reports m rts) \<le> length rts"
  by (induction rts) (auto simp: mount_reports_def List.map_filter_simps split: option.split)

text \<open>The disks of a record.\<close>

lemma minute_disk_rows:
  assumes "\<forall>(rep, t) \<in> set rts. validateReport rep" and "100 * int (length rts) \<le> 2 ^ 53"
    and "ds = gp_disks (gm_payload (minute_record_of k rts))"
  shows "sorted_wrt (<) (map gd_mountpoint ds)"
    and "m \<in> gd_mountpoint ` set ds \<longleftrightarrow> mount_reports m rts \<noteq> []"
    and "d \<in> set ds \<Longrightarrow> percent_pair (gd_usage d) \<and>
       summary_of (map (\<lambda>(disk, t). disk_value disk) (mount_reports (gd_mountpoint d) rts)) (gd_usage d) \<and>
       (\<exists>disk t. latest_at (mount_reports (gd_mountpoint d) rts) disk t \<and>
          gd_total d = g_diskTotal disk \<and> gd_used d = g_diskUsed disk)"
proof -
  have "int (length rts) < int (2 ^ 64)" using assms(2) by simp
  then have len: "length rts < 2 ^ 64" by (simp only: of_nat_less_iff)
  have "disks_ok (0 + length rts) (ac_disks (fold (\<lambda>(rep, t). acc_add (Some t) rep) rts acc_zero))"
    using assms(1,2) by (intro disks_ok_all) (simp_all add: disks_ok_def acc_zero_def)
  then have dk: "disks_ok (length rts) (ac_disks (minute_acc rts))" by (simp add: minute_acc_def)
  let ?ds = "ac_disks (minute_acc rts)"
  have disks: "ds = map finish_disk (sort_key fst ?ds)"
    by (simp add: assms(3) minute_record_of_def acc_finish_def)
  have "map gd_mountpoint ds = map fst (sort_key fst ?ds)" by (simp add: disks finish_disk_def)
  moreover have "distinct (map fst (sort_key fst ?ds))"
    using dk by (intro distinct_sort_fst) (simp add: disks_ok_def)
  ultimately show "sorted_wrt (<) (map gd_mountpoint ds)" by (simp add: strict_sorted_iff)
  have "gd_mountpoint ` set ds = fst ` set ?ds" by (simp add: disks finish_disk_def image_image)
  then show "m \<in> gd_mountpoint ` set ds \<longleftrightarrow> mount_reports m rts \<noteq> []"
    using minute_disk [where rts = rts and m = m] map_of_eq_None_iff [of ?ds m] by (cases "map_of ?ds m") auto
  assume "d \<in> set ds"
  then obtain m e where d: "d = finish_disk (m, e)" "(m, e) \<in> set ?ds" by (auto simp: disks)
  then have e: "map_of ?ds m = Some e" using dk by (simp add: disks_ok_def)
  then obtain j where j: "0 < j" "j \<le> length rts" "numeric_ok 100 j (da_usage e)"
    using dk unfolding disks_ok_def by blast
  then have "100 * int j \<le> 100 * int (length rts)" by simp
  also note assms(2)
  finally have "percent_pair (numeric_pair (da_usage e))" by (rule percent_pairI [OF j(3,1)])
  moreover have "mount_reports m rts \<noteq> []" "disk_from (mount_reports m rts) e"
    using minute_disk [where rts = rts and m = m] by (simp_all add: e)
  moreover have "length (map (\<lambda>(disk, t). disk_value disk) (mount_reports m rts)) < 2 ^ 64"
    using mount_reports_length [of m rts] len by simp
  moreover have "\<forall>v \<in> set (map (\<lambda>(disk, t). disk_value disk) (mount_reports m rts)). is_finite v"
    using mount_reports_valid [OF assms(1)] by auto
  ultimately show "percent_pair (gd_usage d) \<and>
      summary_of (map (\<lambda>(disk, t). disk_value disk) (mount_reports (gd_mountpoint d) rts)) (gd_usage d) \<and>
      (\<exists>disk t. latest_at (mount_reports (gd_mountpoint d) rts) disk t \<and>
         gd_total d = g_diskTotal disk \<and> gd_used d = g_diskUsed disk)"
    using summary_of_values by (auto simp: d(1) finish_disk_def disk_from_def)
qed

section \<open>Rows\<close>

text \<open>The aggregator writes whole minutes only, each with its payload.\<close>

definition aligned_ok :: "minute_rows aggregator \<Rightarrow> bool" where
  "aligned_ok ag \<longleftrightarrow>
     rows_ok (ag_db ag) \<and> list_all (\<lambda>(k, b). 60 dvd snd k) (ag_buckets ag) \<and>
     list_all (\<lambda>c. 60 dvd gm_minuteUnix (ca_record c)) (ag_flush ag)"

lemma minute_of_aligned [simp]: "60 dvd minute_of t"
  by (simp add: minute_of_def)

lemma update_all:
  "list_all (\<lambda>(k, v). P k) xs \<Longrightarrow> P k \<Longrightarrow> list_all (\<lambda>(k, v). P k) (AList.update k v xs)"
  by (induction xs) auto

lemma delete_all: "list_all P xs \<Longrightarrow> list_all P (AList.delete k xs)"
  by (induction xs) auto

lemma rows_ok_update:
  assumes "rows_ok rows" and "60 dvd snd k"
  shows "rows_ok (AList.update k (Some p) rows)"
proof -
  have "(\<forall>(k, p) \<in> set rows. 60 dvd snd k \<and> p \<noteq> None) \<Longrightarrow>
      \<forall>(k, p) \<in> set (AList.update k (Some p) rows). 60 dvd snd k \<and> p \<noteq> None"
    using assms(2) by (induction rows) auto
  then show ?thesis using assms(1) by (simp add: rows_ok_def distinct_update)
qed

lemma aligned_ok_step:
  assumes "aligned_ok ag"
  shows "aligned_ok (ag_step UpsertMinute op ag)"
proof (cases op)
  case (AgAccept i rep t)
  then show ?thesis
    using assms update_all [of "\<lambda>k. 60 dvd snd k" "ag_buckets ag" "(i, minute_of t)"]
    by (simp add: aligned_ok_def ag_accept_def Let_def)
next
  case (AgRemove i)
  then show ?thesis using assms by (auto simp: aligned_ok_def ag_remove_def list_all_iff)
next
  case (AgFlush b)
  then show ?thesis
    using assms by (auto simp: aligned_ok_def flush_begin_def candidate_of_def acc_finish_def list_all_iff)
next
  case (AgWrite f)
  then show ?thesis
    using assms
    by (auto simp: aligned_ok_def flush_write_def UpsertMinute_def intro!: rows_ok_update
        split: list.split option.split)
next
  case AgSettle
  then show ?thesis
    using assms by (auto simp: aligned_ok_def flush_settle_def Let_def delete_all split: list.split option.split)
qed

lemma aligned_ok_run: "aligned_ok ag \<Longrightarrow> aligned_ok (ag_run UpsertMinute ops ag)"
  unfolding ag_run_def by (induction ops arbitrary: ag) (simp_all add: aligned_ok_step)

lemma rows_ok_run: "rows_ok rows \<Longrightarrow> rows_ok (ag_db (ag_run UpsertMinute ops (ag_start rows)))"
  using aligned_ok_run [of "ag_start rows" ops] by (simp add: aligned_ok_def ag_start_def)

text \<open>
  A report that comes after its minute's bucket has been written and dropped starts a new bucket,
  whose record then replaces the one that holds the earlier reports.
\<close>

lemma late_report_replaces:
  "ag_db (ag_run (\<lambda>f r d. Some (d((gm_serverId r, gm_minuteUnix r) \<mapsto> r)))
      [AgAccept i early t, AgFlush (minute_of t * 1000000000 + 1), AgWrite (), AgSettle,
       AgAccept i late t, AgFlush (minute_of t * 1000000000 + 1), AgWrite (), AgSettle]
      (ag_start Map.empty)) (i, minute_of t) = Some (minute_record_of (i, minute_of t) [(late, t)])"
  by (simp add: ag_run_def ag_start_def ag_accept_def flush_begin_def flush_write_def flush_settle_def
      candidate_of_def acc_finish_def minute_record_of_def minute_acc_def Let_def)

section \<open>The properties\<close>

text \<open>
  C4: No report is lost on its way to the store. In every interleaving of reports, removals and the
  steps of the flushes, with any failures of the database, as long as no report comes for a minute
  whose bucket is gone, the reports accepted for a server and a minute since the server was last
  removed are all in the bucket of the minute, or all in the stored row of the minute.
\<close>

theorem reports_not_lost:
  assumes "in_order UpsertMinute ops (ag_start rows) (\<lambda>k. [])" and "length ops < 2 ^ 64"
    and "accepted_reports ops k \<noteq> []"
  shows "(case map_of (ag_buckets (ag_run UpsertMinute ops (ag_start rows))) k of
      Some b \<Rightarrow> bu_acc b = minute_acc (accepted_reports ops k)
    | None \<Rightarrow> read_row (ag_db (ag_run UpsertMinute ops (ag_start rows))) k =
        Some (minute_record_of k (accepted_reports ops k)))"
  by (rule store_writer.no_report_lost [OF assms])

definition sample_ops :: "(bucket_key \<Rightarrow> bool) ag_op list" where
  "sample_ops =
     [AgAccept 3 sample_go_report (1753588805 * 1000000000), AgFlush (1753588860 * 1000000000),
      AgAccept 3 sample_go_report (1753588855 * 1000000000), AgWrite (\<lambda>k. False), AgSettle,
      AgFlush (1753588860 * 1000000000), AgWrite (\<lambda>k. True), AgSettle]"

lemma sample_minute: "minute_of (1753588805 * 1000000000) = 1753588800"
  "minute_of (1753588855 * 1000000000) = 1753588800"
  by (simp_all add: minute_of_def)

lemma sample_ops_accepted:
  "accepted_reports sample_ops (3, 1753588800) =
     [(sample_go_report, 1753588805 * 1000000000), (sample_go_report, 1753588855 * 1000000000)]"
  by (simp add: accepted_reports_def sample_ops_def sample_minute [simplified])

lemma sample_ops_order: "in_order UpsertMinute sample_ops (ag_start []) (\<lambda>k. [])"
  by (simp add: sample_ops_def ag_start_def ag_accept_def flush_begin_def Let_def sample_minute [simplified])

theorem reports_not_lost_witness:
  "case map_of (ag_buckets (ag_run UpsertMinute sample_ops (ag_start []))) (3, 1753588800) of
      Some b \<Rightarrow> bu_acc b = minute_acc (accepted_reports sample_ops (3, 1753588800))
    | None \<Rightarrow> read_row (ag_db (ag_run UpsertMinute sample_ops (ag_start []))) (3, 1753588800) =
        Some (minute_record_of (3, 1753588800) (accepted_reports sample_ops (3, 1753588800)))"
  by (rule reports_not_lost [OF sample_ops_order]) (simp_all add: sample_ops_accepted, simp add: sample_ops_def)

text \<open>
  C23: The record of a minute of accepted reports says what the reports say. Every pair of it, of
  processor, loads, memory, swap, disk and network rates, is made of the values of its own metric: the
  average is their sum divided by their count, the maximum is the greatest of them. A disk is listed
  exactly when a report has its mount point, once, in the order of the mount points, with the average
  and the maximum of its usage in those reports, and its sizes in the latest of them; the totals of the
  network are those of the latest report. And every percentage, of processor, memory, swap and disks,
  lies between 0 and 100, average and maximum, whatever the rounding of the sums.
\<close>

theorem minute_record_sound:
  assumes "\<forall>(rep, t) \<in> set rts. validateReport rep" and "rts \<noteq> []" and "100 * int (length rts) \<le> 2 ^ 53"
    and "p = gm_payload (minute_record_of k rts)"
  shows "(\<forall>(field, v) \<in> set measures. summary_of (map (\<lambda>(rep, t). v rep) rts) (field p)) \<and>
    percent_pair (gp_cpuUsage p) \<and> percent_pair (gp_memoryUsage p) \<and> percent_pair (gp_swapUsage p) \<and>
    (\<exists>rep t. latest_at rts rep t \<and> gp_totalUpload p = g_totalUpload (g_network rep) \<and>
       gp_totalDownload p = g_totalDownload (g_network rep)) \<and>
    sorted_wrt (<) (map gd_mountpoint (gp_disks p)) \<and>
    (\<forall>m. m \<in> gd_mountpoint ` set (gp_disks p) \<longleftrightarrow> mount_reports m rts \<noteq> []) \<and>
    (\<forall>d \<in> set (gp_disks p). percent_pair (gd_usage d) \<and>
       summary_of (map (\<lambda>(disk, t). disk_value disk) (mount_reports (gd_mountpoint d) rts)) (gd_usage d) \<and>
       (\<exists>disk t. latest_at (mount_reports (gd_mountpoint d) rts) disk t \<and>
          gd_total d = g_diskTotal disk \<and> gd_used d = g_diskUsed disk))"
proof (intro conjI)
  have ok: "validateReport rep" if "(rep, t) \<in> set rts" for rep t using assms(1) that by auto
  have "int (length rts) < int (2 ^ 64)" using assms(3) by simp
  then have len: "length rts < 2 ^ 64" by (simp only: of_nat_less_iff)
  show "\<forall>(field, v) \<in> set measures. summary_of (map (\<lambda>(rep, t). v rep) rts) (field p)"
  proof (clarify)
    fix field v assume f: "(field, v) \<in> set measures"
    have "\<forall>x \<in> set (map (\<lambda>(rep, t). v rep) rts). is_finite x" using measure_finite [OF f] ok by auto
    then show "summary_of (map (\<lambda>(rep, t). v rep) rts) (field p)"
      unfolding assms(4) measure_pair [OF f] using assms(2) len by (intro summary_of_values) simp_all
  qed
  have percent: "percent_pair (field p)"
    if "(field, v) \<in> set measures" "\<And>rep. validateReport rep \<Longrightarrow> \<exists>x. v rep = Fin x \<and> 0 \<le> x \<and> x \<le> 100"
    for field v
    unfolding assms(4) measure_pair [OF that(1)] using that(2) ok by (intro percent_field [OF assms(2,3)]) blast
  show "percent_pair (gp_cpuUsage p)"
    by (rule percent [of _ "\<lambda>r. g_usagePercent (g_cpu r)"]) (simp_all add: measures_def validateReport_cpu)
  show "percent_pair (gp_memoryUsage p)"
    by (rule percent [of _ "\<lambda>r. usage_percent (g_memUsed (g_memory r)) (g_memTotal (g_memory r))"])
       (simp_all add: measures_def usage_percent_range validateReport_memory)
  show "percent_pair (gp_swapUsage p)"
    by (rule percent [of _ "\<lambda>r. usage_percent (g_swapUsed (g_memory r)) (g_swapTotal (g_memory r))"])
       (simp_all add: measures_def usage_percent_range validateReport_memory)
  show "\<exists>rep t. latest_at rts rep t \<and> gp_totalUpload p = g_totalUpload (g_network rep) \<and>
      gp_totalDownload p = g_totalDownload (g_network rep)"
    using minute_totals [OF assms(2)] by (auto simp: assms(4) minute_record_of_def acc_finish_def)
qed (use minute_disk_rows [OF assms(1,3), of "gp_disks p" k] assms(4) in blast)+

theorem minute_record_sound_witness:
  "percent_pair (gp_memoryUsage (gm_payload (minute_record_of (3, 1753588800) [(sample_go_report, 1753588805000000000)]))) \<and>
   summary_of [usage_percent (g_memUsed (g_memory sample_go_report)) (g_memTotal (g_memory sample_go_report))]
     (gp_memoryUsage (gm_payload (minute_record_of (3, 1753588800) [(sample_go_report, 1753588805000000000)])))"
  using minute_record_sound [of "[(sample_go_report, 1753588805000000000)]" _ "(3, 1753588800)", OF _ _ _ refl]
    sample_go_valid by (simp add: sample_go_snapshot_def measures_def)

text \<open>
  C21: The paged query returns exactly the rows of the server in the range, in the order of their
  minutes: reading 256 rows at a time loses and repeats none, and its cap of 43201 rows never cuts a
  span of 30 days short, because a row starts a whole minute. It always comes to an end.
\<close>

theorem query_complete:
  assumes "rows_ok rows" and "\<And>n. \<not> fails n" and "fromU \<le> toU" and "toU - fromU \<le> maxHistoryQuerySeconds"
    and "60 dvd fromU"
  shows "\<exists>recs. Query fails rows serverID fromU toU = Inr recs \<and>
    sorted_wrt (<) (map gm_minuteUnix recs) \<and>
    set recs = {r. gm_serverId r = serverID \<and> fromU \<le> gm_minuteUnix r \<and> gm_minuteUnix r \<le> toU \<and>
                  ((serverID, gm_minuteUnix r), Some (gm_payload r)) \<in> set rows}"
proof (intro exI conjI)
  let ?L = "query_rows rows serverID fromU toU"
  show "Query fails rows serverID fromU toU = Inr (map (decode_row serverID) ?L)"
    using assms by (intro Query_rows)
  have dist: "distinct (map fst rows)" using assms(1) by (simp add: rows_ok_def)
  have keys: "map gm_minuteUnix (map (decode_row serverID) ?L) = map fst ?L" by (simp add: decode_row_def)
  show "sorted_wrt (<) (map gm_minuteUnix (map (decode_row serverID) ?L))"
    unfolding keys using query_rows_sorted [OF dist] by (simp add: strict_sorted_iff)
  have some: "snd r \<noteq> None" if "r \<in> set ?L" for r
    using that assms(1) by (fastforce simp: query_rows_member rows_ok_def)
  show "set (map (decode_row serverID) ?L) = {r. gm_serverId r = serverID \<and> fromU \<le> gm_minuteUnix r \<and>
      gm_minuteUnix r \<le> toU \<and> ((serverID, gm_minuteUnix r), Some (gm_payload r)) \<in> set rows}"
  proof (intro set_eqI iffI)
    fix r :: g_minute
    assume "r \<in> set (map (decode_row serverID) ?L)"
    then obtain x where x: "x \<in> set ?L" "r = decode_row serverID x" by auto
    then show "r \<in> {r. gm_serverId r = serverID \<and> fromU \<le> gm_minuteUnix r \<and> gm_minuteUnix r \<le> toU \<and>
        ((serverID, gm_minuteUnix r), Some (gm_payload r)) \<in> set rows}"
      using some [OF x(1)] by (simp add: decode_row_def query_rows_member)
  next
    fix r :: g_minute
    assume "r \<in> {r. gm_serverId r = serverID \<and> fromU \<le> gm_minuteUnix r \<and> gm_minuteUnix r \<le> toU \<and>
        ((serverID, gm_minuteUnix r), Some (gm_payload r)) \<in> set rows}"
    then have "(gm_minuteUnix r, Some (gm_payload r)) \<in> set ?L" "r = decode_row serverID (gm_minuteUnix r, Some (gm_payload r))"
      by (simp_all add: query_rows_member decode_row_def)
    then show "r \<in> set (map (decode_row serverID) ?L)" by (metis imageI set_map)
  qed
qed

theorem query_complete_witness:
  "\<exists>recs. Query (\<lambda>n. False) [((3, 120), Some (gm_payload (acc_finish 3 120 acc_zero)))] 3 60 180 = Inr recs \<and>
     sorted_wrt (<) (map gm_minuteUnix recs)"
  using query_complete [of "[((3, 120), Some (gm_payload (acc_finish 3 120 acc_zero)))]" "\<lambda>n. False" 60 180 3]
  by (auto simp: rows_ok_def maxHistoryQuerySeconds_def)

end
