(* ===== verification/EndToEnd.thy ===== *)
theory EndToEnd
  imports LiveTheorems HistoryServerProps
begin

text \<open>
  The server and the web interface together: the JSON that \<open>encoding/json\<close> writes for an event and
  for a history response, as the value that \<open>JSON.parse\<close> reads from it, and what the interface then
  shows. A 64-bit counter is a number of binary64 after the way, rounded to nearest. The text of a
  time is the parameter \<open>fmt\<close>; the interface treats it as a text here.
\<close>

section \<open>Events\<close>

definition go_num :: "int \<Rightarrow> jsnum" where
  "go_num n = fl (of_int n)"

definition host_json :: "g_host \<Rightarrow> jv" where
  "host_json h =
     JObj [(''hostname'', JStr (g_hostname h)), (''os'', JStr (g_os h)), (''platform'', JStr (g_platform h)),
           (''platformVersion'', JStr (g_platformVersion h)), (''kernelVersion'', JStr (g_kernelVersion h)),
           (''architecture'', JStr (g_architecture h)), (''cpuModel'', JStr (g_cpuModel h)),
           (''cpuCores'', JNum (go_num (g_cpuCores h))), (''primaryIp'', JStr (g_primaryIp h)),
           (''bootTimeUnix'', JNum (go_num (g_bootTimeUnix h))),
           (''uptimeSeconds'', JNum (float_of (g_uptimeSeconds h)))]"

definition go_disk_json :: "g_disk \<Rightarrow> jv" where
  "go_disk_json d =
     JObj [(''mountpoint'', JStr (g_mountpoint d)), (''totalBytes'', JNum (float_of (g_diskTotal d))),
           (''usedBytes'', JNum (float_of (g_diskUsed d)))]"

text \<open>A nil slice is null.\<close>

definition go_report_json :: "g_report \<Rightarrow> jv" where
  "go_report_json r =
     JObj [(''collectedAtUnix'', JNum (go_num (g_collectedAtUnix r))),
           (''agentVersion'', JStr (g_agentVersion r)), (''host'', host_json (g_host r)),
           (''cpu'', JObj [(''usagePercent'', JNum (g_usagePercent (g_cpu r))),
                         (''load1'', JNum (g_load1 (g_cpu r))), (''load5'', JNum (g_load5 (g_cpu r))),
                         (''load15'', JNum (g_load15 (g_cpu r)))]),
           (''memory'', JObj [(''totalBytes'', JNum (float_of (g_memTotal (g_memory r)))),
                            (''usedBytes'', JNum (float_of (g_memUsed (g_memory r)))),
                            (''swapTotalBytes'', JNum (float_of (g_swapTotal (g_memory r)))),
                            (''swapUsedBytes'', JNum (float_of (g_swapUsed (g_memory r))))]),
           (''disks'', case g_disks r of None \<Rightarrow> JNull | Some ds \<Rightarrow> JArr (map go_disk_json ds)),
           (''diskIo'', JObj [(''readBytesPerSecond'', JNum (float_of (g_readBps (g_diskIo r)))),
                            (''writeBytesPerSecond'', JNum (float_of (g_writeBps (g_diskIo r))))]),
           (''network'', JObj [(''interface'', JStr (g_interface (g_network r))),
                             (''uploadBytesPerSecond'', JNum (float_of (g_uploadBps (g_network r)))),
                             (''downloadBytesPerSecond'', JNum (float_of (g_downloadBps (g_network r)))),
                             (''totalUploadBytes'', JNum (float_of (g_totalUpload (g_network r)))),
                             (''totalDownloadBytes'', JNum (float_of (g_totalDownload (g_network r))))])]"

definition go_snapshot_json :: "(int \<Rightarrow> string) \<Rightarrow> g_snapshot \<Rightarrow> jv" where
  "go_snapshot_json fmt s =
     JObj [(''serverId'', JNum (go_num (gs_serverId s))), (''serverName'', JStr (gs_serverName s)),
           (''online'', JBool (gs_online s)), (''lastReceivedAt'', JStr (fmt (gs_lastReceivedAt s))),
           (''sourceIp'', JStr (gs_sourceIp s)), (''report'', go_report_json (gs_report s))]"

definition event_json :: "(int \<Rightarrow> string) \<Rightarrow> g_event \<Rightarrow> jv" where
  "event_json fmt e =
     JObj [(''type'', JStr (event_type_name (ge_type e))), (''snapshot'', go_snapshot_json fmt (ge_snapshot e))]"

text \<open>The snapshot that the interface is meant to have of one of the server.\<close>

definition web_disk :: "g_disk \<Rightarrow> disk_stats" where
  "web_disk d =
     \<lparr>mountpoint = g_mountpoint d, disk_totalBytes = float_of (g_diskTotal d),
      disk_usedBytes = float_of (g_diskUsed d)\<rparr>"

definition web_report :: "g_report \<Rightarrow> agent_report" where
  "web_report r =
     \<lparr>collectedAtUnix = go_num (g_collectedAtUnix r), report_agentVersion = g_agentVersion r,
      host = \<lparr>hostname = g_hostname (g_host r), os = g_os (g_host r), platform = g_platform (g_host r),
              platformVersion = g_platformVersion (g_host r), kernelVersion = g_kernelVersion (g_host r),
              architecture = g_architecture (g_host r), cpuModel = g_cpuModel (g_host r),
              cpuCores = go_num (g_cpuCores (g_host r)), primaryIp = g_primaryIp (g_host r),
              bootTimeUnix = go_num (g_bootTimeUnix (g_host r)),
              uptimeSeconds = float_of (g_uptimeSeconds (g_host r))\<rparr>,
      cpu = \<lparr>usagePercent = g_usagePercent (g_cpu r), cpu_load1 = g_load1 (g_cpu r),
             cpu_load5 = g_load5 (g_cpu r), cpu_load15 = g_load15 (g_cpu r)\<rparr>,
      memory = \<lparr>mem_totalBytes = float_of (g_memTotal (g_memory r)),
                mem_usedBytes = float_of (g_memUsed (g_memory r)),
                swapTotalBytes = float_of (g_swapTotal (g_memory r)),
                swapUsedBytes = float_of (g_swapUsed (g_memory r))\<rparr>,
      disks = map_option (map web_disk) (g_disks r),
      diskIo = \<lparr>readBytesPerSecond = float_of (g_readBps (g_diskIo r)),
                writeBytesPerSecond = float_of (g_writeBps (g_diskIo r))\<rparr>,
      network = \<lparr>net_interface = g_interface (g_network r),
                 uploadBytesPerSecond = float_of (g_uploadBps (g_network r)),
                 downloadBytesPerSecond = float_of (g_downloadBps (g_network r)),
                 totalUploadBytes = float_of (g_totalUpload (g_network r)),
                 totalDownloadBytes = float_of (g_totalDownload (g_network r))\<rparr>\<rparr>"

definition web_snapshot :: "(int \<Rightarrow> string) \<Rightarrow> g_snapshot \<Rightarrow> server_snapshot" where
  "web_snapshot fmt s =
     \<lparr>serverId = go_num (gs_serverId s), serverName = gs_serverName s, online = gs_online s,
      lastReceivedAt = fmt (gs_lastReceivedAt s), sourceIp = gs_sourceIp s,
      report = web_report (gs_report s)\<rparr>"

lemma disk_round: "disk_of_json (go_disk_json d) = web_disk d"
  by (simp add: disk_of_json_def go_disk_json_def web_disk_def)

lemma report_round: "report_of_json (go_report_json r) = web_report r"
  by (cases "g_disks r")
     (simp_all add: report_of_json_def go_report_json_def web_report_def host_of_json_def host_json_def
        disk_round Let_def o_def)

lemma snapshot_round: "snapshot_of_json (go_snapshot_json fmt s) = web_snapshot fmt s"
  by (simp add: snapshot_of_json_def go_snapshot_json_def web_snapshot_def report_round)

lemma event_accepted:
  assumes "json_parse t = Some (event_json fmt e)"
  shows "parseSnapshotEvent t = Some (web_snapshot fmt (ge_snapshot e))"
  using assms snapshot_round [of fmt "ge_snapshot e"]
  by (cases "ge_type e") (simp_all add: parseSnapshotEvent_def event_json_def go_snapshot_json_def)

section \<open>A client of the event stream\<close>

lemma go_num_exact: "\<bar>n\<bar> \<le> 2 ^ 53 \<Longrightarrow> go_num n = num_of_int n"
  using fl_Fin_range [of n "of_int n" n] fl_val_of_int [of n] by (simp add: go_num_def)

lemma go_num_inj: "\<bar>a\<bar> \<le> 2 ^ 53 \<Longrightarrow> \<bar>b\<bar> \<le> 2 ^ 53 \<Longrightarrow> go_num a = go_num b \<longleftrightarrow> a = b"
  by (simp add: go_num_exact)

abbreviation event_server :: "g_event \<Rightarrow> int" where
  "event_server e \<equiv> gs_serverId (ge_snapshot e)"

definition event_text :: "(int \<Rightarrow> string) \<Rightarrow> string \<Rightarrow> g_event \<Rightarrow> bool" where
  "event_text fmt t e \<longleftrightarrow> json_parse t = Some (event_json fmt e)"

lemma cloneSnapshot_rename: "cloneSnapshot (s\<lparr>gs_serverName := n\<rparr>) = (cloneSnapshot s)\<lparr>gs_serverName := n\<rparr>"
  by (cases s) (simp add: cloneSnapshot_def)

lemma server_events_clone: "server_events i (map cloneEvent es) = map cloneEvent (server_events i es)"
  by (simp add: server_events_def filter_map o_def)

lemma web_snapshot_rename: "(web_snapshot fmt s)\<lparr>serverName := n\<rparr> = web_snapshot fmt (s\<lparr>gs_serverName := n\<rparr>)"
  by (simp add: web_snapshot_def)

text \<open>An open stream that has been read to its end has the last published event.\<close>

lemma newest_event_kept:
  assumes "server_run c" and "hub_subs (co_hub c) k = Some sub" and "sub_open sub" and "sub_queue sub = []"
    and "sub_joined sub < length (hub_log (co_hub c))" and "i = event_server (last (hub_log (co_hub c)))"
  shows "server_events i (sub_out sub) \<noteq> [] \<and>
    last (server_events i (sub_out sub)) = last (server_events i (hub_log (co_hub c)))"
proof -
  have "stream_ok (hub_log (co_hub c)) sub"
    using server_run_hub [OF assms(1)] assms(2) unfolding hub_ok_def by blast
  then have "sub_out sub \<noteq> []" "last (sub_out sub) = last (hub_log (co_hub c))" "hub_log (co_hub c) \<noteq> []"
    using assms(3-5) by (auto simp: stream_ok_def)
  moreover have "server_events i es \<noteq> [] \<and> last (server_events i es) = last es"
    if "es \<noteq> []" "event_server (last es) = i" for es
    using that by (cases es rule: rev_cases) simp_all
  ultimately show ?thesis using assms(6) by simp
qed

text \<open>A full channel without a reader loses its oldest event, of whatever type and server it is.\<close>

lemma oldest_event_lost:
  "length (sub_queue sub) = subscriberCapacity \<Longrightarrow>
     sub_queue (deliver (0, 0) e sub) = tl (sub_queue sub) @ [e]"
  by (cases "sub_queue sub") (simp_all add: deliver_def try_send_def Let_def subscriberCapacity_def)

text \<open>What the last event of a server says is what is stored of it, up to the name.\<close>

lemma last_event_stored:
  assumes "server_run c" and "\<not> hub_closed (co_hub c)" and "co_store c i = Some s"
    and "e = last (server_events i (hub_log (co_hub c)))"
  shows "gs_serverId s = i" and "event_server e = i"
    and "(ge_snapshot e)\<lparr>gs_serverName := gs_serverName s\<rparr> = cloneSnapshot s"
proof -
  have f: "gs_serverId s = i" "follows_store (server_events i (co_observed c)) s"
    using server_run_events [OF assms(1)] assms(3) by (simp_all add: events_ok_def)
  define ev where "ev = last (server_events i (co_observed c))"
  have "server_events i (co_observed c) \<noteq> []" using f by (simp add: follows_store_def)
  then have last: "e = cloneEvent ev"
    by (simp add: assms(4) hub_log_observed [OF assms(1,2)] server_events_clone last_map ev_def)
  have ev: "(ge_snapshot ev)\<lparr>gs_serverName := gs_serverName s\<rparr> = cloneSnapshot s"
    using f by (simp add: follows_store_def ev_def)
  then have "cloneSnapshot ((ge_snapshot ev)\<lparr>gs_serverName := gs_serverName s\<rparr>) = cloneSnapshot s" by simp
  then show eq: "(ge_snapshot e)\<lparr>gs_serverName := gs_serverName s\<rparr> = cloneSnapshot s"
    unfolding last by (simp add: cloneSnapshot_rename)
  show "gs_serverId s = i" by (rule f(1))
  show "event_server e = i" using arg_cong [OF eq, of gs_serverId] f(1) by simp
qed

text \<open>
  The answer to a request for the list, as the interface has it: what \<open>ListStatus\<close> gives at some
  moment of the server's run at which \<open>e\<close> is still the last event of server \<open>i\<close>.
\<close>

definition listed_after :: "(int \<Rightarrow> string) \<Rightarrow> int \<Rightarrow> g_event \<Rightarrow> server_snapshot list \<Rightarrow> bool" where
  "listed_after fmt i e fetched \<longleftrightarrow>
     (\<exists>c registered. server_run c \<and> \<not> hub_closed (co_hub c) \<and> co_store c i \<noteq> None \<and>
        e = last (server_events i (hub_log (co_hub c))) \<and> i \<in> sv_id ` set registered \<and>
        fetched = map (web_snapshot fmt) (ListStatus registered (co_store c)))"

lemma listed_after_entry:
  assumes "listed_after fmt i e fetched" and "distinct_ids fetched"
  shows "\<exists>n. snap_of fetched (go_num i) = Some ((web_snapshot fmt (ge_snapshot e))\<lparr>serverName := n\<rparr>)"
proof -
  obtain c registered s where c: "server_run c" "\<not> hub_closed (co_hub c)" "co_store c i = Some s"
      "e = last (server_events i (hub_log (co_hub c)))"
    and sv: "i \<in> sv_id ` set registered" and l: "fetched = map (web_snapshot fmt) (ListStatus registered (co_store c))"
    using assms(1) by (auto simp: listed_after_def)
  obtain server where server: "server \<in> set registered" "sv_id server = i" using sv by blast
  let ?x = "snapshotFor (co_store c) server"
  note e = last_event_stored [OF c]
  have "?x = (cloneSnapshot s)\<lparr>gs_serverId := i, gs_serverName := sv_name server\<rparr>"
    by (simp add: snapshotFor_def store_get_def c(3) server(2))
  also have "\<dots> = (ge_snapshot e)\<lparr>gs_serverName := sv_name server\<rparr>"
    using e(2) unfolding e(3) [symmetric] by (cases "ge_snapshot e") simp
  finally have x: "web_snapshot fmt ?x = (web_snapshot fmt (ge_snapshot e))\<lparr>serverName := sv_name server\<rparr>"
    by (simp add: web_snapshot_rename)
  have "?x \<in> set (ListStatus registered (co_store c))" using server(1) by (simp add: ListStatus_def)
  then have "web_snapshot fmt ?x \<in> set fetched" by (simp add: l)
  moreover have "serverId (web_snapshot fmt ?x) = go_num i" by (simp add: x) (simp add: web_snapshot_def e(2))
  ultimately have "snap_of fetched (go_num i) = Some (web_snapshot fmt ?x)"
    by (simp add: snap_of_iff [OF assms(2)])
  then show ?thesis using x by auto
qed

section \<open>A client among its other events\<close>

definition texts_of :: "live_event list \<Rightarrow> string list" where
  "texts_of es = List.map_filter (\<lambda>e. case e of Message t \<Rightarrow> Some t | _ \<Rightarrow> None) es"

lemma texts_of_simps [simp]:
  "texts_of [] = []"
  "texts_of (e # es) = (case e of Message t \<Rightarrow> [t] | _ \<Rightarrow> []) @ texts_of es"
  by (simp_all add: texts_of_def List.map_filter_simps split: live_event.split)

lemma mounted_step: "e \<noteq> Unmounted \<Longrightarrow> mountedRef s \<Longrightarrow> mountedRef (live_step lc e s)"
  by (cases e)
     (auto simp: loaded_def load_failed_def end_request_def handleSnapshot_def on_open_def on_error_def
        render_def Let_def split: option.split)

lemma mounted_run:
  "live_run lc s \<Longrightarrow> mountedRef s \<Longrightarrow> Unmounted \<notin> set es \<Longrightarrow> list_all event_ok es \<Longrightarrow>
   live_run lc (fold (live_step lc) es s) \<and> mountedRef (fold (live_step lc) es s)"
  by (induction es arbitrary: s) (auto simp del: live_step.simps intro: live_run.stepped mounted_step)

lemma requests_step:
  "e \<noteq> Unmounted \<Longrightarrow> requestGeneration s \<le> requestGeneration (live_step lc e s) \<and>
   (\<forall>g \<le> requestGeneration s. requests (live_step lc e s) g = requests s g)"
  by (cases e)
     (auto simp: loaded_def load_failed_def end_request_def handleSnapshot_def on_open_def on_error_def
        render_def Let_def split: option.split)

lemma revision_kept:
  "(\<And>t snap. e = Message t \<Longrightarrow> parseSnapshotEvent t = Some snap \<Longrightarrow> serverId snap \<noteq> j) \<Longrightarrow>
   serverEventRevisions (live_step lc e s) j = serverEventRevisions s j"
  by (cases e)
     (auto simp: loaded_def load_failed_def end_request_def handleSnapshot_def on_open_def on_error_def
        unmount_def render_def Let_def split: option.split)

text \<open>
  What will be shown for server \<open>j\<close> has the property \<open>P\<close> and comes from an event newer than every
  request up to the number \<open>G\<close>. Events that leave it so: messages of other servers, an answer to a
  request up to \<open>G\<close>, whatever it lists, and an answer to a later one whose entry of \<open>j\<close> has the
  property too.
\<close>

definition entry_holds ::
  "string compare_fun \<Rightarrow> jsnum \<Rightarrow> nat \<Rightarrow> nat \<Rightarrow> (server_snapshot \<Rightarrow> bool) \<Rightarrow> live_state \<Rightarrow> bool" where
  "entry_holds lc j \<rho> G P s \<longleftrightarrow>
     live_run lc s \<and> mountedRef s \<and> serverEventRevisions s j = Some \<rho> \<and> G \<le> requestGeneration s \<and>
     (\<forall>g \<le> G. \<forall>r. requests s g = Some r \<longrightarrow> r < \<rho>) \<and> (\<exists>x. shown_map lc s j = Some x \<and> P x)"

fun leaves_entry :: "jsnum \<Rightarrow> nat \<Rightarrow> (server_snapshot \<Rightarrow> bool) \<Rightarrow> live_event \<Rightarrow> bool" where
  "leaves_entry j G P (Message t) \<longleftrightarrow> (\<forall>snap. parseSnapshotEvent t = Some snap \<longrightarrow> serverId snap \<noteq> j)"
| "leaves_entry j G P (Loaded g fetched) \<longleftrightarrow>
     distinct_ids fetched \<and> (G < g \<longrightarrow> (\<exists>x. snap_of fetched j = Some x \<and> P x))"
| "leaves_entry j G P Unmounted \<longleftrightarrow> False"
| "leaves_entry j G P _ \<longleftrightarrow> True"

lemma entry_holds_step:
  assumes "entry_holds lc j \<rho> G P s" and "leaves_entry j G P e"
  shows "entry_holds lc j \<rho> G P (live_step lc e s)"
proof -
  have s: "live_run lc s" "mountedRef s" "serverEventRevisions s j = Some \<rho>" "G \<le> requestGeneration s"
    and old: "\<And>g r. g \<le> G \<Longrightarrow> requests s g = Some r \<Longrightarrow> r < \<rho>"
    using assms(1) by (auto simp: entry_holds_def)
  obtain x where x: "shown_map lc s j = Some x" "P x" using assms(1) by (auto simp: entry_holds_def)
  have ok: "event_ok e" and un: "e \<noteq> Unmounted" using assms(2) by (cases e; simp)+
  have "\<exists>y. map_step e s (shown_map lc s) j = Some y \<and> P y"
  proof (cases e)
    case (Loaded g fetched)
    show ?thesis
    proof (cases "g \<le> G")
      case True
      then have "newer_event (serverEventRevisions s) r j" if "requests s g = Some r" for r
        using old [OF True that] s(3) by (simp add: newer_event_def)
      then show ?thesis using x Loaded by (auto split: option.split)
    next
      case False
      then obtain y where "snap_of fetched j = Some y" "P y" using assms(2) Loaded by auto
      then show ?thesis using x Loaded by (auto split: option.split)
    qed
  next
    case (Message t)
    then show ?thesis using x assms(2) by (auto split: option.split)
  qed (use x in simp_all)
  then have shown: "\<exists>y. shown_map lc (live_step lc e s) j = Some y \<and> P y"
    using shown_map_step [OF s(1) ok] by simp
  have rev: "serverEventRevisions (live_step lc e s) j = Some \<rho>"
    using revision_kept [of e j lc s] s(3) assms(2) by (cases e) auto
  show ?thesis
    using live_run.stepped [OF s(1) ok] mounted_step [OF un s(2), of lc] rev requests_step [OF un, of s lc] s(4) old shown
    by (auto simp: entry_holds_def simp del: live_step.simps)
qed

lemma entry_holds_run:
  "entry_holds lc j \<rho> G P s \<Longrightarrow> list_all (leaves_entry j G P) es \<Longrightarrow>
   entry_holds lc j \<rho> G P (fold (live_step lc) es s)"
  by (induction es arbitrary: s) (simp_all add: entry_holds_step)

text \<open>The moment at which a message has been handled: every request so far is older than it.\<close>

lemma message_entry:
  assumes "live_run lc s" and "mountedRef s" and "parseSnapshotEvent t = Some snap" and "P snap"
    and "s' = live_step lc (Message t) s"
  shows "entry_holds lc (serverId snap) (eventRevision s + 1) (requestGeneration s') P s'"
proof -
  have ok: "event_ok (Message t)" by simp
  have "\<forall>g r. requests s g = Some r \<longrightarrow> r \<le> eventRevision s"
    using live_run_revisions [OF assms(1)] by (simp add: revisions_ok_def)
  moreover have "shown_map lc s' = (shown_map lc s)(serverId snap \<mapsto> snap)"
    using shown_map_step [OF assms(1) ok] assms(2,3,5) by simp
  moreover have "live_run lc s'" unfolding assms(5) by (rule live_run.stepped [OF assms(1) ok])
  ultimately show ?thesis
    using assms(2-4) unfolding entry_holds_def assms(5)
    by (auto simp: handleSnapshot_def Let_def less_Suc_eq_le)
qed

lemma other_messages_leave:
  assumes "list_all2 (event_text fmt) (texts_of es) out" and "server_events i out = []"
    and "\<bar>i\<bar> \<le> 2 ^ 53" and "list_all (\<lambda>e. \<bar>event_server e\<bar> \<le> 2 ^ 53) out"
    and "Unmounted \<notin> set es" and "list_all event_ok es"
    and "\<And>g fetched. Loaded g fetched \<in> set es \<Longrightarrow> G < g \<Longrightarrow> \<exists>x. snap_of fetched (go_num i) = Some x \<and> P x"
  shows "list_all (leaves_entry (go_num i) G P) es"
  using assms
proof (induction es arbitrary: out)
  case (Cons ev es)
  show ?case
  proof (cases "\<exists>t. ev = Message t")
    case True
    then obtain t d out' where t: "ev = Message t" "out = d # out'" "event_text fmt t d"
        "list_all2 (event_text fmt) (texts_of es) out'"
      using Cons.prems(1) by (auto simp: list_all2_Cons1)
    have p: "parseSnapshotEvent t = Some (web_snapshot fmt (ge_snapshot d))"
      using t(3) by (intro event_accepted) (simp add: event_text_def)
    have d: "event_server d \<noteq> i" "server_events i out' = []"
      using Cons.prems(2) t(2) by (simp_all add: server_events_def split: if_splits)
    then have "go_num (event_server d) \<noteq> go_num i"
      using go_num_inj [of "event_server d" i] Cons.prems(3,4) t(2) by simp
    then have "leaves_entry (go_num i) G P ev" by (simp add: t(1) p web_snapshot_def)
    moreover have "list_all (leaves_entry (go_num i) G P) es"
      using Cons.prems t(2) d(2) by (intro Cons.IH [OF t(4)]) auto
    ultimately show ?thesis by simp
  next
    case False
    then have "list_all2 (event_text fmt) (texts_of es) out"
      using Cons.prems(1) by (cases ev) simp_all
    then have "list_all (leaves_entry (go_num i) G P) es"
      using Cons.prems by (intro Cons.IH [of out]) auto
    moreover have "leaves_entry (go_num i) G P ev"
      using False Cons.prems(5,6,7) by (cases ev) auto
    ultimately show ?thesis by simp
  qed
qed simp

text \<open>
  C1: The interface shows what the server has stored. A client has read from its stream the last
  event of a server, with any of its other events before, between and after the messages: renders,
  reconnections, refreshes, and loads that succeed or fail. A load that was begun before the message
  may be answered later, with any list at all: it does not undo the message. A load begun after the
  message is answered with what \<open>ListStatus\<close> gives, from any list of servers that has this one, while
  that event is still the last one of the server. Then the next render shows of the server the snapshot in the server's store, online or
  offline, field by field, up to a change of the server's name that no event reports; the counters
  are rounded to the nearest number of binary64.
\<close>

theorem client_shows_store:
  assumes "server_run c" and "\<not> hub_closed (co_hub c)" and "co_store c i = Some s"
    and "e = last (server_events i (hub_log (co_hub c)))"
    and "hub_subs (co_hub c) k = Some sub" and "sub_out sub = out1 @ e # out2 @ out3"
    and "server_events i out2 = []" and "\<bar>i\<bar> \<le> 2 ^ 53"
    and "list_all (\<lambda>e. \<bar>event_server e\<bar> \<le> 2 ^ 53) (sub_out sub)"
    and "live_run lc w" and "mountedRef w" and "Unmounted \<notin> set (before @ later)"
    and "list_all event_ok (before @ later)" and "list_all2 (event_text fmt) (texts_of before) out1"
    and "event_text fmt t e" and "list_all2 (event_text fmt) (texts_of later) out2"
    and "w' = fold (live_step lc) (before @ [Message t]) w"
    and "\<And>g fetched. Loaded g fetched \<in> set later \<Longrightarrow> requestGeneration w' < g \<Longrightarrow> listed_after fmt i e fetched"
  shows "\<exists>shown. snap_of (snapshots (live_step lc Rendered (fold (live_step lc) later w'))) (go_num i) = Some shown \<and>
    shown\<lparr>serverName := gs_serverName s\<rparr> = web_snapshot fmt (cloneSnapshot s)"
proof -
  note e = last_event_stored [OF assms(1-4)]
  let ?x = "web_snapshot fmt (ge_snapshot e)"
  let ?P = "\<lambda>x. \<exists>n. x = ?x\<lparr>serverName := n\<rparr>"
  have w1: "live_run lc (fold (live_step lc) before w)" "mountedRef (fold (live_step lc) before w)"
    using mounted_run [OF assms(10,11)] assms(12,13) by simp_all
  have p: "parseSnapshotEvent t = Some ?x"
    using assms(15) by (intro event_accepted) (simp add: event_text_def)
  have "?P ?x" by (rule exI [of _ "serverName ?x"]) simp
  from message_entry [of lc, OF w1 p, where P = ?P, OF this refl]
  obtain \<rho> where "entry_holds lc (go_num i) \<rho> (requestGeneration w') ?P w'"
    by (auto simp: assms(17) web_snapshot_def e(2) simp del: live_step.simps)
  moreover have "list_all (leaves_entry (go_num i) (requestGeneration w') ?P) later"
  proof (rule other_messages_leave [OF assms(16,7,8)])
    fix g fetched assume "Loaded g fetched \<in> set later" and "requestGeneration w' < g"
    moreover have "distinct_ids fetched"
      using bspec [OF assms(13) [unfolded list_all_iff], of "Loaded g fetched"] calculation(1) by simp
    ultimately show "\<exists>x. snap_of fetched (go_num i) = Some x \<and> ?P x"
      using listed_after_entry [OF assms(18)] by blast
  qed (use assms(9,12,13) in \<open>simp_all add: assms(6)\<close>)
  ultimately have h: "entry_holds lc (go_num i) \<rho> (requestGeneration w') ?P (fold (live_step lc) later w')"
    by (rule entry_holds_run)
  then have "live_run lc (fold (live_step lc) later w')" by (simp add: entry_holds_def)
  then have "snap_of (snapshots (live_step lc Rendered (fold (live_step lc) later w'))) =
      shown_map lc (fold (live_step lc) later w')"
    using shown_map_step [of lc _ Rendered] by simp
  then obtain n where
    "snap_of (snapshots (live_step lc Rendered (fold (live_step lc) later w'))) (go_num i) = Some (?x\<lparr>serverName := n\<rparr>)"
    using h by (auto simp: entry_holds_def simp del: live_step.simps)
  moreover have "?x\<lparr>serverName := gs_serverName s\<rparr> = web_snapshot fmt (cloneSnapshot s)"
    unfolding e(3) [symmetric] by (rule web_snapshot_rename)
  ultimately show ?thesis by simp
qed

definition sample_read :: coordinator where
  "sample_read = sample_live\<lparr>co_hub := sse_take 0 (co_hub sample_live)\<rparr>"

definition sample_event :: g_event where
  "sample_event = \<lparr>ge_type = SnapshotUpdated, ge_snapshot = sample_go_snapshot\<rparr>"

definition sample_fmt :: "int \<Rightarrow> string" where
  "sample_fmt t = ''2025-07-27T04:00:00Z''"

lemma sample_read_run: "server_run sample_read"
  unfolding sample_read_def by (rule run_take [OF sample_live_run])

lemma sample_read_sub:
  "hub_subs (co_hub sample_read) 0 =
     Some \<lparr>sub_open = True, sub_queue = [], sub_out = [sample_event], sub_joined = 0\<rparr>"
  by (simp add: sample_read_def sse_take_def sample_live_sub receive_def sample_event_def)

lemma sample_read_store: "co_store sample_read 3 = Some sample_go_snapshot"
  by (simp add: sample_read_def sample_live_def co_accept_def UpsertFrom_def Let_def cloneReport_def
      sample_go_snapshot_def sample_go_report_def)

lemma sample_read_hub: "hub_log (co_hub sample_read) = [sample_event]" "\<not> hub_closed (co_hub sample_read)"
  by (simp_all add: sample_read_def sse_take_def sample_live_def co_accept_def UpsertFrom_def Let_def
      Subscribe_def NewHub_def Publish_def cloneEvent_def cloneSnapshot_def cloneReport_def
      sample_event_def sample_go_snapshot_def sample_go_report_def)

lemma sample_event_text: "event_text sample_fmt (stringify (event_json sample_fmt sample_event)) sample_event"
  unfolding event_text_def
  by (rule stringify_round_trip)
     (simp add: event_json_def go_snapshot_json_def go_report_json_def host_json_def go_disk_json_def
       sample_event_def sample_go_snapshot_def sample_go_report_def sample_fmt_def float_of_exact
       go_num_exact max_safe_def)

text \<open>
  A load is begun, the message of the event comes, then the answer to the load, with an empty list,
  which has no effect on the server of the event; the next load is answered with the present list.
\<close>

definition sample_text :: string where
  "sample_text = stringify (event_json sample_fmt sample_event)"

definition sample_list :: "server_snapshot list" where
  "sample_list = map (web_snapshot sample_fmt) (ListStatus [sample_server] (co_store sample_read))"

theorem client_shows_store_witness:
  "\<exists>shown. snap_of (snapshots (live_step by_length Rendered (fold (live_step by_length)
      [Loaded 1 [], Rendered, Refresh, Opened, Loaded 2 sample_list, ConnectionLost]
      (fold (live_step by_length) ([Refresh] @ [Message sample_text]) initial_live)))) (go_num 3) = Some shown \<and>
    shown\<lparr>serverName := ''home-lab''\<rparr> = web_snapshot sample_fmt (cloneSnapshot sample_go_snapshot)"
proof -
  let ?later = "[Loaded 1 [], Rendered, Refresh, Opened, Loaded 2 sample_list, ConnectionLost]"
  have e: "sample_event = last (server_events 3 (hub_log (co_hub sample_read)))"
    by (simp add: sample_read_hub sample_event_def sample_go_snapshot_def server_events_def)
  have out: "sub_out \<lparr>sub_open = True, sub_queue = [], sub_out = [sample_event], sub_joined = 0\<rparr> =
      [] @ sample_event # [] @ []" by simp
  have "listed_after sample_fmt 3 sample_event sample_list"
    unfolding listed_after_def sample_list_def using sample_read_run sample_read_hub(2) sample_read_store e
    by (intro exI [of _ sample_read] exI [of _ "[sample_server]"]) simp
  then have answer: "listed_after sample_fmt 3 sample_event fetched"
    if "Loaded g fetched \<in> set ?later"
      and "requestGeneration (fold (live_step by_length) ([Refresh] @ [Message sample_text]) initial_live) < g"
    for g fetched
    using that by (auto simp: initial_live_def handleSnapshot_def Let_def split: option.splits)
  have ok: "list_all event_ok ([Refresh] @ ?later)" by (simp add: sample_list_def ListStatus_def)
  have texts: "list_all2 (event_text sample_fmt) (texts_of [Refresh]) []"
    "list_all2 (event_text sample_fmt) (texts_of ?later) []" by simp_all
  have msg: "event_text sample_fmt sample_text sample_event"
    using sample_event_text by (simp add: sample_text_def)
  have small: "list_all (\<lambda>e. \<bar>event_server e\<bar> \<le> 2 ^ 53)
      (sub_out \<lparr>sub_open = True, sub_queue = [], sub_out = [sample_event], sub_joined = 0\<rparr>)"
    by (simp add: sample_event_def sample_go_snapshot_def)
  have "mountedRef initial_live" by (simp add: initial_live_def)
  then show ?thesis
    using client_shows_store [OF sample_read_run sample_read_hub(2) sample_read_store e sample_read_sub out _ _ small
        live_run.started _ _ ok texts(1) msg texts(2) refl answer]
    by (simp add: sample_go_snapshot_def server_events_def del: live_step.simps)
qed

section \<open>History\<close>

definition web_disk_minute :: "g_disk_minute \<Rightarrow> disk_minute" where
  "web_disk_minute d =
     \<lparr>dm_mountpoint = gd_mountpoint d, dm_usage = gd_usage d, dm_totalBytes = float_of (gd_total d),
      dm_usedBytes = float_of (gd_used d)\<rparr>"

definition web_minute :: "g_minute \<Rightarrow> minute_record" where
  "web_minute r =
     (let p = gm_payload r
      in \<lparr>mr_serverId = go_num (gm_serverId r), minuteUnix = go_num (gm_minuteUnix r),
          payload =
            \<lparr>cpuUsage = gp_cpuUsage p, load1 = gp_load1 p, load5 = gp_load5 p, load15 = gp_load15 p,
             memoryUsage = gp_memoryUsage p, swapUsage = gp_swapUsage p,
             pl_disks = map web_disk_minute (gp_disks p), diskReadBps = gp_diskRead p,
             diskWriteBps = gp_diskWrite p, uploadBps = gp_upload p, downloadBps = gp_download p,
             totalUpload = float_of (gp_totalUpload p), totalDownload = float_of (gp_totalDownload p)\<rparr>\<rparr>)"

text \<open>The response of \<open>Get\<close>, as the value that the interface parses from its JSON.\<close>

definition history_json :: "int \<Rightarrow> int \<Rightarrow> g_minute list \<Rightarrow> jv" where
  "history_json fromU toU recs =
     JObj [(''fromUnix'', JNum (go_num fromU)), (''toUnix'', JNum (go_num toU)),
           (''points'', JArr (map (\<lambda>r. json_of_record (web_minute r)) recs))]"

lemma web_minute_key: "get_opt ''minuteUnix'' (json_of_record (web_minute r)) = JNum (go_num (gm_minuteUnix r))"
  by (simp add: json_of_record_def web_minute_def Let_def)

lemma history_get_reply:
  assumes "history_get range_text (Some i) lookup now fails rows = HistoryReply f t recs"
  shows "t = minute_of now" and "60 dvd f" and "f \<le> t" and "t - f \<le> maxHistoryQuerySeconds"
    and "Query fails rows i f t = Inr recs"
proof -
  obtain d where d: "historyDuration range_text = Some d" "t = minute_of now" "f = t - d"
      "Query fails rows i f t = Inr recs"
    using assms by (auto simp: history_get_def Let_def split: option.splits if_splits sum.splits query_error.splits)
  then have "d \<in> {86400, 604800, 2592000}" by (auto simp: historyDuration_def split: if_splits)
  with d show "t = minute_of now" "60 dvd f" "f \<le> t" "t - f \<le> maxHistoryQuerySeconds"
      "Query fails rows i f t = Inr recs"
    by (auto simp: maxHistoryQuerySeconds_def intro!: dvd_diff)
qed

lemma reply_bounds:
  assumes "0 \<le> now" and "now < 2 ^ 63" and "t = minute_of now" and "60 dvd f" and "f \<le> t"
    and "t - f \<le> maxHistoryQuerySeconds"
  shows "valid_bounds f t" and "\<bar>f\<bar> \<le> 2 ^ 53" and "\<bar>t\<bar> \<le> 2 ^ 53"
proof -
  have "0 \<le> now div 60000000000" "now div 60000000000 \<le> 2 ^ 63 div 60000000000"
    using assms(1,2) by (simp_all add: pos_imp_zdiv_nonneg_iff zdiv_mono1)
  then have "0 \<le> t" "t \<le> 9223372080" by (simp_all add: assms(3) minute_of_def)
  then show "valid_bounds f t" "\<bar>f\<bar> \<le> 2 ^ 53" "\<bar>t\<bar> \<le> 2 ^ 53"
    using assms(3-6) by (auto simp: valid_bounds_def max_safe_def maxHistoryQuerySeconds_def abs_le_iff)
qed

text \<open>A stored row of the range is what the chart reads at its minute.\<close>

lemma row_at_minute:
  assumes "rows_ok rows" and "valid_bounds f t" and "\<bar>f\<bar> \<le> 2 ^ 53" and "\<bar>t\<bar> \<le> 2 ^ 53"
    and "map_of rows (i, m) = Some (Some p)" and "f \<le> m" and "m \<le> t"
    and "recs = map (decode_row i) (query_rows rows i f t)"
  shows "\<exists>h ai. isHistoryResponse (history_json f t recs) = Some h \<and> aligned_index_of h = Some ai \<and>
    records ai ! nat ((m - f) div 60) =
      Some (json_of_record (web_minute \<lparr>gm_serverId = i, gm_minuteUnix = m, gm_payload = p\<rparr>))"
proof -
  let ?r = "\<lparr>gm_serverId = i, gm_minuteUnix = m, gm_payload = p\<rparr>"
  let ?json = "\<lambda>r. json_of_record (web_minute r)"
  define h where "h = \<lparr>fromUnix = num_of_int f, toUnix = num_of_int t, points = JArr (map ?json recs)\<rparr>"
  have vh: "valid_history h f t" using assms(2) by (simp add: valid_history_def h_def)
  have isr: "isHistoryResponse (history_json f t recs) = Some h"
    using assms(2) isValidHistoryRange_int [of f t]
    by (simp add: isHistoryResponse_def history_json_def go_num_exact [OF assms(3)] go_num_exact [OF assms(4)] h_def)
  obtain ai where ai: "aligned_index_of h = Some ai"
    using aligned_index_of_cases [of h] vh by (metis h_def history_response.select_convs(3) is_array.simps(1))
  have dist: "distinct (map fst rows)" using assms(1) by (simp add: rows_ok_def)
  have row: "((i, m), Some p) \<in> set rows" using assms(5) by (rule map_of_SomeD)
  then have dvd: "60 dvd m" using assms(1) by (fastforce simp: rows_ok_def)
  have recs_m: "r = ?r" if "r \<in> set recs" "gm_minuteUnix r = m" for r
  proof -
    have "r \<in> decode_row i ` set (query_rows rows i f t)" using that(1) by (simp only: assms(8) set_map)
    then obtain x where x: "x \<in> set (query_rows rows i f t)" "r = decode_row i x" by (elim imageE)
    then have "((i, m), snd x) \<in> set rows" using that(2) by (simp add: query_rows_member decode_row_def)
    then have "snd x = Some p" using dist assms(5) by (metis map_of_is_SomeI option.inject)
    then show ?thesis using x(2) that(2) by (simp add: decode_row_def)
  qed
  have in_recs: "?r \<in> set recs"
  proof -
    have "(m, Some p) \<in> set (query_rows rows i f t)" using row assms(6,7) by (simp add: query_rows_member)
    then have "decode_row i (m, Some p) \<in> set recs" unfolding assms(8) set_map by (rule imageI)
    then show ?thesis by (simp add: decode_row_def)
  qed
  have small: "\<bar>gm_minuteUnix r\<bar> \<le> 2 ^ 53" if "r \<in> set recs" for r
    using that assms(3,4) unfolding assms(8) by (auto simp: query_rows_member decode_row_def abs_le_iff)
  have "v = ?json ?r" if v: "v \<in> set (points_of_minute h m)" for v
  proof -
    obtain r where r: "r \<in> set recs" "v = ?json r" "go_num (gm_minuteUnix r) = num_of_int m"
      using v by (auto simp: points_of_minute_def h_def web_minute_key)
    have "num_of_int (gm_minuteUnix r) = num_of_int m"
      using go_num_exact [OF small [OF r(1)]] r(3) by (rule subst)
    then have "gm_minuteUnix r = m" by simp
    from recs_m [OF r(1) this] r(2) show ?thesis by simp
  qed
  moreover have "?json ?r \<in> set (points_of_minute h m)"
  proof -
    have "is_plain_object (?json ?r)" by (simp add: json_of_record_def)
    moreover have "get_opt ''minuteUnix'' (?json ?r) = JNum (num_of_int m)"
      using go_num_exact [OF small [OF in_recs]] by (simp add: web_minute_key)
    moreover have "?json ?r \<in> set (elements (points h))" using in_recs by (simp add: h_def)
    ultimately show ?thesis unfolding points_of_minute_def set_filter by blast
  qed
  ultimately have last: "points_of_minute h m \<noteq> [] \<and> last (points_of_minute h m) = ?json ?r"
    by (metis last_in_set length_pos_if_in_set length_greater_0_conv)
  define j where "j = nat ((m - f) div 60)"
  have "60 dvd m - f" using dvd assms(2) by (simp add: valid_bounds_def)
  then obtain q where "m - f = 60 * q" by (elim dvdE)
  then have mj: "f + 60 * int j = m" using assms(6) by (simp add: j_def)
  have "int j < int (minute_count h)" using minute_count_range(3) [OF vh] mj assms(7) by (simp add: algebra_simps)
  then have jc: "j < minute_count h" by simp
  have "records ai ! j = last_point_at h j"
    using aligned_records [OF ai] jc by simp
  also have "\<dots> = Some (?json ?r)"
    using last_point_at_minute [OF vh jc] last unfolding mj by (cases "points_of_minute h m") simp_all
  finally show ?thesis using isr ai unfolding j_def by blast
qed

text \<open>
  C3: A report reaches the chart. Take any run of the aggregator in which no report came late for a
  flushed minute, and any successful answer of the history endpoint. For a minute of the range with
  accepted reports and no bucket left, the interface accepts the answer, and the slot of the minute
  in the index that its charts are drawn from holds the record of exactly these reports.
\<close>

theorem reports_reach_chart:
  assumes "in_order UpsertMinute ops (ag_start rows) (\<lambda>k. [])" and "length ops < 2 ^ 64" and "rows_ok rows"
    and "accepted_reports ops (i, m) \<noteq> []"
    and "map_of (ag_buckets (ag_run UpsertMinute ops (ag_start rows))) (i, m) = None"
    and "history_get range_text (Some i) lookup now (\<lambda>n. False) (ag_db (ag_run UpsertMinute ops (ag_start rows))) =
      HistoryReply f t recs"
    and "0 \<le> now" and "now < 2 ^ 63" and "f \<le> m" and "m \<le> t"
  shows "\<exists>h ai. isHistoryResponse (history_json f t recs) = Some h \<and> aligned_index_of h = Some ai \<and>
    records ai ! nat ((m - f) div 60) =
      Some (json_of_record (web_minute (minute_record_of (i, m) (accepted_reports ops (i, m)))))"
proof -
  let ?db = "ag_db (ag_run UpsertMinute ops (ag_start rows))"
  note reply = history_get_reply [OF assms(6)]
  have ok: "rows_ok ?db" using assms(3) by (rule rows_ok_run)
  have recs: "recs = map (decode_row i) (query_rows ?db i f t)"
    using Query_rows [OF ok _ reply(3,4,2), of "\<lambda>n. False" i] reply(5) by simp
  have "read_row ?db (i, m) = Some (minute_record_of (i, m) (accepted_reports ops (i, m)))"
    using store_writer.no_report_lost [OF assms(1,2,4)] assms(5) by simp
  then obtain p where p: "map_of ?db (i, m) = Some (Some p)"
      "minute_record_of (i, m) (accepted_reports ops (i, m)) = \<lparr>gm_serverId = i, gm_minuteUnix = m, gm_payload = p\<rparr>"
    by (auto simp: read_row_def split: option.splits)
  show ?thesis
    unfolding p(2)
    using row_at_minute [OF ok reply_bounds [OF assms(7,8) reply(1-4)] p(1) assms(9,10) recs] .
qed

lemma single_finite:
  assumes "0 \<le> v" and "v \<le> 2 ^ 53"
  shows "pair_finite (numeric_pair (numeric_add (Fin v) numeric_zero))"
proof -
  have "v \<le> of_int (2 ^ 53)" using assms(2) by simp
  then have "numeric_ok (2 ^ 53) (Suc 0) (numeric_add (Fin v) numeric_zero)"
    using assms(1) by (intro numeric_ok_add numeric_ok_zero) simp_all
  from numeric_ok_pair [OF this] show ?thesis by (auto simp: pair_finite_def)
qed

lemma single_percent_finite:
  assumes "used \<le> tot"
  shows "pair_finite (numeric_pair (numeric_add (usage_percent used tot) numeric_zero))"
proof -
  obtain x where x: "usage_percent used tot = Fin x" "0 \<le> x" "x \<le> 100"
    using usage_percent_range [OF assms] by auto
  then show ?thesis by (simp add: single_finite)
qed

lemma single_counter_finite:
  "uint w \<le> 2 ^ 53 \<Longrightarrow> pair_finite (numeric_pair (numeric_add (float_of w) numeric_zero))"
proof -
  assume w: "uint w \<le> 2 ^ 53"
  have "(of_int (uint w) :: rat) \<le> of_int (2 ^ 53)" using w by (simp only: of_int_le_iff)
  then show "pair_finite (numeric_pair (numeric_add (float_of w) numeric_zero))"
    using float_of_exact [OF w] uint_u64(1) [of w] by (simp add: single_finite)
qed

definition sample_flush :: "(bucket_key \<Rightarrow> bool) ag_op list" where
  "sample_flush =
     [AgAccept 3 sample_go_report (1753588805 * 1000000000), AgFlush (1753588860 * 1000000000),
      AgWrite (\<lambda>k. False), AgSettle]"

lemma sample_flush_minute: "marshal_ok (gm_payload (acc_finish i m (acc_add t sample_go_report acc_zero)))"
  by (simp add: marshal_ok_def acc_finish_def acc_add_def acc_zero_def Let_def newer_def sample_go_report_def
      report_disks_def disks_list_def acc_disk_def finish_disk_def single_finite single_percent_finite
      single_counter_finite split: option.split)

lemma sample_flush_done:
  "map_of (ag_buckets (ag_run UpsertMinute sample_flush (ag_start []))) (3, 1753588800) = None"
  by (simp add: sample_flush_def ag_run_def ag_start_def ag_accept_def flush_begin_def flush_write_def
      flush_settle_def candidate_of_def UpsertMinute_def sample_flush_minute Let_def sample_minute [simplified])

lemma sample_flush_order: "in_order UpsertMinute sample_flush (ag_start []) (\<lambda>k. [])"
  by (simp add: sample_flush_def ag_start_def)

lemma sample_flush_accepted: "accepted_reports sample_flush (3, 1753588800) = [(sample_go_report, 1753588805 * 1000000000)]"
  by (simp add: accepted_reports_def sample_flush_def sample_minute [simplified])

lemma sample_reply:
  assumes "rows_ok rows"
  shows "history_get ''1d'' (Some 3) (\<lambda>i. Inr sample_server) (1753588865 * 1000000000)
      (\<lambda>n. False) rows =
    HistoryReply 1753502460 1753588860 (map (decode_row 3) (query_rows rows 3 1753502460 1753588860))"
  using Query_rows [OF assms, of "\<lambda>n. False" 1753502460 1753588860 3]
  by (simp add: history_get_def historyDuration_def minute_of_def Let_def maxHistoryQuerySeconds_def)

theorem reports_reach_chart_witness:
  "\<exists>recs h ai. isHistoryResponse (history_json 1753502460 1753588860 recs) = Some h \<and> aligned_index_of h = Some ai \<and>
    records ai ! nat ((1753588800 - 1753502460) div 60) =
      Some (json_of_record (web_minute (minute_record_of (3, 1753588800)
        [(sample_go_report, 1753588805 * 1000000000)])))"
proof -
  have "rows_ok (ag_db (ag_run UpsertMinute sample_flush (ag_start [])))"
    by (rule rows_ok_run) (simp add: rows_ok_def)
  note reply = sample_reply [OF this]
  show ?thesis
    using reports_reach_chart [OF sample_flush_order _ _ _ sample_flush_done reply]
    unfolding sample_flush_accepted by (fastforce simp: sample_flush_def rows_ok_def)
qed

end
