(* ===== verification/AlertPageServer.thy ===== *)
theory AlertPageServer
  imports AlertListing HistoryHookProps
begin

text \<open>
  The alerts page and the server together: the pages of the events, the JSON of an event and what the
  page reads of it, and the list of rules while rules are created, changed and removed.
\<close>

section \<open>The pages of the events\<close>

text \<open>
  C30: The pages of the alert events join. At any time, a page of the newest events, or of those before
  some id, and the page that is asked for with the id of its last event are together the page of
  both sizes: no event is left out and none appears twice. The events come newest first, each
  with its server's name, its rule's metric and its attempts.
\<close>

theorem event_pages_join:
  assumes "probe_run lb p" and "0 \<le> b" and "1 \<le> l" and "1 \<le> m" and "l + m \<le> 100"
    and "ListEvents (registered (ss_registry (pb_system p))) False (\<lambda>i. False) b l (pb_alerts p) = Inr page"
    and "page \<noteq> []"
  shows "\<exists>next.
    ListEvents (registered (ss_registry (pb_system p))) False (\<lambda>i. False) (ae_id (es_event (last page))) m
      (pb_alerts p) = Inr next \<and>
    ListEvents (registered (ss_registry (pb_system p))) False (\<lambda>i. False) b (l + m) (pb_alerts p) = Inr (page @ next) \<and>
    sorted_wrt (>) (map (ae_id \<circ> es_event) (page @ next)) \<and>
    set (map es_event (page @ next)) \<subseteq> set (db_events (pb_alerts p))"
proof -
  let ?srvs = "registered (ss_registry (pb_system p))" and ?db = "pb_alerts p"
  have ok: "alert_tables_ok ?srvs ?db" using probe_run_ok [OF assms(1)] by (simp add: probe_ok_def Let_def)
  have page: "page = map (listed_event ?srvs ?db) (take (nat l) (events_before b ?db))"
    using assms ListEvents_eq [OF ok assms(2), of l] by simp
  then have ne: "take (nat l) (events_before b ?db) \<noteq> []" using assms(7) by auto
  have ids: "es_event (listed_event ?srvs ?db e) = e" if "e \<in> set (events_before c ?db)" for e c
    using listed_event_id [OF ok] events_before_stored that by blast
  have "last (take (nat l) (events_before b ?db)) \<in> set (events_before b ?db)"
    using ne by (meson in_set_takeD last_in_set)
  then have c: "ae_id (es_event (last page)) = ae_id (last (take (nat l) (events_before b ?db)))"
    using ne ids by (simp add: page last_map)
  note join = events_before_join [OF ok assms(2) ne]
  have more: "page @ map (listed_event ?srvs ?db) (take (nat m) (events_before (ae_id (es_event (last page))) ?db)) =
      map (listed_event ?srvs ?db) (take (nat (l + m)) (events_before b ?db))"
    unfolding c using join(2) assms(3,4) by (simp add: page nat_add_distrib flip: map_append)
  note es = listed_events [OF ok] and dec = events_before_sorted [OF ok]
  show ?thesis
  proof (intro exI conjI)
    show "ListEvents ?srvs False (\<lambda>i. False) (ae_id (es_event (last page))) m ?db =
        Inr (map (listed_event ?srvs ?db) (take (nat m) (events_before (ae_id (es_event (last page))) ?db)))"
      using join(1) assms(3-5) by (intro ListEvents_eq [OF ok]) (simp_all add: c)
    show "ListEvents ?srvs False (\<lambda>i. False) b (l + m) ?db =
        Inr (page @ map (listed_event ?srvs ?db) (take (nat m) (events_before (ae_id (es_event (last page))) ?db)))"
      unfolding more using assms(2-5) by (intro ListEvents_eq [OF ok]) simp_all
    show "sorted_wrt (>) (map (ae_id \<circ> es_event)
        (page @ map (listed_event ?srvs ?db) (take (nat m) (events_before (ae_id (es_event (last page))) ?db))))"
      unfolding more using dec es by (metis map_map)
    show "set (map es_event (page @ map (listed_event ?srvs ?db)
        (take (nat m) (events_before (ae_id (es_event (last page))) ?db)))) \<subseteq> set (db_events ?db)"
      unfolding more es using events_before_stored [of b] by (meson order_trans set_take_subset)
  qed
qed

section \<open>An event on the page\<close>

text \<open>
  The JSON of an attempt and of an event, with the fields that \<^verbatim>\<open>omitempty\<close> leaves out: a nil pointer and
  an empty slice.
\<close>

definition attempt_json :: "(int \<Rightarrow> string) \<Rightarrow> attempt_row \<Rightarrow> jv" where
  "attempt_json sec_text row =
     (let a = wr_attempt row
      in JObj ([(''id'', JNum (num_of_int (wr_id row)))] @
               optional_field ''eventId'' (map_option (JNum \<circ> num_of_int) (ga_eventId a)) @
               [(''isTest'', JBool (ga_isTest a)), (''attempt'', JNum (num_of_int (ga_attempt a)))] @
               optional_field ''responseStatus'' (map_option (JNum \<circ> num_of_int) (at_responseStatus (ga_result a))) @
               [(''errorText'', JStr (at_errorText (ga_result a))),
                (''sentAt'', JStr (time_text sec_text (wr_sentAt row)))]))"

definition alert_event_json :: "(int \<Rightarrow> string) \<Rightarrow> event_result \<Rightarrow> jv" where
  "alert_event_json sec_text r =
     (let e = es_event r
      in JObj ([(''id'', JNum (num_of_int (ae_id e))), (''ruleId'', JNum (num_of_int (ae_ruleId e))),
                (''serverId'', JNum (num_of_int (ae_serverId e))), (''serverName'', JStr (es_serverName r)),
                (''metric'', JStr (es_metric r)),
                (''status'', JStr (case go_event.ae_status e of None \<Rightarrow> '''' | Some st \<Rightarrow> status_name st))] @
               optional_field ''currentValue'' (map_option JNum (ae_currentValue e)) @
               optional_field ''threshold'' (map_option (JNum \<circ> Fin) (ae_threshold e)) @
               [(''startedAt'', JStr (time_text sec_text (ae_startedAt e)))] @
               optional_field ''endedAt'' (map_option (JStr \<circ> time_text sec_text) (ae_endedAt e)) @
               [(''createdAt'', JStr (time_text sec_text (nullish (ae_createdAt e) zero_time)))] @
               optional_field ''attempts''
                 (if es_attempts r = [] then None else Some (JArr (map (attempt_json sec_text) (es_attempts r))))))"

text \<open>
  \<open>event.attempts.length\<close> in the button of a row; \<open>None\<close> is the \<open>TypeError\<close> that reading a property of
  undefined throws, which takes the page down.
\<close>

definition attempts_length :: "jv \<Rightarrow> nat option" where
  "attempts_length event = (case get_opt ''attempts'' event of JArr xs \<Rightarrow> Some (length xs) | _ \<Rightarrow> None)"

definition events_rendered :: "jv list \<Rightarrow> bool" where
  "events_rendered events \<longleftrightarrow> list_all (\<lambda>event. attempts_length event \<noteq> None) events"

lemma attempts_length_event:
  "attempts_length (alert_event_json sec_text r) = (if es_attempts r = [] then None else Some (length (es_attempts r)))"
  by (cases "ae_currentValue (es_event r)"; cases "ae_threshold (es_event r)"; cases "ae_endedAt (es_event r)")
    (simp_all add: attempts_length_def alert_event_json_def optional_field_def Let_def)

text \<open>
  C31: The alerts page shows the events exactly when each of them has an attempt of a delivery. An event
  without one, which is every event while no webhook is switched on, comes without the member
  \<open>attempts\<close>, and the page reads its length: instead of the row, and of the hint that nothing has been
  delivered, the page fails.
\<close>

theorem undelivered_event_breaks_page:
  assumes "probe_run lb p"
    and "ListEvents (registered (ss_registry (pb_system p))) False (\<lambda>i. False) b l (pb_alerts p) = Inr page"
  shows "events_rendered (map (alert_event_json sec_text) page) \<longleftrightarrow>
    (\<forall>r \<in> set page. \<exists>row \<in> set (db_attempts (pb_alerts p)). ga_eventId (wr_attempt row) = Some (ae_id (es_event r)))"
proof -
  let ?srvs = "registered (ss_registry (pb_system p))" and ?db = "pb_alerts p"
  have ok: "alert_tables_ok ?srvs ?db" using probe_run_ok [OF assms(1)] by (simp add: probe_ok_def Let_def)
  have bounds: "0 \<le> b" "1 \<le> l" "l \<le> 100" using assms(2) by (auto simp: ListEvents_def split: if_splits)
  have page: "page = map (listed_event ?srvs ?db) (take (nat l) (events_before b ?db))"
    using assms(2) ListEvents_eq [OF ok bounds] by simp
  have "es_attempts r = filter (\<lambda>row. ga_eventId (wr_attempt row) = Some (ae_id (es_event r))) (db_attempts ?db)"
    if r: "r \<in> set page" for r
  proof -
    obtain e where taken: "e \<in> set (take (nat l) (events_before b ?db))" and e: "r = listed_event ?srvs ?db e"
      using r unfolding page set_map by blast
    from taken have "e \<in> set (events_before b ?db)" by (rule in_set_takeD)
    then have "es_event r = e" using listed_event_id [OF ok] by (auto simp: e events_before_def)
    then show ?thesis by (simp add: e listed_event_def)
  qed
  then show ?thesis
    by (auto simp: events_rendered_def attempts_length_event list_all_iff filter_empty_conv)
qed

section \<open>The list of rules\<close>

text \<open>A rule as the page holds it: what TypeScript takes the answer for.\<close>

definition metric_named :: "string \<Rightarrow> alert_metric" where
  "metric_named m =
     (if m = ''offline'' then Offline else if m = ''cpu_usage'' then CpuUsage
      else if m = ''memory_usage'' then MemoryUsage else if m = ''disk_usage'' then DiskUsage else DiskFreeBytes)"

definition page_rule :: "(int \<Rightarrow> string) \<Rightarrow> rule_result \<Rightarrow> alert_rule" where
  "page_rule sec_text r =
     (let rule = rs_rule r
      in \<lparr>ru_id = num_of_int (rs_id r), ru_serverId = num_of_int (gr_serverId rule),
          ru_metric = metric_named (gr_metric rule), ru_operator = (if gr_operator rule = ''gt'' then Gt else Lt),
          ru_threshold = Fin (gr_threshold rule), ru_durationSeconds = num_of_int (gr_durationSeconds rule),
          ru_repeatSeconds = num_of_int (gr_repeatSeconds rule), ru_enabled = gr_enabled rule,
          ru_createdAt = time_text sec_text (rs_createdAt r), ru_updatedAt = time_text sec_text (rs_updatedAt r),
          ru_state = rs_state r\<rparr>)"

text \<open>The answer as the page's promise: an error of any kind for a status that is no success.\<close>

definition rule_answer :: "(int \<Rightarrow> string) \<Rightarrow> alert_reply \<Rightarrow> alert_rule promise" where
  "rule_answer sec_text reply =
     (case snd reply of RuleBody r \<Rightarrow> Fulfilled (page_rule sec_text r) | _ \<Rightarrow> Rejected OtherErr)"

definition delete_answer :: "alert_reply \<Rightarrow> unit promise" where
  "delete_answer reply = (if fst reply = 204 then Fulfilled () else Rejected OtherErr)"

text \<open>
  The actions of the page, each with the server's handler and the part after its \<open>await\<close>, one after the
  other; in between the evaluator saves states, the list is loaded, and a load may fail.
\<close>

inductive page_step ::
  "(int \<Rightarrow> string) \<Rightarrow> alert_db \<times> alerts_page \<Rightarrow> alert_db \<times> alerts_page \<Rightarrow> bool" for sec_text where
  page_create: "create_rule_handler reg f g now body db = (reply, db') \<Longrightarrow>
    page_step sec_text (db, p) (db', saveRule_done None (rule_answer sec_text reply) (saveRule_begin p))"
| page_edit: "rule \<in> set (ap_rules p) \<Longrightarrow> \<not> get_fails w2 (int_of_num (ru_id rule)) \<Longrightarrow>
    update_rule_handler reg w1 w2 f g h now (number_to_string (ru_id rule)) body db = (reply, db') \<Longrightarrow>
    page_step sec_text (db, p) (db', saveRule_done (Some rule) (rule_answer sec_text reply) (saveRule_begin p))"
| page_toggle: "rule \<in> set (ap_rules p) \<Longrightarrow> \<not> get_fails w2 (int_of_num (ru_id rule)) \<Longrightarrow>
    update_rule_handler reg w1 w2 f g h now (number_to_string (ru_id rule)) body db = (reply, db') \<Longrightarrow>
    page_step sec_text (db, p) (db', toggleRule_done (rule_answer sec_text reply) p)"
| page_delete: "rule \<in> set (ap_rules p) \<Longrightarrow>
    delete_rule_handler f (number_to_string (ru_id rule)) db = (reply, db') \<Longrightarrow>
    page_step sec_text (db, p) (db', deleteRule_done rule editing (delete_answer reply) p)"
| page_load: "list_rules_handler f db = (200, RuleListBody rows) \<Longrightarrow>
    page_step sec_text (db, p)
      (db, load_done (Fulfilled (srvs, map (page_rule sec_text) rows, events, webhook)) (load_begin p))"
| page_load_failed: "page_step sec_text (db, p) (db, load_done (Rejected e) (load_begin p))"
| page_saved: "page_step sec_text (db, p) (saved w st event db, p)"

text \<open>The page shows the server's rules, in their order, all but their states as they are now.\<close>

definition stateless :: "alert_rule \<Rightarrow> alert_rule" where
  "stateless rule = rule\<lparr>ru_state := Normal\<rparr>"

definition shows_rules :: "(int \<Rightarrow> string) \<Rightarrow> alert_db \<times> alerts_page \<Rightarrow> bool" where
  "shows_rules sec_text s \<longleftrightarrow>
     map stateless (ap_rules (snd s)) =
     map (stateless \<circ> page_rule sec_text \<circ> listed_rule (fst s)) (db_rules (fst s))"

lemma page_rule_id [simp]: "ru_id (page_rule sec_text r) = num_of_int (rs_id r)"
  by (simp add: page_rule_def Let_def)

lemma stateless_id [simp]: "ru_id (stateless rule) = ru_id rule"
  by (simp add: stateless_def)

lemma listed_rule_id [simp]: "rs_id (listed_rule db row) = fst row"
  by (simp add: listed_rule_def)

lemma js_eq_int [simp]: "js_eq (num_of_int a) (num_of_int b) \<longleftrightarrow> a = b"
  by simp

text \<open>The rows depend on the rules and their times, but for the states.\<close>

lemma stateless_row:
  "db_ruleTimes db' i = db_ruleTimes db i \<Longrightarrow>
     stateless (page_rule sec_text (listed_rule db' (i, rule))) = stateless (page_rule sec_text (listed_rule db (i, rule)))"
  by (simp add: stateless_def page_rule_def listed_rule_def Let_def)

lemma shown_ids:
  assumes "shows_rules sec_text (db, p)" and "rule \<in> set (ap_rules p)"
  shows "\<exists>i. ru_id rule = num_of_int i \<and> i \<in> fst ` set (db_rules db)"
proof -
  have "stateless rule \<in> set (map stateless (ap_rules p))" using assms(2) by simp
  also have "map stateless (ap_rules p) = map (stateless \<circ> page_rule sec_text \<circ> listed_rule db) (db_rules db)"
    using assms(1) by (simp add: shows_rules_def)
  finally obtain row where row: "row \<in> set (db_rules db)"
      "stateless rule = stateless (page_rule sec_text (listed_rule db row))"
    by auto
  then have "ru_id rule = num_of_int (fst row)" using stateless_id by (metis page_rule_id listed_rule_id)
  then show ?thesis using row(1) by blast
qed

lemma path_of_shown:
  assumes "shows_rules sec_text (db, p)" and "rule \<in> set (ap_rules p)" and "listing_rows_ok db" and "db_nextRule db \<le> max_safe"
  shows "\<exists>i. ru_id rule = num_of_int i \<and> i \<in> fst ` set (db_rules db) \<and> routeID (number_to_string (ru_id rule)) = Some i"
proof -
  obtain i where i: "ru_id rule = num_of_int i" "i \<in> fst ` set (db_rules db)"
    using shown_ids [OF assms(1,2)] by blast
  then have "1 \<le> i" "i < db_nextRule db" using assms(3) by (auto simp: listing_rows_ok_def)
  then have safe: "\<bar>i\<bar> \<le> max_safe" "\<bar>i\<bar> < 2 ^ 63" using assms(4) by (auto simp: max_safe_def)
  then have "number_to_string (ru_id rule) = dec_int i" using i(1) number_to_string_int by simp
  then show ?thesis using i ParseInt_decimal [OF safe(2)] \<open>1 \<le> i\<close> by (auto simp: routeID_def)
qed

section \<open>What the handlers answer\<close>

definition shown :: "(int \<Rightarrow> string) \<Rightarrow> alert_db \<Rightarrow> int \<times> go_rule \<Rightarrow> alert_rule" where
  "shown sec_text db row = stateless (page_rule sec_text (listed_rule db row))"

lemma shows_rules_shown:
  "shows_rules sec_text (db, p) \<longleftrightarrow> map stateless (ap_rules p) = map (shown sec_text db) (db_rules db)"
proof -
  have "stateless \<circ> page_rule sec_text \<circ> listed_rule db = shown sec_text db"
    by (rule ext) (simp add: shown_def)
  then show ?thesis by (simp add: shows_rules_def)
qed

lemma shown_cong:
  "(\<And>i rule. (i, rule) \<in> set rows \<Longrightarrow> db_ruleTimes db' i = db_ruleTimes db i) \<Longrightarrow>
     map (shown sec_text db') rows = map (shown sec_text db) rows"
  by (auto simp: shown_def intro!: stateless_row)

lemma CreateRule_shown:
  assumes "listing_rows_ok db" and "go_rule_ok rule" and "CreateRule srvs f now rule db = (a, db')"
  shows "case a of
      Inl err \<Rightarrow> db' = db
    | Inr r \<Rightarrow> listing_rows_ok db' \<and> db_nextRule db \<le> db_nextRule db' \<and>
        map (shown sec_text db') (db_rules db') =
          map (shown sec_text db) (db_rules db) @ [stateless (page_rule sec_text r)]"
proof -
  let ?i = "db_nextRule db"
  let ?db = "db\<lparr>db_rules := db_rules db @ [(?i, rule)], db_ruleTimes := (db_ruleTimes db)(?i := (now, now)),
    db_nextRule := ?i + 1\<rparr>"
  have new: "\<And>j r. (j, r) \<in> set (db_rules db) \<Longrightarrow> j \<noteq> ?i"
    using assms(1) by (auto simp: listing_rows_ok_def)
  have ok: "listing_rows_ok ?db"
    using assms(1,2) by (fastforce simp: listing_rows_ok_def sorted_wrt_snoc)
  have "map (shown sec_text ?db) (db_rules db) = map (shown sec_text db) (db_rules db)"
    using new by (intro shown_cong) auto
  then show ?thesis
    using assms(3) go_rule_ok_valid [OF assms(2)] ok
    by (auto simp: CreateRule_def Let_def scan_rule_def shown_def page_rule_def listed_rule_def stateless_def
        split: if_splits)
qed

lemma shown_id [simp]: "ru_id (shown sec_text db row) = num_of_int (fst row)"
  by (simp add: shown_def)

lemma UpdateRule_shown:
  assumes "listing_rows_ok db" and "go_rule_ok rule" and "\<not> get_fails w i" and "UpdateRule srvs w f now i rule db = (a, db')"
  shows "case a of
      Inl err \<Rightarrow> db' = db
    | Inr r \<Rightarrow> listing_rows_ok db' \<and> db_nextRule db' = db_nextRule db \<and> rs_id r = i \<and>
        map (shown sec_text db') (db_rules db') =
          map (\<lambda>s. if js_eq (ru_id s) (num_of_int i) then stateless (page_rule sec_text r) else s)
            (map (shown sec_text db) (db_rules db))"
proof -
  let ?db = "db\<lparr>db_rules := set_rule i rule (db_rules db),
    db_ruleTimes := (db_ruleTimes db)(i := (fst (db_ruleTimes db i), now))\<rparr>"
  have ok: "listing_rows_ok ?db" if "i \<in> fst ` set (db_rules db)"
    using assms(1,2) that unfolding listing_rows_ok_def by auto (auto simp: set_rule_def)
  have states: "validStatus (as_status st)" if "db_states db i = Some st" for st
    using assms(1) that by (simp add: listing_rows_ok_def)
  have rows: "map (shown sec_text ?db) (set_rule i rule rows) =
      map (\<lambda>s. if js_eq (ru_id s) (num_of_int i) then shown sec_text ?db (i, rule) else s) (map (shown sec_text db) rows)" for rows
    by (auto simp: set_rule_def shown_def intro!: stateless_row)
  have "with_state w ?db (scan_rule ?db Normal (i, rule)) = Inr (listed_rule ?db (i, rule))" if "1 \<le> i"
    using that assms(3) go_rule_ok_valid [OF assms(2)] states
    by (cases "db_states db i") (auto simp: with_state_def scan_rule_def GetState_def listed_rule_def)
  then show ?thesis
    using assms(4) ok rows [of "db_rules db"] by (auto simp: UpdateRule_def Let_def shown_def split: if_splits)
qed

lemma DeleteRule_shown:
  assumes "listing_rows_ok db" and "DeleteRule f i db = (a, db')"
  shows "case a of
      Some err \<Rightarrow> db' = db
    | None \<Rightarrow> listing_rows_ok db' \<and> db_nextRule db' = db_nextRule db \<and>
        map (shown sec_text db') (db_rules db') =
          filter (\<lambda>s. \<not> js_eq (ru_id s) (num_of_int i)) (map (shown sec_text db) (db_rules db))"
proof -
  let ?db = "cascade (\<lambda>j. j = i) (\<lambda>e. False) db"
  have fields: "db_rules ?db = filter (\<lambda>row. fst row \<noteq> i) (db_rules db)" "db_ruleTimes ?db = db_ruleTimes db"
      "db_nextRule ?db = db_nextRule db" "db_states ?db = (\<lambda>j. if j = i then None else db_states db j)"
    by (simp_all add: cascade_def Let_def)
  have "listing_rows_ok ?db"
    using assms(1) by (auto simp: listing_rows_ok_def fields sorted_map_filter split: if_splits)
  moreover have "map (shown sec_text ?db) (db_rules ?db) = map (shown sec_text db) (db_rules ?db)"
    by (intro shown_cong) (simp add: fields)
  ultimately show ?thesis
    using assms(2) by (auto simp: DeleteRule_def fields filter_map o_def split: if_splits)
qed

lemma create_handler_shown:
  assumes "listing_rows_ok db" and "create_rule_handler reg f g now body db = (reply, db')"
  shows "case rule_answer sec_text reply of
      Rejected e \<Rightarrow> db' = db
    | Fulfilled new \<Rightarrow> listing_rows_ok db' \<and> db_nextRule db \<le> db_nextRule db' \<and>
        map (shown sec_text db') (db_rules db') = map (shown sec_text db) (db_rules db) @ [stateless new]"
proof -
  have "go_rule_ok rule" if "ruleFromCreate inp = Some rule" for inp rule
    using that by (simp add: ruleFromCreate_def normalizeRule_ok)
  note create = CreateRule_shown [OF assms(1) this, of _ _ "registered reg" g now _ db' sec_text]
  show ?thesis
    using assms(2) create
    by (fastforce simp: create_rule_handler_def rule_answer_def refused_alert_def handleServerLookupError_def
        handleRepositoryError_def split: sum.splits option.splits prod.splits alerting_error.splits)
qed

lemma update_handler_shown:
  assumes "listing_rows_ok db" and "\<not> get_fails w2 i" and "routeID path_id = Some i"
    and "update_rule_handler reg w1 w2 f g h now path_id body db = (reply, db')"
  shows "case rule_answer sec_text reply of
      Rejected e \<Rightarrow> db' = db
    | Fulfilled new \<Rightarrow> listing_rows_ok db' \<and> db_nextRule db' = db_nextRule db \<and> ru_id new = num_of_int i \<and>
        map (shown sec_text db') (db_rules db') =
          map (\<lambda>s. if js_eq (ru_id s) (num_of_int i) then stateless new else s) (map (shown sec_text db) (db_rules db))"
proof -
  have id: "rs_id current = i" if "GetRule w1 f i db = Inr current" for current
    using that by (auto simp: GetRule_def with_state_def scan_rule_def Let_def split: if_splits option.splits sum.splits
        alerting_error.splits)
  note fails = rule_answer_def refused_alert_def handleServerLookupError_def handleRepositoryError_def
  show ?thesis
  proof (cases "GetRule w1 f i db")
    case (Inr current)
    show ?thesis
    proof (cases "decode_body decode_rule body")
      case (Inr changes)
      show ?thesis
      proof (cases "normalizeRule (applyRuleUpdate (rs_rule current) changes)")
        case (Some rule')
        show ?thesis
        proof (cases "registry_get g (gr_serverId rule') reg")
          case (Inr server)
          obtain a db2 where u: "UpdateRule (registered reg) w2 h now i rule' db = (a, db2)"
            by (cases "UpdateRule (registered reg) w2 h now i rule' db")
          have "update_rule_handler reg w1 w2 f g h now path_id body db =
              (case a of Inl err \<Rightarrow> (handleRepositoryError err, db2) | Inr updated \<Rightarrow> ((200, RuleBody updated), db2))"
            using \<open>GetRule w1 f i db = Inr current\<close> id \<open>decode_body decode_rule body = Inr changes\<close> Some Inr u
            by (simp add: update_rule_handler_def assms(3))
          then show ?thesis
            using assms(4) UpdateRule_shown [OF assms(1) normalizeRule_ok [OF Some] assms(2) u, of sec_text]
            by (cases a) (auto simp: fails split: alerting_error.split)
        qed (use assms(3,4) Inr Some \<open>GetRule w1 f i db = Inr current\<close> in \<open>auto simp: update_rule_handler_def fails split: if_splits\<close>)
      qed (use assms(3,4) Inr \<open>GetRule w1 f i db = Inr current\<close> in \<open>auto simp: update_rule_handler_def fails\<close>)
    qed (use assms(3,4) Inr in \<open>auto simp: update_rule_handler_def fails\<close>)
  qed (use assms(3,4) in \<open>auto simp: update_rule_handler_def fails split: alerting_error.splits\<close>)
qed

lemma delete_handler_shown:
  assumes "listing_rows_ok db" and "routeID path_id = Some i" and "delete_rule_handler f path_id db = (reply, db')"
  shows "case delete_answer reply of
      Rejected e \<Rightarrow> db' = db
    | Fulfilled u \<Rightarrow> listing_rows_ok db' \<and> db_nextRule db' = db_nextRule db \<and>
        map (shown sec_text db') (db_rules db') =
          filter (\<lambda>s. \<not> js_eq (ru_id s) (num_of_int i)) (map (shown sec_text db) (db_rules db))"
proof -
  obtain a db2 where d: "DeleteRule f i db = (a, db2)" by (cases "DeleteRule f i db")
  show ?thesis
    using assms(2,3) d DeleteRule_shown [OF assms(1) d, of sec_text]
    by (cases a) (auto simp: delete_rule_handler_def delete_answer_def handleRepositoryError_def
        split: alerting_error.splits)
qed

section \<open>The page follows\<close>

lemma saved_shown:
  assumes "listing_rows_ok db"
  shows "listing_rows_ok (saved w st event db)" "db_rules (saved w st event db) = db_rules db"
    "db_ruleTimes (saved w st event db) = db_ruleTimes db" "db_nextRule (saved w st event db) = db_nextRule db"
  using assms by (auto simp: saved_def SaveStateAndEvent_def listing_rows_ok_def Let_def split: sum.splits prod.splits if_splits option.splits)

lemma stateless_replace:
  "map stateless (replace_rule new rules) =
     map (\<lambda>s. if js_eq (ru_id s) (ru_id new) then stateless new else s) (map stateless rules)"
  by (auto simp: replace_rule_def)

lemma stateless_filter:
  "map stateless (filter (\<lambda>item. \<not> js_eq (ru_id item) i) rules) =
     filter (\<lambda>s. \<not> js_eq (ru_id s) i) (map stateless rules)"
  by (simp add: filter_map o_def)

lemma page_step_next:
  assumes "page_step sec_text s s'" and "listing_rows_ok (fst s)" and "shows_rules sec_text s" and "db_nextRule (fst s) \<le> max_safe"
  shows "listing_rows_ok (fst s') \<and> shows_rules sec_text s' \<and> db_nextRule (fst s) \<le> db_nextRule (fst s')"
  using assms
proof (induction rule: page_step.induct)
  case (page_create reg f g now body db reply db' p)
  then have ok: "listing_rows_ok db" by simp
  show ?case
    using page_create create_handler_shown [OF ok page_create(1), of sec_text]
    by (auto simp: saveRule_done_def saveRule_begin_def shows_rules_shown split: promise.splits)
next
  case (page_edit rule p w2 reg w1 f g h now body db reply db')
  then have ok: "listing_rows_ok db" by simp
  obtain i where i: "ru_id rule = num_of_int i" "routeID (number_to_string (ru_id rule)) = Some i"
    using path_of_shown page_edit by fastforce
  have "\<not> get_fails w2 i" using page_edit(2) i(1) by simp
  from update_handler_shown [OF ok this i(2) page_edit(3), of sec_text] page_edit(5)
  show ?case
    by (auto simp: saveRule_done_def saveRule_begin_def shows_rules_shown stateless_replace ok simp del: map_map
        split: promise.splits)
next
  case (page_toggle rule p w2 reg w1 f g h now body db reply db')
  then have ok: "listing_rows_ok db" by simp
  obtain i where i: "ru_id rule = num_of_int i" "routeID (number_to_string (ru_id rule)) = Some i"
    using path_of_shown page_toggle by fastforce
  have "\<not> get_fails w2 i" using page_toggle(2) i(1) by simp
  from update_handler_shown [OF ok this i(2) page_toggle(3), of sec_text] page_toggle(5)
  show ?case
    by (auto simp: toggleRule_done_def shows_rules_shown stateless_replace ok simp del: map_map split: promise.splits)
next
  case (page_delete rule p f db reply db' editing)
  then have ok: "listing_rows_ok db" by simp
  obtain i where i: "ru_id rule = num_of_int i" "routeID (number_to_string (ru_id rule)) = Some i"
    using path_of_shown page_delete by fastforce
  from delete_handler_shown [OF ok i(2) page_delete(2), of sec_text] page_delete(4) i(1)
  show ?case
    by (auto simp: deleteRule_done_def shows_rules_shown stateless_filter ok Let_def split: promise.splits option.splits)
next
  case (page_load f db rows p srvs events webhook)
  then have "rows = map (listed_rule db) (db_rules db)"
    using ListRules_eq [of db] by (auto simp: list_rules_handler_def ListRules_def split: sum.splits if_splits)
  then show ?case using page_load by (simp add: load_done_def load_begin_def shows_rules_def o_assoc)
next
  case (page_load_failed db p e)
  then show ?case by (simp add: load_done_def load_begin_def shows_rules_def)
next
  case (page_saved db p w st event)
  then show ?case
    using saved_shown [of db w st event] shown_cong [of "db_rules db" "saved w st event db" db sec_text]
    by (simp add: shows_rules_shown)
qed

lemma handlers_next_rule:
  "db_nextRule db \<le> db_nextRule (snd (create_rule_handler reg f g now body db))"
  "db_nextRule (snd (update_rule_handler reg w1 w2 f g h now path_id body db)) = db_nextRule db"
  "db_nextRule (snd (delete_rule_handler f path_id db)) = db_nextRule db"
  "db_nextRule (saved w st event db) = db_nextRule db"
proof -
  have "db_nextRule db \<le> db_nextRule db'" if "CreateRule srvs f now rule db = (a, db')" for srvs f now rule a db'
    using that by (auto simp: CreateRule_def Let_def split: if_splits)
  then show "db_nextRule db \<le> db_nextRule (snd (create_rule_handler reg f g now body db))"
    by (auto simp: create_rule_handler_def split: sum.splits option.splits prod.splits)
  have "db_nextRule db' = db_nextRule db" if "UpdateRule srvs w f now i rule db = (a, db')" for srvs w f now i rule a db'
    using that by (auto simp: UpdateRule_def Let_def split: if_splits)
  then show "db_nextRule (snd (update_rule_handler reg w1 w2 f g h now path_id body db)) = db_nextRule db"
    by (auto simp: update_rule_handler_def split: sum.splits option.splits prod.splits)
  have "db_nextRule db' = db_nextRule db" if "DeleteRule f i db = (a, db')" for f i a db'
    using that by (auto simp: DeleteRule_def cascade_def Let_def split: if_splits)
  then show "db_nextRule (snd (delete_rule_handler f path_id db)) = db_nextRule db"
    by (auto simp: delete_rule_handler_def split: option.splits prod.splits)
  show "db_nextRule (saved w st event db) = db_nextRule db"
    by (auto simp: saved_def SaveStateAndEvent_def Let_def split: sum.splits prod.splits if_splits option.splits)
qed

lemma page_step_grows: "page_step sec_text s s' \<Longrightarrow> db_nextRule (fst s) \<le> db_nextRule (fst s')"
proof (induction rule: page_step.induct)
  case (page_create reg f g now body db reply db' p)
  then show ?case using handlers_next_rule(1) [of db reg f g now body] by simp
next
  case (page_edit rule p w2 reg w1 f g h now body db reply db')
  then show ?case using handlers_next_rule(2) by (metis fst_conv order_refl snd_conv)
next
  case (page_toggle rule p w2 reg w1 f g h now body db reply db')
  then show ?case using handlers_next_rule(2) by (metis fst_conv order_refl snd_conv)
next
  case (page_delete rule p f db reply db' editing)
  then show ?case using handlers_next_rule(3) by (metis fst_conv order_refl snd_conv)
qed (simp_all add: handlers_next_rule)

text \<open>
  C29: The alerts page follows the server. Once the page has loaded the rules, then as long as its actions
  come one after the other - creating, changing, switching and removing rules, answered with success or
  refused for whatever reason, and further loads, successful or not, while the evaluator works - the
  page shows exactly the rules that the server has stored, in their order and with every field but
  the state, which the page has from its last load or change of the rule. (A change whose rule is
  stored but whose state can then not be read is answered as a failure; those are left out.)
\<close>

theorem page_follows_rules:
  assumes "probe_run lb q" and "list_rules_handler False (pb_alerts q) = (200, RuleListBody rows)"
    and "s = (pb_alerts q, load_done (Fulfilled (srvs, map (page_rule sec_text) rows, events, webhook)) (load_begin p))"
    and "(page_step sec_text)\<^sup>*\<^sup>* s (db, p')" and "db_nextRule db \<le> max_safe"
  shows "\<exists>rows'. list_rules_handler False db = (200, RuleListBody rows') \<and>
    map stateless (ap_rules p') = map (stateless \<circ> page_rule sec_text) rows'"
proof -
  have ok: "listing_rows_ok (pb_alerts q)"
    using probe_run_ok [OF assms(1)] by (auto simp: probe_ok_def Let_def intro: alert_tables_rows)
  then have "rows = map (listed_rule (pb_alerts q)) (db_rules (pb_alerts q))"
    using assms(2) by (simp add: list_rules_handler_def ListRules_eq)
  then have start: "listing_rows_ok (fst s) \<and> shows_rules sec_text s"
    using ok by (simp add: assms(3) load_done_def load_begin_def shows_rules_def o_assoc)
  have "listing_rows_ok (fst t) \<and> shows_rules sec_text t"
    if "(page_step sec_text)\<^sup>*\<^sup>* s t" "db_nextRule (fst t) \<le> max_safe" for t
    using that
  proof (induction rule: rtranclp_induct)
    case (step t u)
    have "db_nextRule (fst t) \<le> db_nextRule (fst u)" using step(2) by (rule page_step_grows)
    then show ?case using step page_step_next by fastforce
  qed (use start in simp)
  from this [OF assms(4)] assms(5) have "listing_rows_ok db" "shows_rules sec_text (db, p')" by simp_all
  then show ?thesis by (simp add: list_rules_handler_def ListRules_eq shows_rules_def o_assoc)
qed

section \<open>A run to evaluate the properties on\<close>

text \<open>A rule is created by a request; then it fires and recovers, and no webhook is configured.\<close>

definition sample_rule_body :: jv where
  "sample_rule_body =
     JObj [(''serverId'', JNum (Fin 1)), (''metric'', JStr ''cpu_usage''), (''operator'', JStr ''gt''),
           (''threshold'', JNum (Fin 90))]"

definition sample_with_rule :: probe where
  "sample_with_rule = sample_after PostRule sample_rule_body sample_probe"

definition sample_alert_event :: "alert_status \<Rightarrow> go_event" where
  "sample_alert_event status =
     \<lparr>ae_id = 0, ae_ruleId = 1, ae_serverId = 1, ae_status = Some status, ae_currentValue = Some (Fin 95),
      ae_threshold = Some 90, ae_startedAt = 0, ae_endedAt = None, ae_createdAt = None\<rparr>"

definition sample_save :: "alert_status \<Rightarrow> probe \<Rightarrow> probe" where
  "sample_save status p =
     p\<lparr>pb_alerts := saved sample_world ((fresh_state 1)\<lparr>as_status := Some status\<rparr>)
                      (Some (sample_alert_event status)) (pb_alerts p)\<rparr>"

definition sample_fired :: probe where
  "sample_fired = sample_save Recovered (sample_save Firing sample_with_rule)"

definition sample_stored_rule :: go_rule where
  "sample_stored_rule =
     \<lparr>gr_serverId = 1, gr_metric = ''cpu_usage'', gr_operator = ''gt'', gr_threshold = 90,
      gr_durationSeconds = 300, gr_repeatSeconds = 0, gr_enabled = True\<rparr>"

lemma sample_with_rule_eq:
  "sample_with_rule = sample_probe\<lparr>pb_alerts := empty_alert_db
     \<lparr>db_rules := [(1, sample_stored_rule)], db_ruleTimes := (\<lambda>i. (0, 0)), db_nextRule := 2\<rparr>\<rparr>"
proof -
  have "decode_body decode_rule (Inr sample_rule_body) = Inr
      \<lparr>rb_serverId = Some 1, rb_metric = Some ''cpu_usage'', rb_operator = Some ''gt'', rb_threshold = Some 90,
       rb_durationSeconds = None, rb_repeatSeconds = None, rb_enabled = None\<rparr>"
    by (simp add: decode_body_def decode_rule_def sample_rule_body_def rule_fields_def)
  moreover have "ruleFromCreate
      \<lparr>rb_serverId = Some 1, rb_metric = Some ''cpu_usage'', rb_operator = Some ''gt'', rb_threshold = Some 90,
       rb_durationSeconds = None, rb_repeatSeconds = None, rb_enabled = None\<rparr> = Some sample_stored_rule"
    by (simp add: ruleFromCreate_def normalizeRule_def times_ok_def validMetric_def sample_stored_rule_def Let_def)
  moreover have "validateRule sample_stored_rule"
    by (simp add: validateRule_def validMetric_def validOperator_def sample_stored_rule_def)
  ultimately show ?thesis
    using sample_session
    by (simp add: sample_with_rule_def sample_after_def serve_def sample_probe_eq sample_circumstances_def
        sample_request_def sample_library_def with_alerts_def create_rule_handler_def registry_get_def find_server_def
        registered_def CreateRule_def server_known_def sample_stored_rule_def empty_alert_db_def Let_def fun_upd_def
        scan_rule_def validMetric_def validOperator_def)
qed

lemma sample_run_alerts: "probe_run sample_library sample_with_rule" "probe_run sample_library sample_fired"
proof -
  have save: "probe_run sample_library (sample_save status p)"
    if "probe_run sample_library p" "pb_system p = pb_system sample_probe" for status p
    using that(1) unfolding probe_run_def sample_save_def
    by (rule rtranclp.rtrancl_into_rtrancl, intro step_save)
      (auto simp: that(2) sample_probe_eq sample_alert_event_def server_known_def registered_def)
  show rule: "probe_run sample_library sample_with_rule"
    using sample_probe_run unfolding sample_with_rule_def probe_run_def by (rule sample_after_step)
  show "probe_run sample_library sample_fired"
    unfolding sample_fired_def by (intro save rule) (simp_all add: sample_save_def sample_with_rule_eq)
qed

lemma sample_fired_events:
  "db_events (pb_alerts sample_fired) =
     [(sample_alert_event Firing)\<lparr>ae_id := 1, ae_createdAt := Some 0\<rparr>,
      (sample_alert_event Recovered)\<lparr>ae_id := 2, ae_createdAt := Some 0\<rparr>]"
  "db_attempts (pb_alerts sample_fired) = []" "db_rules (pb_alerts sample_fired) = [(1, sample_stored_rule)]"
  "pb_system sample_fired = pb_system sample_probe"
  by (simp_all add: sample_fired_def sample_save_def sample_with_rule_eq saved_def SaveStateAndEvent_def validStatus_def
      sample_alert_event_def sample_world_def fresh_state_def empty_alert_db_def Let_def)

lemma sample_first_page:
  "ListEvents (registered (ss_registry (pb_system sample_fired))) False (\<lambda>i. False) 0 1 (pb_alerts sample_fired) =
     Inr [\<lparr>es_event = (sample_alert_event Recovered)\<lparr>ae_id := 2, ae_createdAt := Some 0\<rparr>,
           es_serverName = ''home-lab'', es_metric = ''cpu_usage'', es_attempts = []\<rparr>]"
  by (simp add: ListEvents_def event_rows_def sample_fired_events sample_probe_eq registered_def scan_event_def
      sample_alert_event_def sample_stored_rule_def validMetric_def validStatus_def ListAttempts_def List.map_filter_def)

theorem event_pages_join_witness:
  "\<exists>next. ListEvents (registered (ss_registry (pb_system sample_fired))) False (\<lambda>i. False) 2 1 (pb_alerts sample_fired) =
     Inr next"
  using event_pages_join [OF sample_run_alerts(2) _ _ _ _ sample_first_page, of 1]
  by (auto simp: sample_alert_event_def)

theorem undelivered_event_breaks_page_witness:
  "\<not> events_rendered (map (alert_event_json (\<lambda>t. ''0''))
     [\<lparr>es_event = (sample_alert_event Recovered)\<lparr>ae_id := 2, ae_createdAt := Some 0\<rparr>,
       es_serverName = ''home-lab'', es_metric = ''cpu_usage'', es_attempts = []\<rparr>])"
  using undelivered_event_breaks_page [OF sample_run_alerts(2) sample_first_page, of "\<lambda>t. ''0''"]
  by (simp add: sample_fired_events)

lemma sample_removal:
  "page_step sec_text
     (pb_alerts sample_with_rule, load_done (Fulfilled ([], map (page_rule sec_text) [listed_rule db (1, sample_stored_rule)],
        [], emptyWebhook)) (load_begin initial_alerts))
     (snd (delete_rule_handler False ''1'' (pb_alerts sample_with_rule)),
      deleteRule_done (page_rule sec_text (listed_rule db (1, sample_stored_rule))) None (Fulfilled ())
        (load_done (Fulfilled ([], map (page_rule sec_text) [listed_rule db (1, sample_stored_rule)],
          [], emptyWebhook)) (load_begin initial_alerts)))"
proof -
  let ?rule = "page_rule sec_text (listed_rule db (1, sample_stored_rule))"
  have "number_to_string (num_of_int 1) = dec_int 1" by (rule number_to_string_int) (simp add: max_safe_def)
  then have path: "number_to_string (ru_id ?rule) = ''1''"
    by (simp add: dec_int_def dec_digits.simps digit_char_def char_of_def bit_0)
  have "routeID ''1'' = Some 1"
    by (simp add: routeID_def ParseInt_def digits_value_def is_digit_def)
  then have "delete_rule_handler False ''1'' (pb_alerts sample_with_rule) =
      ((204, NoAlertBody), snd (delete_rule_handler False ''1'' (pb_alerts sample_with_rule)))"
    by (simp add: delete_rule_handler_def DeleteRule_def sample_with_rule_eq)
  from page_delete [of ?rule "load_done (Fulfilled ([], map (page_rule sec_text) [listed_rule db (1, sample_stored_rule)],
      [], emptyWebhook)) (load_begin initial_alerts)" False, unfolded path, OF _ this, of sec_text None]
  show ?thesis by (simp add: load_done_def delete_answer_def)
qed

theorem page_follows_rules_witness:
  "\<exists>rows'. list_rules_handler False (snd (delete_rule_handler False ''1'' (pb_alerts sample_with_rule))) =
     (200, RuleListBody rows') \<and> map (stateless \<circ> page_rule (\<lambda>t. ''0'')) rows' = []"
proof -
  let ?db = "pb_alerts sample_with_rule"
  have rows: "list_rules_handler False ?db = (200, RuleListBody [listed_rule ?db (1, sample_stored_rule)])"
    by (simp add: list_rules_handler_def ListRules_def joined_state_def scan_rule_def listed_rule_def
        sample_with_rule_eq sample_stored_rule_def validMetric_def validOperator_def empty_alert_db_def)
  have "db_nextRule (snd (delete_rule_handler False ''1'' ?db)) \<le> max_safe"
    by (simp add: handlers_next_rule sample_with_rule_eq max_safe_def)
  moreover note run = sample_removal [where sec_text = "\<lambda>t. ''0''" and db = ?db]
  have "(page_step (\<lambda>t. ''0''))\<^sup>*\<^sup>* s t" if "page_step (\<lambda>t. ''0'') s t" for s t using that by simp
  note this [OF run]
  ultimately show ?thesis
    using page_follows_rules [OF sample_run_alerts(1) rows refl]
    by (fastforce simp: deleteRule_done_def load_done_def Let_def)
qed

end
