(* ===== verification/Agent.thy ===== *)
theory Agent
  imports LiveServerProps
begin

text \<open>
  The agent, \<^verbatim>\<open>internal/agent\<close>: what it reads of the operating system, the rates, the default route, the
  report it collects, and the loop that sends reports. What gopsutil and the kernel give in one
  collection is the record \<open>readings\<close>; \<open>None\<close> is an error, whose text only goes to a log.
\<close>

section \<open>The readings\<close>

record host_stat =
  hi_hostname :: string
  hi_os :: string
  hi_platform :: string
  hi_platformVersion :: string
  hi_kernelVersion :: string
  hi_kernelArch :: string
  hi_bootTime :: u64
  hi_uptime :: u64

text \<open>
  The lines of the route table with whether reading it ends in an error; the first is read for the
  primary address, the second for the network. \<open>rd_ipv4\<close> is the address of a CIDR text when that is one of
  IPv4. \<open>rd_beyond\<close> is what \<open>uint64\<close> makes of a float that does not fit, which Go leaves open.
\<close>

record readings =
  rd_host :: "host_stat option"
  rd_cpuModels :: "string list option"
  rd_cpuCount :: "int option"
  rd_cpuPercent :: "jsnum list option"
  rd_load :: "(jsnum \<times> jsnum \<times> jsnum) option"
  rd_virtual :: "(u64 \<times> u64) option"
  rd_swap :: "(u64 \<times> u64) option"
  rd_partitions :: "(string \<times> string) list option"
  rd_diskUsage :: "string \<Rightarrow> (u64 \<times> u64) option"
  rd_diskIO :: "(string \<times> u64 \<times> u64) list option"
  rd_physical :: "string \<Rightarrow> bool"
  rd_diskNow :: int
  rd_route :: "(string list \<times> bool) option"
  rd_interfaces :: "(string \<times> string list) list option"
  rd_ipv4 :: "string \<Rightarrow> string option"
  rd_routeAgain :: "(string list \<times> bool) option"
  rd_netIO :: "(string \<times> u64 \<times> u64) list option"
  rd_netNow :: int
  rd_collected :: int
  rd_lower :: "string \<Rightarrow> string"
  rd_beyond :: u64

section \<open>Disks\<close>

definition temporaryFilesystems :: "string list" where
  "temporaryFilesystems =
     [''tmpfs'', ''devtmpfs'', ''squashfs'', ''overlay'', ''proc'', ''sysfs'', ''cgroup'', ''cgroup2'', ''autofs'',
      ''bpf'', ''binfmt_misc'', ''configfs'', ''debugfs'', ''devpts'', ''fusectl'', ''hugetlbfs'', ''mqueue'', ''nsfs'',
      ''pstore'', ''ramfs'', ''securityfs'', ''tracefs'']"

definition isPersistentFilesystem :: "(string \<Rightarrow> string) \<Rightarrow> string \<Rightarrow> bool" where
  "isPersistentFilesystem lower filesystem \<longleftrightarrow> lower filesystem \<notin> set temporaryFilesystems"

definition isBootMount :: "string \<Rightarrow> bool" where
  "isBootMount mount \<longleftrightarrow> mount = ''/boot'' \<or> prefix ''/boot/'' mount"

definition shouldReportFilesystem :: "(string \<Rightarrow> string) \<Rightarrow> string \<Rightarrow> string \<Rightarrow> bool" where
  "shouldReportFilesystem lower mount filesystem \<longleftrightarrow>
     isPersistentFilesystem lower filesystem \<and> \<not> isBootMount mount"

fun disks_from :: "readings \<Rightarrow> (string \<times> string) list \<Rightarrow> g_disk list option" where
  "disks_from rd [] = Some []"
| "disks_from rd ((mount, fstype) # partitions) =
     (if \<not> shouldReportFilesystem (rd_lower rd) mount fstype then disks_from rd partitions
      else case rd_diskUsage rd mount of
             None \<Rightarrow> None
           | Some (all, used) \<Rightarrow>
               map_option (\<lambda>ds. \<lparr>g_mountpoint = mount, g_diskTotal = all, g_diskUsed = used\<rparr> # ds)
                 (disks_from rd partitions))"

definition PersistentDisks :: "readings \<Rightarrow> g_disk list option" where
  "PersistentDisks rd = Option.bind (rd_partitions rd) (disks_from rd)"

section \<open>The default route\<close>

text \<open>\<open>strconv.ParseUint\<close> with 64 bits and a base of 16 or 10.\<close>

definition base_digit :: "char \<Rightarrow> int option" where
  "base_digit c =
     (if code_between 48 57 c then Some (of_char c - 48)
      else if code_between 97 102 c then Some (of_char c - 87)
      else if code_between 65 70 c then Some (of_char c - 55) else None)"

definition ParseUint :: "int \<Rightarrow> string \<Rightarrow> u64 option" where
  "ParseUint base s =
     (if s = [] \<or> \<not> list_all (\<lambda>c. case base_digit c of None \<Rightarrow> False | Some d \<Rightarrow> d < base) s then None
      else let v = foldl (\<lambda>n c. base * n + the (base_digit c)) 0 s
           in if v \<ge> 2 ^ 64 then None else Some (word_of_int v))"

text \<open>What a line of the table is: no usable default route, or one of an interface with its metric.\<close>

definition route_line :: "string \<Rightarrow> (string \<times> u64) option" where
  "route_line line =
     (let fields = fields_from [] line
      in if length fields < 8 \<or> fields ! 1 \<noteq> ''00000000'' \<or> fields ! 7 \<noteq> ''00000000'' then None
         else case ParseUint 16 (fields ! 3) of
                None \<Rightarrow> None
              | Some flags \<Rightarrow>
                  if \<not> bit flags 0 \<or> bit flags 9 then None
                  else map_option (\<lambda>metric. (fields ! 0, metric)) (ParseUint 10 (fields ! 6)))"

text \<open>The loop: the selected interface, empty at first, with its metric.\<close>

definition route_step :: "string \<times> u64 \<Rightarrow> string \<Rightarrow> string \<times> u64" where
  "route_step sel line =
     (case route_line line of
        None \<Rightarrow> sel
      | Some (interface, metric) \<Rightarrow> if fst sel = '''' \<or> metric < snd sel then (interface, metric) else sel)"

definition defaultRouteInterface :: "string list \<times> bool \<Rightarrow> string option" where
  "defaultRouteInterface table =
     (case table of
        ([], fails) \<Rightarrow> None
      | (header # lines, fails) \<Rightarrow>
          let sel = foldl route_step ('''', 0) lines
          in if fails \<or> fst sel = '''' then None else Some (fst sel))"

section \<open>Rates\<close>

text \<open>\<open>uint64\<close> of a float, and \<open>Seconds\<close> of a positive duration.\<close>

definition u64_of :: "u64 \<Rightarrow> jsnum \<Rightarrow> u64" where
  "u64_of beyond x =
     (case x of Fin r \<Rightarrow> if 0 \<le> r \<and> r < 2 ^ 64 then word_of_int \<lfloor>r\<rfloor> else beyond | _ \<Rightarrow> beyond)"

definition duration_seconds :: "int \<Rightarrow> jsnum" where
  "duration_seconds d =
     js_add (fl (of_int (d div 1000000000))) (js_div (fl (of_int (d mod 1000000000))) (Fin 1000000000))"

definition bytesPerSecond :: "u64 \<Rightarrow> u64 \<Rightarrow> u64 \<Rightarrow> int \<Rightarrow> u64" where
  "bytesPerSecond beyond previous current elapsed =
     (if current < previous \<or> elapsed \<le> 0 then 0
      else u64_of beyond (js_div (float_of (current - previous)) (duration_seconds elapsed)))"

record rate_state =
  ra_initialized :: bool
  ra_at :: int
  ra_first :: u64
  ra_second :: u64

definition zero_rate :: rate_state where
  "zero_rate = \<lparr>ra_initialized = False, ra_at = 0, ra_first = 0, ra_second = 0\<rparr>"

definition sample_rate :: "u64 \<Rightarrow> int \<Rightarrow> u64 \<Rightarrow> u64 \<Rightarrow> rate_state \<Rightarrow> (u64 \<times> u64) \<times> rate_state" where
  "sample_rate beyond now first second s =
     (let s' = \<lparr>ra_initialized = True, ra_at = now, ra_first = first, ra_second = second\<rparr>;
          elapsed = now - ra_at s
      in if \<not> ra_initialized s then ((0, 0), s')
         else if elapsed \<le> 0 then ((0, 0), s')
         else ((bytesPerSecond beyond (ra_first s) first elapsed, bytesPerSecond beyond (ra_second s) second elapsed), s'))"

text \<open>The sums wrap around as those of \<open>uint64\<close> do.\<close>

definition aggregatePhysicalDiskIO :: "(string \<times> u64 \<times> u64) list \<Rightarrow> (string \<Rightarrow> bool) \<Rightarrow> u64 \<times> u64" where
  "aggregatePhysicalDiskIO counters physical =
     foldl (\<lambda>(r, w) (nm, rb, wb). if physical nm then (r + rb, w + wb) else (r, w)) (0, 0) counters"

section \<open>The source\<close>

record source =
  so_diskRate :: rate_state
  so_networkInterface :: string
  so_networkRate :: rate_state

definition new_source :: source where
  "new_source = \<lparr>so_diskRate = zero_rate, so_networkInterface = '''', so_networkRate = zero_rate\<rparr>"

definition primaryIP :: "readings \<Rightarrow> string option" where
  "primaryIP rd =
     (case Option.bind (rd_route rd) defaultRouteInterface of
        None \<Rightarrow> None
      | Some interface \<Rightarrow>
          (case rd_interfaces rd of
             None \<Rightarrow> None
           | Some interfaces \<Rightarrow>
               (case find (\<lambda>(nm, addrs). nm = interface) interfaces of
                  None \<Rightarrow> None
                | Some (nm, addrs) \<Rightarrow>
                    (case find (\<lambda>a. rd_ipv4 rd a \<noteq> None) addrs of
                       None \<Rightarrow> None
                     | Some a \<Rightarrow> rd_ipv4 rd a))))"

definition Host :: "readings \<Rightarrow> g_host option" where
  "Host rd =
     (case (rd_host rd, rd_cpuModels rd, rd_cpuCount rd, primaryIP rd) of
        (Some info, Some models, Some cores, Some ip) \<Rightarrow>
          Some \<lparr>g_hostname = hi_hostname info, g_os = hi_os info, g_platform = hi_platform info,
                g_platformVersion = hi_platformVersion info, g_kernelVersion = hi_kernelVersion info,
                g_architecture = hi_kernelArch info, g_cpuModel = (case models of [] \<Rightarrow> '''' | m # ms \<Rightarrow> m),
                g_cpuCores = cores, g_primaryIp = ip, g_bootTimeUnix = sint (hi_bootTime info),
                g_uptimeSeconds = hi_uptime info\<rparr>
      | _ \<Rightarrow> None)"

definition CPU :: "readings \<Rightarrow> g_cpu option" where
  "CPU rd =
     (case (rd_cpuPercent rd, rd_load rd) of
        (Some (percent # percents), Some (l1, l5, l15)) \<Rightarrow>
          Some \<lparr>g_usagePercent = percent, g_load1 = l1, g_load5 = l5, g_load15 = l15\<rparr>
      | _ \<Rightarrow> None)"

definition Memory :: "readings \<Rightarrow> g_memory option" where
  "Memory rd =
     (case (rd_virtual rd, rd_swap rd) of
        (Some (all, used), Some (swap, swap_used)) \<Rightarrow>
          Some \<lparr>g_memTotal = all, g_memUsed = used, g_swapTotal = swap, g_swapUsed = swap_used\<rparr>
      | _ \<Rightarrow> None)"

definition DiskIO :: "readings \<Rightarrow> source \<Rightarrow> (g_disk_io \<times> source) option" where
  "DiskIO rd so =
     (case rd_diskIO rd of
        None \<Rightarrow> None
      | Some counters \<Rightarrow>
          let (readBytes, writeBytes) = aggregatePhysicalDiskIO counters (rd_physical rd);
              (rates, s') = sample_rate (rd_beyond rd) (rd_diskNow rd) readBytes writeBytes (so_diskRate so)
          in Some (\<lparr>g_readBps = fst rates, g_writeBps = snd rates\<rparr>, so\<lparr>so_diskRate := s'\<rparr>))"

definition DefaultRouteNetwork :: "readings \<Rightarrow> source \<Rightarrow> (g_network \<times> source) option" where
  "DefaultRouteNetwork rd so =
     (case Option.bind (rd_routeAgain rd) defaultRouteInterface of
        None \<Rightarrow> None
      | Some interface \<Rightarrow>
          (case rd_netIO rd of
             None \<Rightarrow> None
           | Some counters \<Rightarrow>
               (case find (\<lambda>(nm, sent, recv). nm = interface) counters of
                  None \<Rightarrow> None
                | Some (nm, sent, recv) \<Rightarrow>
                    let so1 = (if so_networkInterface so \<noteq> interface
                               then so\<lparr>so_networkInterface := interface, so_networkRate := zero_rate\<rparr> else so);
                        (rates, s') = sample_rate (rd_beyond rd) (rd_netNow rd) sent recv (so_networkRate so1)
                    in Some (\<lparr>g_interface = interface, g_uploadBps = fst rates, g_downloadBps = snd rates,
                              g_totalUpload = sent, g_totalDownload = recv\<rparr>, so1\<lparr>so_networkRate := s'\<rparr>))))"

section \<open>The collector (collector.go)\<close>

text \<open>
  The first error ends the collection; what the source has kept by then stays. The time is that of the
  clock in nanoseconds, in seconds in the report.
\<close>

definition Collect :: "string \<Rightarrow> readings \<Rightarrow> source \<Rightarrow> g_report option \<times> source" where
  "Collect version rd so =
     (case (Host rd, CPU rd, Memory rd, PersistentDisks rd) of
        (Some h, Some c, Some m, Some ds) \<Rightarrow>
          (case DiskIO rd so of
             None \<Rightarrow> (None, so)
           | Some (io, so1) \<Rightarrow>
               (case DefaultRouteNetwork rd so1 of
                  None \<Rightarrow> (None, so1)
                | Some (net, so2) \<Rightarrow>
                    (Some \<lparr>g_collectedAtUnix = rd_collected rd div 1000000000, g_agentVersion = version,
                           g_host = h, g_cpu = c, g_memory = m, g_disks = Some ds, g_diskIo = io,
                           g_network = net\<rparr>, so2)))
      | _ \<Rightarrow> (None, so))"

section \<open>The loop (runner.go)\<close>

definition retryDelays :: "int list" where
  "retryDelays = map (\<lambda>s. s * 1000000000) [5, 10, 20, 40, 60]"

text \<open>The wait after an attempt, with the next backoff.\<close>

definition next_wait :: "bool \<Rightarrow> nat \<Rightarrow> int \<times> nat" where
  "next_wait ok backoff =
     (if ok then (5 * 1000000000, 0)
      else (retryDelays ! backoff, if backoff < length retryDelays - 1 then backoff + 1 else backoff))"

text \<open>
  The attempts of a run: how long collecting and sending take, and whether both succeed. Each has the
  times of its start and its end. The waits in between are exact; a timer that fires late counts into the
  attempt that it starts.
\<close>

fun runner_from :: "int \<Rightarrow> nat \<Rightarrow> (int \<times> bool) list \<Rightarrow> (int \<times> int \<times> bool) list" where
  "runner_from start backoff [] = []"
| "runner_from start backoff ((work, ok) # attempts) =
     (let (delay, backoff') = next_wait ok backoff
      in (start, start + work, ok) # runner_from (start + work + delay) backoff' attempts)"

text \<open>\<open>Send\<close> succeeds on a status of success; \<open>None\<close> is an exchange that failed.\<close>

definition send_ok :: "nat option \<Rightarrow> bool" where
  "send_ok status = (case status of None \<Rightarrow> False | Some s \<Rightarrow> \<not> (s < 200 \<or> s \<ge> 300))"

section \<open>The client (client.go)\<close>

text \<open>What \<open>url.Parse\<close> gives of an address, as far as the checks read it; its errors are \<open>None\<close>.\<close>

record address =
  ad_absolute :: bool
  ad_host :: string
  ad_scheme :: string

definition validateReportEndpoint :: "(string \<Rightarrow> address option) \<Rightarrow> string \<Rightarrow> address option" where
  "validateReportEndpoint parse endpoint =
     (if blank endpoint then None
      else case parse endpoint of
             None \<Rightarrow> None
           | Some a \<Rightarrow>
               if \<not> ad_absolute a \<or> ad_host a = '''' \<or> (ad_scheme a \<noteq> ''http'' \<and> ad_scheme a \<noteq> ''https'')
               then None else Some a)"

definition NewReportClient :: "(string \<Rightarrow> address option) \<Rightarrow> string \<Rightarrow> string \<Rightarrow> (address \<times> string) option" where
  "NewReportClient parse endpoint token =
     (case validateReportEndpoint parse endpoint of
        None \<Rightarrow> None
      | Some a \<Rightarrow> if blank token then None else Some (a, token))"

text \<open>The headers of the request that \<open>Send\<close> makes.\<close>

definition report_headers :: "string \<Rightarrow> (string \<times> string) list" where
  "report_headers token =
     [(''Authorization'', ''Bearer '' @ token), (''Content-Type'', ''application/json'')]"

end
