(* ===== verification/AgentProps.thy ===== *)
theory AgentProps
  imports Agent ServerSystem
begin

text \<open>
  The agent's contracts: the default route against its reference, a least metric; that the checks of the
  server accept what the collector reports; and that the loop of the agent, the coordinator and its sweeper
  together keep the server of a working agent online.
\<close>

section \<open>The default route\<close>

text \<open>The reference: of the usable lines the first with the least metric.\<close>

definition least_route :: "(string \<times> u64) list \<Rightarrow> string option" where
  "least_route rs = map_option fst (find (\<lambda>r. \<forall>s\<in>set rs. snd r \<le> snd s) rs)"

definition prefer_route :: "string \<times> u64 \<Rightarrow> string \<times> u64 \<Rightarrow> string \<times> u64" where
  "prefer_route sel r = (if fst sel = '''' \<or> snd r < snd sel then r else sel)"

lemma fields_from_nonempty: "[] \<notin> set (fields_from w s)"
proof (induction w s rule: fields_from.induct)
  case (1 w s)
  then show ?case by (subst fields_from.simps) (auto simp: flush_field_def)
qed

lemma route_line_named: "route_line line = Some r \<Longrightarrow> fst r \<noteq> ''''"
proof -
  assume line: "route_line line = Some r"
  then have "fst r = fields_from [] line ! 0" "0 < length (fields_from [] line)"
    by (auto simp: route_line_def Let_def split: if_splits option.splits)
  then have "fst r \<in> set (fields_from [] line)" by simp
  then show ?thesis using fields_from_nonempty by auto
qed

lemma route_fold: "foldl route_step sel lines = foldl prefer_route sel (List.map_filter route_line lines)"
  by (induction lines arbitrary: sel)
     (auto simp: route_step_def prefer_route_def List.map_filter_simps split: option.split)

lemma prefer_fold:
  assumes "fst r \<noteq> ''''" "\<forall>s\<in>set rs. fst s \<noteq> ''''"
  shows "find (\<lambda>q. \<forall>s\<in>set (r # rs). snd q \<le> snd s) (r # rs) = Some (foldl prefer_route r rs)"
  using assms
proof (induction rs arbitrary: r)
  case (Cons b rs)
  let ?p = "if snd b < snd r then b else r"
  have "foldl prefer_route r (b # rs) = foldl prefer_route ?p rs"
    using Cons.prems by (simp add: prefer_route_def)
  moreover have "find (\<lambda>q. \<forall>s\<in>set (?p # rs). snd q \<le> snd s) (?p # rs) = Some (foldl prefer_route ?p rs)"
    using Cons.prems by (intro Cons.IH) auto
  moreover have "find (\<lambda>q. \<forall>s\<in>set (r # b # rs). snd q \<le> snd s) (r # b # rs) =
      find (\<lambda>q. \<forall>s\<in>set (?p # rs). snd q \<le> snd s) (?p # rs)"
  proof -
    have tail: "find (\<lambda>q. \<forall>s\<in>set (r # b # rs). snd q \<le> snd s) rs =
        find (\<lambda>q. \<forall>s\<in>set (?p # rs). snd q \<le> snd s) rs"
      by (intro find_cong refl) (auto split: if_splits)
    show ?thesis
    proof (cases "snd b < snd r")
      case True
      then show ?thesis using tail by auto
    next
      case False
      then show ?thesis using tail by auto
    qed
  qed
  ultimately show ?case by simp
qed simp

text \<open>
  The default route is that of least metric: of the lines of the route table after the header that
  are usable (up, not rejecting, to no network with no mask, the numbers well formed) the interface of the
  first with the least metric; there is none when no line is usable, the table is empty or reading it ends
  in an error.
\<close>

lemma default_route_least:
  "defaultRouteInterface (table, fails) =
     (if fails then None else least_route (List.map_filter route_line (drop 1 table)))"
proof (cases table)
  case (Cons h lines)
  let ?rs = "List.map_filter route_line lines"
  have named: "\<forall>r\<in>set ?rs. fst r \<noteq> ''''"
    using route_line_named by (fastforce simp: List.map_filter_def)
  show ?thesis
  proof (cases ?rs)
    case Nil
    then show ?thesis by (simp add: Cons defaultRouteInterface_def route_fold least_route_def)
  next
    case first: (Cons r rs)
    have "foldl prefer_route ('''', 0) ?rs = foldl prefer_route r rs"
      using first by (simp add: prefer_route_def)
    moreover have "find (\<lambda>q. \<forall>s\<in>set ?rs. snd q \<le> snd s) ?rs = Some (foldl prefer_route r rs)"
      using named prefer_fold [of r rs] by (simp add: first)
    moreover have "fst (foldl prefer_route r rs) \<noteq> ''''"
      using calculation(2) named by (auto simp: find_Some_iff)
    ultimately show ?thesis
      by (simp add: Cons defaultRouteInterface_def route_fold least_route_def Let_def)
  qed
qed (simp add: defaultRouteInterface_def least_route_def)

section \<open>What the collector reports\<close>

text \<open>
  What the operating system's readings satisfy: used is never more than there is, the share of the
  processor is a percentage, loads are numbers, there is a host name, mount points are not blank, and the
  clock is after 1970.
\<close>

definition percent_ok :: "jsnum \<Rightarrow> bool" where
  "percent_ok x \<longleftrightarrow> is_finite x \<and> \<not> js_lt x (Fin 0) \<and> \<not> js_lt (Fin 100) x"

definition trusted :: "readings \<Rightarrow> bool" where
  "trusted rd \<longleftrightarrow>
     (\<forall>info. rd_host rd = Some info \<longrightarrow> \<not> blank (hi_hostname info)) \<and>
     (\<forall>xs. rd_cpuPercent rd = Some xs \<longrightarrow> list_all percent_ok xs) \<and>
     (\<forall>a b c. rd_load rd = Some (a, b, c) \<longrightarrow> is_finite a \<and> is_finite b \<and> is_finite c) \<and>
     (\<forall>t u. rd_virtual rd = Some (t, u) \<longrightarrow> u \<le> t) \<and>
     (\<forall>t u. rd_swap rd = Some (t, u) \<longrightarrow> u \<le> t) \<and>
     (\<forall>m f ps. rd_partitions rd = Some ps \<longrightarrow> (m, f) \<in> set ps \<longrightarrow> \<not> blank m) \<and>
     (\<forall>m t u. rd_diskUsage rd m = Some (t, u) \<longrightarrow> u \<le> t) \<and>
     rd_collected rd \<ge> 1000000000"

definition reportable :: "readings \<Rightarrow> (string \<times> string) list" where
  "reportable rd =
     filter (\<lambda>(m, f). shouldReportFilesystem (rd_lower rd) m f) (case rd_partitions rd of None \<Rightarrow> [] | Some ps \<Rightarrow> ps)"

lemma disks_from_eq:
  "disks_from rd ps = Some ds \<Longrightarrow>
     map g_mountpoint ds = map fst (filter (\<lambda>(m, f). shouldReportFilesystem (rd_lower rd) m f) ps) \<and>
     (\<forall>d\<in>set ds. rd_diskUsage rd (g_mountpoint d) = Some (g_diskTotal d, g_diskUsed d))"
  by (induction rd ps arbitrary: ds rule: disks_from.induct) (auto split: if_splits option.splits)

lemma Collect_parts:
  assumes "Collect version rd so = (Some rep, so')"
  shows "Host rd = Some (g_host rep)" "CPU rd = Some (g_cpu rep)" "Memory rd = Some (g_memory rep)"
    "PersistentDisks rd = g_disks rep" "g_disks rep \<noteq> None"
    "g_collectedAtUnix rep = rd_collected rd div 1000000000" "g_agentVersion rep = version"
  using assms by (auto simp: Collect_def split: option.splits)

lemma trusted_host: "trusted rd \<Longrightarrow> Host rd = Some h \<Longrightarrow> \<not> blank (g_hostname h)"
  by (auto simp: trusted_def Host_def split: option.splits)

lemma trusted_cpu:
  "trusted rd \<Longrightarrow> CPU rd = Some c \<Longrightarrow>
     percent_ok (g_usagePercent c) \<and> is_finite (g_load1 c) \<and> is_finite (g_load5 c) \<and> is_finite (g_load15 c)"
  by (auto simp: trusted_def CPU_def split: option.splits list.splits)

lemma trusted_memory:
  "trusted rd \<Longrightarrow> Memory rd = Some m \<Longrightarrow> g_memUsed m \<le> g_memTotal m \<and> g_swapUsed m \<le> g_swapTotal m"
  by (auto simp: trusted_def Memory_def split: option.splits)

lemma trusted_disks:
  assumes "trusted rd" "PersistentDisks rd = Some ds"
  shows "map g_mountpoint ds = map fst (reportable rd)"
    "\<forall>d\<in>set ds. \<not> blank (g_mountpoint d) \<and> g_diskUsed d \<le> g_diskTotal d"
proof -
  obtain ps where ps: "rd_partitions rd = Some ps" "disks_from rd ps = Some ds"
    using assms(2) by (auto simp: PersistentDisks_def bind_eq_Some_conv)
  show mounts: "map g_mountpoint ds = map fst (reportable rd)"
    using disks_from_eq [OF ps(2)] ps(1) by (simp add: reportable_def)
  show "\<forall>d\<in>set ds. \<not> blank (g_mountpoint d) \<and> g_diskUsed d \<le> g_diskTotal d"
  proof
    fix d assume d: "d \<in> set ds"
    then have "g_mountpoint d \<in> set (map fst (reportable rd))"
      unfolding mounts [symmetric] by simp
    then have "\<not> blank (g_mountpoint d)"
      using assms(1) ps(1) by (auto simp: trusted_def reportable_def)
    moreover have "g_diskUsed d \<le> g_diskTotal d"
      using assms(1) disks_from_eq [OF ps(2)] d by (auto simp: trusted_def)
    ultimately show "\<not> blank (g_mountpoint d) \<and> g_diskUsed d \<le> g_diskTotal d" ..
  qed
qed

text \<open>
  C32: The server takes what the agent collects. A report that the collector makes of sound readings
  passes all checks of the server, is answered with 204 and is then in the store with the disks of exactly
  the partitions that are neither temporary nor of the boot loader, in their order; the only exception
  is a machine with no such partition, whose reports are all refused with 400.
\<close>

theorem collected_report_accepted:
  assumes "Collect version rd so = (Some rep, so')" "trusted rd"
    "bearerToken authorization = Some token" "auth token = Inr server"
  shows "let (status, c') = Ingest race authorization auth (Inr rep) now src auth None c
    in if reportable rd = [] then status = 400 \<and> c' = c
       else status = 204 \<and>
         (\<exists>s. co_store c' (sv_id server) = Some s \<and> gs_online s \<and> gs_report s = rep \<and>
              map g_mountpoint (disks_list (gs_report s)) = map fst (reportable rd))"
proof -
  note parts = Collect_parts [OF assms(1)]
  obtain ds where ds: "g_disks rep = Some ds" using parts(5) by blast
  have disks: "map g_mountpoint ds = map fst (reportable rd)"
    "\<forall>d\<in>set ds. \<not> blank (g_mountpoint d) \<and> g_diskUsed d \<le> g_diskTotal d"
    using trusted_disks [OF assms(2)] parts(4) ds by simp_all
  then have none: "ds = [] \<longleftrightarrow> reportable rd = []" by (metis map_is_Nil_conv)
  have "0 < g_collectedAtUnix rep"
    using assms(2) by (auto simp: parts(6) trusted_def)
  then have "validateReport rep \<longleftrightarrow> reportable rd \<noteq> []"
    using disks trusted_host [OF assms(2) parts(1)] trusted_cpu [OF assms(2) parts(2)]
      trusted_memory [OF assms(2) parts(3)]
    by (auto simp: validateReport_def disks_list_def ds none percent_ok_def list_all_iff)
  moreover have "reportable rd \<noteq> [] \<Longrightarrow> cloneReport rep = rep"
    using none by (intro cloneReport_id) (simp add: disks_list_def ds)
  ultimately show ?thesis
    using disks assms(3,4)
    by (auto simp: Ingest_def co_accept_def UpsertFrom_def Let_def disks_list_def ds)
qed

section \<open>Beats in time\<close>

text \<open>
  What keeps something up is a beat; the times of the beats among timed events, that no gap between them is
  longer than the grace, and that no event comes later than the grace after the last beat before it.
\<close>

definition beats :: "(int \<times> 'e \<Rightarrow> bool) \<Rightarrow> (int \<times> 'e) list \<Rightarrow> int list" where
  "beats beat es = map fst (filter beat es)"

fun close_together :: "int \<Rightarrow> int \<Rightarrow> int list \<Rightarrow> bool" where
  "close_together grace prev [] = True"
| "close_together grace prev (t # ts) = (t \<le> prev + grace \<and> close_together grace t ts)"

fun timely :: "(int \<times> 'e \<Rightarrow> bool) \<Rightarrow> int \<Rightarrow> int \<Rightarrow> (int \<times> 'e) list \<Rightarrow> bool" where
  "timely beat grace prev [] = True"
| "timely beat grace prev (e # es) =
     (if beat e then timely beat grace (fst e) es
      else fst e \<le> prev + grace \<and> timely beat grace prev es)"

lemma beats_simps [simp]:
  "beats beat [] = []" "beat e \<Longrightarrow> beats beat (e # es) = fst e # beats beat es"
  "\<not> beat e \<Longrightarrow> beats beat (e # es) = beats beat es" "beats beat (es @ fs) = beats beat es @ beats beat fs"
  by (simp_all add: beats_def)

lemma beats_times: "t \<in> set (beats beat es) \<Longrightarrow> t \<in> set (map fst es)"
  by (auto simp: beats_def)

lemma timely_if_close:
  assumes "sorted (map fst es)" "close_together grace prev (beats beat es)"
    "\<forall>e\<in>set es. fst e \<le> last (prev # beats beat es) + grace"
  shows "timely beat grace prev es"
  using assms
proof (induction es arbitrary: prev)
  case (Cons e es)
  show ?case
  proof (cases "beat e")
    case True
    then show ?thesis using Cons by auto
  next
    case False
    have "fst e \<le> prev + grace"
    proof (cases "beats beat es")
      case Nil
      then show ?thesis using Cons.prems(3) False by simp
    next
      case (Cons t ts)
      then have "t \<in> set (map fst es)" using beats_times [of t beat es] by simp
      then have "fst e \<le> t" using Cons.prems(1) by auto
      then show ?thesis using Cons.prems(2) False Cons by simp
    qed
    then show ?thesis using Cons False by simp
  qed
qed simp

text \<open>
  What a watcher promises: a beat brings up what is watched, and nothing else takes it down before the grace is
  over; \<open>quiet\<close> is that nothing has been said meanwhile.
\<close>

locale heartbeat =
  fixes step :: "int \<times> 'e \<Rightarrow> 's \<Rightarrow> 's" and beat :: "int \<times> 'e \<Rightarrow> bool" and fair :: "int \<times> 'e \<Rightarrow> bool"
    and ready :: "'s \<Rightarrow> bool" and up :: "int \<Rightarrow> 's \<Rightarrow> bool" and quiet :: "'s \<Rightarrow> 's \<Rightarrow> bool" and grace :: int
  assumes ready_step: "ready s \<Longrightarrow> fair e \<Longrightarrow> ready (step e s)"
    and up_ready: "up t s \<Longrightarrow> ready s"
    and beat_up: "ready s \<Longrightarrow> beat e \<Longrightarrow> up (fst e) (step e s) \<and> quiet s (step e s)"
    and other_up: "up t s \<Longrightarrow> fair e \<Longrightarrow> \<not> beat e \<Longrightarrow> fst e \<le> t + grace \<Longrightarrow> up t (step e s) \<and> quiet s (step e s)"
    and quiet_refl: "quiet s s"
    and quiet_trans: "quiet s s' \<Longrightarrow> quiet s' s'' \<Longrightarrow> quiet s s''"
begin

lemma ready_steps: "ready s \<Longrightarrow> \<forall>e\<in>set es. fair e \<Longrightarrow> ready (fold step es s)"
  by (induction es arbitrary: s) (simp_all add: ready_step)

lemma up_while_timely:
  assumes "up prev s" "timely beat grace prev (p @ q)" "\<forall>e\<in>set (p @ q). fair e"
  shows "up (last (prev # beats beat p)) (fold step p s) \<and>
    timely beat grace (last (prev # beats beat p)) q \<and> quiet s (fold step p s)"
  using assms
proof (induction p arbitrary: prev s)
  case (Cons e p)
  let ?t = "if beat e then fst e else prev"
  have step: "up ?t (step e s) \<and> quiet s (step e s)"
    using Cons.prems beat_up [of s e] other_up [of prev s e] up_ready by (auto split: if_splits)
  have "timely beat grace ?t (p @ q)" using Cons.prems(2) by (auto split: if_splits)
  moreover have "last (prev # beats beat (e # p)) = last (?t # beats beat p)" by simp
  ultimately show ?case
    using Cons.IH [of ?t "step e s"] Cons.prems(3) step quiet_trans by auto
qed (simp add: quiet_refl)

lemma stays_up:
  assumes "ready s" "sorted (map fst (p @ q))" "\<forall>e\<in>set (p @ q). fair e" "beats beat p \<noteq> []"
    "\<And>t ts. beats beat (p @ q) = t # ts \<Longrightarrow> close_together grace t ts"
    "\<forall>e\<in>set (p @ q). fst e \<le> last (beats beat (p @ q)) + grace"
  shows "up (last (beats beat p)) (fold step p s) \<and> quiet (fold step p s) (fold step (p @ q) s)"
proof -
  have "\<exists>e\<in>set p. beat e" using assms(4) by (auto simp: beats_def filter_empty_conv)
  from split_list_first_prop [OF this] obtain p0 e p1
    where p: "p = p0 @ e # p1" "beat e" "\<forall>x\<in>set p0. \<not> beat x"
    by blast
  have none: "beats beat p0 = []" using p(3) by (simp add: beats_def filter_empty_conv)
  then have all: "beats beat (p @ q) = fst e # beats beat (p1 @ q)" and first: "beats beat p = fst e # beats beat p1"
    using p(2) by (simp_all add: p(1))
  have "\<forall>x\<in>set (p1 @ q). fst x \<le> last (fst e # beats beat (p1 @ q)) + grace"
    using assms(6) [unfolded all] p(1) by auto
  moreover have "sorted (map fst (p1 @ q))" using assms(2) by (simp add: p(1) sorted_append)
  ultimately have timely: "timely beat grace (fst e) (p1 @ q)"
    using assms(5) [OF all] by (intro timely_if_close)
  let ?s = "step e (fold step p0 s)"
  have "ready (fold step p0 s)" using assms(1,3) by (intro ready_steps) (auto simp: p(1))
  then have "up (fst e) ?s" using beat_up p(2) by blast
  note here = up_while_timely [OF this timely]
  have "up (last (beats beat p)) (fold step p1 ?s)" "timely beat grace (last (beats beat p)) q"
    using here assms(3) unfolding first by (auto simp: p(1))
  then show ?thesis
    using up_while_timely [of "last (beats beat p)" "fold step p1 ?s" q "[]"] assms(3) by (auto simp: p(1))
qed

end

section \<open>The loop of the agent and the sweeper\<close>

text \<open>
  The server's side as a list of timed happenings: reports of any server, ticks of the sweeper, changes
  of names and removals.
\<close>

datatype happening =
    Reported "nat \<Rightarrow> nat \<times> nat" go_server g_report string
  | Swept "g_event \<Rightarrow> nat \<Rightarrow> nat \<times> nat" "int list"
  | Renamed go_server
  | Removed int

definition happens :: "int \<times> happening \<Rightarrow> coordinator \<Rightarrow> coordinator" where
  "happens th c =
     (case snd th of
        Reported race server rep src \<Rightarrow> snd (co_accept race (Inr server) None rep (fst th) src c)
      | Swept races ids \<Rightarrow> sweeper_tick races ids (fst th) c
      | Renamed server \<Rightarrow> snd (ReconcileUpdate (Inr server) c)
      | Removed i \<Rightarrow> snd (ReconcileDelete i None c))"

fun report_of :: "int \<Rightarrow> int \<times> happening \<Rightarrow> bool" where
  "report_of i (t, Reported race server rep src) = (sv_id server = i)"
| "report_of i _ = False"

definition receipts :: "int \<Rightarrow> (int \<times> happening) list \<Rightarrow> int list" where
  "receipts i timeline = beats (report_of i) timeline"

fun ordinary :: "int \<Rightarrow> happening \<Rightarrow> bool" where
  "ordinary i (Swept races ids) = distinct ids"
| "ordinary i (Removed j) = (j \<noteq> i)"
| "ordinary i _ = True"

text \<open>No more than \<open>k\<close> failures in a row; \<open>n\<close> is how many there have been.\<close>

fun few_failures :: "nat \<Rightarrow> nat \<Rightarrow> (int \<times> bool) list \<Rightarrow> bool" where
  "few_failures k n [] = True"
| "few_failures k n ((work, ok) # attempts) =
     (if ok then few_failures k 0 attempts else n < k \<and> few_failures k (Suc n) attempts)"

text \<open>The receipts of a run: each report that succeeded was received while it was being made.\<close>

definition received_in :: "(int \<times> int \<times> bool) list \<Rightarrow> int list \<Rightarrow> bool" where
  "received_in attempts ts \<longleftrightarrow>
     list_all2 (\<lambda>(from, till, ok) t. from \<le> t \<and> t \<le> till) (filter (\<lambda>(from, till, ok). ok) attempts) ts"

definition longest_gap :: "nat \<Rightarrow> int \<Rightarrow> int" where
  "longest_gap k work = 5 * 1000000000 + sum_list (take k retryDelays) + int (k + 2) * work"

lemma delays_length: "length retryDelays = 5"
  by (simp add: retryDelays_def)

lemma delays_nonneg: "0 \<le> sum_list (take m (drop n retryDelays))"
proof (rule sum_list_nonneg)
  fix d assume "d \<in> set (take m (drop n retryDelays))"
  then have "d \<in> set retryDelays" by (blast dest: in_set_takeD in_set_dropD)
  then show "0 \<le> d" by (auto simp: retryDelays_def)
qed

lemma short_gap:
  assumes "longest_gap k work \<le> offlineAfter" "0 \<le> work"
  shows "k \<le> 2"
proof (rule ccontr)
  assume "\<not> k \<le> 2"
  then obtain j where k: "k = 3 + j" by (metis add.commute le_Suc_ex not_less_eq_eq numeral_3_eq_3 numeral_2_eq_2)
  have "sum_list (take k retryDelays) = 35 * 1000000000 + sum_list (take j (drop 3 retryDelays))"
    by (simp add: k take_add) (simp add: retryDelays_def)
  moreover have "0 \<le> sum_list (take j (drop 3 retryDelays))" by (rule delays_nonneg)
  ultimately have "sum_list (take k retryDelays) \<ge> 35 * 1000000000" by simp
  moreover have "0 \<le> int (k + 2) * work" using assms(2) by simp
  ultimately show False using assms(1) by (simp add: longest_gap_def offlineAfter_def)
qed

lemma gap_step:
  "n < 5 \<Longrightarrow> longest_gap (Suc n) work = longest_gap n work + retryDelays ! n + work"
  using take_Suc_conv_app_nth [of n retryDelays] delays_length by (simp add: longest_gap_def algebra_simps)

lemma gap_mono:
  assumes "n \<le> k" "0 \<le> work"
  shows "longest_gap n work \<le> longest_gap k work"
proof -
  obtain m where k: "k = n + m" using assms(1) le_Suc_ex by blast
  have "0 \<le> sum_list (take m (drop n retryDelays))" by (rule delays_nonneg)
  then have "sum_list (take n retryDelays) \<le> sum_list (take k retryDelays)"
    by (simp add: k take_add)
  moreover have "int (n + 2) * work \<le> int (k + 2) * work"
    using assms by (intro mult_right_mono) auto
  ultimately show ?thesis by (simp add: longest_gap_def)
qed

text \<open>
  After \<open>n\<close> failures in a row the backoff is \<open>n\<close>, and the next attempt starts soon enough after the last
  successful one.
\<close>

lemma receipts_close:
  assumes "received_in (runner_from start n attempts) ts" "few_failures k n attempts"
    "\<forall>a\<in>set attempts. 0 \<le> fst a \<and> fst a \<le> work" "longest_gap k work \<le> offlineAfter" "0 \<le> work"
    "n \<le> k" "start + work \<le> prev + longest_gap n work"
  shows "close_together offlineAfter prev ts"
  using assms
proof (induction attempts arbitrary: start n ts prev)
  case (Cons a attempts)
  obtain w ok where a: "a = (w, ok)" by fastforce
  have k: "k \<le> 2" by (rule short_gap) fact+
  show ?case
  proof (cases ok)
    case True
    with Cons.prems obtain t ts' where ts: "ts = t # ts'" "start \<le> t" "t \<le> start + w"
        "received_in (runner_from (start + w + 5 * 1000000000) 0 attempts) ts'"
      by (auto simp: a received_in_def next_wait_def list_all2_Cons1)
    have "w \<le> work" using Cons.prems(3) a by simp
    have "close_together offlineAfter t ts'"
      using Cons.prems True ts \<open>w \<le> work\<close>
      by (intro Cons.IH [OF ts(4)]) (auto simp: a longest_gap_def)
    moreover have "longest_gap n work \<le> offlineAfter"
      using gap_mono [OF Cons.prems(6,5)] Cons.prems(4) by simp
    ultimately show ?thesis using Cons.prems(7) ts \<open>w \<le> work\<close> by simp
  next
    case False
    with Cons.prems have n: "n < k" by (simp add: a)
    then have wait: "next_wait False n = (retryDelays ! n, Suc n)"
      using k by (simp add: next_wait_def retryDelays_def)
    have "w \<le> work" using Cons.prems(3) a by simp
    show ?thesis
    proof (rule Cons.IH)
      show "received_in (runner_from (start + w + retryDelays ! n) (Suc n) attempts) ts"
        using Cons.prems(1) False wait by (simp add: a received_in_def)
      show "start + w + retryDelays ! n + work \<le> prev + longest_gap (Suc n) work"
        using Cons.prems(7) \<open>w \<le> work\<close> n k gap_step [of n work] by simp
    qed (use Cons.prems False n in \<open>auto simp: a\<close>)
  qed
qed (simp add: received_in_def)

lemma later_receipts_close:
  assumes "received_in (runner_from start b attempts) (t # ts)" "few_failures k n attempts"
    "\<forall>a\<in>set attempts. 0 \<le> fst a \<and> fst a \<le> work" "longest_gap k work \<le> offlineAfter" "0 \<le> work"
  shows "close_together offlineAfter t ts"
  using assms
proof (induction attempts arbitrary: start b n)
  case (Cons a attempts)
  obtain w ok where a: "a = (w, ok)" by fastforce
  show ?case
  proof (cases ok)
    case True
    then have "received_in (runner_from (start + w + 5 * 1000000000) 0 attempts) ts" "start \<le> t"
      using Cons.prems(1) by (auto simp: a received_in_def next_wait_def)
    then show ?thesis
      using Cons.prems True by (intro receipts_close [where n = 0]) (auto simp: a longest_gap_def)
  next
    case False
    obtain delay b' where "next_wait False b = (delay, b')" by fastforce
    then have "received_in (runner_from (start + w + delay) b' attempts) (t # ts)"
      using Cons.prems(1) False by (simp add: a received_in_def)
    then show ?thesis using Cons.prems False by (intro Cons.IH) (auto simp: a)
  qed
qed (simp add: received_in_def)

text \<open>What happens to the server while its reports come in time.\<close>

definition online_since :: "int \<Rightarrow> int \<Rightarrow> coordinator \<Rightarrow> bool" where
  "online_since i t c \<longleftrightarrow>
     server_run c \<and> (\<exists>s. co_store c i = Some s \<and> gs_online s \<and> gs_lastReceivedAt s = t)"

definition no_outage :: "int \<Rightarrow> coordinator \<Rightarrow> coordinator \<Rightarrow> bool" where
  "no_outage i c c' \<longleftrightarrow>
     (\<exists>es. co_observed c' = co_observed c @ es \<and>
           (\<forall>e\<in>set es. gs_serverId (ge_snapshot e) = i \<longrightarrow> ge_type e = SnapshotUpdated))"

lemma no_outage_refl [simp]: "no_outage i c c"
  by (simp add: no_outage_def)

lemma no_outage_trans: "no_outage i c c' \<Longrightarrow> no_outage i c' c'' \<Longrightarrow> no_outage i c c''"
  unfolding no_outage_def by (elim exE conjE) (auto simp: ball_Un)

lemma happens_run: "server_run c \<Longrightarrow> ordinary i (snd th) \<Longrightarrow> server_run (happens th c)"
  by (cases "snd th") (auto simp: happens_def sweeper_tick_def intro: server_run.intros)

lemma happens_report:
  assumes "server_run c" "report_of i th"
  shows "online_since i (fst th) (happens th c) \<and> no_outage i c (happens th c)"
proof -
  obtain t race server rep src where th: "th = (t, Reported race server rep src)" "sv_id server = i"
    using assms(2) by (cases "(i, th)" rule: report_of.cases) auto
  have "server_run (happens th c)" using assms(1) th by (auto intro: happens_run)
  then show ?thesis
    by (simp add: online_since_def no_outage_def happens_def th co_accept_fields)
       (simp add: UpsertFrom_def Let_def th)
qed

lemma happens_other:
  assumes "online_since i prev c" "ordinary i (snd th)" "\<not> report_of i th" "fst th \<le> prev + offlineAfter"
  shows "online_since i prev (happens th c) \<and> no_outage i c (happens th c)"
proof -
  have run: "server_run (happens th c)" using assms by (auto simp: online_since_def intro: happens_run)
  obtain s where s: "co_store c i = Some s" "gs_online s" "gs_lastReceivedAt s = prev"
    using assms(1) by (auto simp: online_since_def)
  have ids: "co_store c j = Some u \<Longrightarrow> gs_serverId u = j" for j u
    using server_run_events [of c] assms(1) by (auto simp: events_ok_def online_since_def)
  obtain t h where th: "th = (t, h)" by fastforce
  show ?thesis
  proof (cases h)
    case (Reported race server rep src)
    then show ?thesis
      using assms(3) run s
      by (auto simp: online_since_def no_outage_def happens_def th co_accept_fields UpsertFrom_def Let_def
          cloneSnapshot_def)
  next
    case (Swept races ids)
    then have "distinct ids" using assms(2) th by simp
    note swept = co_sweep_fields(1,2) [OF this]
    have not_due: "\<not> due (t - offlineAfter) (co_store c) i"
      using s assms(4) th by (simp add: due_def)
    have "ge_type e = SnapshotUpdated"
      if "e \<in> set (map (\<lambda>j. offline_event (cloneSnapshot (gone_offline (co_store c) j)))
            (filter (due (t - offlineAfter) (co_store c)) ids))" "gs_serverId (ge_snapshot e) = i" for e
    proof -
      note published = that(1)
      obtain j where j: "due (t - offlineAfter) (co_store c) j"
          "e = offline_event (cloneSnapshot (gone_offline (co_store c) j))"
        using published by auto
      then obtain u where "co_store c j = Some u" by (auto simp: due_def split: option.splits)
      then have "gs_serverId (ge_snapshot e) = j"
        using ids [of j u] by (simp add: j(2) gone_offline_def offline_event_def cloneSnapshot_def)
      then show ?thesis using not_due that(2) j(1) by simp
    qed
    then show ?thesis
      using run s not_due
      by (simp add: online_since_def no_outage_def happens_def th Swept sweeper_tick_def swept)
  next
    case (Renamed server)
    then show ?thesis
      using run s
      by (auto simp: online_since_def no_outage_def happens_def th ReconcileUpdate_def store_rename_def
          split: option.split)
  next
    case (Removed j)
    then show ?thesis
      using run s assms(2)
      by (auto simp: online_since_def no_outage_def happens_def th ReconcileDelete_def store_delete_def)
  qed
qed

text \<open>The coordinator watches over every server.\<close>

interpretation watched: heartbeat happens "report_of i" "\<lambda>th. ordinary i (snd th)" server_run "online_since i"
  "no_outage i" offlineAfter for i
proof
  show "server_run c" if "online_since i t c" for t c using that by (simp add: online_since_def)
qed (auto intro: happens_run no_outage_trans simp: happens_report happens_other)

text \<open>
  C8: A working agent's server stays online. Let the agent of a server run its loop, each attempt
  taking at most \<open>work\<close> and failing at most \<open>k\<close> times in a row, with 5 s, the waits after \<open>k\<close> failures and
  \<open>k + 2\<close> attempts within the 30 s of the sweeper (so one of \<open>k = 0\<close> and 12.5 s, \<open>k = 1\<close> and 6.6 s, \<open>k = 2\<close> and
  2.5 s), and let every report that succeeded be received while it was being sent. Then whatever else
  happens on the server, in any order in time, from the first report on until 30 s after the last one the
  server is online with its last report's time, and no outage of it is published.
\<close>

theorem agent_stays_online:
  assumes "server_run c" "sorted (map fst (p @ q))" "\<forall>th\<in>set (p @ q). ordinary i (snd th)"
    "received_in (runner_from start 0 attempts) (receipts i (p @ q))"
    "few_failures k 0 attempts" "\<forall>a\<in>set attempts. 0 \<le> fst a \<and> fst a \<le> work"
    "longest_gap k work \<le> offlineAfter"
    "\<forall>th\<in>set (p @ q). fst th \<le> last (receipts i (p @ q)) + offlineAfter"
    "receipts i p \<noteq> []"
  shows "(\<exists>s. co_store (fold happens p c) i = Some s \<and> gs_online s \<and>
              gs_lastReceivedAt s = last (receipts i p)) \<and>
    no_outage i (fold happens p c) (fold happens (p @ q) c)"
proof -
  have "close_together offlineAfter t ts" if ts: "receipts i (p @ q) = t # ts" for t ts
  proof -
    have "attempts \<noteq> []" using assms(4) by (auto simp: ts received_in_def)
    then have "0 \<le> work" using assms(6) by (cases attempts) auto
    then show ?thesis using assms(4-7) unfolding ts by (intro later_receipts_close)
  qed
  then show ?thesis
    using watched.stays_up [of c p q i] assms(1-3,8,9) by (simp add: receipts_def online_since_def)
qed

section \<open>A machine to evaluate the model on\<close>

definition sample_routes :: "string list" where
  "sample_routes =
     [''Iface'', ''eth0'' @ '' '' @ ''00000000'' @ '' '' @ ''01'' @ '' '' @ ''3'' @ '' '' @ ''0'' @ '' '' @ ''0'' @ '' '' @
        ''100'' @ '' '' @ ''00000000'']"

definition sample_readings :: readings where
  "sample_readings =
     \<lparr>rd_host = Some \<lparr>hi_hostname = ''home-lab'', hi_os = ''linux'', hi_platform = ''ubuntu'',
        hi_platformVersion = ''24.04'', hi_kernelVersion = ''6.8.0'', hi_kernelArch = ''amd64'',
        hi_bootTime = 1752724800, hi_uptime = 864000\<rparr>,
      rd_cpuModels = Some [''Tiny CPU''], rd_cpuCount = Some 4, rd_cpuPercent = Some [Fin 95],
      rd_load = Some (Fin 1, Fin 0, Fin 0), rd_virtual = Some (8, 4), rd_swap = Some (2, 0),
      rd_partitions = Some [(''/proc'', ''proc''), (''/'', ''ext4''), (''/boot'', ''ext4'')],
      rd_diskUsage = (\<lambda>m. Some (400, 200)), rd_diskIO = Some [(''sda'', 1024, 2048)],
      rd_physical = (\<lambda>nm. True), rd_diskNow = 5, rd_route = Some (sample_routes, False),
      rd_interfaces = Some [(''eth0'', [''192.0.2.10/24''])], rd_ipv4 = (\<lambda>a. Some ''192.0.2.10''),
      rd_routeAgain = Some (sample_routes, False), rd_netIO = Some [(''eth0'', 10, 20)], rd_netNow = 6,
      rd_collected = 1753588800 * 1000000000, rd_lower = (\<lambda>s. s), rd_beyond = 0\<rparr>"

definition sample_collected :: g_report where
  "sample_collected = the (fst (Collect ''1.2.0'' sample_readings new_source))"

lemma sample_route: "defaultRouteInterface (sample_routes, False) = Some ''eth0''"
proof -
  let ?tail = "''eth0'' @ CHR '' '' # ''00000000'' @ CHR '' '' # ''01'' @ CHR '' '' # ''3'' @ CHR '' '' # ''0'' @
      CHR '' '' # ''0'' @ CHR '' '' # ''100'' @ CHR '' '' # ''00000000''"
  have "fields_from [] ?tail =
      [''eth0'', ''00000000'', ''01'', ''3'', ''0'', ''0'', ''100'', ''00000000'']"
    by (subst fields_space, simp add: solid_def code_between_def)+
       (subst fields_solid, simp_all add: solid_def code_between_def flush_field_def)
  then have "route_line (sample_routes ! 1) = Some (''eth0'', 100)"
    by (simp add: sample_routes_def route_line_def ParseUint_def base_digit_def code_between_def)
  then show ?thesis
    by (simp add: sample_routes_def defaultRouteInterface_def route_step_def)
qed

lemma sample_mounts:
  "reportable sample_readings = [(''/'', ''ext4'')]"
  by (simp add: reportable_def sample_readings_def shouldReportFilesystem_def isPersistentFilesystem_def
      temporaryFilesystems_def isBootMount_def)

lemma sample_collects: "\<exists>so'. Collect ''1.2.0'' sample_readings new_source = (Some sample_collected, so')"
proof -
  have disks: "PersistentDisks sample_readings =
      Some [\<lparr>g_mountpoint = ''/'', g_diskTotal = 400, g_diskUsed = 200\<rparr>]"
    by (simp add: PersistentDisks_def sample_readings_def shouldReportFilesystem_def
        isPersistentFilesystem_def temporaryFilesystems_def isBootMount_def)
  have "\<exists>rep so'. Collect ''1.2.0'' sample_readings new_source = (Some rep, so')"
    unfolding Collect_def disks Host_def primaryIP_def CPU_def Memory_def DiskIO_def DefaultRouteNetwork_def
    by (simp add: sample_readings_def sample_route case_prod_beta Let_def)
  then show ?thesis by (auto simp: sample_collected_def)
qed

lemma sample_trusted: "trusted sample_readings"
proof -
  have "\<not> blank ''home-lab''" "\<not> blank ''/''" "\<not> blank ''/proc''" "\<not> blank ''/boot''"
    by (rule blank_letter, simp add: space_len_def code_between_def)+
  then show ?thesis by (auto simp: trusted_def sample_readings_def percent_ok_def)
qed

theorem collected_report_accepted_witness:
  "fst (Ingest (\<lambda>i. (0, 0)) ''Bearer t'' (\<lambda>t. Inr sample_server) (Inr sample_collected) 1000 ''192.0.2.10''
     (\<lambda>t. Inr sample_server) None sample_live) = 204"
proof -
  obtain so' where so': "Collect ''1.2.0'' sample_readings new_source = (Some sample_collected, so')"
    using sample_collects by blast
  have "bearerToken ''Bearer t'' = Some ''t''"
    using bearer_fields [of "''t''"] by (simp add: solid_def code_between_def)
  from collected_report_accepted [OF so' sample_trusted this, of "\<lambda>t. Inr sample_server" sample_server] show ?thesis
    by (simp add: sample_mounts case_prod_beta Let_def)
qed

definition sample_attempts :: "(int \<times> bool) list" where
  "sample_attempts = [(1000000000, True), (1000000000, False), (1000000000, True)]"

definition sample_past :: "(int \<times> happening) list" where
  "sample_past =
     [(500000000, Reported (\<lambda>i. (0, 0)) sample_server sample_go_report ''192.0.2.10''),
      (5000000000, Swept (\<lambda>e i. (0, 0)) [3])]"

definition sample_future :: "(int \<times> happening) list" where
  "sample_future =
     [(10000000000, Renamed sample_server),
      (12500000000, Reported (\<lambda>i. (0, 0)) sample_server sample_go_report ''192.0.2.10''),
      (42500000000, Swept (\<lambda>e i. (0, 0)) [3])]"

definition idle :: coordinator where
  "idle = \<lparr>co_store = Map.empty, co_hub = NewHub, co_observed = [], co_history = []\<rparr>"

theorem agent_stays_online_witness:
  "\<exists>s. co_store (fold happens sample_past idle) 3 = Some s \<and> gs_online s \<and>
    no_outage 3 (fold happens sample_past idle) (fold happens (sample_past @ sample_future) idle)"
proof -
  have "server_run idle" unfolding idle_def by (rule run_start)
  then have "(\<exists>s. co_store (fold happens sample_past idle) 3 = Some s \<and> gs_online s \<and>
      gs_lastReceivedAt s = last (receipts 3 sample_past)) \<and>
    no_outage 3 (fold happens sample_past idle) (fold happens (sample_past @ sample_future) idle)"
    by (rule agent_stays_online [where k = 1 and work = 1000000000 and start = 0 and attempts = sample_attempts])
       (simp_all add: sample_past_def sample_future_def sample_attempts_def receipts_def received_in_def
        next_wait_def retryDelays_def longest_gap_def offlineAfter_def)
  then show ?thesis by blast
qed

end
