(* ===== verification/Spec2Isabelle.thy ===== *)
theory Spec2Isabelle
  imports ChartProps Format Endpoints HistoryHookProps LiveTheorems DashboardProps AuthProps DetailPage
    ChartComponent WebhookProps AlertProps EndToEnd ServerSystemProps SessionProps
    HttpProps AlertPageServer AgentProps
begin

text \<open>
  A verification development for TinyProbe, a personal server probe: a server written in Go that
  collects the reports of agents, and a web interface written in TypeScript with React. The
  development models the web interface (everything under \<^verbatim>\<open>web/src\<close> but its entry point), the
  server (\<^verbatim>\<open>internal/live\<close>, \<^verbatim>\<open>internal/history\<close>, \<^verbatim>\<open>internal/alerting\<close>, \<^verbatim>\<open>internal/servers\<close>,
  \<^verbatim>\<open>internal/auth\<close> and the routes of \<^verbatim>\<open>internal/httpapi\<close>) and its agent, \<^verbatim>\<open>internal/agent\<close>.

  \<^bold>\<open>The program.\<close> \<^verbatim>\<open>auth/AuthGate.tsx\<close> finds out whether to show a form or the application.
  \<^verbatim>\<open>app/App.tsx\<close> is the router of the application: overview, page of one server, management, alerts.
  The overview shows the list kept by \<^verbatim>\<open>live/useServerSnapshots.ts\<close> from one load and from
  server-sent events. The page of a server shows its latest report or, from
  \<^verbatim>\<open>history/useHistory.ts\<close>, a range of minutes as charts, which \<^verbatim>\<open>history/chartSeries.ts\<close> has thinned
  out. The management page works on the list of \<^verbatim>\<open>servers/useServerCollection.ts\<close> and hands the
  one-time token of a new server to the router, which keeps it until the user has saved it. Every
  request goes through \<^verbatim>\<open>api/client.ts\<close>.

  On the server, a report of an agent passes the checks of \<^verbatim>\<open>live/ingest.go\<close> to the coordinator
  (\<^verbatim>\<open>live/coordinator.go\<close>), which puts it into the store of snapshots, publishes an event to the hub
  of the event streams and to the alert evaluator, and hands it to the aggregator of the history;
  a sweeper marks silent servers offline. The aggregator adds the reports of a minute up, flushes
  finished minutes to the database, and the history handler reads them back in pages. The evaluator
  runs a state machine per rule, stores its state and its events, and orders deliveries to a webhook.
  The registry (\<^verbatim>\<open>servers/service.go\<close>) knows the servers and the digests of their tokens; it changes a
  server under the coordinator's lock. \<^verbatim>\<open>auth/service.go\<close> keeps the administrator and the sessions.
  \<^verbatim>\<open>httpapi/router.go\<close> puts every handler but a few behind the check of the session. On the other
  machines the agent reads the operating system, makes a report of it and sends it every five
  seconds, later after failures.

  \<^bold>\<open>How it is modelled.\<close> A component is a record of its state and refs, one definition per handler,
  and what it renders as a record of values. A handler that awaits is cut there: the second part
  is a step of its own that may come at any later time, so that every interleaving of user, server
  and clean-up is a list of steps. Machines that span components (\<open>dashboard_run\<close>, \<open>live_run\<close>,
  \<open>history_run\<close>, \<open>auth_run\<close>, \<open>detail_run\<close>, \<open>alerts_run\<close>, on the server \<open>server_run\<close>, \<open>system_run\<close>,
  \<open>session_run\<close>, and over its whole state \<open>probe_run\<close>) are inductive
  predicates, and their invariants are proved by rule induction. The server's code holds a lock
  where a model's step is; what it does between two locks (a stream reading its channel, the write of
  a minute) is a parameter or a step of its own. A \<open>uint64\<close> is a 64-bit word, a time the nanoseconds
  since 1970. A Number is \<open>jsnum\<close>, a rational with exact binary64
  rounding, infinities and NaN; minus zero is zero. A string is its UTF-8 bytes. An exception is a
  constructor of a promise or a completion. Browser and library services are parameters:
  \<open>fetch\<close>, \<open>localeCompare\<close>, \<open>Intl\<close> and \<open>Date\<close>, the clock, the answer of the clipboard; on the server
  \<open>strings.ToLower\<close>, SHA-256, the password hash, random bytes, the clocks, the text of a time to the
  second, which calls of the database fail, what a URL parses to, and the result of rendering a
  template and of each request to the webhook; for the agent what the operating system's readings are.
  The live part alone takes the answers of the registry as parameters too; ServerSystem and HttpRouter
  give it the registry's own.

  \<^bold>\<open>The language.\<close> Prelude holds the fact collections; JsNumber and JsRounding the Numbers, with
  rounding as the interface \<open>float_rounding\<close>; JsValue strings, decimal notation and JSON values;
  StringNumber reads a text as a Number; JsArray is the stable sort, with the interface \<open>js_order\<close>;
  Json and JsonProps are \<open>JSON.stringify\<close> and \<open>JSON.parse\<close>, whose fuel, the length of the text, is
  proved to be always enough, and which read back what they write; Messages are the texts.

  \<^bold>\<open>Data and requests.\<close> ApiTypes (\<^verbatim>\<open>api/types.ts\<close>); Client (\<^verbatim>\<open>api/client.ts\<close>): how a response settles;
  Endpoints (\<^verbatim>\<open>servers/api.ts\<close>, \<^verbatim>\<open>alerts/\<close>): bodies that read back; Requests: the interface
  \<open>latest_wins\<close>, the discipline of numbered requests, interpreted by the live list, the history
  hook, and the loads and mutations of the server collection.

  \<^bold>\<open>History.\<close> HistoryData (checks, minute series, aligned index), ChartSeries with ChartCorrect and
  ChartProps (thinning out: times, values, gaps, extrema, bounds, statistics), HistoryHook with
  HistoryHookProps (cache, effect, answers), HistoryCharts (\<^verbatim>\<open>HistoricalMetrics.tsx\<close>)
  and ChartComponent (\<^verbatim>\<open>MetricChart.tsx\<close>: the life of a chart), DetailPage (\<^verbatim>\<open>ServerDetailPage.tsx\<close>, \<^verbatim>\<open>RangeTabs.tsx\<close>).

  \<^bold>\<open>Live list.\<close> LiveSnapshots with LiveProps and LiveTheorems: the queue of updates refines a map
  from ids to snapshots; Overview (\<^verbatim>\<open>OverviewPage.tsx\<close>, \<^verbatim>\<open>ServerRow.tsx\<close>, \<^verbatim>\<open>SummaryPanel.tsx\<close>); Format
  (\<^verbatim>\<open>utils/format.ts\<close>, \<^verbatim>\<open>MetricBar.tsx\<close>), where the loop over byte units is proved to end.

  \<^bold>\<open>Management.\<close> TokenRouter (\<^verbatim>\<open>App.tsx\<close>, \<^verbatim>\<open>AppNav.tsx\<close>), ServerCollection, ServerForms
  (\<^verbatim>\<open>ServerForm.tsx\<close>, \<^verbatim>\<open>ServerInstallPanel.tsx\<close>), ServersPage, and Dashboard with DashboardProps, which
  put router, pages and requests together; the interface \<open>token_keeper\<close> states what the router owes
  the pages.

  \<^bold>\<open>Authentication.\<close> Auth and AuthProps: the gate and both forms.

  \<^bold>\<open>Alerts.\<close> AlertForms (\<^verbatim>\<open>AlertRuleForm.tsx\<close>, \<^verbatim>\<open>WebhookForm.tsx\<close>, \<^verbatim>\<open>AlertEventList.tsx\<close>), AlertsPage,
  AlertsServer (rules and headers in \<^verbatim>\<open>internal/alerting/handler.go\<close>), AlertsProps: the page with both
  of its forms and its requests, what a failure leaves on it, and what form and server make of a rule.
  WebhookProps: the headers of the webhook on their way from the database to the form and back. AlertRepository
  (\<^verbatim>\<open>alerting/repository.go\<close>: its tables with foreign keys and cascades) and AlertRoutes (the handlers)
  with AlertTables, the invariant of the tables. AlertListing and AlertPageServer: the pages of events
  join, which events the page can render, and its list of rules against the server's.

  \<^bold>\<open>The server.\<close> GoTypes (\<^verbatim>\<open>protocol/report.go\<close>, the conversion of counters). LiveServer (store and
  hub), LiveCoordinator (coordinator, sweeper, handlers) and LiveServerProps: what each event stream
  gets, and that the events follow the store. HistoryServer (accumulator, aggregator, store,
  handler); HistoryAggregate states what the aggregator needs of its writer as the interface
  \<open>minute_writer\<close>, interpreted by the store, and proves that no report is lost; HistoryServerProps
  adds what a minute's record says of its reports and the paged query. The runs of the aggregator are bounded by
  \<open>2\<^sup>6\<^sup>4\<close> operations, so that the revision of a bucket does not wrap around, and a minute by
  \<open>2\<^sup>5\<^sup>3 / 100\<close> reports, so that sums of percentages stay where rounding keeps integers. AlertMachine:
  the state machine of a rule, equal to a specification on the history of its observations;
  AlertEvaluator (metrics, evaluator, its queue, delivery) and AlertProps: the evaluator runs that
  machine through all failures, and the offline rule agrees with the store.

  Registry (servers and tokens), ServerSystem and ServerSystemProps put registry and coordinator
  together: a token authenticates the server it was last issued for, and the live part knows
  registered servers only. Sessions and SessionProps: a session lasts from login to logout or end.
  Both assume that SHA-256 has no collision among the tokens in play; the texts of seconds keep the
  order of time until the year 9999 (\<open>sec_text_ok\<close>).

  GoHttp (the handlers of the registry, \<^verbatim>\<open>servers/handler.go\<close>, and how ids and bodies are read),
  HttpRouter (\<^verbatim>\<open>httpapi/router.go\<close>: every route over the whole state, with the cascades of a removal) and
  HttpProps: the tables refer to registered servers, nothing of a removed server stays or comes back,
  and nobody without a session changes anything that is not meant to be open.

  \<^bold>\<open>The agent.\<close> Agent (\<^verbatim>\<open>internal/agent\<close>: disks, default route, rates, collector, client, loop) and
  AgentProps: the route of least metric, the server accepts what is collected, and a working agent's
  server stays online; the bound on the length and the failures of its attempts, \<open>longest_gap\<close>, is
  computed from the waits of the loop and the 30 seconds of the sweeper.
  The interface \<open>heartbeat\<close> states what the agent needs of the coordinator, which interprets it.

  \<^bold>\<open>Server and interface.\<close> SessionProps also shows that the gate of the interface shows what the
  server's session says. EndToEnd: the JSON the server writes, read by the interface. A client that
  has read the events, among its loads, reconnections and renders, shows the server's store, and a
  report reaches the chart of its minute; what a load begun after an event is answered with is stated by
  \<open>listed_after\<close>, the answer of \<open>ListStatus\<close> at a later moment of the server's run. Ids
  and times are integers of at most \<open>2\<^sup>5\<^sup>3\<close> there, so that they survive as Numbers.

  \<^bold>\<open>Assumptions on React.\<close> State is set and rendered between steps; the live hook alone keeps its
  queue of update functions, since they read a ref only when React runs them, while the router's
  functions are run when given. Effects run after the render that asks for them; an effect of a
  component that is no longer shown has been cleaned up.

  \<^bold>\<open>Not modelled.\<close> The commands that read flags and start the server and the
  agent, and the load generator; the database behind its queries, its driver and migrations; static
  files and downloads; the choice of a route by its path; the exchange with the webhook and the
  rendering of its template, the workers of the delivery queue, the framing and heartbeats of the
  event stream, the tickers of the background jobs, the cancelling of contexts, what gopsutil reads,
  and the text of JSON on the server, where the value that is read back stands for the text.
  Constant markup, styles and labels for assistive technology that depend on nothing; moving the DOM
  focus (which button is to get it is modelled); the browser's validation of inputs; lazy loading;
  what the chart library draws; \<open>StrictMode\<close>, which runs effects twice in
  development.
\<close>

end
